(* ===== verification/Prelude.thy ===== *)
theory Prelude
  imports Main "HOL-Library.Char_ord" "HOL-Library.List_Lexorder"
begin

text \<open>
  Shared vocabulary of the development: fallible computations as sums (the left
  summand is the thrown error), JavaScript strings as char lists with the
  character classes of the contracts' regular expressions, decimal notation as
  \<open>BigInt\<close> reads and prints it, and the two list-of-rows idioms every
  service uses on its database tables (find a row by key, update the row with a
  key).  Timestamps are integers counting milliseconds; an ISO-8601 string is
  represented by the instant it denotes.
\<close>

named_theorems res_simps \<open>inversion of successful and failing computations\<close>

type_synonym ('e, 'a) res = "'e + 'a"
type_synonym time = int

section \<open>Fallible computations\<close>

definition andThen :: "('e, 'a) res \<Rightarrow> ('a \<Rightarrow> ('e, 'b) res) \<Rightarrow> ('e, 'b) res" where
  "andThen m f = (case m of Inl e \<Rightarrow> Inl e | Inr x \<Rightarrow> f x)"

lemma andThen_Inl [simp]: "andThen (Inl e) f = Inl e"
  by (simp add: andThen_def)

lemma andThen_Inr [simp]: "andThen (Inr x) f = f x"
  by (simp add: andThen_def)

lemma andThen_eq_Inr [res_simps]:
  "(andThen m f = Inr y) = (\<exists>x. m = Inr x \<and> f x = Inr y)"
  by (cases m) simp_all

lemma andThen_eq_Inl [res_simps]:
  "(andThen m f = Inl e) = (m = Inl e \<or> (\<exists>x. m = Inr x \<and> f x = Inl e))"
  by (cases m) auto

definition require :: "bool \<Rightarrow> 'e \<Rightarrow> ('e, unit) res" where
  "require b e = (if b then Inr () else Inl e)"

lemma require_eq_Inr [res_simps]: "(require b e = Inr u) = b"
  by (simp add: require_def)

lemma require_eq_Inl [res_simps]: "(require b e = Inl e') = (\<not> b \<and> e' = e)"
  by (auto simp: require_def)

lemma require_True [simp]: "require True e = Inr ()"
  by (simp add: require_def)

lemma require_False [simp]: "require False e = Inl e"
  by (simp add: require_def)

definition ofOption :: "'e \<Rightarrow> 'a option \<Rightarrow> ('e, 'a) res" where
  "ofOption e x = (case x of None \<Rightarrow> Inl e | Some y \<Rightarrow> Inr y)"

lemma ofOption_simps [simp]:
  "ofOption e None = Inl e" "ofOption e (Some y) = Inr y"
  by (simp_all add: ofOption_def)

lemma ofOption_eq_Inr [res_simps]: "(ofOption e x = Inr y) = (x = Some y)"
  by (cases x) simp_all

lemma ofOption_eq_Inl [res_simps]: "(ofOption e x = Inl e') = (x = None \<and> e' = e)"
  by (cases x) auto

section \<open>Characters and strings\<close>

definition is_digit :: "char \<Rightarrow> bool" where
  "is_digit c = (CHR ''0'' \<le> c \<and> c \<le> CHR ''9'')"

definition is_upper :: "char \<Rightarrow> bool" where
  "is_upper c = (CHR ''A'' \<le> c \<and> c \<le> CHR ''Z'')"

definition is_lower :: "char \<Rightarrow> bool" where
  "is_lower c = (CHR ''a'' \<le> c \<and> c \<le> CHR ''z'')"

definition is_upper_alnum :: "char \<Rightarrow> bool" where
  "is_upper_alnum c = (is_upper c \<or> is_digit c)"

definition is_alnum :: "char \<Rightarrow> bool" where
  "is_alnum c = (is_upper c \<or> is_lower c \<or> is_digit c)"

definition digit_char :: "nat \<Rightarrow> char" where
  "digit_char d = char_of (48 + d)"

definition digit_val :: "char \<Rightarrow> nat" where
  "digit_val c = of_char c - 48"

text \<open>\<open>toUpperCase\<close> and \<open>toLowerCase\<close> on ASCII letters.\<close>

definition js_upper :: "char \<Rightarrow> char" where
  "js_upper c = (if is_lower c then char_of ((of_char c :: nat) - 32) else c)"

definition ascii_lower :: "char \<Rightarrow> char" where
  "ascii_lower c = (if is_upper c then char_of ((of_char c :: nat) + 32) else c)"

text \<open>\<open>startsWith\<close>, \<open>includes\<close>, \<open>split\<close> with a one-character separator, and \<open>join\<close>.\<close>

definition starts_with :: "string \<Rightarrow> string \<Rightarrow> bool" where
  "starts_with p s = (take (length p) s = p)"

fun has_substring :: "string \<Rightarrow> string \<Rightarrow> bool" where
  "has_substring p [] = (p = [])"
| "has_substring p (c # s) = (starts_with p (c # s) \<or> has_substring p s)"

fun split_on :: "char \<Rightarrow> string \<Rightarrow> string list" where
  "split_on d [] = [[]]"
| "split_on d (c # s) =
     (if c = d then [] # split_on d s
      else (case split_on d s of [] \<Rightarrow> [[c]] | w # ws \<Rightarrow> (c # w) # ws))"

fun join_with :: "string \<Rightarrow> string list \<Rightarrow> string" where
  "join_with d [] = []"
| "join_with d [w] = w"
| "join_with d (w # v # ws) = w @ d @ join_with d (v # ws)"

lemma split_on_not_Nil [simp]: "split_on d s \<noteq> []"
  by (induction s) (auto split: list.splits)

lemma join_with_Cons: "ws \<noteq> [] \<Longrightarrow> join_with d (w # ws) = w @ d @ join_with d ws"
  by (cases ws) simp_all

lemma join_split [simp]: "join_with [d] (split_on d s) = s"
proof (induction s)
  case (Cons c s)
  then show ?case
    by (cases "split_on d s"; cases "tl (split_on d s)") (auto simp: join_with_Cons)
qed simp

lemma split_on_no_sep: "d \<notin> set s \<Longrightarrow> split_on d s = [s]"
  by (induction s) auto

lemma split_on_append:
  "d \<notin> set w \<Longrightarrow> split_on d (w @ d # s) = w # split_on d s"
  by (induction w) auto

lemma split_join:
  assumes "ws \<noteq> []" and "\<forall>w \<in> set ws. d \<notin> set w"
  shows "split_on d (join_with [d] ws) = ws"
  using assms
proof (induction ws)
  case (Cons w ws)
  then show ?case
    by (cases ws) (simp_all add: split_on_append split_on_no_sep)
qed simp

lemma starts_with_append [simp]: "starts_with p (p @ s)"
  by (simp add: starts_with_def)

section \<open>Decimal notation\<close>

lemma is_digit_of_char: "is_digit c = (48 \<le> (of_char c :: nat) \<and> (of_char c :: nat) \<le> 57)"
  by (simp add: is_digit_def less_eq_char_def)

lemma digit_val_char [simp]: "d < 10 \<Longrightarrow> digit_val (digit_char d) = d"
  by (simp add: digit_val_def digit_char_def)

lemma is_digit_char [simp]: "d < 10 \<Longrightarrow> is_digit (digit_char d)"
  by (simp add: is_digit_of_char digit_char_def)

lemma digit_char_val: "is_digit c \<Longrightarrow> digit_char (digit_val c) = c"
  by (simp add: is_digit_of_char digit_char_def digit_val_def)

lemma digit_val_less [simp]: "is_digit c \<Longrightarrow> digit_val c < 10"
  by (auto simp: is_digit_of_char digit_val_def)

lemma digit_val_0 [simp]: "digit_val CHR ''0'' = 0"
  by (simp add: digit_val_def)

lemma digit_char_0 [simp]: "digit_char 0 = CHR ''0''"
  by (simp add: digit_char_def char_of_def bit_iff_odd)

lemma digit_char_eq_0: "d < 10 \<Longrightarrow> (digit_char d = CHR ''0'') = (d = 0)"
  by (metis digit_val_char digit_val_0 digit_char_0)

lemma digit_val_eq_0: "is_digit c \<Longrightarrow> (digit_val c = 0) = (c = CHR ''0'')"
  by (metis digit_char_val digit_val_0 digit_char_0)

fun dec_of_nat :: "nat \<Rightarrow> string" where
  "dec_of_nat n = (if n < 10 then [digit_char n]
                   else dec_of_nat (n div 10) @ [digit_char (n mod 10)])"

declare dec_of_nat.simps [simp del]

definition nat_of_dec :: "string \<Rightarrow> nat" where
  "nat_of_dec s = foldl (\<lambda>a c. 10 * a + digit_val c) 0 s"

definition dec_of_int :: "int \<Rightarrow> string" where
  "dec_of_int i = (if i < 0 then CHR ''-'' # dec_of_nat (nat (- i)) else dec_of_nat (nat i))"

text \<open>\<open>BigInt\<close> of a decimal literal with an optional minus sign.\<close>

definition int_of_dec :: "string \<Rightarrow> int" where
  "int_of_dec s = (case s of [] \<Rightarrow> 0
     | c # t \<Rightarrow> if c = CHR ''-'' then - int (nat_of_dec t) else int (nat_of_dec s))"

text \<open>The canonical decimal numerals \<open>0|[1-9][0-9]*\<close>.\<close>

definition dec_numeral :: "string \<Rightarrow> bool" where
  "dec_numeral s = (s \<noteq> [] \<and> list_all is_digit s \<and> (hd s = CHR ''0'' \<longrightarrow> s = ''0''))"

lemma nat_of_dec_Nil [simp]: "nat_of_dec [] = 0"
  by (simp add: nat_of_dec_def)

lemma nat_of_dec_snoc [simp]: "nat_of_dec (s @ [c]) = 10 * nat_of_dec s + digit_val c"
  by (simp add: nat_of_dec_def)

lemma nat_of_dec_append:
  "nat_of_dec (s @ t) = nat_of_dec s * 10 ^ length t + nat_of_dec t"
proof (induction t rule: rev_induct)
  case (snoc c t)
  then show ?case
    by (simp add: algebra_simps flip: append_assoc)
qed simp

lemma dec_of_nat_digits [simp]: "list_all is_digit (dec_of_nat n)"
  by (induction n rule: dec_of_nat.induct) (subst dec_of_nat.simps, simp)

lemma dec_of_nat_not_Nil [simp]: "dec_of_nat n \<noteq> []"
  by (subst dec_of_nat.simps) simp

lemma nat_of_dec_of_nat [simp]: "nat_of_dec (dec_of_nat n) = n"
proof (induction n rule: dec_of_nat.induct)
  case (1 n)
  then show ?case
    by (cases "n < 10") (simp_all add: dec_of_nat.simps [of n] nat_of_dec_def)
qed

lemma dec_of_nat_hd: "n > 0 \<Longrightarrow> hd (dec_of_nat n) \<noteq> CHR ''0''"
proof (induction n rule: dec_of_nat.induct)
  case (1 n)
  show ?case
  proof (cases "n < 10")
    case True
    with 1 show ?thesis by (simp add: dec_of_nat.simps [of n] digit_char_eq_0)
  next
    case False
    with 1 have "hd (dec_of_nat (n div 10)) \<noteq> CHR ''0''" by auto
    with False show ?thesis by (simp add: dec_of_nat.simps [of n])
  qed
qed

lemma dec_of_nat_0 [simp]: "dec_of_nat 0 = ''0''"
  by (simp add: dec_of_nat.simps)

lemma dec_numeral_dec_of_nat [simp]: "dec_numeral (dec_of_nat n)"
  using dec_of_nat_hd [of n] by (cases "n = 0") (auto simp: dec_numeral_def is_digit_def)

lemma nat_of_dec_ge: "s \<noteq> [] \<Longrightarrow> list_all is_digit s \<Longrightarrow> hd s \<noteq> CHR ''0''
    \<Longrightarrow> 10 ^ (length s - 1) \<le> nat_of_dec s"
proof (induction s rule: rev_induct)
  case (snoc c s)
  show ?case
  proof (cases "s = []")
    case True
    with snoc.prems have "digit_val c \<noteq> 0" by (simp add: digit_val_eq_0)
    with True show ?thesis by (simp add: nat_of_dec_def)
  next
    case False
    with snoc have "10 ^ (length s - 1) \<le> nat_of_dec s" by simp
    then have "10 * 10 ^ (length s - 1) \<le> 10 * nat_of_dec s" by simp
    moreover have "10 * (10::nat) ^ (length s - 1) = 10 ^ length s"
      using False by (cases "length s") simp_all
    ultimately show ?thesis by simp
  qed
qed simp

lemma nat_of_dec_less: "list_all is_digit s \<Longrightarrow> nat_of_dec s < 10 ^ length s"
proof (induction s rule: rev_induct)
  case (snoc c s)
  then have "nat_of_dec s < 10 ^ length s" "digit_val c < 10" by simp_all
  then show ?case by simp
qed simp

lemma dec_of_nat_of_dec:
  "dec_numeral s \<Longrightarrow> dec_of_nat (nat_of_dec s) = s"
proof (induction s rule: rev_induct)
  case (snoc c s)
  show ?case
  proof (cases "s = []")
    case True
    with snoc.prems show ?thesis
      by (simp add: dec_numeral_def nat_of_dec_def dec_of_nat.simps digit_char_val)
  next
    case False
    with snoc.prems have c: "is_digit c" and s: "dec_numeral s" and h: "hd s \<noteq> CHR ''0''"
      by (auto simp: dec_numeral_def)
    have "1 \<le> nat_of_dec s"
      using nat_of_dec_ge [of s] False s h
      by (metis One_nat_def Suc_leI dec_numeral_def less_le_trans zero_less_numeral zero_less_power)
    then have "\<not> 10 * nat_of_dec s + digit_val c < 10" by simp
    then show ?thesis
      using c snoc.IH [OF s]
      by (simp add: dec_of_nat.simps [of "10 * nat_of_dec s + digit_val c"] digit_char_val)
  qed
qed (simp add: dec_numeral_def)

lemma dec_of_nat_inject [simp]: "(dec_of_nat m = dec_of_nat n) = (m = n)"
  by (metis nat_of_dec_of_nat)

lemma length_dec_of_nat_le:
  assumes "k > 0"
  shows "(length (dec_of_nat n) \<le> k) = (n < 10 ^ k)"
proof
  assume "length (dec_of_nat n) \<le> k"
  then have "(10::nat) ^ length (dec_of_nat n) \<le> 10 ^ k" by (rule power_increasing) simp
  with nat_of_dec_less [of "dec_of_nat n"] show "n < 10 ^ k"
    by (metis dec_of_nat_digits less_le_trans nat_of_dec_of_nat)
next
  assume n: "n < 10 ^ k"
  show "length (dec_of_nat n) \<le> k"
  proof (cases "n = 0")
    case False
    then have "10 ^ (length (dec_of_nat n) - 1) \<le> n"
      using nat_of_dec_ge [of "dec_of_nat n"] dec_of_nat_hd [of n] by simp
    with n have "(10::nat) ^ (length (dec_of_nat n) - 1) < 10 ^ k" by (rule le_less_trans [rotated])
    then have "length (dec_of_nat n) - 1 < k" by (rule power_less_imp_less_exp [rotated]) simp
    then show ?thesis by simp
  qed (use assms in simp)
qed

lemma digit_not_minus: "is_digit c \<Longrightarrow> c \<noteq> CHR ''-''"
  by (auto simp: is_digit_def)

lemma dec_of_nat_no_minus [simp]: "dec_of_nat n \<noteq> CHR ''-'' # t"
proof
  assume "dec_of_nat n = CHR ''-'' # t"
  with dec_of_nat_digits [of n] have "is_digit CHR ''-''" by (metis list.pred_inject(2))
  then show False by (simp add: is_digit_def)
qed

lemma int_of_dec_of_nat [simp]: "int_of_dec (dec_of_nat n) = int n"
  by (cases "dec_of_nat n")
    (use dec_of_nat_no_minus [of n] nat_of_dec_of_nat [of n] in
      \<open>auto simp: int_of_dec_def simp del: dec_of_nat_no_minus nat_of_dec_of_nat\<close>)

lemma int_of_dec_minus [simp]: "int_of_dec (CHR ''-'' # s) = - int (nat_of_dec s)"
  by (simp add: int_of_dec_def)

lemma int_of_dec_of_int [simp]: "int_of_dec (dec_of_int i) = i"
  by (simp add: dec_of_int_def)

lemma dec_of_int_inject [simp]: "(dec_of_int i = dec_of_int j) = (i = j)"
  by (metis int_of_dec_of_int)

lemma int_of_dec_numeral: "dec_numeral s \<Longrightarrow> int_of_dec s = int (nat_of_dec s)"
  by (cases s) (auto simp: int_of_dec_def dec_numeral_def is_digit_def)

text \<open>For evaluation the same functions on binary integers.\<close>

function int_dec :: "int \<Rightarrow> string" where
  "int_dec i = (if i < 10 then [digit_char (nat i)] else int_dec (i div 10) @ [digit_char (nat (i mod 10))])"
  by auto
termination by (relation "measure nat") auto

declare int_dec.simps [simp del]

lemma int_dec_of_nat: "int_dec (int n) = dec_of_nat n"
proof (induction n rule: less_induct)
  case (less n)
  have "int n div 10 = int (n div 10)" "int n mod 10 = int (n mod 10)" by (simp_all add: zdiv_int zmod_int)
  then show ?case
    using less [of "n div 10"] by (subst int_dec.simps, subst dec_of_nat.simps) simp
qed

lemma dec_of_int_code [code]: "dec_of_int i = (if i < 0 then CHR ''-'' # int_dec (- i) else int_dec i)"
  by (simp add: dec_of_int_def int_dec_of_nat [symmetric])

lemma int_of_dec_code [code]:
  "int_of_dec s = (case s of [] \<Rightarrow> 0
     | c # t \<Rightarrow> if c = CHR ''-'' then - foldl (\<lambda>a c. 10 * a + int (digit_val c)) 0 t
               else foldl (\<lambda>a c. 10 * a + int (digit_val c)) 0 s)"
proof -
  have "int (foldl (\<lambda>a c. 10 * a + digit_val c) n u) = foldl (\<lambda>a c. 10 * a + int (digit_val c)) (int n) u" for n u
    by (induction u arbitrary: n) simp_all
  then show ?thesis by (auto simp: int_of_dec_def nat_of_dec_def split: list.splits)
qed

text \<open>For evaluation, character classes by the bits of a character.\<close>

lemma digit_char_code [code]:
  "digit_char d = (if d < 10 then ''0123456789'' ! d else char_of (48 + d))"
proof (cases "d < 10")
  case True
  then have "d \<in> set [0 ..< 10]" by simp
  then show ?thesis by (auto simp: upt_rec digit_char_def char_of_def bit_0)
qed (simp add: digit_char_def)

lemma is_digit_code [code]:
  "is_digit (Char b0 b1 b2 b3 b4 b5 b6 b7) = (\<not> b7 \<and> \<not> b6 \<and> b5 \<and> b4 \<and> \<not> (b3 \<and> (b2 \<or> b1)))"
  by (cases b0; cases b1; cases b2; cases b3; cases b4; cases b5; cases b6; cases b7)
    (simp_all add: is_digit_of_char)

lemma digit_val_code [code]:
  "digit_val (Char b0 b1 b2 b3 b4 b5 b6 b7) =
     (if is_digit (Char b0 b1 b2 b3 b4 b5 b6 b7)
      then of_bool b0 + 2 * of_bool b1 + 4 * of_bool b2 + 8 * of_bool b3 else of_char (Char b0 b1 b2 b3 b4 b5 b6 b7) - 48)"
  by (cases b0; cases b1; cases b2; cases b3; cases b4; cases b5; cases b6; cases b7)
    (simp_all add: digit_val_def is_digit_code)

lemma is_upper_code [code]:
  "is_upper (Char b0 b1 b2 b3 b4 b5 b6 b7) =
     (\<not> b7 \<and> b6 \<and> \<not> b5 \<and> (b0 \<or> b1 \<or> b2 \<or> b3 \<or> b4) \<and> \<not> (b4 \<and> b3 \<and> (b2 \<or> b1 \<and> b0)))"
  by (cases b0; cases b1; cases b2; cases b3; cases b4; cases b5; cases b6; cases b7)
    (simp_all add: is_upper_def less_eq_char_def)

lemma is_lower_code [code]:
  "is_lower (Char b0 b1 b2 b3 b4 b5 b6 b7) =
     (\<not> b7 \<and> b6 \<and> b5 \<and> (b0 \<or> b1 \<or> b2 \<or> b3 \<or> b4) \<and> \<not> (b4 \<and> b3 \<and> (b2 \<or> b1 \<and> b0)))"
  by (cases b0; cases b1; cases b2; cases b3; cases b4; cases b5; cases b6; cases b7)
    (simp_all add: is_lower_def less_eq_char_def)

lemma js_upper_code [code]:
  "js_upper (Char b0 b1 b2 b3 b4 b5 b6 b7) =
     (if is_lower (Char b0 b1 b2 b3 b4 b5 b6 b7) then Char b0 b1 b2 b3 b4 False b6 b7 else Char b0 b1 b2 b3 b4 b5 b6 b7)"
  by (cases b0; cases b1; cases b2; cases b3; cases b4; cases b5; cases b6; cases b7)
    (simp_all add: js_upper_def is_lower_def less_eq_char_def char_of_def bit_0)

lemma ascii_lower_code [code]:
  "ascii_lower (Char b0 b1 b2 b3 b4 b5 b6 b7) =
     (if is_upper (Char b0 b1 b2 b3 b4 b5 b6 b7) then Char b0 b1 b2 b3 b4 True b6 b7 else Char b0 b1 b2 b3 b4 b5 b6 b7)"
  by (cases b0; cases b1; cases b2; cases b3; cases b4; cases b5; cases b6; cases b7)
    (simp_all add: ascii_lower_def is_upper_def less_eq_char_def char_of_def bit_0)

section \<open>Tables as lists of rows\<close>

text \<open>\<open>findUnique\<close> on a key column, and \<open>update\<close> of the rows with that key.\<close>

definition find_by :: "('r \<Rightarrow> 'k) \<Rightarrow> 'k \<Rightarrow> 'r list \<Rightarrow> 'r option" where
  "find_by key k rows = List.find (\<lambda>r. key r = k) rows"

definition update_by :: "('r \<Rightarrow> 'k) \<Rightarrow> 'k \<Rightarrow> ('r \<Rightarrow> 'r) \<Rightarrow> 'r list \<Rightarrow> 'r list" where
  "update_by key k f rows = map (\<lambda>r. if key r = k then f r else r) rows"

lemma find_by_Nil [simp]: "find_by key k [] = None"
  by (simp add: find_by_def)

lemma find_by_Cons [simp]:
  "find_by key k (r # rows) = (if key r = k then Some r else find_by key k rows)"
  by (simp add: find_by_def)

lemma find_by_None: "(find_by key k rows = None) = (k \<notin> key ` set rows)"
  by (induction rows) auto

lemma find_by_Some: "find_by key k rows = Some r \<Longrightarrow> r \<in> set rows \<and> key r = k"
  by (induction rows) (auto split: if_splits)

lemma find_by_append:
  "find_by key k (xs @ ys) =
     (case find_by key k xs of Some r \<Rightarrow> Some r | None \<Rightarrow> find_by key k ys)"
  by (induction xs) auto

lemma find_by_distinct:
  "distinct (map key rows) \<Longrightarrow> r \<in> set rows \<Longrightarrow> find_by key (key r) rows = Some r"
  by (induction rows) (auto simp: rev_image_eqI)

lemma set_update_by: "set (update_by key k f rows) = (\<lambda>r. if key r = k then f r else r) ` set rows"
  by (simp add: update_by_def)

lemma map_key_update_by [simp]:
  "(\<And>r. key' (f r) = key' r) \<Longrightarrow> map key' (update_by key k f rows) = map key' rows"
  by (simp add: update_by_def)

lemma find_by_update_by:
  assumes "\<And>r. key (f r) = key r"
  shows "find_by key j (update_by key k f rows) =
     (if j = k then map_option f (find_by key j rows) else find_by key j rows)"
  using assms by (induction rows) (auto simp: update_by_def)

end
