(* ===== verification/Money.thy ===== *)
theory Money
  imports Prelude
begin

text \<open>
  Money as the contracts package and the ledger service treat it
  (\<open>packages/contracts/src/accounts/v1.ts\<close>, \<open>packages/contracts/src/payments/v1.ts\<close>,
  \<open>services/ledger/src/money/money.ts\<close>): the wire format of minor units, its
  validation, its conversion to and from unbounded integers, the display format
  and the parser of browser-entered amounts, and the sign convention of the
  account classes.
\<close>

section \<open>Data\<close>

datatype ledgerAccountClass = ASSET | LIABILITY | EQUITY | REVENUE | EXPENSE

datatype postingDirection = DEBIT | CREDIT

record money =
  currency :: string
  minorUnits :: string

datatype amount_error = TypeError | ZodError

record totals =
  debitTotalMinor :: int
  creditTotalMinor :: int

section \<open>Validation of wire amounts\<close>

definition MAX_MINOR_UNIT_DIGITS :: nat where
  "MAX_MINOR_UNIT_DIGITS = 24"

text \<open>\<open>/^(?:0|[1-9]\d{0,23})$/u\<close>\<close>

definition minorUnitsSchema :: "string \<Rightarrow> bool" where
  "minorUnitsSchema s =
     (s = ''0'' \<or>
      (s \<noteq> [] \<and> is_digit (hd s) \<and> hd s \<noteq> CHR ''0'' \<and> list_all is_digit (tl s) \<and>
       length (tl s) \<le> 23))"

text \<open>\<open>/^[1-9]\d{0,23}$/u\<close>\<close>

definition positiveMinorUnitsSchema :: "string \<Rightarrow> bool" where
  "positiveMinorUnitsSchema s =
     (s \<noteq> [] \<and> is_digit (hd s) \<and> hd s \<noteq> CHR ''0'' \<and> list_all is_digit (tl s) \<and>
      length (tl s) \<le> 23)"

text \<open>\<open>/^-?(?:0|[1-9]\d{0,23})$/u\<close>, the expression that \<open>parseMinorUnits\<close> tests and
  that \<open>signedMinorUnitsSchema\<close> refines.\<close>

definition signed_minor_units_re :: "string \<Rightarrow> bool" where
  "signed_minor_units_re s =
     (minorUnitsSchema s \<or> (s \<noteq> [] \<and> hd s = CHR ''-'' \<and> minorUnitsSchema (tl s)))"

definition signedMinorUnitsSchema :: "string \<Rightarrow> bool" where
  "signedMinorUnitsSchema s = (signed_minor_units_re s \<and> s \<noteq> ''-0'')"

text \<open>\<open>/^[A-Z]{3}$/u\<close>, on the trimmed string.\<close>

definition currencyCodeSchema :: "string \<Rightarrow> bool" where
  "currencyCodeSchema s = (length s = 3 \<and> list_all is_upper s)"

definition moneySchema :: "money \<Rightarrow> bool" where
  "moneySchema m = (currencyCodeSchema (currency m) \<and> signedMinorUnitsSchema (minorUnits m))"

section \<open>Operations of the ledger's money module\<close>

definition parseMinorUnits :: "string \<Rightarrow> (amount_error, int) res" where
  "parseMinorUnits v =
     (if \<not> signed_minor_units_re v then Inl TypeError else Inr (int_of_dec v))"

definition serializeMinorUnits :: "int \<Rightarrow> string" where
  "serializeMinorUnits v = dec_of_int v"

definition toMoney :: "string \<Rightarrow> int \<Rightarrow> money" where
  "toMoney cur m = \<lparr>currency = cur, minorUnits = serializeMinorUnits m\<rparr>"

definition DEBIT_POSITIVE_CLASSES :: "ledgerAccountClass set" where
  "DEBIT_POSITIVE_CLASSES = {ASSET, EXPENSE}"

definition signedBalanceMinor :: "ledgerAccountClass \<Rightarrow> int \<Rightarrow> int \<Rightarrow> int" where
  "signedBalanceMinor accountClass debitTotal creditTotal =
     (if accountClass \<in> DEBIT_POSITIVE_CLASSES then debitTotal - creditTotal
      else creditTotal - debitTotal)"

definition applyDirection :: "postingDirection \<Rightarrow> int \<Rightarrow> totals \<Rightarrow> totals" where
  "applyDirection direction amountMinor t =
     (if direction = DEBIT
      then \<lparr>debitTotalMinor = debitTotalMinor t + amountMinor,
            creditTotalMinor = creditTotalMinor t\<rparr>
      else \<lparr>debitTotalMinor = debitTotalMinor t,
            creditTotalMinor = creditTotalMinor t + amountMinor\<rparr>)"

section \<open>Display format\<close>

definition padStart :: "nat \<Rightarrow> char \<Rightarrow> string \<Rightarrow> string" where
  "padStart n c s = replicate (n - length s) c @ s"

definition padEnd :: "nat \<Rightarrow> char \<Rightarrow> string \<Rightarrow> string" where
  "padEnd n c s = s @ replicate (n - length s) c"

text \<open>The replacement \<open>/\B(?=(\d{3})+(?!\d))/gu\<close> on a digit string: a comma before
  every group of three digits, counted from the right, except at the start.\<close>

fun group_thousands :: "string \<Rightarrow> string" where
  "group_thousands [] = []"
| "group_thousands [c] = [c]"
| "group_thousands (c # d # s) =
     (if length (d # s) mod 3 = 0 then c # CHR '','' # group_thousands (d # s)
      else c # group_thousands (d # s))"

definition formatMinorUnits :: "string \<Rightarrow> nat \<Rightarrow> string" where
  "formatMinorUnits units fractionDigits =
     (let negative = starts_with ''-'' units;
          digits = padStart (fractionDigits + 1) CHR ''0'' (if negative then tl units else units);
          sliced = take (length digits - fractionDigits) digits;
          whole = (if sliced = [] then ''0'' else sliced);
          grouped = group_thousands whole;
          fraction = (if fractionDigits > 0
                      then CHR ''.'' # drop (length digits - fractionDigits) digits else [])
      in (if negative then ''-'' else []) @ grouped @ fraction)"

definition formatMoney :: "money \<Rightarrow> nat \<Rightarrow> string" where
  "formatMoney m fractionDigits =
     currency m @ '' '' @ formatMinorUnits (minorUnits m) fractionDigits"

section \<open>Browser-entered amounts\<close>

text \<open>\<open>/^(?:0|[1-9]\d*)(?:\.\d{1,2})?$/u\<close> with the three spellings of zero refused.\<close>

definition human_amount_re :: "string \<Rightarrow> bool" where
  "human_amount_re s =
     (case split_on CHR ''.'' s of
        [w] \<Rightarrow> dec_numeral w
      | [w, d] \<Rightarrow> dec_numeral w \<and> list_all is_digit d \<and> 1 \<le> length d \<and> length d \<le> 2
      | _ \<Rightarrow> False)"

definition humanLkrAmountSchema :: "string \<Rightarrow> bool" where
  "humanLkrAmountSchema s =
     (human_amount_re s \<and> s \<noteq> ''0'' \<and> s \<noteq> ''0.0'' \<and> s \<noteq> ''0.00'')"

text \<open>The replacement \<open>/^0+(?=\d)/u\<close> by the empty string on a digit string.\<close>

fun strip_leading_zeros :: "string \<Rightarrow> string" where
  "strip_leading_zeros (c # d # s) =
     (if c = CHR ''0'' then strip_leading_zeros (d # s) else c # d # s)"
| "strip_leading_zeros s = s"

definition lkrAmountToMinorUnits :: "string \<Rightarrow> (amount_error, string) res" where
  "lkrAmountToMinorUnits v =
     (if \<not> humanLkrAmountSchema v then Inl ZodError
      else (let parts = split_on CHR ''.'' v;
                whole = hd parts;
                decimal = (if length parts \<ge> 2 then parts ! 1 else []);
                normalized = strip_leading_zeros (whole @ padEnd 2 CHR ''0'' decimal)
            in Inr (if normalized = [] then ''0'' else normalized)))"

section \<open>Facts about the wire format\<close>

lemma minorUnitsSchema_iff:
  "minorUnitsSchema s = (dec_numeral s \<and> length s \<le> MAX_MINOR_UNIT_DIGITS)"
  by (cases s) (auto simp: minorUnitsSchema_def dec_numeral_def MAX_MINOR_UNIT_DIGITS_def is_digit_def)

lemma positiveMinorUnitsSchema_iff:
  "positiveMinorUnitsSchema s = (minorUnitsSchema s \<and> s \<noteq> ''0'')"
  by (cases s) (auto simp: positiveMinorUnitsSchema_def minorUnitsSchema_def)

lemma minorUnitsSchema_dec_of_nat:
  "minorUnitsSchema (dec_of_nat n) = (n < 10 ^ MAX_MINOR_UNIT_DIGITS)"
  by (simp add: minorUnitsSchema_iff length_dec_of_nat_le MAX_MINOR_UNIT_DIGITS_def
      del: power_numeral)

lemma minorUnitsSchema_no_minus [simp]: "\<not> minorUnitsSchema (CHR ''-'' # s)"
  by (simp add: minorUnitsSchema_def is_digit_def)

lemma signed_re_dec_of_int:
  "signed_minor_units_re (dec_of_int i) = (\<bar>i\<bar> < 10 ^ MAX_MINOR_UNIT_DIGITS)"
proof -
  have *: "(nat j < 10 ^ k) = (j < 10 ^ k)" if "0 \<le> j" for j :: int and k :: nat
    using that by (simp add: nat_less_iff)
  have h: "hd (dec_of_nat n) \<noteq> CHR ''-''" for n
    by (metis dec_of_nat_no_minus dec_of_nat_not_Nil list.collapse)
  show ?thesis
    by (auto simp: signed_minor_units_re_def dec_of_int_def minorUnitsSchema_dec_of_nat * h)
qed

lemma serialize_parse:
  assumes "parseMinorUnits s = Inr v" and "s \<noteq> ''-0''"
  shows "serializeMinorUnits v = s"
proof (cases "minorUnitsSchema s")
  case True
  with assms show ?thesis
    by (auto simp: parseMinorUnits_def serializeMinorUnits_def dec_of_int_def signed_minor_units_re_def
        minorUnitsSchema_iff int_of_dec_numeral dec_of_nat_of_dec)
next
  case False
  with assms obtain t where s: "s = CHR ''-'' # t" and t: "minorUnitsSchema t" and v: "v = int_of_dec s"
    by (cases s) (auto simp: parseMinorUnits_def signed_minor_units_re_def split: if_splits)
  have "t \<noteq> ''0''" using assms s by simp
  then have "nat_of_dec t > 0"
    using t nat_of_dec_ge [of t] by (metis dec_numeral_def dec_of_nat_0 dec_of_nat_of_dec gr0I minorUnitsSchema_iff)
  with s t v show ?thesis
    by (simp add: serializeMinorUnits_def dec_of_int_def minorUnitsSchema_iff dec_of_nat_of_dec)
qed

lemma parse_positive:
  assumes "positiveMinorUnitsSchema s"
  shows "parseMinorUnits s = Inr (int (nat_of_dec s)) \<and> nat_of_dec s > 0"
proof -
  from assms have n: "dec_numeral s" and m: "minorUnitsSchema s" and z: "s \<noteq> ''0''"
    by (simp_all add: positiveMinorUnitsSchema_iff minorUnitsSchema_iff)
  moreover have "nat_of_dec s \<noteq> 0"
    using dec_of_nat_of_dec [OF n] z by (metis dec_of_nat_0)
  ultimately show ?thesis
    by (simp add: parseMinorUnits_def signed_minor_units_re_def int_of_dec_numeral)
qed

section \<open>Facts about the display format and the amount parser\<close>

text \<open>The number of cents an accepted amount denotes: the reference reading of
  the decimal notation.\<close>

definition human_cents :: "string \<Rightarrow> nat" where
  "human_cents v =
     (case split_on CHR ''.'' v of
        [w, d] \<Rightarrow> 100 * nat_of_dec w + (if length d = 1 then 10 * nat_of_dec d else nat_of_dec d)
      | w # _ \<Rightarrow> 100 * nat_of_dec w
      | [] \<Rightarrow> 0)"

lemma group_thousands_strip:
  "CHR '','' \<notin> set s \<Longrightarrow> filter (\<lambda>c. c \<noteq> CHR '','') (group_thousands s) = s"
  by (induction s rule: group_thousands.induct) auto

lemma digits_no_char:
  assumes "list_all is_digit s" and "\<not> is_digit c"
  shows "c \<notin> set s"
  using assms by (auto simp: list_all_iff)

lemma comma_dot_not_digit [simp]: "\<not> is_digit CHR '',''" "\<not> is_digit CHR ''.''"
  by (simp_all add: is_digit_def)

lemma dec_of_nat_no_comma_dot [simp]:
  "CHR '','' \<notin> set (dec_of_nat n)" "CHR ''.'' \<notin> set (dec_of_nat n)"
  by (rule digits_no_char; simp)+

lemma nat_of_dec_zero_Cons [simp]: "nat_of_dec (CHR ''0'' # s) = nat_of_dec s"
  using nat_of_dec_append [of "''0''" s] by (simp add: nat_of_dec_def)

lemma strip_leading_zeros_dec:
  "s \<noteq> [] \<Longrightarrow> list_all is_digit s \<Longrightarrow> strip_leading_zeros s = dec_of_nat (nat_of_dec s)"
proof (induction s)
  case (Cons c s)
  show ?case
  proof (cases s)
    case Nil
    with Cons.prems show ?thesis
      using dec_of_nat_of_dec [of "[c]"] by (simp add: dec_numeral_def)
  next
    case (Cons d t)
    with Cons.prems Cons.IH show ?thesis
      using dec_of_nat_of_dec [of "c # d # t"] by (auto simp: dec_numeral_def)
  qed
qed simp

lemma nat_of_dec_single [simp]: "nat_of_dec [c] = digit_val c"
  by (simp add: nat_of_dec_def)

lemma nat_of_dec_two [simp]: "nat_of_dec [c, d] = 10 * digit_val c + digit_val d"
  by (simp add: nat_of_dec_def)

lemma human_amount_cases:
  assumes "human_amount_re v"
  obtains (whole) "split_on CHR ''.'' v = [v]" "dec_numeral v"
    | (one) w c where "split_on CHR ''.'' v = [w, [c]]" "v = w @ [CHR ''.'', c]" "dec_numeral w" "is_digit c"
    | (two) w c d where "split_on CHR ''.'' v = [w, [c, d]]" "v = w @ [CHR ''.'', c, d]"
        "dec_numeral w" "is_digit c" "is_digit d"
proof -
  have v: "join_with ''.'' (split_on CHR ''.'' v) = v" by simp
  from assms consider w where "split_on CHR ''.'' v = [w]" "dec_numeral w"
    | w c where "split_on CHR ''.'' v = [w, [c]]" "dec_numeral w" "is_digit c"
    | w c d where "split_on CHR ''.'' v = [w, [c, d]]" "dec_numeral w" "is_digit c" "is_digit d"
    unfolding human_amount_re_def
    by (auto split: list.splits simp: le_Suc_eq length_Suc_conv numeral_2_eq_2)
  then show thesis
  proof cases
    case (1 w)
    with v show thesis by (simp add: whole)
  next
    case (2 w c)
    with v show thesis by (intro one [of w c]) simp_all
  next
    case (3 w c d)
    with v show thesis by (intro two [of w c d]) simp_all
  qed
qed

lemma lkr_amount_value:
  assumes "human_amount_re v"
  shows "(let parts = split_on CHR ''.'' v;
              decimal = (if length parts \<ge> 2 then parts ! 1 else [])
          in strip_leading_zeros (hd parts @ padEnd 2 CHR ''0'' decimal)) = dec_of_nat (human_cents v)"
  using assms
proof (cases rule: human_amount_cases)
  case whole
  then have "list_all is_digit (v @ ''00'')" by (simp add: dec_numeral_def is_digit_def)
  with whole show ?thesis
    by (simp add: human_cents_def padEnd_def numeral_2_eq_2 strip_leading_zeros_dec nat_of_dec_append)
next
  case (one w c)
  then have "list_all is_digit (w @ [c, CHR ''0''])" by (simp add: dec_numeral_def is_digit_def)
  with one show ?thesis
    by (simp add: human_cents_def padEnd_def numeral_2_eq_2 strip_leading_zeros_dec nat_of_dec_append)
next
  case (two w c d)
  then have "list_all is_digit (w @ [c, d])" by (simp add: dec_numeral_def)
  with two show ?thesis
    by (simp add: human_cents_def padEnd_def numeral_2_eq_2 strip_leading_zeros_dec nat_of_dec_append)
qed

lemma dec_numeral_eq_0: "dec_numeral w \<Longrightarrow> (nat_of_dec w = 0) = (w = ''0'')"
  by (metis dec_of_nat_0 dec_of_nat_of_dec nat_of_dec_single digit_val_0)

lemma human_cents_positive:
  assumes "humanLkrAmountSchema v"
  shows "human_cents v > 0"
proof -
  from assms have re: "human_amount_re v" and z: "v \<noteq> ''0''" "v \<noteq> ''0.0''" "v \<noteq> ''0.00''"
    by (simp_all add: humanLkrAmountSchema_def)
  from re show ?thesis
  proof (cases rule: human_amount_cases)
    case whole
    with z show ?thesis by (simp add: human_cents_def dec_numeral_eq_0 flip: neq0_conv)
  next
    case (one w c)
    with z show ?thesis
      by (auto simp: human_cents_def dec_numeral_eq_0 digit_val_eq_0 simp flip: neq0_conv)
  next
    case (two w c d)
    with z show ?thesis
      by (auto simp: human_cents_def dec_numeral_eq_0 digit_val_eq_0 simp flip: neq0_conv)
  qed
qed

lemma cents_split: "100 * (n div 100) + (10 * (n div 10 mod 10) + n mod 10) = (n :: nat)"
proof -
  have "n div 100 = n div 10 div 10" by (simp flip: div_mult2_eq)
  then show ?thesis
    using mult_div_mod_eq [of 10 n] mult_div_mod_eq [of 10 "n div 10"] by linarith
qed

lemma pad_split:
  "take (length (padStart 3 CHR ''0'' (dec_of_nat n)) - 2) (padStart 3 CHR ''0'' (dec_of_nat n))
     = dec_of_nat (n div 100)
   \<and> drop (length (padStart 3 CHR ''0'' (dec_of_nat n)) - 2) (padStart 3 CHR ''0'' (dec_of_nat n))
     = [digit_char (n div 10 mod 10), digit_char (n mod 10)]"
proof -
  consider "n < 10" | "10 \<le> n" "n < 100" | "100 \<le> n" by linarith
  then show ?thesis
  proof cases
    case 1
    then show ?thesis by (simp add: padStart_def dec_of_nat.simps [of n] numeral_3_eq_3)
  next
    case 2
    then show ?thesis
      by (simp add: padStart_def dec_of_nat.simps [of n] dec_of_nat.simps [of "n div 10"] div_mult2_eq
          flip: div_mult2_eq)
  next
    case 3
    have n: "dec_of_nat n = dec_of_nat (n div 100) @ [digit_char (n div 10 mod 10), digit_char (n mod 10)]"
      using 3 by (subst dec_of_nat.simps, subst dec_of_nat.simps) (simp add: div_mult2_eq flip: div_mult2_eq)
    have "length (dec_of_nat (n div 100)) \<ge> 1" by (simp add: Suc_le_eq)
    then have "3 - length (dec_of_nat n) = 0" by (simp add: n)
    then have "padStart 3 CHR ''0'' (dec_of_nat n) = dec_of_nat n" by (simp add: padStart_def)
    then show ?thesis by (simp add: n)
  qed
qed

lemma format_two_digits:
  "formatMinorUnits (dec_of_nat n) 2 =
     group_thousands (dec_of_nat (n div 100)) @
       [CHR ''.'', digit_char (n div 10 mod 10), digit_char (n mod 10)]"
proof -
  have h: "\<not> starts_with ''-'' (dec_of_nat n)"
    unfolding starts_with_def by (cases "dec_of_nat n") (use dec_of_nat_no_minus [of n] in auto)
  have three: "(2::nat) + 1 = 3" by simp
  show ?thesis
    unfolding formatMinorUnits_def Let_def three using pad_split [of n] h by simp
qed

lemma filter_digits: "list_all is_digit s \<Longrightarrow> filter (\<lambda>c. c \<noteq> CHR '','') s = s"
  by (rule filter_True) (auto simp: list_all_iff)

lemma display_digits:
  "filter (\<lambda>c. c \<noteq> CHR '','') (formatMinorUnits (dec_of_nat n) 2) =
     dec_of_nat (n div 100) @ CHR ''.'' # [digit_char (n div 10 mod 10), digit_char (n mod 10)]"
proof -
  have "digit_char d \<noteq> CHR '',''" if "d < 10" for d
    using is_digit_char [OF that] by auto
  then show ?thesis by (simp add: format_two_digits group_thousands_strip)
qed

lemma split_display:
  assumes "v = dec_of_nat w @ CHR ''.'' # [digit_char c, digit_char d]" "c < 10" "d < 10"
  shows "split_on CHR ''.'' v = [dec_of_nat w, [digit_char c, digit_char d]]"
proof -
  have "digit_char e \<noteq> CHR ''.''" if "e < 10" for e
    using is_digit_char [OF that] by auto
  with assms show ?thesis by (simp add: split_on_append)
qed

section \<open>Properties\<close>

text \<open>a minor-unit amount survives the wire.  Printing any integer and parsing it back
  returns that integer exactly when it fits the 24-digit contract and is refused with a
  \<open>TypeError\<close> otherwise; and the text of an accepted amount is the canonical one, the
  single exception being the spelling \<open>-0\<close> that the signed schema refuses.\<close>

theorem minor_units_roundtrip:
  "parseMinorUnits (serializeMinorUnits v) =
     (if \<bar>v\<bar> < 10 ^ MAX_MINOR_UNIT_DIGITS then Inr v else Inl TypeError)
   \<and> (signedMinorUnitsSchema s \<longleftrightarrow>
       (\<exists>w. parseMinorUnits s = Inr w \<and> serializeMinorUnits w = s))"
proof
  show "parseMinorUnits (serializeMinorUnits v) =
     (if \<bar>v\<bar> < 10 ^ MAX_MINOR_UNIT_DIGITS then Inr v else Inl TypeError)"
    by (simp add: parseMinorUnits_def serializeMinorUnits_def signed_re_dec_of_int)
  have "dec_of_int w \<noteq> ''-0''" for w
    using dec_of_nat_inject [of "nat (- w)" 0] by (auto simp: dec_of_int_def simp del: dec_of_nat_inject)
  then show "signedMinorUnitsSchema s \<longleftrightarrow>
       (\<exists>w. parseMinorUnits s = Inr w \<and> serializeMinorUnits w = s)"
    using serialize_parse [of s]
    by (auto simp: signedMinorUnitsSchema_def parseMinorUnits_def serializeMinorUnits_def)
qed

text \<open>the conversion of a browser-entered amount is exact.  Every string is either refused
  by the schema with a \<open>ZodError\<close>, or converted to the canonical numeral of the cents its
  decimal notation denotes, which is never zero; no rounding happens at any size.\<close>

theorem lkr_amount_exact:
  "lkrAmountToMinorUnits v =
     (if humanLkrAmountSchema v then Inr (dec_of_nat (human_cents v)) else Inl ZodError)
   \<and> (humanLkrAmountSchema v \<and> human_cents v > 0 \<or> lkrAmountToMinorUnits v = Inl ZodError)"
  using lkr_amount_value [of v] human_cents_positive [of v]
  by (auto simp: lkrAmountToMinorUnits_def Let_def humanLkrAmountSchema_def)

text \<open>what the customer sees can be typed back.  Formatting a positive amount of cents with
  two fraction digits and removing the thousands separators gives a string that the amount
  schema accepts and that converts to the same minor units.\<close>

theorem display_roundtrip:
  assumes "n > 0"
  shows "lkrAmountToMinorUnits (filter (\<lambda>c. c \<noteq> CHR '','') (formatMinorUnits (dec_of_nat n) 2))
    = Inr (dec_of_nat n)"
proof -
  define v where "v = dec_of_nat (n div 100) @ CHR ''.'' # [digit_char (n div 10 mod 10), digit_char (n mod 10)]"
  have sp: "split_on CHR ''.'' v = [dec_of_nat (n div 100), [digit_char (n div 10 mod 10), digit_char (n mod 10)]]"
    by (rule split_display [OF v_def]) simp_all
  have cents: "human_cents v = n"
    by (simp add: human_cents_def sp cents_split)
  have re: "human_amount_re v" by (simp add: human_amount_re_def sp)
  have "human_cents ''0'' = 0" "human_cents ''0.0'' = 0" "human_cents ''0.00'' = 0"
    by (simp_all add: human_cents_def)
  with cents assms re have "humanLkrAmountSchema v"
    by (auto simp: humanLkrAmountSchema_def)
  with cents re show ?thesis
    unfolding display_digits v_def [symmetric]
    using lkr_amount_value [of v] by (simp add: lkrAmountToMinorUnits_def Let_def)
qed

end
