(* ===== verification/LedgerDb.thy ===== *)
theory LedgerDb
  imports Money
begin

text \<open>
  The ledger service's data: its errors
  (\<open>services/ledger/src/common/errors/ledger.error.ts\<close>), the rows of its PostgreSQL
  tables (\<open>services/ledger/prisma/schema.prisma\<close>) and the unique indexes and check
  constraints the service relies on when it writes
  (\<open>services/ledger/prisma/migrations\<close>).  Each table is the list of its rows in
  insertion order.  Human-readable error messages are not modelled: an error is its code
  and its HTTP status.
\<close>

section \<open>Errors\<close>

text \<open>The \<open>meta.target\<close> of a Prisma unique violation: a string, an array, or absent.\<close>

datatype meta_target = TargetString string | TargetArray "string list" | TargetOther

datatype ledger_error =
    LedgerError string nat
  | AmountError amount_error
  | SyntaxError
  | PlainError
  | ContractError
  | P2002 meta_target
  | DbCheckViolation

definition invalidRequestError :: ledger_error where
  "invalidRequestError = LedgerError ''INVALID_REQUEST'' 400"

definition accountNotFoundError :: ledger_error where
  "accountNotFoundError = LedgerError ''ACCOUNT_NOT_FOUND'' 404"

definition accountNotActiveError :: ledger_error where
  "accountNotActiveError = LedgerError ''ACCOUNT_NOT_ACTIVE'' 409"

definition insufficientFundsError :: ledger_error where
  "insufficientFundsError = LedgerError ''INSUFFICIENT_FUNDS'' 409"

definition unbalancedJournalError :: ledger_error where
  "unbalancedJournalError = LedgerError ''UNBALANCED_JOURNAL'' 400"

definition currencyMismatchError :: ledger_error where
  "currencyMismatchError = LedgerError ''CURRENCY_MISMATCH'' 400"

definition idempotencyConflictError :: ledger_error where
  "idempotencyConflictError = LedgerError ''IDEMPOTENCY_CONFLICT'' 409"

definition idempotencyInProgressError :: ledger_error where
  "idempotencyInProgressError = LedgerError ''IDEMPOTENCY_IN_PROGRESS'' 409"

lemmas ledger_error_defs =
  invalidRequestError_def accountNotFoundError_def accountNotActiveError_def
  insufficientFundsError_def unbalancedJournalError_def currencyMismatchError_def
  idempotencyConflictError_def idempotencyInProgressError_def

definition lift_amount :: "(amount_error, 'a) res \<Rightarrow> (ledger_error, 'a) res" where
  "lift_amount r = map_sum AmountError (\<lambda>x. x) r"

lemma lift_amount_eq_Inr [res_simps]: "(lift_amount r = Inr x) = (r = Inr x)"
  by (cases r) (simp_all add: lift_amount_def)

lemma lift_amount_simps [simp]:
  "lift_amount (Inr x) = Inr x" "lift_amount (Inl e) = Inl (AmountError e)"
  by (simp_all add: lift_amount_def)

section \<open>Requests and results\<close>

datatype journalEntryType =
    ACCOUNT_ADJUSTMENT | SETTLEMENT_FUNDING | INTERNAL_TEST | CUSTOMER_TRANSFER
  | QR_PAYMENT | AGENT_CASH_IN | AGENT_CASH_OUT

datatype actorType = SERVICE | CUSTOMER | SYSTEM

datatype accountStatus = ACTIVE | FROZEN | CLOSED

datatype accountProductType = TIER0_WALLET

datatype systemAccountType =
  PLATFORM_SETTLEMENT_ASSET | CUSTOMER_FUNDS_LIABILITY_CONTROL | AGENT_FLOAT

text \<open>JSON values of request payloads; \<open>None\<close> in an object is \<open>undefined\<close>.\<close>

datatype json =
    JNull
  | JBool bool
  | JInt int
  | JStr string
  | JArr "json list"
  | JObj "(string \<times> json option) list"

record posting_request =
  pr_ledgerAccountId :: string
  pr_direction :: postingDirection
  pr_amountMinor :: string

record journal_request =
  jr_reference :: "string option"
  jr_entryType :: journalEntryType
  jr_currency :: string
  jr_description :: "string option"
  jr_effectiveAt :: "string option"
  jr_idempotencyKey :: string
  jr_postings :: "posting_request list"
  jr_metadata :: "(string \<times> json) list option"

record journal_actor =
  actor_type :: actorType
  actor_id :: string

record posting_result =
  po_id :: string
  po_ledgerAccountId :: string
  po_direction :: postingDirection
  po_amountMinor :: string
  po_sequence :: nat

record journal_result =
  jres_id :: string
  jres_reference :: string
  jres_entryType :: journalEntryType
  jres_currency :: string
  jres_totalMinor :: string
  jres_effectiveAt :: time
  jres_createdAt :: time
  jres_postings :: "posting_result list"

record account_detail =
  ad_id :: string
  ad_maskedReference :: string
  ad_productType :: accountProductType
  ad_status :: accountStatus
  ad_currency :: string
  ad_createdAt :: time
  ad_balance :: money
  ad_receivingReference :: string

record provision_result =
  pv_account :: account_detail
  pv_created :: bool

text \<open>The stored \<open>responseBody\<close> column holds one of the two result documents.\<close>

datatype response_body = JournalBody journal_result | ProvisionBody provision_result

section \<open>Tables\<close>

record customer_account =
  ca_id :: string
  ca_customerId :: string
  ca_publicReference :: string
  ca_maskedReference :: string
  ca_productType :: accountProductType
  ca_currency :: string
  ca_status :: accountStatus
  ca_ledgerAccountId :: string
  ca_createdAt :: time

record ledger_account =
  la_id :: string
  la_code :: string
  la_name :: string
  la_currency :: string
  la_accountClass :: ledgerAccountClass
  la_normalBalance :: postingDirection
  la_systemAccountType :: "systemAccountType option"
  la_allowNegativeBalance :: bool

record balance_projection =
  bp_ledgerAccountId :: string
  bp_debitTotalMinor :: int
  bp_creditTotalMinor :: int
  bp_version :: int
  bp_updatedAt :: time

record journal_entry =
  je_id :: string
  je_reference :: string
  je_entryType :: journalEntryType
  je_currency :: string
  je_description :: "string option"
  je_correlationId :: string
  je_effectiveAt :: time
  je_createdAt :: time
  je_createdByType :: actorType
  je_createdById :: string
  je_metadata :: "(string \<times> json) list"

record journal_posting =
  jp_id :: string
  jp_journalEntryId :: string
  jp_ledgerAccountId :: string
  jp_direction :: postingDirection
  jp_amountMinor :: int
  jp_currency :: string
  jp_sequence :: nat
  jp_createdAt :: time

datatype idempotencyStatus = IN_PROGRESS | COMPLETED

record idempotency_record =
  ir_scope :: string
  ir_keyHash :: string
  ir_requestHash :: string
  ir_status :: idempotencyStatus
  ir_responseBody :: "response_body option"
  ir_expiresAt :: time

datatype issueSeverity = WARNING | ERROR

record reconciliation_issue =
  ri_code :: string
  ri_severity :: issueSeverity
  ri_safeIdentifier :: "string option"

datatype reconciliationStatus = PASS | FAIL

record reconciliation_run =
  rr_id :: string
  rr_status :: reconciliationStatus
  rr_startedAt :: time
  rr_completedAt :: time
  rr_checkedJournalEntries :: nat
  rr_checkedPostings :: nat
  rr_checkedLedgerAccounts :: nat
  rr_checkedCustomerAccounts :: nat
  rr_issueCount :: nat
  rr_issues :: "reconciliation_issue list"
  rr_createdAt :: time

record ledger_db =
  customerAccounts :: "customer_account list"
  ledgerAccounts :: "ledger_account list"
  balanceProjections :: "balance_projection list"
  journalEntries :: "journal_entry list"
  journalPostings :: "journal_posting list"
  idempotencyRecords :: "idempotency_record list"
  reconciliationRuns :: "reconciliation_run list"

text \<open>
  What a handler takes from its surroundings: SHA-256, the UUIDs generated during the call,
  the wall clock, the transaction's \<open>CURRENT_TIMESTAMP\<close>, the retention setting, the parser
  of ISO dates, zod's UUID test, and what Prisma reports as the target of a violated unique
  index of the journal, posting and account tables.
\<close>

record ledger_env =
  sha256 :: "string \<Rightarrow> string"
  randomUUID :: "nat \<Rightarrow> string"
  nowMs :: time
  dbNow :: time
  idempotencyRetentionHours :: int
  dateParse :: "string \<Rightarrow> time"
  isUuid :: "string \<Rightarrow> bool"
  uniqueTarget :: "string \<Rightarrow> meta_target"

section \<open>Column constraints and inserts\<close>

text \<open>A PostgreSQL \<open>BIGINT\<close> column holds 64-bit signed integers; a larger value is an error.\<close>

definition int8_max :: int where
  "int8_max = 2 ^ 63 - 1"

definition int8_ok :: "int \<Rightarrow> bool" where
  "int8_ok i = (- (2 ^ 63) \<le> i \<and> i \<le> int8_max)"

definition insert_journal_entry ::
  "ledger_env \<Rightarrow> journal_entry \<Rightarrow> ledger_db \<Rightarrow> (ledger_error, ledger_db) res" where
  "insert_journal_entry env e db =
     (if je_id e \<in> je_id ` set (journalEntries db) then Inl (P2002 (uniqueTarget env ''journal_entries_pkey''))
      else if je_reference e \<in> je_reference ` set (journalEntries db)
      then Inl (P2002 (uniqueTarget env ''journal_entries_reference_key''))
      else if \<not> currencyCodeSchema (je_currency e) then Inl DbCheckViolation
      else Inr (db\<lparr>journalEntries := journalEntries db @ [e]\<rparr>))"

definition insert_journal_posting ::
  "ledger_env \<Rightarrow> journal_posting \<Rightarrow> ledger_db \<Rightarrow> (ledger_error, ledger_db) res" where
  "insert_journal_posting env p db =
     (if jp_id p \<in> jp_id ` set (journalPostings db) then Inl (P2002 (uniqueTarget env ''journal_postings_pkey''))
      else if (jp_journalEntryId p, jp_sequence p) \<in>
              (\<lambda>q. (jp_journalEntryId q, jp_sequence q)) ` set (journalPostings db)
      then Inl (P2002 (uniqueTarget env ''journal_postings_journal_entry_id_sequence_key''))
      else if jp_amountMinor p \<le> 0 \<or> \<not> int8_ok (jp_amountMinor p) \<or> jp_sequence p \<ge> 32
              \<or> \<not> currencyCodeSchema (jp_currency p)
      then Inl DbCheckViolation
      else Inr (db\<lparr>journalPostings := journalPostings db @ [p]\<rparr>))"

definition update_balance_projection ::
  "ledger_env \<Rightarrow> string \<Rightarrow> int \<Rightarrow> int \<Rightarrow> ledger_db \<Rightarrow> (ledger_error, ledger_db) res" where
  "update_balance_projection env account debit credit db =
     (if \<not> int8_ok debit \<or> \<not> int8_ok credit \<or> debit < 0 \<or> credit < 0 then Inl DbCheckViolation
      else Inr (db\<lparr>balanceProjections :=
             update_by bp_ledgerAccountId account
               (\<lambda>p. p\<lparr>bp_debitTotalMinor := debit, bp_creditTotalMinor := credit,
                      bp_version := bp_version p + 1, bp_updatedAt := nowMs env\<rparr>)
               (balanceProjections db)\<rparr>))"

text \<open>The sums the SQL of the triggers and of the reconciliation computes.\<close>

definition sum_direction :: "postingDirection \<Rightarrow> journal_posting list \<Rightarrow> int" where
  "sum_direction d ps = sum_list (map jp_amountMinor (filter (\<lambda>p. jp_direction p = d) ps))"

definition postings_of_entry :: "string \<Rightarrow> ledger_db \<Rightarrow> journal_posting list" where
  "postings_of_entry e db = filter (\<lambda>p. jp_journalEntryId p = e) (journalPostings db)"

definition postings_of_account :: "string \<Rightarrow> ledger_db \<Rightarrow> journal_posting list" where
  "postings_of_account a db = filter (\<lambda>p. jp_ledgerAccountId p = a) (journalPostings db)"

text \<open>The deferred constraint trigger that runs at COMMIT for an inserted entry.\<close>

definition assert_journal_integrity :: "string \<Rightarrow> ledger_db \<Rightarrow> bool" where
  "assert_journal_integrity e db =
     (case find_by je_id e (journalEntries db) of
        None \<Rightarrow> False
      | Some entry \<Rightarrow>
          (let ps = postings_of_entry e db in
             length ps \<ge> 2 \<and>
             list_all (\<lambda>p. jp_currency p = je_currency entry) ps \<and>
             list_all (\<lambda>p. list_all (\<lambda>a. la_id a = jp_ledgerAccountId p \<longrightarrow> la_currency a = jp_currency p)
                            (ledgerAccounts db)) ps \<and>
             sum_direction DEBIT ps = sum_direction CREDIT ps))"

lemma sum_direction_Nil [simp]: "sum_direction d [] = 0"
  by (simp add: sum_direction_def)

lemma sum_direction_Cons [simp]:
  "sum_direction d (p # ps) = (if jp_direction p = d then jp_amountMinor p else 0) + sum_direction d ps"
  by (simp add: sum_direction_def)

lemma sum_direction_append [simp]:
  "sum_direction d (ps @ qs) = sum_direction d ps + sum_direction d qs"
  by (simp add: sum_direction_def)

lemma sum_direction_nonneg:
  "list_all (\<lambda>p. jp_amountMinor p > 0) ps \<Longrightarrow> 0 \<le> sum_direction d ps"
  by (induction ps) auto

end
