(* ===== verification/CanonicalJson.thy ===== *)
theory CanonicalJson
  imports LedgerDb
begin

text \<open>
  The canonical JSON encoding the ledger hashes for idempotency comparison
  (\<open>services/ledger/src/common/security/security.ts\<close>), with \<open>JSON.stringify\<close> of strings
  and integers written out, and the string comparison of the same module.
\<close>

section \<open>JSON.stringify on scalars\<close>

definition hex_digit :: "nat \<Rightarrow> char" where
  "hex_digit n = (if n < 10 then digit_char n else char_of (87 + n))"

definition escape_char :: "char \<Rightarrow> string" where
  "escape_char c =
     (if c = CHR 0x22 then [CHR 0x5C, CHR 0x22]
      else if c = CHR 0x5C then [CHR 0x5C, CHR 0x5C]
      else if c = CHR 0x08 then [CHR 0x5C, CHR ''b'']
      else if c = CHR 0x0C then [CHR 0x5C, CHR ''f'']
      else if c = CHR 0x0A then [CHR 0x5C, CHR ''n'']
      else if c = CHR 0x0D then [CHR 0x5C, CHR ''r'']
      else if c = CHR 0x09 then [CHR 0x5C, CHR ''t'']
      else if (of_char c :: nat) < 32
      then [CHR 0x5C, CHR ''u'', CHR ''0'', CHR ''0'',
            hex_digit (of_char c div 16), hex_digit (of_char c mod 16)]
      else [c])"

definition json_string :: "string \<Rightarrow> string" where
  "json_string s = [CHR 0x22] @ concat (map escape_char s) @ [CHR 0x22]"

section \<open>canonicalJson\<close>

text \<open>Entries with an \<open>undefined\<close> value are dropped, the others sorted by key.\<close>

definition defined_entries :: "(string \<times> 'a option) list \<Rightarrow> (string \<times> 'a) list" where
  "defined_entries es = List.map_filter (\<lambda>(k, v). map_option (Pair k) v) es"

definition canonical_entries :: "(string \<times> 'a option) list \<Rightarrow> (string \<times> 'a) list" where
  "canonical_entries es = sort_key fst (defined_entries es)"

fun canonicalJson :: "json \<Rightarrow> string" where
  "canonicalJson JNull = ''null''"
| "canonicalJson (JBool b) = (if b then ''true'' else ''false'')"
| "canonicalJson (JInt i) = dec_of_int i"
| "canonicalJson (JStr s) = json_string s"
| "canonicalJson (JArr xs) = ''['' @ join_with '','' (map canonicalJson xs) @ '']''"
| "canonicalJson (JObj es) =
     ''{'' @ join_with '','' (map (\<lambda>(k, v). json_string k @ '':'' @ v)
                (canonical_entries (map (\<lambda>(k, v). (k, map_option canonicalJson v)) es))) @ ''}''"

definition canonicalRequestHash :: "(string \<Rightarrow> string) \<Rightarrow> json \<Rightarrow> string" where
  "canonicalRequestHash hash v = hash (canonicalJson v)"

definition timingSafeStringEqual :: "string \<Rightarrow> string \<Rightarrow> bool" where
  "timingSafeStringEqual l r =
     (if length l \<noteq> length r \<or> length l = 0 then False else l = r)"

lemma timingSafeStringEqual_iff: "timingSafeStringEqual l r = (l = r \<and> l \<noteq> [])"
  by (auto simp: timingSafeStringEqual_def)

definition idempotencyFingerprint :: "(string \<Rightarrow> string) \<Rightarrow> string \<Rightarrow> string" where
  "idempotencyFingerprint hash key = ''idem:'' @ take 12 (hash key)"

text \<open>The signed 64-bit advisory lock key: the first sixteen hex digits of the digest, read as
  an unsigned number and reinterpreted in two's complement.\<close>

definition hex_val :: "char \<Rightarrow> int" where
  "hex_val c = (if is_digit c then int (digit_val c) else int (of_char c) - 87)"

definition asIntN64 :: "int \<Rightarrow> int" where
  "asIntN64 i = (let u = i mod 2 ^ 64 in if u < 2 ^ 63 then u else u - 2 ^ 64)"

definition advisoryLockKey :: "(string \<Rightarrow> string) \<Rightarrow> string \<Rightarrow> int" where
  "advisoryLockKey hash v = asIntN64 (foldl (\<lambda>a c. 16 * a + hex_val c) 0 (take 16 (hash v)))"

lemma asIntN64_range: "- (2 ^ 63) \<le> asIntN64 i \<and> asIntN64 i < 2 ^ 63"
proof -
  define u where "u = i mod 2 ^ 64"
  have "0 \<le> u" "u < 2 ^ 64" by (simp_all add: u_def)
  then show ?thesis by (auto simp: asIntN64_def Let_def u_def [symmetric])
qed

section \<open>Normal forms\<close>

text \<open>The logical content of a payload: undefined entries removed and keys in order.\<close>

fun json_normal :: "json \<Rightarrow> json" where
  "json_normal (JArr xs) = JArr (map json_normal xs)"
| "json_normal (JObj es) =
     JObj (map (\<lambda>(k, v). (k, Some v))
       (canonical_entries (map (\<lambda>(k, v). (k, map_option json_normal v)) es)))"
| "json_normal j = j"

end
