(* ===== verification/Idempotency.thy ===== *)
theory Idempotency
  imports CanonicalJson
begin

text \<open>
  The idempotent executor (\<open>services/ledger/src/idempotency/idempotency.service.ts\<close>): a
  reservation row is written in the same transaction as the work, a settled key is replayed,
  a key reused with another payload is refused.

  Two database states appear in \<open>execute\<close>: \<open>db0\<close> is what the first, unlocked lookup reads,
  \<open>db1\<close> is the state in which the transaction takes its place in the serial order.  Any number
  of other transactions may have committed in between, so no relation between the two is assumed.
  A transaction that throws leaves \<open>db1\<close> as it was, hence an error carries no state.
\<close>

section \<open>The service\<close>

definition defaultCustomerAccount_scope :: string where
  "defaultCustomerAccount_scope = ''customer-account:default''"

definition journalEntry_scope :: string where
  "journalEntry_scope = ''journal-entry''"

record 'a exec_options =
  eo_scope :: string
  eo_idempotencyKey :: string
  eo_payload :: json
  eo_run :: "ledger_db \<Rightarrow> (ledger_error, 'a \<times> ledger_db) res"
  eo_encode :: "'a \<Rightarrow> response_body"
  eo_decode :: "response_body \<Rightarrow> (ledger_error, 'a) res"

record 'a idempotent_outcome =
  oc_result :: 'a
  oc_replayed :: bool

definition uniqueViolationTarget :: "ledger_error \<Rightarrow> string option" where
  "uniqueViolationTarget e =
     (case e of
        P2002 t \<Rightarrow>
          (case t of
             TargetString s \<Rightarrow> Some s
           | TargetArray xs \<Rightarrow> Some (join_with '','' xs)
           | TargetOther \<Rightarrow> Some [])
      | _ \<Rightarrow> None)"

definition isIdempotencyConflict :: "ledger_error \<Rightarrow> bool" where
  "isIdempotencyConflict e =
     (case uniqueViolationTarget e of
        None \<Rightarrow> False
      | Some t \<Rightarrow> \<not> (has_substring ''customer_accounts'' t \<or> has_substring ''journal_entries'' t))"

definition expiry :: "ledger_env \<Rightarrow> time" where
  "expiry env = nowMs env + idempotencyRetentionHours env * 3600000"

definition find_record :: "string \<Rightarrow> string \<Rightarrow> ledger_db \<Rightarrow> idempotency_record option" where
  "find_record scope keyHash db =
     find_by (\<lambda>r. (ir_scope r, ir_keyHash r)) (scope, keyHash) (idempotencyRecords db)"

definition replayIfSettled ::
  "'a exec_options \<Rightarrow> string \<Rightarrow> string \<Rightarrow> bool \<Rightarrow> ledger_db
     \<Rightarrow> (ledger_error, 'a idempotent_outcome option) res" where
  "replayIfSettled opts keyHash requestHash conflicted db =
     (case find_record (eo_scope opts) keyHash db of
        None \<Rightarrow> Inr None
      | Some existing \<Rightarrow>
          if \<not> timingSafeStringEqual (ir_requestHash existing) requestHash
          then Inl idempotencyConflictError
          else (case (ir_status existing, ir_responseBody existing) of
                  (COMPLETED, Some body) \<Rightarrow>
                    andThen (eo_decode opts body)
                      (\<lambda>v. Inr (Some \<lparr>oc_result = v, oc_replayed = True\<rparr>))
                | _ \<Rightarrow> if conflicted then Inl idempotencyInProgressError else Inr None))"

text \<open>COMMIT: the deferred integrity triggers fire for every journal entry of the transaction.\<close>

definition commit_check :: "ledger_db \<Rightarrow> ledger_db \<Rightarrow> bool" where
  "commit_check dbBefore dbAfter =
     list_all (\<lambda>e. assert_journal_integrity (je_id e) dbAfter)
       (drop (length (journalEntries dbBefore)) (journalEntries dbAfter))"

definition reservation :: "ledger_env \<Rightarrow> 'a exec_options \<Rightarrow> string \<Rightarrow> string \<Rightarrow> idempotency_record" where
  "reservation env opts keyHash requestHash =
     \<lparr>ir_scope = eo_scope opts, ir_keyHash = keyHash, ir_requestHash = requestHash,
      ir_status = IN_PROGRESS, ir_responseBody = None, ir_expiresAt = expiry env\<rparr>"

definition execute_transaction ::
  "ledger_env \<Rightarrow> 'a exec_options \<Rightarrow> string \<Rightarrow> string \<Rightarrow> ledger_db \<Rightarrow> (ledger_error, 'a \<times> ledger_db) res" where
  "execute_transaction env opts keyHash requestHash db =
     (if find_record (eo_scope opts) keyHash db \<noteq> None
      then Inl (P2002 (uniqueTarget env ''idempotency_records_scope_key_hash_key''))
      else andThen
        (eo_run opts (db\<lparr>idempotencyRecords := idempotencyRecords db @ [reservation env opts keyHash requestHash]\<rparr>))
        (\<lambda>(v, db').
           let db'' = db'\<lparr>idempotencyRecords :=
                 update_by (\<lambda>r. (ir_scope r, ir_keyHash r)) (eo_scope opts, keyHash)
                   (\<lambda>r. r\<lparr>ir_status := COMPLETED, ir_responseBody := Some (eo_encode opts v)\<rparr>)
                   (idempotencyRecords db')\<rparr>
           in if commit_check db db'' then Inr (v, db'') else Inl DbCheckViolation))"

definition execute ::
  "ledger_env \<Rightarrow> 'a exec_options \<Rightarrow> ledger_db \<Rightarrow> ledger_db
     \<Rightarrow> (ledger_error, 'a idempotent_outcome \<times> ledger_db) res" where
  "execute env opts db0 db1 =
     (let keyHash = sha256 env (eo_idempotencyKey opts);
          requestHash = canonicalRequestHash (sha256 env) (eo_payload opts)
      in andThen (replayIfSettled opts keyHash requestHash False db0)
           (\<lambda>settled. case settled of
              Some out \<Rightarrow> Inr (out, db1)
            | None \<Rightarrow>
                (case execute_transaction env opts keyHash requestHash db1 of
                   Inr (v, db2) \<Rightarrow> Inr (\<lparr>oc_result = v, oc_replayed = False\<rparr>, db2)
                 | Inl e \<Rightarrow>
                     if \<not> isIdempotencyConflict e then Inl e
                     else andThen (replayIfSettled opts keyHash requestHash True db1)
                            (\<lambda>replayed. case replayed of
                               Some out \<Rightarrow> Inr (out, db1)
                             | None \<Rightarrow> Inl idempotencyInProgressError))))"

section \<open>Invariant of the reservation table\<close>

text \<open>Reservations are only visible once their transaction has committed, so every row a reader
  sees is completed and carries its response; the pair of scope and key hash is unique.\<close>

definition idem_inv :: "ledger_db \<Rightarrow> bool" where
  "idem_inv db =
     (distinct (map (\<lambda>r. (ir_scope r, ir_keyHash r)) (idempotencyRecords db)) \<and>
      list_all (\<lambda>r. ir_status r = COMPLETED \<and> ir_responseBody r \<noteq> None) (idempotencyRecords db))"

lemma find_record_cong:
  "idempotencyRecords db = idempotencyRecords db' \<Longrightarrow> find_record s k db = find_record s k db'"
  by (simp add: find_record_def)

lemma idem_inv_completed:
  assumes "idem_inv db" and "find_record s k db = Some r"
  shows "ir_status r = COMPLETED \<and> (\<exists>b. ir_responseBody r = Some b)"
  using assms by (auto simp: idem_inv_def find_record_def list_all_iff dest: find_by_Some)

section \<open>The interface between the executor and its clients\<close>

text \<open>
  What a piece of work promises: it keeps the client's invariant, which does not depend on the
  reservation table, and leaves that table alone.
\<close>

locale idempotent_work =
  fixes run :: "ledger_db \<Rightarrow> (ledger_error, 'a \<times> ledger_db) res"
    and inv :: "ledger_db \<Rightarrow> bool"
  assumes run_inv: "inv db \<Longrightarrow> run db = Inr (v, db') \<Longrightarrow> inv db'"
    and run_records: "run db = Inr (v, db') \<Longrightarrow> idempotencyRecords db' = idempotencyRecords db"
    and inv_records: "inv (db\<lparr>idempotencyRecords := rs\<rparr>) = inv db"
begin

lemma transaction_inv:
  assumes "eo_run opts = run" and "inv db" and "idem_inv db"
    and "execute_transaction env opts kh rh db = Inr (v, db')"
  shows "inv db' \<and> idem_inv db'"
proof -
  let ?key = "\<lambda>r. (ir_scope r, ir_keyHash r)"
  let ?r = "reservation env opts kh rh"
  from assms(1,4) obtain db1 where
    none: "find_record (eo_scope opts) kh db = None" and
    r: "run (db\<lparr>idempotencyRecords := idempotencyRecords db @ [?r]\<rparr>) = Inr (v, db1)" and
    db': "db' = db1\<lparr>idempotencyRecords := update_by ?key (eo_scope opts, kh)
                   (\<lambda>r. r\<lparr>ir_status := COMPLETED, ir_responseBody := Some (eo_encode opts v)\<rparr>)
                   (idempotencyRecords db1)\<rparr>"
    by (auto simp: execute_transaction_def res_simps Let_def split: if_splits)
  have recs: "idempotencyRecords db1 = idempotencyRecords db @ [?r]"
    using run_records [OF r] by simp
  have "inv db1" using run_inv [OF _ r] assms(2) by (simp add: inv_records)
  then have "inv db'" by (simp add: db' inv_records)
  moreover have "(eo_scope opts, kh) \<notin> ?key ` set (idempotencyRecords db)"
    using none by (simp add: find_record_def find_by_None)
  then have "idem_inv db'"
    using assms(3) unfolding idem_inv_def db'
    by (simp add: recs list_all_iff set_update_by) (auto simp: reservation_def)
  ultimately show ?thesis ..
qed

lemma execute_inv:
  assumes "eo_run opts = run" and "inv db1" and "idem_inv db1"
    and "execute env opts db0 db1 = Inr (out, db2)"
  shows "inv db2 \<and> idem_inv db2"
  using assms transaction_inv [OF assms(1-3)]
  by (auto simp: execute_def Let_def res_simps split: option.splits sum.splits if_splits)

end

section \<open>Replay and conflict\<close>

definition settled_with :: "ledger_env \<Rightarrow> 'a exec_options \<Rightarrow> response_body \<Rightarrow> ledger_db \<Rightarrow> bool" where
  "settled_with env opts body db =
     (\<exists>r. find_record (eo_scope opts) (sha256 env (eo_idempotencyKey opts)) db = Some r
        \<and> ir_requestHash r = canonicalRequestHash (sha256 env) (eo_payload opts)
        \<and> ir_status r = COMPLETED \<and> ir_responseBody r = Some body)"

lemma replay_settled:
  assumes "settled_with env opts body db"
    and "canonicalRequestHash (sha256 env) (eo_payload opts) \<noteq> []"
  shows "replayIfSettled opts (sha256 env (eo_idempotencyKey opts))
           (canonicalRequestHash (sha256 env) (eo_payload opts)) c db
         = andThen (eo_decode opts body) (\<lambda>v. Inr (Some \<lparr>oc_result = v, oc_replayed = True\<rparr>))"
  using assms by (auto simp: settled_with_def replayIfSettled_def timingSafeStringEqual_iff)

text \<open>Whatever the first lookup saw, a key that is settled when the transaction starts is never
  executed again: the stored response is decoded and the database stays as it is.\<close>

lemma execute_settled:
  assumes s: "settled_with env opts body db1"
    and h: "canonicalRequestHash (sha256 env) (eo_payload opts) \<noteq> []"
    and t: "isIdempotencyConflict (P2002 (uniqueTarget env ''idempotency_records_scope_key_hash_key''))"
    and d: "eo_decode opts body = Inr v"
    and z: "find_record (eo_scope opts) (sha256 env (eo_idempotencyKey opts)) db0 = None
            \<or> settled_with env opts body db0"
  shows "execute env opts db0 db1 = Inr (\<lparr>oc_result = v, oc_replayed = True\<rparr>, db1)"
proof -
  have tx: "execute_transaction env opts (sha256 env (eo_idempotencyKey opts)) rh db1 =
      Inl (P2002 (uniqueTarget env ''idempotency_records_scope_key_hash_key''))" for rh
    using s by (auto simp: settled_with_def execute_transaction_def)
  from z show ?thesis
  proof
    assume "find_record (eo_scope opts) (sha256 env (eo_idempotencyKey opts)) db0 = None"
    then have "replayIfSettled opts (sha256 env (eo_idempotencyKey opts)) rh False db0 = Inr None" for rh
      by (simp add: replayIfSettled_def)
    with tx t replay_settled [OF s h, of True] d show ?thesis
      by (simp add: execute_def Let_def)
  next
    assume "settled_with env opts body db0"
    from replay_settled [OF this h, of False] d show ?thesis
      by (simp add: execute_def Let_def)
  qed
qed

lemma execute_conflict:
  assumes "find_record (eo_scope opts) (sha256 env (eo_idempotencyKey opts)) db0 = Some r"
    and "ir_requestHash r \<noteq> canonicalRequestHash (sha256 env) (eo_payload opts)"
  shows "execute env opts db0 db1 = Inl idempotencyConflictError"
  using assms by (simp add: execute_def Let_def replayIfSettled_def timingSafeStringEqual_iff)

lemma execute_fresh_settles:
  assumes run: "\<And>db v db'. eo_run opts db = Inr (v, db') \<Longrightarrow> idempotencyRecords db' = idempotencyRecords db"
    and e: "execute env opts db0 db1 = Inr (\<lparr>oc_result = v, oc_replayed = False\<rparr>, db2)"
  shows "settled_with env opts (eo_encode opts v) db2
       \<and> find_record (eo_scope opts) (sha256 env (eo_idempotencyKey opts)) db1 = None"
proof -
  let ?kh = "sha256 env (eo_idempotencyKey opts)"
  let ?rh = "canonicalRequestHash (sha256 env) (eo_payload opts)"
  let ?key = "\<lambda>r. (ir_scope r, ir_keyHash r)"
  have no_replay: "replayIfSettled opts k r c db \<noteq> Inr (Some \<lparr>oc_result = v, oc_replayed = False\<rparr>)" for k r c db
    by (auto simp: replayIfSettled_def res_simps split: option.splits if_splits idempotencyStatus.splits)
  from e no_replay have tx: "execute_transaction env opts ?kh ?rh db1 = Inr (v, db2)"
    by (fastforce simp: execute_def Let_def res_simps split: option.splits sum.splits if_splits)
  then obtain db' where none: "find_record (eo_scope opts) ?kh db1 = None"
    and r: "eo_run opts (db1\<lparr>idempotencyRecords := idempotencyRecords db1 @ [reservation env opts ?kh ?rh]\<rparr>)
              = Inr (v, db')"
    and db2: "db2 = db'\<lparr>idempotencyRecords := update_by ?key (eo_scope opts, ?kh)
                   (\<lambda>r. r\<lparr>ir_status := COMPLETED, ir_responseBody := Some (eo_encode opts v)\<rparr>)
                   (idempotencyRecords db')\<rparr>"
    by (auto simp: execute_transaction_def res_simps Let_def split: if_splits)
  have recs: "idempotencyRecords db' = idempotencyRecords db1 @ [reservation env opts ?kh ?rh]"
    using run [OF r] by simp
  from none have "find_by ?key (eo_scope opts, ?kh) (idempotencyRecords db1) = None"
    by (simp add: find_record_def)
  then have "find_record (eo_scope opts) ?kh db2 =
      Some ((reservation env opts ?kh ?rh)\<lparr>ir_status := COMPLETED, ir_responseBody := Some (eo_encode opts v)\<rparr>)"
    by (simp add: db2 find_record_def recs find_by_update_by find_by_append) (simp add: reservation_def)
  then have "settled_with env opts (eo_encode opts v) db2"
    by (simp add: settled_with_def) (simp add: reservation_def)
  with none show ?thesis by simp
qed

end
