(* ===== verification/Journal.thy ===== *)
theory Journal
  imports Idempotency
begin

text \<open>
  The journal service (\<open>services/ledger/src/ledger/journal.service.ts\<close>), the only code that
  moves money: postings are normalised and checked to balance, the accounts are locked in a fixed
  order, the projected totals are checked for overdraft, and the entry, its postings and the
  balance projections are written in one idempotent transaction.
\<close>

section \<open>Normalisation and balance\<close>

record norm_posting =
  np_ledgerAccountId :: string
  np_direction :: postingDirection
  np_amountMinor :: int

definition direction_string :: "postingDirection \<Rightarrow> string" where
  "direction_string d = (case d of DEBIT \<Rightarrow> ''DEBIT'' | CREDIT \<Rightarrow> ''CREDIT'')"

definition posting_key :: "string \<Rightarrow> postingDirection \<Rightarrow> string" where
  "posting_key account d = account @ '':'' @ direction_string d"

text \<open>The insertion-ordered \<open>Map\<close> of the loop, as its list of entries.\<close>

fun normalise_loop ::
  "(string \<times> norm_posting) list \<Rightarrow> posting_request list \<Rightarrow> (ledger_error, (string \<times> norm_posting) list) res" where
  "normalise_loop combined [] = Inr combined"
| "normalise_loop combined (posting # rest) =
     (let key = posting_key (pr_ledgerAccountId posting) (pr_direction posting)
      in andThen (lift_amount (parseMinorUnits (pr_amountMinor posting)))
           (\<lambda>amountMinor.
              case find_by fst key combined of
                Some _ \<Rightarrow>
                  normalise_loop
                    (update_by fst key
                       (\<lambda>(k, existing). (k, existing\<lparr>np_amountMinor := np_amountMinor existing + amountMinor\<rparr>))
                       combined) rest
              | None \<Rightarrow>
                  normalise_loop
                    (combined @ [(key, \<lparr>np_ledgerAccountId = pr_ledgerAccountId posting,
                                        np_direction = pr_direction posting,
                                        np_amountMinor = amountMinor\<rparr>)]) rest))"

definition normalisePostings :: "posting_request list \<Rightarrow> (ledger_error, norm_posting list) res" where
  "normalisePostings postings = andThen (normalise_loop [] postings) (\<lambda>c. Inr (map snd c))"

fun balance_loop :: "int \<Rightarrow> int \<Rightarrow> norm_posting list \<Rightarrow> (ledger_error, int \<times> int) res" where
  "balance_loop debitTotal creditTotal [] = Inr (debitTotal, creditTotal)"
| "balance_loop debitTotal creditTotal (p # ps) =
     (if np_amountMinor p \<le> 0 then Inl unbalancedJournalError
      else if np_direction p = DEBIT then balance_loop (debitTotal + np_amountMinor p) creditTotal ps
      else balance_loop debitTotal (creditTotal + np_amountMinor p) ps)"

definition assertBalanced :: "norm_posting list \<Rightarrow> (ledger_error, int) res" where
  "assertBalanced postings =
     (if length postings < 2 then Inl unbalancedJournalError
      else andThen (balance_loop 0 0 postings)
        (\<lambda>(debitTotal, creditTotal).
           if debitTotal \<noteq> creditTotal \<or> debitTotal = 0 then Inl unbalancedJournalError
           else Inr debitTotal))"

definition deterministicAccountOrder :: "string list \<Rightarrow> string list" where
  "deterministicAccountOrder ids = sort (remdups ids)"

section \<open>Locking and projecting\<close>

record locked_account =
  lk_id :: string
  lk_currency :: string
  lk_accountClass :: ledgerAccountClass
  lk_allowNegativeBalance :: bool
  lk_debitTotalMinor :: int
  lk_creditTotalMinor :: int
  lk_version :: int

text \<open>An account with its projection, as the join gives it: at most one row per identifier.\<close>

definition lock_row :: "ledger_db \<Rightarrow> string \<Rightarrow> locked_account list" where
  "lock_row db i =
     (case (find_by la_id i (ledgerAccounts db), find_by bp_ledgerAccountId i (balanceProjections db)) of
        (Some a, Some p) \<Rightarrow>
          [\<lparr>lk_id = la_id a, lk_currency = la_currency a, lk_accountClass = la_accountClass a,
            lk_allowNegativeBalance = la_allowNegativeBalance a,
            lk_debitTotalMinor = bp_debitTotalMinor p, lk_creditTotalMinor = bp_creditTotalMinor p,
            lk_version = bp_version p\<rparr>]
      | _ \<Rightarrow> [])"

text \<open>The query \<open>SELECT ... WHERE id = ANY(ids) ORDER BY id FOR UPDATE\<close>: the accounts of the table whose identifier is
  asked for, sorted by identifier, each locked when its turn comes.  The identifier is the primary key of the
  table, so that \<open>remdups\<close> drops nothing.\<close>

definition select_for_update :: "ledger_db \<Rightarrow> string list \<Rightarrow> locked_account list" where
  "select_for_update db ids =
     concat (map (lock_row db) (sort (filter (\<lambda>i. i \<in> set ids) (remdups (map la_id (ledgerAccounts db))))))"

definition lockAccounts :: "ledger_db \<Rightarrow> string list \<Rightarrow> (ledger_error, locked_account list) res" where
  "lockAccounts db ids =
     (let uniqueIds = deterministicAccountOrder ids;
          rows = select_for_update db uniqueIds
      in if length rows \<noteq> length uniqueIds then Inl accountNotFoundError else Inr rows)"

fun assertPostableAccounts :: "locked_account list \<Rightarrow> string \<Rightarrow> (ledger_error, unit) res" where
  "assertPostableAccounts [] cur = Inr ()"
| "assertPostableAccounts (account # rest) cur =
     (if lk_currency account \<noteq> cur then Inl currencyMismatchError
      else assertPostableAccounts rest cur)"

fun project_postings ::
  "locked_account list \<Rightarrow> norm_posting list \<Rightarrow> (ledger_error, locked_account list) res" where
  "project_postings projected [] = Inr projected"
| "project_postings projected (posting # rest) =
     (case find_by lk_id (np_ledgerAccountId posting) projected of
        None \<Rightarrow> Inl accountNotFoundError
      | Some account \<Rightarrow>
          project_postings
            (update_by lk_id (np_ledgerAccountId posting)
               (\<lambda>account.
                  let t = applyDirection (np_direction posting) (np_amountMinor posting)
                            \<lparr>debitTotalMinor = lk_debitTotalMinor account,
                             creditTotalMinor = lk_creditTotalMinor account\<rparr>
                  in account\<lparr>lk_debitTotalMinor := debitTotalMinor t,
                             lk_creditTotalMinor := creditTotalMinor t\<rparr>)
               projected) rest)"

fun assertFunds :: "locked_account list \<Rightarrow> (ledger_error, unit) res" where
  "assertFunds [] = Inr ()"
| "assertFunds (account # rest) =
     (if signedBalanceMinor (lk_accountClass account) (lk_debitTotalMinor account) (lk_creditTotalMinor account) < 0
         \<and> \<not> lk_allowNegativeBalance account
      then Inl insufficientFundsError
      else assertFunds rest)"

section \<open>Writing\<close>

text \<open>UUID 0 of a call names an unreferenced journal, UUID 1 is the entry's identifier and UUID
  \<open>2 + sequence\<close> the identifier of the posting with that sequence number.\<close>

fun create_postings ::
  "ledger_env \<Rightarrow> string \<Rightarrow> string \<Rightarrow> nat \<Rightarrow> norm_posting list \<Rightarrow> ledger_db
     \<Rightarrow> (ledger_error, posting_result list \<times> ledger_db) res" where
  "create_postings env entryId cur seq [] db = Inr ([], db)"
| "create_postings env entryId cur seq (posting # rest) db =
     andThen
       (insert_journal_posting env
          \<lparr>jp_id = randomUUID env (2 + seq), jp_journalEntryId = entryId,
           jp_ledgerAccountId = np_ledgerAccountId posting, jp_direction = np_direction posting,
           jp_amountMinor = np_amountMinor posting, jp_currency = cur, jp_sequence = seq,
           jp_createdAt = dbNow env\<rparr> db)
       (\<lambda>db'. andThen (create_postings env entryId cur (Suc seq) rest db')
          (\<lambda>(created, db'').
             Inr (\<lparr>po_id = randomUUID env (2 + seq), po_ledgerAccountId = np_ledgerAccountId posting,
                   po_direction = np_direction posting,
                   po_amountMinor = serializeMinorUnits (np_amountMinor posting), po_sequence = seq\<rparr>
                  # created, db'')))"

fun update_projections ::
  "ledger_env \<Rightarrow> locked_account list \<Rightarrow> ledger_db \<Rightarrow> (ledger_error, ledger_db) res" where
  "update_projections env [] db = Inr db"
| "update_projections env (account # rest) db =
     andThen (update_balance_projection env (lk_id account) (lk_debitTotalMinor account)
                (lk_creditTotalMinor account) db)
       (\<lambda>db'. update_projections env rest db')"

definition journal_entry_of ::
  "ledger_env \<Rightarrow> journal_request \<Rightarrow> string \<Rightarrow> journal_actor \<Rightarrow> journal_entry" where
  "journal_entry_of env request correlationId actor =
     \<lparr>je_id = randomUUID env 1,
      je_reference = (case jr_reference request of Some r \<Rightarrow> r | None \<Rightarrow> ''JRN-'' @ randomUUID env 0),
      je_entryType = jr_entryType request, je_currency = jr_currency request,
      je_description = jr_description request, je_correlationId = correlationId,
      je_effectiveAt = (case jr_effectiveAt request of Some s \<Rightarrow> dateParse env s | None \<Rightarrow> nowMs env),
      je_createdAt = dbNow env, je_createdByType = actor_type actor,
      je_createdById = take 64 (actor_id actor),
      je_metadata = (case jr_metadata request of Some m \<Rightarrow> m | None \<Rightarrow> [])\<rparr>"

definition journal_run ::
  "ledger_env \<Rightarrow> journal_request \<Rightarrow> string \<Rightarrow> journal_actor \<Rightarrow> norm_posting list \<Rightarrow> int
     \<Rightarrow> ledger_db \<Rightarrow> (ledger_error, journal_result \<times> ledger_db) res" where
  "journal_run env request correlationId actor postings totalMinor db =
     andThen (lockAccounts db (map np_ledgerAccountId postings)) (\<lambda>accounts.
     andThen (assertPostableAccounts accounts (jr_currency request)) (\<lambda>_.
     andThen (project_postings accounts postings) (\<lambda>projected.
     andThen (assertFunds projected) (\<lambda>_.
       let entry = journal_entry_of env request correlationId actor in
     andThen (insert_journal_entry env entry db) (\<lambda>db1.
     andThen (create_postings env (je_id entry) (jr_currency request) 0 postings db1) (\<lambda>(created, db2).
     andThen (update_projections env projected db2) (\<lambda>db3.
       Inr (\<lparr>jres_id = je_id entry, jres_reference = je_reference entry,
             jres_entryType = jr_entryType request, jres_currency = jr_currency request,
             jres_totalMinor = serializeMinorUnits totalMinor,
             jres_effectiveAt = je_effectiveAt entry, jres_createdAt = je_createdAt entry,
             jres_postings = created\<rparr>, db3))))))))"

section \<open>The idempotent request\<close>

definition entry_type_string :: "journalEntryType \<Rightarrow> string" where
  "entry_type_string t =
     (case t of ACCOUNT_ADJUSTMENT \<Rightarrow> ''ACCOUNT_ADJUSTMENT'' | SETTLEMENT_FUNDING \<Rightarrow> ''SETTLEMENT_FUNDING''
      | INTERNAL_TEST \<Rightarrow> ''INTERNAL_TEST'' | CUSTOMER_TRANSFER \<Rightarrow> ''CUSTOMER_TRANSFER''
      | QR_PAYMENT \<Rightarrow> ''QR_PAYMENT'' | AGENT_CASH_IN \<Rightarrow> ''AGENT_CASH_IN''
      | AGENT_CASH_OUT \<Rightarrow> ''AGENT_CASH_OUT'')"

definition journal_payload :: "journal_request \<Rightarrow> norm_posting list \<Rightarrow> json" where
  "journal_payload request postings =
     JObj [(''entryType'', Some (JStr (entry_type_string (jr_entryType request)))),
           (''currency'', Some (JStr (jr_currency request))),
           (''reference'', map_option JStr (jr_reference request)),
           (''description'', map_option JStr (jr_description request)),
           (''effectiveAt'', map_option JStr (jr_effectiveAt request)),
           (''metadata'', map_option (\<lambda>m. JObj (map (\<lambda>(k, v). (k, Some v)) m)) (jr_metadata request)),
           (''postings'', Some (JArr (map (\<lambda>p.
              JObj [(''ledgerAccountId'', Some (JStr (np_ledgerAccountId p))),
                    (''direction'', Some (JStr (direction_string (np_direction p)))),
                    (''amountMinor'', Some (JStr (serializeMinorUnits (np_amountMinor p))))])
              (sort_key (\<lambda>p. posting_key (np_ledgerAccountId p) (np_direction p)) postings))))]"

text \<open>\<open>/^[A-Za-z0-9._:-]{8,64}$/u\<close>\<close>

definition is_safe_char :: "char \<Rightarrow> bool" where
  "is_safe_char c = (is_alnum c \<or> c = CHR ''.'' \<or> c = CHR ''_'' \<or> c = CHR '':'' \<or> c = CHR ''-'')"

definition journalReferenceSchema :: "string \<Rightarrow> bool" where
  "journalReferenceSchema s = (list_all is_safe_char s \<and> 8 \<le> length s \<and> length s \<le> 64)"

definition journalResultSchema :: "(string \<Rightarrow> bool) \<Rightarrow> journal_result \<Rightarrow> bool" where
  "journalResultSchema uuid r =
     (uuid (jres_id r) \<and> journalReferenceSchema (jres_reference r) \<and> currencyCodeSchema (jres_currency r)
      \<and> positiveMinorUnitsSchema (jres_totalMinor r)
      \<and> 2 \<le> length (jres_postings r) \<and> length (jres_postings r) \<le> 32
      \<and> list_all (\<lambda>p. uuid (po_id p) \<and> uuid (po_ledgerAccountId p)
                    \<and> positiveMinorUnitsSchema (po_amountMinor p) \<and> po_sequence p \<le> 31) (jres_postings r))"

definition decode_journal :: "ledger_env \<Rightarrow> response_body \<Rightarrow> (ledger_error, journal_result) res" where
  "decode_journal env body =
     (case body of
        JournalBody r \<Rightarrow> if journalResultSchema (isUuid env) r then Inr r else Inl ContractError
      | ProvisionBody _ \<Rightarrow> Inl ContractError)"

definition journal_options ::
  "ledger_env \<Rightarrow> journal_request \<Rightarrow> string \<Rightarrow> journal_actor \<Rightarrow> norm_posting list \<Rightarrow> int
     \<Rightarrow> journal_result exec_options" where
  "journal_options env request correlationId actor postings totalMinor =
     \<lparr>eo_scope = journalEntry_scope, eo_idempotencyKey = jr_idempotencyKey request,
      eo_payload = journal_payload request postings,
      eo_run = journal_run env request correlationId actor postings totalMinor,
      eo_encode = JournalBody, eo_decode = decode_journal env\<rparr>"

definition post ::
  "ledger_env \<Rightarrow> journal_request \<Rightarrow> string \<Rightarrow> journal_actor \<Rightarrow> ledger_db \<Rightarrow> ledger_db
     \<Rightarrow> (ledger_error, journal_result \<times> ledger_db) res" where
  "post env request correlationId actor db0 db1 =
     andThen (normalisePostings (jr_postings request)) (\<lambda>postings.
     andThen (assertBalanced postings) (\<lambda>totalMinor.
     andThen (execute env (journal_options env request correlationId actor postings totalMinor) db0 db1)
       (\<lambda>(outcome, db2). Inr (oc_result outcome, db2))))"

section \<open>What normalisation and the balance check establish\<close>

definition np_sum :: "postingDirection \<Rightarrow> string \<Rightarrow> norm_posting list \<Rightarrow> int" where
  "np_sum d i ps =
     sum_list (map np_amountMinor (filter (\<lambda>p. np_direction p = d \<and> np_ledgerAccountId p = i) ps))"

definition np_total :: "postingDirection \<Rightarrow> norm_posting list \<Rightarrow> int" where
  "np_total d ps = sum_list (map np_amountMinor (filter (\<lambda>p. np_direction p = d) ps))"

definition positive_postings :: "norm_posting list \<Rightarrow> bool" where
  "positive_postings ps = list_all (\<lambda>p. np_amountMinor p > 0) ps"

lemma np_sum_simps [simp]:
  "np_sum d i [] = 0"
  "np_sum d i (p # ps) =
     (if np_direction p = d \<and> np_ledgerAccountId p = i then np_amountMinor p else 0) + np_sum d i ps"
  "np_sum d i (ps @ qs) = np_sum d i ps + np_sum d i qs"
  by (simp_all add: np_sum_def)

lemma np_total_simps [simp]:
  "np_total d [] = 0"
  "np_total d (p # ps) = (if np_direction p = d then np_amountMinor p else 0) + np_total d ps"
  by (simp_all add: np_total_def)

lemma positive_postings_simps [simp]:
  "positive_postings []"
  "positive_postings (p # ps) = (np_amountMinor p > 0 \<and> positive_postings ps)"
  by (simp_all add: positive_postings_def)

lemma balance_loop_spec:
  "balance_loop d c ps =
     (if positive_postings ps then Inr (d + np_total DEBIT ps, c + np_total CREDIT ps)
      else Inl unbalancedJournalError)"
proof (induction ps arbitrary: d c)
  case (Cons p ps)
  then show ?case by (cases "np_direction p") auto
qed simp

lemma np_total_nonneg: "positive_postings ps \<Longrightarrow> 0 \<le> np_total d ps"
  by (induction ps) auto

lemma np_total_pos:
  "positive_postings ps \<Longrightarrow> ps \<noteq> [] \<Longrightarrow> 0 < np_total DEBIT ps + np_total CREDIT ps"
proof (induction ps)
  case (Cons p ps)
  then show ?case
    using np_total_nonneg [of ps DEBIT] np_total_nonneg [of ps CREDIT]
    by (cases "np_direction p") auto
qed simp

lemma assertBalanced_iff:
  "assertBalanced ps = Inr t \<longleftrightarrow>
     length ps \<ge> 2 \<and> positive_postings ps \<and> np_total DEBIT ps = t \<and> np_total CREDIT ps = t"
  using np_total_pos [of ps]
  by (cases "ps = []") (auto simp: assertBalanced_def balance_loop_spec res_simps split: if_splits)

lemma assertBalanced_error: "assertBalanced ps = Inl e \<Longrightarrow> e = unbalancedJournalError"
  by (auto simp: assertBalanced_def balance_loop_spec res_simps split: if_splits)

lemma posting_key_inject [simp]: "(posting_key i d = posting_key j e) = (i = j \<and> d = e)"
  by (cases d; cases e) (auto simp: posting_key_def direction_string_def append_eq_append_conv2)

text \<open>The reference reading of a request: the signed contribution of each raw posting.\<close>

definition req_sum :: "postingDirection \<Rightarrow> string \<Rightarrow> posting_request list \<Rightarrow> int" where
  "req_sum d i ps =
     sum_list (map (\<lambda>p. int_of_dec (pr_amountMinor p))
       (filter (\<lambda>p. pr_direction p = d \<and> pr_ledgerAccountId p = i) ps))"

definition keyed :: "(string \<times> norm_posting) list \<Rightarrow> bool" where
  "keyed c = (distinct (map fst c) \<and>
     list_all (\<lambda>(k, p). k = posting_key (np_ledgerAccountId p) (np_direction p)) c)"

lemma keyed_update:
  assumes "keyed c"
  shows "keyed (update_by fst key (\<lambda>(k, q). (k, q\<lparr>np_amountMinor := np_amountMinor q + a\<rparr>)) c)"
proof -
  have "map fst (update_by fst key (\<lambda>(k, q). (k, q\<lparr>np_amountMinor := np_amountMinor q + a\<rparr>)) c) = map fst c"
    by (rule map_key_update_by) auto
  with assms show ?thesis
    by (auto simp: keyed_def list_all_iff set_update_by split: prod.splits if_splits)
qed

lemma np_sum_update:
  assumes "keyed c" and "find_by fst (posting_key i d) c = Some z"
  shows "np_sum e j (map snd (update_by fst (posting_key i d)
           (\<lambda>(k, q). (k, q\<lparr>np_amountMinor := np_amountMinor q + a\<rparr>)) c))
         = np_sum e j (map snd c) + (if d = e \<and> i = j then a else 0)"
  using assms
proof (induction c)
  case (Cons x c)
  obtain k q where x: "x = (k, q)" by force
  show ?case
  proof (cases "k = posting_key i d")
    case True
    then have "update_by fst (posting_key i d)
        (\<lambda>(k, q). (k, q\<lparr>np_amountMinor := np_amountMinor q + a\<rparr>)) c = c"
      using Cons.prems unfolding update_by_def keyed_def x by (intro map_idI) (auto simp: rev_image_eqI)
    with True Cons.prems show ?thesis
      by (auto simp: x update_by_def keyed_def)
  next
    case False
    with Cons show ?thesis by (auto simp: x update_by_def keyed_def)
  qed
qed simp

lemma normalise_loop_spec:
  assumes "normalise_loop c ps = Inr c'" and "keyed c"
  shows "keyed c' \<and> (\<forall>d i. np_sum d i (map snd c') = np_sum d i (map snd c) + req_sum d i ps)"
  using assms
proof (induction c ps rule: normalise_loop.induct)
  case (2 c p ps)
  let ?k = "posting_key (pr_ledgerAccountId p) (pr_direction p)"
  from 2(3) obtain a where a: "parseMinorUnits (pr_amountMinor p) = Inr a"
    by (auto simp: Let_def res_simps)
  then have av: "a = int_of_dec (pr_amountMinor p)" by (auto simp: parseMinorUnits_def split: if_splits)
  show ?case
  proof (cases "find_by fst ?k c")
    case None
    then have "?k \<notin> fst ` set c" by (simp add: find_by_None)
    then have "keyed (c @ [(?k, \<lparr>np_ledgerAccountId = pr_ledgerAccountId p,
        np_direction = pr_direction p, np_amountMinor = a\<rparr>)])"
      using 2(4) by (auto simp: keyed_def list_all_iff)
    with 2(3) None a av 2(1) [OF refl None] show ?thesis
      by (auto simp: Let_def req_sum_def)
  next
    case (Some z)
    with 2(3) a av 2(2) [OF refl Some] keyed_update [OF 2(4), of ?k a]
      np_sum_update [OF 2(4) Some] show ?thesis
      by (auto simp: Let_def req_sum_def)
  qed
qed (simp add: req_sum_def)

lemma normalisePostings_spec:
  assumes "normalisePostings reqs = Inr ps"
  shows "distinct (map (\<lambda>p. (np_ledgerAccountId p, np_direction p)) ps)
     \<and> (\<forall>d i. np_sum d i ps = req_sum d i reqs)"
proof -
  from assms obtain c where c: "normalise_loop [] reqs = Inr c" and ps: "ps = map snd c"
    by (auto simp: normalisePostings_def res_simps)
  from normalise_loop_spec [OF c] have k: "keyed c" and sums: "\<forall>d i. np_sum d i ps = req_sum d i reqs"
    by (simp_all add: ps keyed_def)
  have "map fst c = map (\<lambda>p. posting_key (np_ledgerAccountId p) (np_direction p)) ps"
    using k by (auto simp: keyed_def ps list_all_iff)
  then have "distinct (map (\<lambda>p. posting_key (np_ledgerAccountId p) (np_direction p)) ps)"
    using k by (simp add: keyed_def)
  then have "distinct (map (\<lambda>p. (np_ledgerAccountId p, np_direction p)) ps)"
    by (auto simp: distinct_map inj_on_def)
  with sums show ?thesis by blast
qed

lemma normalise_loop_accounts:
  "normalise_loop c ps = Inr c' \<Longrightarrow>
     np_ledgerAccountId ` set (map snd c') \<subseteq> np_ledgerAccountId ` set (map snd c) \<union> pr_ledgerAccountId ` set ps"
proof (induction c ps rule: normalise_loop.induct)
  case (2 c p ps)
  let ?k = "posting_key (pr_ledgerAccountId p) (pr_direction p)"
  from 2(3) obtain a where a: "parseMinorUnits (pr_amountMinor p) = Inr a"
    by (auto simp: Let_def res_simps)
  show ?case
  proof (cases "find_by fst ?k c")
    case None
    with 2(3) a 2(1) [OF refl None] show ?thesis by (auto simp: Let_def)
  next
    case (Some z)
    let ?c = "update_by fst ?k (\<lambda>(k, q). (k, q\<lparr>np_amountMinor := np_amountMinor q + a\<rparr>)) c"
    have "map (\<lambda>x. np_ledgerAccountId (snd x)) ?c = map (\<lambda>x. np_ledgerAccountId (snd x)) c"
      by (rule map_key_update_by) auto
    from arg_cong [OF this, of set] have
      "np_ledgerAccountId ` set (map snd ?c) = np_ledgerAccountId ` set (map snd c)"
      by (simp add: image_image)
    moreover have "normalise_loop ?c ps = Inr c'" using 2(3) a Some by (simp add: Let_def)
    ultimately have "np_ledgerAccountId ` set (map snd c') \<subseteq>
        np_ledgerAccountId ` set (map snd c) \<union> pr_ledgerAccountId ` set ps"
      using 2(2) [OF refl Some, of a] by simp
    then show ?thesis unfolding list.set image_insert by blast
  qed
qed auto

lemma normalisePostings_accounts:
  "normalisePostings reqs = Inr ps \<Longrightarrow> np_ledgerAccountId ` set ps \<subseteq> pr_ledgerAccountId ` set reqs"
  using normalise_loop_accounts [of "[]" reqs] by (force simp: normalisePostings_def res_simps)

end
