(* ===== verification/Books.thy ===== *)
theory Books
  imports Journal
begin

text \<open>
  The double-entry invariant of the ledger database and its preservation by the journal service.
  The invariant is stated over the immutable postings, so the balance projections appear in it
  only through their agreement with the recomputed sums.
\<close>

section \<open>The invariant\<close>

definition account_balance :: "ledger_db \<Rightarrow> ledger_account \<Rightarrow> int" where
  "account_balance db a =
     signedBalanceMinor (la_accountClass a)
       (sum_direction DEBIT (postings_of_account (la_id a) db))
       (sum_direction CREDIT (postings_of_account (la_id a) db))"

definition projections_agree :: "ledger_db \<Rightarrow> bool" where
  "projections_agree db =
     (map bp_ledgerAccountId (balanceProjections db) = map la_id (ledgerAccounts db) \<and>
      list_all (\<lambda>p. bp_debitTotalMinor p = sum_direction DEBIT (postings_of_account (bp_ledgerAccountId p) db)
                  \<and> bp_creditTotalMinor p = sum_direction CREDIT (postings_of_account (bp_ledgerAccountId p) db))
        (balanceProjections db))"

definition no_overdraft :: "ledger_db \<Rightarrow> bool" where
  "no_overdraft db =
     list_all (\<lambda>a. la_allowNegativeBalance a \<or> 0 \<le> account_balance db a) (ledgerAccounts db)"

definition entry_balanced :: "ledger_db \<Rightarrow> journal_entry \<Rightarrow> bool" where
  "entry_balanced db e =
     (length (postings_of_entry (je_id e) db) \<ge> 2 \<and>
      sum_direction DEBIT (postings_of_entry (je_id e) db) = sum_direction CREDIT (postings_of_entry (je_id e) db) \<and>
      list_all (\<lambda>p. jp_currency p = je_currency e) (postings_of_entry (je_id e) db))"

definition posting_wf :: "ledger_db \<Rightarrow> journal_posting \<Rightarrow> bool" where
  "posting_wf db p =
     (jp_amountMinor p > 0 \<and>
      jp_journalEntryId p \<in> je_id ` set (journalEntries db) \<and>
      list_ex (\<lambda>a. la_id a = jp_ledgerAccountId p \<and> la_currency a = jp_currency p) (ledgerAccounts db))"

definition book_inv :: "ledger_db \<Rightarrow> bool" where
  "book_inv db =
     (distinct (map la_id (ledgerAccounts db)) \<and>
      projections_agree db \<and> no_overdraft db \<and>
      distinct (map je_id (journalEntries db)) \<and>
      distinct (map je_reference (journalEntries db)) \<and>
      list_all (entry_balanced db) (journalEntries db) \<and>
      list_all (posting_wf db) (journalPostings db) \<and>
      distinct (map jp_id (journalPostings db)))"

section \<open>What each phase of the transaction does\<close>

lemma concat_single_rows:
  assumes "\<And>i. length (f i) \<le> 1"
  shows "length (concat (map f is)) \<le> length is
    \<and> (length (concat (map f is)) = length is \<longrightarrow> (\<forall>i \<in> set is. \<exists>r. f i = [r]))"
proof (induction "is")
  case (Cons i "is")
  from assms [of i] consider "f i = []" | r where "f i = [r]"
    by (cases "f i") auto
  then show ?case using Cons by cases auto
qed simp

lemma lock_row_cases:
  "lock_row db i = [] \<or> (\<exists>a p. find_by la_id i (ledgerAccounts db) = Some a
     \<and> find_by bp_ledgerAccountId i (balanceProjections db) = Some p
     \<and> lock_row db i = [\<lparr>lk_id = i, lk_currency = la_currency a, lk_accountClass = la_accountClass a,
            lk_allowNegativeBalance = la_allowNegativeBalance a,
            lk_debitTotalMinor = bp_debitTotalMinor p, lk_creditTotalMinor = bp_creditTotalMinor p,
            lk_version = bp_version p\<rparr>])"
  by (auto simp: lock_row_def split: option.splits dest: find_by_Some)

lemma concat_map_single: "\<forall>i \<in> set is. f i = [g i] \<Longrightarrow> concat (map f is) = map g is"
  by (induction "is") auto

lemma lockAccounts_spec:
  assumes "lockAccounts db ids = Inr rows"
  shows "map lk_id rows = deterministicAccountOrder ids \<and>
    (\<forall>r \<in> set rows. \<exists>a p. find_by la_id (lk_id r) (ledgerAccounts db) = Some a
       \<and> find_by bp_ledgerAccountId (lk_id r) (balanceProjections db) = Some p
       \<and> lk_currency r = la_currency a \<and> lk_accountClass r = la_accountClass a
       \<and> lk_allowNegativeBalance r = la_allowNegativeBalance a
       \<and> lk_debitTotalMinor r = bp_debitTotalMinor p \<and> lk_creditTotalMinor r = bp_creditTotalMinor p)"
proof -
  let ?u = "deterministicAccountOrder ids"
  let ?s = "sort (filter (\<lambda>i. i \<in> set ?u) (remdups (map la_id (ledgerAccounts db))))"
  have one: "length (lock_row db i) \<le> 1" for i
    using lock_row_cases [of db i] by auto
  from assms have rows0: "rows = concat (map (lock_row db) ?s)"
    and len0: "length (concat (map (lock_row db) ?s)) = length ?u"
    by (auto simp: lockAccounts_def select_for_update_def Let_def split: if_splits)
  have su: "?s = ?u"
  proof (rule sorted_distinct_set_unique)
    have "length ?u \<le> length ?s" using concat_single_rows [of "lock_row db" ?s, OF one] len0 by simp
    then have "card (set ?u) \<le> card (set ?s)"
      using distinct_card [of ?u] distinct_card [of ?s] by (simp add: deterministicAccountOrder_def)
    then show "set ?s = set ?u" by (intro card_seteq) auto
  qed (simp_all add: deterministicAccountOrder_def)
  have rows: "rows = concat (map (lock_row db) ?u)" and len: "length (concat (map (lock_row db) ?u)) = length ?u"
    using rows0 len0 unfolding su by simp_all
  from concat_single_rows [of "lock_row db", OF one] len
  have "\<forall>i \<in> set ?u. lock_row db i = [hd (lock_row db i)]" by fastforce
  then have rows': "rows = map (\<lambda>i. hd (lock_row db i)) ?u"
    and ne: "\<forall>i \<in> set ?u. lock_row db i \<noteq> []"
    by (simp_all add: rows concat_map_single) auto
  have idr: "\<forall>i \<in> set ?u. lk_id (hd (lock_row db i)) = i"
    using ne lock_row_cases [of db] by fastforce
  then have "map lk_id rows = ?u" by (simp add: rows' comp_def map_idI)
  moreover have "\<exists>a p. find_by la_id (lk_id r) (ledgerAccounts db) = Some a
       \<and> find_by bp_ledgerAccountId (lk_id r) (balanceProjections db) = Some p
       \<and> lk_currency r = la_currency a \<and> lk_accountClass r = la_accountClass a
       \<and> lk_allowNegativeBalance r = la_allowNegativeBalance a
       \<and> lk_debitTotalMinor r = bp_debitTotalMinor p \<and> lk_creditTotalMinor r = bp_creditTotalMinor p"
    if "r \<in> set rows" for r
  proof -
    from that obtain i where i: "i \<in> set ?u" and r: "r = hd (lock_row db i)" by (auto simp: rows')
    with ne lock_row_cases [of db i] show ?thesis by auto
  qed
  ultimately show ?thesis by blast
qed

lemma deterministicAccountOrder_distinct [simp]: "distinct (deterministicAccountOrder ids)"
  by (simp add: deterministicAccountOrder_def)

lemma set_deterministicAccountOrder [simp]: "set (deterministicAccountOrder ids) = set ids"
  by (simp add: deterministicAccountOrder_def)

lemma assertPostable_iff: "assertPostableAccounts as cur = Inr u \<longleftrightarrow> (\<forall>a \<in> set as. lk_currency a = cur)"
  by (induction as) auto

lemma assertFunds_iff:
  "assertFunds as = Inr u \<longleftrightarrow>
     (\<forall>a \<in> set as. lk_allowNegativeBalance a \<or>
        0 \<le> signedBalanceMinor (lk_accountClass a) (lk_debitTotalMinor a) (lk_creditTotalMinor a))"
  by (induction as) auto

definition projected_account :: "norm_posting list \<Rightarrow> locked_account \<Rightarrow> locked_account" where
  "projected_account ps a =
     a\<lparr>lk_debitTotalMinor := lk_debitTotalMinor a + np_sum DEBIT (lk_id a) ps,
       lk_creditTotalMinor := lk_creditTotalMinor a + np_sum CREDIT (lk_id a) ps\<rparr>"

lemma projected_account_simps [simp]:
  "lk_id (projected_account ps a) = lk_id a"
  "lk_currency (projected_account ps a) = lk_currency a"
  "lk_accountClass (projected_account ps a) = lk_accountClass a"
  "lk_allowNegativeBalance (projected_account ps a) = lk_allowNegativeBalance a"
  "lk_debitTotalMinor (projected_account ps a) = lk_debitTotalMinor a + np_sum DEBIT (lk_id a) ps"
  "lk_creditTotalMinor (projected_account ps a) = lk_creditTotalMinor a + np_sum CREDIT (lk_id a) ps"
  by (simp_all add: projected_account_def)

lemma projected_account_Nil [simp]: "projected_account [] = (\<lambda>a. a)"
  by (simp add: projected_account_def fun_eq_iff)

lemma project_postings_spec:
  assumes "project_postings as ps = Inr as'"
  shows "as' = map (projected_account ps) as \<and> (\<forall>p \<in> set ps. np_ledgerAccountId p \<in> lk_id ` set as)"
  using assms
proof (induction as ps rule: project_postings.induct)
  case (2 as p ps)
  let ?upd = "update_by lk_id (np_ledgerAccountId p)
               (\<lambda>account.
                  let t = applyDirection (np_direction p) (np_amountMinor p)
                            \<lparr>debitTotalMinor = lk_debitTotalMinor account,
                             creditTotalMinor = lk_creditTotalMinor account\<rparr>
                  in account\<lparr>lk_debitTotalMinor := debitTotalMinor t,
                             lk_creditTotalMinor := creditTotalMinor t\<rparr>) as"
  from 2(2) obtain a where a: "find_by lk_id (np_ledgerAccountId p) as = Some a"
    and rest: "project_postings ?upd ps = Inr as'"
    by (auto split: option.splits)
  have upd: "?upd = map (projected_account [p]) as"
    unfolding update_by_def
    by (rule map_cong; cases "np_direction p") (auto simp: projected_account_def applyDirection_def Let_def)
  have comp: "projected_account ps (projected_account [p] x) = projected_account (p # ps) x" for x
    by (simp add: projected_account_def)
  from 2(1) [OF a rest] have "as' = map (projected_account (p # ps)) as"
    and "\<forall>q \<in> set ps. np_ledgerAccountId q \<in> lk_id ` set as"
    unfolding upd by (simp_all add: comp image_image comp_def)
  moreover from a have "np_ledgerAccountId p \<in> lk_id ` set as"
    using find_by_Some [OF a] by (auto intro: rev_image_eqI)
  ultimately show ?case by simp
qed simp

text \<open>The rows and results that the posting loop creates.\<close>

definition posting_row :: "ledger_env \<Rightarrow> string \<Rightarrow> string \<Rightarrow> nat \<Rightarrow> norm_posting \<Rightarrow> journal_posting" where
  "posting_row env entryId cur seq p =
     \<lparr>jp_id = randomUUID env (2 + seq), jp_journalEntryId = entryId,
      jp_ledgerAccountId = np_ledgerAccountId p, jp_direction = np_direction p,
      jp_amountMinor = np_amountMinor p, jp_currency = cur, jp_sequence = seq, jp_createdAt = dbNow env\<rparr>"

definition posting_out :: "ledger_env \<Rightarrow> nat \<Rightarrow> norm_posting \<Rightarrow> posting_result" where
  "posting_out env seq p =
     \<lparr>po_id = randomUUID env (2 + seq), po_ledgerAccountId = np_ledgerAccountId p,
      po_direction = np_direction p, po_amountMinor = serializeMinorUnits (np_amountMinor p),
      po_sequence = seq\<rparr>"

fun posting_rows :: "ledger_env \<Rightarrow> string \<Rightarrow> string \<Rightarrow> nat \<Rightarrow> norm_posting list \<Rightarrow> journal_posting list" where
  "posting_rows env e cur n [] = []"
| "posting_rows env e cur n (p # ps) = posting_row env e cur n p # posting_rows env e cur (Suc n) ps"

fun posting_outs :: "ledger_env \<Rightarrow> nat \<Rightarrow> norm_posting list \<Rightarrow> posting_result list" where
  "posting_outs env n [] = []"
| "posting_outs env n (p # ps) = posting_out env n p # posting_outs env (Suc n) ps"

lemma length_posting_rows [simp]: "length (posting_rows env e cur n ps) = length ps"
  by (induction ps arbitrary: n) auto

lemma posting_rows_fields:
  "p \<in> set (posting_rows env e cur n ps) \<Longrightarrow>
     jp_journalEntryId p = e \<and> jp_currency p = cur \<and>
     (\<exists>q \<in> set ps. jp_ledgerAccountId p = np_ledgerAccountId q \<and> jp_amountMinor p = np_amountMinor q)"
  by (induction ps arbitrary: n) (auto simp: posting_row_def)

lemma sum_posting_rows: "sum_direction d (posting_rows env e cur n ps) = np_total d ps"
  by (induction ps arbitrary: n) (auto simp: posting_row_def)

lemma sum_posting_rows_account:
  "sum_direction d (filter (\<lambda>p. jp_ledgerAccountId p = a) (posting_rows env e cur n ps)) = np_sum d a ps"
  by (induction ps arbitrary: n) (auto simp: posting_row_def)

lemma create_postings_spec:
  assumes "create_postings env e cur n ps db = Inr (created, db')"
    and "distinct (map jp_id (journalPostings db))"
  shows "db' = db\<lparr>journalPostings := journalPostings db @ posting_rows env e cur n ps\<rparr>
       \<and> created = posting_outs env n ps
       \<and> distinct (map jp_id (journalPostings db'))
       \<and> (ps \<noteq> [] \<longrightarrow> n + length ps \<le> 32)"
  using assms
proof (induction ps arbitrary: n db created)
  case (Cons p ps)
  from Cons.prems obtain db1 cr where
    ins: "insert_journal_posting env (posting_row env e cur n p) db = Inr db1" and
    rest: "create_postings env e cur (Suc n) ps db1 = Inr (cr, db')" and
    cr: "created = posting_out env n p # cr"
    by (auto simp: res_simps posting_row_def posting_out_def)
  from ins have db1: "db1 = db\<lparr>journalPostings := journalPostings db @ [posting_row env e cur n p]\<rparr>"
    and new: "jp_id (posting_row env e cur n p) \<notin> jp_id ` set (journalPostings db)" and seq: "n < 32"
    by (auto simp: insert_journal_posting_def posting_row_def split: if_splits)
  have d: "distinct (map jp_id (journalPostings db1))" using Cons.prems(2) new by (simp add: db1)
  from Cons.IH [OF rest d] have
    db': "db' = db1\<lparr>journalPostings := journalPostings db1 @ posting_rows env e cur (Suc n) ps\<rparr>" and
    cr': "cr = posting_outs env (Suc n) ps" and
    dist: "distinct (map jp_id (journalPostings db'))" and
    len: "ps \<noteq> [] \<longrightarrow> Suc n + length ps \<le> 32"
    by blast+
  have "db' = db\<lparr>journalPostings := journalPostings db @ posting_rows env e cur n (p # ps)\<rparr>"
    by (simp add: db' db1)
  moreover have "created = posting_outs env n (p # ps)" using cr cr' by simp
  moreover have "n + length (p # ps) \<le> 32" using len seq by (cases "ps = []") simp_all
  ultimately show ?case using dist by blast
qed simp

definition projected_row :: "time \<Rightarrow> locked_account list \<Rightarrow> balance_projection \<Rightarrow> balance_projection" where
  "projected_row t as p =
     (case find_by lk_id (bp_ledgerAccountId p) as of
        None \<Rightarrow> p
      | Some a \<Rightarrow> p\<lparr>bp_debitTotalMinor := lk_debitTotalMinor a, bp_creditTotalMinor := lk_creditTotalMinor a,
                    bp_version := bp_version p + 1, bp_updatedAt := t\<rparr>)"

lemma projected_row_id [simp]: "bp_ledgerAccountId (projected_row t as p) = bp_ledgerAccountId p"
  by (simp add: projected_row_def split: option.splits)

lemma update_projections_spec:
  assumes "update_projections env as db = Inr db'" and "distinct (map lk_id as)"
  shows "db' = db\<lparr>balanceProjections := map (projected_row (nowMs env) as) (balanceProjections db)\<rparr>"
  using assms
proof (induction as arbitrary: db)
  case Nil
  then show ?case by (simp add: projected_row_def)
next
  case (Cons a as)
  let ?f = "\<lambda>p. p\<lparr>bp_debitTotalMinor := lk_debitTotalMinor a, bp_creditTotalMinor := lk_creditTotalMinor a,
                  bp_version := bp_version p + 1, bp_updatedAt := nowMs env\<rparr>"
  from Cons.prems(1) obtain db1 where
    u: "update_balance_projection env (lk_id a) (lk_debitTotalMinor a) (lk_creditTotalMinor a) db = Inr db1"
    and rest: "update_projections env as db1 = Inr db'"
    by (auto simp: res_simps)
  from u have db1: "db1 = db\<lparr>balanceProjections := update_by bp_ledgerAccountId (lk_id a) ?f (balanceProjections db)\<rparr>"
    by (auto simp: update_balance_projection_def split: if_splits)
  have none: "find_by lk_id (lk_id a) as = None"
    using Cons.prems(2) by (simp add: find_by_None)
  have "db' = db1\<lparr>balanceProjections := map (projected_row (nowMs env) as) (balanceProjections db1)\<rparr>"
    using Cons.IH [OF rest] Cons.prems(2) by simp
  then show ?case
    using none by (auto simp: db1 update_by_def projected_row_def)
qed

section \<open>The transaction as a whole\<close>

text \<open>Everything the journal transaction changes, as one update of the database.\<close>

definition posted_db ::
  "ledger_env \<Rightarrow> journal_entry \<Rightarrow> norm_posting list \<Rightarrow> locked_account list \<Rightarrow> ledger_db \<Rightarrow> ledger_db" where
  "posted_db env e ps accounts db =
     db\<lparr>journalEntries := journalEntries db @ [e],
        journalPostings := journalPostings db @ posting_rows env (je_id e) (je_currency e) 0 ps,
        balanceProjections :=
          map (projected_row (nowMs env) (map (projected_account ps) accounts)) (balanceProjections db)\<rparr>"

lemma posted_db_simps [simp]:
  "ledgerAccounts (posted_db env e ps as db) = ledgerAccounts db"
  "customerAccounts (posted_db env e ps as db) = customerAccounts db"
  "idempotencyRecords (posted_db env e ps as db) = idempotencyRecords db"
  "reconciliationRuns (posted_db env e ps as db) = reconciliationRuns db"
  "journalEntries (posted_db env e ps as db) = journalEntries db @ [e]"
  "journalPostings (posted_db env e ps as db) =
     journalPostings db @ posting_rows env (je_id e) (je_currency e) 0 ps"
  "balanceProjections (posted_db env e ps as db) =
     map (projected_row (nowMs env) (map (projected_account ps) as)) (balanceProjections db)"
  by (simp_all add: posted_db_def)

lemma journal_run_effect:
  assumes run: "journal_run env request cid actor ps tot db = Inr (r, db')"
    and d: "distinct (map jp_id (journalPostings db))"
    and e: "e = journal_entry_of env request cid actor"
  obtains accounts where
    "lockAccounts db (map np_ledgerAccountId ps) = Inr accounts"
    "\<forall>a \<in> set accounts. lk_currency a = je_currency e"
    "\<forall>p \<in> set ps. np_ledgerAccountId p \<in> lk_id ` set accounts"
    "assertFunds (map (projected_account ps) accounts) = Inr ()"
    "je_id e \<notin> je_id ` set (journalEntries db)"
    "je_reference e \<notin> je_reference ` set (journalEntries db)"
    "currencyCodeSchema (je_currency e)"
    "length ps \<le> 32"
    "db' = posted_db env e ps accounts db"
    "distinct (map jp_id (journalPostings db'))"
    "r = \<lparr>jres_id = je_id e, jres_reference = je_reference e, jres_entryType = jr_entryType request,
          jres_currency = je_currency e, jres_totalMinor = serializeMinorUnits tot,
          jres_effectiveAt = je_effectiveAt e, jres_createdAt = je_createdAt e,
          jres_postings = posting_outs env 0 ps\<rparr>"
proof -
  have cur: "jr_currency request = je_currency e" by (simp add: e journal_entry_of_def)
  from run obtain accounts projected db1 created db2 where
    lock: "lockAccounts db (map np_ledgerAccountId ps) = Inr accounts" and
    postable: "assertPostableAccounts accounts (je_currency e) = Inr ()" and
    proj: "project_postings accounts ps = Inr projected" and
    funds: "assertFunds projected = Inr ()" and
    ins: "insert_journal_entry env e db = Inr db1" and
    cp: "create_postings env (je_id e) (je_currency e) 0 ps db1 = Inr (created, db2)" and
    up: "update_projections env projected db2 = Inr db'" and
    r: "r = \<lparr>jres_id = je_id e, jres_reference = je_reference e, jres_entryType = jr_entryType request,
          jres_currency = je_currency e, jres_totalMinor = serializeMinorUnits tot,
          jres_effectiveAt = je_effectiveAt e, jres_createdAt = je_createdAt e,
          jres_postings = created\<rparr>"
    unfolding journal_run_def Let_def e [symmetric] cur by (auto simp: res_simps)
  from ins have db1: "db1 = db\<lparr>journalEntries := journalEntries db @ [e]\<rparr>"
    and new: "je_id e \<notin> je_id ` set (journalEntries db)"
      "je_reference e \<notin> je_reference ` set (journalEntries db)" "currencyCodeSchema (je_currency e)"
    by (auto simp: insert_journal_entry_def split: if_splits)
  have "distinct (map jp_id (journalPostings db1))" using d by (simp add: db1)
  from create_postings_spec [OF cp this] have
    db2: "db2 = db1\<lparr>journalPostings := journalPostings db1 @ posting_rows env (je_id e) (je_currency e) 0 ps\<rparr>"
    and created: "created = posting_outs env 0 ps"
    and dist: "distinct (map jp_id (journalPostings db2))" and len: "ps \<noteq> [] \<longrightarrow> length ps \<le> 32"
    unfolding add_0 by blast+
  from project_postings_spec [OF proj] have
    projected: "projected = map (projected_account ps) accounts" and
    mem: "\<forall>p \<in> set ps. np_ledgerAccountId p \<in> lk_id ` set accounts" by auto
  have ids: "map lk_id projected = map lk_id accounts" by (simp add: projected)
  have "distinct (map lk_id projected)"
    using lockAccounts_spec [OF lock] unfolding ids by simp
  from update_projections_spec [OF up this] have db': "db' = posted_db env e ps accounts db"
    by (simp add: posted_db_def db2 db1 projected)
  show thesis
  proof (rule that [OF lock])
    show "\<forall>a \<in> set accounts. lk_currency a = je_currency e" using postable by (simp add: assertPostable_iff)
    show "assertFunds (map (projected_account ps) accounts) = Inr ()" using funds by (simp add: projected)
    show "length ps \<le> 32" using len by (cases ps) auto
    have "journalPostings db' = journalPostings db2" by (simp add: db' db2 db1)
    then show "distinct (map jp_id (journalPostings db'))" using dist by (simp only:)
  qed (use mem new db' r created in simp_all)
qed

lemma postings_of_account_posted:
  "sum_direction d (postings_of_account a (posted_db env e ps as db)) =
     sum_direction d (postings_of_account a db) + np_sum d a ps"
  by (simp add: postings_of_account_def sum_posting_rows_account)

lemma np_sum_absent: "a \<notin> np_ledgerAccountId ` set ps \<Longrightarrow> np_sum d a ps = 0"
  by (induction ps) auto

lemma find_by_projected:
  "find_by lk_id i (map (projected_account ps) as) = map_option (projected_account ps) (find_by lk_id i as)"
  by (induction as) auto

lemma projections_agree_posted:
  assumes inv: "projections_agree db" and d: "distinct (map la_id (ledgerAccounts db))"
    and lock: "lockAccounts db (map np_ledgerAccountId ps) = Inr accounts"
  shows "projections_agree (posted_db env e ps accounts db)"
proof -
  from lockAccounts_spec [OF lock] have ids: "map lk_id accounts = deterministicAccountOrder (map np_ledgerAccountId ps)"
    and rows: "\<forall>r \<in> set accounts. \<exists>p. find_by bp_ledgerAccountId (lk_id r) (balanceProjections db) = Some p
       \<and> lk_debitTotalMinor r = bp_debitTotalMinor p \<and> lk_creditTotalMinor r = bp_creditTotalMinor p"
    by blast+
  have setids: "lk_id ` set accounts = np_ledgerAccountId ` set ps"
    using arg_cong [OF ids, of set] by simp
  have dp: "distinct (map bp_ledgerAccountId (balanceProjections db))"
    using inv d by (simp add: projections_agree_def)
  have "bp_debitTotalMinor (projected_row t (map (projected_account ps) accounts) p)
          = bp_debitTotalMinor p + np_sum DEBIT (bp_ledgerAccountId p) ps
      \<and> bp_creditTotalMinor (projected_row t (map (projected_account ps) accounts) p)
          = bp_creditTotalMinor p + np_sum CREDIT (bp_ledgerAccountId p) ps"
    if p: "p \<in> set (balanceProjections db)" for p t
  proof (cases "find_by lk_id (bp_ledgerAccountId p) accounts")
    case None
    then have "bp_ledgerAccountId p \<notin> np_ledgerAccountId ` set ps"
      by (simp add: find_by_None setids)
    with None show ?thesis by (simp add: projected_row_def find_by_projected np_sum_absent)
  next
    case (Some r)
    from find_by_Some [OF Some] have "r \<in> set accounts" and i: "lk_id r = bp_ledgerAccountId p" by auto
    with rows find_by_distinct [OF dp p] have
      "lk_debitTotalMinor r = bp_debitTotalMinor p" "lk_creditTotalMinor r = bp_creditTotalMinor p"
      by fastforce+
    with Some i show ?thesis by (simp add: projected_row_def find_by_projected)
  qed
  with inv show ?thesis
    by (simp add: projections_agree_def list_all_iff postings_of_account_posted comp_def)
qed

lemma no_overdraft_posted:
  assumes inv: "projections_agree db" "no_overdraft db" and d: "distinct (map la_id (ledgerAccounts db))"
    and lock: "lockAccounts db (map np_ledgerAccountId ps) = Inr accounts"
    and funds: "assertFunds (map (projected_account ps) accounts) = Inr ()"
  shows "no_overdraft (posted_db env e ps accounts db)"
proof -
  from lockAccounts_spec [OF lock] have ids: "map lk_id accounts = deterministicAccountOrder (map np_ledgerAccountId ps)"
    and rows: "\<forall>r \<in> set accounts. \<exists>a p. find_by la_id (lk_id r) (ledgerAccounts db) = Some a
       \<and> find_by bp_ledgerAccountId (lk_id r) (balanceProjections db) = Some p
       \<and> lk_accountClass r = la_accountClass a
       \<and> lk_allowNegativeBalance r = la_allowNegativeBalance a
       \<and> lk_debitTotalMinor r = bp_debitTotalMinor p \<and> lk_creditTotalMinor r = bp_creditTotalMinor p"
    by blast+
  have setids: "lk_id ` set accounts = np_ledgerAccountId ` set ps"
    using arg_cong [OF ids, of set] by simp
  have agree: "bp_debitTotalMinor p = sum_direction DEBIT (postings_of_account (bp_ledgerAccountId p) db)
             \<and> bp_creditTotalMinor p = sum_direction CREDIT (postings_of_account (bp_ledgerAccountId p) db)"
    if "p \<in> set (balanceProjections db)" for p
    using inv(1) that by (simp add: projections_agree_def list_all_iff)
  have "la_allowNegativeBalance a \<or> 0 \<le> account_balance (posted_db env e ps accounts db) a"
    if a: "a \<in> set (ledgerAccounts db)" for a
  proof (cases "la_id a \<in> lk_id ` set accounts")
    case False
    then have "account_balance (posted_db env e ps accounts db) a = account_balance db a"
      by (simp add: account_balance_def postings_of_account_posted np_sum_absent setids)
    with inv(2) a show ?thesis by (simp add: no_overdraft_def list_all_iff)
  next
    case True
    then obtain r where r: "r \<in> set accounts" and i: "lk_id r = la_id a" by auto
    with rows find_by_distinct [OF d a] obtain p where
      p: "find_by bp_ledgerAccountId (la_id a) (balanceProjections db) = Some p" and
      row: "lk_accountClass r = la_accountClass a" "lk_allowNegativeBalance r = la_allowNegativeBalance a"
        "lk_debitTotalMinor r = bp_debitTotalMinor p" "lk_creditTotalMinor r = bp_creditTotalMinor p"
      by fastforce
    from find_by_Some [OF p] agree [of p] funds r row i show ?thesis
      by (auto simp: assertFunds_iff account_balance_def postings_of_account_posted)
  qed
  then show ?thesis by (simp add: no_overdraft_def list_all_iff)
qed

lemma postings_of_entry_posted_new:
  assumes "list_all (posting_wf db) (journalPostings db)"
    and "je_id e \<notin> je_id ` set (journalEntries db)"
  shows "postings_of_entry (je_id e) (posted_db env e ps as db) =
     posting_rows env (je_id e) (je_currency e) 0 ps"
proof -
  have "filter (\<lambda>p. jp_journalEntryId p = je_id e) (journalPostings db) = []"
    using assms unfolding filter_empty_conv list_all_iff posting_wf_def by metis
  moreover have "filter (\<lambda>p. jp_journalEntryId p = je_id e)
      (posting_rows env (je_id e) (je_currency e) 0 ps) = posting_rows env (je_id e) (je_currency e) 0 ps"
    using posting_rows_fields by (intro filter_True) blast
  ultimately show ?thesis by (simp add: postings_of_entry_def)
qed

lemma postings_of_entry_posted_old:
  assumes "i \<noteq> je_id e"
  shows "postings_of_entry i (posted_db env e ps as db) = postings_of_entry i db"
proof -
  have "filter (\<lambda>p. jp_journalEntryId p = i) (posting_rows env (je_id e) (je_currency e) 0 ps) = []"
    using assms posting_rows_fields by (fastforce simp: filter_empty_conv)
  then show ?thesis by (simp add: postings_of_entry_def)
qed

lemma entries_balanced_posted:
  assumes wf: "list_all (posting_wf db) (journalPostings db)"
    and old: "list_all (entry_balanced db) (journalEntries db)"
    and new: "je_id e \<notin> je_id ` set (journalEntries db)"
    and bal: "assertBalanced ps = Inr t"
  shows "list_all (entry_balanced (posted_db env e ps as db)) (journalEntries db @ [e])"
proof -
  have "entry_balanced (posted_db env e ps as db) x" if "x \<in> set (journalEntries db)" for x
  proof -
    have "je_id x \<noteq> je_id e" using new that by (metis imageI)
    with old that show ?thesis
      by (simp add: entry_balanced_def postings_of_entry_posted_old list_all_iff)
  qed
  moreover have "entry_balanced (posted_db env e ps as db) e"
    using bal posting_rows_fields
    by (auto simp: entry_balanced_def postings_of_entry_posted_new [OF wf new] sum_posting_rows
        assertBalanced_iff list_all_iff)
  ultimately show ?thesis by (simp add: list_all_iff)
qed

lemma postings_wf_posted:
  assumes wf: "list_all (posting_wf db) (journalPostings db)"
    and lock: "lockAccounts db (map np_ledgerAccountId ps) = Inr accounts"
    and cur: "\<forall>a \<in> set accounts. lk_currency a = je_currency e"
    and mem: "\<forall>p \<in> set ps. np_ledgerAccountId p \<in> lk_id ` set accounts"
    and pos: "positive_postings ps"
  shows "list_all (posting_wf (posted_db env e ps accounts db))
           (journalPostings db @ posting_rows env (je_id e) (je_currency e) 0 ps)"
proof -
  have "posting_wf (posted_db env e ps accounts db) p"
    if p: "p \<in> set (posting_rows env (je_id e) (je_currency e) 0 ps)" for p
  proof -
    from posting_rows_fields [OF p] obtain q where q: "q \<in> set ps" "jp_ledgerAccountId p = np_ledgerAccountId q"
      "jp_amountMinor p = np_amountMinor q" "jp_journalEntryId p = je_id e" "jp_currency p = je_currency e"
      by blast
    from mem q obtain r where r: "r \<in> set accounts" "lk_id r = np_ledgerAccountId q" by force
    with lockAccounts_spec [OF lock] cur obtain a where
      "find_by la_id (np_ledgerAccountId q) (ledgerAccounts db) = Some a" "la_currency a = je_currency e"
      by fastforce
    with find_by_Some [OF this(1)] q pos show ?thesis
      by (auto simp: posting_wf_def list_ex_iff positive_postings_def list_all_iff)
  qed
  moreover have "posting_wf (posted_db env e ps accounts db) p" if "posting_wf db p" for p
    using that by (auto simp: posting_wf_def)
  ultimately show ?thesis using wf by (auto simp: list_all_iff)
qed

lemma journal_run_inv:
  assumes inv: "book_inv db" and bal: "assertBalanced ps = Inr t"
    and run: "journal_run env request cid actor ps tot db = Inr (r, db')"
  shows "book_inv db'"
proof -
  define e where "e = journal_entry_of env request cid actor"
  from inv have d: "distinct (map jp_id (journalPostings db))" by (simp add: book_inv_def)
  obtain accounts where
    lock: "lockAccounts db (map np_ledgerAccountId ps) = Inr accounts" and
    cur: "\<forall>a \<in> set accounts. lk_currency a = je_currency e" and
    mem: "\<forall>p \<in> set ps. np_ledgerAccountId p \<in> lk_id ` set accounts" and
    funds: "assertFunds (map (projected_account ps) accounts) = Inr ()" and
    new: "je_id e \<notin> je_id ` set (journalEntries db)"
      "je_reference e \<notin> je_reference ` set (journalEntries db)" and
    db': "db' = posted_db env e ps accounts db" and
    dist: "distinct (map jp_id (journalPostings db'))"
    by (rule journal_run_effect [OF run d e_def])
  have pos: "positive_postings ps" using bal by (simp add: assertBalanced_iff)
  from inv have acc: "distinct (map la_id (ledgerAccounts db))" and agree: "projections_agree db"
    and over: "no_overdraft db" and ids: "distinct (map je_id (journalEntries db))"
    and refs: "distinct (map je_reference (journalEntries db))"
    and ents: "list_all (entry_balanced db) (journalEntries db)"
    and wf: "list_all (posting_wf db) (journalPostings db)"
    unfolding book_inv_def by blast+
  show ?thesis
    unfolding book_inv_def
  proof (intro conjI)
    show "distinct (map la_id (ledgerAccounts db'))" using acc by (simp add: db')
    show "projections_agree db'" unfolding db' by (rule projections_agree_posted [OF agree acc lock])
    show "no_overdraft db'" unfolding db' by (rule no_overdraft_posted [OF agree over acc lock funds])
    show "distinct (map je_id (journalEntries db'))" using ids new by (simp add: db')
    show "distinct (map je_reference (journalEntries db'))" using refs new by (simp add: db')
    show "list_all (entry_balanced db') (journalEntries db')"
      using entries_balanced_posted [OF wf ents new(1) bal] by (simp add: db')
    show "list_all (posting_wf db') (journalPostings db')"
      using postings_wf_posted [OF wf lock cur mem pos] by (simp add: db')
    show "distinct (map jp_id (journalPostings db'))" by (rule dist)
  qed
qed

text \<open>The deferred trigger never rejects what the service commits.\<close>

lemma book_inv_integrity:
  assumes inv: "book_inv db" and e: "e \<in> set (journalEntries db)"
  shows "assert_journal_integrity (je_id e) db"
proof -
  have f: "find_by je_id (je_id e) (journalEntries db) = Some e"
    using inv e by (auto simp: book_inv_def intro: find_by_distinct)
  have bal: "entry_balanced db e" using inv e by (simp add: book_inv_def list_all_iff)
  have "la_currency a = jp_currency p"
    if "p \<in> set (journalPostings db)" "a \<in> set (ledgerAccounts db)" "la_id a = jp_ledgerAccountId p" for p a
  proof -
    from inv that(1) obtain b where b: "b \<in> set (ledgerAccounts db)" "la_id b = jp_ledgerAccountId p"
      "la_currency b = jp_currency p"
      by (auto simp: book_inv_def list_all_iff posting_wf_def list_ex_iff)
    have "distinct (map la_id (ledgerAccounts db))" using inv by (simp add: book_inv_def)
    from find_by_distinct [OF this that(2)] find_by_distinct [OF this b(1)] b that(3) show ?thesis by simp
  qed
  with f bal show ?thesis
    by (auto simp: assert_journal_integrity_def entry_balanced_def Let_def list_all_iff postings_of_entry_def)
qed

lemma book_inv_records [simp]: "book_inv (db\<lparr>idempotencyRecords := rs\<rparr>) = book_inv db"
  by (simp add: book_inv_def projections_agree_def no_overdraft_def entry_balanced_def posting_wf_def
      account_balance_def postings_of_account_def postings_of_entry_def list_all_iff)

section \<open>The journal service as idempotent work\<close>

lemma journal_run_records:
  assumes "journal_run env request cid actor ps tot db = Inr (r, db')"
  shows "idempotencyRecords db' = idempotencyRecords db"
proof -
  have cp: "idempotencyRecords d2 = idempotencyRecords d1"
    if "create_postings env e cur n qs d1 = Inr (c, d2)" for e cur n qs d1 c d2
    using that
    by (induction qs arbitrary: n d1 c)
      (fastforce simp: res_simps insert_journal_posting_def split: if_splits)+
  have up: "idempotencyRecords d2 = idempotencyRecords d1"
    if "update_projections env as d1 = Inr d2" for as d1 d2
    using that
    by (induction as arbitrary: d1)
      (fastforce simp: res_simps update_balance_projection_def split: if_splits)+
  have ins: "idempotencyRecords d2 = idempotencyRecords d1"
    if "insert_journal_entry env e d1 = Inr d2" for e d1 d2
    using that by (auto simp: insert_journal_entry_def split: if_splits)
  from assms show ?thesis
    unfolding journal_run_def Let_def by (auto simp: res_simps dest!: cp up ins)
qed

interpretation journal_work:
  idempotent_work "journal_run env request cid actor ps tot" "\<lambda>db. assertBalanced ps = Inr tot \<longrightarrow> book_inv db"
  for env request cid actor ps tot
proof unfold_locales
  fix db v db'
  assume "assertBalanced ps = Inr tot \<longrightarrow> book_inv db"
    and "journal_run env request cid actor ps tot db = Inr (v, db')"
  then show "assertBalanced ps = Inr tot \<longrightarrow> book_inv db'"
    using journal_run_inv by blast
next
  fix db v db'
  assume "journal_run env request cid actor ps tot db = Inr (v, db')"
  then show "idempotencyRecords db' = idempotencyRecords db" by (rule journal_run_records)
qed simp

lemma post_inv:
  assumes "book_inv db1" and "idem_inv db1"
    and "post env request cid actor db0 db1 = Inr (r, db2)"
  shows "book_inv db2 \<and> idem_inv db2"
proof -
  from assms(3) obtain ps tot out where
    bal: "assertBalanced ps = Inr tot" and
    ex: "execute env (journal_options env request cid actor ps tot) db0 db1 = Inr (out, db2)"
    by (auto simp: post_def res_simps)
  have run: "eo_run (journal_options env request cid actor ps tot) = journal_run env request cid actor ps tot"
    by (simp add: journal_options_def)
  from journal_work.execute_inv [OF run _ assms(2) ex] assms(1) bal show ?thesis by simp
qed

lemma execute_fresh_run:
  assumes "execute env opts db0 db1 = Inr (out, db2)"
    and "find_record (eo_scope opts) (sha256 env (eo_idempotencyKey opts)) db0 = None"
    and "find_record (eo_scope opts) (sha256 env (eo_idempotencyKey opts)) db1 = None"
  obtains v db' where "oc_result out = v" "\<not> oc_replayed out"
    "eo_run opts (db1\<lparr>idempotencyRecords := idempotencyRecords db1 @
        [reservation env opts (sha256 env (eo_idempotencyKey opts))
           (canonicalRequestHash (sha256 env) (eo_payload opts))]\<rparr>) = Inr (v, db')"
    "\<exists>rs. db2 = db'\<lparr>idempotencyRecords := rs\<rparr>"
  using assms
  by (auto simp: execute_def Let_def replayIfSettled_def res_simps execute_transaction_def
      split: sum.splits if_splits option.splits intro: that)

lemma lock_row_records [simp]: "lock_row (db\<lparr>idempotencyRecords := rs\<rparr>) = lock_row db"
  by (simp add: lock_row_def fun_eq_iff)

lemma posted_db_records:
  "posted_db env e ps as (db\<lparr>idempotencyRecords := rs\<rparr>) = (posted_db env e ps as db)\<lparr>idempotencyRecords := rs\<rparr>"
  by (simp add: posted_db_def)

text \<open>A successful first execution is exactly one update of the books.\<close>

lemma post_fresh_effect:
  assumes inv: "book_inv db1"
    and post: "post env request cid actor db0 db1 = Inr (r, db2)"
    and n0: "find_record journalEntry_scope (sha256 env (jr_idempotencyKey request)) db0 = None"
    and n1: "find_record journalEntry_scope (sha256 env (jr_idempotencyKey request)) db1 = None"
  obtains ps tot accounts rs where
    "normalisePostings (jr_postings request) = Inr ps" "assertBalanced ps = Inr tot"
    "lockAccounts db1 (map np_ledgerAccountId ps) = Inr accounts"
    "db2 = (posted_db env (journal_entry_of env request cid actor) ps accounts db1)\<lparr>idempotencyRecords := rs\<rparr>"
    "length ps \<le> 32" "jres_id r = randomUUID env 1" "jres_postings r = posting_outs env 0 ps"
    "jres_totalMinor r = serializeMinorUnits tot"
proof -
  from post obtain ps tot out where
    norm: "normalisePostings (jr_postings request) = Inr ps" and
    bal: "assertBalanced ps = Inr tot" and
    ex: "execute env (journal_options env request cid actor ps tot) db0 db1 = Inr (out, db2)" and
    r: "r = oc_result out"
    by (auto simp: post_def res_simps)
  let ?o = "journal_options env request cid actor ps tot"
  let ?db = "db1\<lparr>idempotencyRecords := idempotencyRecords db1 @
        [reservation env ?o (sha256 env (eo_idempotencyKey ?o))
           (canonicalRequestHash (sha256 env) (eo_payload ?o))]\<rparr>"
  obtain v db' where v: "oc_result out = v"
    and run: "eo_run ?o ?db = Inr (v, db')" and db2: "\<exists>rs. db2 = db'\<lparr>idempotencyRecords := rs\<rparr>"
    by (rule execute_fresh_run [OF ex]) (use n0 n1 in \<open>simp_all add: journal_options_def\<close>)
  then have run': "journal_run env request cid actor ps tot ?db = Inr (v, db')"
    by (simp add: journal_options_def)
  have d: "distinct (map jp_id (journalPostings ?db))" using inv by (simp add: book_inv_def)
  obtain accounts where
    lock: "lockAccounts ?db (map np_ledgerAccountId ps) = Inr accounts" and
    len: "length ps \<le> 32" and
    db': "db' = posted_db env (journal_entry_of env request cid actor) ps accounts ?db" and
    res: "v = \<lparr>jres_id = je_id (journal_entry_of env request cid actor),
       jres_reference = je_reference (journal_entry_of env request cid actor),
       jres_entryType = jr_entryType request,
       jres_currency = je_currency (journal_entry_of env request cid actor),
       jres_totalMinor = serializeMinorUnits tot,
       jres_effectiveAt = je_effectiveAt (journal_entry_of env request cid actor),
       jres_createdAt = je_createdAt (journal_entry_of env request cid actor),
       jres_postings = posting_outs env 0 ps\<rparr>"
    by (rule journal_run_effect [OF run' d refl])
  from db2 obtain rs where rs: "db2 = db'\<lparr>idempotencyRecords := rs\<rparr>" by blast
  have lock': "lockAccounts db1 (map np_ledgerAccountId ps) = Inr accounts"
    using lock by (simp add: lockAccounts_def select_for_update_def)
  show thesis
    by (rule that [OF norm bal lock' _ len])
      (use rs db' res r v in \<open>simp_all add: posted_db_records journal_entry_of_def\<close>)
qed

lemma post_fresh_sums:
  assumes "book_inv db1" and "post env request cid actor db0 db1 = Inr (r, db2)"
    and "find_record journalEntry_scope (sha256 env (jr_idempotencyKey request)) db0 = None"
    and "find_record journalEntry_scope (sha256 env (jr_idempotencyKey request)) db1 = None"
  shows "journalEntries db2 = journalEntries db1 @ [journal_entry_of env request cid actor]
    \<and> (\<exists>new. journalPostings db2 = journalPostings db1 @ new
          \<and> sum_direction DEBIT new = sum_direction CREDIT new)
    \<and> (\<forall>a d. sum_direction d (postings_of_account a db2)
             = sum_direction d (postings_of_account a db1) + req_sum d a (jr_postings request))
    \<and> ledgerAccounts db2 = ledgerAccounts db1 \<and> customerAccounts db2 = customerAccounts db1
    \<and> reconciliationRuns db2 = reconciliationRuns db1"
proof -
  obtain ps tot accounts rs where
    norm: "normalisePostings (jr_postings request) = Inr ps" and bal: "assertBalanced ps = Inr tot" and
    db2: "db2 = (posted_db env (journal_entry_of env request cid actor) ps accounts db1)\<lparr>idempotencyRecords := rs\<rparr>"
    by (rule post_fresh_effect [OF assms])
  have sums: "sum_direction d (postings_of_account a db2)
       = sum_direction d (postings_of_account a db1) + req_sum d a (jr_postings request)" for a d
    using normalisePostings_spec [OF norm]
      postings_of_account_posted [of d a env "journal_entry_of env request cid actor" ps accounts db1]
    by (simp add: db2 postings_of_account_def)
  moreover have "np_total DEBIT ps = np_total CREDIT ps" using bal by (simp add: assertBalanced_iff)
  ultimately show ?thesis by (simp add: db2 sum_posting_rows)
qed

section \<open>Contract of the result, and replays\<close>

lemma int8_serialized:
  assumes "0 < i" and "i \<le> 32 * int8_max"
  shows "positiveMinorUnitsSchema (serializeMinorUnits i)"
proof -
  have "(32::int) * int8_max < 10 ^ MAX_MINOR_UNIT_DIGITS"
    by (simp add: int8_max_def MAX_MINOR_UNIT_DIGITS_def)
  with assms have "i < 10 ^ MAX_MINOR_UNIT_DIGITS" by simp
  then have "nat i < 10 ^ MAX_MINOR_UNIT_DIGITS" using assms(1) by (simp add: nat_less_iff)
  then have "minorUnitsSchema (dec_of_nat (nat i))" by (simp add: minorUnitsSchema_dec_of_nat)
  moreover have "dec_of_nat (nat i) \<noteq> ''0''" using assms(1) dec_of_nat_inject [of "nat i" 0] by simp
  ultimately show ?thesis
    using assms(1) by (simp add: serializeMinorUnits_def dec_of_int_def positiveMinorUnitsSchema_iff)
qed

lemma create_postings_bounded:
  "create_postings env e cur n ps db = Inr (c, db') \<Longrightarrow> \<forall>p \<in> set ps. np_amountMinor p \<le> int8_max"
proof (induction ps arbitrary: n db c)
  case (Cons p ps)
  then show ?case
    by (fastforce simp: res_simps insert_journal_posting_def int8_ok_def split: if_splits)
qed simp

lemma np_total_bounded:
  "\<forall>p \<in> set ps. np_amountMinor p \<le> int8_max \<Longrightarrow> np_total d ps \<le> int (length ps) * int8_max"
proof (induction ps)
  case (Cons p ps)
  moreover have "0 \<le> int8_max" by (simp add: int8_max_def)
  ultimately show ?case by (auto simp: algebra_simps)
qed simp

lemma posting_outs_fields:
  "p \<in> set (posting_outs env n ps) \<Longrightarrow>
     (\<exists>q \<in> set ps. po_ledgerAccountId p = np_ledgerAccountId q
        \<and> po_amountMinor p = serializeMinorUnits (np_amountMinor q))
     \<and> (\<exists>m. po_id p = randomUUID env m) \<and> n \<le> po_sequence p \<and> po_sequence p < n + length ps"
  by (induction ps arbitrary: n) (fastforce simp: posting_out_def)+

lemma length_posting_outs [simp]: "length (posting_outs env n ps) = length ps"
  by (induction ps arbitrary: n) auto

text \<open>A committed journal satisfies the schema it is decoded with on replay.\<close>

lemma journal_result_valid:
  assumes run: "journal_run env request cid actor ps tot db = Inr (r, db')"
    and d: "distinct (map jp_id (journalPostings db))"
    and bal: "assertBalanced ps = Inr tot"
    and uuid: "\<forall>n. isUuid env (randomUUID env n)"
    and accts: "\<forall>p \<in> set ps. isUuid env (np_ledgerAccountId p)"
    and ref: "journalReferenceSchema (je_reference (journal_entry_of env request cid actor))"
  shows "journalResultSchema (isUuid env) r"
proof -
  let ?e = "journal_entry_of env request cid actor"
  obtain accounts where len: "length ps \<le> 32" and cur: "currencyCodeSchema (je_currency ?e)" and
    r: "r = \<lparr>jres_id = je_id ?e, jres_reference = je_reference ?e, jres_entryType = jr_entryType request,
          jres_currency = je_currency ?e, jres_totalMinor = serializeMinorUnits tot,
          jres_effectiveAt = je_effectiveAt ?e, jres_createdAt = je_createdAt ?e,
          jres_postings = posting_outs env 0 ps\<rparr>"
    by (rule journal_run_effect [OF run d refl])
  from run have bounded: "\<forall>p \<in> set ps. np_amountMinor p \<le> int8_max"
    unfolding journal_run_def Let_def by (auto simp: res_simps dest!: create_postings_bounded)
  from bal have ge2: "length ps \<ge> 2" and pos: "positive_postings ps" and tot: "np_total DEBIT ps = tot"
    and c: "np_total CREDIT ps = tot" by (auto simp: assertBalanced_iff)
  have nn: "0 \<le> int8_max" by (simp add: int8_max_def)
  have "int (length ps) * int8_max \<le> 32 * int8_max" using len nn by (intro mult_right_mono) auto
  then have "tot \<le> 32 * int8_max" using np_total_bounded [OF bounded, of DEBIT] tot by simp
  moreover have "0 < tot" using np_total_pos [OF pos] ge2 tot c by fastforce
  ultimately have t: "positiveMinorUnitsSchema (serializeMinorUnits tot)" by (intro int8_serialized)
  have "positiveMinorUnitsSchema (serializeMinorUnits (np_amountMinor q))" if "q \<in> set ps" for q
  proof (rule int8_serialized)
    show "0 < np_amountMinor q" using pos that by (simp add: positive_postings_def list_all_iff)
    show "np_amountMinor q \<le> 32 * int8_max" using bounded that nn by fastforce
  qed
  then have "list_all (\<lambda>p. isUuid env (po_id p) \<and> isUuid env (po_ledgerAccountId p)
      \<and> positiveMinorUnitsSchema (po_amountMinor p) \<and> po_sequence p \<le> 31) (posting_outs env 0 ps)"
    using uuid accts len unfolding list_all_iff by (fastforce dest: posting_outs_fields)
  with r t cur ref ge2 len uuid show ?thesis
    by (simp add: journalResultSchema_def) (simp add: journal_entry_of_def)
qed

lemma execute_options_cong:
  assumes "execute env opts db0 db1 = Inr (out, db2)" "oc_replayed out"
    and "find_record (eo_scope opts) (sha256 env (eo_idempotencyKey opts)) db0 = None"
  shows "find_record (eo_scope opts) (sha256 env (eo_idempotencyKey opts)) db1 \<noteq> None"
  using assms
  by (auto simp: execute_def Let_def replayIfSettled_def res_simps execute_transaction_def
      split: sum.splits if_splits option.splits)

text \<open>The same request later: another call, with its own clock and fresh identifiers.\<close>

definition later_env :: "ledger_env \<Rightarrow> ledger_env \<Rightarrow> bool" where
  "later_env env env' =
     (sha256 env' = sha256 env \<and> isUuid env' = isUuid env \<and> uniqueTarget env' = uniqueTarget env)"

lemma post_replays:
  assumes inv: "book_inv db1"
    and first: "post env request cid actor db0 db1 = Inr (r, db2)"
    and n0: "find_record journalEntry_scope (sha256 env (jr_idempotencyKey request)) db0 = None"
    and n1: "find_record journalEntry_scope (sha256 env (jr_idempotencyKey request)) db1 = None"
    and uuid: "\<forall>n. isUuid env (randomUUID env n)"
    and accts: "\<forall>p \<in> set (jr_postings request). isUuid env (pr_ledgerAccountId p)"
    and ref: "journalReferenceSchema (je_reference (journal_entry_of env request cid actor))"
    and hash: "\<And>s. sha256 env s \<noteq> []"
    and target: "isIdempotencyConflict (P2002 (uniqueTarget env ''idempotency_records_scope_key_hash_key''))"
    and later: "later_env env env'"
    and kept: "find_record journalEntry_scope (sha256 env (jr_idempotencyKey request)) db4
               = find_record journalEntry_scope (sha256 env (jr_idempotencyKey request)) db2"
    and seen: "db3 = db4 \<or> find_record journalEntry_scope (sha256 env (jr_idempotencyKey request)) db3 = None"
  shows "post env' request cid' actor' db3 db4 = Inr (r, db4)"
proof -
  from first obtain ps tot out where
    norm: "normalisePostings (jr_postings request) = Inr ps" and
    bal: "assertBalanced ps = Inr tot" and
    ex: "execute env (journal_options env request cid actor ps tot) db0 db1 = Inr (out, db2)" and
    r: "r = oc_result out"
    by (auto simp: post_def res_simps)
  let ?o = "journal_options env request cid actor ps tot"
  let ?o' = "journal_options env' request cid' actor' ps tot"
  have key: "eo_scope ?o = journalEntry_scope" "eo_idempotencyKey ?o = jr_idempotencyKey request"
    "eo_scope ?o' = journalEntry_scope" "eo_idempotencyKey ?o' = jr_idempotencyKey request"
    "eo_payload ?o' = eo_payload ?o" "eo_encode ?o r = JournalBody r" "eo_decode ?o' = decode_journal env'"
    by (simp_all add: journal_options_def)
  have fresh: "\<not> oc_replayed out"
    using execute_options_cong [OF ex] n0 n1 by (auto simp: key)
  then have out: "out = \<lparr>oc_result = r, oc_replayed = False\<rparr>" using r by (cases out) simp
  have "settled_with env ?o (JournalBody r) db2"
    using execute_fresh_settles [of ?o env db0 db1 r db2] ex journal_run_records
    unfolding out by (simp add: journal_options_def)
  then have settled: "settled_with env' ?o' (JournalBody r) db4"
    using kept later by (simp add: settled_with_def key later_env_def)
  obtain v db' where v: "oc_result out = v" and run: "eo_run ?o (db1\<lparr>idempotencyRecords := idempotencyRecords db1 @
        [reservation env ?o (sha256 env (eo_idempotencyKey ?o))
           (canonicalRequestHash (sha256 env) (eo_payload ?o))]\<rparr>) = Inr (v, db')"
    by (rule execute_fresh_run [OF ex]) (use n0 n1 in \<open>simp_all add: key\<close>)
  have ps_uuid: "\<forall>p \<in> set ps. isUuid env (np_ledgerAccountId p)"
  proof
    fix p assume "p \<in> set ps"
    then have "np_ledgerAccountId p \<in> np_ledgerAccountId ` set ps" by simp
    also have "\<dots> \<subseteq> pr_ledgerAccountId ` set (jr_postings request)"
      by (rule normalisePostings_accounts [OF norm])
    finally show "isUuid env (np_ledgerAccountId p)" using accts by auto
  qed
  have "journalResultSchema (isUuid env) r"
    using journal_result_valid [OF _ _ bal uuid ps_uuid ref] run v r inv
    by (fastforce simp: journal_options_def book_inv_def)
  then have dec: "eo_decode ?o' (JournalBody r) = Inr r"
    using later by (simp add: key decode_journal_def later_env_def)
  have "execute env' ?o' db3 db4 = Inr (\<lparr>oc_result = r, oc_replayed = True\<rparr>, db4)"
    by (rule execute_settled [OF settled _ _ dec])
      (use hash target later seen settled in \<open>auto simp: canonicalRequestHash_def later_env_def key\<close>)
  then show ?thesis by (simp add: post_def norm bal)
qed

section \<open>Lock order\<close>

text \<open>A journal whose transaction is locking accounts: the database it sees, its postings, and how many of the rows
  of its query it has locked.  It waits for another one when the next row of its query is among those the other
  has locked.\<close>

record locking_journal =
  lj_db :: ledger_db
  lj_postings :: "norm_posting list"
  lj_locked :: nat

definition lock_sequence :: "locking_journal \<Rightarrow> string list" where
  "lock_sequence t = map lk_id (select_for_update (lj_db t) (deterministicAccountOrder (map np_ledgerAccountId (lj_postings t))))"

definition waits_for :: "locking_journal \<Rightarrow> locking_journal \<Rightarrow> bool" where
  "waits_for t u =
     (lj_locked t < length (lock_sequence t) \<and> lock_sequence t ! lj_locked t \<in> set (take (lj_locked u) (lock_sequence u)))"

lemma lock_rows_ids: "map lk_id (concat (map (lock_row db) is)) = filter (\<lambda>i. lock_row db i \<noteq> []) is"
  using lock_row_cases [of db] by (induction "is") fastforce+

lemma lock_sequence_strict: "sorted (lock_sequence t) \<and> distinct (lock_sequence t)"
  unfolding lock_sequence_def select_for_update_def lock_rows_ids
  by (simp add: sorted_filter [where f = "\<lambda>x. x", simplified])

lemma waits_for_increases:
  assumes "waits_for t u" and "waits_for u v"
  shows "lock_sequence t ! lj_locked t < lock_sequence u ! lj_locked u"
proof -
  from assms(1) obtain k where k: "k < lj_locked u" "k < length (lock_sequence u)" "lock_sequence u ! k = lock_sequence t ! lj_locked t"
    by (auto simp: waits_for_def in_set_conv_nth)
  from assms(2) have l: "lj_locked u < length (lock_sequence u)" by (simp add: waits_for_def)
  have "lock_sequence u ! k \<le> lock_sequence u ! lj_locked u" "lock_sequence u ! k \<noteq> lock_sequence u ! lj_locked u"
    using k(1,2) l lock_sequence_strict [of u] by (simp_all add: sorted_nth_mono nth_eq_iff_index_eq)
  with k(3) show ?thesis by simp
qed

lemma waits_chain:
  assumes "(t, u) \<in> {(t, u). waits_for t u}\<^sup>+" and "waits_for u v"
  shows "lock_sequence t ! lj_locked t < lock_sequence u ! lj_locked u"
  using assms
proof (induction arbitrary: v rule: trancl_induct)
  case (base u)
  then show ?case by (auto intro: waits_for_increases)
next
  case (step u w)
  then have "lock_sequence t ! lj_locked t < lock_sequence u ! lj_locked u" by auto
  also have "\<dots> < lock_sequence w ! lj_locked w"
    using step by (auto intro: waits_for_increases)
  finally show ?case .
qed

section \<open>A small concrete ledger\<close>

definition demo_env :: ledger_env where
  "demo_env =
     \<lparr>sha256 = (\<lambda>s. ''h'' @ take 8 s), randomUUID = (\<lambda>n. ''u'' @ dec_of_nat n), nowMs = 1000, dbNow = 1000,
      idempotencyRetentionHours = 24, dateParse = (\<lambda>_. 0), isUuid = (\<lambda>s. s \<noteq> []),
      uniqueTarget = TargetString\<rparr>"

definition demo_account :: "string \<Rightarrow> ledgerAccountClass \<Rightarrow> bool \<Rightarrow> ledger_account" where
  "demo_account i c neg =
     \<lparr>la_id = i, la_code = i, la_name = i, la_currency = ''LKR'', la_accountClass = c,
      la_normalBalance = (if c = ASSET then DEBIT else CREDIT), la_systemAccountType = None,
      la_allowNegativeBalance = neg\<rparr>"

definition demo_projection :: "string \<Rightarrow> balance_projection" where
  "demo_projection i =
     \<lparr>bp_ledgerAccountId = i, bp_debitTotalMinor = 0, bp_creditTotalMinor = 0, bp_version = 0, bp_updatedAt = 0\<rparr>"

definition demo_db :: ledger_db where
  "demo_db =
     \<lparr>customerAccounts = [],
      ledgerAccounts = [demo_account ''S'' ASSET True, demo_account ''A'' LIABILITY False,
                        demo_account ''B'' LIABILITY False],
      balanceProjections = map demo_projection [''S'', ''A'', ''B''],
      journalEntries = [], journalPostings = [], idempotencyRecords = [], reconciliationRuns = []\<rparr>"

definition demo_posting :: "string \<Rightarrow> postingDirection \<Rightarrow> string \<Rightarrow> posting_request" where
  "demo_posting i d a = \<lparr>pr_ledgerAccountId = i, pr_direction = d, pr_amountMinor = a\<rparr>"

definition demo_request :: journal_request where
  "demo_request =
     \<lparr>jr_reference = Some ''FUND-0001'', jr_entryType = SETTLEMENT_FUNDING, jr_currency = ''LKR'',
      jr_description = None, jr_effectiveAt = None, jr_idempotencyKey = ''fund-key-00000001'',
      jr_postings = [demo_posting ''S'' DEBIT ''700'', demo_posting ''A'' CREDIT ''1000'',
                     demo_posting ''S'' DEBIT ''300''],
      jr_metadata = None\<rparr>"

definition demo_actor :: journal_actor where
  "demo_actor = \<lparr>actor_type = SERVICE, actor_id = ''ops''\<rparr>"

lemma demo_db_inv: "book_inv demo_db" "idem_inv demo_db"
  by code_simp+

lemma demo_post_ok: "\<exists>r db. post demo_env demo_request ''c'' demo_actor demo_db demo_db = Inr (r, db)"
proof -
  have "\<not> isl (post demo_env demo_request ''c'' demo_actor demo_db demo_db)" by code_simp
  then show ?thesis by (metis isl_def sum.exhaust prod.exhaust)
qed

lemma demo_fresh:
  "find_record journalEntry_scope (sha256 demo_env (jr_idempotencyKey demo_request)) demo_db = None"
  by code_simp

section \<open>Properties\<close>

text \<open>C1: posting a journal preserves the books.  Whatever other transactions committed between
  the idempotency lookup and the transaction, a call that succeeds leaves a ledger in which every
  entry still balances in one currency with at least two positive postings, every balance
  projection equals the sums recomputed from the postings, no account without an overdraft
  allowance is negative, identifiers and references stay unique, and every reservation is
  completed.\<close>

theorem post_preserves_books:
  assumes "book_inv db1" and "idem_inv db1"
    and "post env request cid actor db0 db1 = Inr (r, db2)"
  shows "book_inv db2 \<and> idem_inv db2"
  by (rule post_inv [OF assms])

theorem post_preserves_books_witness:
  "\<exists>r db2. post demo_env demo_request ''c'' demo_actor demo_db demo_db = Inr (r, db2)
     \<and> book_inv db2 \<and> idem_inv db2"
  using demo_post_ok demo_db_inv post_preserves_books by blast

text \<open>C2: a journal moves exactly what was asked and nothing else.  When the key is new, a
  successful call appends one entry and the postings of the normalised request; for every account
  the debits and the credits grow by exactly the amounts the request names for it, however the
  request split them over repeated postings; accounts and customers are untouched and nothing that
  was posted before changes.\<close>

theorem post_moves_exactly:
  assumes "book_inv db1" and "post env request cid actor db0 db1 = Inr (r, db2)"
    and "find_record journalEntry_scope (sha256 env (jr_idempotencyKey request)) db0 = None"
    and "find_record journalEntry_scope (sha256 env (jr_idempotencyKey request)) db1 = None"
  shows "journalEntries db2 = journalEntries db1 @ [journal_entry_of env request cid actor]
    \<and> (\<exists>new. journalPostings db2 = journalPostings db1 @ new
          \<and> sum_direction DEBIT new = sum_direction CREDIT new)
    \<and> (\<forall>a d. sum_direction d (postings_of_account a db2)
             = sum_direction d (postings_of_account a db1) + req_sum d a (jr_postings request))
    \<and> ledgerAccounts db2 = ledgerAccounts db1 \<and> customerAccounts db2 = customerAccounts db1
    \<and> reconciliationRuns db2 = reconciliationRuns db1"
  by (rule post_fresh_sums [OF assms])

theorem post_moves_exactly_witness:
  "\<exists>r db2. post demo_env demo_request ''c'' demo_actor demo_db demo_db = Inr (r, db2)
     \<and> sum_direction DEBIT (postings_of_account ''S'' db2) = 1000
     \<and> sum_direction CREDIT (postings_of_account ''A'' db2) = 1000"
proof -
  from demo_post_ok obtain r db2 where ok: "post demo_env demo_request ''c'' demo_actor demo_db demo_db = Inr (r, db2)"
    by blast
  have "sum_direction DEBIT (postings_of_account ''S'' demo_db) + req_sum DEBIT ''S'' (jr_postings demo_request) = 1000"
    "sum_direction CREDIT (postings_of_account ''A'' demo_db) + req_sum CREDIT ''A'' (jr_postings demo_request) = 1000"
    by code_simp+
  with ok post_moves_exactly [OF demo_db_inv(1) ok demo_fresh demo_fresh] show ?thesis by auto
qed

text \<open>C3: a journal is posted at most once per key.  After a first successful execution, the same
  request sent again, by any caller, at any later time and against any database in which the
  reservation survives, returns the stored result unchanged and writes nothing, even when its
  first lookup still missed the reservation and it only collides with the unique index.  The
  environment provides UUIDs that zod accepts, a digest that is never empty, and a unique
  violation of the reservation index that does not name one of the two other tables.\<close>

theorem post_exactly_once:
  assumes "book_inv db1"
    and "post env request cid actor db0 db1 = Inr (r, db2)"
    and "find_record journalEntry_scope (sha256 env (jr_idempotencyKey request)) db0 = None"
    and "find_record journalEntry_scope (sha256 env (jr_idempotencyKey request)) db1 = None"
    and "\<forall>n. isUuid env (randomUUID env n)"
    and "\<forall>p \<in> set (jr_postings request). isUuid env (pr_ledgerAccountId p)"
    and "journalReferenceSchema (je_reference (journal_entry_of env request cid actor))"
    and "\<And>s. sha256 env s \<noteq> []"
    and "isIdempotencyConflict (P2002 (uniqueTarget env ''idempotency_records_scope_key_hash_key''))"
    and "later_env env env'"
    and "find_record journalEntry_scope (sha256 env (jr_idempotencyKey request)) db4
         = find_record journalEntry_scope (sha256 env (jr_idempotencyKey request)) db2"
    and "db3 = db4 \<or> find_record journalEntry_scope (sha256 env (jr_idempotencyKey request)) db3 = None"
  shows "post env' request cid' actor' db3 db4 = Inr (r, db4)"
  by (rule post_replays [OF assms])

theorem post_exactly_once_witness:
  "\<exists>r db2. post demo_env demo_request ''c'' demo_actor demo_db demo_db = Inr (r, db2)
     \<and> post (demo_env\<lparr>nowMs := 9000, randomUUID := (\<lambda>n. ''v'' @ dec_of_nat n)\<rparr>) demo_request ''d'' demo_actor demo_db db2
         = Inr (r, db2)"
proof -
  from demo_post_ok obtain r db2 where ok: "post demo_env demo_request ''c'' demo_actor demo_db demo_db = Inr (r, db2)"
    by blast
  have 1: "\<forall>n. isUuid demo_env (randomUUID demo_env n)" by (simp add: demo_env_def)
  have 2: "\<forall>p \<in> set (jr_postings demo_request). isUuid demo_env (pr_ledgerAccountId p)"
    by (simp add: demo_env_def demo_request_def demo_posting_def)
  have 3: "journalReferenceSchema (je_reference (journal_entry_of demo_env demo_request ''c'' demo_actor))"
    by code_simp
  have 4: "sha256 demo_env s \<noteq> []" for s by (simp add: demo_env_def)
  have 5: "isIdempotencyConflict (P2002 (uniqueTarget demo_env ''idempotency_records_scope_key_hash_key''))"
    by code_simp
  have 6: "later_env demo_env (demo_env\<lparr>nowMs := 9000, randomUUID := (\<lambda>n. ''v'' @ dec_of_nat n)\<rparr>)"
    by (simp add: later_env_def demo_env_def)
  from post_exactly_once [OF demo_db_inv(1) ok demo_fresh demo_fresh 1 2 3 4 5 6 refl] demo_fresh ok
  show ?thesis by blast
qed

text \<open>the deferred database trigger is a backstop that never fires.  In every ledger that
  satisfies the book invariant, the integrity check the database runs at COMMIT accepts every
  journal entry, so a journal the service has accepted is never refused by the trigger.\<close>

theorem trigger_never_fires:
  assumes "book_inv db" and "e \<in> set (journalEntries db)"
  shows "assert_journal_integrity (je_id e) db"
  by (rule book_inv_integrity [OF assms])

text \<open>C4: posting cannot deadlock on accounts.  The query with which a journal locks its accounts sorts the rows by
  identifier, so the relation saying that one journal waits for a row another has already locked has no cycle,
  whatever databases the journals in flight see, whatever accounts they name, existing or not, and however far
  each has come; and when the locking succeeds, the rows it returns are those of that query.\<close>

theorem locks_cannot_deadlock:
  "acyclic {(t, u). waits_for t u}
   \<and> (case lockAccounts (lj_db t) (map np_ledgerAccountId (lj_postings t)) of
        Inl e \<Rightarrow> e = accountNotFoundError
      | Inr rows \<Rightarrow> map lk_id rows = lock_sequence t)"
proof
  show "acyclic {(t, u). waits_for t u}"
  proof (rule acyclicI, rule allI, rule notI)
    fix t assume c: "(t, t) \<in> {(t, u). waits_for t u}\<^sup>+"
    then obtain u where "waits_for t u" by (auto dest: tranclD)
    from waits_chain [OF c this] show False by simp
  qed
qed (simp add: lockAccounts_def lock_sequence_def Let_def)

end
