(* ===== verification/Accounts.thy ===== *)
theory Accounts
  imports Books
begin

text \<open>
  Customer accounts (\<open>services/ledger/src/accounts\<close>): generation and masking of public references,
  idempotent provisioning of the default wallet, and the ownership-checked reads.  The i-th draw of
  \<open>randomInt(32)\<close> in a call is the parameter \<open>rnd i\<close>.
\<close>

section \<open>References\<close>

definition REFERENCE_ALPHABET :: string where
  "REFERENCE_ALPHABET = ''ABCDEFGHJKLMNPQRSTUVWXYZ23456789''"

definition GROUP_LENGTH :: nat where "GROUP_LENGTH = 4"

definition GROUP_COUNT :: nat where "GROUP_COUNT = 3"

definition randomGroup :: "(nat \<Rightarrow> nat) \<Rightarrow> nat \<Rightarrow> string" where
  "randomGroup rnd start = map (\<lambda>i. REFERENCE_ALPHABET ! rnd (start + i)) [0..<GROUP_LENGTH]"

definition generatePublicAccountReference :: "(nat \<Rightarrow> nat) \<Rightarrow> nat \<Rightarrow> string" where
  "generatePublicAccountReference rnd start =
     ''AEGIS-'' @ join_with ''-'' (map (\<lambda>g. randomGroup rnd (start + g * GROUP_LENGTH)) [0..<GROUP_COUNT])"

definition maskAccountReference :: "string \<Rightarrow> (ledger_error, string) res" where
  "maskAccountReference publicReference =
     (let groups = split_on CHR ''-'' publicReference;
          lastGroup = last groups
      in if length groups \<noteq> GROUP_COUNT + 1 \<or> lastGroup = [] then Inl (AmountError TypeError)
         else Inr (''AEGIS-****-****-'' @ lastGroup))"

definition reference_group :: "string \<Rightarrow> bool" where
  "reference_group g = (length g = 4 \<and> list_all is_upper_alnum g)"

text \<open>\<open>/^AEGIS-[A-Z0-9]{4}-[A-Z0-9]{4}-[A-Z0-9]{4}$/u\<close>\<close>

definition publicAccountReferenceSchema :: "string \<Rightarrow> bool" where
  "publicAccountReferenceSchema s =
     (case split_on CHR ''-'' s of
        [p, a, b, c] \<Rightarrow> p = ''AEGIS'' \<and> reference_group a \<and> reference_group b \<and> reference_group c
      | _ \<Rightarrow> False)"

text \<open>\<open>/^AEGIS-\*{4}-\*{4}-[A-Z0-9]{4}$/u\<close>\<close>

definition maskedAccountReferenceSchema :: "string \<Rightarrow> bool" where
  "maskedAccountReferenceSchema s =
     (case split_on CHR ''-'' s of
        [p, a, b, c] \<Rightarrow> p = ''AEGIS'' \<and> a = ''****'' \<and> b = ''****'' \<and> reference_group c
      | _ \<Rightarrow> False)"

section \<open>Rows as the service selects them\<close>

record account_row =
  ar_id :: string
  ar_publicReference :: string
  ar_maskedReference :: string
  ar_productType :: accountProductType
  ar_status :: accountStatus
  ar_currency :: string
  ar_createdAt :: time
  ar_accountClass :: ledgerAccountClass
  ar_projection :: "balance_projection option"

text \<open>The foreign key makes the joined ledger account exist; without it the query would fail.\<close>

definition select_account :: "ledger_db \<Rightarrow> customer_account \<Rightarrow> (ledger_error, account_row) res" where
  "select_account db c =
     (case find_by la_id (ca_ledgerAccountId c) (ledgerAccounts db) of
        None \<Rightarrow> Inl PlainError
      | Some a \<Rightarrow> Inr
          \<lparr>ar_id = ca_id c, ar_publicReference = ca_publicReference c,
           ar_maskedReference = ca_maskedReference c, ar_productType = ca_productType c,
           ar_status = ca_status c, ar_currency = ca_currency c, ar_createdAt = ca_createdAt c,
           ar_accountClass = la_accountClass a,
           ar_projection = find_by bp_ledgerAccountId (la_id a) (balanceProjections db)\<rparr>)"

definition balanceMinor :: "account_row \<Rightarrow> (ledger_error, int) res" where
  "balanceMinor row =
     (case ar_projection row of
        None \<Rightarrow> Inl PlainError
      | Some p \<Rightarrow> Inr (signedBalanceMinor (ar_accountClass row) (bp_debitTotalMinor p) (bp_creditTotalMinor p)))"

record account_summary =
  as_id :: string
  as_maskedReference :: string
  as_productType :: accountProductType
  as_status :: accountStatus
  as_currency :: string
  as_createdAt :: time

definition toSummary :: "account_row \<Rightarrow> account_summary" where
  "toSummary row =
     \<lparr>as_id = ar_id row, as_maskedReference = ar_maskedReference row, as_productType = ar_productType row,
      as_status = ar_status row, as_currency = ar_currency row, as_createdAt = ar_createdAt row\<rparr>"

definition toDetail :: "account_row \<Rightarrow> (ledger_error, account_detail) res" where
  "toDetail row =
     andThen (balanceMinor row) (\<lambda>b.
       Inr \<lparr>ad_id = ar_id row, ad_maskedReference = ar_maskedReference row,
            ad_productType = ar_productType row, ad_status = ar_status row, ad_currency = ar_currency row,
            ad_createdAt = ar_createdAt row,
            ad_balance = \<lparr>currency = ar_currency row, minorUnits = serializeMinorUnits b\<rparr>,
            ad_receivingReference = ar_publicReference row\<rparr>)"

section \<open>Provisioning\<close>

text \<open>Inserting a ledger account fires the trigger that creates its zero projection.\<close>

definition insert_ledger_account ::
  "ledger_env \<Rightarrow> ledger_account \<Rightarrow> ledger_db \<Rightarrow> (ledger_error, ledger_db) res" where
  "insert_ledger_account env a db =
     (if la_id a \<in> la_id ` set (ledgerAccounts db) then Inl (P2002 (uniqueTarget env ''ledger_accounts_pkey''))
      else if la_code a \<in> la_code ` set (ledgerAccounts db)
      then Inl (P2002 (uniqueTarget env ''ledger_accounts_code_key''))
      else if \<not> currencyCodeSchema (la_currency a) then Inl DbCheckViolation
      else Inr (db\<lparr>ledgerAccounts := ledgerAccounts db @ [a],
                   balanceProjections := balanceProjections db @
                     [\<lparr>bp_ledgerAccountId = la_id a, bp_debitTotalMinor = 0, bp_creditTotalMinor = 0,
                       bp_version = 0, bp_updatedAt = dbNow env\<rparr>]\<rparr>))"

definition account_identity :: "customer_account \<Rightarrow> string \<times> accountProductType \<times> string" where
  "account_identity c = (ca_customerId c, ca_productType c, ca_currency c)"

definition insert_customer_account ::
  "ledger_env \<Rightarrow> customer_account \<Rightarrow> ledger_db \<Rightarrow> (ledger_error, ledger_db) res" where
  "insert_customer_account env c db =
     (if ca_id c \<in> ca_id ` set (customerAccounts db) then Inl (P2002 (uniqueTarget env ''customer_accounts_pkey''))
      else if ca_publicReference c \<in> ca_publicReference ` set (customerAccounts db)
      then Inl (P2002 (uniqueTarget env ''customer_accounts_public_reference_key''))
      else if ca_ledgerAccountId c \<in> ca_ledgerAccountId ` set (customerAccounts db)
      then Inl (P2002 (uniqueTarget env ''customer_accounts_ledger_account_id_key''))
      else if account_identity c \<in> account_identity ` set (customerAccounts db)
      then Inl (P2002 (uniqueTarget env ''customer_accounts_customer_id_product_type_currency_key''))
      else if \<not> publicAccountReferenceSchema (ca_publicReference c)
              \<or> \<not> maskedAccountReferenceSchema (ca_maskedReference c) \<or> \<not> currencyCodeSchema (ca_currency c)
      then Inl DbCheckViolation
      else Inr (db\<lparr>customerAccounts := customerAccounts db @ [c]\<rparr>))"

definition MAX_REFERENCE_ATTEMPTS :: nat where "MAX_REFERENCE_ATTEMPTS = 5"

text \<open>The body of an attempt once the reference is free: UUID 0 is the ledger account's identifier,
  UUID 1 the customer account's.\<close>

definition create_with_reference ::
  "ledger_env \<Rightarrow> string \<Rightarrow> string \<Rightarrow> accountProductType \<Rightarrow> string \<Rightarrow> ledger_db
     \<Rightarrow> (ledger_error, account_row \<times> ledger_db) res" where
  "create_with_reference env publicReference customerId productType cur db =
     andThen (maskAccountReference publicReference) (\<lambda>masked.
     andThen (insert_ledger_account env
        \<lparr>la_id = randomUUID env 0, la_code = ''CUST-'' @ publicReference,
         la_name = ''Customer wallet '' @ masked, la_currency = cur, la_accountClass = LIABILITY,
         la_normalBalance = CREDIT, la_systemAccountType = None, la_allowNegativeBalance = False\<rparr> db)
       (\<lambda>db1. let c = \<lparr>ca_id = randomUUID env 1, ca_customerId = customerId,
                      ca_publicReference = publicReference, ca_maskedReference = masked,
                      ca_productType = productType, ca_currency = cur, ca_status = ACTIVE,
                      ca_ledgerAccountId = randomUUID env 0, ca_createdAt = dbNow env\<rparr>
              in andThen (insert_customer_account env c db1)
                   (\<lambda>db2. andThen (select_account db2 c) (\<lambda>row. Inr (row, db2)))))"

text \<open>The attempt loop; \<open>left\<close> counts the attempts that remain.\<close>

fun createAccount_loop ::
  "ledger_env \<Rightarrow> (nat \<Rightarrow> nat) \<Rightarrow> nat \<Rightarrow> string \<Rightarrow> accountProductType \<Rightarrow> string \<Rightarrow> ledger_db
     \<Rightarrow> (ledger_error, account_row \<times> ledger_db) res" where
  "createAccount_loop env rnd 0 customerId productType cur db = Inl PlainError"
| "createAccount_loop env rnd (Suc left) customerId productType cur db =
     (let publicReference = generatePublicAccountReference rnd
            ((MAX_REFERENCE_ATTEMPTS - Suc left) * (GROUP_COUNT * GROUP_LENGTH))
      in if find_by ca_publicReference publicReference (customerAccounts db) \<noteq> None
         then createAccount_loop env rnd left customerId productType cur db
         else create_with_reference env publicReference customerId productType cur db)"

definition createAccount ::
  "ledger_env \<Rightarrow> (nat \<Rightarrow> nat) \<Rightarrow> string \<Rightarrow> accountProductType \<Rightarrow> string \<Rightarrow> ledger_db
     \<Rightarrow> (ledger_error, account_row \<times> ledger_db) res" where
  "createAccount env rnd customerId productType cur db =
     createAccount_loop env rnd MAX_REFERENCE_ATTEMPTS customerId productType cur db"

record provision_input =
  pi_customerId :: string
  pi_productType :: accountProductType
  pi_currency :: string
  pi_idempotencyKey :: string

text \<open>The advisory lock only orders concurrent transactions and is implied by their serial order.\<close>

definition provision_run ::
  "ledger_env \<Rightarrow> (nat \<Rightarrow> nat) \<Rightarrow> provision_input \<Rightarrow> ledger_db
     \<Rightarrow> (ledger_error, provision_result \<times> ledger_db) res" where
  "provision_run env rnd input db =
     (case find_by account_identity (pi_customerId input, pi_productType input, pi_currency input)
             (customerAccounts db) of
        Some existing \<Rightarrow>
          andThen (select_account db existing) (\<lambda>row.
          andThen (toDetail row) (\<lambda>d. Inr (\<lparr>pv_account = d, pv_created = False\<rparr>, db)))
      | None \<Rightarrow>
          andThen (createAccount env rnd (pi_customerId input) (pi_productType input) (pi_currency input) db)
            (\<lambda>(row, db'). andThen (toDetail row) (\<lambda>d. Inr (\<lparr>pv_account = d, pv_created = True\<rparr>, db'))))"

definition product_type_string :: "accountProductType \<Rightarrow> string" where
  "product_type_string t = (case t of TIER0_WALLET \<Rightarrow> ''TIER0_WALLET'')"

definition provisionDefaultAccountResultSchema :: "(string \<Rightarrow> bool) \<Rightarrow> provision_result \<Rightarrow> bool" where
  "provisionDefaultAccountResultSchema uuid r =
     (let d = pv_account r in
        uuid (ad_id d) \<and> maskedAccountReferenceSchema (ad_maskedReference d)
        \<and> currencyCodeSchema (ad_currency d) \<and> moneySchema (ad_balance d)
        \<and> publicAccountReferenceSchema (ad_receivingReference d))"

definition decode_provision :: "ledger_env \<Rightarrow> response_body \<Rightarrow> (ledger_error, provision_result) res" where
  "decode_provision env body =
     (case body of
        ProvisionBody r \<Rightarrow> if provisionDefaultAccountResultSchema (isUuid env) r then Inr r else Inl ContractError
      | JournalBody _ \<Rightarrow> Inl ContractError)"

definition provision_options ::
  "ledger_env \<Rightarrow> (nat \<Rightarrow> nat) \<Rightarrow> provision_input \<Rightarrow> provision_result exec_options" where
  "provision_options env rnd input =
     \<lparr>eo_scope = defaultCustomerAccount_scope, eo_idempotencyKey = pi_idempotencyKey input,
      eo_payload = JObj [(''customerId'', Some (JStr (pi_customerId input))),
                         (''productType'', Some (JStr (product_type_string (pi_productType input)))),
                         (''currency'', Some (JStr (pi_currency input)))],
      eo_run = provision_run env rnd input, eo_encode = ProvisionBody, eo_decode = decode_provision env\<rparr>"

definition provisionDefault ::
  "ledger_env \<Rightarrow> (nat \<Rightarrow> nat) \<Rightarrow> provision_input \<Rightarrow> ledger_db \<Rightarrow> ledger_db
     \<Rightarrow> (ledger_error, provision_result \<times> ledger_db) res" where
  "provisionDefault env rnd input db0 db1 =
     andThen (execute env (provision_options env rnd input) db0 db1)
       (\<lambda>(outcome, db2). Inr (oc_result outcome, db2))"

section \<open>Reads\<close>

fun select_all :: "ledger_db \<Rightarrow> customer_account list \<Rightarrow> (ledger_error, account_row list) res" where
  "select_all db [] = Inr []"
| "select_all db (c # cs) =
     andThen (select_account db c) (\<lambda>r. andThen (select_all db cs) (\<lambda>rs. Inr (r # rs)))"

definition listForCustomer :: "ledger_db \<Rightarrow> string \<Rightarrow> (ledger_error, account_summary list) res" where
  "listForCustomer db customerId =
     andThen (select_all db (take 32 (sort_key ca_createdAt
                (filter (\<lambda>c. ca_customerId c = customerId) (customerAccounts db)))))
       (\<lambda>rows. Inr (map toSummary rows))"

definition requireOwnedAccount :: "ledger_db \<Rightarrow> string \<Rightarrow> string \<Rightarrow> (ledger_error, account_row) res" where
  "requireOwnedAccount db customerId accountId =
     (case List.find (\<lambda>c. ca_id c = accountId \<and> ca_customerId c = customerId) (customerAccounts db) of
        None \<Rightarrow> Inl accountNotFoundError
      | Some c \<Rightarrow> select_account db c)"

definition getForCustomer :: "ledger_db \<Rightarrow> string \<Rightarrow> string \<Rightarrow> (ledger_error, account_detail) res" where
  "getForCustomer db customerId accountId =
     andThen (requireOwnedAccount db customerId accountId) toDetail"

record balance_view =
  bv_accountId :: string
  bv_balance :: money
  bv_updatedAt :: time

definition getBalanceForCustomer :: "ledger_db \<Rightarrow> string \<Rightarrow> string \<Rightarrow> (ledger_error, balance_view) res" where
  "getBalanceForCustomer db customerId accountId =
     andThen (requireOwnedAccount db customerId accountId) (\<lambda>row.
     andThen (balanceMinor row) (\<lambda>b.
       Inr \<lparr>bv_accountId = ar_id row,
            bv_balance = \<lparr>currency = ar_currency row, minorUnits = serializeMinorUnits b\<rparr>,
            bv_updatedAt = (case ar_projection row of Some p \<Rightarrow> bp_updatedAt p | None \<Rightarrow> ar_createdAt row)\<rparr>))"

section \<open>Facts about references\<close>

lemma alphabet_chars: "list_all (\<lambda>c. is_upper_alnum c \<and> c \<noteq> CHR ''-'') REFERENCE_ALPHABET"
  by code_simp

lemma alphabet_length: "length REFERENCE_ALPHABET = 32"
  by code_simp

lemma randomGroup_group:
  assumes "\<forall>i. rnd i < length REFERENCE_ALPHABET"
  shows "reference_group (randomGroup rnd s) \<and> CHR ''-'' \<notin> set (randomGroup rnd s)"
proof -
  have "is_upper_alnum (REFERENCE_ALPHABET ! rnd i) \<and> REFERENCE_ALPHABET ! rnd i \<noteq> CHR ''-''" for i
    using assms alphabet_chars by (auto simp: list_all_length)
  then show ?thesis
    by (auto simp: reference_group_def randomGroup_def GROUP_LENGTH_def list_all_iff)
       metis
qed

lemma split_reference:
  assumes "CHR ''-'' \<notin> set a" "CHR ''-'' \<notin> set b" "CHR ''-'' \<notin> set c" "CHR ''-'' \<notin> set p"
  shows "split_on CHR ''-'' (p @ ''-'' @ a @ ''-'' @ b @ ''-'' @ c) = [p, a, b, c]"
  using assms by (simp add: split_on_append split_on_no_sep)

lemma generated_reference:
  "generatePublicAccountReference rnd s =
     ''AEGIS'' @ ''-'' @ randomGroup rnd s @ ''-'' @ randomGroup rnd (s + 4) @ ''-'' @ randomGroup rnd (s + 8)"
  by (simp add: generatePublicAccountReference_def GROUP_COUNT_def GROUP_LENGTH_def upt_rec numeral_2_eq_2)

lemma generated_split:
  assumes "\<forall>i. rnd i < length REFERENCE_ALPHABET"
  shows "split_on CHR ''-'' (generatePublicAccountReference rnd s) =
     [''AEGIS'', randomGroup rnd s, randomGroup rnd (s + 4), randomGroup rnd (s + 8)]"
  using randomGroup_group [OF assms] unfolding generated_reference by (intro split_reference) auto

lemma masked_split:
  assumes "reference_group g" and "CHR ''-'' \<notin> set g"
  shows "split_on CHR ''-'' (''AEGIS-****-****-'' @ g) = [''AEGIS'', ''****'', ''****'', g]"
  using split_reference [of "''****''" "''****''" g "''AEGIS''"] assms by simp

lemma is_upper_alnum_not_dash: "is_upper_alnum c \<Longrightarrow> c \<noteq> CHR ''-''"
  by (auto simp: is_upper_alnum_def is_upper_def is_digit_def)

lemma reference_group_no_dash: "reference_group g \<Longrightarrow> CHR ''-'' \<notin> set g"
  by (auto simp: reference_group_def list_all_iff is_upper_alnum_def is_upper_def is_digit_def)

lemma public_reference_cases:
  assumes "publicAccountReferenceSchema s"
  obtains a b c where "split_on CHR ''-'' s = [''AEGIS'', a, b, c]"
    "reference_group a" "reference_group b" "reference_group c"
    "s = ''AEGIS-'' @ a @ ''-'' @ b @ ''-'' @ c"
proof -
  from assms obtain a b c where sp: "split_on CHR ''-'' s = [''AEGIS'', a, b, c]"
    and g: "reference_group a" "reference_group b" "reference_group c"
    by (auto simp: publicAccountReferenceSchema_def split: list.splits)
  have "s = join_with ''-'' (split_on CHR ''-'' s)" by simp
  then have "s = ''AEGIS-'' @ a @ ''-'' @ b @ ''-'' @ c" by (simp only: sp join_with.simps) simp
  with sp g show thesis by (rule that)
qed

section \<open>The ledger invariant\<close>

definition backed_by :: "ledger_db \<Rightarrow> customer_account \<Rightarrow> bool" where
  "backed_by db c =
     list_ex (\<lambda>a. la_id a = ca_ledgerAccountId c \<and> la_accountClass a = LIABILITY
                \<and> \<not> la_allowNegativeBalance a \<and> la_currency a = ca_currency c) (ledgerAccounts db)"

definition customer_inv :: "ledger_db \<Rightarrow> bool" where
  "customer_inv db =
     (distinct (map ca_id (customerAccounts db)) \<and>
      distinct (map ca_publicReference (customerAccounts db)) \<and>
      distinct (map ca_ledgerAccountId (customerAccounts db)) \<and>
      distinct (map account_identity (customerAccounts db)) \<and>
      list_all (backed_by db) (customerAccounts db))"

definition ledger_inv :: "ledger_db \<Rightarrow> bool" where
  "ledger_inv db = (book_inv db \<and> customer_inv db)"

lemma customer_inv_cong:
  "customerAccounts db' = customerAccounts db \<Longrightarrow> ledgerAccounts db' = ledgerAccounts db
     \<Longrightarrow> customer_inv db' = customer_inv db"
  by (simp add: customer_inv_def backed_by_def list_all_iff)

lemma book_inv_customers [simp]: "book_inv (db\<lparr>customerAccounts := cs\<rparr>) = book_inv db"
  by (simp add: book_inv_def projections_agree_def no_overdraft_def entry_balanced_def posting_wf_def
      account_balance_def postings_of_account_def postings_of_entry_def list_all_iff)

lemma ledger_inv_records [simp]: "ledger_inv (db\<lparr>idempotencyRecords := rs\<rparr>) = ledger_inv db"
proof -
  have "customer_inv (db\<lparr>idempotencyRecords := rs\<rparr>) = customer_inv db" by (rule customer_inv_cong) simp_all
  then show ?thesis by (simp add: ledger_inv_def)
qed

lemma insert_ledger_account_inv:
  assumes inv: "book_inv db" and ins: "insert_ledger_account env a db = Inr db'"
  shows "book_inv db'"
proof -
  from ins have new: "la_id a \<notin> la_id ` set (ledgerAccounts db)" and
    db': "db' = db\<lparr>ledgerAccounts := ledgerAccounts db @ [a], balanceProjections := balanceProjections db @
             [\<lparr>bp_ledgerAccountId = la_id a, bp_debitTotalMinor = 0, bp_creditTotalMinor = 0,
               bp_version = 0, bp_updatedAt = dbNow env\<rparr>]\<rparr>"
    by (auto simp: insert_ledger_account_def split: if_splits)
  from inv have wf: "\<forall>p \<in> set (journalPostings db). posting_wf db p"
    by (simp add: book_inv_def list_all_iff)
  have none: "filter (\<lambda>p. jp_ledgerAccountId p = la_id a) (journalPostings db) = []"
    unfolding filter_empty_conv
  proof (intro ballI notI)
    fix p assume "p \<in> set (journalPostings db)" and i: "jp_ledgerAccountId p = la_id a"
    with wf obtain b where "b \<in> set (ledgerAccounts db)" "la_id b = jp_ledgerAccountId p"
      unfolding posting_wf_def list_ex_iff by blast
    with i new show False by (metis imageI)
  qed
  have sums: "postings_of_account i db' = postings_of_account i db" "postings_of_entry i db' = postings_of_entry i db" for i
    by (simp_all add: db' postings_of_account_def postings_of_entry_def)
  have zero: "postings_of_account (la_id a) db = []" by (simp add: postings_of_account_def none)
  show ?thesis
    unfolding book_inv_def
  proof (intro conjI)
    show "distinct (map la_id (ledgerAccounts db'))" using inv new by (simp add: db' book_inv_def)
    show "projections_agree db'"
      using inv by (simp add: projections_agree_def sums book_inv_def) (simp add: db' zero)
    show "no_overdraft db'"
      using inv by (simp add: no_overdraft_def account_balance_def sums book_inv_def)
        (simp add: db' zero signedBalanceMinor_def)
    show "list_all (entry_balanced db') (journalEntries db')"
      using inv by (simp add: entry_balanced_def sums book_inv_def list_all_iff) (simp add: db')
    show "list_all (posting_wf db') (journalPostings db')"
      using wf by (auto simp: db' list_all_iff posting_wf_def)
  qed (use inv in \<open>simp_all add: book_inv_def db'\<close>)
qed

lemma insert_both_inv:
  assumes inv: "ledger_inv db" and ia: "insert_ledger_account env a db = Inr db1"
    and ic: "insert_customer_account env c db1 = Inr db2"
    and backing: "la_id a = ca_ledgerAccountId c" "la_accountClass a = LIABILITY"
      "\<not> la_allowNegativeBalance a" "la_currency a = ca_currency c"
  shows "ledger_inv db2"
proof -
  from ia have db1: "customerAccounts db1 = customerAccounts db" "ledgerAccounts db1 = ledgerAccounts db @ [a]"
    by (auto simp: insert_ledger_account_def split: if_splits)
  from ic have db2: "db2 = db1\<lparr>customerAccounts := customerAccounts db1 @ [c]\<rparr>"
    and new: "ca_id c \<notin> ca_id ` set (customerAccounts db1)"
      "ca_publicReference c \<notin> ca_publicReference ` set (customerAccounts db1)"
      "ca_ledgerAccountId c \<notin> ca_ledgerAccountId ` set (customerAccounts db1)"
      "account_identity c \<notin> account_identity ` set (customerAccounts db1)"
    unfolding insert_customer_account_def by (metis Inl_Inr_False Inr_inject)+
  have "book_inv db1" using insert_ledger_account_inv [OF _ ia] inv by (simp add: ledger_inv_def)
  moreover have "customer_inv db2"
    using inv new backing by (auto simp: ledger_inv_def customer_inv_def db2 db1 backed_by_def list_all_iff)
  ultimately show ?thesis by (simp add: ledger_inv_def db2)
qed

lemma create_with_reference_inv:
  assumes "ledger_inv db" and "create_with_reference env r cust pt cur db = Inr (row, db')"
  shows "ledger_inv db' \<and> idempotencyRecords db' = idempotencyRecords db"
proof -
  from assms(2) obtain masked db1 where
    1: "insert_ledger_account env
        \<lparr>la_id = randomUUID env 0, la_code = ''CUST-'' @ r,
         la_name = ''Customer wallet '' @ masked, la_currency = cur, la_accountClass = LIABILITY,
         la_normalBalance = CREDIT, la_systemAccountType = None, la_allowNegativeBalance = False\<rparr> db = Inr db1" and
    2: "insert_customer_account env
         \<lparr>ca_id = randomUUID env 1, ca_customerId = cust,
                      ca_publicReference = r, ca_maskedReference = masked,
                      ca_productType = pt, ca_currency = cur, ca_status = ACTIVE,
                      ca_ledgerAccountId = randomUUID env 0, ca_createdAt = dbNow env\<rparr> db1 = Inr db'"
    by (auto simp: create_with_reference_def Let_def res_simps)
  have "idempotencyRecords db1 = idempotencyRecords db"
    using 1 by (auto simp: insert_ledger_account_def split: if_splits)
  moreover have "idempotencyRecords db' = idempotencyRecords db1"
    using 2 unfolding insert_customer_account_def by (auto split: if_splits)
  ultimately show ?thesis using insert_both_inv [OF assms(1) 1 2] by simp
qed

lemma createAccount_loop_inv:
  "ledger_inv db \<Longrightarrow> createAccount_loop env rnd n cust pt cur db = Inr (row, db')
     \<Longrightarrow> ledger_inv db' \<and> idempotencyRecords db' = idempotencyRecords db"
  by (induction n) (auto simp: Let_def split: if_splits dest: create_with_reference_inv)

section \<open>Provisioning and posting keep the ledger invariant\<close>

lemma insert_records:
  "insert_ledger_account env a db = Inr db1 \<Longrightarrow> idempotencyRecords db1 = idempotencyRecords db"
  "insert_customer_account env c db = Inr db1 \<Longrightarrow> idempotencyRecords db1 = idempotencyRecords db"
  by (auto simp: insert_ledger_account_def insert_customer_account_def split: if_splits)

lemma createAccount_loop_records:
  "createAccount_loop env rnd n cust pt cur db = Inr (row, db') \<Longrightarrow> idempotencyRecords db' = idempotencyRecords db"
proof (induction n)
  case (Suc n)
  then show ?case
    by (auto simp: Let_def create_with_reference_def res_simps split: if_splits dest!: insert_records)
qed simp

lemma provision_run_inv:
  assumes "ledger_inv db" and "provision_run env rnd input db = Inr (v, db')"
  shows "ledger_inv db'"
  using assms
  by (auto simp: provision_run_def createAccount_def res_simps split: option.splits
      dest: createAccount_loop_inv)

lemma provision_run_records:
  assumes "provision_run env rnd input db = Inr (v, db')"
  shows "idempotencyRecords db' = idempotencyRecords db"
  using assms
  by (auto simp: provision_run_def createAccount_def res_simps split: option.splits
      dest: createAccount_loop_records)

interpretation provision_work: idempotent_work "provision_run env rnd input" ledger_inv
  for env rnd input
  by unfold_locales (auto intro: provision_run_inv provision_run_records)

lemma journal_run_accounts:
  assumes run: "journal_run env request cid actor ps tot db = Inr (v, db')" and inv: "book_inv db"
  shows "customerAccounts db' = customerAccounts db \<and> ledgerAccounts db' = ledgerAccounts db"
proof -
  have d: "distinct (map jp_id (journalPostings db))" using inv by (simp add: book_inv_def)
  obtain accounts where "db' = posted_db env (journal_entry_of env request cid actor) ps accounts db"
    by (rule journal_run_effect [OF run d refl])
  then show ?thesis by simp
qed

interpretation journal_ledger:
  idempotent_work "journal_run env request cid actor ps tot" "\<lambda>db. assertBalanced ps = Inr tot \<longrightarrow> ledger_inv db"
  for env request cid actor ps tot
proof unfold_locales
  fix db v db'
  assume inv: "assertBalanced ps = Inr tot \<longrightarrow> ledger_inv db"
    and run: "journal_run env request cid actor ps tot db = Inr (v, db')"
  show "assertBalanced ps = Inr tot \<longrightarrow> ledger_inv db'"
  proof
    assume bal: "assertBalanced ps = Inr tot"
    with inv have b: "book_inv db" and c: "customer_inv db" by (auto simp: ledger_inv_def)
    with journal_run_inv [OF b bal run] journal_run_accounts [OF run b] customer_inv_cong [of db' db]
    show "ledger_inv db'" by (simp add: ledger_inv_def)
  qed
next
  fix db v db'
  assume "journal_run env request cid actor ps tot db = Inr (v, db')"
  then show "idempotencyRecords db' = idempotencyRecords db" by (rule journal_run_records)
qed simp

lemma post_ledger_inv:
  assumes "ledger_inv db1" and "idem_inv db1"
    and "post env request cid actor db0 db1 = Inr (r, db2)"
  shows "ledger_inv db2 \<and> idem_inv db2"
proof -
  from assms(3) obtain ps tot out where
    bal: "assertBalanced ps = Inr tot" and
    ex: "execute env (journal_options env request cid actor ps tot) db0 db1 = Inr (out, db2)"
    by (auto simp: post_def res_simps)
  have run: "eo_run (journal_options env request cid actor ps tot) = journal_run env request cid actor ps tot"
    by (simp add: journal_options_def)
  from journal_ledger.execute_inv [OF run _ assms(2) ex] assms(1) bal show ?thesis by simp
qed

lemma provisionDefault_inv:
  assumes "ledger_inv db1" and "idem_inv db1"
    and "provisionDefault env rnd input db0 db1 = Inr (r, db2)"
  shows "ledger_inv db2 \<and> idem_inv db2"
proof -
  from assms(3) obtain out where ex: "execute env (provision_options env rnd input) db0 db1 = Inr (out, db2)"
    by (auto simp: provisionDefault_def res_simps)
  have "eo_run (provision_options env rnd input) = provision_run env rnd input"
    by (simp add: provision_options_def)
  from provision_work.execute_inv [OF this assms(1,2) ex] show ?thesis .
qed

section \<open>What the reads return\<close>

lemma ledger_account_of:
  assumes inv: "ledger_inv db" and c: "c \<in> set (customerAccounts db)"
  obtains a p where "find_by la_id (ca_ledgerAccountId c) (ledgerAccounts db) = Some a"
    "find_by bp_ledgerAccountId (ca_ledgerAccountId c) (balanceProjections db) = Some p"
    "la_id a = ca_ledgerAccountId c" "la_accountClass a = LIABILITY" "\<not> la_allowNegativeBalance a"
    "la_currency a = ca_currency c"
    "bp_debitTotalMinor p = sum_direction DEBIT (postings_of_account (ca_ledgerAccountId c) db)"
    "bp_creditTotalMinor p = sum_direction CREDIT (postings_of_account (ca_ledgerAccountId c) db)"
proof -
  from inv have bi: "book_inv db" and ci: "customer_inv db" by (simp_all add: ledger_inv_def)
  from ci c obtain a where a: "a \<in> set (ledgerAccounts db)" "la_id a = ca_ledgerAccountId c"
    "la_accountClass a = LIABILITY" "\<not> la_allowNegativeBalance a" "la_currency a = ca_currency c"
    by (auto simp: customer_inv_def list_all_iff backed_by_def list_ex_iff)
  have d: "distinct (map la_id (ledgerAccounts db))" using bi by (simp add: book_inv_def)
  have f: "find_by la_id (ca_ledgerAccountId c) (ledgerAccounts db) = Some a"
    using find_by_distinct [OF d a(1)] a(2) by simp
  have ids: "map bp_ledgerAccountId (balanceProjections db) = map la_id (ledgerAccounts db)"
    using bi by (simp add: book_inv_def projections_agree_def)
  then have "ca_ledgerAccountId c \<in> bp_ledgerAccountId ` set (balanceProjections db)"
    using a(1,2) by (metis imageI list.set_map)
  then obtain p where p: "find_by bp_ledgerAccountId (ca_ledgerAccountId c) (balanceProjections db) = Some p"
    by (metis find_by_None not_None_eq)
  from find_by_Some [OF p] bi have
    "bp_debitTotalMinor p = sum_direction DEBIT (postings_of_account (ca_ledgerAccountId c) db)"
    "bp_creditTotalMinor p = sum_direction CREDIT (postings_of_account (ca_ledgerAccountId c) db)"
    by (auto simp: book_inv_def projections_agree_def list_all_iff)
  with f p a show thesis by (intro that)
qed

definition wallet_balance :: "ledger_db \<Rightarrow> customer_account \<Rightarrow> int" where
  "wallet_balance db c =
     sum_direction CREDIT (postings_of_account (ca_ledgerAccountId c) db)
     - sum_direction DEBIT (postings_of_account (ca_ledgerAccountId c) db)"

lemma wallet_balance_nonneg:
  assumes inv: "ledger_inv db" and c: "c \<in> set (customerAccounts db)"
  shows "0 \<le> wallet_balance db c"
proof -
  obtain a where f: "find_by la_id (ca_ledgerAccountId c) (ledgerAccounts db) = Some a" and
    a: "la_id a = ca_ledgerAccountId c" "la_accountClass a = LIABILITY" "\<not> la_allowNegativeBalance a"
    by (rule ledger_account_of [OF inv c])
  from find_by_Some [OF f] inv a show ?thesis
    by (auto simp: ledger_inv_def book_inv_def no_overdraft_def list_all_iff account_balance_def
        signedBalanceMinor_def DEBIT_POSITIVE_CLASSES_def wallet_balance_def)
qed

lemma select_account_balance:
  assumes inv: "ledger_inv db" and c: "c \<in> set (customerAccounts db)"
  shows "\<exists>row. select_account db c = Inr row \<and> balanceMinor row = Inr (wallet_balance db c)
     \<and> ar_id row = ca_id c \<and> ar_currency row = ca_currency c \<and> ar_publicReference row = ca_publicReference c"
proof -
  obtain a p where "find_by la_id (ca_ledgerAccountId c) (ledgerAccounts db) = Some a"
    "find_by bp_ledgerAccountId (ca_ledgerAccountId c) (balanceProjections db) = Some p"
    "la_id a = ca_ledgerAccountId c" "la_accountClass a = LIABILITY"
    "bp_debitTotalMinor p = sum_direction DEBIT (postings_of_account (ca_ledgerAccountId c) db)"
    "bp_creditTotalMinor p = sum_direction CREDIT (postings_of_account (ca_ledgerAccountId c) db)"
    by (rule ledger_account_of [OF inv c])
  then show ?thesis
    by (simp add: select_account_def balanceMinor_def wallet_balance_def signedBalanceMinor_def
        DEBIT_POSITIVE_CLASSES_def)
qed

section \<open>What provisioning creates\<close>

lemma create_effect:
  assumes inv: "ledger_inv db" and cr: "create_with_reference env r cust pt cur db = Inr (row, db')"
  shows "\<exists>c. customerAccounts db' = customerAccounts db @ [c] \<and> account_identity c = (cust, pt, cur)
     \<and> journalPostings db' = journalPostings db \<and> journalEntries db' = journalEntries db
     \<and> balanceMinor row = Inr 0 \<and> ar_currency row = cur"
proof -
  from cr obtain masked db1 where
    1: "insert_ledger_account env
        \<lparr>la_id = randomUUID env 0, la_code = ''CUST-'' @ r,
         la_name = ''Customer wallet '' @ masked, la_currency = cur, la_accountClass = LIABILITY,
         la_normalBalance = CREDIT, la_systemAccountType = None, la_allowNegativeBalance = False\<rparr> db = Inr db1" and
    2: "insert_customer_account env
         \<lparr>ca_id = randomUUID env 1, ca_customerId = cust,
                      ca_publicReference = r, ca_maskedReference = masked,
                      ca_productType = pt, ca_currency = cur, ca_status = ACTIVE,
                      ca_ledgerAccountId = randomUUID env 0, ca_createdAt = dbNow env\<rparr> db1 = Inr db'" and
    3: "select_account db' \<lparr>ca_id = randomUUID env 1, ca_customerId = cust,
                      ca_publicReference = r, ca_maskedReference = masked,
                      ca_productType = pt, ca_currency = cur, ca_status = ACTIVE,
                      ca_ledgerAccountId = randomUUID env 0, ca_createdAt = dbNow env\<rparr> = Inr row"
    by (auto simp: create_with_reference_def Let_def res_simps)
  let ?c = "\<lparr>ca_id = randomUUID env 1, ca_customerId = cust, ca_publicReference = r, ca_maskedReference = masked,
             ca_productType = pt, ca_currency = cur, ca_status = ACTIVE,
             ca_ledgerAccountId = randomUUID env 0, ca_createdAt = dbNow env\<rparr>"
  from 1 have db1: "customerAccounts db1 = customerAccounts db" "journalPostings db1 = journalPostings db"
      "journalEntries db1 = journalEntries db" and new: "randomUUID env 0 \<notin> la_id ` set (ledgerAccounts db)"
    by (auto simp: insert_ledger_account_def split: if_splits)
  from 2 have db': "db' = db1\<lparr>customerAccounts := customerAccounts db1 @ [?c]\<rparr>"
    unfolding insert_customer_account_def by (auto split: if_splits)
  have inv': "ledger_inv db'" using insert_both_inv [OF inv 1 2] by simp
  have "filter (\<lambda>p. jp_ledgerAccountId p = randomUUID env 0) (journalPostings db) = []"
    using inv new unfolding filter_empty_conv ledger_inv_def book_inv_def list_all_iff posting_wf_def list_ex_iff
    by (metis imageI)
  then have "wallet_balance db' ?c = 0" by (simp add: wallet_balance_def postings_of_account_def db' db1)
  moreover have "?c \<in> set (customerAccounts db')" by (simp add: db')
  ultimately have "balanceMinor row = Inr 0 \<and> ar_currency row = cur"
    using select_account_balance [OF inv', of ?c] 3 by auto
  then show ?thesis by (intro exI [of _ ?c]) (simp add: db' db1 account_identity_def)
qed

lemma create_loop_effect:
  assumes inv: "ledger_inv db" and "createAccount_loop env rnd n cust pt cur db = Inr (row, db')"
  shows "\<exists>c. customerAccounts db' = customerAccounts db @ [c] \<and> account_identity c = (cust, pt, cur)
     \<and> journalPostings db' = journalPostings db \<and> journalEntries db' = journalEntries db
     \<and> balanceMinor row = Inr 0 \<and> ar_currency row = cur"
  using assms(2) by (induction n) (auto simp: Let_def split: if_splits dest: create_effect [OF inv])

definition accounts_for :: "provision_input \<Rightarrow> ledger_db \<Rightarrow> customer_account list" where
  "accounts_for input db =
     filter (\<lambda>c. account_identity c = (pi_customerId input, pi_productType input, pi_currency input))
       (customerAccounts db)"

lemma filter_key_distinct:
  assumes "distinct (map key xs)" and "find_by key k xs = Some x"
  shows "length (filter (\<lambda>y. key y = k) xs) = 1"
  using assms
proof (induction xs)
  case (Cons y ys)
  show ?case
  proof (cases "key y = k")
    case True
    then have "filter (\<lambda>y. key y = k) ys = []"
      using Cons.prems(1) unfolding filter_empty_conv by (metis distinct.simps(2) image_eqI list.map(2) list.set_map)
    with True show ?thesis by simp
  qed (use Cons in auto)
qed simp

lemma provision_run_effect:
  assumes inv: "ledger_inv db" and run: "provision_run env rnd input db = Inr (v, db')"
  shows "length (accounts_for input db') = 1
     \<and> journalPostings db' = journalPostings db \<and> journalEntries db' = journalEntries db
     \<and> pv_created v = (accounts_for input db = [])
     \<and> (pv_created v \<longrightarrow> ad_balance (pv_account v) = \<lparr>currency = pi_currency input, minorUnits = ''0''\<rparr>)"
proof -
  let ?k = "(pi_customerId input, pi_productType input, pi_currency input)"
  show ?thesis
  proof (cases "find_by account_identity ?k (customerAccounts db)")
    case (Some c)
    have "distinct (map account_identity (customerAccounts db))"
      using inv by (simp add: ledger_inv_def customer_inv_def)
    from filter_key_distinct [OF this Some] have one: "length (accounts_for input db) = 1"
      by (simp add: accounts_for_def)
    from run Some have "db' = db" "\<not> pv_created v" by (auto simp: provision_run_def res_simps)
    with one show ?thesis by auto
  next
    case None
    then obtain row d where
      cr: "createAccount_loop env rnd MAX_REFERENCE_ATTEMPTS (pi_customerId input) (pi_productType input)
             (pi_currency input) db = Inr (row, db')" and
      d: "toDetail row = Inr d" and v: "v = \<lparr>pv_account = d, pv_created = True\<rparr>"
      using run by (auto simp: provision_run_def createAccount_def res_simps)
    from None have none: "accounts_for input db = []"
      unfolding accounts_for_def filter_empty_conv find_by_None by (metis imageI)
    from create_loop_effect [OF inv cr] obtain c where
      c: "customerAccounts db' = customerAccounts db @ [c]" "account_identity c = ?k"
         "journalPostings db' = journalPostings db" "journalEntries db' = journalEntries db"
         "balanceMinor row = Inr 0" "ar_currency row = pi_currency input"
      by blast
    have "accounts_for input db' = accounts_for input db @ [c]" using c by (simp add: accounts_for_def)
    moreover have "ad_balance d = \<lparr>currency = pi_currency input, minorUnits = ''0''\<rparr>"
      using d c by (auto simp: toDetail_def serializeMinorUnits_def dec_of_int_def)
    ultimately show ?thesis using none c v by simp
  qed
qed

section \<open>A concrete ledger with wallets\<close>

definition demo_customer :: "string \<Rightarrow> string \<Rightarrow> string \<Rightarrow> customer_account" where
  "demo_customer who g la =
     \<lparr>ca_id = ''acc-'' @ who, ca_customerId = who, ca_publicReference = ''AEGIS-AAAA-AAAA-'' @ g,
      ca_maskedReference = ''AEGIS-****-****-'' @ g, ca_productType = TIER0_WALLET, ca_currency = ''LKR'',
      ca_status = ACTIVE, ca_ledgerAccountId = la, ca_createdAt = 1\<rparr>"

text \<open>Two customers; the first holds 1000 minor units against the settlement account.\<close>

definition demo_bank :: ledger_db where
  "demo_bank = demo_db\<lparr>
     customerAccounts := [demo_customer ''alice'' ''AAA2'' ''A'', demo_customer ''bob'' ''BBB2'' ''B''],
     balanceProjections :=
       [(demo_projection ''S'')\<lparr>bp_debitTotalMinor := 1000\<rparr>,
        (demo_projection ''A'')\<lparr>bp_creditTotalMinor := 1000\<rparr>, demo_projection ''B''],
     journalEntries :=
       [\<lparr>je_id = ''e1'', je_reference = ''FUND-0000'', je_entryType = SETTLEMENT_FUNDING, je_currency = ''LKR'',
         je_description = None, je_correlationId = ''c'', je_effectiveAt = 5, je_createdAt = 5,
         je_createdByType = SERVICE, je_createdById = ''ops'', je_metadata = []\<rparr>],
     journalPostings :=
       [\<lparr>jp_id = ''p1'', jp_journalEntryId = ''e1'', jp_ledgerAccountId = ''S'', jp_direction = DEBIT,
         jp_amountMinor = 1000, jp_currency = ''LKR'', jp_sequence = 0, jp_createdAt = 5\<rparr>,
        \<lparr>jp_id = ''p2'', jp_journalEntryId = ''e1'', jp_ledgerAccountId = ''A'', jp_direction = CREDIT,
         jp_amountMinor = 1000, jp_currency = ''LKR'', jp_sequence = 1, jp_createdAt = 5\<rparr>]\<rparr>"

lemma demo_bank_inv: "ledger_inv demo_bank" "idem_inv demo_bank"
  by code_simp+

section \<open>Properties\<close>

text \<open>provisioning a default wallet.  A successful first call with a key leaves exactly one account
  for the customer, product and currency, reports \<open>created\<close> exactly when there was none before, starts a
  new wallet at a zero balance without writing any journal entry or posting, and preserves the ledger
  invariant: every wallet is backed by its own liability account in its currency with no overdraft.\<close>

theorem provision_default_wallet:
  assumes "ledger_inv db1" and "idem_inv db1"
    and "provisionDefault env rnd input db0 db1 = Inr (r, db2)"
    and "find_record defaultCustomerAccount_scope (sha256 env (pi_idempotencyKey input)) db0 = None"
    and "find_record defaultCustomerAccount_scope (sha256 env (pi_idempotencyKey input)) db1 = None"
  shows "ledger_inv db2 \<and> idem_inv db2 \<and> length (accounts_for input db2) = 1
     \<and> pv_created r = (accounts_for input db1 = [])
     \<and> journalPostings db2 = journalPostings db1 \<and> journalEntries db2 = journalEntries db1
     \<and> (pv_created r \<longrightarrow> ad_balance (pv_account r) = \<lparr>currency = pi_currency input, minorUnits = ''0''\<rparr>)"
proof -
  let ?o = "provision_options env rnd input"
  from assms(3) obtain out where ex: "execute env ?o db0 db1 = Inr (out, db2)" and r: "r = oc_result out"
    by (auto simp: provisionDefault_def res_simps)
  obtain v db' where v: "oc_result out = v"
    and run: "eo_run ?o (db1\<lparr>idempotencyRecords := idempotencyRecords db1 @
        [reservation env ?o (sha256 env (eo_idempotencyKey ?o))
           (canonicalRequestHash (sha256 env) (eo_payload ?o))]\<rparr>) = Inr (v, db')"
    and "\<exists>rs. db2 = db'\<lparr>idempotencyRecords := rs\<rparr>"
    by (rule execute_fresh_run [OF ex]) (use assms(4,5) in \<open>simp_all add: provision_options_def\<close>)
  then obtain rs where rs: "db2 = db'\<lparr>idempotencyRecords := rs\<rparr>" by blast
  from run have run': "provision_run env rnd input (db1\<lparr>idempotencyRecords := idempotencyRecords db1 @
        [reservation env ?o (sha256 env (eo_idempotencyKey ?o))
           (canonicalRequestHash (sha256 env) (eo_payload ?o))]\<rparr>) = Inr (v, db')"
    by (simp add: provision_options_def)
  from provision_run_effect [OF _ run'] assms(1) provisionDefault_inv [OF assms(1-3)] r v
  show ?thesis by (simp add: rs accounts_for_def)
qed

text \<open>C14: the balance a customer is shown is the one the postings give.  In every ledger that satisfies
  the invariant, the balance read answers, for an account the customer owns, credits minus debits
  recomputed over all postings to the wallet, which is never negative; for an account that belongs to
  somebody else it answers exactly what it answers for an identifier that does not exist.\<close>

theorem balance_read_is_posting_sum:
  assumes "ledger_inv db"
  shows "(case List.find (\<lambda>c. ca_id c = accountId \<and> ca_customerId c = customerId) (customerAccounts db) of
            None \<Rightarrow> getBalanceForCustomer db customerId accountId = Inl accountNotFoundError
                  \<and> getForCustomer db customerId accountId = Inl accountNotFoundError
          | Some c \<Rightarrow> \<exists>v. getBalanceForCustomer db customerId accountId = Inr v \<and> bv_accountId v = accountId
                  \<and> bv_balance v = toMoney (ca_currency c) (wallet_balance db c)
                  \<and> 0 \<le> wallet_balance db c)"
proof (cases "List.find (\<lambda>c. ca_id c = accountId \<and> ca_customerId c = customerId) (customerAccounts db)")
  case None
  then show ?thesis
    by (simp add: getBalanceForCustomer_def getForCustomer_def requireOwnedAccount_def)
next
  case (Some c)
  then have c: "c \<in> set (customerAccounts db)" "ca_id c = accountId" by (auto simp: find_Some_iff)
  from select_account_balance [OF assms c(1)] wallet_balance_nonneg [OF assms c(1)] Some c(2) show ?thesis
    by (auto simp: getBalanceForCustomer_def requireOwnedAccount_def toMoney_def)
qed

theorem balance_read_is_posting_sum_witness:
  "ledger_inv demo_bank \<and>
   (\<exists>v. getBalanceForCustomer demo_bank ''alice'' ''acc-alice'' = Inr v
      \<and> bv_balance v = toMoney ''LKR'' 1000)
   \<and> getBalanceForCustomer demo_bank ''bob'' ''acc-alice'' = Inl accountNotFoundError"
proof -
  have 1: "List.find (\<lambda>c. ca_id c = ''acc-alice'' \<and> ca_customerId c = ''alice'') (customerAccounts demo_bank)
      = Some (demo_customer ''alice'' ''AAA2'' ''A'')"
    and 2: "List.find (\<lambda>c. ca_id c = ''acc-alice'' \<and> ca_customerId c = ''bob'') (customerAccounts demo_bank) = None"
    and 3: "wallet_balance demo_bank (demo_customer ''alice'' ''AAA2'' ''A'') = 1000"
    and 4: "ca_currency (demo_customer ''alice'' ''AAA2'' ''A'') = ''LKR''"
    by code_simp+
  from balance_read_is_posting_sum [OF demo_bank_inv(1), where accountId = "''acc-alice''" and customerId = "''alice''"]
    balance_read_is_posting_sum [OF demo_bank_inv(1), where accountId = "''acc-alice''" and customerId = "''bob''"]
    demo_bank_inv(1) 3 4
  show ?thesis unfolding 1 2 by auto
qed

text \<open>masking a reference hides all but its last group.  Every reference the generator draws is a valid
  public reference; masking a valid reference always succeeds, gives a valid masked reference, and two
  references that agree on their last four characters have the same mask.\<close>

theorem reference_masking:
  assumes "publicAccountReferenceSchema r" and "publicAccountReferenceSchema r'"
    and "drop 16 r = drop 16 r'" and "\<forall>i. rnd i < length REFERENCE_ALPHABET"
  shows "publicAccountReferenceSchema (generatePublicAccountReference rnd s)
    \<and> (\<exists>m. maskAccountReference r = Inr m \<and> maskAccountReference r' = Inr m
          \<and> maskedAccountReferenceSchema m \<and> m = ''AEGIS-****-****-'' @ drop 16 r)"
proof -
  have mask: "maskAccountReference q = Inr (''AEGIS-****-****-'' @ drop 16 q)
      \<and> maskedAccountReferenceSchema (''AEGIS-****-****-'' @ drop 16 q)"
    if q: "publicAccountReferenceSchema q" for q
  proof -
    obtain a b c where sp: "split_on CHR ''-'' q = [''AEGIS'', a, b, c]"
      and g: "reference_group a" "reference_group b" "reference_group c"
      and s: "q = ''AEGIS-'' @ a @ ''-'' @ b @ ''-'' @ c"
      by (rule public_reference_cases [OF q])
    have d: "drop 16 q = c" using g(1,2) by (simp add: s reference_group_def)
    have "c \<noteq> []" using g(3) by (auto simp: reference_group_def)
    with sp have "maskAccountReference q = Inr (''AEGIS-****-****-'' @ c)"
      by (simp add: maskAccountReference_def GROUP_COUNT_def)
    moreover have "maskedAccountReferenceSchema (''AEGIS-****-****-'' @ c)"
      using masked_split [OF g(3) reference_group_no_dash [OF g(3)]] g(3)
      by (simp only: maskedAccountReferenceSchema_def) simp
    ultimately show ?thesis unfolding d by blast
  qed
  have "publicAccountReferenceSchema (generatePublicAccountReference rnd s)"
    using randomGroup_group [OF assms(4)]
    by (simp add: publicAccountReferenceSchema_def generated_split [OF assms(4)])
  with mask [OF assms(1)] mask [OF assms(2)] assms(3) show ?thesis by auto
qed

end
