(* ===== verification/LedgerTransfers.thy ===== *)
theory LedgerTransfers
  imports Accounts
begin

text \<open>
  The two services that turn a transfer or a channel operation into a journal:
  \<open>services/ledger/src/transfers\<close> (customer transfers, with the schema its controller applies) and
  \<open>services/ledger/src/channels\<close> (QR payment, agent cash-in and cash-out), and the exception filter
  that turns their errors into HTTP answers.

  A handler reads the accounts at one moment (\<open>dbr\<close>), the idempotency lookup happens at another
  (\<open>db0\<close>) and the transaction at a third (\<open>db1\<close>); the definitions take the three states apart.
\<close>

section \<open>BigInt of a string\<close>

definition is_js_space :: "char \<Rightarrow> bool" where
  "is_js_space c = (c \<in> {CHR 0x20, CHR 0x09, CHR 0x0A, CHR 0x0B, CHR 0x0C, CHR 0x0D})"

definition js_trim :: "string \<Rightarrow> string" where
  "js_trim s = rev (dropWhile is_js_space (rev (dropWhile is_js_space s)))"

definition radix_digit :: "nat \<Rightarrow> char \<Rightarrow> nat option" where
  "radix_digit r c =
     (let v = (if is_digit c then digit_val c
               else if is_lower c then of_char c - 87
               else if is_upper c then of_char c - 55 else r)
      in if v < r then Some v else None)"

fun radix_value :: "nat \<Rightarrow> nat \<Rightarrow> string \<Rightarrow> nat option" where
  "radix_value r acc [] = Some acc"
| "radix_value r acc (c # s) =
     (case radix_digit r c of None \<Rightarrow> None | Some d \<Rightarrow> radix_value r (r * acc + d) s)"

text \<open>Decimal with an optional sign, or an unsigned hexadecimal, octal or binary literal; the empty
  string is zero.\<close>

definition js_BigInt :: "string \<Rightarrow> (ledger_error, int) res" where
  "js_BigInt s =
     (let t = js_trim s;
          digits = (\<lambda>r u. if u = [] then None else radix_value r 0 u)
      in if t = [] then Inr 0
         else ofOption SyntaxError
           (if starts_with ''0x'' t \<or> starts_with ''0X'' t then map_option int (digits 16 (drop 2 t))
            else if starts_with ''0o'' t \<or> starts_with ''0O'' t then map_option int (digits 8 (drop 2 t))
            else if starts_with ''0b'' t \<or> starts_with ''0B'' t then map_option int (digits 2 (drop 2 t))
            else if hd t = CHR ''-'' then map_option (\<lambda>n. - int n) (digits 10 (tl t))
            else if hd t = CHR ''+'' then map_option int (digits 10 (tl t))
            else map_option int (digits 10 t)))"

section \<open>Customer transfers\<close>

record transfer_preview =
  tp_senderCustomerId :: string
  tp_sourceAccountId :: string
  tp_recipientReference :: string
  tp_amountMinor :: string
  tp_currency :: string

record transfer_command = transfer_preview +
  tc_transferId :: string
  tc_transferReference :: string
  tc_idempotencyKey :: string

text \<open>\<open>/^AEGIS-TRF-[A-Z0-9]{4}-[A-Z0-9]{4}-[A-Z0-9]{4}$/u\<close>\<close>

definition transferDisplayReferenceSchema :: "string \<Rightarrow> bool" where
  "transferDisplayReferenceSchema s =
     (case split_on CHR ''-'' s of
        [p, t, a, b, c] \<Rightarrow> p = ''AEGIS'' \<and> t = ''TRF'' \<and> reference_group a \<and> reference_group b \<and> reference_group c
      | _ \<Rightarrow> False)"

text \<open>\<open>/^[A-Za-z0-9._:-]{16,128}$/u\<close>\<close>

definition idempotencyKeySchema :: "string \<Rightarrow> bool" where
  "idempotencyKeySchema s = (list_all is_safe_char s \<and> 16 \<le> length s \<and> length s \<le> 128)"

definition internalTransferPreviewSchema :: "(string \<Rightarrow> bool) \<Rightarrow> 'a transfer_preview_scheme \<Rightarrow> bool" where
  "internalTransferPreviewSchema uuid i =
     (uuid (tp_senderCustomerId i) \<and> uuid (tp_sourceAccountId i)
      \<and> publicAccountReferenceSchema (tp_recipientReference i)
      \<and> positiveMinorUnitsSchema (tp_amountMinor i) \<and> currencyCodeSchema (tp_currency i))"

definition internalLedgerTransferCommandSchema :: "(string \<Rightarrow> bool) \<Rightarrow> transfer_command \<Rightarrow> bool" where
  "internalLedgerTransferCommandSchema uuid c =
     (internalTransferPreviewSchema uuid c \<and> uuid (tc_transferId c)
      \<and> transferDisplayReferenceSchema (tc_transferReference c) \<and> idempotencyKeySchema (tc_idempotencyKey c))"

definition resolve ::
  "ledger_db \<Rightarrow> 'a transfer_preview_scheme \<Rightarrow> (ledger_error, customer_account \<times> customer_account) res" where
  "resolve db input =
     (case List.find (\<lambda>c. ca_id c = tp_sourceAccountId input \<and> ca_customerId c = tp_senderCustomerId input)
             (customerAccounts db) of
        None \<Rightarrow> Inl accountNotFoundError
      | Some source \<Rightarrow>
          (case find_by ca_publicReference (tp_recipientReference input) (customerAccounts db) of
             None \<Rightarrow> Inl (LedgerError ''ACCOUNT_NOT_FOUND'' 409)
           | Some recipient \<Rightarrow>
               if ca_status source \<noteq> ACTIVE \<or> ca_status recipient \<noteq> ACTIVE then Inl accountNotActiveError
               else if ca_id source = ca_id recipient then Inl (LedgerError ''SELF_TRANSFER'' 409)
               else if ca_currency source \<noteq> ca_currency recipient \<or> ca_currency source \<noteq> tp_currency input
               then Inl currencyMismatchError
               else Inr (source, recipient)))"

text \<open>\<open>balance(account)\<close>: the projection of the account's ledger account under its class.\<close>

definition wallet_projection_balance :: "ledger_db \<Rightarrow> customer_account \<Rightarrow> (ledger_error, int) res" where
  "wallet_projection_balance db c =
     (case find_by la_id (ca_ledgerAccountId c) (ledgerAccounts db) of
        None \<Rightarrow> Inl PlainError
      | Some a \<Rightarrow>
          (case find_by bp_ledgerAccountId (la_id a) (balanceProjections db) of
             None \<Rightarrow> Inl accountNotFoundError
           | Some p \<Rightarrow> Inr (signedBalanceMinor (la_accountClass a) (bp_debitTotalMinor p) (bp_creditTotalMinor p))))"

record preview_result =
  pw_sourceAccountId :: string
  pw_sourceMaskedReference :: string
  pw_sourceBalance :: money
  pw_recipientAccountId :: string
  pw_recipientCustomerId :: string
  pw_recipientMaskedReference :: string
  pw_currency :: string

definition transfer_preview_of ::
  "ledger_db \<Rightarrow> 'a transfer_preview_scheme \<Rightarrow> (ledger_error, preview_result) res" where
  "transfer_preview_of db input =
     andThen (resolve db input) (\<lambda>(source, recipient).
     andThen (wallet_projection_balance db source) (\<lambda>b.
       Inr \<lparr>pw_sourceAccountId = ca_id source, pw_sourceMaskedReference = ca_maskedReference source,
            pw_sourceBalance = \<lparr>currency = ca_currency source, minorUnits = serializeMinorUnits b\<rparr>,
            pw_recipientAccountId = ca_id recipient, pw_recipientCustomerId = ca_customerId recipient,
            pw_recipientMaskedReference = ca_maskedReference recipient, pw_currency = ca_currency source\<rparr>))"

record transfer_result =
  tr_journalId :: string
  tr_senderPostingId :: string
  tr_recipientPostingId :: string
  tr_senderAccountId :: string
  tr_recipientAccountId :: string
  tr_senderMaskedReference :: string
  tr_recipientMaskedReference :: string
  tr_senderBalanceAfter :: money
  tr_recipientBalanceAfter :: money
  tr_currency :: string
  tr_amount :: money
  tr_postedAt :: time

definition service_payments :: journal_actor where
  "service_payments = \<lparr>actor_type = SERVICE, actor_id = ''payments''\<rparr>"

definition transfer_journal ::
  "transfer_command \<Rightarrow> customer_account \<Rightarrow> customer_account \<Rightarrow> journal_request" where
  "transfer_journal input source recipient =
     \<lparr>jr_reference = Some (tc_transferReference input), jr_entryType = CUSTOMER_TRANSFER,
      jr_currency = tp_currency input, jr_description = Some ''Customer transfer'', jr_effectiveAt = None,
      jr_idempotencyKey = tc_idempotencyKey input,
      jr_postings =
        [\<lparr>pr_ledgerAccountId = ca_ledgerAccountId source, pr_direction = DEBIT,
          pr_amountMinor = tp_amountMinor input\<rparr>,
         \<lparr>pr_ledgerAccountId = ca_ledgerAccountId recipient, pr_direction = CREDIT,
          pr_amountMinor = tp_amountMinor input\<rparr>],
      jr_metadata = Some [(''transferId'', JStr (tc_transferId input)),
                          (''transferReference'', JStr (tc_transferReference input))]\<rparr>"

definition liability_money :: "ledger_db \<Rightarrow> string \<Rightarrow> string \<Rightarrow> (ledger_error, money) res" where
  "liability_money db account cur =
     (case find_by bp_ledgerAccountId account (balanceProjections db) of
        None \<Rightarrow> Inl PlainError
      | Some p \<Rightarrow> Inr \<lparr>currency = cur, minorUnits =
          serializeMinorUnits (signedBalanceMinor LIABILITY (bp_debitTotalMinor p) (bp_creditTotalMinor p))\<rparr>)"

text \<open>The answer, assembled from the journal and the projections read after it.\<close>

definition transfer_answer ::
  "transfer_command \<Rightarrow> customer_account \<Rightarrow> customer_account \<Rightarrow> journal_result \<Rightarrow> ledger_db
     \<Rightarrow> (ledger_error, transfer_result) res" where
  "transfer_answer input source recipient journal db =
     andThen (ofOption accountNotFoundError
        (List.find (\<lambda>p. po_ledgerAccountId p = ca_ledgerAccountId source) (jres_postings journal))) (\<lambda>senderPosting.
     andThen (ofOption accountNotFoundError
        (List.find (\<lambda>p. po_ledgerAccountId p = ca_ledgerAccountId recipient) (jres_postings journal))) (\<lambda>recipientPosting.
     andThen (liability_money db (ca_ledgerAccountId source) (ca_currency source)) (\<lambda>sourceAfter.
     andThen (liability_money db (ca_ledgerAccountId recipient) (ca_currency recipient)) (\<lambda>recipientAfter.
       Inr \<lparr>tr_journalId = jres_id journal, tr_senderPostingId = po_id senderPosting,
            tr_recipientPostingId = po_id recipientPosting, tr_senderAccountId = ca_id source,
            tr_recipientAccountId = ca_id recipient, tr_senderMaskedReference = ca_maskedReference source,
            tr_recipientMaskedReference = ca_maskedReference recipient,
            tr_senderBalanceAfter = sourceAfter, tr_recipientBalanceAfter = recipientAfter,
            tr_currency = tp_currency input,
            tr_amount = \<lparr>currency = tp_currency input, minorUnits = tp_amountMinor input\<rparr>,
            tr_postedAt = jres_createdAt journal\<rparr>))))"

text \<open>The answer shows the balances of the two projections, which the code reads after the transaction; the model reads them
  from the state the transaction leaves.\<close>

definition transfer ::
  "ledger_env \<Rightarrow> transfer_command \<Rightarrow> string \<Rightarrow> ledger_db \<Rightarrow> ledger_db \<Rightarrow> ledger_db
     \<Rightarrow> (ledger_error, transfer_result \<times> ledger_db) res" where
  "transfer env input correlationId dbr db0 db1 =
     andThen (resolve dbr input) (\<lambda>(source, recipient).
     andThen (js_BigInt (tp_amountMinor input)) (\<lambda>amount.
       if amount \<le> 0 then Inl (LedgerError ''INVALID_REQUEST'' 400)
       else andThen (wallet_projection_balance dbr source) (\<lambda>b.
         if b < amount then Inl insufficientFundsError
         else andThen (post env (transfer_journal input source recipient) correlationId service_payments db0 db1)
           (\<lambda>(journal, db2).
              andThen (transfer_answer input source recipient journal db2) (\<lambda>answer. Inr (answer, db2))))))"

text \<open>The controller: \<open>parseInput\<close> turns every schema violation into one error.\<close>

definition transfer_endpoint ::
  "ledger_env \<Rightarrow> transfer_command \<Rightarrow> string \<Rightarrow> ledger_db \<Rightarrow> ledger_db \<Rightarrow> ledger_db
     \<Rightarrow> (ledger_error, transfer_result \<times> ledger_db) res" where
  "transfer_endpoint env body correlationId dbr db0 db1 =
     (if \<not> internalLedgerTransferCommandSchema (isUuid env) body then Inl invalidRequestError
      else transfer env body correlationId dbr db0 db1)"

definition preview_endpoint ::
  "ledger_env \<Rightarrow> transfer_preview \<Rightarrow> ledger_db \<Rightarrow> (ledger_error, preview_result) res" where
  "preview_endpoint env body db =
     (if \<not> internalTransferPreviewSchema (isUuid env) body then Inl invalidRequestError
      else transfer_preview_of db body)"

section \<open>Channel operations\<close>

definition resolveAccountByReference ::
  "ledger_db \<Rightarrow> string \<Rightarrow> (ledger_error, string \<times> string \<times> string) res" where
  "resolveAccountByReference db publicReference =
     (case find_by ca_publicReference publicReference (customerAccounts db) of
        None \<Rightarrow> Inl accountNotFoundError
      | Some a \<Rightarrow> Inr (ca_id a, ca_customerId a, ca_maskedReference a))"

definition getCustomerAccount :: "ledger_db \<Rightarrow> string \<Rightarrow> (ledger_error, customer_account) res" where
  "getCustomerAccount db accountId =
     (case find_by ca_id accountId (customerAccounts db) of
        None \<Rightarrow> Inl accountNotFoundError
      | Some acc \<Rightarrow> if ca_status acc \<noteq> ACTIVE then Inl accountNotActiveError else Inr acc)"

definition getSystemAccount :: "ledger_db \<Rightarrow> systemAccountType \<Rightarrow> string \<Rightarrow> (ledger_error, ledger_account) res" where
  "getSystemAccount db t cur =
     ofOption (LedgerError ''INTERNAL_ERROR'' 500)
       (List.find (\<lambda>a. la_systemAccountType a = Some t \<and> la_currency a = cur) (ledgerAccounts db))"

record qr_input =
  qi_sourceAccountId :: string
  qi_recipientAccountId :: string
  qi_currency :: string
  qi_amountMinor :: string
  qi_transferReference :: string
  qi_transferId :: string
  qi_idempotencyKey :: string

definition qrPayment ::
  "ledger_env \<Rightarrow> qr_input \<Rightarrow> string \<Rightarrow> ledger_db \<Rightarrow> ledger_db \<Rightarrow> ledger_db
     \<Rightarrow> (ledger_error, string \<times> ledger_db) res" where
  "qrPayment env input correlationId dbr db0 db1 =
     andThen (getCustomerAccount dbr (qi_sourceAccountId input)) (\<lambda>source.
     andThen (getCustomerAccount dbr (qi_recipientAccountId input)) (\<lambda>recipient.
       if ca_id source = ca_id recipient then Inl (LedgerError ''SELF_TRANSFER'' 409)
       else if ca_currency source \<noteq> ca_currency recipient \<or> ca_currency source \<noteq> qi_currency input
       then Inl (LedgerError ''CURRENCY_MISMATCH'' 409)
       else andThen (js_BigInt (qi_amountMinor input)) (\<lambda>amount.
         if amount \<le> 0 then Inl (LedgerError ''INVALID_REQUEST'' 400)
         else andThen (wallet_projection_balance dbr source) (\<lambda>b.
           if b < amount then Inl insufficientFundsError
           else andThen (post env
             \<lparr>jr_reference = Some (qi_transferReference input), jr_entryType = QR_PAYMENT,
              jr_currency = qi_currency input, jr_description = Some ''QR Payment'', jr_effectiveAt = None,
              jr_idempotencyKey = qi_idempotencyKey input,
              jr_postings =
                [\<lparr>pr_ledgerAccountId = ca_ledgerAccountId source, pr_direction = DEBIT,
                  pr_amountMinor = qi_amountMinor input\<rparr>,
                 \<lparr>pr_ledgerAccountId = ca_ledgerAccountId recipient, pr_direction = CREDIT,
                  pr_amountMinor = qi_amountMinor input\<rparr>],
              jr_metadata = Some [(''transferId'', JStr (qi_transferId input))]\<rparr>
             correlationId service_payments db0 db1)
             (\<lambda>(journal, db2). Inr (jres_id journal, db2))))))"

record agent_input =
  ai_customerAccountId :: string
  ai_currency :: string
  ai_amountMinor :: string
  ai_operationReference :: string
  ai_operationId :: string
  ai_agentId :: string
  ai_idempotencyKey :: string

definition agent_journal ::
  "agent_input \<Rightarrow> journalEntryType \<Rightarrow> string \<Rightarrow> string \<Rightarrow> string \<Rightarrow> journal_request" where
  "agent_journal input entryType description debitAccount creditAccount =
     \<lparr>jr_reference = Some (ai_operationReference input), jr_entryType = entryType,
      jr_currency = ai_currency input, jr_description = Some description, jr_effectiveAt = None,
      jr_idempotencyKey = ai_idempotencyKey input,
      jr_postings =
        [\<lparr>pr_ledgerAccountId = debitAccount, pr_direction = DEBIT, pr_amountMinor = ai_amountMinor input\<rparr>,
         \<lparr>pr_ledgerAccountId = creditAccount, pr_direction = CREDIT, pr_amountMinor = ai_amountMinor input\<rparr>],
      jr_metadata = Some [(''operationId'', JStr (ai_operationId input)), (''agentId'', JStr (ai_agentId input))]\<rparr>"

definition agentCashIn ::
  "ledger_env \<Rightarrow> agent_input \<Rightarrow> string \<Rightarrow> ledger_db \<Rightarrow> ledger_db \<Rightarrow> ledger_db
     \<Rightarrow> (ledger_error, string \<times> ledger_db) res" where
  "agentCashIn env input correlationId dbr db0 db1 =
     andThen (getCustomerAccount dbr (ai_customerAccountId input)) (\<lambda>customer.
     andThen (getSystemAccount dbr AGENT_FLOAT (ai_currency input)) (\<lambda>float.
     andThen (js_BigInt (ai_amountMinor input)) (\<lambda>amount.
       if amount \<le> 0 then Inl (LedgerError ''INVALID_REQUEST'' 400)
       else andThen (post env
              (agent_journal input AGENT_CASH_IN ''Agent Cash In'' (la_id float) (ca_ledgerAccountId customer))
              correlationId service_payments db0 db1)
            (\<lambda>(journal, db2). Inr (jres_id journal, db2)))))"

definition agentCashOut ::
  "ledger_env \<Rightarrow> agent_input \<Rightarrow> string \<Rightarrow> ledger_db \<Rightarrow> ledger_db \<Rightarrow> ledger_db
     \<Rightarrow> (ledger_error, string \<times> ledger_db) res" where
  "agentCashOut env input correlationId dbr db0 db1 =
     andThen (getCustomerAccount dbr (ai_customerAccountId input)) (\<lambda>customer.
     andThen (getSystemAccount dbr AGENT_FLOAT (ai_currency input)) (\<lambda>float.
     andThen (js_BigInt (ai_amountMinor input)) (\<lambda>amount.
       if amount \<le> 0 then Inl (LedgerError ''INVALID_REQUEST'' 400)
       else andThen (wallet_projection_balance dbr customer) (\<lambda>b.
         if b < amount then Inl insufficientFundsError
         else andThen (post env
                (agent_journal input AGENT_CASH_OUT ''Agent Cash Out'' (ca_ledgerAccountId customer) (la_id float))
                correlationId service_payments db0 db1)
              (\<lambda>(journal, db2). Inr (jres_id journal, db2))))))"

section \<open>Errors as HTTP answers\<close>

definition exception_filter :: "ledger_error \<Rightarrow> nat \<times> string" where
  "exception_filter e =
     (case e of LedgerError code status \<Rightarrow> (status, code) | _ \<Rightarrow> (500, ''INTERNAL_ERROR''))"

section \<open>Facts\<close>

lemma dropWhile_spaces_digits: "list_all is_digit s \<Longrightarrow> dropWhile is_js_space s = s"
  by (cases s) (auto simp: is_js_space_def is_digit_def)

lemma js_trim_digits: "list_all is_digit s \<Longrightarrow> js_trim s = s"
  by (simp add: js_trim_def dropWhile_spaces_digits)

lemma radix_value_digits:
  "list_all is_digit s \<Longrightarrow> radix_value 10 acc s = Some (foldl (\<lambda>a c. 10 * a + digit_val c) acc s)"
  by (induction s arbitrary: acc) (auto simp: radix_digit_def)

text \<open>On amounts that satisfy the contract, \<open>BigInt\<close> and \<open>parseMinorUnits\<close> agree.\<close>

lemma js_BigInt_positive:
  assumes "positiveMinorUnitsSchema s"
  shows "js_BigInt s = Inr (int (nat_of_dec s)) \<and> nat_of_dec s > 0"
proof -
  from assms have d: "list_all is_digit s" "s \<noteq> []" "hd s \<noteq> CHR ''0''" and h: "is_digit (hd s)"
    by (cases s; simp add: positiveMinorUnitsSchema_def)+
  then obtain c t where s: "s = c # t" and c: "c \<noteq> CHR ''0''" "is_digit c" by (cases s) auto
  then have "c \<noteq> CHR ''-''" "c \<noteq> CHR ''+''" by (auto simp: is_digit_def)
  then have "js_BigInt s = Inr (int (nat_of_dec s))"
    using d c radix_value_digits [OF d(1), of 0]
    by (simp add: js_BigInt_def Let_def js_trim_digits s starts_with_def nat_of_dec_def del: radix_value.simps)
  with parse_positive [OF assms] show ?thesis by simp
qed

lemma post_success_parse:
  assumes "post env request cid actor db0 db1 = Inr (r, db2)" and "p \<in> set (jr_postings request)"
  shows "\<exists>a. parseMinorUnits (pr_amountMinor p) = Inr a"
proof -
  have "\<exists>a. parseMinorUnits (pr_amountMinor p) = Inr a"
    if "normalise_loop c ps = Inr c'" "p \<in> set ps" for c ps c'
    using that by (induction c ps rule: normalise_loop.induct)
      (fastforce simp: Let_def res_simps split: option.splits)+
  with assms show ?thesis by (auto simp: post_def normalisePostings_def res_simps)
qed

lemma resolve_spec:
  assumes "resolve db input = Inr (source, recipient)"
  shows "source \<in> set (customerAccounts db) \<and> recipient \<in> set (customerAccounts db)
    \<and> ca_id source = tp_sourceAccountId input \<and> ca_customerId source = tp_senderCustomerId input
    \<and> ca_publicReference recipient = tp_recipientReference input
    \<and> ca_status source = ACTIVE \<and> ca_status recipient = ACTIVE \<and> ca_id source \<noteq> ca_id recipient
    \<and> ca_currency source = tp_currency input \<and> ca_currency recipient = tp_currency input"
  using assms
  by (auto simp: resolve_def find_Some_iff split: option.splits if_splits dest!: find_by_Some)

lemma distinct_wallets:
  assumes "customer_inv db" "s \<in> set (customerAccounts db)" "c \<in> set (customerAccounts db)" "s \<noteq> c"
  shows "ca_ledgerAccountId s \<noteq> ca_ledgerAccountId c"
  using assms unfolding customer_inv_def by (metis distinct_map inj_onD)

lemma req_sum_two:
  "req_sum d x [\<lparr>pr_ledgerAccountId = a, pr_direction = DEBIT, pr_amountMinor = m\<rparr>,
               \<lparr>pr_ledgerAccountId = b, pr_direction = CREDIT, pr_amountMinor = m\<rparr>] =
     (if d = DEBIT then (if x = a then int_of_dec m else 0) else (if x = b then int_of_dec m else 0))"
  by (cases d) (auto simp: req_sum_def)

text \<open>A journal that debits one account and credits another, seen as a change of balances.\<close>

definition net_credit :: "ledger_db \<Rightarrow> string \<Rightarrow> int" where
  "net_credit db a =
     sum_direction CREDIT (postings_of_account a db) - sum_direction DEBIT (postings_of_account a db)"

lemma wallet_balance_net: "wallet_balance db c = net_credit db (ca_ledgerAccountId c)"
  by (simp add: wallet_balance_def net_credit_def)

lemma post_two_net:
  assumes inv: "ledger_inv db1"
    and p: "post env request cid actor db0 db1 = Inr (r, db2)"
    and ps: "jr_postings request =
        [\<lparr>pr_ledgerAccountId = a, pr_direction = DEBIT, pr_amountMinor = m\<rparr>,
         \<lparr>pr_ledgerAccountId = b, pr_direction = CREDIT, pr_amountMinor = m\<rparr>]"
    and n: "find_record journalEntry_scope (sha256 env (jr_idempotencyKey request)) db0 = None"
      "find_record journalEntry_scope (sha256 env (jr_idempotencyKey request)) db1 = None"
    and ab: "a \<noteq> b"
  shows "net_credit db2 x = net_credit db1 x
     + (if x = a then - int_of_dec m else if x = b then int_of_dec m else 0)
     \<and> customerAccounts db2 = customerAccounts db1"
proof -
  have "book_inv db1" using inv by (simp add: ledger_inv_def)
  from post_fresh_sums [OF this p n] show ?thesis
    using ab by (simp add: net_credit_def ps req_sum_two)
qed

lemma post_two_positive:
  assumes p: "post env request cid actor db0 db1 = Inr (j, db2)"
    and ps: "jr_postings request =
        [\<lparr>pr_ledgerAccountId = a, pr_direction = DEBIT, pr_amountMinor = m\<rparr>,
         \<lparr>pr_ledgerAccountId = b, pr_direction = CREDIT, pr_amountMinor = m\<rparr>]"
  shows "0 < int_of_dec m"
proof -
  from p obtain qs tot where norm: "normalisePostings (jr_postings request) = Inr qs"
    and bal: "assertBalanced qs = Inr tot"
    by (auto simp: post_def res_simps)
  from norm obtain v where v: "parseMinorUnits m = Inr v"
    and qs: "qs = [\<lparr>np_ledgerAccountId = a, np_direction = DEBIT, np_amountMinor = v\<rparr>,
                  \<lparr>np_ledgerAccountId = b, np_direction = CREDIT, np_amountMinor = v\<rparr>]"
    by (auto simp: ps normalisePostings_def Let_def res_simps)
  from v have "v = int_of_dec m" by (auto simp: parseMinorUnits_def split: if_splits)
  with bal qs show ?thesis by (auto simp: assertBalanced_iff)
qed

lemma positive_schema_of_re:
  assumes "signed_minor_units_re m" and "0 < int_of_dec m"
  shows "positiveMinorUnitsSchema m"
proof -
  from assms have "minorUnitsSchema m"
    by (cases m) (auto simp: signed_minor_units_re_def)
  moreover have "m \<noteq> ''0''" using assms(2) by (auto simp: int_of_dec_def)
  ultimately show ?thesis by (simp add: positiveMinorUnitsSchema_iff)
qed

lemma bigint_amount:
  assumes p: "post env request cid actor db0 db1 = Inr (j, db2)"
    and ps: "jr_postings request =
        [\<lparr>pr_ledgerAccountId = a, pr_direction = DEBIT, pr_amountMinor = m\<rparr>,
         \<lparr>pr_ledgerAccountId = b, pr_direction = CREDIT, pr_amountMinor = m\<rparr>]"
    and big: "js_BigInt m = Inr amount"
  shows "amount = int_of_dec m"
proof -
  from post_success_parse [OF p] obtain v where "parseMinorUnits m = Inr v" by (fastforce simp: ps)
  then have re: "signed_minor_units_re m" by (auto simp: parseMinorUnits_def split: if_splits)
  have pos: "positiveMinorUnitsSchema m"
    by (rule positive_schema_of_re [OF re post_two_positive [OF p ps]])
  from js_BigInt_positive [OF pos] big parse_positive [OF pos] show ?thesis
    by (auto simp: parseMinorUnits_def split: if_splits)
qed

lemma liability_money_spec:
  assumes inv: "ledger_inv db" and c: "c \<in> set (customerAccounts db)"
  shows "liability_money db (ca_ledgerAccountId c) cur = Inr (toMoney cur (wallet_balance db c))"
proof -
  obtain p where "find_by bp_ledgerAccountId (ca_ledgerAccountId c) (balanceProjections db) = Some p"
    "bp_debitTotalMinor p = sum_direction DEBIT (postings_of_account (ca_ledgerAccountId c) db)"
    "bp_creditTotalMinor p = sum_direction CREDIT (postings_of_account (ca_ledgerAccountId c) db)"
    by (rule ledger_account_of [OF inv c])
  then show ?thesis
    by (simp add: liability_money_def toMoney_def wallet_balance_def signedBalanceMinor_def DEBIT_POSITIVE_CLASSES_def)
qed

lemma wallet_projection_balance_spec:
  assumes inv: "ledger_inv db" and c: "c \<in> set (customerAccounts db)"
  shows "wallet_projection_balance db c = Inr (wallet_balance db c)"
proof -
  obtain a p where "find_by la_id (ca_ledgerAccountId c) (ledgerAccounts db) = Some a"
    "find_by bp_ledgerAccountId (ca_ledgerAccountId c) (balanceProjections db) = Some p"
    "la_id a = ca_ledgerAccountId c" "la_accountClass a = LIABILITY"
    "bp_debitTotalMinor p = sum_direction DEBIT (postings_of_account (ca_ledgerAccountId c) db)"
    "bp_creditTotalMinor p = sum_direction CREDIT (postings_of_account (ca_ledgerAccountId c) db)"
    by (rule ledger_account_of [OF inv c])
  then show ?thesis
    by (simp add: wallet_projection_balance_def wallet_balance_def signedBalanceMinor_def DEBIT_POSITIVE_CLASSES_def)
qed

lemma transfer_posts:
  assumes "transfer env input cid dbr db0 db1 = Inr (res, db2)"
  obtains source recipient journal amount b where
    "resolve dbr input = Inr (source, recipient)"
    "js_BigInt (tp_amountMinor input) = Inr amount" "0 < amount"
    "wallet_projection_balance dbr source = Inr b" "amount \<le> b"
    "post env (transfer_journal input source recipient) cid service_payments db0 db1 = Inr (journal, db2)"
    "transfer_answer input source recipient journal db2 = Inr res"
  using assms by (auto simp: transfer_def res_simps not_le not_less split: if_splits intro: that)

lemma transfer_answer_fields:
  assumes "transfer_answer input source recipient journal db = Inr res"
  shows "tr_journalId res = jres_id journal
    \<and> liability_money db (ca_ledgerAccountId source) (ca_currency source) = Inr (tr_senderBalanceAfter res)
    \<and> liability_money db (ca_ledgerAccountId recipient) (ca_currency recipient) = Inr (tr_recipientBalanceAfter res)"
  using assms by (auto simp: transfer_answer_def res_simps)

lemma transfer_inv:
  assumes "ledger_inv db1" and "idem_inv db1" and "transfer env input cid dbr db0 db1 = Inr (res, db2)"
  shows "ledger_inv db2 \<and> idem_inv db2"
  by (rule transfer_posts [OF assms(3)]) (erule post_ledger_inv [OF assms(1,2)])

lemma channel_inv:
  assumes "ledger_inv db1" and "idem_inv db1"
  shows "qrPayment env qi cid dbr db0 db1 = Inr (j, db2) \<Longrightarrow> ledger_inv db2 \<and> idem_inv db2"
    and "agentCashIn env ai cid dbr db0 db1 = Inr (j, db2) \<Longrightarrow> ledger_inv db2 \<and> idem_inv db2"
    and "agentCashOut env ai cid dbr db0 db1 = Inr (j, db2) \<Longrightarrow> ledger_inv db2 \<and> idem_inv db2"
  by (auto simp: qrPayment_def agentCashIn_def agentCashOut_def res_simps split: if_splits
      dest!: post_ledger_inv [OF assms])

lemma transfer_journal_fields [simp]:
  "jr_idempotencyKey (transfer_journal input s r) = tc_idempotencyKey input"
  "jr_postings (transfer_journal input s r) =
     [\<lparr>pr_ledgerAccountId = ca_ledgerAccountId s, pr_direction = DEBIT, pr_amountMinor = tp_amountMinor input\<rparr>,
      \<lparr>pr_ledgerAccountId = ca_ledgerAccountId r, pr_direction = CREDIT, pr_amountMinor = tp_amountMinor input\<rparr>]"
  "je_reference (journal_entry_of env (transfer_journal input s r) cid actor) = tc_transferReference input"
  by (simp_all add: transfer_journal_def journal_entry_of_def)

lemma transfer_effect:
  assumes inv: "ledger_inv db1" "idem_inv db1"
    and ok: "transfer env input cid dbr db0 db1 = Inr (res, db2)"
    and fresh: "find_record journalEntry_scope (sha256 env (tc_idempotencyKey input)) db0 = None"
      "find_record journalEntry_scope (sha256 env (tc_idempotencyKey input)) db1 = None"
    and rows: "resolve dbr input = Inr (s, r)" "s \<in> set (customerAccounts db1)" "r \<in> set (customerAccounts db1)"
  shows "ledger_inv db2 \<and> idem_inv db2 \<and> customerAccounts db2 = customerAccounts db1
    \<and> 0 < int_of_dec (tp_amountMinor input)
    \<and> wallet_balance db2 s = wallet_balance db1 s - int_of_dec (tp_amountMinor input)
    \<and> wallet_balance db2 r = wallet_balance db1 r + int_of_dec (tp_amountMinor input)
    \<and> (\<forall>c \<in> set (customerAccounts db1). c \<noteq> s \<and> c \<noteq> r \<longrightarrow> wallet_balance db2 c = wallet_balance db1 c)
    \<and> 0 \<le> wallet_balance db2 s
    \<and> tr_senderBalanceAfter res = toMoney (tp_currency input) (wallet_balance db2 s)
    \<and> tr_recipientBalanceAfter res = toMoney (tp_currency input) (wallet_balance db2 r)"
proof -
  obtain journal where
    p: "post env (transfer_journal input s r) cid service_payments db0 db1 = Inr (journal, db2)" and
    ans: "transfer_answer input s r journal db2 = Inr res"
    by (rule transfer_posts [OF ok]) (use rows(1) in auto)
  from resolve_spec [OF rows(1)] have sr: "ca_id s \<noteq> ca_id r"
    and cur: "ca_currency s = tp_currency input" "ca_currency r = tp_currency input" by auto
  have ci: "customer_inv db1" using inv(1) by (simp add: ledger_inv_def)
  have ne: "ca_ledgerAccountId s \<noteq> ca_ledgerAccountId r"
    using distinct_wallets [OF ci rows(2,3)] sr by auto
  note net = post_two_net [OF inv(1) p transfer_journal_fields(2) _ _ ne]
  have eff: "net_credit db2 x = net_credit db1 x
      + (if x = ca_ledgerAccountId s then - int_of_dec (tp_amountMinor input)
         else if x = ca_ledgerAccountId r then int_of_dec (tp_amountMinor input) else 0)"
    and cust: "customerAccounts db2 = customerAccounts db1" for x
    using net [of x] fresh by simp_all
  have inv2: "ledger_inv db2" "idem_inv db2" using transfer_inv [OF inv ok] by simp_all
  have in2: "s \<in> set (customerAccounts db2)" "r \<in> set (customerAccounts db2)" using rows cust by simp_all
  have pos: "0 < int_of_dec (tp_amountMinor input)"
    by (rule post_two_positive [OF p transfer_journal_fields(2)])
  have others: "wallet_balance db2 c = wallet_balance db1 c"
    if "c \<in> set (customerAccounts db1)" "c \<noteq> s" "c \<noteq> r" for c
    using distinct_wallets [OF ci that(1) rows(2)] distinct_wallets [OF ci that(1) rows(3)] that(2,3) eff
    by (simp add: wallet_balance_net)
  from transfer_answer_fields [OF ans] liability_money_spec [OF inv2(1) in2(1)]
    liability_money_spec [OF inv2(1) in2(2)] cur
  have "tr_senderBalanceAfter res = toMoney (tp_currency input) (wallet_balance db2 s)"
    "tr_recipientBalanceAfter res = toMoney (tp_currency input) (wallet_balance db2 r)" by simp_all
  moreover have "wallet_balance db2 s = wallet_balance db1 s - int_of_dec (tp_amountMinor input)"
    "wallet_balance db2 r = wallet_balance db1 r + int_of_dec (tp_amountMinor input)"
    using ne by (simp_all add: wallet_balance_net eff)
  ultimately show ?thesis
    using inv2 cust pos others wallet_balance_nonneg [OF inv2(1) in2(1)] by blast
qed

lemma transfer_retry_answers:
  assumes inv: "ledger_inv db1"
    and ok: "transfer env input cid dbr db0 db1 = Inr (res, db2)"
    and fresh: "find_record journalEntry_scope (sha256 env (tc_idempotencyKey input)) db0 = None"
      "find_record journalEntry_scope (sha256 env (tc_idempotencyKey input)) db1 = None"
    and rows: "resolve dbr input = Inr (s, r)" "resolve db4 input = Inr (s, r)"
    and uuid: "\<forall>n. isUuid env (randomUUID env n)"
    and accts: "isUuid env (ca_ledgerAccountId s)" "isUuid env (ca_ledgerAccountId r)"
    and ref: "journalReferenceSchema (tc_transferReference input)"
    and hash: "\<And>x. sha256 env x \<noteq> []"
    and target: "isIdempotencyConflict (P2002 (uniqueTarget env ''idempotency_records_scope_key_hash_key''))"
    and later: "later_env env env'" "ledger_inv db4"
    and kept: "find_record journalEntry_scope (sha256 env (tc_idempotencyKey input)) db4
               = find_record journalEntry_scope (sha256 env (tc_idempotencyKey input)) db2"
    and funds: "int_of_dec (tp_amountMinor input) \<le> wallet_balance db4 s"
  shows "\<exists>res'. transfer env' input cid' db4 db4 db4 = Inr (res', db4)
     \<and> tr_journalId res' = tr_journalId res \<and> tr_senderPostingId res' = tr_senderPostingId res
     \<and> tr_recipientPostingId res' = tr_recipientPostingId res"
proof -
  obtain journal amount where
    a: "js_BigInt (tp_amountMinor input) = Inr amount" "0 < amount" and
    p: "post env (transfer_journal input s r) cid service_payments db0 db1 = Inr (journal, db2)" and
    ans: "transfer_answer input s r journal db2 = Inr res"
    by (rule transfer_posts [OF ok]) (use rows(1) in auto)
  have "book_inv db1" using inv by (simp add: ledger_inv_def)
  from post_replays [OF this p _ _ uuid _ _ hash target later(1), of db4 db4 cid' service_payments]
  have again: "post env' (transfer_journal input s r) cid' service_payments db4 db4 = Inr (journal, db4)"
    using fresh accts ref kept by simp
  from resolve_spec [OF rows(2)] have mem: "s \<in> set (customerAccounts db4)" "r \<in> set (customerAccounts db4)" by auto
  have amt: "amount = int_of_dec (tp_amountMinor input)"
    by (rule bigint_amount [OF p transfer_journal_fields(2) a(1)])
  from ans obtain sp rp where
    sp: "List.find (\<lambda>p. po_ledgerAccountId p = ca_ledgerAccountId s) (jres_postings journal) = Some sp" and
    rp: "List.find (\<lambda>p. po_ledgerAccountId p = ca_ledgerAccountId r) (jres_postings journal) = Some rp" and
    ids: "tr_journalId res = jres_id journal" "tr_senderPostingId res = po_id sp" "tr_recipientPostingId res = po_id rp"
    by (auto simp: transfer_answer_def res_simps)
  have "transfer env' input cid' db4 db4 db4 =
      andThen (transfer_answer input s r journal db4) (\<lambda>answer. Inr (answer, db4))"
    using a funds amt
    by (simp add: transfer_def rows(2) again wallet_projection_balance_spec [OF later(2) mem(1)])
  then show ?thesis
    by (simp add: transfer_answer_def sp rp liability_money_spec [OF later(2) mem(1)]
        liability_money_spec [OF later(2) mem(2)] ids)
qed

lemma transfer_retry_low:
  assumes inv: "ledger_inv db" "idem_inv db"
    and ok: "transfer env input cid db db0 db = Inr (res, db2)"
    and fresh: "find_record journalEntry_scope (sha256 env (tc_idempotencyKey input)) db0 = None"
      "find_record journalEntry_scope (sha256 env (tc_idempotencyKey input)) db = None"
    and rows: "resolve db input = Inr (s, r)"
    and low: "wallet_balance db s < 2 * int_of_dec (tp_amountMinor input)"
  shows "transfer env' input cid' db2 db3 db4 = Inl insufficientFundsError"
proof -
  obtain journal amount where a: "js_BigInt (tp_amountMinor input) = Inr amount" "0 < amount" and
    p: "post env (transfer_journal input s r) cid service_payments db0 db = Inr (journal, db2)"
    by (rule transfer_posts [OF ok]) (use rows in auto)
  from resolve_spec [OF rows] have mem: "s \<in> set (customerAccounts db)" "r \<in> set (customerAccounts db)"
    and sr: "s \<noteq> r" by auto
  have ci: "customer_inv db" using inv(1) by (simp add: ledger_inv_def)
  have ne: "ca_ledgerAccountId s \<noteq> ca_ledgerAccountId r" by (rule distinct_wallets [OF ci mem sr])
  from post_two_net [OF inv(1) p transfer_journal_fields(2) _ _ ne, of "ca_ledgerAccountId s"] fresh
  have cust: "customerAccounts db2 = customerAccounts db"
    and net: "wallet_balance db2 s = wallet_balance db s - int_of_dec (tp_amountMinor input)"
    by (simp_all add: wallet_balance_net)
  have inv2: "ledger_inv db2" using transfer_inv [OF inv ok] ..
  have amt: "amount = int_of_dec (tp_amountMinor input)"
    by (rule bigint_amount [OF p transfer_journal_fields(2) a(1)])
  have "resolve db2 input = Inr (s, r)" using rows unfolding resolve_def cust .
  moreover have "wallet_projection_balance db2 s = Inr (wallet_balance db2 s)"
    by (rule wallet_projection_balance_spec [OF inv2]) (simp add: cust mem)
  ultimately show ?thesis using a amt net low by (simp add: transfer_def)
qed

section \<open>A concrete transfer\<close>

definition demo_command :: transfer_command where
  "demo_command =
     \<lparr>tp_senderCustomerId = ''alice'', tp_sourceAccountId = ''acc-alice'',
      tp_recipientReference = ''AEGIS-AAAA-AAAA-BBB2'', tp_amountMinor = ''600'', tp_currency = ''LKR'',
      tc_transferId = ''t1'', tc_transferReference = ''AEGIS-TRF-AAAA-BBBB-CCCC'',
      tc_idempotencyKey = ''transfer-key-0001''\<rparr>"

lemma demo_transfer_ok: "\<exists>res db. transfer demo_env demo_command ''c'' demo_bank demo_bank demo_bank = Inr (res, db)"
proof -
  have "\<not> isl (transfer demo_env demo_command ''c'' demo_bank demo_bank demo_bank)" by code_simp
  then show ?thesis by (metis isl_def sum.exhaust prod.exhaust)
qed

lemma demo_transfer_fresh:
  "find_record journalEntry_scope (sha256 demo_env (tc_idempotencyKey demo_command)) demo_bank = None"
  by code_simp

lemma demo_resolve:
  "resolve demo_bank demo_command
     = Inr (demo_customer ''alice'' ''AAA2'' ''A'', demo_customer ''bob'' ''BBB2'' ''B'')"
  by code_simp

section \<open>Properties\<close>

text \<open>C5: a customer transfer moves money from the sender to the recipient and nowhere else.  With a new
  key, a transfer that succeeds takes the positive amount from the sender's wallet, which had it, adds it
  to the recipient's, leaves every other wallet as it was, keeps the ledger invariant and reports both
  balances as the postings now give them.  The accounts may have been read at any earlier moment, as long
  as the two rows are still those of the ledger the transaction runs on.\<close>

theorem transfer_moves_money:
  assumes inv: "ledger_inv db1" "idem_inv db1"
    and ok: "transfer env input cid dbr db0 db1 = Inr (res, db2)"
    and fresh: "find_record journalEntry_scope (sha256 env (tc_idempotencyKey input)) db0 = None"
      "find_record journalEntry_scope (sha256 env (tc_idempotencyKey input)) db1 = None"
    and rows: "resolve dbr input = Inr (s, r)" "s \<in> set (customerAccounts db1)" "r \<in> set (customerAccounts db1)"
  shows "ledger_inv db2 \<and> idem_inv db2 \<and> customerAccounts db2 = customerAccounts db1
    \<and> 0 < int_of_dec (tp_amountMinor input)
    \<and> wallet_balance db2 s = wallet_balance db1 s - int_of_dec (tp_amountMinor input)
    \<and> wallet_balance db2 r = wallet_balance db1 r + int_of_dec (tp_amountMinor input)
    \<and> (\<forall>c \<in> set (customerAccounts db1). c \<noteq> s \<and> c \<noteq> r \<longrightarrow> wallet_balance db2 c = wallet_balance db1 c)
    \<and> 0 \<le> wallet_balance db2 s
    \<and> tr_senderBalanceAfter res = toMoney (tp_currency input) (wallet_balance db2 s)
    \<and> tr_recipientBalanceAfter res = toMoney (tp_currency input) (wallet_balance db2 r)"
  by (rule transfer_effect [OF assms])

theorem transfer_moves_money_witness:
  "\<exists>res db2. transfer demo_env demo_command ''c'' demo_bank demo_bank demo_bank = Inr (res, db2)
     \<and> ledger_inv db2
     \<and> wallet_balance db2 (demo_customer ''alice'' ''AAA2'' ''A'') = 400
     \<and> wallet_balance db2 (demo_customer ''bob'' ''BBB2'' ''B'') = 600"
proof -
  from demo_transfer_ok obtain res db2 where
    ok: "transfer demo_env demo_command ''c'' demo_bank demo_bank demo_bank = Inr (res, db2)" by blast
  have mem: "demo_customer ''alice'' ''AAA2'' ''A'' \<in> set (customerAccounts demo_bank)"
    "demo_customer ''bob'' ''BBB2'' ''B'' \<in> set (customerAccounts demo_bank)" by (simp_all add: demo_bank_def)
  have "wallet_balance demo_bank (demo_customer ''alice'' ''AAA2'' ''A'') = 1000"
    "wallet_balance demo_bank (demo_customer ''bob'' ''BBB2'' ''B'') = 0"
    "int_of_dec (tp_amountMinor demo_command) = 600" by code_simp+
  with transfer_moves_money [OF demo_bank_inv ok demo_transfer_fresh demo_transfer_fresh demo_resolve mem] ok
  show ?thesis by auto
qed

text \<open>retrying a settled transfer answers with the same journal.  When the reservation survives, the
  two accounts still resolve and the sender's balance still covers the amount, the retry writes nothing and
  returns the journal and posting identifiers of the first execution.\<close>

theorem transfer_retry_same_journal:
  assumes inv: "ledger_inv db1"
    and ok: "transfer env input cid dbr db0 db1 = Inr (res, db2)"
    and fresh: "find_record journalEntry_scope (sha256 env (tc_idempotencyKey input)) db0 = None"
      "find_record journalEntry_scope (sha256 env (tc_idempotencyKey input)) db1 = None"
    and rows: "resolve dbr input = Inr (s, r)" "resolve db4 input = Inr (s, r)"
    and uuid: "\<forall>n. isUuid env (randomUUID env n)"
    and accts: "isUuid env (ca_ledgerAccountId s)" "isUuid env (ca_ledgerAccountId r)"
    and ref: "journalReferenceSchema (tc_transferReference input)"
    and hash: "\<And>x. sha256 env x \<noteq> []"
    and target: "isIdempotencyConflict (P2002 (uniqueTarget env ''idempotency_records_scope_key_hash_key''))"
    and later: "later_env env env'" "ledger_inv db4"
    and kept: "find_record journalEntry_scope (sha256 env (tc_idempotencyKey input)) db4
               = find_record journalEntry_scope (sha256 env (tc_idempotencyKey input)) db2"
    and funds: "int_of_dec (tp_amountMinor input) \<le> wallet_balance db4 s"
  shows "\<exists>res'. transfer env' input cid' db4 db4 db4 = Inr (res', db4)
     \<and> tr_journalId res' = tr_journalId res \<and> tr_senderPostingId res' = tr_senderPostingId res
     \<and> tr_recipientPostingId res' = tr_recipientPostingId res"
  by (rule transfer_retry_answers [OF assms])

text \<open>retrying a settled transfer is refused once the sender's balance no longer covers it a second
  time.  The balance is compared with the amount before the idempotency lookup, so a transfer that was
  executed and whose amount exceeds what is left in the wallet answers \<open>INSUFFICIENT_FUNDS\<close> with status 409
  on every retry, although its journal exists.\<close>

theorem transfer_retry_refused:
  assumes inv: "ledger_inv db" "idem_inv db"
    and ok: "transfer env input cid db db0 db = Inr (res, db2)"
    and fresh: "find_record journalEntry_scope (sha256 env (tc_idempotencyKey input)) db0 = None"
      "find_record journalEntry_scope (sha256 env (tc_idempotencyKey input)) db = None"
    and rows: "resolve db input = Inr (s, r)"
    and low: "wallet_balance db s < 2 * int_of_dec (tp_amountMinor input)"
  shows "transfer env' input cid' db2 db3 db4 = Inl insufficientFundsError"
  by (rule transfer_retry_low [OF assms])

end
