(* ===== verification/LedgerReconciliation.thy ===== *)
theory LedgerReconciliation
  imports LedgerTransfers
begin

text \<open>
  Reconciliation (\<open>services/ledger/src/reconciliation/reconciliation.service.ts\<close>): nine read-only checks
  over the tables, each an SQL query written here as a list computation, and the record of the run.
  The second half closes the ledger under all its operations and shows that reconciliation passes on
  every ledger the service can reach from the migration's initial chart of accounts.
\<close>

section \<open>Collecting issues\<close>

definition MAX_RECONCILIATION_ISSUES :: nat where
  "MAX_RECONCILIATION_ISSUES = 50"

text \<open>The closure \<open>add\<close>: rows are appended until the cap is reached; an absent or empty identifier is
  left out.\<close>

fun add_issues ::
  "reconciliation_issue list \<Rightarrow> string \<Rightarrow> issueSeverity \<Rightarrow> string option list \<Rightarrow> reconciliation_issue list" where
  "add_issues issues code severity [] = issues"
| "add_issues issues code severity (row # rows) =
     (if length issues \<ge> MAX_RECONCILIATION_ISSUES then issues
      else add_issues
        (issues @ [\<lparr>ri_code = code, ri_severity = severity,
                    ri_safeIdentifier = (case row of
                       Some s \<Rightarrow> if s = [] then None else Some (take 64 s) | None \<Rightarrow> None)\<rparr>])
        code severity rows)"

section \<open>The queries\<close>

definition limit_rows :: "string list \<Rightarrow> string option list" where
  "limit_rows xs = map Some (take MAX_RECONCILIATION_ISSUES xs)"

definition q_unbalanced :: "ledger_db \<Rightarrow> string option list" where
  "q_unbalanced db = limit_rows (map je_reference
     (filter (\<lambda>e. let ps = postings_of_entry (je_id e) db
                  in length ps < 2 \<or> sum_direction DEBIT ps \<noteq> sum_direction CREDIT ps) (journalEntries db)))"

definition q_currency :: "ledger_db \<Rightarrow> string option list" where
  "q_currency db = limit_rows (concat (map (\<lambda>p.
     concat (map (\<lambda>e.
       concat (map (\<lambda>a.
         if je_id e = jp_journalEntryId p \<and> la_id a = jp_ledgerAccountId p
            \<and> (jp_currency p \<noteq> je_currency e \<or> jp_currency p \<noteq> la_currency a)
         then [je_reference e] else []) (ledgerAccounts db))) (journalEntries db))) (journalPostings db)))"

definition q_non_positive :: "ledger_db \<Rightarrow> string option list" where
  "q_non_positive db = limit_rows (concat (map (\<lambda>p.
     concat (map (\<lambda>e. if je_id e = jp_journalEntryId p \<and> jp_amountMinor p \<le> 0 then [je_reference e] else [])
       (journalEntries db))) (journalPostings db)))"

definition q_drift :: "ledger_db \<Rightarrow> string option list" where
  "q_drift db = limit_rows (concat (map (\<lambda>a.
     concat (map (\<lambda>p.
       if bp_ledgerAccountId p = la_id a
          \<and> (bp_debitTotalMinor p \<noteq> sum_direction DEBIT (postings_of_account (la_id a) db)
             \<or> bp_creditTotalMinor p \<noteq> sum_direction CREDIT (postings_of_account (la_id a) db))
       then [la_code a] else []) (balanceProjections db))) (ledgerAccounts db)))"

definition q_missing_projection :: "ledger_db \<Rightarrow> string option list" where
  "q_missing_projection db = limit_rows (map la_code
     (filter (\<lambda>a. find_by bp_ledgerAccountId (la_id a) (balanceProjections db) = None) (ledgerAccounts db)))"

definition q_customer_mismatch :: "ledger_db \<Rightarrow> string option list" where
  "q_customer_mismatch db = limit_rows (map ca_maskedReference
     (filter (\<lambda>c. case find_by la_id (ca_ledgerAccountId c) (ledgerAccounts db) of
                    None \<Rightarrow> True
                  | Some a \<Rightarrow> la_accountClass a \<noteq> LIABILITY \<or> la_currency a \<noteq> ca_currency c)
       (customerAccounts db)))"

text \<open>One row per group of accounts with the same owner, product and currency and more than one member,
  naming the least masked reference of the group.\<close>

definition q_duplicate_default :: "ledger_db \<Rightarrow> string option list" where
  "q_duplicate_default db = limit_rows (map (\<lambda>k.
       hd (sort (map ca_maskedReference (filter (\<lambda>c. account_identity c = k) (customerAccounts db)))))
     (filter (\<lambda>k. length (filter (\<lambda>c. account_identity c = k) (customerAccounts db)) > 1)
       (remdups (map account_identity (customerAccounts db)))))"

definition q_negative_customer :: "ledger_db \<Rightarrow> string option list" where
  "q_negative_customer db = limit_rows (concat (map (\<lambda>c.
     concat (map (\<lambda>a.
       concat (map (\<lambda>p.
         if la_id a = ca_ledgerAccountId c \<and> bp_ledgerAccountId p = la_id a
            \<and> bp_creditTotalMinor p - bp_debitTotalMinor p < 0
         then [ca_maskedReference c] else []) (balanceProjections db))) (ledgerAccounts db))) (customerAccounts db)))"

definition system_account_total :: "ledger_db \<Rightarrow> nat" where
  "system_account_total db =
     length (remdups (List.map_filter la_systemAccountType (ledgerAccounts db)))"

section \<open>A run\<close>

definition reconciliation_issues :: "ledger_db \<Rightarrow> reconciliation_issue list" where
  "reconciliation_issues db =
     (let i1 = add_issues [] ''UNBALANCED_JOURNAL'' ERROR (q_unbalanced db);
          i2 = add_issues i1 ''POSTING_CURRENCY_MISMATCH'' ERROR (q_currency db);
          i3 = add_issues i2 ''NON_POSITIVE_POSTING_AMOUNT'' ERROR (q_non_positive db);
          i4 = add_issues i3 ''BALANCE_PROJECTION_DRIFT'' ERROR (q_drift db);
          i5 = add_issues i4 ''MISSING_BALANCE_PROJECTION'' ERROR (q_missing_projection db);
          i6 = add_issues i5 ''CUSTOMER_ACCOUNT_LEDGER_MISMATCH'' ERROR (q_customer_mismatch db);
          i7 = add_issues i6 ''DUPLICATE_DEFAULT_ACCOUNT'' ERROR (q_duplicate_default db);
          i8 = add_issues i7 ''NEGATIVE_CUSTOMER_BALANCE'' ERROR (q_negative_customer db)
      in if system_account_total db < 2 then add_issues i8 ''MISSING_SYSTEM_ACCOUNT'' ERROR [None] else i8)"

text \<open>The run is stored and returned; the last component is the anomaly reported to the risk service.\<close>

definition reconciliation_run_of :: "ledger_env \<Rightarrow> ledger_db \<Rightarrow> reconciliation_run \<times> ledger_db \<times> string option" where
  "reconciliation_run_of env db =
     (let issues = reconciliation_issues db;
          status = (if list_ex (\<lambda>i. ri_severity i = ERROR) issues then FAIL else PASS);
          stored = \<lparr>rr_id = randomUUID env 0, rr_status = status, rr_startedAt = nowMs env,
                    rr_completedAt = nowMs env,
                    rr_checkedJournalEntries = length (journalEntries db),
                    rr_checkedPostings = length (journalPostings db),
                    rr_checkedLedgerAccounts = length (ledgerAccounts db),
                    rr_checkedCustomerAccounts = length (customerAccounts db),
                    rr_issueCount = length issues, rr_issues = issues, rr_createdAt = dbNow env\<rparr>
      in (stored, db\<lparr>reconciliationRuns := reconciliationRuns db @ [stored]\<rparr>,
          (if status = FAIL
           then Some (case issues of i # _ \<Rightarrow> ri_code i | [] \<Rightarrow> ''RECONCILIATION_ANOMALY'') else None)))"

definition latest_run :: "ledger_db \<Rightarrow> reconciliation_run option" where
  "latest_run db =
     (case sort_key (\<lambda>r. - rr_createdAt r) (reconciliationRuns db) of [] \<Rightarrow> None | r # _ \<Rightarrow> Some r)"

section \<open>Facts about the collection\<close>

lemma add_issues_bounded:
  "length issues \<le> MAX_RECONCILIATION_ISSUES
     \<Longrightarrow> length (add_issues issues code sev rows) \<le> MAX_RECONCILIATION_ISSUES"
  by (induction rows arbitrary: issues) auto

lemma add_issues_empty_iff: "(add_issues issues code sev rows = []) = (issues = [] \<and> rows = [])"
proof (induction rows arbitrary: issues)
  case (Cons row rows)
  then show ?case by (cases "issues = []") (simp_all add: MAX_RECONCILIATION_ISSUES_def)
qed simp

lemma add_issues_errors:
  "list_all (\<lambda>i. ri_severity i = ERROR) issues
     \<Longrightarrow> list_all (\<lambda>i. ri_severity i = ERROR) (add_issues issues code ERROR rows)"
  by (induction rows arbitrary: issues) auto

lemma limit_rows_empty [simp]: "(limit_rows xs = []) = (xs = [])"
  by (auto simp: limit_rows_def MAX_RECONCILIATION_ISSUES_def)

lemma reconciliation_issues_bounded: "length (reconciliation_issues db) \<le> MAX_RECONCILIATION_ISSUES"
  unfolding reconciliation_issues_def Let_def by (simp add: add_issues_bounded)

lemma reconciliation_issues_errors: "list_all (\<lambda>i. ri_severity i = ERROR) (reconciliation_issues db)"
  unfolding reconciliation_issues_def Let_def by (simp add: add_issues_errors)

definition queries_clean :: "ledger_db \<Rightarrow> bool" where
  "queries_clean db =
     (q_unbalanced db = [] \<and> q_currency db = [] \<and> q_non_positive db = [] \<and> q_drift db = []
      \<and> q_missing_projection db = [] \<and> q_customer_mismatch db = [] \<and> q_duplicate_default db = []
      \<and> q_negative_customer db = [] \<and> system_account_total db \<ge> 2)"

lemma reconciliation_issues_empty_iff: "(reconciliation_issues db = []) = queries_clean db"
  unfolding reconciliation_issues_def Let_def queries_clean_def
  by (auto simp: add_issues_empty_iff MAX_RECONCILIATION_ISSUES_def)

lemma status_pass_iff: "(rr_status (fst (reconciliation_run_of env db)) = PASS) = queries_clean db"
proof -
  have "list_ex (\<lambda>i. ri_severity i = ERROR) (reconciliation_issues db) = (reconciliation_issues db \<noteq> [])"
    using reconciliation_issues_errors [of db]
    by (cases "reconciliation_issues db") (auto simp: list_ex_iff list_all_iff)
  then show ?thesis
    by (simp add: reconciliation_run_of_def Let_def reconciliation_issues_empty_iff)
qed

text \<open>What the queries mean, row by row.\<close>

lemma concat_map_empty: "(concat (map f xs) = []) = (\<forall>x \<in> set xs. f x = [])"
  by auto

lemma row_if_empty: "((if b then [x] else []) = []) = (\<not> b)"
  by simp

lemma clean_unbalanced:
  "(q_unbalanced db = []) = (\<forall>e \<in> set (journalEntries db).
     length (postings_of_entry (je_id e) db) \<ge> 2
     \<and> sum_direction DEBIT (postings_of_entry (je_id e) db) = sum_direction CREDIT (postings_of_entry (je_id e) db))"
  by (auto simp: q_unbalanced_def filter_empty_conv Let_def)

lemma clean_drift:
  "(q_drift db = []) = (\<forall>a \<in> set (ledgerAccounts db). \<forall>p \<in> set (balanceProjections db).
     bp_ledgerAccountId p = la_id a \<longrightarrow>
       bp_debitTotalMinor p = sum_direction DEBIT (postings_of_account (la_id a) db)
       \<and> bp_creditTotalMinor p = sum_direction CREDIT (postings_of_account (la_id a) db))"
  unfolding q_drift_def limit_rows_empty concat_map_empty row_if_empty by (meson not_le)

lemma clean_currency:
  "(q_currency db = []) = (\<forall>p \<in> set (journalPostings db). \<forall>e \<in> set (journalEntries db). \<forall>a \<in> set (ledgerAccounts db).
     je_id e = jp_journalEntryId p \<and> la_id a = jp_ledgerAccountId p \<longrightarrow>
       jp_currency p = je_currency e \<and> jp_currency p = la_currency a)"
  unfolding q_currency_def limit_rows_empty concat_map_empty row_if_empty by (meson not_le)

lemma clean_non_positive:
  "(q_non_positive db = []) = (\<forall>p \<in> set (journalPostings db). \<forall>e \<in> set (journalEntries db).
     je_id e = jp_journalEntryId p \<longrightarrow> 0 < jp_amountMinor p)"
  unfolding q_non_positive_def limit_rows_empty concat_map_empty row_if_empty by (meson not_le)

lemma clean_missing_projection:
  "(q_missing_projection db = []) = (\<forall>a \<in> set (ledgerAccounts db). la_id a \<in> bp_ledgerAccountId ` set (balanceProjections db))"
  by (auto simp: q_missing_projection_def filter_empty_conv find_by_None)

lemma clean_duplicate:
  "(q_duplicate_default db = []) = (\<forall>c \<in> set (customerAccounts db).
     length (filter (\<lambda>d. account_identity d = account_identity c) (customerAccounts db)) \<le> 1)"
  by (auto simp: q_duplicate_default_def filter_empty_conv not_less)

lemma clean_negative:
  "(q_negative_customer db = []) = (\<forall>c \<in> set (customerAccounts db). \<forall>a \<in> set (ledgerAccounts db).
     \<forall>p \<in> set (balanceProjections db).
       la_id a = ca_ledgerAccountId c \<and> bp_ledgerAccountId p = la_id a \<longrightarrow>
         bp_debitTotalMinor p \<le> bp_creditTotalMinor p)"
  unfolding q_negative_customer_def limit_rows_empty concat_map_empty row_if_empty by (meson not_le not_less diff_less_0_iff_less)

lemma ledger_inv_clean:
  assumes inv: "ledger_inv db" and sys: "system_account_total db \<ge> 2"
  shows "queries_clean db"
proof -
  from inv have bi: "book_inv db" and ci: "customer_inv db" by (simp_all add: ledger_inv_def)
  have d: "distinct (map la_id (ledgerAccounts db))" using bi by (simp add: book_inv_def)
  have ids: "map bp_ledgerAccountId (balanceProjections db) = map la_id (ledgerAccounts db)"
    and agree: "\<And>p. p \<in> set (balanceProjections db) \<Longrightarrow>
        bp_debitTotalMinor p = sum_direction DEBIT (postings_of_account (bp_ledgerAccountId p) db)
      \<and> bp_creditTotalMinor p = sum_direction CREDIT (postings_of_account (bp_ledgerAccountId p) db)"
    using bi by (simp_all add: book_inv_def projections_agree_def list_all_iff)
  have dp: "distinct (map bp_ledgerAccountId (balanceProjections db))" using d ids by simp
  have "q_unbalanced db = []"
    using bi by (simp add: clean_unbalanced book_inv_def list_all_iff entry_balanced_def)
  moreover have "q_currency db = []"
    unfolding clean_currency
  proof (intro ballI impI)
    fix p e a
    assume p: "p \<in> set (journalPostings db)" and e: "e \<in> set (journalEntries db)"
      and a: "a \<in> set (ledgerAccounts db)" and m: "je_id e = jp_journalEntryId p \<and> la_id a = jp_ledgerAccountId p"
    from book_inv_integrity [OF bi e] p a m find_by_distinct [OF _ e, of je_id] bi
    show "jp_currency p = je_currency e \<and> jp_currency p = la_currency a"
      by (auto simp: assert_journal_integrity_def Let_def list_all_iff postings_of_entry_def book_inv_def)
  qed
  moreover have "q_non_positive db = []"
    using bi by (simp add: clean_non_positive book_inv_def list_all_iff posting_wf_def)
  moreover have "q_drift db = []" using agree by (simp add: clean_drift)
  moreover have "q_missing_projection db = []"
    using ids unfolding clean_missing_projection by (metis image_eqI list.set_map)
  moreover have "q_customer_mismatch db = []"
  proof -
    have "(case find_by la_id (ca_ledgerAccountId c) (ledgerAccounts db) of None \<Rightarrow> True
        | Some a \<Rightarrow> la_accountClass a \<noteq> LIABILITY \<or> la_currency a \<noteq> ca_currency c) = False"
      if c: "c \<in> set (customerAccounts db)" for c
      by (rule ledger_account_of [OF inv c]) simp
    then show ?thesis by (simp add: q_customer_mismatch_def filter_empty_conv)
  qed
  moreover have "q_duplicate_default db = []"
    unfolding clean_duplicate
  proof
    fix c assume "c \<in> set (customerAccounts db)"
    moreover have "distinct (map account_identity (customerAccounts db))" using ci by (simp add: customer_inv_def)
    ultimately show "length (filter (\<lambda>d. account_identity d = account_identity c) (customerAccounts db)) \<le> 1"
      using filter_key_distinct find_by_distinct by fastforce
  qed
  moreover have "q_negative_customer db = []"
    unfolding clean_negative
  proof (intro ballI impI)
    fix c a p
    assume c: "c \<in> set (customerAccounts db)" and p: "p \<in> set (balanceProjections db)"
      and m: "la_id a = ca_ledgerAccountId c \<and> bp_ledgerAccountId p = la_id a"
    with agree [OF p] wallet_balance_nonneg [OF inv c] show "bp_debitTotalMinor p \<le> bp_creditTotalMinor p"
      by (simp add: wallet_balance_def)
  qed
  ultimately show ?thesis using sys by (simp add: queries_clean_def)
qed

section \<open>The ledgers the service can reach\<close>

text \<open>The migration inserts two system accounts, with empty projections, and nothing else.\<close>

definition system_account :: "string \<Rightarrow> string \<Rightarrow> ledgerAccountClass \<Rightarrow> systemAccountType \<Rightarrow> ledger_account" where
  "system_account i code c t =
     \<lparr>la_id = i, la_code = code, la_name = code, la_currency = ''LKR'', la_accountClass = c,
      la_normalBalance = (if c = ASSET then DEBIT else CREDIT), la_systemAccountType = Some t,
      la_allowNegativeBalance = True\<rparr>"

definition initial_ledger :: "string \<Rightarrow> string \<Rightarrow> ledger_db" where
  "initial_ledger i j =
     \<lparr>customerAccounts = [],
      ledgerAccounts =
        [system_account i ''SYS-PLATFORM-SETTLEMENT-LKR'' ASSET PLATFORM_SETTLEMENT_ASSET,
         system_account j ''SYS-CUSTOMER-FUNDS-CONTROL-LKR'' LIABILITY CUSTOMER_FUNDS_LIABILITY_CONTROL],
      balanceProjections = map (\<lambda>k. \<lparr>bp_ledgerAccountId = k, bp_debitTotalMinor = 0, bp_creditTotalMinor = 0,
                                  bp_version = 0, bp_updatedAt = 0\<rparr>) [i, j],
      journalEntries = [], journalPostings = [], idempotencyRecords = [], reconciliationRuns = []\<rparr>"

text \<open>One step per operation of the service that writes; the unlocked reads of a step may come from any
  earlier or later state.\<close>

inductive ledger_reachable :: "ledger_db \<Rightarrow> bool" where
  init: "i \<noteq> j \<Longrightarrow> ledger_reachable (initial_ledger i j)"
| posted: "ledger_reachable db \<Longrightarrow> post env request cid actor db0 db = Inr (r, db') \<Longrightarrow> ledger_reachable db'"
| provisioned: "ledger_reachable db \<Longrightarrow> provisionDefault env rnd input db0 db = Inr (pr, db') \<Longrightarrow> ledger_reachable db'"
| transferred: "ledger_reachable db \<Longrightarrow> transfer_endpoint env cmd cid dbr db0 db = Inr (tr, db') \<Longrightarrow> ledger_reachable db'"
| paid: "ledger_reachable db \<Longrightarrow> qrPayment env qi cid dbr db0 db = Inr (jid, db') \<Longrightarrow> ledger_reachable db'"
| cashed_in: "ledger_reachable db \<Longrightarrow> agentCashIn env ai cid dbr db0 db = Inr (jid, db') \<Longrightarrow> ledger_reachable db'"
| cashed_out: "ledger_reachable db \<Longrightarrow> agentCashOut env ai cid dbr db0 db = Inr (jid, db') \<Longrightarrow> ledger_reachable db'"
| reconciled: "ledger_reachable db \<Longrightarrow> reconciliation_run_of env db = (run, db', anomaly) \<Longrightarrow> ledger_reachable db'"

definition chart :: "ledger_db \<Rightarrow> systemAccountType list" where
  "chart db = List.map_filter la_systemAccountType (ledgerAccounts db)"

definition chart_inv :: "systemAccountType list \<Rightarrow> ledger_db \<Rightarrow> bool" where
  "chart_inv ts db = (ledger_inv db \<and> chart db = ts)"

lemma chart_inv_records [simp]: "chart_inv ts (db\<lparr>idempotencyRecords := rs\<rparr>) = chart_inv ts db"
  by (simp add: chart_inv_def chart_def)

lemma ledger_inv_runs [simp]: "ledger_inv (db\<lparr>reconciliationRuns := rs\<rparr>) = ledger_inv db"
  by (simp add: ledger_inv_def customer_inv_def backed_by_def book_inv_def projections_agree_def no_overdraft_def
      entry_balanced_def posting_wf_def account_balance_def postings_of_account_def postings_of_entry_def list_all_iff)

lemma createAccount_loop_chart:
  "createAccount_loop env rnd n cust pt cur db = Inr (row, db') \<Longrightarrow> chart db' = chart db"
proof (induction n)
  case (Suc n)
  have ins: "chart d2 = chart d1" if "insert_customer_account env c d1 = Inr d2" for c d1 d2
    using that by (auto simp: insert_customer_account_def chart_def split: if_splits)
  have insl: "chart d2 = chart d1"
    if "insert_ledger_account env a d1 = Inr d2" "la_systemAccountType a = None" for a d1 d2
    using that by (auto simp: insert_ledger_account_def chart_def List.map_filter_def split: if_splits)
  from Suc show ?case
    by (auto simp: Let_def create_with_reference_def res_simps split: if_splits dest!: ins insl)
qed simp

interpretation journal_chart:
  idempotent_work "journal_run env request cid actor ps tot" "\<lambda>db. assertBalanced ps = Inr tot \<longrightarrow> chart_inv ts db"
  for env request cid actor ps tot ts
proof unfold_locales
  fix db v db'
  assume inv: "assertBalanced ps = Inr tot \<longrightarrow> chart_inv ts db"
    and run: "journal_run env request cid actor ps tot db = Inr (v, db')"
  have "chart_inv ts db'" if bal: "assertBalanced ps = Inr tot"
  proof -
    from inv bal have l: "ledger_inv db" and c: "chart db = ts" by (auto simp: chart_inv_def)
    have "ledger_inv db'" using journal_ledger.run_inv [OF _ run] l bal by blast
    moreover have "ledgerAccounts db' = ledgerAccounts db"
      using journal_run_accounts [OF run] l by (simp add: ledger_inv_def)
    ultimately show ?thesis using c by (simp add: chart_inv_def chart_def)
  qed
  then show "assertBalanced ps = Inr tot \<longrightarrow> chart_inv ts db'" ..
next
  fix db v db'
  assume "journal_run env request cid actor ps tot db = Inr (v, db')"
  then show "idempotencyRecords db' = idempotencyRecords db" by (rule journal_run_records)
qed simp

interpretation provision_chart: idempotent_work "provision_run env rnd input" "chart_inv ts"
  for env rnd input ts
proof unfold_locales
  fix db v db'
  assume "chart_inv ts db" and "provision_run env rnd input db = Inr (v, db')"
  then show "chart_inv ts db'"
    using provision_run_inv [of db env rnd input v db']
    by (auto simp: chart_inv_def provision_run_def createAccount_def res_simps split: option.splits
        dest: createAccount_loop_chart)
next
  fix db v db'
  assume "provision_run env rnd input db = Inr (v, db')"
  then show "idempotencyRecords db' = idempotencyRecords db" by (rule provision_run_records)
qed simp

lemma post_chart:
  assumes "chart_inv ts db1" and "idem_inv db1"
    and "post env request cid actor db0 db1 = Inr (r, db2)"
  shows "chart_inv ts db2 \<and> idem_inv db2"
proof -
  from assms(3) obtain ps tot out where
    bal: "assertBalanced ps = Inr tot" and
    ex: "execute env (journal_options env request cid actor ps tot) db0 db1 = Inr (out, db2)"
    by (auto simp: post_def res_simps)
  have run: "eo_run (journal_options env request cid actor ps tot) = journal_run env request cid actor ps tot"
    by (simp add: journal_options_def)
  from journal_chart.execute_inv [OF run _ assms(2) ex] assms(1) bal show ?thesis by simp
qed

definition initial_chart :: "systemAccountType list" where
  "initial_chart = [PLATFORM_SETTLEMENT_ASSET, CUSTOMER_FUNDS_LIABILITY_CONTROL]"

lemma reachable_chart: "ledger_reachable db \<Longrightarrow> chart_inv initial_chart db \<and> idem_inv db"
proof (induction rule: ledger_reachable.induct)
  case (init i j)
  then show ?case
    by (simp add: initial_ledger_def chart_inv_def chart_def initial_chart_def system_account_def ledger_inv_def
        book_inv_def customer_inv_def projections_agree_def no_overdraft_def postings_of_account_def idem_inv_def
        List.map_filter_def)
next
  case (posted db env request cid actor db0 r db')
  then show ?case using post_chart by blast
next
  case (provisioned db env rnd input db0 pr db')
  then obtain out where ex: "execute env (provision_options env rnd input) db0 db = Inr (out, db')"
    by (auto simp: provisionDefault_def res_simps)
  have "eo_run (provision_options env rnd input) = provision_run env rnd input" by (simp add: provision_options_def)
  from provision_chart.execute_inv [OF this _ _ ex] provisioned show ?case by blast
next
  case (transferred db env cmd cid dbr db0 tr db')
  then have t: "transfer env cmd cid dbr db0 db = Inr (tr, db')"
    by (simp add: transfer_endpoint_def split: if_splits)
  obtain s r j where "post env (transfer_journal cmd s r) cid service_payments db0 db = Inr (j, db')"
    by (rule transfer_posts [OF t])
  from post_chart [OF _ _ this, of initial_chart] transferred.IH show ?case by simp
next
  case (paid db env qi cid dbr db0 jid db')
  from paid.hyps obtain request j where "post env request cid service_payments db0 db = Inr (j, db')"
    by (auto simp: qrPayment_def res_simps split: if_splits)
  from post_chart [OF _ _ this, of initial_chart] paid.IH show ?case by simp
next
  case (cashed_in db env ai cid dbr db0 jid db')
  from cashed_in.hyps obtain request j where "post env request cid service_payments db0 db = Inr (j, db')"
    by (auto simp: agentCashIn_def res_simps split: if_splits)
  from post_chart [OF _ _ this, of initial_chart] cashed_in.IH show ?case by simp
next
  case (cashed_out db env ai cid dbr db0 jid db')
  from cashed_out.hyps obtain request j where "post env request cid service_payments db0 db = Inr (j, db')"
    by (auto simp: agentCashOut_def res_simps split: if_splits)
  from post_chart [OF _ _ this, of initial_chart] cashed_out.IH show ?case by simp
next
  case (reconciled db env run db' anomaly)
  then have "db' = db\<lparr>reconciliationRuns := reconciliationRuns db @ [run]\<rparr>"
    by (auto simp: reconciliation_run_of_def Let_def)
  with reconciled show ?case by (simp add: chart_inv_def chart_def idem_inv_def)
qed

lemma reachable_inv:
  assumes "ledger_reachable db"
  shows "ledger_inv db" "idem_inv db" "system_account_total db = 2" "AGENT_FLOAT \<notin> set (chart db)"
  using reachable_chart [OF assms]
  by (auto simp: chart_inv_def system_account_total_def chart_def initial_chart_def)

section \<open>Properties\<close>

text \<open>C15: reconciliation passes on every ledger the service produces.  Starting from the migration's chart
  of accounts, after any sequence of journals, provisionings, transfers, channel operations and earlier
  reconciliations, with any interleaving of their unlocked reads, the ledger satisfies the book and
  customer invariants and a reconciliation run reports PASS with no issue and no anomaly.\<close>

theorem reachable_ledger_reconciles:
  assumes "ledger_reachable db"
  shows "ledger_inv db \<and> idem_inv db
    \<and> (case reconciliation_run_of env db of
         (run, _, anomaly) \<Rightarrow> rr_status run = PASS \<and> rr_issues run = [] \<and> anomaly = None)"
proof -
  have c: "queries_clean db" using ledger_inv_clean reachable_inv [OF assms] by simp
  then have "reconciliation_issues db = []" by (simp add: reconciliation_issues_empty_iff)
  then show ?thesis using reachable_inv [OF assms] by (simp add: reconciliation_run_of_def Let_def)
qed

lemma demo_reachable: "ledger_reachable (initial_ledger ''S'' ''C'')"
  by (rule ledger_reachable.init) simp

theorem reachable_ledger_reconciles_witness:
  "ledger_reachable (initial_ledger ''S'' ''C'') \<and>
   rr_status (fst (reconciliation_run_of demo_env (initial_ledger ''S'' ''C''))) = PASS"
  using reachable_ledger_reconciles [OF demo_reachable, of demo_env] demo_reachable
  by (auto split: prod.splits)

text \<open>C16: a PASS means the books are right.  On any database, whatever wrote it, a run reports PASS exactly
  when all nine checks hold for all rows: the fifty-row limits and the cap on issues never hide the only
  problem, and no run stores more than fifty issues.  In particular a PASS implies that every entry
  balances and that every projection equals the recomputed sums.\<close>

theorem reconciliation_pass_is_sound:
  "(rr_status (fst (reconciliation_run_of env db)) = PASS) = queries_clean db
   \<and> length (rr_issues (fst (reconciliation_run_of env db))) \<le> MAX_RECONCILIATION_ISSUES
   \<and> (queries_clean db \<longrightarrow>
        (\<forall>e \<in> set (journalEntries db). sum_direction DEBIT (postings_of_entry (je_id e) db)
            = sum_direction CREDIT (postings_of_entry (je_id e) db))
      \<and> (\<forall>a \<in> set (ledgerAccounts db). \<forall>p \<in> set (balanceProjections db). bp_ledgerAccountId p = la_id a \<longrightarrow>
            bp_debitTotalMinor p = sum_direction DEBIT (postings_of_account (la_id a) db)
          \<and> bp_creditTotalMinor p = sum_direction CREDIT (postings_of_account (la_id a) db)))"
proof (intro conjI impI)
  show "(rr_status (fst (reconciliation_run_of env db)) = PASS) = queries_clean db" by (rule status_pass_iff)
  show "length (rr_issues (fst (reconciliation_run_of env db))) \<le> MAX_RECONCILIATION_ISSUES"
    using reconciliation_issues_bounded [of db] by (simp add: reconciliation_run_of_def Let_def)
next
  assume "queries_clean db"
  then have u: "q_unbalanced db = []" and d: "q_drift db = []" by (simp_all add: queries_clean_def)
  from u show "\<forall>e \<in> set (journalEntries db). sum_direction DEBIT (postings_of_entry (je_id e) db)
      = sum_direction CREDIT (postings_of_entry (je_id e) db)" by (simp add: clean_unbalanced)
  from d show "\<forall>a \<in> set (ledgerAccounts db). \<forall>p \<in> set (balanceProjections db). bp_ledgerAccountId p = la_id a \<longrightarrow>
            bp_debitTotalMinor p = sum_direction DEBIT (postings_of_account (la_id a) db)
          \<and> bp_creditTotalMinor p = sum_direction CREDIT (postings_of_account (la_id a) db)"
    by (simp add: clean_drift)
qed

theorem reconciliation_pass_is_sound_witness:
  "queries_clean (initial_ledger ''S'' ''C'')
   \<and> rr_status (fst (reconciliation_run_of demo_env (initial_ledger ''S'' ''C''))) = PASS"
proof -
  have "queries_clean (initial_ledger ''S'' ''C'')"
    using ledger_inv_clean reachable_inv [OF demo_reachable] by simp
  with reconciliation_pass_is_sound [of demo_env "initial_ledger ''S'' ''C''"] show ?thesis by simp
qed

text \<open>agent cash operations cannot succeed on any ledger the service produces.  They need the AGENT_FLOAT
  system account, which no migration and no operation creates, so both operations fail; for an existing
  active wallet the failure is the internal error with status 500.\<close>

theorem agent_float_never_provisioned:
  assumes "ledger_reachable dbr"
  shows "(\<forall>j db2. agentCashIn env ai cid dbr db0 db1 \<noteq> Inr (j, db2) \<and> agentCashOut env ai cid dbr db0 db1 \<noteq> Inr (j, db2))
    \<and> (case getCustomerAccount dbr (ai_customerAccountId ai) of
         Inl e \<Rightarrow> agentCashIn env ai cid dbr db0 db1 = Inl e
       | Inr c \<Rightarrow> agentCashIn env ai cid dbr db0 db1 = Inl (LedgerError ''INTERNAL_ERROR'' 500)
               \<and> agentCashOut env ai cid dbr db0 db1 = Inl (LedgerError ''INTERNAL_ERROR'' 500))"
proof -
  have none: "List.find (\<lambda>a. la_systemAccountType a = Some AGENT_FLOAT \<and> la_currency a = cur) (ledgerAccounts dbr) = None" for cur
    using reachable_inv(4) [OF assms] by (auto simp: find_None_iff chart_def List.map_filter_def image_iff)
  show ?thesis
    by (auto simp: agentCashIn_def agentCashOut_def getSystemAccount_def none res_simps split: sum.splits)
qed

end
