(* ===== verification/Transactions.thy ===== *)
theory Transactions
  imports LedgerTransfers "HOL-Library.Multiset"
begin

text \<open>
  The customer's transaction history (\<open>services/ledger/src/transactions/transaction.service.ts\<close>):
  running balances over the immutable postings, presentation filters and cursor pagination.
  The digest behind a cursor's fingerprint and the printing and parsing of the cursor text
  (base64url of JSON) are parameters.
\<close>

section \<open>Data\<close>

datatype txDirection = INCOMING | OUTGOING

datatype txCategory = FUNDING | ADJUSTMENT | TRANSFER | OTHER

record tx_summary =
  tx_id :: string
  tx_displayReference :: string
  tx_accountId :: string
  tx_direction :: txDirection
  tx_category :: txCategory
  tx_amount :: money
  tx_balanceAfter :: money
  tx_effectiveAt :: time
  tx_postedAt :: time

record history_query =
  hq_direction :: "txDirection option"
  hq_category :: "txCategory option"
  hq_dateFrom :: "time option"
  hq_dateTo :: "time option"
  hq_pageSize :: nat
  hq_cursor :: "string option"

text \<open>The moment of a decoded cursor, if its date is one (\<open>Date.parse\<close>).\<close>

record cursor =
  cu_v :: nat
  cu_e :: "time option"
  cu_r :: string
  cu_f :: string

record tx_env =
  te_fingerprint :: "txDirection option \<times> txCategory option \<times> time option \<times> time option \<Rightarrow> string"
  te_printCursor :: "cursor \<Rightarrow> string"
  te_parseCursor :: "string \<Rightarrow> cursor option"

section \<open>Helpers\<close>

definition displayReference :: "string \<Rightarrow> string" where
  "displayReference i =
     (let v = map js_upper (filter (\<lambda>c. c \<noteq> CHR ''-'') i)
      in ''AEGIS-TXN-'' @ take 4 v @ ''-'' @ take 4 (drop 4 v) @ ''-'' @ take 4 (drop 8 v))"

definition category :: "journalEntryType \<Rightarrow> txCategory" where
  "category t =
     (if t = SETTLEMENT_FUNDING then FUNDING
      else if t = ACCOUNT_ADJUSTMENT then ADJUSTMENT
      else if t = CUSTOMER_TRANSFER then TRANSFER else OTHER)"

definition fingerprint :: "tx_env \<Rightarrow> history_query \<Rightarrow> string" where
  "fingerprint env q = te_fingerprint env (hq_direction q, hq_category q, hq_dateFrom q, hq_dateTo q)"

text \<open>\<open>/^AEGIS-TXN-[A-Z0-9]{4}-[A-Z0-9]{4}-[A-Z0-9]{4}$/u\<close>\<close>

definition displayTransactionReferenceSchema :: "string \<Rightarrow> bool" where
  "displayTransactionReferenceSchema s =
     (case split_on CHR ''-'' s of
        [p, t, a, b, c] \<Rightarrow> p = ''AEGIS'' \<and> t = ''TXN'' \<and> reference_group a \<and> reference_group b \<and> reference_group c
      | _ \<Rightarrow> False)"

definition invalid_cursor :: ledger_error where
  "invalid_cursor = LedgerError ''INVALID_REQUEST'' 400"

definition decodeCursor :: "tx_env \<Rightarrow> string option \<Rightarrow> string \<Rightarrow> (ledger_error, cursor option) res" where
  "decodeCursor env v expected =
     (case v of
        None \<Rightarrow> Inr None
      | Some s \<Rightarrow>
          if s = [] then Inr None
          else (case te_parseCursor env s of
                  None \<Rightarrow> Inl invalid_cursor
                | Some parsed \<Rightarrow>
                    if cu_v parsed \<noteq> 1 \<or> cu_f parsed \<noteq> expected
                       \<or> \<not> displayTransactionReferenceSchema (cu_r parsed) \<or> cu_e parsed = None
                    then Inl invalid_cursor else Inr (Some parsed)))"

definition encodeCursor :: "tx_env \<Rightarrow> cursor \<Rightarrow> string" where
  "encodeCursor env c = te_printCursor env c"

section \<open>History\<close>

definition tx_account :: "ledger_db \<Rightarrow> string \<Rightarrow> string \<Rightarrow> (ledger_error, customer_account) res" where
  "tx_account db customerId accountId =
     ofOption accountNotFoundError
       (List.find (\<lambda>c. ca_id c = accountId \<and> ca_customerId c = customerId) (customerAccounts db))"

text \<open>\<open>orderBy: [createdAt asc, id asc]\<close>.\<close>

definition ordered_postings :: "ledger_db \<Rightarrow> string \<Rightarrow> journal_posting list" where
  "ordered_postings db account =
     sort_key jp_createdAt (sort_key jp_id (postings_of_account account db))"

definition entry_of :: "ledger_db \<Rightarrow> journal_posting \<Rightarrow> journal_entry option" where
  "entry_of db p = find_by je_id (jp_journalEntryId p) (journalEntries db)"

definition signed_amount :: "journal_posting \<Rightarrow> int" where
  "signed_amount p = (if jp_direction p = CREDIT then jp_amountMinor p else - jp_amountMinor p)"

definition summary_of ::
  "string \<Rightarrow> string \<Rightarrow> int \<Rightarrow> journal_posting \<Rightarrow> journal_entry \<Rightarrow> tx_summary" where
  "summary_of accountId cur balance p e =
     \<lparr>tx_id = jp_id p, tx_displayReference = displayReference (jp_id p), tx_accountId = accountId,
      tx_direction = (if jp_direction p = CREDIT then INCOMING else OUTGOING),
      tx_category = category (je_entryType e),
      tx_amount = \<lparr>currency = cur, minorUnits = serializeMinorUnits (jp_amountMinor p)\<rparr>,
      tx_balanceAfter = \<lparr>currency = cur, minorUnits = serializeMinorUnits balance\<rparr>,
      tx_effectiveAt = je_effectiveAt e, tx_postedAt = jp_createdAt p\<rparr>"

text \<open>The mapping with its running balance; the join with the entry is total by the foreign key.\<close>

fun history_loop ::
  "ledger_db \<Rightarrow> string \<Rightarrow> string \<Rightarrow> int \<Rightarrow> journal_posting list \<Rightarrow> (ledger_error, tx_summary list) res" where
  "history_loop db accountId cur balance [] = Inr []"
| "history_loop db accountId cur balance (p # ps) =
     (case entry_of db p of
        None \<Rightarrow> Inl PlainError
      | Some e \<Rightarrow>
          (let balance' = balance + signed_amount p
           in andThen (history_loop db accountId cur balance' ps)
                (\<lambda>rest. Inr (summary_of accountId cur balance' p e # rest))))"

definition history ::
  "ledger_db \<Rightarrow> string \<Rightarrow> string \<Rightarrow> (ledger_error, customer_account \<times> tx_summary list) res" where
  "history db customerId accountId =
     andThen (tx_account db customerId accountId) (\<lambda>account.
     andThen (history_loop db accountId (ca_currency account) 0 (ordered_postings db (ca_ledgerAccountId account)))
       (\<lambda>transactions. Inr (account, transactions)))"

section \<open>Listing\<close>

definition matches :: "history_query \<Rightarrow> tx_summary \<Rightarrow> bool" where
  "matches q t =
     ((case hq_direction q of None \<Rightarrow> True | Some d \<Rightarrow> tx_direction t = d) \<and>
      (case hq_category q of None \<Rightarrow> True | Some c \<Rightarrow> tx_category t = c) \<and>
      (case hq_dateFrom q of None \<Rightarrow> True | Some d \<Rightarrow> tx_effectiveAt t \<ge> d) \<and>
      (case hq_dateTo q of None \<Rightarrow> True | Some d \<Rightarrow> tx_effectiveAt t \<le> d))"

text \<open>Newest first, ties by descending identifier.\<close>

definition filtered_view :: "history_query \<Rightarrow> tx_summary list \<Rightarrow> tx_summary list" where
  "filtered_view q ts = rev (sort_key tx_postedAt (sort_key tx_id (filter (matches q) ts)))"

text \<open>\<open>findIndex(...) + 1\<close>: zero when nothing matches.\<close>

fun find_index1 :: "('a \<Rightarrow> bool) \<Rightarrow> 'a list \<Rightarrow> nat" where
  "find_index1 P [] = 0"
| "find_index1 P (x # xs) = (if P x then 1 else (let n = find_index1 P xs in if n = 0 then 0 else Suc n))"

record history_page =
  hp_transactions :: "tx_summary list"
  hp_nextCursor :: "string option"

definition page_of :: "tx_env \<Rightarrow> history_query \<Rightarrow> tx_summary list \<Rightarrow> (ledger_error, history_page) res" where
  "page_of env q transactions =
     (let fp = fingerprint env q in
      andThen (decodeCursor env (hq_cursor q) fp) (\<lambda>cur.
        let filtered = filtered_view q transactions;
            start = (case cur of
                None \<Rightarrow> 0
              | Some c \<Rightarrow> find_index1 (\<lambda>t. tx_displayReference t = cu_r c \<and> Some (tx_postedAt t) = cu_e c) filtered)
        in if cur \<noteq> None \<and> start = 0 then Inl invalid_cursor
           else (let page = take (hq_pageSize q) (drop start filtered)
                 in Inr \<lparr>hp_transactions = page,
                         hp_nextCursor =
                           (if page \<noteq> [] \<and> start + length page < length filtered
                            then Some (encodeCursor env
                                   \<lparr>cu_v = 1, cu_e = Some (tx_postedAt (last page)), cu_r = tx_displayReference (last page),
                                    cu_f = fp\<rparr>)
                            else None)\<rparr>)))"

definition list_transactions ::
  "tx_env \<Rightarrow> ledger_db \<Rightarrow> string \<Rightarrow> string \<Rightarrow> history_query \<Rightarrow> (ledger_error, history_page) res" where
  "list_transactions env db customerId accountId q =
     andThen (history db customerId accountId) (\<lambda>(account, transactions). page_of env q transactions)"

definition transaction_detail ::
  "ledger_db \<Rightarrow> string \<Rightarrow> string \<Rightarrow> string
     \<Rightarrow> (ledger_error, tx_summary \<times> string \<times> accountProductType) res" where
  "transaction_detail db customerId accountId transactionId =
     andThen (history db customerId accountId) (\<lambda>(account, transactions).
       case find_by tx_id transactionId transactions of
         None \<Rightarrow> Inl accountNotFoundError
       | Some item \<Rightarrow> Inr (item, ca_maskedReference account, ca_productType account))"

section \<open>Running balances\<close>

definition signed_sum :: "journal_posting list \<Rightarrow> int" where
  "signed_sum ps = sum_list (map signed_amount ps)"

lemma signed_sum_net: "signed_sum ps = sum_direction CREDIT ps - sum_direction DEBIT ps"
proof (induction ps)
  case (Cons p ps)
  then show ?case by (cases "jp_direction p") (simp_all add: signed_sum_def signed_amount_def)
qed (simp add: signed_sum_def)

lemma ordered_postings_sum:
  "signed_sum (ordered_postings db a) = net_credit db a"
proof -
  have "mset (ordered_postings db a) = mset (postings_of_account a db)" by (simp add: ordered_postings_def)
  then have "sum_list (map signed_amount (ordered_postings db a)) = sum_list (map signed_amount (postings_of_account a db))"
    by (metis mset_map sum_mset_sum_list)
  then show ?thesis by (simp add: net_credit_def flip: signed_sum_net) (simp add: signed_sum_def)
qed

lemma history_loop_spec:
  assumes "\<forall>p \<in> set ps. entry_of db p \<noteq> None"
  shows "\<exists>ts. history_loop db accountId cur b ps = Inr ts \<and> length ts = length ps
    \<and> (\<forall>i < length ps. tx_id (ts ! i) = jp_id (ps ! i) \<and> tx_postedAt (ts ! i) = jp_createdAt (ps ! i)
         \<and> tx_balanceAfter (ts ! i) = toMoney cur (b + signed_sum (take (Suc i) ps)))"
  using assms
proof (induction ps arbitrary: b)
  case (Cons p ps)
  then obtain e where e: "entry_of db p = Some e" by auto
  from Cons.prems have "\<forall>p \<in> set ps. entry_of db p \<noteq> None" by simp
  from Cons.IH [OF this, of "b + signed_amount p"] obtain ts where ts: "history_loop db accountId cur (b + signed_amount p) ps = Inr ts" "length ts = length ps"
    and bal: "\<forall>i < length ps. tx_id (ts ! i) = jp_id (ps ! i) \<and> tx_postedAt (ts ! i) = jp_createdAt (ps ! i)
         \<and> tx_balanceAfter (ts ! i) = toMoney cur (b + signed_amount p + signed_sum (take (Suc i) ps))"
    by (elim exE conjE)
  let ?t = "summary_of accountId cur (b + signed_amount p) p e"
  have "history_loop db accountId cur b (p # ps) = Inr (?t # ts)" using e ts by (simp add: Let_def)
  moreover have "tx_id ((?t # ts) ! i) = jp_id ((p # ps) ! i) \<and> tx_postedAt ((?t # ts) ! i) = jp_createdAt ((p # ps) ! i)
      \<and> tx_balanceAfter ((?t # ts) ! i) = toMoney cur (b + signed_sum (take (Suc i) (p # ps)))"
    if "i < length (p # ps)" for i
    using that bal by (cases i) (simp_all add: summary_of_def toMoney_def signed_sum_def algebra_simps)
  ultimately show ?case using ts(2) by (intro exI [of _ "?t # ts"]) simp
qed simp

lemma postings_have_entries:
  assumes "book_inv db" "p \<in> set (postings_of_account a db)"
  shows "entry_of db p \<noteq> None"
  using assms by (auto simp: entry_of_def find_by_None book_inv_def list_all_iff posting_wf_def postings_of_account_def)

section \<open>Pages\<close>

lemma find_index1_hit:
  assumes "k < length xs" and "P (xs ! k)" and "\<forall>j < k. \<not> P (xs ! j)"
  shows "find_index1 P xs = Suc k"
  using assms
proof (induction xs arbitrary: k)
  case (Cons x xs)
  show ?case
  proof (cases k)
    case 0
    with Cons.prems show ?thesis by simp
  next
    case (Suc m)
    with Cons.prems have "find_index1 P xs = Suc m" by (intro Cons.IH) fastforce+
    with Suc Cons.prems show ?thesis by (fastforce simp: Let_def)
  qed
qed simp

text \<open>Following the cursors from the first page, at most \<open>n\<close> pages.\<close>

fun follow :: "tx_env \<Rightarrow> nat \<Rightarrow> history_query \<Rightarrow> tx_summary list \<Rightarrow> (ledger_error, tx_summary list) res" where
  "follow env 0 q ts = Inr []"
| "follow env (Suc n) q ts =
     andThen (page_of env q ts) (\<lambda>page.
       case hp_nextCursor page of
         None \<Rightarrow> Inr (hp_transactions page)
       | Some c \<Rightarrow> andThen (follow env n (q\<lparr>hq_cursor := Some c\<rparr>) ts)
                    (\<lambda>rest. Inr (hp_transactions page @ rest)))"

definition cursor_key :: "tx_summary \<Rightarrow> string \<times> time" where
  "cursor_key t = (tx_displayReference t, tx_postedAt t)"

definition codec_ok :: "tx_env \<Rightarrow> bool" where
  "codec_ok env = (\<forall>c. displayTransactionReferenceSchema (cu_r c) \<and> cu_e c \<noteq> None \<longrightarrow>
     te_parseCursor env (te_printCursor env c) = Some c \<and> te_printCursor env c \<noteq> [])"

lemma filtered_view_cursor [simp]: "filtered_view (q\<lparr>hq_cursor := c\<rparr>) ts = filtered_view q ts"
proof -
  have "matches (q\<lparr>hq_cursor := c\<rparr>) = matches q" by (simp add: matches_def fun_eq_iff)
  then show ?thesis by (simp add: filtered_view_def)
qed

lemma fingerprint_cursor [simp]: "fingerprint env (q\<lparr>hq_cursor := c\<rparr>) = fingerprint env q"
  by (simp add: fingerprint_def)

lemma page_after_cursor:
  assumes codec: "codec_ok env" and dist: "distinct (map cursor_key (filtered_view q ts))"
    and refs: "\<forall>t \<in> set ts. displayTransactionReferenceSchema (tx_displayReference t)"
    and k: "k < length (filtered_view q ts)"
    and c: "c = encodeCursor env \<lparr>cu_v = 1, cu_e = Some (tx_postedAt (filtered_view q ts ! k)),
              cu_r = tx_displayReference (filtered_view q ts ! k), cu_f = fingerprint env q\<rparr>"
  shows "page_of env (q\<lparr>hq_cursor := Some c\<rparr>) ts =
    (let page = take (hq_pageSize q) (drop (Suc k) (filtered_view q ts))
     in Inr \<lparr>hp_transactions = page, hp_nextCursor =
        (if page \<noteq> [] \<and> Suc k + length page < length (filtered_view q ts)
         then Some (encodeCursor env \<lparr>cu_v = 1, cu_e = Some (tx_postedAt (last page)),
                cu_r = tx_displayReference (last page), cu_f = fingerprint env q\<rparr>) else None)\<rparr>)"
proof -
  let ?f = "filtered_view q ts"
  have sub: "set ?f \<subseteq> set ts" by (auto simp: filtered_view_def)
  then have ref: "displayTransactionReferenceSchema (tx_displayReference (?f ! k))" using refs k by (meson nth_mem subsetD)
  have dec: "decodeCursor env (Some c) (fingerprint env q) =
      Inr (Some \<lparr>cu_v = 1, cu_e = Some (tx_postedAt (?f ! k)), cu_r = tx_displayReference (?f ! k), cu_f = fingerprint env q\<rparr>)"
    using codec ref by (simp add: decodeCursor_def c encodeCursor_def codec_ok_def)
  have idx: "find_index1 (\<lambda>t. tx_displayReference t = tx_displayReference (?f ! k) \<and> tx_postedAt t = tx_postedAt (?f ! k)) ?f = Suc k"
  proof (rule find_index1_hit [OF k])
    show "\<forall>j < k. \<not> (tx_displayReference (?f ! j) = tx_displayReference (?f ! k) \<and> tx_postedAt (?f ! j) = tx_postedAt (?f ! k))"
    proof (intro allI impI notI)
      fix j assume "j < k" and "tx_displayReference (?f ! j) = tx_displayReference (?f ! k) \<and> tx_postedAt (?f ! j) = tx_postedAt (?f ! k)"
      then have "map cursor_key ?f ! j = map cursor_key ?f ! k" using k by (simp add: cursor_key_def)
      with dist k \<open>j < k\<close> show False using nth_eq_iff_index_eq [OF dist, of j k] by simp
    qed
  qed simp
  show ?thesis by (simp add: page_of_def dec idx Let_def)
qed

lemma last_page_nth:
  assumes "n > 0" and "Suc k + n < length xs"
  shows "last (take n (drop (Suc k) xs)) = xs ! (k + n)" "length (take n (drop (Suc k) xs)) = n"
  using assms by (simp_all add: last_conv_nth)

lemma follow_after:
  assumes codec: "codec_ok env" and dist: "distinct (map cursor_key (filtered_view q ts))"
    and refs: "\<forall>t \<in> set ts. displayTransactionReferenceSchema (tx_displayReference t)"
    and size: "hq_pageSize q > 0"
  shows "k < length (filtered_view q ts) \<Longrightarrow> length (filtered_view q ts) - k \<le> n
    \<Longrightarrow> c = encodeCursor env \<lparr>cu_v = 1, cu_e = Some (tx_postedAt (filtered_view q ts ! k)),
              cu_r = tx_displayReference (filtered_view q ts ! k), cu_f = fingerprint env q\<rparr>
    \<Longrightarrow> follow env n (q\<lparr>hq_cursor := Some c\<rparr>) ts = Inr (drop (Suc k) (filtered_view q ts))"
proof (induction n arbitrary: k c)
  case (Suc n)
  let ?f = "filtered_view q ts" and ?s = "hq_pageSize q"
  note page = page_after_cursor [OF codec dist refs Suc.prems(1,3)]
  show ?case
  proof (cases "Suc k + ?s < length ?f")
    case True
    note lp = last_page_nth [OF size True]
    have ne: "take ?s (drop (Suc k) ?f) \<noteq> []" using lp(2) size by (cases "take ?s (drop (Suc k) ?f)") auto
    let ?c = "encodeCursor env \<lparr>cu_v = 1, cu_e = Some (tx_postedAt (?f ! (k + ?s))),
              cu_r = tx_displayReference (?f ! (k + ?s)), cu_f = fingerprint env q\<rparr>"
    have pg: "page_of env (q\<lparr>hq_cursor := Some c\<rparr>) ts =
        Inr \<lparr>hp_transactions = take ?s (drop (Suc k) ?f), hp_nextCursor = Some ?c\<rparr>"
      using ne True unfolding page Let_def lp by simp
    have "follow env n (q\<lparr>hq_cursor := Some ?c\<rparr>) ts = Inr (drop (Suc (k + ?s)) ?f)"
      using True Suc.prems(2) size by (intro Suc.IH) auto
    moreover have "take ?s (drop (Suc k) ?f) @ drop (Suc (k + ?s)) ?f = drop (Suc k) ?f"
      by (metis add_Suc add.commute append_take_drop_id drop_drop)
    ultimately show ?thesis by (simp add: pg)
  next
    case False
    then have "\<not> Suc k + length (take ?s (drop (Suc k) ?f)) < length ?f" and "take ?s (drop (Suc k) ?f) = drop (Suc k) ?f"
      by auto
    then show ?thesis by (simp add: page Let_def)
  qed
qed simp

lemma follow_all:
  assumes codec: "codec_ok env" and dist: "distinct (map cursor_key (filtered_view q ts))"
    and refs: "\<forall>t \<in> set ts. displayTransactionReferenceSchema (tx_displayReference t)"
    and size: "hq_pageSize q > 0" and start: "hq_cursor q = None"
    and n: "n \<ge> length (filtered_view q ts)"
  shows "follow env (Suc n) q ts = Inr (filtered_view q ts)"
proof -
  let ?f = "filtered_view q ts" and ?s = "hq_pageSize q"
  have page: "page_of env q ts =
    (let page = take ?s ?f
     in Inr \<lparr>hp_transactions = page, hp_nextCursor =
        (if page \<noteq> [] \<and> length page < length ?f
         then Some (encodeCursor env \<lparr>cu_v = 1, cu_e = Some (tx_postedAt (last page)),
                cu_r = tx_displayReference (last page), cu_f = fingerprint env q\<rparr>) else None)\<rparr>)"
    by (simp add: page_of_def start decodeCursor_def Let_def)
  show ?thesis
  proof (cases "?s < length ?f")
    case True
    then obtain m where m: "?s = Suc m" using size by (cases ?s) auto
    have lp: "last (take ?s ?f) = ?f ! m" "length (take ?s ?f) = ?s" "take ?s ?f \<noteq> []"
      using True m last_conv_nth [of "take ?s ?f"] by (cases "?f = []"; auto simp: min_def)+
    let ?c = "encodeCursor env \<lparr>cu_v = 1, cu_e = Some (tx_postedAt (?f ! m)),
              cu_r = tx_displayReference (?f ! m), cu_f = fingerprint env q\<rparr>"
    have pg: "page_of env q ts = Inr \<lparr>hp_transactions = take ?s ?f, hp_nextCursor = Some ?c\<rparr>"
      using True lp(3) unfolding page Let_def lp by simp
    have "follow env n (q\<lparr>hq_cursor := Some ?c\<rparr>) ts = Inr (drop (Suc m) ?f)"
      using True m n by (intro follow_after [OF codec dist refs size]) auto
    then show ?thesis using m by (simp add: pg del: drop_Suc take_Suc)
  next
    case False
    then show ?thesis by (simp add: page Let_def)
  qed
qed

section \<open>Properties\<close>

definition demo_tx_env :: tx_env where
  "demo_tx_env = \<lparr>te_fingerprint = (\<lambda>_. ''fp''),
     te_printCursor = (\<lambda>c. dec_of_nat (cu_v c) @ ''/'' @ (case cu_e c of None \<Rightarrow> [] | Some e \<Rightarrow> dec_of_int e) @ ''/'' @ cu_r c @ ''/'' @ cu_f c),
     te_parseCursor = (\<lambda>s. case split_on CHR ''/'' s of
        v # e # r # f # rest \<Rightarrow> Some \<lparr>cu_v = nat_of_dec v, cu_e = Some (int_of_dec e), cu_r = r, cu_f = join_with ''/'' (f # rest)\<rparr>
      | _ \<Rightarrow> None)\<rparr>"

text \<open>the history explains the balance.  For an account the customer owns, the history lists every
  posting to the wallet exactly once in posting order, the balance shown after each transaction is the sum
  of all credits minus debits up to it, and the last one is the wallet's balance.\<close>

theorem history_explains_balance:
  assumes inv: "ledger_inv db"
    and own: "List.find (\<lambda>c. ca_id c = accountId \<and> ca_customerId c = customerId) (customerAccounts db) = Some c"
  shows "\<exists>ts. history db customerId accountId = Inr (c, ts)
    \<and> map tx_id ts = map jp_id (ordered_postings db (ca_ledgerAccountId c))
    \<and> mset (map tx_id ts) = mset (map jp_id (postings_of_account (ca_ledgerAccountId c) db))
    \<and> (\<forall>i < length ts. tx_balanceAfter (ts ! i) = toMoney (ca_currency c)
          (signed_sum (take (Suc i) (ordered_postings db (ca_ledgerAccountId c)))))
    \<and> (if ts = [] then wallet_balance db c = 0
       else tx_balanceAfter (last ts) = toMoney (ca_currency c) (wallet_balance db c))"
proof -
  let ?ps = "ordered_postings db (ca_ledgerAccountId c)"
  have "book_inv db" using inv by (simp add: ledger_inv_def)
  then have "\<forall>p \<in> set ?ps. entry_of db p \<noteq> None"
    using postings_have_entries by (auto simp: ordered_postings_def)
  from history_loop_spec [OF this, of accountId "ca_currency c" 0] obtain ts where
    ts: "history_loop db accountId (ca_currency c) 0 ?ps = Inr ts" and len: "length ts = length ?ps" and
    each: "\<forall>i < length ?ps. tx_id (ts ! i) = jp_id (?ps ! i) \<and> tx_postedAt (ts ! i) = jp_createdAt (?ps ! i)
         \<and> tx_balanceAfter (ts ! i) = toMoney (ca_currency c) (0 + signed_sum (take (Suc i) ?ps))"
    by (elim exE conjE)
  have ids: "map tx_id ts = map jp_id ?ps" using len each by (intro nth_equalityI) auto
  have "wallet_balance db c = signed_sum ?ps" by (simp add: ordered_postings_sum wallet_balance_net)
  moreover have "tx_balanceAfter (last ts) = toMoney (ca_currency c) (signed_sum ?ps)" if "ts \<noteq> []"
  proof -
    have "length ts - 1 < length ?ps" "take (Suc (length ts - 1)) ?ps = ?ps" using that len by (cases ts; simp)+
    with each that show ?thesis by (simp add: last_conv_nth)
  qed
  moreover have "mset (map jp_id ?ps) = mset (map jp_id (postings_of_account (ca_ledgerAccountId c) db))"
    by (simp add: ordered_postings_def)
  ultimately show ?thesis
    using own ts each len ids
    by (intro exI [of _ ts]) (auto simp: history_def tx_account_def signed_sum_def)
qed

text \<open>C17: pagination shows every transaction exactly once.  Following the cursors from the first page
  returns the whole filtered view in order, without gaps or repetitions, for every page size of at least
  one, as long as the cursor text round-trips and no two listed transactions share both display reference
  and posting time; one more page than there are transactions is always enough.\<close>

theorem pagination_is_complete:
  assumes "codec_ok env" and "distinct (map cursor_key (filtered_view q ts))"
    and "\<forall>t \<in> set ts. displayTransactionReferenceSchema (tx_displayReference t)"
    and "hq_pageSize q > 0" and "hq_cursor q = None"
  shows "follow env (Suc (length (filtered_view q ts))) q ts = Inr (filtered_view q ts)
    \<and> mset (filtered_view q ts) = mset (filter (matches q) ts)"
  using follow_all [OF assms order_refl] by (simp add: filtered_view_def)

lemma display_reference_no_slash:
  assumes "displayTransactionReferenceSchema s"
  shows "CHR ''/'' \<notin> set s"
proof -
  from assms obtain a b c where sp: "split_on CHR ''-'' s = [''AEGIS'', ''TXN'', a, b, c]"
    and g: "reference_group a" "reference_group b" "reference_group c"
    by (auto simp: displayTransactionReferenceSchema_def split: list.splits)
  have "s = join_with ''-'' (split_on CHR ''-'' s)" by simp
  also have "\<dots> = ''AEGIS-TXN-'' @ a @ ''-'' @ b @ ''-'' @ c" unfolding sp by simp
  finally show ?thesis
    using g by (auto simp: reference_group_def list_all_iff is_upper_alnum_def is_upper_def is_digit_def)
qed

lemma demo_codec: "codec_ok demo_tx_env"
proof -
  have slash: "CHR ''/'' \<notin> set (dec_of_nat n)" for n by (rule digits_no_char) (simp_all add: is_digit_def)
  then have slash': "CHR ''/'' \<notin> set (dec_of_int i)" for i by (auto simp: dec_of_int_def)
  have parse: "te_parseCursor demo_tx_env (v @ ''/'' @ e @ ''/'' @ r @ ''/'' @ f) =
      Some \<lparr>cu_v = nat_of_dec v, cu_e = Some (int_of_dec e), cu_r = r, cu_f = f\<rparr>"
    if "CHR ''/'' \<notin> set v" "CHR ''/'' \<notin> set e" "CHR ''/'' \<notin> set r" for v e r f
  proof -
    obtain w ws where "split_on CHR ''/'' f = w # ws" by (cases "split_on CHR ''/'' f") auto
    moreover from this have "join_with ''/'' (w # ws) = f" by (metis join_split)
    ultimately show ?thesis using that by (simp add: demo_tx_env_def split_on_append)
  qed
  have "te_parseCursor demo_tx_env (te_printCursor demo_tx_env c) = Some c"
    if c: "displayTransactionReferenceSchema (cu_r c)" "cu_e c \<noteq> None" for c
    using parse [OF slash slash' display_reference_no_slash [OF c(1)], of "cu_v c" "the (cu_e c)" "cu_f c"] c(2)
    by (auto simp: demo_tx_env_def)
  then show ?thesis by (simp add: codec_ok_def demo_tx_env_def)
qed

definition demo_tx :: "string \<Rightarrow> time \<Rightarrow> tx_summary" where
  "demo_tx i t = \<lparr>tx_id = i, tx_displayReference = displayReference i, tx_accountId = ''acc'', tx_direction = INCOMING,
     tx_category = FUNDING, tx_amount = toMoney ''LKR'' 1, tx_balanceAfter = toMoney ''LKR'' 1, tx_effectiveAt = t,
     tx_postedAt = t\<rparr>"

definition demo_query :: history_query where
  "demo_query = \<lparr>hq_direction = None, hq_category = None, hq_dateFrom = None, hq_dateTo = None, hq_pageSize = 2,
     hq_cursor = None\<rparr>"

theorem pagination_is_complete_witness:
  "follow demo_tx_env 4 demo_query
     [demo_tx ''00000000-0001'' 1, demo_tx ''00000000-0002'' 2, demo_tx ''00000000-0003'' 3] =
   Inr [demo_tx ''00000000-0003'' 3, demo_tx ''00000000-0002'' 2, demo_tx ''00000000-0001'' 1]"
proof -
  let ?ts = "[demo_tx ''00000000-0001'' 1, demo_tx ''00000000-0002'' 2, demo_tx ''00000000-0003'' 3]"
  have v: "filtered_view demo_query ?ts = rev ?ts"
    by (simp add: filtered_view_def matches_def demo_query_def demo_tx_def)
  have 1: "distinct (map cursor_key (filtered_view demo_query ?ts))"
    unfolding v by (simp add: cursor_key_def demo_tx_def)
  have 2: "\<forall>t \<in> set ?ts. displayTransactionReferenceSchema (tx_displayReference t)"
  proof -
    have "list_all (\<lambda>t. displayTransactionReferenceSchema (tx_displayReference t)) ?ts" by code_simp
    then show ?thesis by (simp add: list_all_iff)
  qed
  have 3: "hq_pageSize demo_query > 0" "hq_cursor demo_query = None" by (simp_all add: demo_query_def)
  from pagination_is_complete [OF demo_codec 1 2 3] show ?thesis
    unfolding v by (simp del: follow.simps add: numeral_eq_Suc)
qed

end
