(* ===== verification/JsNumber.thy ===== *)
theory JsNumber
  imports LedgerTransfers
begin

text \<open>
  JavaScript numbers as far as the services use them: a finite number is an IEEE 754 double, kept as an integer
  mantissa and a binary exponent; decimal texts and products are rounded to the nearest double, ties to the
  even mantissa.
\<close>

section \<open>Rounding\<close>

function bits :: "int \<Rightarrow> int" where
  "bits n = (if n \<le> 0 then 0 else 1 + bits (n div 2))"
  by pat_completeness auto

termination
  by (relation "measure nat") auto

declare bits.simps [simp del]

definition round_half_even :: "int \<Rightarrow> int \<Rightarrow> int" where
  "round_half_even n d =
     (let q = n div d; r = n mod d
      in if 2 * r < d then q else if d < 2 * r then q + 1 else if even q then q else q + 1)"

definition pow2 :: "int \<Rightarrow> int" where
  "pow2 k = 2 ^ nat k"

text \<open>The exponent of the leading bit of \<open>n / d\<close>, and the exponent of the last bit a double keeps.\<close>

definition leading :: "int \<Rightarrow> int \<Rightarrow> int" where
  "leading n d =
     (let b = bits n - bits d in if d * pow2 b \<le> n * pow2 (- b) then b else b - 1)"

definition last_bit :: "int \<Rightarrow> int \<Rightarrow> int" where
  "last_bit n d = max (- 1074) (leading n d - 52)"

datatype js_number = NaN | PosInf | NegInf | Fin int int

text \<open>The double nearest to \<open>n / d\<close> for a positive \<open>d\<close>.\<close>

definition to_double :: "int \<Rightarrow> int \<Rightarrow> js_number" where
  "to_double n d =
     (if n = 0 then Fin 0 0
      else let e = last_bit \<bar>n\<bar> d;
               m = round_half_even (\<bar>n\<bar> * pow2 (- e)) (d * pow2 e)
           in if pow2 1024 \<le> m * pow2 e then (if n < 0 then NegInf else PosInf)
              else Fin (if n < 0 then - m else m) e)"

section \<open>Numbers of texts\<close>

text \<open>\<open>digits . digits e digits\<close>: the digits of the mantissa, how many of them are fractional, the exponent.\<close>

definition digits_value :: "string \<Rightarrow> int" where
  "digits_value s = int_of_dec (CHR ''0'' # s)"

definition exponent_part :: "string \<Rightarrow> int option" where
  "exponent_part s =
     (case s of
        [] \<Rightarrow> Some 0
      | c # t \<Rightarrow>
          if c \<noteq> CHR ''e'' \<and> c \<noteq> CHR ''E'' then None
          else (let neg = (t \<noteq> [] \<and> hd t = CHR ''-'');
                    u = (if t \<noteq> [] \<and> (hd t = CHR ''-'' \<or> hd t = CHR ''+'') then tl t else t)
                in if u = [] \<or> \<not> list_all is_digit u then None
                   else Some (if neg then - digits_value u else digits_value u)))"

definition decimal_literal :: "bool \<Rightarrow> string \<Rightarrow> js_number" where
  "decimal_literal neg s =
     (let whole = takeWhile is_digit s;
          rest = dropWhile is_digit s;
          dot = (rest \<noteq> [] \<and> hd rest = CHR ''.'');
          frac = (if dot then takeWhile is_digit (tl rest) else []);
          tail = (if dot then dropWhile is_digit (tl rest) else rest)
      in if whole = [] \<and> frac = [] then NaN
         else (case exponent_part tail of
                 None \<Rightarrow> NaN
               | Some x \<Rightarrow>
                   let n = digits_value (whole @ frac); k = x - int (length frac)
                   in to_double ((if neg then - n else n) * 10 ^ nat k) (10 ^ nat (- k))))"

definition radix_literal :: "nat \<Rightarrow> string \<Rightarrow> js_number" where
  "radix_literal r s =
     (if s = [] then NaN
      else case radix_value r 0 s of None \<Rightarrow> NaN | Some n \<Rightarrow> to_double (int n) 1)"

definition js_Number :: "string \<Rightarrow> js_number" where
  "js_Number raw =
     (let t = js_trim raw in
      if t = [] then Fin 0 0
      else if starts_with ''0x'' t \<or> starts_with ''0X'' t then radix_literal 16 (drop 2 t)
      else if starts_with ''0o'' t \<or> starts_with ''0O'' t then radix_literal 8 (drop 2 t)
      else if starts_with ''0b'' t \<or> starts_with ''0B'' t then radix_literal 2 (drop 2 t)
      else (let neg = (hd t = CHR ''-''); u = (if hd t = CHR ''-'' \<or> hd t = CHR ''+'' then tl t else t)
            in if u = ''Infinity'' then (if neg then NegInf else PosInf) else decimal_literal neg u))"

section \<open>Integers among them\<close>

text \<open>The value of an integral number, and \<open>Math.floor\<close>.\<close>

definition js_integer :: "js_number \<Rightarrow> int option" where
  "js_integer x =
     (case x of
        Fin m e \<Rightarrow> if m * pow2 e mod pow2 (- e) = 0 then Some (m * pow2 e div pow2 (- e)) else None
      | _ \<Rightarrow> None)"

definition js_floor :: "js_number \<Rightarrow> int option" where
  "js_floor x = (case x of Fin m e \<Rightarrow> Some (m * pow2 e div pow2 (- e)) | _ \<Rightarrow> None)"

definition max_safe_integer :: int where
  "max_safe_integer = 2 ^ 53 - 1"

definition isSafeInteger :: "js_number \<Rightarrow> int option" where
  "isSafeInteger x =
     (case js_integer x of Some v \<Rightarrow> if \<bar>v\<bar> \<le> max_safe_integer then Some v else None | None \<Rightarrow> None)"

text \<open>The product with an integer, rounded.\<close>

definition js_times :: "js_number \<Rightarrow> int \<Rightarrow> js_number" where
  "js_times x k = (case x of Fin m e \<Rightarrow> to_double (m * k * pow2 e) (pow2 (- e)) | _ \<Rightarrow> x)"

section \<open>Rounding facts\<close>

lemma bits_bounds:
  assumes "0 < n"
  shows "0 < bits n \<and> 2 ^ nat (bits n - 1) \<le> n \<and> n < 2 ^ nat (bits n)"
  using assms
proof (induction n rule: bits.induct)
  case (1 n)
  show ?case
  proof (cases "n = 1")
    case True
    then show ?thesis by (simp add: bits.simps [of 1] bits.simps [of 0])
  next
    case False
    with 1 have h: "0 < n div 2" and IH: "0 < bits (n div 2)" "2 ^ nat (bits (n div 2) - 1) \<le> n div 2"
      "n div 2 < 2 ^ nat (bits (n div 2))" by auto
    have b: "bits n = 1 + bits (n div 2)" using 1(2) by (simp add: bits.simps [of n])
    define k where "k = nat (bits (n div 2) - 1)"
    have k: "nat (bits (n div 2)) = Suc k" "nat (bits n) = Suc (Suc k)" "nat (bits n - 1) = Suc k"
      using IH(1) by (simp_all add: b k_def)
    have "2 ^ k \<le> n div 2" "n div 2 < 2 * 2 ^ k" using IH(2,3) k by (simp_all add: k_def)
    then have "2 * 2 ^ k \<le> n" "n < 2 * (2 * 2 ^ k)" by linarith+
    then have "2 ^ Suc k \<le> n" "n < 2 ^ Suc (Suc k)" by simp_all
    moreover have "0 < bits n" using IH(1) b by simp
    ultimately show ?thesis by (simp only: k)
  qed
qed

lemma round_half_even_near:
  assumes "0 < d"
  shows "\<bar>2 * (round_half_even n d * d - n)\<bar> \<le> d"
proof -
  have n: "n = d * (n div d) + n mod d" by simp
  have r: "0 \<le> n mod d" "n mod d < d" using assms by simp_all
  define q where "q = n div d"
  define t where "t = n mod d"
  have "n = d * q + t" using n by (simp add: q_def t_def)
  with r show ?thesis unfolding round_half_even_def q_def [symmetric] t_def [symmetric] Let_def
    by (auto simp: t_def [symmetric] algebra_simps abs_if)
qed

lemma round_half_even_exact: "0 < d \<Longrightarrow> n mod d = 0 \<Longrightarrow> round_half_even n d = n div d"
  by (simp add: round_half_even_def Let_def)

end
