(* ===== verification/PaymentsDb.thy ===== *)
theory PaymentsDb
  imports Configuration
begin

text \<open>
  The payments service's data and surroundings: its errors, tables, the HTTP client of the
  ledger (\<open>transfers/ledger.client.ts\<close>) with a network that may lose the request or the answer, and the
  client of the risk service (\<open>transfers/risk.client.ts\<close>).
\<close>

section \<open>Errors\<close>

datatype payments_error =
    PaymentsError string nat
  | PaymentsZodError
  | LedgerCallError nat "string option"
  | PaymentsUniqueViolation
  | PaymentsPlainError

definition paymentError :: "string \<Rightarrow> payments_error" where
  "paymentError code = PaymentsError code 409"

section \<open>Tables\<close>

datatype transferStatus = T_PROCESSING | T_COMPLETED | T_FAILED | T_REQUIRES_REVIEW

datatype transferFailureCode =
    F_INSUFFICIENT_FUNDS | F_ACCOUNT_NOT_FOUND | F_ACCOUNT_NOT_ACTIVE | F_CURRENCY_MISMATCH | F_SELF_TRANSFER
  | F_LIMIT_EXCEEDED | F_INTENT_EXPIRED | F_AUTHORIZATION_FAILED | F_IDEMPOTENCY_CONFLICT
  | F_LEDGER_UNAVAILABLE | F_PROCESSING_TIMEOUT | F_INTERNAL_ERROR

datatype transferEventType =
    EV_AUTHORIZED | EV_PROCESSING_STARTED | EV_LEDGER_POSTED | EV_COMPLETED | EV_FAILED
  | EV_REQUIRES_REVIEW | EV_RECOVERY_RETRY | EV_INTENT_CREATED

record transfer_intent =
  ti_id :: string
  ti_tokenHash :: string
  ti_senderCustomerId :: string
  ti_sourceAccountId :: string
  ti_recipientPublicReference :: string
  ti_sourceMaskedReference :: string
  ti_recipientMaskedReference :: string
  ti_recipientCustomerId :: string
  ti_recipientAccountId :: string
  ti_currency :: string
  ti_amountMinor :: int
  ti_sourceBalanceSnapshotMinor :: int
  ti_expiresAt :: time
  ti_authorizedAt :: "time option"
  ti_consumedAt :: "time option"

record transfer_row =
  tw_id :: string
  tw_intentId :: string
  tw_displayReference :: string
  tw_senderCustomerId :: string
  tw_recipientCustomerId :: string
  tw_senderAccountId :: string
  tw_recipientAccountId :: string
  tw_senderMaskedReference :: string
  tw_recipientMaskedReference :: string
  tw_recipientPublicReference :: string
  tw_currency :: string
  tw_amountMinor :: int
  tw_status :: transferStatus
  tw_failureCode :: "transferFailureCode option"
  tw_ledgerJournalId :: "string option"
  tw_senderPostingId :: "string option"
  tw_recipientPostingId :: "string option"
  tw_senderBalanceAfterMinor :: "int option"
  tw_recipientBalanceAfterMinor :: "int option"
  tw_idempotencyKeyHash :: string
  tw_requestHash :: string
  tw_correlationId :: string
  tw_attemptCount :: int
  tw_nextAttemptAt :: "time option"
  tw_createdAt :: time
  tw_updatedAt :: time
  tw_completedAt :: "time option"
  tw_failedAt :: "time option"

record transfer_event =
  te_transferId :: string
  te_eventType :: transferEventType
  te_previousStatus :: "transferStatus option"
  te_nextStatus :: "transferStatus option"
  te_safeCode :: "transferFailureCode option"
  te_occurredAt :: time

record payments_db =
  transferIntents :: "transfer_intent list"
  transfers :: "transfer_row list"
  transferEvents :: "transfer_event list"

text \<open>SHA-256, the UUIDs, tokens and random hexadecimal digits drawn during a call, and the clocks.\<close>

record payments_env =
  p_sha256 :: "string \<Rightarrow> string"
  p_uuid :: "nat \<Rightarrow> string"
  p_token :: string
  p_hex :: string
  p_now :: time
  p_dbNow :: time
  p_isUuid :: "string \<Rightarrow> bool"

text \<open>\<open>randomBytes(12).toString('hex').toUpperCase()\<close> is the parameter \<open>p_hex\<close>.\<close>

definition newTransferReference :: "string \<Rightarrow> string" where
  "newTransferReference v =
     ''AEGIS-TRF-'' @ take 4 v @ ''-'' @ take 4 (drop 4 v) @ ''-'' @ take 4 (drop 8 v)"

section \<open>Calling the ledger\<close>

datatype network = DELIVERED | REQUEST_LOST | ANSWER_LOST

text \<open>What the client's \<open>call\<close> ends with: the parsed payload, a \<open>LedgerCallError\<close>, or the generic
  \<open>LEDGER_UNAVAILABLE\<close> error that stands for a timeout, a refused connection or an unparsable answer.\<close>

datatype 'a ledger_reply = Answer 'a | CallFailed nat "string option" | Unreachable

definition reply_of :: "network \<Rightarrow> (ledger_error, 'a) res \<Rightarrow> 'a ledger_reply" where
  "reply_of net r =
     (case net of
        DELIVERED \<Rightarrow>
          (case r of
             Inr x \<Rightarrow> Answer x
           | Inl e \<Rightarrow> (case exception_filter e of (status, code) \<Rightarrow> CallFailed status (Some code)))
      | _ \<Rightarrow> Unreachable)"

text \<open>One transfer call against the ledger model: a lost request leaves the ledger untouched, a lost answer
  does not.\<close>

definition ledger_transfer ::
  "ledger_env \<Rightarrow> network \<Rightarrow> string \<Rightarrow> transfer_command \<Rightarrow> ledger_db \<Rightarrow> transfer_result ledger_reply \<times> ledger_db" where
  "ledger_transfer lenv net correlationId cmd ldb =
     (if net = REQUEST_LOST then (Unreachable, ldb)
      else (case transfer_endpoint lenv cmd correlationId ldb ldb ldb of
              Inl e \<Rightarrow> (reply_of net (Inl e), ldb)
            | Inr (r, ldb') \<Rightarrow> (reply_of net (Inr r), ldb')))"

definition ledger_preview ::
  "ledger_env \<Rightarrow> network \<Rightarrow> transfer_preview \<Rightarrow> ledger_db \<Rightarrow> preview_result ledger_reply" where
  "ledger_preview lenv net body ldb =
     (if net = REQUEST_LOST then Unreachable else reply_of net (preview_endpoint lenv body ldb))"

section \<open>Asking the risk service\<close>

text \<open>A call returns an answer that satisfies its schema, or one that does not, or fails.  Every failure
  becomes RISK_UNAVAILABLE, a malformed answer the schema's own error.\<close>

datatype 'a risk_reply = RiskAnswer 'a | RiskMalformed | RiskFailed

datatype riskDecision = ALLOW | ALLOW_WITH_MONITORING | REQUIRE_STEP_UP | HOLD_FOR_REVIEW | BLOCK | QUARANTINE

definition riskUnavailable :: payments_error where
  "riskUnavailable = PaymentsError ''RISK_UNAVAILABLE'' 503"

definition securityControlActive :: payments_error where
  "securityControlActive = PaymentsError ''SECURITY_CONTROL_ACTIVE'' 403"

definition risk_internal :: "'a risk_reply \<Rightarrow> (payments_error, 'a) res" where
  "risk_internal r =
     (case r of RiskAnswer x \<Rightarrow> Inr x | RiskMalformed \<Rightarrow> Inl PaymentsZodError | RiskFailed \<Rightarrow> Inl riskUnavailable)"

datatype controlScope =
    SCOPE_CUSTOMER | SCOPE_SESSION | SCOPE_DEVICE | SCOPE_ACCOUNT | SCOPE_RECIPIENT | SCOPE_OPERATION | SCOPE_SERVICE

record risk_input =
  ri_operation :: string
  ri_subjectId :: string
  ri_accountId :: "string option"
  ri_recipientId :: "string option"
  ri_amountMinor :: string
  ri_currency :: string
  ri_stepUpVerified :: bool
  ri_correlationId :: string

text \<open>The scopes of the control check are the subject and, when given and not empty, the account and the
  recipient.\<close>

definition enforcement_scopes :: "risk_input \<Rightarrow> (controlScope \<times> string) list" where
  "enforcement_scopes input =
     [(SCOPE_CUSTOMER, ri_subjectId input)]
     @ (case ri_accountId input of Some a \<Rightarrow> if a = [] then [] else [(SCOPE_ACCOUNT, a)] | None \<Rightarrow> [])
     @ (case ri_recipientId input of Some r \<Rightarrow> if r = [] then [] else [(SCOPE_RECIPIENT, r)] | None \<Rightarrow> [])"

record risk_service =
  rs_controls :: "string \<Rightarrow> (controlScope \<times> string) list \<Rightarrow> bool risk_reply"
  rs_assess :: "risk_input \<Rightarrow> riskDecision risk_reply"

definition enforce :: "risk_service \<Rightarrow> risk_input \<Rightarrow> (payments_error, riskDecision) res" where
  "enforce risk input =
     andThen (risk_internal (rs_controls risk (ri_operation input) (enforcement_scopes input))) (\<lambda>allowed.
       if \<not> allowed then Inl securityControlActive
       else andThen (risk_internal (rs_assess risk input)) (\<lambda>decision.
         if decision \<noteq> ALLOW \<and> decision \<noteq> ALLOW_WITH_MONITORING then Inl securityControlActive
         else Inr decision))"

text \<open>Telemetry: the event is checked against the shared schema before it is sent, and what becomes of the
  request is ignored.  Only the parts of the schema that depend on the caller are written out; the event's
  own identifiers and times are generated in the call.\<close>

definition opaqueIdentifier :: "string \<Rightarrow> bool" where
  "opaqueIdentifier s = (list_all (\<lambda>c. is_alnum c \<or> c \<in> set '':_-'') s \<and> 8 \<le> length s \<and> length s \<le> 128)"

definition allowedAttributes :: "string list" where
  "allowedAttributes =
     [''operation'', ''outcome'', ''amountMinor'', ''currency'', ''failureCode'', ''httpStatus'', ''route'',
      ''method'', ''stepUpVerified'', ''recipientIsNew'', ''regionCode'', ''previousRegionCode'',
      ''requestCount'', ''sourceVersion'', ''integrityCode'']"

definition securityEventTypes :: "string list" where
  "securityEventTypes =
     [''LOGIN_SUCCESS'', ''LOGIN_FAILURE'', ''OTP_FAILURE'', ''PIN_FAILURE'', ''ACCOUNT_LOCK'', ''SESSION_CREATED'',
      ''SESSION_REVOKED'', ''CREDENTIAL_CHANGED'', ''DEVICE_CHANGED'', ''TRANSFER_PREVIEW'', ''TRANSFER_CONFIRMATION'',
      ''TRANSFER_FAILURE'', ''INSUFFICIENT_FUNDS'', ''IDEMPOTENCY_CONFLICT'', ''HIGH_VALUE_TRANSFER'', ''NEW_RECIPIENT'',
      ''EXPIRED_INTENT'', ''RECONCILIATION_ANOMALY'', ''RATE_LIMIT_VIOLATION'', ''CSRF_FAILURE'', ''MALFORMED_REQUEST'',
      ''FORBIDDEN_ROUTE'', ''SUSPICIOUS_REQUEST'', ''SERVICE_PROBE'', ''UNBALANCED_JOURNAL'', ''DUPLICATE_POSTING'',
      ''INTEGRITY_FAILURE'', ''INTERNAL_AUTH_FAILURE'', ''REPLAY_EVENT'', ''INVALID_SERVICE_TOKEN'',
      ''ROUTE_AUTH_ANOMALY'', ''TAMPER_SIGNAL'']"

record security_event =
  se_eventType :: string
  se_subjectId :: string
  se_accountId :: "string option"
  se_recipientId :: "string option"
  se_correlationId :: string
  se_attributes :: "(string \<times> string) list"

definition safeRiskAttributesSchema :: "(string \<times> string) list \<Rightarrow> bool" where
  "safeRiskAttributesSchema attrs = list_all (\<lambda>(k, v). k \<in> set allowedAttributes \<and> length v \<le> 256) attrs"

definition securityEventV1Schema :: "(string \<Rightarrow> bool) \<Rightarrow> security_event \<Rightarrow> bool" where
  "securityEventV1Schema uuid e =
     (se_eventType e \<in> set securityEventTypes \<and> opaqueIdentifier (se_subjectId e)
      \<and> (case se_accountId e of None \<Rightarrow> True | Some a \<Rightarrow> opaqueIdentifier a)
      \<and> (case se_recipientId e of None \<Rightarrow> True | Some a \<Rightarrow> opaqueIdentifier a)
      \<and> uuid (se_correlationId e) \<and> safeRiskAttributesSchema (se_attributes e))"

definition emit :: "(string \<Rightarrow> bool) \<Rightarrow> security_event \<Rightarrow> (payments_error, unit) res" where
  "emit uuid e = require (securityEventV1Schema uuid e) PaymentsZodError"

lemma enforce_fail_closed:
  "enforce risk input = Inr d \<Longrightarrow>
     rs_controls risk (ri_operation input) (enforcement_scopes input) = RiskAnswer True
     \<and> rs_assess risk input = RiskAnswer d \<and> (d = ALLOW \<or> d = ALLOW_WITH_MONITORING)"
  by (auto simp: enforce_def risk_internal_def res_simps split: risk_reply.splits if_splits)

end
