(* ===== verification/PaymentsTransfers.thy ===== *)
theory PaymentsTransfers
  imports PaymentsDb "HOL-Library.Product_Lexorder"
begin

text \<open>
  The transfer service of payments (\<open>services/payments/src/transfers/transfers.service.ts\<close>): intents, their
  authorisation, confirmation with the daily limit and the risk check, settlement against the ledger, and
  the recovery of transfers whose settlement stayed open.

  The handlers are polymorphic in the ledger: \<open>call\<close> takes a command, a correlation identifier and the
  ledger's state to a reply and the state afterwards.  A handler that writes and then fails keeps what it
  wrote, so confirmation returns the outcome beside the states.
\<close>

section \<open>Requests, answers and policy\<close>

definition safeFailure :: "string option \<Rightarrow> transferFailureCode" where
  "safeFailure code =
     (if code = Some ''INSUFFICIENT_FUNDS'' then F_INSUFFICIENT_FUNDS
      else if code = Some ''ACCOUNT_NOT_FOUND'' then F_ACCOUNT_NOT_FOUND
      else if code = Some ''ACCOUNT_NOT_ACTIVE'' then F_ACCOUNT_NOT_ACTIVE
      else if code = Some ''CURRENCY_MISMATCH'' then F_CURRENCY_MISMATCH
      else if code = Some ''SELF_TRANSFER'' then F_SELF_TRANSFER
      else if code = Some ''LIMIT_EXCEEDED'' then F_LIMIT_EXCEEDED
      else if code = Some ''INTENT_EXPIRED'' then F_INTENT_EXPIRED
      else if code = Some ''AUTHORIZATION_FAILED'' then F_AUTHORIZATION_FAILED
      else if code = Some ''IDEMPOTENCY_CONFLICT'' then F_IDEMPOTENCY_CONFLICT
      else F_LEDGER_UNAVAILABLE)"

record transfer_policy =
  tpol_minimum :: money
  tpol_maximum :: money
  tpol_dailyOutgoingMaximum :: money

definition transferPolicySchema :: "transfer_policy \<Rightarrow> bool" where
  "transferPolicySchema p =
     (moneySchema (tpol_minimum p) \<and> moneySchema (tpol_maximum p) \<and> moneySchema (tpol_dailyOutgoingMaximum p))"

definition lkr :: "int \<Rightarrow> money" where
  "lkr v = \<lparr>currency = ''LKR'', minorUnits = dec_of_int v\<rparr>"

definition policy :: "payments_config \<Rightarrow> (payments_error, transfer_policy) res" where
  "policy cfg =
     (let p = \<lparr>tpol_minimum = lkr (minTransferMinor cfg), tpol_maximum = lkr (maxTransferMinor cfg),
               tpol_dailyOutgoingMaximum = lkr (dailyOutgoingLimitMinor cfg)\<rparr>
      in if transferPolicySchema p then Inr p else Inl PaymentsZodError)"

definition assertAmount :: "payments_config \<Rightarrow> int \<Rightarrow> (payments_error, unit) res" where
  "assertAmount cfg amountMinor =
     (if amountMinor < minTransferMinor cfg \<or> amountMinor > maxTransferMinor cfg
      then Inl (paymentError ''LIMIT_EXCEEDED'') else Inr ())"

datatype transferDirection = SENT | RECEIVED

record transfer_summary =
  ts_id :: string
  ts_displayReference :: string
  ts_direction :: transferDirection
  ts_status :: transferStatus
  ts_accountId :: string
  ts_counterpartyMaskedReference :: string
  ts_amount :: money
  ts_createdAt :: time
  ts_completedAt :: "time option"

record transfer_detail = transfer_summary +
  td_transactionId :: "string option"
  td_balanceAfter :: "money option"
  td_failureCode :: "transferFailureCode option"
  td_ownMaskedReference :: string

definition asSummary :: "transfer_row \<Rightarrow> string \<Rightarrow> transfer_summary" where
  "asSummary row customerId =
     (let sent = (tw_senderCustomerId row = customerId) in
      \<lparr>ts_id = tw_id row, ts_displayReference = tw_displayReference row,
       ts_direction = (if sent then SENT else RECEIVED), ts_status = tw_status row,
       ts_accountId = (if sent then tw_senderAccountId row else tw_recipientAccountId row),
       ts_counterpartyMaskedReference =
         (if sent then tw_recipientMaskedReference row else tw_senderMaskedReference row),
       ts_amount = \<lparr>currency = tw_currency row, minorUnits = dec_of_int (tw_amountMinor row)\<rparr>,
       ts_createdAt = tw_createdAt row, ts_completedAt = tw_completedAt row\<rparr>)"

definition transferSummarySchema :: "(string \<Rightarrow> bool) \<Rightarrow> 'a transfer_summary_scheme \<Rightarrow> bool" where
  "transferSummarySchema uuid t =
     (uuid (ts_id t) \<and> transferDisplayReferenceSchema (ts_displayReference t) \<and> uuid (ts_accountId t)
      \<and> maskedAccountReferenceSchema (ts_counterpartyMaskedReference t) \<and> moneySchema (ts_amount t))"

definition transferDetailSchema :: "(string \<Rightarrow> bool) \<Rightarrow> transfer_detail \<Rightarrow> bool" where
  "transferDetailSchema uuid t =
     (transferSummarySchema uuid t
      \<and> (case td_transactionId t of None \<Rightarrow> True | Some x \<Rightarrow> uuid x)
      \<and> (case td_balanceAfter t of None \<Rightarrow> True | Some m \<Rightarrow> moneySchema m)
      \<and> maskedAccountReferenceSchema (td_ownMaskedReference t))"

definition asDetail :: "(string \<Rightarrow> bool) \<Rightarrow> transfer_row \<Rightarrow> string \<Rightarrow> (payments_error, transfer_detail) res" where
  "asDetail uuid row customerId =
     (let sent = (tw_senderCustomerId row = customerId);
          summary = asSummary row customerId;
          after = (if sent then tw_senderBalanceAfterMinor row else tw_recipientBalanceAfterMinor row);
          d = transfer_summary.extend summary
                (transfer_detail.fields
                  (if sent then tw_senderPostingId row else tw_recipientPostingId row)
                  (map_option (\<lambda>b. \<lparr>currency = tw_currency row, minorUnits = dec_of_int b\<rparr>) after)
                  (tw_failureCode row)
                  (if sent then tw_senderMaskedReference row else tw_recipientMaskedReference row))
      in if transferDetailSchema uuid d then Inr d else Inl PaymentsZodError)"

section \<open>Intents\<close>

record intent_request =
  ir_senderCustomerId :: string
  ir_sourceAccountId :: string
  ir_recipientReference :: string
  ir_amount :: string

record preview_response =
  pv_intentToken :: string
  pv_sourceMaskedReference :: string
  pv_recipientMaskedReference :: string
  pv_amount :: money
  pv_sourceBalance :: money
  pv_policy :: transfer_policy
  pv_expiresAt :: time

text \<open>\<open>/^[A-Za-z0-9_-]{43,128}$/u\<close>\<close>

definition opaqueIntentTokenSchema :: "string \<Rightarrow> bool" where
  "opaqueIntentTokenSchema s =
     (list_all (\<lambda>c. is_alnum c \<or> c = CHR ''_'' \<or> c = CHR ''-'') s \<and> 43 \<le> length s \<and> length s \<le> 128)"

definition transferPreviewResponseSchema :: "preview_response \<Rightarrow> bool" where
  "transferPreviewResponseSchema r =
     (opaqueIntentTokenSchema (pv_intentToken r) \<and> maskedAccountReferenceSchema (pv_sourceMaskedReference r)
      \<and> maskedAccountReferenceSchema (pv_recipientMaskedReference r) \<and> moneySchema (pv_amount r)
      \<and> moneySchema (pv_sourceBalance r) \<and> transferPolicySchema (pv_policy r))"

definition ledgerUnavailable :: payments_error where
  "ledgerUnavailable = PaymentsError ''LEDGER_UNAVAILABLE'' 202"

text \<open>What \<open>createIntent\<close> asks of the ledger, the row it stores and the event it emits.\<close>

definition preview_request :: "intent_request \<Rightarrow> int \<Rightarrow> transfer_preview" where
  "preview_request input amountMinor =
     \<lparr>tp_senderCustomerId = ir_senderCustomerId input, tp_sourceAccountId = ir_sourceAccountId input,
      tp_recipientReference = ir_recipientReference input, tp_amountMinor = dec_of_int amountMinor,
      tp_currency = ''LKR''\<rparr>"

definition intent_row ::
  "payments_env \<Rightarrow> payments_config \<Rightarrow> intent_request \<Rightarrow> int \<Rightarrow> preview_result \<Rightarrow> int \<Rightarrow> transfer_intent" where
  "intent_row env cfg input amountMinor preview sourceBalance =
     \<lparr>ti_id = p_uuid env 0, ti_tokenHash = p_sha256 env (p_token env),
      ti_senderCustomerId = ir_senderCustomerId input, ti_sourceAccountId = pw_sourceAccountId preview,
      ti_recipientPublicReference = ir_recipientReference input,
      ti_sourceMaskedReference = pw_sourceMaskedReference preview,
      ti_recipientMaskedReference = pw_recipientMaskedReference preview,
      ti_recipientCustomerId = pw_recipientCustomerId preview,
      ti_recipientAccountId = pw_recipientAccountId preview, ti_currency = pw_currency preview,
      ti_amountMinor = amountMinor, ti_sourceBalanceSnapshotMinor = sourceBalance,
      ti_expiresAt = p_now env + intentTtlSeconds cfg * 1000, ti_authorizedAt = None, ti_consumedAt = None\<rparr>"

definition intent_event ::
  "payments_config \<Rightarrow> intent_request \<Rightarrow> int \<Rightarrow> preview_result \<Rightarrow> string \<Rightarrow> security_event" where
  "intent_event cfg input amountMinor preview correlationId =
     \<lparr>se_eventType = (if amountMinor \<ge> maxTransferMinor cfg then ''HIGH_VALUE_TRANSFER'' else ''TRANSFER_PREVIEW''),
      se_subjectId = ir_senderCustomerId input, se_accountId = Some (pw_sourceAccountId preview),
      se_recipientId = Some (ir_recipientReference input), se_correlationId = correlationId,
      se_attributes = [(''operation'', ''TRANSFER_PREVIEW''), (''amountMinor'', dec_of_int amountMinor),
                       (''currency'', pw_currency preview)]\<rparr>"

definition create_intent_row :: "transfer_intent \<Rightarrow> payments_db \<Rightarrow> (payments_error, payments_db) res" where
  "create_intent_row i pdb =
     (if ti_id i \<in> ti_id ` set (transferIntents pdb) \<or> ti_tokenHash i \<in> ti_tokenHash ` set (transferIntents pdb)
      then Inl PaymentsUniqueViolation
      else Inr (pdb\<lparr>transferIntents := transferIntents pdb @ [i]\<rparr>))"

definition intent_response ::
  "payments_env \<Rightarrow> payments_config \<Rightarrow> int \<Rightarrow> preview_result \<Rightarrow> (payments_error, preview_response) res" where
  "intent_response env cfg amountMinor preview =
     andThen (policy cfg) (\<lambda>pol.
       let r = \<lparr>pv_intentToken = p_token env, pv_sourceMaskedReference = pw_sourceMaskedReference preview,
                pv_recipientMaskedReference = pw_recipientMaskedReference preview,
                pv_amount = \<lparr>currency = pw_currency preview, minorUnits = dec_of_int amountMinor\<rparr>,
                pv_sourceBalance = pw_sourceBalance preview, pv_policy = pol,
                pv_expiresAt = p_now env + intentTtlSeconds cfg * 1000\<rparr>
       in if transferPreviewResponseSchema r then Inr r else Inl PaymentsZodError)"

text \<open>Everything up to the insertion; what follows it can fail without undoing it.\<close>

definition prepare_intent ::
  "payments_env \<Rightarrow> payments_config \<Rightarrow> (transfer_preview \<Rightarrow> preview_result ledger_reply) \<Rightarrow> intent_request
     \<Rightarrow> (payments_error, int \<times> preview_result \<times> transfer_intent) res" where
  "prepare_intent env cfg ask input =
     andThen (case lkrAmountToMinorUnits (ir_amount input) of
                Inl _ \<Rightarrow> Inl PaymentsZodError | Inr m \<Rightarrow> Inr (int_of_dec m)) (\<lambda>amountMinor.
     andThen (assertAmount cfg amountMinor) (\<lambda>_.
     andThen (case ask (preview_request input amountMinor) of
                Answer p \<Rightarrow> Inr p
              | CallFailed _ _ \<Rightarrow> Inl (paymentError ''ACCOUNT_NOT_FOUND'')
              | Unreachable \<Rightarrow> Inl ledgerUnavailable) (\<lambda>preview.
       if pw_sourceAccountId preview = pw_recipientAccountId preview then Inl (paymentError ''SELF_TRANSFER'')
       else (case js_BigInt (minorUnits (pw_sourceBalance preview)) of
               Inl _ \<Rightarrow> Inl PaymentsPlainError
             | Inr b \<Rightarrow> Inr (amountMinor, preview, intent_row env cfg input amountMinor preview b)))))"

definition createIntent ::
  "payments_env \<Rightarrow> payments_config \<Rightarrow> (transfer_preview \<Rightarrow> preview_result ledger_reply) \<Rightarrow> intent_request
     \<Rightarrow> string \<Rightarrow> payments_db \<Rightarrow> (payments_error, preview_response) res \<times> payments_db" where
  "createIntent env cfg ask input correlationId pdb =
     (case andThen (prepare_intent env cfg ask input) (\<lambda>(amountMinor, preview, row).
             andThen (create_intent_row row pdb) (\<lambda>pdb'. Inr (amountMinor, preview, pdb'))) of
        Inl e \<Rightarrow> (Inl e, pdb)
      | Inr (amountMinor, preview, pdb') \<Rightarrow>
          (andThen (emit (p_isUuid env) (intent_event cfg input amountMinor preview correlationId))
             (\<lambda>_. intent_response env cfg amountMinor preview), pdb'))"

definition find_intent :: "payments_db \<Rightarrow> string \<Rightarrow> string \<Rightarrow> transfer_intent option" where
  "find_intent pdb tokenHash senderCustomerId =
     List.find (\<lambda>i. ti_tokenHash i = tokenHash \<and> ti_senderCustomerId i = senderCustomerId) (transferIntents pdb)"

text \<open>The lookup of the intent and, when it is neither consumed nor expired, the update by its identifier are two statements.\<close>

definition authorize_lookup :: "payments_env \<Rightarrow> string \<Rightarrow> string \<Rightarrow> payments_db \<Rightarrow> (payments_error, string option) res" where
  "authorize_lookup env senderCustomerId token pdb =
     (case find_intent pdb (p_sha256 env token) senderCustomerId of
        None \<Rightarrow> Inl (paymentError ''INTENT_EXPIRED'')
      | Some i \<Rightarrow>
          if ti_consumedAt i \<noteq> None then
            (if list_ex (\<lambda>t. tw_intentId t = ti_id i \<and> tw_senderCustomerId t = senderCustomerId) (transfers pdb)
             then Inr None else Inl (paymentError ''INTENT_EXPIRED''))
          else if ti_expiresAt i \<le> p_now env then Inl (paymentError ''INTENT_EXPIRED'')
          else Inr (Some (ti_id i)))"

definition authorize_write :: "payments_env \<Rightarrow> string \<Rightarrow> payments_db \<Rightarrow> payments_db" where
  "authorize_write env i pdb =
     pdb\<lparr>transferIntents := update_by ti_id i (\<lambda>x. x\<lparr>ti_authorizedAt := Some (p_now env)\<rparr>) (transferIntents pdb)\<rparr>"

definition authorize :: "payments_env \<Rightarrow> string \<Rightarrow> string \<Rightarrow> payments_db \<Rightarrow> (payments_error, payments_db) res" where
  "authorize env senderCustomerId token pdb =
     (case authorize_lookup env senderCustomerId token pdb of
        Inl e \<Rightarrow> Inl e
      | Inr None \<Rightarrow> Inr pdb
      | Inr (Some i) \<Rightarrow> Inr (authorize_write env i pdb))"

section \<open>Settlement\<close>

definition settle_command :: "transfer_row \<Rightarrow> transfer_command" where
  "settle_command row =
     \<lparr>tp_senderCustomerId = tw_senderCustomerId row, tp_sourceAccountId = tw_senderAccountId row,
      tp_recipientReference = tw_recipientPublicReference row, tp_amountMinor = dec_of_int (tw_amountMinor row),
      tp_currency = tw_currency row, tc_transferId = tw_id row, tc_transferReference = tw_displayReference row,
      tc_idempotencyKey = ''transfer:'' @ tw_id row\<rparr>"

definition event_of ::
  "payments_env \<Rightarrow> string \<Rightarrow> transferEventType \<Rightarrow> transferStatus option \<Rightarrow> transferStatus option
     \<Rightarrow> transferFailureCode option \<Rightarrow> transfer_event" where
  "event_of env t e p n c =
     \<lparr>te_transferId = t, te_eventType = e, te_previousStatus = p, te_nextStatus = n, te_safeCode = c,
      te_occurredAt = p_now env\<rparr>"

text \<open>Prisma's nested write: update the row by its identifier and append its events; a row that does not
  exist, or a ledger journal that another row carries, makes the update throw.\<close>

definition update_transfer ::
  "string \<Rightarrow> (transfer_row \<Rightarrow> transfer_row) \<Rightarrow> transfer_event list \<Rightarrow> payments_db
     \<Rightarrow> (payments_error, transfer_row \<times> payments_db) res" where
  "update_transfer tid f events pdb =
     (case find_by tw_id tid (transfers pdb) of
        None \<Rightarrow> Inl PaymentsPlainError
      | Some r \<Rightarrow>
          if tw_ledgerJournalId (f r) \<noteq> None
             \<and> list_ex (\<lambda>t. tw_id t \<noteq> tid \<and> tw_ledgerJournalId t = tw_ledgerJournalId (f r)) (transfers pdb)
          then Inl PaymentsUniqueViolation
          else Inr (f r, pdb\<lparr>transfers := update_by tw_id tid f (transfers pdb),
                             transferEvents := transferEvents pdb @ events\<rparr>))"

definition complete_row :: "payments_env \<Rightarrow> transfer_result \<Rightarrow> int \<Rightarrow> int \<Rightarrow> transfer_row \<Rightarrow> transfer_row" where
  "complete_row env r sb rb t =
     t\<lparr>tw_status := T_COMPLETED, tw_ledgerJournalId := Some (tr_journalId r),
       tw_senderPostingId := Some (tr_senderPostingId r), tw_recipientPostingId := Some (tr_recipientPostingId r),
       tw_senderBalanceAfterMinor := Some sb, tw_recipientBalanceAfterMinor := Some rb,
       tw_completedAt := Some (p_now env), tw_nextAttemptAt := None, tw_updatedAt := p_now env\<rparr>"

definition fail_row :: "payments_env \<Rightarrow> transferFailureCode \<Rightarrow> transfer_row \<Rightarrow> transfer_row" where
  "fail_row env code t =
     t\<lparr>tw_status := T_FAILED, tw_failureCode := Some code, tw_failedAt := Some (p_now env),
       tw_nextAttemptAt := None, tw_updatedAt := p_now env\<rparr>"

text \<open>The body of the try block once the ledger answered.\<close>

definition record_settlement ::
  "payments_env \<Rightarrow> transfer_row \<Rightarrow> transfer_result \<Rightarrow> payments_db
     \<Rightarrow> (payments_error, transfer_row \<times> payments_db) res" where
  "record_settlement env row r pdb =
     (case (js_BigInt (minorUnits (tr_senderBalanceAfter r)), js_BigInt (minorUnits (tr_recipientBalanceAfter r))) of
        (Inr sb, Inr rb) \<Rightarrow>
          update_transfer (tw_id row) (complete_row env r sb rb)
            [event_of env (tw_id row) EV_LEDGER_POSTED (Some T_PROCESSING) (Some T_COMPLETED) None,
             event_of env (tw_id row) EV_COMPLETED (Some T_PROCESSING) (Some T_COMPLETED) None] pdb
      | _ \<Rightarrow> Inl PaymentsPlainError)"

definition record_failure ::
  "payments_env \<Rightarrow> transfer_row \<Rightarrow> transferFailureCode \<Rightarrow> payments_db
     \<Rightarrow> (payments_error, transfer_row \<times> payments_db) res" where
  "record_failure env row code pdb =
     update_transfer (tw_id row) (fail_row env code)
       [event_of env (tw_id row) EV_FAILED (Some T_PROCESSING) (Some T_FAILED) (Some code)] pdb"

text \<open>Every error but a client error of the ledger leaves the row as it is, for the recovery; an error of
  the failure update itself is thrown.\<close>

definition settle_reply ::
  "payments_env \<Rightarrow> transfer_row \<Rightarrow> transfer_result ledger_reply \<Rightarrow> payments_db
     \<Rightarrow> (payments_error, transfer_row) res \<times> payments_db" where
  "settle_reply env row reply pdb =
     (case reply of
        Answer r \<Rightarrow>
          (case record_settlement env row r pdb of
             Inr (row', pdb') \<Rightarrow> (Inr row', pdb')
           | Inl _ \<Rightarrow> (Inr row, pdb))
      | CallFailed status code \<Rightarrow>
          if status < 500 then
            (case record_failure env row (safeFailure code) pdb of
               Inr (row', pdb') \<Rightarrow> (Inr row', pdb')
             | Inl e \<Rightarrow> (Inl e, pdb))
          else (Inr row, pdb)
      | Unreachable \<Rightarrow> (Inr row, pdb))"

type_synonym 's ledger_call = "transfer_command \<Rightarrow> string \<Rightarrow> 's \<Rightarrow> transfer_result ledger_reply \<times> 's"

definition settle ::
  "payments_env \<Rightarrow> 's ledger_call \<Rightarrow> transfer_row \<Rightarrow> string \<Rightarrow> payments_db \<Rightarrow> 's
     \<Rightarrow> (payments_error, transfer_row) res \<times> payments_db \<times> 's" where
  "settle env call row correlationId pdb s =
     (case call (settle_command row) correlationId s of
        (reply, s') \<Rightarrow> (case settle_reply env row reply pdb of (out, pdb') \<Rightarrow> (out, pdb', s')))"

section \<open>Confirmation\<close>

record confirmation =
  cf_senderCustomerId :: string
  cf_intentToken :: string
  cf_idempotencyKey :: string

text \<open>The keys of the hashed object are in the same order under \<open>localeCompare\<close> and by character codes.\<close>

definition canonicalHash :: "payments_env \<Rightarrow> json \<Rightarrow> string" where
  "canonicalHash env v = canonicalRequestHash (p_sha256 env) v"

definition intent_hash :: "payments_env \<Rightarrow> string \<Rightarrow> transfer_intent \<Rightarrow> string" where
  "intent_hash env senderCustomerId i =
     canonicalHash env (JObj
       [(''senderCustomerId'', Some (JStr senderCustomerId)), (''intentId'', Some (JStr (ti_id i))),
        (''sourceAccountId'', Some (JStr (ti_sourceAccountId i))),
        (''recipientAccountId'', Some (JStr (ti_recipientAccountId i))),
        (''amountMinor'', Some (JStr (dec_of_int (ti_amountMinor i)))), (''currency'', Some (JStr (ti_currency i)))])"

definition find_transfer :: "payments_db \<Rightarrow> string \<Rightarrow> string \<Rightarrow> transfer_row option" where
  "find_transfer pdb senderCustomerId keyHash =
     List.find (\<lambda>t. tw_senderCustomerId t = senderCustomerId \<and> tw_idempotencyKeyHash t = keyHash) (transfers pdb)"

definition confirm_risk_input :: "confirmation \<Rightarrow> transfer_intent \<Rightarrow> string \<Rightarrow> risk_input" where
  "confirm_risk_input input i correlationId =
     \<lparr>ri_operation = ''TRANSFER_CONFIRMATION'', ri_subjectId = cf_senderCustomerId input,
      ri_accountId = Some (ti_sourceAccountId i), ri_recipientId = Some (ti_recipientPublicReference i),
      ri_amountMinor = dec_of_int (ti_amountMinor i), ri_currency = ti_currency i, ri_stepUpVerified = True,
      ri_correlationId = correlationId\<rparr>"

text \<open>Before the transaction: the authorised intent, an earlier transfer under the same key, the risk check.\<close>

definition confirm_preflight ::
  "payments_env \<Rightarrow> risk_service \<Rightarrow> confirmation \<Rightarrow> string \<Rightarrow> payments_db
     \<Rightarrow> (payments_error, transfer_row option) res" where
  "confirm_preflight env risk input correlationId pdb =
     (case find_intent pdb (p_sha256 env (cf_intentToken input)) (cf_senderCustomerId input) of
        None \<Rightarrow> Inl (paymentError ''AUTHORIZATION_FAILED'')
      | Some i \<Rightarrow>
          if ti_authorizedAt i = None then Inl (paymentError ''AUTHORIZATION_FAILED'')
          else (case find_transfer pdb (cf_senderCustomerId input) (p_sha256 env (cf_idempotencyKey input)) of
                  Some t \<Rightarrow>
                    if tw_requestHash t \<noteq> intent_hash env (cf_senderCustomerId input) i
                    then Inl (paymentError ''IDEMPOTENCY_CONFLICT'') else Inr (Some t)
                | None \<Rightarrow>
                    andThen (enforce risk (confirm_risk_input input i correlationId)) (\<lambda>_. Inr None)))"

definition day_ms :: int where
  "day_ms = 86400000"

definition utc_midnight :: "time \<Rightarrow> time" where
  "utc_midnight t = t - t mod day_ms"

definition reserving :: "transferStatus \<Rightarrow> bool" where
  "reserving st = (st = T_PROCESSING \<or> st = T_COMPLETED \<or> st = T_REQUIRES_REVIEW)"

definition reserved_sum :: "string \<Rightarrow> time \<Rightarrow> payments_db \<Rightarrow> int" where
  "reserved_sum customer since pdb =
     sum_list (map tw_amountMinor
       (filter (\<lambda>t. tw_senderCustomerId t = customer \<and> reserving (tw_status t) \<and> since \<le> tw_createdAt t)
         (transfers pdb)))"

definition new_transfer ::
  "payments_env \<Rightarrow> confirmation \<Rightarrow> transfer_intent \<Rightarrow> string \<Rightarrow> transfer_row" where
  "new_transfer env input i correlationId =
     \<lparr>tw_id = p_uuid env 0, tw_intentId = ti_id i, tw_displayReference = newTransferReference (p_hex env),
      tw_senderCustomerId = cf_senderCustomerId input, tw_recipientCustomerId = ti_recipientCustomerId i,
      tw_senderAccountId = ti_sourceAccountId i, tw_recipientAccountId = ti_recipientAccountId i,
      tw_senderMaskedReference = ti_sourceMaskedReference i,
      tw_recipientMaskedReference = ti_recipientMaskedReference i,
      tw_recipientPublicReference = ti_recipientPublicReference i, tw_currency = ti_currency i,
      tw_amountMinor = ti_amountMinor i, tw_status = T_PROCESSING, tw_failureCode = None,
      tw_ledgerJournalId = None, tw_senderPostingId = None, tw_recipientPostingId = None,
      tw_senderBalanceAfterMinor = None, tw_recipientBalanceAfterMinor = None,
      tw_idempotencyKeyHash = p_sha256 env (cf_idempotencyKey input),
      tw_requestHash = intent_hash env (cf_senderCustomerId input) i, tw_correlationId = correlationId,
      tw_attemptCount = 0, tw_nextAttemptAt = None, tw_createdAt = p_dbNow env, tw_updatedAt = p_now env,
      tw_completedAt = None, tw_failedAt = None\<rparr>"

text \<open>The unique indexes of the transfers table.\<close>

definition transfer_collides :: "transfer_row \<Rightarrow> transfer_row \<Rightarrow> bool" where
  "transfer_collides t u =
     (tw_id t = tw_id u \<or> tw_displayReference t = tw_displayReference u \<or> tw_intentId t = tw_intentId u
      \<or> tw_senderCustomerId t = tw_senderCustomerId u \<and> tw_idempotencyKeyHash t = tw_idempotencyKeyHash u)"

definition create_transfer ::
  "payments_env \<Rightarrow> transfer_row \<Rightarrow> payments_db \<Rightarrow> (payments_error, payments_db) res" where
  "create_transfer env t pdb =
     (if list_ex (transfer_collides t) (transfers pdb) then Inl PaymentsUniqueViolation
      else Inr (pdb\<lparr>transfers := transfers pdb @ [t],
                    transferEvents := transferEvents pdb @
                      [event_of env (tw_id t) EV_AUTHORIZED None None None,
                       event_of env (tw_id t) EV_PROCESSING_STARTED None (Some T_PROCESSING) None],
                    transferIntents := update_by ti_id (tw_intentId t)
                      (\<lambda>x. x\<lparr>ti_consumedAt := Some (p_now env)\<rparr>) (transferIntents pdb)\<rparr>))"

text \<open>The transaction: the row that answers, whether it was there already, and the database.\<close>

definition confirm_transaction ::
  "payments_env \<Rightarrow> payments_config \<Rightarrow> confirmation \<Rightarrow> string \<Rightarrow> payments_db
     \<Rightarrow> (payments_error, (transfer_row \<times> bool) \<times> payments_db) res" where
  "confirm_transaction env cfg input correlationId pdb =
     (case find_intent pdb (p_sha256 env (cf_intentToken input)) (cf_senderCustomerId input) of
        None \<Rightarrow> Inl (paymentError ''INTENT_EXPIRED'')
      | Some i \<Rightarrow>
          (case find_transfer pdb (cf_senderCustomerId input) (p_sha256 env (cf_idempotencyKey input)) of
             Some t \<Rightarrow>
               if tw_requestHash t \<noteq> intent_hash env (cf_senderCustomerId input) i
               then Inl (paymentError ''IDEMPOTENCY_CONFLICT'') else Inr ((t, True), pdb)
           | None \<Rightarrow>
               if ti_expiresAt i \<le> p_now env \<or> ti_consumedAt i \<noteq> None \<or> ti_authorizedAt i = None
               then Inl (paymentError ''INTENT_EXPIRED'')
               else if reserved_sum (cf_senderCustomerId input) (utc_midnight (p_now env)) pdb + ti_amountMinor i
                       > dailyOutgoingLimitMinor cfg
               then Inl (paymentError ''LIMIT_EXCEEDED'')
               else andThen (create_transfer env (new_transfer env input i correlationId) pdb)
                      (\<lambda>pdb'. Inr ((new_transfer env input i correlationId, False), pdb'))))"

text \<open>The preflight reads \<open>pdb0\<close>, the transaction runs on \<open>pdb\<close>.\<close>

definition confirm ::
  "payments_env \<Rightarrow> payments_config \<Rightarrow> risk_service \<Rightarrow> 's ledger_call \<Rightarrow> confirmation \<Rightarrow> string
     \<Rightarrow> payments_db \<Rightarrow> payments_db \<Rightarrow> 's \<Rightarrow> (payments_error, transfer_detail) res \<times> payments_db \<times> 's" where
  "confirm env cfg risk call input correlationId pdb0 pdb s =
     (case confirm_preflight env risk input correlationId pdb0 of
        Inl e \<Rightarrow> (Inl e, pdb, s)
      | Inr (Some t) \<Rightarrow> (asDetail (p_isUuid env) t (cf_senderCustomerId input), pdb, s)
      | Inr None \<Rightarrow>
          (case confirm_transaction env cfg input correlationId pdb of
             Inl e \<Rightarrow> (Inl e, pdb, s)
           | Inr ((t, replayed), pdb1) \<Rightarrow>
               if replayed \<or> tw_status t \<noteq> T_PROCESSING
               then (asDetail (p_isUuid env) t (cf_senderCustomerId input), pdb1, s)
               else (case settle env call t correlationId pdb1 s of
                       (out, pdb2, s') \<Rightarrow>
                         (andThen out (\<lambda>row. asDetail (p_isUuid env) row (cf_senderCustomerId input)), pdb2, s'))))"

section \<open>Recovery\<close>

definition recovery_due :: "payments_env \<Rightarrow> payments_config \<Rightarrow> transfer_row \<Rightarrow> bool" where
  "recovery_due env cfg t =
     (tw_status t = T_PROCESSING \<and> tw_updatedAt t < p_now env - recoveryStaleSeconds cfg * 1000
      \<and> (case tw_nextAttemptAt t of None \<Rightarrow> True | Some n \<Rightarrow> n \<le> p_dbNow env))"

definition recovery_ids :: "payments_env \<Rightarrow> payments_config \<Rightarrow> payments_db \<Rightarrow> string list" where
  "recovery_ids env cfg pdb =
     take 20 (map tw_id (sort_key (\<lambda>t. (tw_updatedAt t, tw_id t)) (filter (recovery_due env cfg) (transfers pdb))))"

definition review_row :: "payments_env \<Rightarrow> transfer_row \<Rightarrow> transfer_row" where
  "review_row env t =
     t\<lparr>tw_status := T_REQUIRES_REVIEW, tw_attemptCount := tw_attemptCount t + 1, tw_nextAttemptAt := None,
       tw_updatedAt := p_now env\<rparr>"

definition retry_row :: "payments_env \<Rightarrow> payments_config \<Rightarrow> transfer_row \<Rightarrow> transfer_row" where
  "retry_row env cfg t =
     t\<lparr>tw_attemptCount := tw_attemptCount t + 1,
       tw_nextAttemptAt := Some (p_now env + recoveryStaleSeconds cfg * 1000), tw_updatedAt := p_now env\<rparr>"

fun claim_loop ::
  "payments_env \<Rightarrow> payments_config \<Rightarrow> string list \<Rightarrow> payments_db \<Rightarrow> transfer_row list
     \<Rightarrow> (payments_error, transfer_row list \<times> payments_db) res" where
  "claim_loop env cfg [] pdb rows = Inr (rows, pdb)"
| "claim_loop env cfg (i # ids) pdb rows =
     (case find_by tw_id i (transfers pdb) of
        None \<Rightarrow> Inl PaymentsPlainError
      | Some current \<Rightarrow>
          if tw_attemptCount current + 1 \<ge> maxProcessingAttempts cfg then
            andThen (update_transfer i (review_row env)
              [event_of env i EV_REQUIRES_REVIEW (Some T_PROCESSING) (Some T_REQUIRES_REVIEW) None] pdb)
              (\<lambda>(_, pdb'). claim_loop env cfg ids pdb' rows)
          else
            andThen (update_transfer i (retry_row env cfg)
              [event_of env i EV_RECOVERY_RETRY None None None] pdb)
              (\<lambda>(row, pdb'). claim_loop env cfg ids pdb' (rows @ [row])))"

definition claim ::
  "payments_env \<Rightarrow> payments_config \<Rightarrow> payments_db \<Rightarrow> (payments_error, (nat \<times> transfer_row list) \<times> payments_db) res" where
  "claim env cfg pdb =
     (let ids = recovery_ids env cfg pdb in
      andThen (claim_loop env cfg ids pdb []) (\<lambda>(rows, pdb'). Inr ((length ids, rows), pdb')))"

fun settle_all ::
  "payments_env \<Rightarrow> 's ledger_call \<Rightarrow> transfer_row list \<Rightarrow> payments_db \<Rightarrow> 's
     \<Rightarrow> (payments_error, unit) res \<times> payments_db \<times> 's" where
  "settle_all env call [] pdb s = (Inr (), pdb, s)"
| "settle_all env call (row # rows) pdb s =
     (case settle env call row (tw_correlationId row) pdb s of
        (Inl e, pdb', s') \<Rightarrow> (Inl e, pdb', s')
      | (Inr _, pdb', s') \<Rightarrow> settle_all env call rows pdb' s')"

definition recover ::
  "payments_env \<Rightarrow> payments_config \<Rightarrow> 's ledger_call \<Rightarrow> payments_db \<Rightarrow> 's
     \<Rightarrow> (payments_error, nat) res \<times> payments_db \<times> 's" where
  "recover env cfg call pdb s =
     (case claim env cfg pdb of
        Inl e \<Rightarrow> (Inl e, pdb, s)
      | Inr ((selected, rows), pdb1) \<Rightarrow>
          (case settle_all env call rows pdb1 s of
             (out, pdb2, s') \<Rightarrow> (andThen out (\<lambda>_. Inr selected), pdb2, s')))"

section \<open>Reading transfers\<close>

definition detail ::
  "(string \<Rightarrow> bool) \<Rightarrow> string \<Rightarrow> string \<Rightarrow> payments_db \<Rightarrow> (payments_error, transfer_detail) res" where
  "detail uuid customerId tid pdb =
     (case List.find (\<lambda>t. tw_id t = tid \<and> (tw_senderCustomerId t = customerId \<or> tw_recipientCustomerId t = customerId))
             (transfers pdb) of
        None \<Rightarrow> Inl (PaymentsError ''TRANSFER_NOT_FOUND'' 404)
      | Some t \<Rightarrow> asDetail uuid t customerId)"

record list_query =
  lq_direction :: "transferDirection option"
  lq_status :: "transferStatus option"
  lq_dateFrom :: "time option"
  lq_dateTo :: "time option"
  lq_pageSize :: nat
  lq_cursor :: "string option"

text \<open>The filter a cursor was issued for; serialising it, and the cursor itself, to base64url JSON is the
  parameter \<open>codec\<close>, whose decoder returns the instant, the identifier and the filter, or nothing.\<close>

type_synonym list_filter = "transferDirection option \<times> transferStatus option \<times> time option \<times> time option"

record cursor_codec =
  encode_cursor :: "time \<Rightarrow> string \<Rightarrow> list_filter \<Rightarrow> string"
  decode_cursor :: "string \<Rightarrow> (time \<times> string \<times> list_filter) option"

definition filter_of :: "list_query \<Rightarrow> list_filter" where
  "filter_of q = (lq_direction q, lq_status q, lq_dateFrom q, lq_dateTo q)"

text \<open>\<open>/^[-a-f0-9]{36}$/u\<close>\<close>

definition cursor_id_re :: "string \<Rightarrow> bool" where
  "cursor_id_re s =
     (length s = 36 \<and> list_all (\<lambda>c. c = CHR ''-'' \<or> is_digit c \<or> CHR ''a'' \<le> c \<and> c \<le> CHR ''f'') s)"

definition list_cursor ::
  "cursor_codec \<Rightarrow> list_query \<Rightarrow> (payments_error, (time \<times> string) option) res" where
  "list_cursor codec q =
     (case lq_cursor q of
        None \<Rightarrow> Inr None
      | Some c \<Rightarrow>
          if c = [] then Inr None
          else (case decode_cursor codec c of
                  None \<Rightarrow> Inl (PaymentsError ''INVALID_REQUEST'' 400)
                | Some (at, i, f) \<Rightarrow>
                    if f \<noteq> filter_of q \<or> \<not> cursor_id_re i then Inl (PaymentsError ''INVALID_REQUEST'' 400)
                    else Inr (Some (at, i))))"

definition list_where :: "string \<Rightarrow> list_query \<Rightarrow> transfer_row \<Rightarrow> bool" where
  "list_where customerId q t =
     ((tw_senderCustomerId t = customerId \<or> tw_recipientCustomerId t = customerId)
      \<and> (case lq_status q of None \<Rightarrow> True | Some st \<Rightarrow> tw_status t = st)
      \<and> (case lq_dateFrom q of None \<Rightarrow> True | Some d \<Rightarrow> d \<le> tw_createdAt t)
      \<and> (case lq_dateTo q of None \<Rightarrow> True | Some d \<Rightarrow> tw_createdAt t \<le> d))"

text \<open>Newest first; PostgreSQL compares identifiers bytewise, which the order on strings is.\<close>

definition list_rows :: "string \<Rightarrow> list_query \<Rightarrow> payments_db \<Rightarrow> transfer_row list" where
  "list_rows customerId q pdb =
     take 500 (rev (sort_key (\<lambda>t. (tw_createdAt t, tw_id t)) (filter (list_where customerId q) (transfers pdb))))"

definition direction_ok :: "string \<Rightarrow> list_query \<Rightarrow> transfer_row \<Rightarrow> bool" where
  "direction_ok customerId q t =
     (case lq_direction q of
        None \<Rightarrow> True
      | Some SENT \<Rightarrow> tw_senderCustomerId t = customerId
      | Some RECEIVED \<Rightarrow> tw_recipientCustomerId t = customerId)"

definition after_cursor :: "(time \<times> string) option \<Rightarrow> transfer_row \<Rightarrow> bool" where
  "after_cursor c t =
     (case c of None \<Rightarrow> True
      | Some (at, i) \<Rightarrow> tw_createdAt t < at \<or> tw_createdAt t = at \<and> tw_id t < i)"

definition after_rows :: "string \<Rightarrow> list_query \<Rightarrow> (time \<times> string) option \<Rightarrow> payments_db \<Rightarrow> transfer_row list" where
  "after_rows customerId q c pdb =
     filter (after_cursor c) (filter (direction_ok customerId q) (list_rows customerId q pdb))"

definition MAX_TRANSFER_PAGE_SIZE :: nat where
  "MAX_TRANSFER_PAGE_SIZE = 50"

definition list_transfers ::
  "(string \<Rightarrow> bool) \<Rightarrow> cursor_codec \<Rightarrow> string \<Rightarrow> list_query \<Rightarrow> payments_db
     \<Rightarrow> (payments_error, transfer_summary list \<times> string option) res" where
  "list_transfers uuid codec customerId q pdb =
     andThen (list_cursor codec q) (\<lambda>c.
       let after = after_rows customerId q c pdb;
           page = take (lq_pageSize q) after;
           summaries = map (\<lambda>t. asSummary t customerId) page;
           nextCursor = (if page \<noteq> [] \<and> length after > length page
                         then Some (encode_cursor codec (tw_createdAt (last page)) (tw_id (last page)) (filter_of q))
                         else None)
       in if list_all (transferSummarySchema uuid) summaries \<and> length summaries \<le> MAX_TRANSFER_PAGE_SIZE
             \<and> (case nextCursor of None \<Rightarrow> True | Some x \<Rightarrow> 1 \<le> length x \<and> length x \<le> 1024)
          then Inr (summaries, nextCursor) else Inl PaymentsZodError)"

end
