(* ===== verification/PaymentsSteps.thy ===== *)
theory PaymentsSteps
  imports PaymentsTransfers
begin

text \<open>
  The payments service as a transition system.  Requests of many customers, the recovery job and crashes
  interleave: a step is one database transaction, one call of the ledger or one recording of its reply.
  Between them a transfer is in flight, first waiting for the ledger, then with the reply in hand.

  The relation takes a set of assumptions on the surroundings that the code does not enforce; with the empty
  set every interleaving of the statements is a run.  \<open>LeasesHold\<close>: a row is claimed for recovery only when no
  earlier settlement of it is still in flight.  The code gives a claimed row a lease of \<open>recoveryStaleSeconds\<close>,
  but a recovery run settles up to twenty claimed rows one after the other, each call taking up to the
  timeout of the ledger client, so that the lease of a late row can run out first.  \<open>ClocksAgree\<close>: the clock of
  the database, which dates the row of a new transfer, and the clock of the process, which selects the day
  whose transfers are added up, are on the same UTC day.
\<close>

section \<open>Steps\<close>

record 's world =
  w_db :: payments_db
  w_flight :: "transfer_row list"
  w_replies :: "(transfer_row \<times> transfer_result ledger_reply) list"
  w_ledger :: 's

definition flying :: "'s world \<Rightarrow> string list" where
  "flying w = map tw_id (w_flight w) @ map (tw_id \<circ> fst) (w_replies w)"

datatype assumption = LeasesHold | ClocksAgree

inductive pay_step :: "payments_config \<Rightarrow> 's ledger_call \<Rightarrow> assumption set \<Rightarrow> 's world \<Rightarrow> 's world \<Rightarrow> bool" for cfg call A where
  step_intent:
    "createIntent env cfg ask input cid (w_db w) = (out, pdb') \<Longrightarrow> pay_step cfg call A w (w\<lparr>w_db := pdb'\<rparr>)"
| step_authorize:
    "authorize_lookup env customer token pdb0 = Inr (Some i) \<Longrightarrow> pay_step cfg call A w (w\<lparr>w_db := authorize_write env i (w_db w)\<rparr>)"
| step_prepare:
    "confirm_preflight env0 risk input cid pdb0 = Inr None \<Longrightarrow>
     confirm_transaction env cfg input cid (w_db w) = Inr ((t, False), pdb') \<Longrightarrow>
     (ClocksAgree \<in> A \<longrightarrow> utc_midnight (p_dbNow env) = utc_midnight (p_now env)) \<Longrightarrow>
     pay_step cfg call A w (w\<lparr>w_db := pdb', w_flight := w_flight w @ [t]\<rparr>)"
| step_call:
    "w_flight w = xs @ t # ys \<Longrightarrow> call (settle_command t) cid (w_ledger w) = (reply, s') \<Longrightarrow>
     pay_step cfg call A w (w\<lparr>w_flight := xs @ ys, w_replies := w_replies w @ [(t, reply)], w_ledger := s'\<rparr>)"
| step_record:
    "w_replies w = xs @ (t, reply) # ys \<Longrightarrow> settle_reply env t reply (w_db w) = (out, pdb') \<Longrightarrow>
     pay_step cfg call A w (w\<lparr>w_db := pdb', w_replies := xs @ ys\<rparr>)"
| step_claim:
    "claim env cfg (w_db w) = Inr ((n, rows), pdb') \<Longrightarrow>
     (LeasesHold \<in> A \<longrightarrow> set (recovery_ids env cfg (w_db w)) \<inter> set (flying w) = {}) \<Longrightarrow>
     pay_step cfg call A w (w\<lparr>w_db := pdb', w_flight := w_flight w @ rows\<rparr>)"
| step_crash:
    "pay_step cfg call A w (w\<lparr>w_flight := filter P (w_flight w), w_replies := filter Q (w_replies w)\<rparr>)"

section \<open>The invariant\<close>

text \<open>What a row says once and for all, and what a transfer copies from its intent.\<close>

definition core ::
  "transfer_row \<Rightarrow> (string \<times> string \<times> string \<times> string \<times> string) \<times> (string \<times> string \<times> string \<times> string \<times> string)
     \<times> (string \<times> int \<times> string \<times> string \<times> string \<times> time)" where
  "core t =
     ((tw_id t, tw_intentId t, tw_displayReference t, tw_senderCustomerId t, tw_recipientCustomerId t),
      (tw_senderAccountId t, tw_recipientAccountId t, tw_senderMaskedReference t, tw_recipientMaskedReference t,
       tw_recipientPublicReference t),
      (tw_currency t, tw_amountMinor t, tw_idempotencyKeyHash t, tw_requestHash t, tw_correlationId t,
       tw_createdAt t))"

definition copies :: "transfer_intent \<Rightarrow> transfer_row \<Rightarrow> bool" where
  "copies i t =
     (ti_id i = tw_intentId t \<and> ti_authorizedAt i \<noteq> None \<and> ti_consumedAt i \<noteq> None
      \<and> tw_senderCustomerId t = ti_senderCustomerId i \<and> tw_recipientCustomerId t = ti_recipientCustomerId i
      \<and> tw_senderAccountId t = ti_sourceAccountId i \<and> tw_recipientAccountId t = ti_recipientAccountId i
      \<and> tw_recipientPublicReference t = ti_recipientPublicReference i
      \<and> tw_currency t = ti_currency i \<and> tw_amountMinor t = ti_amountMinor i)"

text \<open>What the fields of a row say for its status under every interleaving, and what they say besides when no
  two settlements of a row overlap: then a row has one outcome only.\<close>

definition row_safe :: "payments_config \<Rightarrow> transfer_row \<Rightarrow> bool" where
  "row_safe cfg t =
     (0 \<le> tw_attemptCount t \<and> tw_attemptCount t \<le> maxProcessingAttempts cfg
      \<and> (case tw_status t of
           T_PROCESSING \<Rightarrow> tw_ledgerJournalId t = None \<and> tw_failureCode t = None \<and> tw_completedAt t = None
             \<and> tw_failedAt t = None \<and> tw_attemptCount t < maxProcessingAttempts cfg
         | T_COMPLETED \<Rightarrow> tw_ledgerJournalId t \<noteq> None \<and> tw_senderPostingId t \<noteq> None
             \<and> tw_recipientPostingId t \<noteq> None \<and> tw_senderBalanceAfterMinor t \<noteq> None
             \<and> tw_recipientBalanceAfterMinor t \<noteq> None \<and> tw_completedAt t \<noteq> None
         | T_FAILED \<Rightarrow> tw_failureCode t \<noteq> None \<and> tw_failedAt t \<noteq> None
         | T_REQUIRES_REVIEW \<Rightarrow> tw_ledgerJournalId t = None \<and> tw_failureCode t = None \<and> tw_completedAt t = None
             \<and> tw_nextAttemptAt t = None \<and> tw_attemptCount t = maxProcessingAttempts cfg))"

definition row_single :: "payments_config \<Rightarrow> transfer_row \<Rightarrow> bool" where
  "row_single cfg t =
     ((tw_status t = T_COMPLETED \<longrightarrow> tw_failureCode t = None \<and> tw_attemptCount t < maxProcessingAttempts cfg)
      \<and> (tw_status t = T_FAILED \<longrightarrow> tw_ledgerJournalId t = None \<and> tw_completedAt t = None
            \<and> tw_attemptCount t < maxProcessingAttempts cfg))"

definition row_ok :: "assumption set \<Rightarrow> payments_config \<Rightarrow> transfer_row \<Rightarrow> bool" where
  "row_ok A cfg t = (row_safe cfg t \<and> (LeasesHold \<in> A \<longrightarrow> row_single cfg t))"

definition keys_ok :: "payments_db \<Rightarrow> bool" where
  "keys_ok pdb =
     (distinct (map ti_id (transferIntents pdb)) \<and> distinct (map ti_tokenHash (transferIntents pdb))
      \<and> distinct (map tw_id (transfers pdb)) \<and> distinct (map tw_intentId (transfers pdb))
      \<and> distinct (map tw_displayReference (transfers pdb))
      \<and> distinct (map (\<lambda>t. (tw_senderCustomerId t, tw_idempotencyKeyHash t)) (transfers pdb)))"

definition journals_ok :: "payments_db \<Rightarrow> bool" where
  "journals_ok pdb = distinct (filter (\<lambda>j. j \<noteq> None) (map tw_ledgerJournalId (transfers pdb)))"

definition links_ok :: "payments_db \<Rightarrow> bool" where
  "links_ok pdb =
     ((\<forall>t \<in> set (transfers pdb). \<exists>i \<in> set (transferIntents pdb). copies i t)
      \<and> (\<forall>i \<in> set (transferIntents pdb). ti_consumedAt i \<noteq> None \<longrightarrow> ti_id i \<in> tw_intentId ` set (transfers pdb)))"

definition amounts_ok :: "payments_config \<Rightarrow> payments_db \<Rightarrow> bool" where
  "amounts_ok cfg pdb =
     (\<forall>i \<in> set (transferIntents pdb). minTransferMinor cfg \<le> ti_amountMinor i \<and> ti_amountMinor i \<le> maxTransferMinor cfg)"

text \<open>The events of a transfer, replayed: the last status they record.\<close>

fun logged_status :: "string \<Rightarrow> transfer_event list \<Rightarrow> transferStatus option" where
  "logged_status tid [] = None"
| "logged_status tid (e # es) =
     (case logged_status tid es of Some st \<Rightarrow> Some st
      | None \<Rightarrow> if te_transferId e = tid then te_nextStatus e else None)"

definition log_ok :: "payments_db \<Rightarrow> bool" where
  "log_ok pdb =
     ((\<forall>t \<in> set (transfers pdb). logged_status (tw_id t) (transferEvents pdb) = Some (tw_status t))
      \<and> te_transferId ` set (transferEvents pdb) \<subseteq> tw_id ` set (transfers pdb))"

definition day_sum :: "string \<Rightarrow> time \<Rightarrow> payments_db \<Rightarrow> int" where
  "day_sum customer midnight pdb =
     sum_list (map tw_amountMinor
       (filter (\<lambda>t. tw_senderCustomerId t = customer \<and> reserving (tw_status t) \<and> utc_midnight (tw_createdAt t) = midnight)
         (transfers pdb)))"

definition limit_ok :: "payments_config \<Rightarrow> payments_db \<Rightarrow> bool" where
  "limit_ok cfg pdb = (\<forall>c d. day_sum c d pdb \<le> dailyOutgoingLimitMinor cfg)"

definition pay_inv :: "assumption set \<Rightarrow> payments_config \<Rightarrow> payments_db \<Rightarrow> bool" where
  "pay_inv A cfg pdb =
     (keys_ok pdb \<and> journals_ok pdb \<and> links_ok pdb \<and> amounts_ok cfg pdb
      \<and> (\<forall>t \<in> set (transfers pdb). row_ok A cfg t) \<and> log_ok pdb
      \<and> (LeasesHold \<in> A \<and> ClocksAgree \<in> A \<longrightarrow> limit_ok cfg pdb))"

definition processing_ids :: "payments_db \<Rightarrow> string set" where
  "processing_ids pdb = tw_id ` {t \<in> set (transfers pdb). tw_status t = T_PROCESSING}"

definition carried :: "'s world \<Rightarrow> transfer_row set" where
  "carried w = set (w_flight w) \<union> fst ` set (w_replies w)"

definition flight_ok :: "assumption set \<Rightarrow> 's world \<Rightarrow> bool" where
  "flight_ok A w =
     ((LeasesHold \<in> A \<longrightarrow> distinct (flying w) \<and> set (flying w) \<subseteq> processing_ids (w_db w))
      \<and> core ` carried w \<subseteq> core ` set (transfers (w_db w)))"

definition world_inv :: "assumption set \<Rightarrow> payments_config \<Rightarrow> 's world \<Rightarrow> bool" where
  "world_inv A cfg w = (pay_inv A cfg (w_db w) \<and> flight_ok A w)"

definition config_ok :: "payments_config \<Rightarrow> bool" where
  "config_ok cfg =
     (0 < minTransferMinor cfg \<and> minTransferMinor cfg \<le> maxTransferMinor cfg
      \<and> maxTransferMinor cfg \<le> dailyOutgoingLimitMinor cfg \<and> 0 < maxProcessingAttempts cfg)"

lemma pay_inv_parts:
  assumes "pay_inv A cfg pdb"
  shows "keys_ok pdb" "journals_ok pdb" "links_ok pdb" "amounts_ok cfg pdb" "log_ok pdb" "t \<in> set (transfers pdb) \<Longrightarrow> row_ok A cfg t"
  using assms by (simp_all add: pay_inv_def)

section \<open>One row changes\<close>

lemma core_eqD:
  "core t = core u \<Longrightarrow> tw_id t = tw_id u \<and> tw_intentId t = tw_intentId u
     \<and> tw_displayReference t = tw_displayReference u \<and> tw_senderCustomerId t = tw_senderCustomerId u
     \<and> tw_idempotencyKeyHash t = tw_idempotencyKeyHash u \<and> tw_amountMinor t = tw_amountMinor u
     \<and> tw_createdAt t = tw_createdAt u"
  by (simp add: core_def)

lemma core_rows [simp]:
  "core (complete_row env r sb rb t) = core t" "core (fail_row env c t) = core t"
  "core (review_row env t) = core t" "core (retry_row env cfg t) = core t"
  by (simp_all add: core_def complete_row_def fail_row_def review_row_def retry_row_def)

lemma status_rows [simp]:
  "tw_status (complete_row env r sb rb t) = T_COMPLETED" "tw_status (fail_row env c t) = T_FAILED"
  "tw_status (review_row env t) = T_REQUIRES_REVIEW" "tw_status (retry_row env cfg t) = tw_status t"
  "tw_id (complete_row env r sb rb t) = tw_id t" "tw_id (fail_row env c t) = tw_id t"
  "tw_id (review_row env t) = tw_id t" "tw_id (retry_row env cfg t) = tw_id t"
  by (simp_all add: complete_row_def fail_row_def review_row_def retry_row_def)

lemmas row_defs = row_ok_def row_safe_def row_single_def complete_row_def fail_row_def review_row_def retry_row_def

lemma row_ok_ends:
  assumes "row_ok A cfg t" and "LeasesHold \<in> A \<longrightarrow> tw_status t = T_PROCESSING"
  shows "row_ok A cfg (complete_row env r sb rb t)" "row_ok A cfg (fail_row env c t)"
  using assms by (auto simp: row_defs split: transferStatus.splits)

lemma row_ok_claims:
  assumes "row_ok A cfg t" and "tw_status t = T_PROCESSING"
  shows "tw_attemptCount t + 1 \<ge> maxProcessingAttempts cfg \<Longrightarrow> row_ok A cfg (review_row env t)"
    "\<not> tw_attemptCount t + 1 \<ge> maxProcessingAttempts cfg \<Longrightarrow> row_ok A cfg (retry_row env cfg t)"
  using assms by (auto simp: row_defs)

lemma update_by_one:
  assumes "distinct (map key rows)" and "find_by key k rows = Some r"
  shows "update_by key k f rows = map (\<lambda>t. if t = r then f r else t) rows"
proof -
  from find_by_Some [OF assms(2)] have r: "r \<in> set rows" "key r = k" by auto
  have "key t = k \<longleftrightarrow> t = r" if "t \<in> set rows" for t
    using that r assms(1) by (auto simp: distinct_map dest: inj_onD)
  then show ?thesis by (auto simp: update_by_def)
qed

lemma logged_status_append:
  "logged_status tid (es @ fs) = (case logged_status tid fs of Some st \<Rightarrow> Some st | None \<Rightarrow> logged_status tid es)"
  by (induction es) (auto split: option.splits)

lemma logged_status_other: "tid \<notin> te_transferId ` set es \<Longrightarrow> logged_status tid es = None"
  by (induction es) auto

lemma day_sum_alt:
  "day_sum c d pdb = sum_list (map (\<lambda>t. if tw_senderCustomerId t = c \<and> reserving (tw_status t)
      \<and> utc_midnight (tw_createdAt t) = d then tw_amountMinor t else 0) (transfers pdb))"
  by (simp add: day_sum_def sum_list_map_filter')

text \<open>Keys and links depend on the cores of the rows only.\<close>

lemma map_core:
  assumes "map core xs = map core ys" and "\<And>t u. core t = core u \<Longrightarrow> g t = g u"
  shows "map g xs = map g ys"
proof (rule nth_equalityI)
  show len: "length (map g xs) = length (map g ys)" using map_eq_imp_length_eq [OF assms(1)] by simp
  fix i assume i: "i < length (map g xs)"
  then have "core (xs ! i) = core (ys ! i)" using len assms(1) by (metis length_map nth_map)
  then show "map g xs ! i = map g ys ! i" using i len assms(2) [of "xs ! i" "ys ! i"] by simp
qed

lemma core_mem: "map core xs = map core ys \<Longrightarrow> t \<in> set xs \<Longrightarrow> \<exists>u \<in> set ys. core u = core t"
  by (metis (no_types, lifting) image_iff image_set)

lemma copies_core: "core t = core u \<Longrightarrow> copies i t = copies i u"
  by (simp add: copies_def core_def)

lemma keys_ok_core:
  assumes "map core (transfers pdb') = map core (transfers pdb)" and "transferIntents pdb' = transferIntents pdb"
  shows "keys_ok pdb' = keys_ok pdb"
proof -
  have "map tw_id (transfers pdb') = map tw_id (transfers pdb)"
    "map tw_intentId (transfers pdb') = map tw_intentId (transfers pdb)"
    "map tw_displayReference (transfers pdb') = map tw_displayReference (transfers pdb)"
    "map (\<lambda>t. (tw_senderCustomerId t, tw_idempotencyKeyHash t)) (transfers pdb') =
       map (\<lambda>t. (tw_senderCustomerId t, tw_idempotencyKeyHash t)) (transfers pdb)"
    by (rule map_core [OF assms(1)]; simp add: core_def)+
  with assms(2) show ?thesis by (simp add: keys_ok_def)
qed

lemma links_ok_core:
  assumes "map core (transfers pdb') = map core (transfers pdb)" and "transferIntents pdb' = transferIntents pdb"
    and "links_ok pdb"
  shows "links_ok pdb'"
proof -
  have "\<exists>i \<in> set (transferIntents pdb). copies i t" if t: "t \<in> set (transfers pdb')" for t
    using core_mem [OF assms(1) t] assms(3) copies_core by (metis links_ok_def)
  moreover have "map tw_intentId (transfers pdb') = map tw_intentId (transfers pdb)"
    by (rule map_core [OF assms(1)]) (simp add: core_def)
  then have "tw_intentId ` set (transfers pdb') = tw_intentId ` set (transfers pdb)" by (metis image_set)
  ultimately show ?thesis using assms(2,3) by (simp add: links_ok_def)
qed

lemma distinct_option_map:
  assumes "distinct (filter (\<lambda>j. j \<noteq> None) (map g xs))" and "distinct xs"
    and "h r \<noteq> None \<Longrightarrow> \<forall>t \<in> set xs. t \<noteq> r \<longrightarrow> g t \<noteq> h r"
  shows "distinct (filter (\<lambda>j. j \<noteq> None) (map (\<lambda>t. if t = r then h r else g t) xs))"
  using assms
proof (induction xs)
  case (Cons x xs)
  show ?case
  proof (cases "x = r")
    case True
    with Cons.prems(2) have eq: "map (\<lambda>t. if t = r then h r else g t) xs = map g xs" by auto
    have "distinct (filter (\<lambda>j. j \<noteq> None) (map g xs))" using Cons.prems(1) by (simp split: if_splits)
    moreover have "h r \<noteq> None \<Longrightarrow> h r \<notin> set (map g xs)" using Cons.prems(2,3) True by (metis distinct.simps(2) imageE list.set_intros(2) list.set_map)
    ultimately show ?thesis unfolding list.map True eq by simp
  next
    case False
    have "distinct (filter (\<lambda>j. j \<noteq> None) (map (\<lambda>t. if t = r then h r else g t) xs))"
      using Cons.prems by (intro Cons.IH) (auto split: if_splits)
    moreover have "g x \<noteq> None \<Longrightarrow> g x \<notin> (\<lambda>t. if t = r then h r else g t) ` set xs"
      using Cons.prems(1,3) False by auto
    ultimately show ?thesis using False by auto
  qed
qed simp

text \<open>A change of one row in progress keeps the invariant when the row keeps its core and is well formed
  after, its journal is new and its events end in its new status.\<close>

lemma update_transfer_inv:
  assumes inv: "pay_inv A cfg pdb" and cfg: "config_ok cfg"
    and up: "update_transfer tid f es pdb = Inr (r', pdb')"
    and r: "find_by tw_id tid (transfers pdb) = Some r" "LeasesHold \<in> A \<longrightarrow> tw_status r = T_PROCESSING"
    and f: "core (f r) = core r" "row_ok A cfg (f r)"
    and es: "te_transferId ` set es \<subseteq> {tid}"
      "logged_status tid (transferEvents pdb @ es) = Some (tw_status (f r))"
  shows "pay_inv A cfg pdb' \<and> r' = f r \<and> transferIntents pdb' = transferIntents pdb
    \<and> transfers pdb' = map (\<lambda>t. if t = r then f r else t) (transfers pdb)
    \<and> transferEvents pdb' = transferEvents pdb @ es"
proof -
  let ?f = "\<lambda>t. if t = r then f r else t"
  have d: "distinct (map tw_id (transfers pdb))" using inv by (simp add: pay_inv_def keys_ok_def)
  then have dt: "distinct (transfers pdb)" by (simp add: distinct_map)
  from find_by_Some [OF r(1)] have rin: "r \<in> set (transfers pdb)" "tw_id r = tid" by auto
  from d rin have other: "tw_id t \<noteq> tid" if "t \<in> set (transfers pdb)" "t \<noteq> r" for t
    using that by (auto simp: distinct_map dest: inj_onD)
  from up r(1) have fresh: "tw_ledgerJournalId (f r) \<noteq> None \<Longrightarrow>
      \<forall>t \<in> set (transfers pdb). tw_id t \<noteq> tid \<longrightarrow> tw_ledgerJournalId t \<noteq> tw_ledgerJournalId (f r)"
    by (auto simp: update_transfer_def list_ex_iff split: if_splits)
  from up r(1) have r': "r' = f r" and ti: "transferIntents pdb' = transferIntents pdb"
    and te: "transferEvents pdb' = transferEvents pdb @ es" and tr: "transfers pdb' = map ?f (transfers pdb)"
    by (auto simp: update_transfer_def update_by_one [OF d r(1)] split: if_splits)
  have cores: "map core (transfers pdb') = map core (transfers pdb)" by (simp add: tr f(1))
  have idf: "tw_id (f r) = tid" using f(1) rin(2) by (auto dest: core_eqD)
  have "keys_ok pdb'" "links_ok pdb'" "amounts_ok cfg pdb'"
    using inv keys_ok_core [OF cores ti] links_ok_core [OF cores ti]
    by (simp_all add: pay_inv_def amounts_ok_def ti)
  moreover have "journals_ok pdb'"
  proof -
    have eq: "map tw_ledgerJournalId (transfers pdb')
        = map (\<lambda>t. if t = r then (tw_ledgerJournalId \<circ> f) r else tw_ledgerJournalId t) (transfers pdb)"
      by (simp add: tr)
    show ?thesis unfolding journals_ok_def eq
      by (rule distinct_option_map) (use inv dt fresh other in \<open>auto simp: pay_inv_def journals_ok_def\<close>)
  qed
  moreover have "\<forall>t \<in> set (transfers pdb'). row_ok A cfg t" using inv f(2) by (auto simp: tr pay_inv_def)
  moreover have "log_ok pdb'"
  proof -
    have o: "logged_status (tw_id t) (transferEvents pdb @ es) = Some (tw_status t)"
      if "t \<in> set (transfers pdb)" "t \<noteq> r" for t
    proof -
      have "logged_status (tw_id t) es = None"
        by (rule logged_status_other) (use es(1) other [OF that] in auto)
      then show ?thesis using inv that(1) by (simp add: logged_status_append pay_inv_def log_ok_def)
    qed
    have "tw_id ` set (transfers pdb') = tw_id ` set (transfers pdb)"
      by (auto simp: tr idf rin image_iff) (metis rin)+
    then show ?thesis using o es inv rin by (auto simp: log_ok_def tr te idf pay_inv_def)
  qed
  moreover have "limit_ok cfg pdb'" if A: "LeasesHold \<in> A" "ClocksAgree \<in> A"
  proof -
    have pos: "0 \<le> tw_amountMinor r"
      using inv rin(1) cfg by (fastforce simp: pay_inv_def links_ok_def copies_def amounts_ok_def config_ok_def)
    have "day_sum c e pdb' \<le> day_sum c e pdb" for c e
      unfolding day_sum_alt tr map_map
      by (rule sum_list_mono) (use core_eqD [OF f(1)] pos r(2) A(1) in \<open>auto simp: reserving_def\<close>)
    moreover have "limit_ok cfg pdb" using inv A by (simp add: pay_inv_def)
    ultimately show ?thesis unfolding limit_ok_def by (meson order_trans)
  qed
  ultimately show ?thesis by (simp add: pay_inv_def r' ti te tr)
qed

section \<open>Every operation keeps the invariant\<close>

lemma case_sum_eq_Inr [res_simps]:
  "((case m of Inl e \<Rightarrow> Inl (h e) | Inr x \<Rightarrow> f x) = Inr y) = (\<exists>x. m = Inr x \<and> f x = Inr y)"
  by (cases m) simp_all

lemma if_eq_Inr [res_simps]: "((if b then Inl e else x) = Inr y) = (\<not> b \<and> x = Inr y)"
  by simp

lemma createIntent_inv:
  assumes inv: "pay_inv A cfg pdb" and ok: "createIntent env cfg ask input cid pdb = (out, pdb')"
  shows "pay_inv A cfg pdb' \<and> transfers pdb' = transfers pdb"
proof (cases "pdb' = pdb")
  case False
  with ok obtain a p row where prep: "prepare_intent env cfg ask input = Inr (a, p, row)"
    and row: "create_intent_row row pdb = Inr pdb'"
    by (auto simp: createIntent_def res_simps split: sum.splits)
  from prep have lim: "minTransferMinor cfg \<le> ti_amountMinor row" "ti_amountMinor row \<le> maxTransferMinor cfg"
    and new: "ti_consumedAt row = None"
    by (auto simp: prepare_intent_def res_simps assertAmount_def intent_row_def)
  from row have "ti_id row \<notin> ti_id ` set (transferIntents pdb)" "ti_tokenHash row \<notin> ti_tokenHash ` set (transferIntents pdb)"
    and pdb': "pdb' = pdb\<lparr>transferIntents := transferIntents pdb @ [row]\<rparr>"
    by (auto simp: create_intent_row_def split: if_splits)
  with inv lim new show ?thesis
    by (auto simp: pay_inv_def keys_ok_def journals_ok_def links_ok_def amounts_ok_def log_ok_def limit_ok_def day_sum_def)
qed (use inv in simp)

lemma update_by_mem: "x \<in> set rows \<Longrightarrow> (if key x = k then f x else x) \<in> set (update_by key k f rows)"
  by (simp add: set_update_by)

lemma intents_update_inv:
  assumes inv: "pay_inv A cfg pdb" and f: "\<And>i. ti_id (f i) = ti_id i \<and> ti_tokenHash (f i) = ti_tokenHash i
      \<and> ti_amountMinor (f i) = ti_amountMinor i \<and> ti_consumedAt (f i) = ti_consumedAt i"
    "\<And>i t. copies i t \<Longrightarrow> copies (f i) t"
  shows "pay_inv A cfg (pdb\<lparr>transferIntents := update_by ti_id k f (transferIntents pdb)\<rparr>)"
proof -
  have l: "links_ok pdb" using inv by (simp add: pay_inv_def)
  have "\<exists>i \<in> set (update_by ti_id k f (transferIntents pdb)). copies i t" if "t \<in> set (transfers pdb)" for t
  proof -
    from l that obtain i where "i \<in> set (transferIntents pdb)" "copies i t" by (auto simp: links_ok_def)
    then show ?thesis using f(2) [of i t] update_by_mem [of i "transferIntents pdb" ti_id k f] by (metis (full_types))
  qed
  moreover have "ti_id i \<in> tw_intentId ` set (transfers pdb)"
    if "i \<in> set (update_by ti_id k f (transferIntents pdb))" "ti_consumedAt i \<noteq> None" for i
    using that l f(1) by (auto simp: set_update_by links_ok_def split: if_splits)
  ultimately have "links_ok (pdb\<lparr>transferIntents := update_by ti_id k f (transferIntents pdb)\<rparr>)"
    by (simp add: links_ok_def)
  moreover have "map ti_id (update_by ti_id k f (transferIntents pdb)) = map ti_id (transferIntents pdb)"
    "map ti_tokenHash (update_by ti_id k f (transferIntents pdb)) = map ti_tokenHash (transferIntents pdb)"
    using f(1) by simp_all
  moreover have "amounts_ok cfg (pdb\<lparr>transferIntents := update_by ti_id k f (transferIntents pdb)\<rparr>)"
    using inv f(1) by (auto simp: pay_inv_def amounts_ok_def set_update_by)
  ultimately show ?thesis
    using inv by (simp add: pay_inv_def keys_ok_def journals_ok_def log_ok_def limit_ok_def day_sum_def)
qed

lemma authorize_inv:
  assumes inv: "pay_inv A cfg pdb"
  shows "pay_inv A cfg (authorize_write env i pdb) \<and> transfers (authorize_write env i pdb) = transfers pdb"
  using inv by (auto simp: authorize_write_def copies_def intro!: intents_update_inv)

lemma day_sum_le_reserved:
  assumes "\<forall>t \<in> set (transfers pdb). 0 \<le> tw_amountMinor t"
  shows "day_sum c d pdb \<le> reserved_sum c d pdb"
proof -
  have le: "utc_midnight x \<le> x" for x by (simp add: utc_midnight_def day_ms_def)
  have "reserved_sum c d pdb = sum_list (map (\<lambda>t. if tw_senderCustomerId t = c \<and> reserving (tw_status t)
      \<and> d \<le> tw_createdAt t then tw_amountMinor t else 0) (transfers pdb))"
    by (simp add: reserved_sum_def sum_list_map_filter')
  then show ?thesis
    unfolding day_sum_alt using assms le by (auto intro!: sum_list_mono)
qed

lemma amounts_nonneg:
  assumes "pay_inv A cfg pdb" and "config_ok cfg" and "t \<in> set (transfers pdb)"
  shows "0 < tw_amountMinor t \<and> tw_amountMinor t \<le> maxTransferMinor cfg"
  using assms by (fastforce simp: pay_inv_def links_ok_def copies_def amounts_ok_def config_ok_def)

text \<open>What a successful first confirmation has checked and written.\<close>

lemma confirm_transaction_new:
  assumes "confirm_transaction env cfg input cid pdb = Inr ((t, False), pdb')"
  obtains i where "find_intent pdb (p_sha256 env (cf_intentToken input)) (cf_senderCustomerId input) = Some i"
    "t = new_transfer env input i cid" "ti_consumedAt i = None" "ti_authorizedAt i \<noteq> None" "p_now env < ti_expiresAt i"
    "find_transfer pdb (cf_senderCustomerId input) (p_sha256 env (cf_idempotencyKey input)) = None"
    "reserved_sum (cf_senderCustomerId input) (utc_midnight (p_now env)) pdb + ti_amountMinor i \<le> dailyOutgoingLimitMinor cfg"
    "create_transfer env t pdb = Inr pdb'"
  using assms by (fastforce simp: confirm_transaction_def res_simps split: option.splits if_splits)

lemma prepare_inv:
  assumes inv: "pay_inv A cfg pdb" and cfg: "config_ok cfg"
    and ok: "confirm_transaction env cfg input cid pdb = Inr ((t, False), pdb')"
    and clock: "ClocksAgree \<in> A \<longrightarrow> utc_midnight (p_dbNow env) = utc_midnight (p_now env)"
  shows "pay_inv A cfg pdb' \<and> tw_status t = T_PROCESSING \<and> transfers pdb' = transfers pdb @ [t]
    \<and> tw_id t \<notin> tw_id ` set (transfers pdb)"
proof -
  obtain i where fi: "find_intent pdb (p_sha256 env (cf_intentToken input)) (cf_senderCustomerId input) = Some i"
    and t: "t = new_transfer env input i cid" and ui: "ti_consumedAt i = None" "ti_authorizedAt i \<noteq> None"
    and lim: "reserved_sum (cf_senderCustomerId input) (utc_midnight (p_now env)) pdb + ti_amountMinor i
        \<le> dailyOutgoingLimitMinor cfg"
    and cr: "create_transfer env t pdb = Inr pdb'"
    by (rule confirm_transaction_new [OF ok])
  let ?con = "\<lambda>x. x\<lparr>ti_consumedAt := Some (p_now env)\<rparr>"
  from fi have i: "i \<in> set (transferIntents pdb)" "ti_senderCustomerId i = cf_senderCustomerId input"
    by (auto simp: find_intent_def find_Some_iff)
  from cr have nc: "\<forall>u \<in> set (transfers pdb). \<not> transfer_collides t u" by (auto simp: create_transfer_def list_ex_iff split: if_splits)
  from cr have tr: "transfers pdb' = transfers pdb @ [t]"
    and ti: "transferIntents pdb' = update_by ti_id (ti_id i) ?con (transferIntents pdb)"
    and te: "transferEvents pdb' = transferEvents pdb @
          [event_of env (tw_id t) EV_AUTHORIZED None None None,
           event_of env (tw_id t) EV_PROCESSING_STARTED None (Some T_PROCESSING) None]"
    by (auto simp: create_transfer_def t new_transfer_def split: if_splits)
  have k: "keys_ok pdb'" using inv nc
    by (auto simp: keys_ok_def pay_inv_def tr ti transfer_collides_def)
  have dist: "distinct (map ti_id (transferIntents pdb))" using inv by (simp add: pay_inv_def keys_ok_def)
  have fresh: "tw_id t \<notin> tw_id ` set (transfers pdb)" using nc by (auto simp: transfer_collides_def)
  have st: "tw_status t = T_PROCESSING" "tw_ledgerJournalId t = None" "row_ok A cfg t"
    "tw_senderCustomerId t = cf_senderCustomerId input" "tw_amountMinor t = ti_amountMinor i"
    "tw_createdAt t = p_dbNow env" "tw_intentId t = ti_id i"
    using cfg by (simp_all add: t new_transfer_def row_defs config_ok_def)
  have "journals_ok pdb'" using inv st(2) by (simp add: journals_ok_def pay_inv_def tr)
  moreover have "links_ok pdb'"
  proof -
    have "copies (?con i) t" using i ui by (auto simp: copies_def t new_transfer_def)
    moreover have "?con i \<in> set (transferIntents pdb')" using i by (auto simp: ti set_update_by)
    moreover have "\<exists>j \<in> set (transferIntents pdb'). copies j u" if u: "u \<in> set (transfers pdb)" for u
    proof -
      from pay_inv_parts(3) [OF inv] u obtain j where j: "j \<in> set (transferIntents pdb)" "copies j u" by (auto simp: links_ok_def)
      then have "(if ti_id j = ti_id i then ?con j else j) \<in> set (transferIntents pdb')" by (auto simp: ti set_update_by)
      moreover have "copies (if ti_id j = ti_id i then ?con j else j) u" using j(2) by (simp add: copies_def)
      ultimately show ?thesis by blast
    qed
    moreover have "ti_id j \<in> tw_intentId ` set (transfers pdb')"
      if "j \<in> set (transferIntents pdb')" "ti_consumedAt j \<noteq> None" for j
      using that pay_inv_parts(3) [OF inv] st(7) by (auto simp: ti tr set_update_by links_ok_def split: if_splits)
    ultimately show ?thesis by (auto simp: links_ok_def tr)
  qed
  moreover have "amounts_ok cfg pdb'" using inv by (auto simp: pay_inv_def amounts_ok_def ti set_update_by)
  moreover have "log_ok pdb'"
  proof -
    have "logged_status (tw_id u) (transferEvents pdb') = Some (tw_status u)" if "u \<in> set (transfers pdb)" for u
      using that fresh inv by (auto simp: te logged_status_append event_of_def pay_inv_def log_ok_def)
    then show ?thesis using inv st(1)
      by (auto simp: log_ok_def pay_inv_def tr te logged_status_append event_of_def)
  qed
  moreover have "limit_ok cfg pdb'" if A: "LeasesHold \<in> A" "ClocksAgree \<in> A"
  proof -
    have nn: "\<forall>u \<in> set (transfers pdb). 0 \<le> tw_amountMinor u" using amounts_nonneg [OF inv cfg] by fastforce
    have "day_sum c d pdb' \<le> dailyOutgoingLimitMinor cfg" for c d
    proof (cases "c = cf_senderCustomerId input \<and> d = utc_midnight (p_now env)")
      case True
      with day_sum_le_reserved [OF nn, of c d] lim st clock A show ?thesis by (simp add: day_sum_alt tr reserving_def)
    next
      case False
      then have "day_sum c d pdb' = day_sum c d pdb" using st clock A by (auto simp: day_sum_alt tr)
      then show ?thesis using inv A by (simp add: pay_inv_def limit_ok_def)
    qed
    then show ?thesis by (simp add: limit_ok_def)
  qed
  moreover have "\<forall>u \<in> set (transfers pdb'). row_ok A cfg u" using inv st(3) by (simp add: pay_inv_def tr)
  ultimately show ?thesis using k st(1) tr fresh by (simp add: pay_inv_def)
qed

text \<open>Recording a reply: the row of the flying transfer, if it changes at all, ends.\<close>

lemma settle_reply_inv:
  assumes inv: "pay_inv A cfg pdb" and cfg: "config_ok cfg"
    and r: "find_by tw_id (tw_id t) (transfers pdb) = Some r" "LeasesHold \<in> A \<longrightarrow> tw_status r = T_PROCESSING"
    and ok: "settle_reply env t reply pdb = (out, pdb')"
  shows "pay_inv A cfg pdb' \<and> map core (transfers pdb') = map core (transfers pdb)
    \<and> (\<forall>u \<in> set (transfers pdb). tw_id u \<noteq> tw_id t \<longrightarrow> u \<in> set (transfers pdb'))"
proof (cases "pdb' = pdb")
  case False
  from find_by_Some [OF r(1)] have rin: "r \<in> set (transfers pdb)" "tw_id r = tw_id t" by auto
  then have row: "row_ok A cfg r" using inv by (simp add: pay_inv_def)
  from False ok consider
      (posted) x row' f sb rb where "update_transfer (tw_id t) f
        [event_of env (tw_id t) EV_LEDGER_POSTED (Some T_PROCESSING) (Some T_COMPLETED) None,
         event_of env (tw_id t) EV_COMPLETED (Some T_PROCESSING) (Some T_COMPLETED) None] pdb = Inr (row', pdb')"
        "f = complete_row env x sb rb"
    | (failed) code row' f where "update_transfer (tw_id t) f
        [event_of env (tw_id t) EV_FAILED (Some T_PROCESSING) (Some T_FAILED) (Some code)] pdb = Inr (row', pdb')"
        "f = fail_row env code"
    by (fastforce simp: settle_reply_def record_settlement_def record_failure_def
        split: ledger_reply.splits sum.splits prod.splits if_splits)
  then show ?thesis
  proof cases
    case posted
    note u = update_transfer_inv [OF inv cfg posted(1) r, unfolded posted(2)]
    have "pay_inv A cfg pdb' \<and> transfers pdb' = map (\<lambda>t. if t = r then complete_row env x sb rb r else t) (transfers pdb)"
      using u row_ok_ends(1) [OF row r(2)] by (simp add: logged_status_append event_of_def)
    then show ?thesis using rin by (auto simp: image_iff)
  next
    case failed
    note u = update_transfer_inv [OF inv cfg failed(1) r, unfolded failed(2)]
    have "pay_inv A cfg pdb' \<and> transfers pdb' = map (\<lambda>t. if t = r then fail_row env code r else t) (transfers pdb)"
      using u row_ok_ends(2) [OF row r(2)] by (simp add: logged_status_append event_of_def)
    then show ?thesis using rin by (auto simp: image_iff)
  qed
qed (use inv in simp)

lemma keys_distinct: "pay_inv A cfg pdb \<Longrightarrow> distinct (map tw_id (transfers pdb))"
  by (simp add: pay_inv_def keys_ok_def)

text \<open>Claiming one row cannot fail, since it sets no journal.\<close>

lemma claim_one:
  assumes inv: "pay_inv A cfg pdb" "config_ok cfg"
    and r: "find_by tw_id x (transfers pdb) = Some r" "tw_status r = T_PROCESSING"
    and f: "f = review_row env \<and> tw_attemptCount r + 1 \<ge> maxProcessingAttempts cfg
            \<and> es = [event_of env x EV_REQUIRES_REVIEW (Some T_PROCESSING) (Some T_REQUIRES_REVIEW) None]
      \<or> f = retry_row env cfg \<and> \<not> tw_attemptCount r + 1 \<ge> maxProcessingAttempts cfg
            \<and> es = [event_of env x EV_RECOVERY_RETRY None None None]"
  obtains pdb' where "update_transfer x f es pdb = Inr (f r, pdb')" "pay_inv A cfg pdb'"
    "transfers pdb' = map (\<lambda>t. if t = r then f r else t) (transfers pdb)"
proof -
  from find_by_Some [OF r(1)] have rin: "r \<in> set (transfers pdb)" "tw_id r = x" by auto
  then have row: "row_ok A cfg r" using inv by (simp add: pay_inv_def)
  have log: "logged_status x (transferEvents pdb) = Some T_PROCESSING"
    using inv rin r(2) by (auto simp: pay_inv_def log_ok_def)
  have "tw_ledgerJournalId (f r) = None" using f row r(2) by (auto simp: row_defs)
  with r(1) obtain pdb' where up: "update_transfer x f es pdb = Inr (f r, pdb')" by (auto simp: update_transfer_def)
  have "core (f r) = core r" "row_ok A cfg (f r)" "te_transferId ` set es \<subseteq> {x}"
    "logged_status x (transferEvents pdb @ es) = Some (tw_status (f r))"
    using f row_ok_claims [OF row r(2)] log r(2) by (auto simp: logged_status_append event_of_def)
  from update_transfer_inv [OF inv up r(1) _ this] r(2) that [OF up] show ?thesis by simp
qed

lemma claim_loop_inv:
  assumes "pay_inv A cfg pdb" "config_ok cfg" "distinct ids"
    and "\<forall>x \<in> set ids. \<exists>t \<in> set (transfers pdb). tw_id t = x \<and> tw_status t = T_PROCESSING"
  shows "\<exists>rows' pdb'. claim_loop env cfg ids pdb rows = Inr (rows @ rows', pdb') \<and> pay_inv A cfg pdb'
    \<and> map core (transfers pdb') = map core (transfers pdb)
    \<and> (\<forall>u \<in> set (transfers pdb). tw_id u \<notin> set ids \<longrightarrow> u \<in> set (transfers pdb'))
    \<and> distinct (map tw_id rows') \<and> tw_id ` set rows' \<subseteq> set ids
    \<and> (\<forall>r \<in> set rows'. r \<in> set (transfers pdb') \<and> tw_status r = T_PROCESSING)"
  using assms
proof (induction ids arbitrary: pdb rows)
  case (Cons x ids)
  from Cons.prems(4) obtain r where r0: "r \<in> set (transfers pdb)" "tw_id r = x" "tw_status r = T_PROCESSING" by auto
  then have r: "find_by tw_id x (transfers pdb) = Some r" "tw_status r = T_PROCESSING"
    using find_by_distinct [OF keys_distinct [OF Cons.prems(1)] r0(1)] by simp_all
  from find_by_Some [OF r(1)] have rin: "r \<in> set (transfers pdb)" "tw_id r = x" by auto
  define review where "review = (tw_attemptCount r + 1 \<ge> maxProcessingAttempts cfg)"
  define f where "f = (if review then review_row env else retry_row env cfg)"
  define es where "es = (if review then [event_of env x EV_REQUIRES_REVIEW (Some T_PROCESSING) (Some T_REQUIRES_REVIEW) None]
    else [event_of env x EV_RECOVERY_RETRY None None None])"
  obtain pdb' where up: "update_transfer x f es pdb = Inr (f r, pdb')" and inv': "pay_inv A cfg pdb'"
    and tr: "transfers pdb' = map (\<lambda>t. if t = r then f r else t) (transfers pdb)"
    by (rule claim_one [OF Cons.prems(1,2) r, of f env es]) (auto simp: f_def es_def review_def)
  have cf: "core (f r) = core r" by (simp add: f_def)
  have step: "claim_loop env cfg (x # ids) pdb rows = claim_loop env cfg ids pdb' (if review then rows else rows @ [f r])"
    using up r(1) by (auto simp: f_def es_def review_def)
  have "\<forall>y \<in> set ids. \<exists>t \<in> set (transfers pdb'). tw_id t = y \<and> tw_status t = T_PROCESSING"
  proof
    fix y assume y: "y \<in> set ids"
    with Cons.prems(4) obtain t where t: "t \<in> set (transfers pdb)" "tw_id t = y" "tw_status t = T_PROCESSING" by auto
    with y Cons.prems(3) rin have "t \<noteq> r" by auto
    with t show "\<exists>t \<in> set (transfers pdb'). tw_id t = y \<and> tw_status t = T_PROCESSING"
      by (auto simp: tr intro!: bexI [of _ t])
  qed
  from Cons.IH [OF inv' Cons.prems(2) _ this, of "if review then rows else rows @ [f r]"] Cons.prems(3)
  obtain rows' pdb'' where IH: "claim_loop env cfg ids pdb' (if review then rows else rows @ [f r])
        = Inr ((if review then rows else rows @ [f r]) @ rows', pdb'')" "pay_inv A cfg pdb''"
    "map core (transfers pdb'') = map core (transfers pdb')"
    "\<forall>u \<in> set (transfers pdb'). tw_id u \<notin> set ids \<longrightarrow> u \<in> set (transfers pdb'')"
    "distinct (map tw_id rows')" "tw_id ` set rows' \<subseteq> set ids"
    "\<forall>q \<in> set rows'. q \<in> set (transfers pdb'') \<and> tw_status q = T_PROCESSING" by auto
  have fr: "f r \<in> set (transfers pdb'')" using IH(4) rin Cons.prems(3) by (auto simp: tr f_def)
  have "\<forall>u \<in> set (transfers pdb). tw_id u \<notin> set (x # ids) \<longrightarrow> u \<in> set (transfers pdb'')"
    using IH(4) rin by (auto simp: tr image_iff)
  moreover have "map core (transfers pdb'') = map core (transfers pdb)" by (simp add: IH(3) tr cf)
  ultimately show ?case
    using IH(1,2,5,6,7) fr Cons.prems(3) rin r(2) unfolding step
    by (intro exI [of _ "(if review then [] else [f r]) @ rows'"] exI [of _ pdb'']) (auto simp: f_def)
qed simp

lemma recovery_ids_spec:
  assumes "distinct (map tw_id (transfers pdb))"
  shows "distinct (recovery_ids env cfg pdb)"
    and "x \<in> set (recovery_ids env cfg pdb) \<Longrightarrow> \<exists>t \<in> set (transfers pdb). tw_id t = x \<and> recovery_due env cfg t"
proof -
  have "distinct (map tw_id (sort_key (\<lambda>t. (tw_updatedAt t, tw_id t)) (filter (recovery_due env cfg) (transfers pdb))))"
    using assms by (auto simp: distinct_map inj_on_def)
  then show "distinct (recovery_ids env cfg pdb)" by (simp add: recovery_ids_def del: distinct_map)
  assume "x \<in> set (recovery_ids env cfg pdb)"
  then show "\<exists>t \<in> set (transfers pdb). tw_id t = x \<and> recovery_due env cfg t"
    by (auto simp: recovery_ids_def dest!: in_set_takeD)
qed

text \<open>Claiming always succeeds on a good database.\<close>

lemma claim_inv:
  assumes inv: "pay_inv A cfg pdb" "config_ok cfg"
  shows "\<exists>rows pdb'. claim env cfg pdb = Inr ((length (recovery_ids env cfg pdb), rows), pdb') \<and> pay_inv A cfg pdb'
    \<and> map core (transfers pdb') = map core (transfers pdb)
    \<and> (\<forall>u \<in> set (transfers pdb). tw_id u \<notin> set (recovery_ids env cfg pdb) \<longrightarrow> u \<in> set (transfers pdb'))
    \<and> distinct (map tw_id rows) \<and> tw_id ` set rows \<subseteq> set (recovery_ids env cfg pdb)
    \<and> (\<forall>r \<in> set rows. r \<in> set (transfers pdb') \<and> tw_status r = T_PROCESSING)"
proof -
  note d = keys_distinct [OF inv(1)]
  have "\<forall>x \<in> set (recovery_ids env cfg pdb). \<exists>t \<in> set (transfers pdb). tw_id t = x \<and> tw_status t = T_PROCESSING"
    using recovery_ids_spec(2) [OF d] by (fastforce simp: recovery_due_def)
  from claim_loop_inv [OF inv recovery_ids_spec(1) [OF d] this, where env = env and rows = "[]"]
  show ?thesis by (auto simp: claim_def Let_def)
qed

section \<open>Reachable worlds\<close>

lemma processing_mono:
  assumes "X \<subseteq> processing_ids pdb" and "\<forall>u \<in> set (transfers pdb). tw_id u \<in> X \<longrightarrow> u \<in> set (transfers pdb')"
  shows "X \<subseteq> processing_ids pdb'"
proof
  fix x assume x: "x \<in> X"
  with assms(1) obtain u where "u \<in> set (transfers pdb)" "tw_id u = x" "tw_status u = T_PROCESSING"
    by (auto simp: processing_ids_def)
  with assms(2) x show "x \<in> processing_ids pdb'" by (auto simp: processing_ids_def)
qed

lemma flight_ok_mono:
  assumes fo: "flight_ok A w"
    and d: "LeasesHold \<in> A \<Longrightarrow> distinct (flying w')" "set (flying w') \<subseteq> set (flying w)" "carried w' \<subseteq> carried w"
    and tr: "core ` set (transfers (w_db w)) \<subseteq> core ` set (transfers (w_db w'))"
      "LeasesHold \<in> A \<Longrightarrow> \<forall>u \<in> set (transfers (w_db w)). tw_id u \<in> set (flying w') \<longrightarrow> u \<in> set (transfers (w_db w'))"
  shows "flight_ok A w'"
proof -
  have "set (flying w') \<subseteq> processing_ids (w_db w')" if A: "LeasesHold \<in> A"
    by (rule processing_mono [OF _ tr(2) [OF A]]) (use fo d(2) A in \<open>auto simp: flight_ok_def\<close>)
  moreover have "core ` carried w' \<subseteq> core ` set (transfers (w_db w'))"
  proof -
    have "core ` carried w' \<subseteq> core ` carried w" by (rule image_mono [OF d(3)])
    also have "\<dots> \<subseteq> core ` set (transfers (w_db w))" using fo by (simp add: flight_ok_def)
    finally show ?thesis using tr(1) by (rule subset_trans)
  qed
  ultimately show ?thesis using d(1) by (simp add: flight_ok_def)
qed

lemma flight_ok_add:
  assumes fo: "flight_ok A w" and rows: "distinct (map tw_id rows)" "LeasesHold \<in> A \<Longrightarrow> tw_id ` set rows \<inter> set (flying w) = {}"
    "\<forall>r \<in> set rows. r \<in> set (transfers pdb') \<and> tw_status r = T_PROCESSING"
    and tr: "core ` set (transfers (w_db w)) \<subseteq> core ` set (transfers pdb')"
      "LeasesHold \<in> A \<Longrightarrow> \<forall>u \<in> set (transfers (w_db w)). tw_id u \<in> set (flying w) \<longrightarrow> u \<in> set (transfers pdb')"
  shows "flight_ok A (w\<lparr>w_db := pdb', w_flight := w_flight w @ rows\<rparr>)"
proof -
  let ?w = "w\<lparr>w_db := pdb', w_flight := w_flight w @ rows\<rparr>"
  have ids: "set (flying ?w) = set (flying w) \<union> tw_id ` set rows" by (auto simp: flying_def)
  have ca: "carried ?w = carried w \<union> set rows" by (auto simp: carried_def)
  have "distinct (flying ?w)" if "LeasesHold \<in> A" using fo rows(1,2) that by (auto simp: flight_ok_def flying_def)
  moreover have "set (flying w) \<subseteq> processing_ids pdb'" if A: "LeasesHold \<in> A"
    by (rule processing_mono [OF _ tr(2) [OF A]]) (use fo A in \<open>simp add: flight_ok_def\<close>)
  moreover have "tw_id ` set rows \<subseteq> processing_ids pdb'" using rows(3) by (auto simp: processing_ids_def)
  moreover have "core ` set rows \<subseteq> core ` set (transfers pdb')" using rows(3) by blast
  moreover have "core ` carried w \<subseteq> core ` set (transfers pdb')"
    by (rule subset_trans [OF _ tr(1)]) (use fo in \<open>simp add: flight_ok_def\<close>)
  ultimately show ?thesis by (simp add: flight_ok_def ids ca image_Un)
qed

text \<open>What is in flight has a row; with leases that hold, one in progress.\<close>

lemma flying_carried: "set (flying w) = tw_id ` carried w"
  by (auto simp: flying_def carried_def)

lemma flying_rows:
  assumes "flight_ok A w"
  shows "set (flying w) \<subseteq> tw_id ` set (transfers (w_db w))"
proof
  fix x assume "x \<in> set (flying w)"
  then obtain c where c: "c \<in> carried w" "tw_id c = x" by (auto simp: flying_carried)
  with assms obtain t where "t \<in> set (transfers (w_db w))" "core c = core t" by (auto simp: flight_ok_def)
  with c(2) show "x \<in> tw_id ` set (transfers (w_db w))" by (auto dest!: core_eqD)
qed

lemma flying_row:
  assumes inv: "pay_inv A cfg (w_db w)" and fo: "flight_ok A w" and x: "x \<in> set (flying w)"
  obtains r where "find_by tw_id x (transfers (w_db w)) = Some r" "LeasesHold \<in> A \<longrightarrow> tw_status r = T_PROCESSING"
proof -
  from flying_rows [OF fo] x obtain r where r: "r \<in> set (transfers (w_db w))" "tw_id r = x" by auto
  have "tw_status r = T_PROCESSING" if "LeasesHold \<in> A"
  proof -
    from that fo x obtain u where "u \<in> set (transfers (w_db w))" "tw_id u = x" "tw_status u = T_PROCESSING"
      by (auto simp: flight_ok_def processing_ids_def)
    with r keys_distinct [OF inv] show ?thesis by (auto simp: distinct_map dest: inj_onD)
  qed
  with that r find_by_distinct [OF keys_distinct [OF inv] r(1)] show ?thesis by simp
qed

lemma pay_step_inv:
  assumes "pay_step cfg call A w w'" and w: "world_inv A cfg w" and cfg: "config_ok cfg"
  shows "world_inv A cfg w'"
proof -
  from w have inv: "pay_inv A cfg (w_db w)" and fo: "flight_ok A w" by (simp_all add: world_inv_def)
  show ?thesis using assms(1)
  proof cases
    case (step_intent env ask input cid out pdb')
    then show ?thesis using w createIntent_inv [of A cfg "w_db w" env ask input cid out pdb']
      by (simp add: world_inv_def flight_ok_def flying_def carried_def processing_ids_def)
  next
    case (step_authorize env customer token pdb0 i)
    then show ?thesis using w authorize_inv [of A cfg "w_db w" env i]
      by (simp add: world_inv_def flight_ok_def flying_def carried_def processing_ids_def)
  next
    case (step_prepare env0 risk input cid pdb0 env t pdb')
    note p = prepare_inv [OF inv cfg step_prepare(3,4)]
    have "tw_id t \<notin> set (flying w)" using p flying_rows [OF fo] by auto
    then have "flight_ok A (w\<lparr>w_db := pdb', w_flight := w_flight w @ [t]\<rparr>)"
      using p by (intro flight_ok_add [OF fo]) auto
    then show ?thesis using p by (simp add: world_inv_def step_prepare(1))
  next
    case (step_call xs t ys cid reply s')
    then have "LeasesHold \<in> A \<Longrightarrow> distinct (flying w')" "set (flying w') \<subseteq> set (flying w)" "carried w' \<subseteq> carried w" "w_db w' = w_db w"
      using fo by (auto simp: flight_ok_def flying_def carried_def)
    then show ?thesis using w flight_ok_mono [of A w w'] by (simp add: world_inv_def)
  next
    case (step_record xs t reply ys env out pdb')
    have fl: "tw_id t \<in> set (flying w)" "LeasesHold \<in> A \<Longrightarrow> tw_id t \<notin> set (flying w')" "LeasesHold \<in> A \<Longrightarrow> distinct (flying w')"
      "set (flying w') \<subseteq> set (flying w)" "carried w' \<subseteq> carried w"
      using fo step_record(2) by (auto simp: step_record(1) flying_def flight_ok_def carried_def)
    obtain r where "find_by tw_id (tw_id t) (transfers (w_db w)) = Some r" "LeasesHold \<in> A \<longrightarrow> tw_status r = T_PROCESSING"
      by (rule flying_row [OF inv fo fl(1)])
    note s = settle_reply_inv [OF inv cfg this step_record(3)]
    then have "core ` set (transfers (w_db w)) = core ` set (transfers pdb')" by (metis image_set)
    then have "flight_ok A w'"
      by (intro flight_ok_mono [OF fo fl(3,4,5)]) (use s step_record(1) fl(2) in auto)
    then show ?thesis using s by (simp add: world_inv_def step_record(1))
  next
    case (step_claim env n rows pdb')
    from claim_inv [OF inv cfg, of env] step_claim(2)
    have c: "pay_inv A cfg pdb'" "map core (transfers pdb') = map core (transfers (w_db w))"
      "\<forall>u \<in> set (transfers (w_db w)). tw_id u \<notin> set (recovery_ids env cfg (w_db w)) \<longrightarrow> u \<in> set (transfers pdb')"
      "distinct (map tw_id rows)" "tw_id ` set rows \<subseteq> set (recovery_ids env cfg (w_db w))"
      "\<forall>r \<in> set rows. r \<in> set (transfers pdb') \<and> tw_status r = T_PROCESSING" by auto
    have "core ` set (transfers (w_db w)) \<subseteq> core ` set (transfers pdb')" using c(2) by (metis image_set order_refl)
    then have "flight_ok A (w\<lparr>w_db := pdb', w_flight := w_flight w @ rows\<rparr>)"
      using step_claim(3) c(3,5) by (intro flight_ok_add [OF fo c(4) _ c(6)]) auto
    then show ?thesis using c(1) by (simp add: world_inv_def step_claim(1))
  next
    case (step_crash P Q)
    have "LeasesHold \<in> A \<Longrightarrow> distinct (flying w')"
      using fo by (auto simp: flight_ok_def step_crash flying_def distinct_map_filter)
    moreover have "set (flying w') \<subseteq> set (flying w)" "carried w' \<subseteq> carried w" "w_db w' = w_db w"
      by (auto simp: step_crash flying_def carried_def)
    ultimately show ?thesis using w flight_ok_mono [of A w w'] by (simp add: world_inv_def)
  qed
qed

definition empty_world :: "'s \<Rightarrow> 's world" where
  "empty_world s =
     \<lparr>w_db = \<lparr>transferIntents = [], transfers = [], transferEvents = []\<rparr>, w_flight = [], w_replies = [], w_ledger = s\<rparr>"

definition pay_reaches :: "payments_config \<Rightarrow> 's ledger_call \<Rightarrow> assumption set \<Rightarrow> 's world \<Rightarrow> 's world \<Rightarrow> bool" where
  "pay_reaches cfg call A = (pay_step cfg call A)\<^sup>*\<^sup>*"

lemma config_ok_loaded: "createPaymentsConfig url penv = Inr cfg \<Longrightarrow> config_ok cfg"
  using createPaymentsConfig_ok [of url penv cfg] by (simp add: config_ok_def)

lemma empty_world_inv: "config_ok cfg \<Longrightarrow> world_inv A cfg (empty_world s)"
  by (auto simp: empty_world_def world_inv_def pay_inv_def keys_ok_def journals_ok_def links_ok_def amounts_ok_def
      log_ok_def limit_ok_def day_sum_def flight_ok_def flying_def carried_def config_ok_def)

lemma pay_reaches_inv:
  assumes "pay_reaches cfg call A w w'" and "world_inv A cfg w" and "config_ok cfg"
  shows "world_inv A cfg w'"
  using assms unfolding pay_reaches_def by (induction rule: rtranclp_induct) (auto intro: pay_step_inv)

section \<open>The handlers are made of these steps\<close>

lemma pay_reaches_trans: "pay_reaches cfg call A a b \<Longrightarrow> pay_reaches cfg call A b c \<Longrightarrow> pay_reaches cfg call A a c"
  unfolding pay_reaches_def by (rule rtranclp_trans)

lemma settle_steps:
  assumes ok: "settle env call t cid (w_db w) (w_ledger w) = (out, pdb', s')" and fl: "w_flight w = xs @ t # ys"
  shows "pay_reaches cfg call A w (w\<lparr>w_db := pdb', w_flight := xs @ ys, w_ledger := s'\<rparr>)"
proof -
  obtain reply where c: "call (settle_command t) cid (w_ledger w) = (reply, s')"
    and r: "settle_reply env t reply (w_db w) = (out, pdb')"
    using ok by (auto simp: settle_def split: prod.splits)
  let ?w1 = "w\<lparr>w_flight := xs @ ys, w_replies := w_replies w @ [(t, reply)], w_ledger := s'\<rparr>"
  have "pay_step cfg call A w ?w1" using fl c by (rule step_call)
  moreover have "pay_step cfg call A ?w1 (?w1\<lparr>w_db := pdb', w_replies := w_replies w @ []\<rparr>)"
    by (rule step_record [where t = t and reply = reply and env = env and out = out]) (simp_all add: r)
  moreover have "?w1\<lparr>w_db := pdb', w_replies := w_replies w @ []\<rparr>
      = w\<lparr>w_db := pdb', w_flight := xs @ ys, w_ledger := s'\<rparr>" by (cases w) simp
  ultimately show ?thesis unfolding pay_reaches_def by (metis converse_rtranclp_into_rtranclp r_into_rtranclp)
qed

lemma settle_all_steps:
  assumes "settle_all env call rows (w_db w) (w_ledger w) = (out, pdb', s')" and "w_flight w = fs @ rows"
  shows "\<exists>w'. pay_reaches cfg call A w w' \<and> w_db w' = pdb' \<and> w_ledger w' = s'"
  using assms
proof (induction rows arbitrary: w)
  case Nil
  then show ?case by (auto simp: pay_reaches_def)
next
  case (Cons t rows)
  obtain o1 p1 s1 where st: "settle env call t (tw_correlationId t) (w_db w) (w_ledger w) = (o1, p1, s1)"
    by (metis prod.exhaust)
  let ?w = "w\<lparr>w_db := p1, w_flight := fs @ rows, w_ledger := s1\<rparr>"
  from settle_steps [OF st Cons.prems(2)] have one: "pay_reaches cfg call A w ?w" .
  show ?case
  proof (cases o1)
    case (Inl e)
    then show ?thesis using Cons.prems(1) st one by (intro exI [of _ ?w]) auto
  next
    case (Inr x)
    then have "settle_all env call rows (w_db ?w) (w_ledger ?w) = (out, pdb', s')" using Cons.prems(1) st by simp
    from Cons.IH [OF this] obtain w' where "pay_reaches cfg call A ?w w'" "w_db w' = pdb'" "w_ledger w' = s'" by auto
    with pay_reaches_trans [OF one] show ?thesis by blast
  qed
qed

lemma confirm_transaction_replayed:
  "confirm_transaction env cfg input cid pdb = Inr ((t, True), pdb') \<Longrightarrow> pdb' = pdb"
  by (auto simp: confirm_transaction_def res_simps split: option.splits if_splits)

lemma confirm_steps:
  assumes ok: "confirm env cfg risk call input cid pdb0 (w_db w) (w_ledger w) = (out, pdb', s')"
    and clock: "ClocksAgree \<in> A \<longrightarrow> utc_midnight (p_dbNow env) = utc_midnight (p_now env)"
  shows "\<exists>w'. pay_reaches cfg call A w w' \<and> w_db w' = pdb' \<and> w_ledger w' = s'"
proof (cases "pdb' = w_db w \<and> s' = w_ledger w")
  case True
  then show ?thesis by (auto simp: pay_reaches_def)
next
  case False
  then obtain t rep p1 where pf: "confirm_preflight env risk input cid pdb0 = Inr None"
    and tx: "confirm_transaction env cfg input cid (w_db w) = Inr ((t, rep), p1)"
    using ok by (auto simp: confirm_def split: sum.splits option.splits prod.splits if_splits)
  show ?thesis
  proof (cases rep)
    case True
    with False ok pf tx confirm_transaction_replayed [of env cfg input cid "w_db w" t p1] show ?thesis
      by (auto simp: confirm_def)
  next
    case False
    with tx have tx': "confirm_transaction env cfg input cid (w_db w) = Inr ((t, False), p1)" by simp
    let ?w = "w\<lparr>w_db := p1, w_flight := w_flight w @ [t]\<rparr>"
    have one: "pay_reaches cfg call A w ?w" unfolding pay_reaches_def
      by (rule r_into_rtranclp) (rule step_prepare [OF pf tx' clock])
    have "tw_status t = T_PROCESSING"
      by (rule confirm_transaction_new [OF tx']) (simp add: new_transfer_def)
    then obtain o2 where "settle env call t cid p1 (w_ledger w) = (o2, pdb', s')"
      using ok pf tx' by (auto simp: confirm_def split: prod.splits)
    then have "settle env call t cid (w_db ?w) (w_ledger ?w) = (o2, pdb', s')" by simp
    from settle_steps [OF this, of "w_flight w" "[]" cfg]
    have "pay_reaches cfg call A w (?w\<lparr>w_db := pdb', w_flight := w_flight w @ [], w_ledger := s'\<rparr>)"
      by (intro pay_reaches_trans [OF one]) simp
    then show ?thesis by (intro exI [of _ "?w\<lparr>w_db := pdb', w_flight := w_flight w @ [], w_ledger := s'\<rparr>"]) simp
  qed
qed

lemma recover_steps:
  assumes ok: "recover env cfg call (w_db w) (w_ledger w) = (out, pdb', s')"
    and alone: "LeasesHold \<in> A \<longrightarrow> set (recovery_ids env cfg (w_db w)) \<inter> set (flying w) = {}"
  shows "\<exists>w'. pay_reaches cfg call A w w' \<and> w_db w' = pdb' \<and> w_ledger w' = s'"
proof (cases "claim env cfg (w_db w)")
  case (Inl e)
  with ok show ?thesis by (auto simp: recover_def pay_reaches_def)
next
  case (Inr x)
  then obtain n rows p1 where cl: "claim env cfg (w_db w) = Inr ((n, rows), p1)" by (metis prod.exhaust)
  let ?w = "w\<lparr>w_db := p1, w_flight := w_flight w @ rows\<rparr>"
  have one: "pay_reaches cfg call A w ?w" unfolding pay_reaches_def
    by (rule r_into_rtranclp) (rule step_claim [OF cl alone])
  from ok cl obtain o2 where "settle_all env call rows (w_db ?w) (w_ledger ?w) = (o2, pdb', s')"
    by (auto simp: recover_def split: prod.splits)
  from settle_all_steps [OF this, of "w_flight w" cfg] pay_reaches_trans [OF one] show ?thesis by fastforce
qed

section \<open>What a step may change\<close>

lemma update_transfer_events:
  "update_transfer tid f es pdb = Inr (r, pdb') \<Longrightarrow> transferEvents pdb' = transferEvents pdb @ es"
  by (auto simp: update_transfer_def split: option.splits if_splits)

lemma settle_reply_events: "settle_reply env t reply pdb = (out, pdb') \<Longrightarrow> \<exists>es. transferEvents pdb' = transferEvents pdb @ es"
  by (auto simp: settle_reply_def record_settlement_def record_failure_def
      split: ledger_reply.splits sum.splits prod.splits if_splits dest!: update_transfer_events)

lemma claim_loop_events:
  "claim_loop env cfg ids pdb rows = Inr (rows', pdb') \<Longrightarrow> \<exists>es. transferEvents pdb' = transferEvents pdb @ es"
proof (induction env cfg ids pdb rows rule: claim_loop.induct)
  case (2 env cfg i ids pdb rows)
  from "2.prems" obtain f es r p1 rs where "update_transfer i f es pdb = Inr (r, p1)"
    and "claim_loop env cfg ids p1 rs = Inr (rows', pdb')"
    and IH: "\<exists>es. transferEvents pdb' = transferEvents p1 @ es"
    using "2.IH" by (auto simp: res_simps split: option.splits if_splits)
  then show ?case by (auto dest!: update_transfer_events)
qed simp

lemma processing_unique:
  assumes "pay_inv A cfg pdb" and "x \<in> processing_ids pdb" and "u \<in> set (transfers pdb)" "tw_status u \<noteq> T_PROCESSING"
  shows "tw_id u \<noteq> x"
  using assms keys_distinct [OF assms(1)] by (auto simp: processing_ids_def distinct_map dest: inj_onD)

lemma pay_step_frame:
  assumes "pay_step cfg call A w w'" and w: "world_inv A cfg w" and cfg: "config_ok cfg"
  shows "(LeasesHold \<in> A \<longrightarrow> (\<forall>t \<in> set (transfers (w_db w)). tw_status t \<noteq> T_PROCESSING \<longrightarrow> t \<in> set (transfers (w_db w'))))
    \<and> (\<exists>es. transferEvents (w_db w') = transferEvents (w_db w) @ es)
    \<and> core ` set (transfers (w_db w)) \<subseteq> core ` set (transfers (w_db w'))"
proof -
  from w have inv: "pay_inv A cfg (w_db w)" and fo: "flight_ok A w" by (simp_all add: world_inv_def)
  show ?thesis using assms(1)
  proof cases
    case (step_intent env ask input cid out pdb')
    then show ?thesis
      by (auto simp: createIntent_def create_intent_row_def res_simps split: sum.splits if_splits prod.splits)
  next
    case (step_authorize env customer token pdb0 i)
    then show ?thesis by (auto simp: authorize_write_def)
  next
    case (step_prepare env0 risk input cid pdb0 env t pdb')
    note p = prepare_inv [OF inv cfg step_prepare(3,4)]
    have "create_transfer env t (w_db w) = Inr pdb'" by (rule confirm_transaction_new [OF step_prepare(3)])
    then show ?thesis using p by (auto simp: step_prepare(1) create_transfer_def split: if_splits)
  next
    case (step_record xs t reply ys env out pdb')
    have "tw_id t \<in> set (flying w)" using step_record(2) by (simp add: flying_def)
    then obtain r where r: "find_by tw_id (tw_id t) (transfers (w_db w)) = Some r" "LeasesHold \<in> A \<longrightarrow> tw_status r = T_PROCESSING"
      by (rule flying_row [OF inv fo])
    note s = settle_reply_inv [OF inv cfg r step_record(3)]
    then have "core ` set (transfers (w_db w)) = core ` set (transfers pdb')" by (metis image_set)
    moreover have "tw_id t \<in> processing_ids (w_db w)" if "LeasesHold \<in> A"
      using find_by_Some [OF r(1)] r(2) that by (auto simp: processing_ids_def intro: rev_image_eqI)
    ultimately show ?thesis using s processing_unique [OF inv] settle_reply_events [OF step_record(3)]
      by (auto simp: step_record(1))
  next
    case (step_claim env n rows pdb')
    have d: "distinct (map tw_id (transfers (w_db w)))" by (rule keys_distinct [OF inv])
    have due: "tw_id u \<notin> set (recovery_ids env cfg (w_db w))"
      if "u \<in> set (transfers (w_db w))" "tw_status u \<noteq> T_PROCESSING" for u
    proof
      assume "tw_id u \<in> set (recovery_ids env cfg (w_db w))"
      from recovery_ids_spec(2) [OF d this] have "tw_id u \<in> processing_ids (w_db w)"
        by (auto simp: recovery_due_def processing_ids_def intro: rev_image_eqI)
      with processing_unique [OF inv _ that] show False by blast
    qed
    from claim_inv [OF inv cfg, of env] step_claim(2)
    have "map core (transfers pdb') = map core (transfers (w_db w))"
      "\<forall>u \<in> set (transfers (w_db w)). tw_id u \<notin> set (recovery_ids env cfg (w_db w)) \<longrightarrow> u \<in> set (transfers pdb')" by auto
    moreover have "\<exists>es. transferEvents pdb' = transferEvents (w_db w) @ es"
      using step_claim(2) by (auto simp: claim_def Let_def res_simps dest!: claim_loop_events)
    ultimately show ?thesis using due by (simp add: step_claim(1)) (metis image_set order_refl)
  qed simp_all
qed

section \<open>A concrete run\<close>

definition demo_cfg :: payments_config where
  "demo_cfg =
     \<lparr>pc_nodeEnvironment = ''dev'', pc_host = ''h'', pc_port = 4104, pc_databaseUrl = ''d'',
      pc_internalToken = ''t1'', pc_ledgerServiceUrl = ''http://l'', pc_ledgerInternalToken = ''t2'',
      minTransferMinor = 1, maxTransferMinor = 700, dailyOutgoingLimitMinor = 900, intentTtlSeconds = 300,
      pc_httpTimeoutMs = 5000, recoveryStaleSeconds = 30, maxProcessingAttempts = 5, pc_idempotencyRetentionHours = 24,
      pc_riskServiceUrl = ''http://r'', pc_riskInternalToken = ''t3'',
      pc_riskPaymentsSourceToken = ''t4'', pc_riskTimeoutMs = 2000,
      pc_qrSigningKey = ''q1'', qrDynamicTtlSeconds = 300, qrStaticTtlHours = 8760,
      pc_redisUrl = ''e'', pc_redisKeyPrefix = ''p:''\<rparr>"

definition demo_penv :: process_env where
  "demo_penv = map_of
     [(''PAYMENTS_INTERNAL_TOKEN'', ''t1''), (''LEDGER_INTERNAL_TOKEN'', ''t2''), (''PAYMENTS_QR_SIGNING_KEY'', ''q1''),
      (''PAYMENTS_MIN_TRANSFER_MINOR'', ''1''), (''PAYMENTS_MAX_TRANSFER_MINOR'', '' 700 ''),
      (''PAYMENTS_DAILY_OUTGOING_LIMIT_MINOR'', ''900''), (''NODE_ENV'', ''dev''), (''PAYMENTS_HOST'', ''h''),
      (''PAYMENTS_DATABASE_URL'', ''d''), (''LEDGER_SERVICE_URL'', ''http://l''), (''RISK_SERVICE_URL'', ''http://r''),
      (''RISK_INTERNAL_TOKEN'', ''t3''), (''RISK_PAYMENTS_SOURCE_TOKEN'', ''t4''), (''REDIS_URL'', ''e''),
      (''PAYMENTS_REDIS_PREFIX'', ''p:'')]"

definition demo_pay_env :: "time \<Rightarrow> payments_env" where
  "demo_pay_env now =
     \<lparr>p_sha256 = (\<lambda>x. CHR ''#'' # x), p_uuid = (\<lambda>n. ''transfer-0001''),
      p_token = ''token-token-token-token-token-token-token-token'', p_hex = ''ABCDEF0123456789ABCDEF01'',
      p_now = now, p_dbNow = now, p_isUuid = (\<lambda>_. True)\<rparr>"

definition demo_intent_request :: intent_request where
  "demo_intent_request = \<lparr>ir_senderCustomerId = ''alice'', ir_sourceAccountId = ''acc-alice'',
     ir_recipientReference = ''AEGIS-AAAA-AAAA-BBB2'', ir_amount = ''6.00''\<rparr>"

definition demo_confirmation :: confirmation where
  "demo_confirmation = \<lparr>cf_senderCustomerId = ''alice'',
     cf_intentToken = ''token-token-token-token-token-token-token-token'', cf_idempotencyKey = ''key-key-key-key-1''\<rparr>"

definition calm_risk :: risk_service where
  "calm_risk = \<lparr>rs_controls = (\<lambda>_ _. RiskAnswer True), rs_assess = (\<lambda>_. RiskAnswer ALLOW)\<rparr>"

definition demo_call :: "network \<Rightarrow> ledger_db ledger_call" where
  "demo_call net = (\<lambda>cmd cid ldb. ledger_transfer demo_env net cid cmd ldb)"

definition demo_intent_db :: payments_db where
  "demo_intent_db =
     snd (createIntent (demo_pay_env 1000) demo_cfg (\<lambda>p. ledger_preview demo_env DELIVERED p demo_bank) demo_intent_request
       ''cid'' \<lparr>transferIntents = [], transfers = [], transferEvents = []\<rparr>)"

definition demo_authorized_db :: payments_db where
  "demo_authorized_db =
     (case authorize (demo_pay_env 2000) ''alice'' (cf_intentToken demo_confirmation) demo_intent_db of
        Inr pdb \<Rightarrow> pdb | Inl _ \<Rightarrow> demo_intent_db)"

definition demo_confirm :: "network \<Rightarrow> (payments_error, transfer_detail) res \<times> payments_db \<times> ledger_db" where
  "demo_confirm net = confirm (demo_pay_env 3000) demo_cfg calm_risk (demo_call net) demo_confirmation ''cid''
     demo_authorized_db demo_authorized_db demo_bank"

lemma demo_cfg_loaded: "createPaymentsConfig demo_url_protocol demo_penv = Inr demo_cfg"
  by code_simp

definition demo_intent :: transfer_intent where
  "demo_intent =
     \<lparr>ti_id = ''transfer-0001'', ti_tokenHash = CHR ''#'' # cf_intentToken demo_confirmation,
      ti_senderCustomerId = ''alice'', ti_sourceAccountId = ''acc-alice'',
      ti_recipientPublicReference = ''AEGIS-AAAA-AAAA-BBB2'',
      ti_sourceMaskedReference = ''AEGIS-****-****-AAA2'', ti_recipientMaskedReference = ''AEGIS-****-****-BBB2'',
      ti_recipientCustomerId = ''bob'', ti_recipientAccountId = ''acc-bob'', ti_currency = ''LKR'',
      ti_amountMinor = 600, ti_sourceBalanceSnapshotMinor = 1000, ti_expiresAt = 301000,
      ti_authorizedAt = Some 2000, ti_consumedAt = None\<rparr>"

lemma demo_authorized_db_eq [code]:
  "demo_authorized_db = \<lparr>transferIntents = [demo_intent], transfers = [], transferEvents = []\<rparr>"
  by code_simp

lemma demo_confirm_completed:
  "map tw_status (transfers (fst (snd (demo_confirm DELIVERED)))) = [T_COMPLETED]"
  by code_simp

text \<open>The demonstration's intent, authorisation and confirmation, as steps against any ledger.\<close>

lemma demo_authorized_reached:
  "pay_reaches demo_cfg call A (empty_world s) (empty_world s\<lparr>w_db := demo_authorized_db\<rparr>)"
proof -
  let ?w0 = "empty_world s"
  let ?w1 = "?w0\<lparr>w_db := demo_intent_db\<rparr>"
  have "pay_step demo_cfg call A ?w0 ?w1"
    by (rule step_intent [where env = "demo_pay_env 1000" and ask = "\<lambda>p. ledger_preview demo_env DELIVERED p demo_bank"
          and input = demo_intent_request and cid = "''cid''"
          and out = "fst (createIntent (demo_pay_env 1000) demo_cfg (\<lambda>p. ledger_preview demo_env DELIVERED p demo_bank)
            demo_intent_request ''cid'' (w_db ?w0))"])
      (simp add: demo_intent_db_def empty_world_def)
  moreover have au: "authorize_lookup (demo_pay_env 2000) ''alice'' (cf_intentToken demo_confirmation) demo_intent_db = Inr (Some ''transfer-0001'')"
    by code_simp
  then have "demo_authorized_db = authorize_write (demo_pay_env 2000) ''transfer-0001'' (w_db ?w1)"
    by (simp add: demo_authorized_db_def authorize_def)
  with step_authorize [OF au, of demo_cfg call A ?w1]
  have "pay_step demo_cfg call A ?w1 (?w1\<lparr>w_db := demo_authorized_db\<rparr>)" by simp
  ultimately show ?thesis
    unfolding pay_reaches_def by (simp add: rtranclp.rtrancl_into_rtrancl)
qed

lemma demo_run_reached:
  assumes "confirm (demo_pay_env 3000) demo_cfg calm_risk call demo_confirmation ''cid''
      demo_authorized_db demo_authorized_db s = (out, pdb', s')"
  shows "\<exists>w. pay_reaches demo_cfg call A (empty_world s) w \<and> w_db w = pdb' \<and> w_ledger w = s'"
proof -
  let ?w = "empty_world s\<lparr>w_db := demo_authorized_db\<rparr>"
  have "confirm (demo_pay_env 3000) demo_cfg calm_risk call demo_confirmation ''cid''
      demo_authorized_db (w_db ?w) (w_ledger ?w) = (out, pdb', s')"
    using assms by (simp add: empty_world_def)
  from confirm_steps [OF this] obtain w' where w': "pay_reaches demo_cfg call A ?w w'" "w_db w' = pdb'" "w_ledger w' = s'"
    by (auto simp: demo_pay_env_def)
  have "pay_reaches demo_cfg call A (empty_world s) w'" by (rule pay_reaches_trans [OF demo_authorized_reached w'(1)])
  with w'(2,3) show ?thesis by blast
qed

lemma demo_world_reached:
  "\<exists>w. pay_reaches demo_cfg (demo_call DELIVERED) A (empty_world demo_bank) w
     \<and> w_db w = fst (snd (demo_confirm DELIVERED))"
  using demo_run_reached [of "demo_call DELIVERED" demo_bank "fst (demo_confirm DELIVERED)"
      "fst (snd (demo_confirm DELIVERED))" "snd (snd (demo_confirm DELIVERED))"]
  by (auto simp: demo_confirm_def)

section \<open>Properties\<close>

text \<open>C7: every state the payments service can reach is consistent.  Under any interleaving of requests,
  recovery runs, lost answers and crashes, overlapping settlements of one transfer included, starting from an
  empty database and with any ledger behind it, identifiers, intents, references, client keys and ledger
  journals are used by one transfer at most; every transfer copies an authorised and consumed intent, and every
  consumed intent has its transfer; amounts are within the configured bounds; a completed transfer carries its
  journal, postings and balances, a failed one a reason, one in progress neither, one under review has used up
  its attempts; the event log replays to the status; and whatever is in flight belongs to a transfer of the
  database.  What any further step does keeps what a row says about parties, accounts, amount, keys and
  creation, and only appends events.\<close>

theorem payments_state_consistent:
  assumes "createPaymentsConfig url penv = Inr cfg" and "pay_reaches cfg call {} (empty_world s) w"
  shows "keys_ok (w_db w) \<and> journals_ok (w_db w) \<and> links_ok (w_db w) \<and> amounts_ok cfg (w_db w) \<and> log_ok (w_db w)
    \<and> (\<forall>t \<in> set (transfers (w_db w)). row_safe cfg t)
    \<and> core ` (set (w_flight w) \<union> fst ` set (w_replies w)) \<subseteq> core ` set (transfers (w_db w))
    \<and> (\<forall>w'. pay_step cfg call {} w w' \<longrightarrow>
         (\<exists>es. transferEvents (w_db w') = transferEvents (w_db w) @ es)
         \<and> core ` set (transfers (w_db w)) \<subseteq> core ` set (transfers (w_db w')))"
proof -
  have c: "config_ok cfg" by (rule config_ok_loaded [OF assms(1)])
  have w: "world_inv {} cfg w" by (rule pay_reaches_inv [OF assms(2) empty_world_inv [OF c] c])
  with pay_step_frame [OF _ w c] show ?thesis
    by (simp add: world_inv_def pay_inv_def flight_ok_def row_ok_def carried_def)
qed

theorem payments_state_consistent_witness:
  "\<exists>w. pay_reaches demo_cfg (demo_call DELIVERED) {} (empty_world demo_bank) w \<and> journals_ok (w_db w)
     \<and> map tw_status (transfers (w_db w)) = [T_COMPLETED]"
proof -
  from demo_world_reached obtain w where w: "pay_reaches demo_cfg (demo_call DELIVERED) {} (empty_world demo_bank) w"
    "w_db w = fst (snd (demo_confirm DELIVERED))" by blast
  from payments_state_consistent [OF demo_cfg_loaded w(1)] w demo_confirm_completed show ?thesis by auto
qed

text \<open>C6: no customer sends more than the daily limit, as long as settlements of one transfer do not overlap
  and the clocks of the database and of the process are on the same day when a transfer is created.  Under
  these two assumptions, which the code does not enforce, in every reachable state, for every customer and
  every UTC day, the amounts of the customer's transfers created on that day that did not fail add up to at
  most the configured limit.  Without them each amount still lies between the configured minimum and
  maximum.\<close>

theorem daily_limit_holds:
  assumes "createPaymentsConfig url penv = Inr cfg" and "pay_reaches cfg call A (empty_world s) w"
  shows "(A = {LeasesHold, ClocksAgree} \<longrightarrow>
       sum_list (map tw_amountMinor (filter (\<lambda>t. tw_senderCustomerId t = c \<and> tw_status t \<noteq> T_FAILED
             \<and> utc_midnight (tw_createdAt t) = d) (transfers (w_db w)))) \<le> dailyOutgoingLimitMinor cfg)
    \<and> (\<forall>t \<in> set (transfers (w_db w)).
         minTransferMinor cfg \<le> tw_amountMinor t \<and> tw_amountMinor t \<le> maxTransferMinor cfg)"
proof -
  have r: "(st \<noteq> T_FAILED) = reserving st" for st by (cases st) (simp_all add: reserving_def)
  have "world_inv A cfg w"
    by (rule pay_reaches_inv [OF assms(2) empty_world_inv]) (rule config_ok_loaded [OF assms(1)])+
  then have inv: "pay_inv A cfg (w_db w)" by (simp add: world_inv_def)
  then have "\<forall>t \<in> set (transfers (w_db w)). minTransferMinor cfg \<le> tw_amountMinor t \<and> tw_amountMinor t \<le> maxTransferMinor cfg"
    by (fastforce simp: pay_inv_def links_ok_def copies_def amounts_ok_def)
  with inv show ?thesis by (simp add: r pay_inv_def limit_ok_def day_sum_def)
qed

theorem daily_limit_holds_witness:
  "\<exists>w. pay_reaches demo_cfg (demo_call DELIVERED) {LeasesHold, ClocksAgree} (empty_world demo_bank) w \<and> transfers (w_db w) \<noteq> []
     \<and> sum_list (map tw_amountMinor (filter (\<lambda>t. tw_senderCustomerId t = ''alice'' \<and> tw_status t \<noteq> T_FAILED
             \<and> utc_midnight (tw_createdAt t) = 0) (transfers (w_db w)))) \<le> 900"
proof -
  from demo_world_reached obtain w where
    w: "pay_reaches demo_cfg (demo_call DELIVERED) {LeasesHold, ClocksAgree} (empty_world demo_bank) w"
    "w_db w = fst (snd (demo_confirm DELIVERED))" by blast
  have "transfers (w_db w) \<noteq> []" using demo_confirm_completed w(2) by auto
  moreover have "dailyOutgoingLimitMinor demo_cfg = 900" by (simp add: demo_cfg_def)
  ultimately show ?thesis using daily_limit_holds [OF demo_cfg_loaded w(1), of "''alice''" 0] w(1) by auto
qed

text \<open>C8: as long as settlements of one transfer do not overlap, a finished transfer is final.  Under the
  assumption that recovery claims no row whose earlier settlement is still in flight, which the leases of the
  code do not guarantee, whatever happens next in any reachable state leaves every completed, failed or
  reviewed row exactly as it is; a completed row carries no reason of failure and a failed one no journal.\<close>

theorem finished_transfers_final:
  assumes "createPaymentsConfig url penv = Inr cfg" and "pay_reaches cfg call {LeasesHold} (empty_world s) w"
    and "pay_step cfg call {LeasesHold} w w'"
  shows "(\<forall>t \<in> set (transfers (w_db w)). tw_status t \<noteq> T_PROCESSING \<longrightarrow> t \<in> set (transfers (w_db w')))
    \<and> (\<forall>t \<in> set (transfers (w_db w)). (tw_status t = T_COMPLETED \<longrightarrow> tw_failureCode t = None)
         \<and> (tw_status t = T_FAILED \<longrightarrow> tw_ledgerJournalId t = None))"
proof -
  have c: "config_ok cfg" by (rule config_ok_loaded [OF assms(1)])
  have w: "world_inv {LeasesHold} cfg w" by (rule pay_reaches_inv [OF assms(2) empty_world_inv [OF c] c])
  with pay_step_frame [OF assms(3) w c] show ?thesis
    by (simp add: world_inv_def pay_inv_def row_ok_def row_single_def)
qed

theorem finished_transfers_final_witness:
  "\<exists>w w' t. pay_step demo_cfg (demo_call DELIVERED) {LeasesHold} w w' \<and> t \<in> set (transfers (w_db w))
     \<and> tw_status t = T_COMPLETED \<and> t \<in> set (transfers (w_db w'))"
proof -
  from demo_world_reached obtain w where w: "pay_reaches demo_cfg (demo_call DELIVERED) {LeasesHold} (empty_world demo_bank) w"
    "w_db w = fst (snd (demo_confirm DELIVERED))" by blast
  obtain t where t: "t \<in> set (transfers (w_db w))" "tw_status t = T_COMPLETED"
    using demo_confirm_completed w(2) by (auto simp: map_eq_Cons_conv)
  have s: "pay_step demo_cfg (demo_call DELIVERED) {LeasesHold} w
      (w\<lparr>w_flight := filter (\<lambda>_. False) (w_flight w), w_replies := filter (\<lambda>_. False) (w_replies w)\<rparr>)"
    by (rule step_crash)
  from finished_transfers_final [OF demo_cfg_loaded w(1) s] t s show ?thesis by fastforce
qed

end
