(* ===== verification/Settlement.thy ===== *)
theory Settlement
  imports PaymentsSteps
begin

text \<open>
  Payments and ledger together.  The payments handlers run against the ledger of the development: a script
  says, for each call in turn, with which clock and identifiers the ledger runs and what the network does to
  the request and the answer.
\<close>

section \<open>The ledger as payments sees it\<close>

text \<open>What payments needs of any ledger for its books to stay good: a call keeps them good, whatever the
  reply.\<close>

locale ledger_port =
  fixes call :: "'s ledger_call" and good :: "'s \<Rightarrow> bool"
  assumes call_good: "good s \<Longrightarrow> call cmd cid s = (reply, s') \<Longrightarrow> good s'"
begin

lemma step_good: "pay_step cfg call A w w' \<Longrightarrow> good (w_ledger w) \<Longrightarrow> good (w_ledger w')"
  by (induction rule: pay_step.induct) (auto dest: call_good)

lemma reaches_good: "pay_reaches cfg call A w w' \<Longrightarrow> good (w_ledger w) \<Longrightarrow> good (w_ledger w')"
  unfolding pay_reaches_def by (induction rule: rtranclp_induct) (auto dest: step_good)

end

definition served_call :: "(ledger_db \<times> (ledger_env \<times> network) list) ledger_call" where
  "served_call cmd cid s =
     (case s of (ldb, script) \<Rightarrow>
        (case script of
           [] \<Rightarrow> (Unreachable, s)
         | (lenv, net) # rest \<Rightarrow>
             (case ledger_transfer lenv net cid cmd ldb of (reply, ldb') \<Rightarrow> (reply, (ldb', rest)))))"

lemma ledger_transfer_good:
  assumes "ledger_inv ldb" "idem_inv ldb" and "ledger_transfer lenv net cid cmd ldb = (reply, ldb')"
  shows "ledger_inv ldb' \<and> idem_inv ldb'"
  using assms transfer_inv [OF assms(1,2)]
  by (auto simp: ledger_transfer_def transfer_endpoint_def split: if_splits sum.splits)

interpretation served: ledger_port served_call "\<lambda>s. ledger_inv (fst s) \<and> idem_inv (fst s)"
  by unfold_locales (auto simp: served_call_def split: list.splits prod.splits dest: ledger_transfer_good)

section \<open>One settlement\<close>

lemma ledger_transfer_answer:
  assumes "ledger_transfer lenv net cid cmd ldb = (Answer res, ldb')"
  shows "net = DELIVERED \<and> internalLedgerTransferCommandSchema (isUuid lenv) cmd
    \<and> transfer lenv cmd cid ldb ldb ldb = Inr (res, ldb')"
  using assms by (auto simp: ledger_transfer_def transfer_endpoint_def reply_of_def
      split: if_splits sum.splits network.splits prod.splits)

lemma ledger_transfer_failed:
  "ledger_transfer lenv net cid cmd ldb = (CallFailed st code, ldb') \<Longrightarrow> ldb' = ldb"
  by (auto simp: ledger_transfer_def reply_of_def split: if_splits sum.splits network.splits prod.splits)

text \<open>The three ends of a settlement, read off the row it returns.\<close>

lemma settle_reply_cases:
  assumes "settle_reply env t reply pdb = (Inr t', pdb')" and "tw_status t = T_PROCESSING"
  obtains (completed) res sb rb r where "reply = Answer res" "tw_status t' = T_COMPLETED"
      "js_BigInt (minorUnits (tr_senderBalanceAfter res)) = Inr sb"
      "js_BigInt (minorUnits (tr_recipientBalanceAfter res)) = Inr rb"
      "find_by tw_id (tw_id t) (transfers pdb) = Some r" "t' = complete_row env res sb rb r"
  | (failed) status code where "reply = CallFailed status code" "status < 500" "tw_status t' = T_FAILED"
  | (waiting) "t' = t" "pdb' = pdb"
  using assms
  by (auto simp: settle_reply_def record_settlement_def record_failure_def update_transfer_def
      split: ledger_reply.splits sum.splits prod.splits option.splits if_splits)

lemma settle_effect:
  assumes st: "settle env served_call t cid pdb (ldb, (lenv, net) # script) = (Inr t', pdb', s')"
    and t: "tw_status t = T_PROCESSING"
    and inv: "ledger_inv ldb" "idem_inv ldb"
    and fresh: "find_record journalEntry_scope (sha256 lenv (''transfer:'' @ tw_id t)) ldb = None"
  shows "(tw_status t' = T_COMPLETED \<longrightarrow>
       (\<exists>x y. resolve ldb (settle_command t) = Inr (x, y)
         \<and> wallet_balance (fst s') x = wallet_balance ldb x - tw_amountMinor t
         \<and> wallet_balance (fst s') y = wallet_balance ldb y + tw_amountMinor t
         \<and> (\<forall>c \<in> set (customerAccounts ldb). c \<noteq> x \<and> c \<noteq> y \<longrightarrow> wallet_balance (fst s') c = wallet_balance ldb c)))
    \<and> (tw_status t' = T_FAILED \<longrightarrow> fst s' = ldb)"
proof -
  obtain reply ldb' where lt: "ledger_transfer lenv net cid (settle_command t) ldb = (reply, ldb')"
    and sr: "settle_reply env t reply pdb = (Inr t', pdb')" and s': "s' = (ldb', script)"
    using st by (auto simp: settle_def served_call_def split: prod.splits)
  from sr t show ?thesis
  proof (cases rule: settle_reply_cases)
    case (completed res sb rb r)
    from ledger_transfer_answer [OF lt [unfolded completed(1)]]
    have tr: "transfer lenv (settle_command t) cid ldb ldb ldb = Inr (res, ldb')" by simp
    obtain x y where xy: "resolve ldb (settle_command t) = Inr (x, y)" by (rule transfer_posts [OF tr])
    from resolve_spec [OF xy] have m: "x \<in> set (customerAccounts ldb)" "y \<in> set (customerAccounts ldb)" by auto
    have f: "find_record journalEntry_scope (sha256 lenv (tc_idempotencyKey (settle_command t))) ldb = None"
      using fresh by (simp add: settle_command_def)
    from transfer_effect [OF inv tr f f xy m] completed(2) xy show ?thesis by (auto simp: s' settle_command_def)
  next
    case (failed status code)
    with ledger_transfer_failed [OF lt [unfolded failed(1)]] show ?thesis by (simp add: s')
  qed (use t in simp)
qed

section \<open>Confirming\<close>

text \<open>A confirmation that wrote anything, or called the ledger, passed every check first.\<close>

lemma confirm_new:
  assumes ok: "confirm env cfg risk call input cid pdb0 pdb s = (out, pdb', s')" and ch: "pdb' \<noteq> pdb \<or> s' \<noteq> s"
  obtains i0 i t pdb1 o2 where
    "find_intent pdb0 (p_sha256 env (cf_intentToken input)) (cf_senderCustomerId input) = Some i0"
    "ti_authorizedAt i0 \<noteq> None"
    "\<exists>d. enforce risk (confirm_risk_input input i0 cid) = Inr d"
    "confirm_transaction env cfg input cid pdb = Inr ((t, False), pdb1)"
    "find_intent pdb (p_sha256 env (cf_intentToken input)) (cf_senderCustomerId input) = Some i"
    "t = new_transfer env input i cid"
    "settle env call t cid pdb1 s = (o2, pdb', s')"
    "out = andThen o2 (\<lambda>row. asDetail (p_isUuid env) row (cf_senderCustomerId input))"
proof -
  from ok ch obtain t rep pdb1 where pf: "confirm_preflight env risk input cid pdb0 = Inr None"
    and tx: "confirm_transaction env cfg input cid pdb = Inr ((t, rep), pdb1)"
    by (auto simp: confirm_def split: sum.splits option.splits prod.splits if_splits)
  have "\<not> rep" using ok ch pf tx confirm_transaction_replayed [of env cfg input cid pdb t pdb1]
    by (cases rep) (auto simp: confirm_def)
  with tx have tx': "confirm_transaction env cfg input cid pdb = Inr ((t, False), pdb1)" by simp
  from confirm_transaction_new [OF tx'] obtain i where
    i: "find_intent pdb (p_sha256 env (cf_intentToken input)) (cf_senderCustomerId input) = Some i"
    "t = new_transfer env input i cid" by blast
  obtain i0 where "find_intent pdb0 (p_sha256 env (cf_intentToken input)) (cf_senderCustomerId input) = Some i0"
    "ti_authorizedAt i0 \<noteq> None" "\<exists>d. enforce risk (confirm_risk_input input i0 cid) = Inr d"
    using pf by (auto simp: confirm_preflight_def res_simps split: option.splits if_splits)
  moreover obtain o2 where "settle env call t cid pdb1 s = (o2, pdb', s')"
    "out = andThen o2 (\<lambda>row. asDetail (p_isUuid env) row (cf_senderCustomerId input))"
    using ok pf tx' i(2) by (auto simp: confirm_def new_transfer_def split: prod.splits)
  ultimately show ?thesis using that tx' i by blast
qed

lemma asDetail_status: "asDetail uuid row c = Inr d \<Longrightarrow> ts_status d = tw_status row \<and> ts_id d = tw_id row"
  by (auto simp: asDetail_def asSummary_def Let_def transfer_summary.defs transfer_detail.defs split: if_splits)

section \<open>Settling again\<close>

lemma js_BigInt_nat: "js_BigInt (dec_of_nat n) = Inr (int n)"
proof -
  have d: "list_all is_digit (dec_of_nat n)" "dec_of_nat n \<noteq> []" by simp_all
  then obtain c u where s: "dec_of_nat n = c # u" and c: "is_digit c" "list_all is_digit u" by (cases "dec_of_nat n") auto
  then have ne: "c \<noteq> CHR ''-''" "c \<noteq> CHR ''+''" and x: "x \<in> set u \<Longrightarrow> is_digit x" for x
    by (auto simp: is_digit_def list_all_iff)
  have nh: "\<not> starts_with [CHR ''0'', y] (c # u)" if "\<not> is_digit y" for y
    using that x by (cases u) (auto simp: starts_with_def)
  have "radix_value 10 0 (dec_of_nat n) = Some n" using radix_value_digits [OF d(1)] nat_of_dec_of_nat [of n]
    by (simp add: nat_of_dec_def)
  then show ?thesis using ne d nh
    by (simp add: js_BigInt_def Let_def js_trim_digits s is_digit_def del: radix_value.simps)
qed

lemma js_BigInt_wallet:
  assumes "ledger_inv db" and "c \<in> set (customerAccounts db)"
  shows "js_BigInt (minorUnits (toMoney cur (wallet_balance db c))) = Inr (wallet_balance db c)"
  using wallet_balance_nonneg [OF assms] js_BigInt_nat [of "nat (wallet_balance db c)"]
  by (simp add: toMoney_def serializeMinorUnits_def dec_of_int_def)

text \<open>The balances of an answer are numbers.\<close>

lemma transfer_balances:
  assumes tr: "transfer lenv cmd cid ldb ldb ldb = Inr (res, ldb')" and inv: "ledger_inv ldb'"
    and c: "customerAccounts ldb' = customerAccounts ldb"
  obtains sb rb where "js_BigInt (minorUnits (tr_senderBalanceAfter res)) = Inr sb"
    "js_BigInt (minorUnits (tr_recipientBalanceAfter res)) = Inr rb"
proof -
  obtain x y journal where xy: "resolve ldb cmd = Inr (x, y)" and ans: "transfer_answer cmd x y journal ldb' = Inr res"
    by (rule transfer_posts [OF tr])
  from resolve_spec [OF xy] have "x \<in> set (customerAccounts ldb')" "y \<in> set (customerAccounts ldb')" by (simp_all add: c)
  then show ?thesis
    using transfer_answer_fields [OF ans] liability_money_spec [OF inv] js_BigInt_wallet [OF inv] that by (metis Inr_inject)
qed

text \<open>A delivered answer completes the row, unless another row carries the journal.\<close>

lemma settle_answered:
  assumes sch: "internalLedgerTransferCommandSchema (isUuid lenv) (settle_command t)"
    and tr: "transfer lenv (settle_command t) cid ldb ldb ldb = Inr (res, ldb')" and inv: "ledger_inv ldb'"
    and c: "customerAccounts ldb' = customerAccounts ldb"
    and row: "find_by tw_id (tw_id t) (transfers pdb) = Some r"
    and free: "\<forall>u \<in> set (transfers pdb). tw_ledgerJournalId u \<noteq> Some (tr_journalId res)"
  shows "\<exists>t' pdb'. settle env served_call t cid pdb (ldb, (lenv, DELIVERED) # script) = (Inr t', pdb', (ldb', script))
    \<and> tw_status t' = T_COMPLETED \<and> tw_ledgerJournalId t' = Some (tr_journalId res)
    \<and> find_by tw_id (tw_id t) (transfers pdb') = Some t'"
proof -
  obtain sb rb where b: "js_BigInt (minorUnits (tr_senderBalanceAfter res)) = Inr sb"
    "js_BigInt (minorUnits (tr_recipientBalanceAfter res)) = Inr rb" by (rule transfer_balances [OF tr inv c])
  have "ledger_transfer lenv DELIVERED cid (settle_command t) ldb = (Answer res, ldb')"
    by (simp add: ledger_transfer_def transfer_endpoint_def sch tr reply_of_def)
  moreover have "\<not> list_ex (\<lambda>u. tw_id u \<noteq> tw_id t \<and> tw_ledgerJournalId u = Some (tr_journalId res)) (transfers pdb)"
    using free by (auto simp: list_ex_iff)
  ultimately show ?thesis using row b
    by (simp add: settle_def served_call_def settle_reply_def record_settlement_def update_transfer_def
        complete_row_def find_by_update_by)
qed

lemma settle_refused:
  assumes sch: "internalLedgerTransferCommandSchema (isUuid lenv) (settle_command t)"
    and tr: "transfer lenv (settle_command t) cid ldb ldb ldb = Inl insufficientFundsError"
    and row: "find_by tw_id (tw_id t) (transfers pdb) = Some r" "tw_ledgerJournalId r = None"
  shows "\<exists>pdb'. settle env served_call t cid pdb (ldb, (lenv, DELIVERED) # script)
       = (Inr (fail_row env F_INSUFFICIENT_FUNDS r), pdb', (ldb, script))
    \<and> find_by tw_id (tw_id t) (transfers pdb') = Some (fail_row env F_INSUFFICIENT_FUNDS r)"
proof -
  have "ledger_transfer lenv DELIVERED cid (settle_command t) ldb = (CallFailed 409 (Some ''INSUFFICIENT_FUNDS''), ldb)"
    by (simp add: ledger_transfer_def transfer_endpoint_def sch tr reply_of_def insufficientFundsError_def exception_filter_def)
  then show ?thesis using row
    by (simp add: settle_def served_call_def settle_reply_def record_failure_def update_transfer_def safeFailure_def
        find_by_update_by fail_row_def)
qed

text \<open>The balance is compared with the amount before the key is looked up.\<close>

lemma transfer_amount:
  assumes "transfer lenv input cid ldb ldb ldb = Inr (res, ldb2)" and "resolve ldb input = Inr (x, y)"
  shows "\<exists>a. js_BigInt (tp_amountMinor input) = Inr a \<and> 0 < a \<and> a = int_of_dec (tp_amountMinor input)"
proof -
  obtain journal amount where a: "js_BigInt (tp_amountMinor input) = Inr amount" "0 < amount"
    and p: "post lenv (transfer_journal input x y) cid service_payments ldb ldb = Inr (journal, ldb2)"
    by (rule transfer_posts [OF assms(1)]) (use assms(2) in auto)
  from bigint_amount [OF p transfer_journal_fields(2) a(1)] a show ?thesis by blast
qed

lemma transfer_low_balance:
  assumes inv: "ledger_inv ldb" and rows: "resolve ldb input = Inr (x, y)"
    and a: "\<exists>a. js_BigInt (tp_amountMinor input) = Inr a \<and> 0 < a \<and> a = int_of_dec (tp_amountMinor input)"
    and low: "\<not> int_of_dec (tp_amountMinor input) \<le> wallet_balance ldb x"
  shows "transfer lenv input cid ldb db0 db1 = Inl insufficientFundsError"
proof -
  from resolve_spec [OF rows] have "x \<in> set (customerAccounts ldb)" by auto
  from wallet_projection_balance_spec [OF inv this] rows a low show ?thesis by (auto simp: transfer_def)
qed

section \<open>A concrete run\<close>

definition demo_served :: "network \<Rightarrow>
    (payments_error, transfer_detail) res \<times> payments_db \<times> ledger_db \<times> (ledger_env \<times> network) list" where
  "demo_served net = confirm (demo_pay_env 3000) demo_cfg calm_risk served_call demo_confirmation ''cid''
     demo_authorized_db demo_authorized_db (demo_bank, [(demo_env, net)])"

definition demo_row :: "int \<Rightarrow> transfer_row" where
  "demo_row amount = (new_transfer (demo_pay_env 3000) demo_confirmation demo_intent ''cid'')\<lparr>tw_amountMinor := amount\<rparr>"

definition demo_row_db :: "int \<Rightarrow> payments_db" where
  "demo_row_db amount = \<lparr>transferIntents = [], transfers = [demo_row amount], transferEvents = []\<rparr>"

lemma demo_served_completed:
  "case demo_served DELIVERED of
     (Inr d, pdb', s') \<Rightarrow> ts_status d = T_COMPLETED \<and> transfers pdb' \<noteq> [] | _ \<Rightarrow> False"
  by code_simp

lemma demo_served_run:
  obtains d pdb' s' where "demo_served DELIVERED = (Inr d, pdb', s')" "ts_status d = T_COMPLETED"
    "pdb' \<noteq> demo_authorized_db"
proof -
  obtain out pdb' s' where e: "demo_served DELIVERED = (out, pdb', s')" by (metis prod.exhaust)
  with demo_served_completed obtain d where "out = Inr d" "ts_status d = T_COMPLETED" "transfers pdb' \<noteq> []"
    by (cases out) auto
  moreover have "transfers demo_authorized_db = []" by (simp add: demo_authorized_db_eq)
  ultimately show ?thesis using that e by metis
qed

lemma demo_key_fresh:
  "find_record journalEntry_scope (sha256 demo_env (''transfer:'' @ p_uuid (demo_pay_env 3000) 0)) demo_bank = None"
  by code_simp

section \<open>Properties\<close>

text \<open>C9: payments never corrupts the ledger.  However requests, recovery runs, lost requests, lost answers
  and crashes interleave, overlapping settlements of one transfer included, the ledger behind the payments
  service keeps its double-entry and idempotency invariants; and a completed transfer of payments always
  carries a journal no other transfer carries.\<close>

theorem payments_keep_books:
  assumes "createPaymentsConfig url penv = Inr cfg" and "ledger_inv ldb" "idem_inv ldb"
    and "pay_reaches cfg served_call {} (empty_world (ldb, script)) w"
  shows "ledger_inv (fst (w_ledger w)) \<and> idem_inv (fst (w_ledger w)) \<and> journals_ok (w_db w)
    \<and> (\<forall>t \<in> set (transfers (w_db w)). tw_status t = T_COMPLETED \<longrightarrow> tw_ledgerJournalId t \<noteq> None)"
proof -
  have c: "config_ok cfg" by (rule config_ok_loaded [OF assms(1)])
  have "world_inv {} cfg w" by (rule pay_reaches_inv [OF assms(4) empty_world_inv [OF c] c])
  then have "journals_ok (w_db w)" "\<forall>t \<in> set (transfers (w_db w)). row_safe cfg t"
    by (simp_all add: world_inv_def pay_inv_def row_ok_def)
  with served.reaches_good [OF assms(4)] assms(2,3) show ?thesis by (auto simp: empty_world_def row_safe_def)
qed

theorem payments_keep_books_witness:
  "\<exists>w. pay_reaches demo_cfg served_call {} (empty_world (demo_bank, [(demo_env, DELIVERED)])) w
     \<and> ledger_inv (fst (w_ledger w)) \<and> transfers (w_db w) \<noteq> []"
proof -
  obtain d pdb' s' where r: "demo_served DELIVERED = (Inr d, pdb', s')" by (rule demo_served_run)
  then have ne: "transfers pdb' \<noteq> []" using demo_served_completed by simp
  from demo_run_reached [OF r [unfolded demo_served_def]] obtain w where
    w: "pay_reaches demo_cfg served_call {} (empty_world (demo_bank, [(demo_env, DELIVERED)])) w" "w_db w = pdb'" by blast
  from payments_keep_books [OF demo_cfg_loaded demo_bank_inv w(1)] w ne show ?thesis by auto
qed

text \<open>C10: a confirmation tells the truth about the money.  When the confirmation of an intent writes a
  transfer and answers COMPLETED, the ledger took exactly the intent's amount from the wallet the intent's
  source resolves to and gave it to the recipient's, touching no other wallet; when it answers FAILED the
  ledger is unchanged.  The key of the ledger call, made from the new transfer's identifier, is one the
  ledger has not seen.\<close>

theorem confirm_outcome_honest:
  assumes inv: "ledger_inv ldb" "idem_inv ldb"
    and ok: "confirm env cfg risk served_call input cid pdb0 pdb (ldb, (lenv, net) # script) = (Inr d, pdb', s')"
    and ch: "pdb' \<noteq> pdb"
    and i: "find_intent pdb (p_sha256 env (cf_intentToken input)) (cf_senderCustomerId input) = Some i"
    and fresh: "find_record journalEntry_scope (sha256 lenv (''transfer:'' @ p_uuid env 0)) ldb = None"
  shows "(ts_status d = T_COMPLETED \<longrightarrow>
       (\<exists>x y. ca_id x = ti_sourceAccountId i \<and> ca_customerId x = cf_senderCustomerId input
         \<and> ca_publicReference y = ti_recipientPublicReference i
         \<and> wallet_balance (fst s') x = wallet_balance ldb x - ti_amountMinor i
         \<and> wallet_balance (fst s') y = wallet_balance ldb y + ti_amountMinor i
         \<and> (\<forall>c \<in> set (customerAccounts ldb). c \<noteq> x \<and> c \<noteq> y \<longrightarrow> wallet_balance (fst s') c = wallet_balance ldb c)))
    \<and> (ts_status d = T_FAILED \<longrightarrow> fst s' = ldb)"
proof -
  from ch have "pdb' \<noteq> pdb \<or> s' \<noteq> (ldb, (lenv, net) # script)" by simp
  then obtain t pdb1 o2 where t: "t = new_transfer env input i cid"
    and st: "settle env served_call t cid pdb1 (ldb, (lenv, net) # script) = (o2, pdb', s')"
    and d: "Inr d = andThen o2 (\<lambda>row. asDetail (p_isUuid env) row (cf_senderCustomerId input))"
    by (rule confirm_new [OF ok]) (use i in auto)
  obtain t' where o2: "o2 = Inr t'" and d': "asDetail (p_isUuid env) t' (cf_senderCustomerId input) = Inr d"
    using d by (cases o2) auto
  have tf: "tw_status t = T_PROCESSING" "tw_id t = p_uuid env 0" "tw_amountMinor t = ti_amountMinor i"
    by (simp_all add: t new_transfer_def)
  have "tp_sourceAccountId (settle_command t) = ti_sourceAccountId i"
    "tp_senderCustomerId (settle_command t) = cf_senderCustomerId input"
    "tp_recipientReference (settle_command t) = ti_recipientPublicReference i"
    by (simp_all add: t settle_command_def new_transfer_def)
  then have res: "ca_id x = ti_sourceAccountId i \<and> ca_customerId x = cf_senderCustomerId input
      \<and> ca_publicReference y = ti_recipientPublicReference i" if "resolve ldb (settle_command t) = Inr (x, y)" for x y
    using resolve_spec [OF that] by simp
  from settle_effect [OF st [unfolded o2] tf(1) inv] fresh tf asDetail_status [OF d'] res show ?thesis
    by metis
qed

theorem confirm_outcome_honest_witness:
  "\<exists>d pdb' s' x y. demo_served DELIVERED = (Inr d, pdb', s') \<and> ts_status d = T_COMPLETED
     \<and> ca_id x = ''acc-alice'' \<and> wallet_balance (fst s') x = wallet_balance demo_bank x - 600
     \<and> wallet_balance (fst s') y = wallet_balance demo_bank y + 600"
proof -
  obtain d pdb' s' where r: "demo_served DELIVERED = (Inr d, pdb', s')" "ts_status d = T_COMPLETED"
    "pdb' \<noteq> demo_authorized_db" by (rule demo_served_run)
  have "find_intent demo_authorized_db (p_sha256 (demo_pay_env 3000) (cf_intentToken demo_confirmation))
      (cf_senderCustomerId demo_confirmation) = Some demo_intent" by code_simp
  from confirm_outcome_honest [OF demo_bank_inv r(1) [unfolded demo_served_def] r(3) this demo_key_fresh] r
  show ?thesis by (auto simp: demo_intent_def)
qed

text \<open>C11: confirmation is fail-closed.  Whatever the ledger and the risk service do, a confirmation that
  changes the payments database or reaches the ledger belongs to an intent of the same customer that is
  authorised, unexpired and not yet consumed; the control check answered and allowed it; the assessment
  answered and its decision was ALLOW or ALLOW_WITH_MONITORING; and the daily limit still holds with it.
  An unavailable, malformed or negative risk answer leaves both databases untouched.\<close>

theorem confirm_fail_closed:
  assumes ok: "confirm env cfg risk call input cid pdb0 pdb s = (out, pdb', s')" and ch: "pdb' \<noteq> pdb \<or> s' \<noteq> s"
  shows "\<exists>i0 i dec. find_intent pdb0 (p_sha256 env (cf_intentToken input)) (cf_senderCustomerId input) = Some i0
    \<and> find_intent pdb (p_sha256 env (cf_intentToken input)) (cf_senderCustomerId input) = Some i
    \<and> ti_authorizedAt i \<noteq> None \<and> ti_consumedAt i = None \<and> p_now env < ti_expiresAt i
    \<and> rs_controls risk ''TRANSFER_CONFIRMATION'' (enforcement_scopes (confirm_risk_input input i0 cid)) = RiskAnswer True
    \<and> rs_assess risk (confirm_risk_input input i0 cid) = RiskAnswer dec \<and> (dec = ALLOW \<or> dec = ALLOW_WITH_MONITORING)
    \<and> reserved_sum (cf_senderCustomerId input) (utc_midnight (p_now env)) pdb + ti_amountMinor i
        \<le> dailyOutgoingLimitMinor cfg"
proof -
  obtain i0 i t pdb1 dec where
    i0: "find_intent pdb0 (p_sha256 env (cf_intentToken input)) (cf_senderCustomerId input) = Some i0"
    and dec: "enforce risk (confirm_risk_input input i0 cid) = Inr dec"
    and tx: "confirm_transaction env cfg input cid pdb = Inr ((t, False), pdb1)"
    and i: "find_intent pdb (p_sha256 env (cf_intentToken input)) (cf_senderCustomerId input) = Some i"
    by (rule confirm_new [OF ok ch]) auto
  have "ti_consumedAt i = None \<and> ti_authorizedAt i \<noteq> None \<and> p_now env < ti_expiresAt i
    \<and> reserved_sum (cf_senderCustomerId input) (utc_midnight (p_now env)) pdb + ti_amountMinor i
        \<le> dailyOutgoingLimitMinor cfg"
    by (rule confirm_transaction_new [OF tx]) (use i in auto)
  moreover have "ri_operation (confirm_risk_input input i0 cid) = ''TRANSFER_CONFIRMATION''"
    by (simp add: confirm_risk_input_def)
  ultimately show ?thesis using i0 i enforce_fail_closed [OF dec] by auto
qed

theorem confirm_fail_closed_witness:
  "\<exists>d pdb' s' i. demo_served DELIVERED = (Inr d, pdb', s') \<and> ts_status d = T_COMPLETED
     \<and> find_intent demo_authorized_db (p_sha256 (demo_pay_env 3000) (cf_intentToken demo_confirmation)) ''alice'' = Some i
     \<and> ti_authorizedAt i \<noteq> None \<and> ti_consumedAt i = None"
proof -
  obtain d pdb' s' where r: "demo_served DELIVERED = (Inr d, pdb', s')" "ts_status d = T_COMPLETED"
    "pdb' \<noteq> demo_authorized_db" by (rule demo_served_run)
  have "cf_senderCustomerId demo_confirmation = ''alice''" by (simp add: demo_confirmation_def)
  with confirm_fail_closed [OF r(1) [unfolded demo_served_def]] r show ?thesis by auto
qed

text \<open>a client key is spent once.  When the database the transaction sees already has a transfer of
  this customer under this key, the confirmation writes nothing and does not call the ledger, whatever
  earlier snapshot its preflight read.  A success then describes the stored transfer, and the request hash
  stored with it is that of the confirmed intent: the key cannot be turned to another one.\<close>

theorem confirm_key_spent_once:
  assumes ok: "confirm env cfg risk call input cid pdb0 pdb s = (out, pdb', s')"
    and used: "find_transfer pdb (cf_senderCustomerId input) (p_sha256 env (cf_idempotencyKey input)) = Some t"
    and earlier: "find_transfer pdb0 (cf_senderCustomerId input) (p_sha256 env (cf_idempotencyKey input)) \<in> {None, Some t}"
  shows "pdb' = pdb \<and> s' = s
    \<and> (\<forall>d. out = Inr d \<longrightarrow> asDetail (p_isUuid env) t (cf_senderCustomerId input) = Inr d
         \<and> (\<exists>p i. p \<in> {pdb0, pdb} \<and> find_intent p (p_sha256 env (cf_intentToken input)) (cf_senderCustomerId input) = Some i
              \<and> tw_requestHash t = intent_hash env (cf_senderCustomerId input) i))"
proof (cases "confirm_preflight env risk input cid pdb0")
  case (Inr x)
  show ?thesis
  proof (cases x)
    case None
    with Inr ok used show ?thesis
      by (auto simp: confirm_def confirm_transaction_def split: option.splits if_splits)
  next
    case (Some u)
    with Inr ok used earlier show ?thesis
      by (auto simp: confirm_def confirm_preflight_def res_simps split: option.splits if_splits)
  qed
qed (use ok in \<open>auto simp: confirm_def\<close>)

text \<open>C12: what becomes of a transfer the ledger executed but whose answer never arrived.  It is settled again under
  the same key, later and on any ledger that grew out of the first execution: the invariant holds, the
  reservation is still there and the two accounts still resolve, but the wallets may have been used in between.
  When the sender's wallet then still holds the amount once more, the ledger replays the stored journal without
  moving money, and the row becomes COMPLETED with the journal of the first execution.  When it holds less, the
  ledger refuses before it looks at the key, and the row becomes FAILED although the money has moved.\<close>

theorem lost_answer_recovered:
  assumes inv: "ledger_inv ldb" "idem_inv ldb"
    and done1: "transfer lenv (settle_command t) cid ldb ldb ldb = Inr (res, ldb2)"
    and fresh: "find_record journalEntry_scope (sha256 lenv (''transfer:'' @ tw_id t)) ldb = None"
    and rows: "resolve ldb (settle_command t) = Inr (x, y)" "resolve ldb3 (settle_command t) = Inr (x, y)"
    and uuid: "\<forall>n. isUuid lenv (randomUUID lenv n)" "isUuid lenv (ca_ledgerAccountId x)" "isUuid lenv (ca_ledgerAccountId y)"
    and ref: "journalReferenceSchema (tw_displayReference t)"
    and hash: "\<And>z. sha256 lenv z \<noteq> []"
    and target: "isIdempotencyConflict (P2002 (uniqueTarget lenv ''idempotency_records_scope_key_hash_key''))"
    and later: "later_env lenv lenv'" "ledger_inv ldb3"
    and kept: "find_record journalEntry_scope (sha256 lenv (''transfer:'' @ tw_id t)) ldb3
               = find_record journalEntry_scope (sha256 lenv (''transfer:'' @ tw_id t)) ldb2"
    and sch: "internalLedgerTransferCommandSchema (isUuid lenv') (settle_command t)"
    and row: "find_by tw_id (tw_id t) (transfers pdb) = Some r" "tw_ledgerJournalId r = None"
    and free: "\<forall>u \<in> set (transfers pdb). tw_ledgerJournalId u \<noteq> Some (tr_journalId res)"
  shows "\<exists>t' pdb'. settle env served_call t cid' pdb (ldb3, (lenv', DELIVERED) # script) = (Inr t', pdb', (ldb3, script))
    \<and> find_by tw_id (tw_id t) (transfers pdb') = Some t'
    \<and> (if tw_amountMinor t \<le> wallet_balance ldb3 x
       then tw_status t' = T_COMPLETED \<and> tw_ledgerJournalId t' = Some (tr_journalId res)
       else tw_status t' = T_FAILED \<and> tw_failureCode t' = Some F_INSUFFICIENT_FUNDS)"
proof -
  have f: "find_record journalEntry_scope (sha256 lenv (tc_idempotencyKey (settle_command t))) ldb = None"
    using fresh by (simp add: settle_command_def)
  have ref': "journalReferenceSchema (tc_transferReference (settle_command t))" using ref by (simp add: settle_command_def)
  have amt: "int_of_dec (tp_amountMinor (settle_command t)) = tw_amountMinor t" by (simp add: settle_command_def)
  show ?thesis
  proof (cases "tw_amountMinor t \<le> wallet_balance ldb3 x")
    case True
    obtain res' where again: "transfer lenv' (settle_command t) cid' ldb3 ldb3 ldb3 = Inr (res', ldb3)"
      and j: "tr_journalId res' = tr_journalId res"
      using transfer_retry_answers [OF inv(1) done1 f f rows uuid ref' hash target later, of cid'] kept True amt
      by (auto simp: settle_command_def)
    from settle_answered [OF sch again later(2) refl row(1), of env script] free True show ?thesis by (fastforce simp: j)
  next
    case False
    then have "transfer lenv' (settle_command t) cid' ldb3 ldb3 ldb3 = Inl insufficientFundsError"
      by (intro transfer_low_balance [OF later(2) rows(2)] transfer_amount [OF done1 rows(1)]) (simp add: amt)
    from settle_refused [OF sch this row, of env script] False show ?thesis by (auto simp: fail_row_def)
  qed
qed

theorem lost_answer_recovered_witness:
  "\<exists>res ldb2 t' pdb'. transfer demo_env (settle_command (demo_row 300)) ''cid'' demo_bank demo_bank demo_bank = Inr (res, ldb2)
     \<and> settle (demo_pay_env 90000) served_call (demo_row 300) ''cid'' (demo_row_db 300)
         (ldb2, [(demo_env\<lparr>nowMs := 9000\<rparr>, DELIVERED)]) = (Inr t', pdb', (ldb2, []))
     \<and> tw_status t' = T_COMPLETED \<and> tw_ledgerJournalId t' = Some (tr_journalId res)"
proof -
  let ?x = "demo_customer ''alice'' ''AAA2'' ''A''" and ?y = "demo_customer ''bob'' ''BBB2'' ''B''"
  have "\<not> isl (transfer demo_env (settle_command (demo_row 300)) ''cid'' demo_bank demo_bank demo_bank)" by code_simp
  then obtain res ldb2 where ok: "transfer demo_env (settle_command (demo_row 300)) ''cid'' demo_bank demo_bank demo_bank = Inr (res, ldb2)"
    by (metis isl_def sum.exhaust prod.exhaust)
  have 1: "find_record journalEntry_scope (sha256 demo_env (''transfer:'' @ tw_id (demo_row 300))) demo_bank = None" by code_simp
  have 2: "resolve demo_bank (settle_command (demo_row 300)) = Inr (?x, ?y)" by code_simp
  have m: "?x \<in> set (customerAccounts demo_bank)" "?y \<in> set (customerAccounts demo_bank)" using resolve_spec [OF 2] by auto
  note e = transfer_effect [OF demo_bank_inv ok _ _ 2 m]
  have f: "find_record journalEntry_scope (sha256 demo_env (tc_idempotencyKey (settle_command (demo_row 300)))) demo_bank = None"
    using 1 by (simp add: settle_command_def)
  have e2: "ledger_inv ldb2" "customerAccounts ldb2 = customerAccounts demo_bank" "wallet_balance ldb2 ?x = wallet_balance demo_bank ?x - 300"
    using e [OF f f] by (simp_all add: settle_command_def demo_row_def)
  have rows2: "resolve ldb2 (settle_command (demo_row 300)) = Inr (?x, ?y)" using 2 unfolding resolve_def e2(2) .
  have 3: "\<forall>n. isUuid demo_env (randomUUID demo_env n)" "isUuid demo_env (ca_ledgerAccountId ?x)"
    "isUuid demo_env (ca_ledgerAccountId ?y)" by (simp_all add: demo_env_def demo_customer_def)
  have 4: "journalReferenceSchema (tw_displayReference (demo_row 300))"
    "isIdempotencyConflict (P2002 (uniqueTarget demo_env ''idempotency_records_scope_key_hash_key''))" by code_simp+
  have 5: "sha256 demo_env z \<noteq> []" for z by (simp add: demo_env_def)
  have 6: "later_env demo_env (demo_env\<lparr>nowMs := 9000\<rparr>)" by (simp add: later_env_def)
  have 7: "internalLedgerTransferCommandSchema (isUuid (demo_env\<lparr>nowMs := 9000\<rparr>)) (settle_command (demo_row 300))" by code_simp
  have 8: "tw_amountMinor (demo_row 300) = 300" "wallet_balance demo_bank ?x = 1000" by code_simp+
  have 9: "find_by tw_id (tw_id (demo_row 300)) (transfers (demo_row_db 300)) = Some (demo_row 300)" by (simp add: demo_row_db_def)
  have 10: "tw_ledgerJournalId (demo_row 300) = None"
    "\<forall>u \<in> set (transfers (demo_row_db 300)). tw_ledgerJournalId u \<noteq> Some (tr_journalId res)"
    by (simp_all add: demo_row_db_def demo_row_def new_transfer_def)
  from lost_answer_recovered [OF demo_bank_inv ok 1 2 rows2 3 4(1) 5 4(2) 6 e2(1) refl 7 9 10,
      of "demo_pay_env 90000" "''cid''" "[]"] ok 8 e2(3)
  show ?thesis by auto
qed

text \<open>a lost answer is reported as a failure when the wallet cannot afford the amount twice.  The ledger
  compares the balance left after the first execution with the amount before it looks at the idempotency
  key, refuses with \<open>INSUFFICIENT_FUNDS\<close>, and payments turns the row into FAILED, although the sender's wallet
  has been debited and the recipient's credited.\<close>

theorem lost_answer_misreported:
  assumes inv: "ledger_inv ldb" "idem_inv ldb"
    and done1: "transfer lenv (settle_command t) cid ldb ldb ldb = Inr (res, ldb2)"
    and fresh: "find_record journalEntry_scope (sha256 lenv (''transfer:'' @ tw_id t)) ldb = None"
    and rows: "resolve ldb (settle_command t) = Inr (x, y)"
    and sch: "internalLedgerTransferCommandSchema (isUuid lenv') (settle_command t)"
    and low: "wallet_balance ldb x < 2 * tw_amountMinor t"
    and row: "find_by tw_id (tw_id t) (transfers pdb) = Some r" "tw_ledgerJournalId r = None"
  shows "(\<exists>t' pdb'. settle env served_call t cid' pdb (ldb2, (lenv', DELIVERED) # script) = (Inr t', pdb', (ldb2, script))
       \<and> tw_status t' = T_FAILED \<and> tw_failureCode t' = Some F_INSUFFICIENT_FUNDS
       \<and> find_by tw_id (tw_id t) (transfers pdb') = Some t')
    \<and> wallet_balance ldb2 x = wallet_balance ldb x - tw_amountMinor t
    \<and> wallet_balance ldb2 y = wallet_balance ldb y + tw_amountMinor t \<and> 0 < tw_amountMinor t"
proof -
  have f: "find_record journalEntry_scope (sha256 lenv (tc_idempotencyKey (settle_command t))) ldb = None"
    using fresh by (simp add: settle_command_def)
  from resolve_spec [OF rows] have m: "x \<in> set (customerAccounts ldb)" "y \<in> set (customerAccounts ldb)" by auto
  have amt: "int_of_dec (tp_amountMinor (settle_command t)) = tw_amountMinor t" by (simp add: settle_command_def)
  note e = transfer_effect [OF inv done1 f f rows m, unfolded amt]
  have "transfer lenv' (settle_command t) cid' ldb2 ldb2 ldb2 = Inl insufficientFundsError"
    by (rule transfer_retry_low [OF inv done1 f f rows]) (simp add: amt low)
  from settle_refused [OF sch this row, of env script] e show ?thesis by (auto simp: fail_row_def)
qed

end
