(* ===== verification/QrPayments.thy ===== *)
theory QrPayments
  imports Settlement
begin

text \<open>
  QR payments (\<open>services/payments/src/qr\<close>): the signed payload, and the service that issues a code,
  previews a scanned one, confirms it and settles it through the ledger's transfer endpoint.

  The keyed hash, ISO dates and the text form of JSON are parameters of the environment; an account question
  to the ledger is a function from account and customer to its reply.
\<close>

section \<open>The signed payload\<close>

definition QR_PROTOCOL_VERSION :: int where
  "QR_PROTOCOL_VERSION = 1"

datatype qrType = STATIC | DYNAMIC

definition qr_type_text :: "qrType \<Rightarrow> string" where
  "qr_type_text t = (case t of STATIC \<Rightarrow> ''STATIC'' | DYNAMIC \<Rightarrow> ''DYNAMIC'')"

record qr_payload =
  qp_version :: int
  qp_recipientRef :: string
  qp_currency :: string
  qp_amountMinor :: "string option"
  qp_nonce :: string
  qp_expiresAt :: string
  qp_type :: qrType
  qp_purpose :: "string option"
  qp_keyId :: string

record signed_payload = qr_payload +
  qp_signature :: string

definition newQrPaymentReference :: "string \<Rightarrow> string" where
  "newQrPaymentReference v =
     ''AEGIS-QRP-'' @ take 4 v @ ''-'' @ take 4 (drop 4 v) @ ''-'' @ take 4 (drop 8 v)"

definition canonicalPayloadString :: "'a qr_payload_scheme \<Rightarrow> string" where
  "canonicalPayloadString d =
     (let entries =
        [(''currency'', qp_currency d), (''expiresAt'', qp_expiresAt d), (''keyId'', qp_keyId d),
         (''nonce'', qp_nonce d), (''recipientRef'', qp_recipientRef d), (''type'', qr_type_text (qp_type d)),
         (''version'', dec_of_int (qp_version d))]
        @ (case qp_amountMinor d of None \<Rightarrow> [] | Some a \<Rightarrow> [(''amountMinor'', a)])
        @ (case qp_purpose d of None \<Rightarrow> [] | Some p \<Rightarrow> [(''purpose'', p)])
      in join_with ''&'' (map (\<lambda>(k, v). k @ ''='' @ v) (sort_key fst entries)))"

definition signQrPayload :: "(string \<Rightarrow> string \<Rightarrow> string) \<Rightarrow> qr_payload \<Rightarrow> string \<Rightarrow> signed_payload" where
  "signQrPayload hmac d signingKey =
     qr_payload.extend d (signed_payload.fields (hmac signingKey (canonicalPayloadString d)))"

text \<open>\<open>Buffer.from(s, 'hex')\<close> stops at the first pair that is not hexadecimal.\<close>

definition hex_value :: "char \<Rightarrow> nat option" where
  "hex_value c = radix_digit 16 c"

fun hex_bytes :: "string \<Rightarrow> nat list" where
  "hex_bytes (a # b # s) =
     (case (hex_value a, hex_value b) of (Some x, Some y) \<Rightarrow> (16 * x + y) # hex_bytes s | _ \<Rightarrow> [])"
| "hex_bytes s = []"

definition verifyQrSignature :: "(string \<Rightarrow> string \<Rightarrow> string) \<Rightarrow> signed_payload \<Rightarrow> string \<Rightarrow> bool" where
  "verifyQrSignature hmac p signingKey =
     (let expected = hmac signingKey (canonicalPayloadString p);
          sigBuf = hex_bytes (qp_signature p);
          expBuf = hex_bytes expected
      in if length sigBuf \<noteq> length expBuf \<or> length sigBuf = 0 then False else sigBuf = expBuf)"

text \<open>The object a payload is printed from, and the shape check on a parsed one.\<close>

definition payload_json :: "signed_payload \<Rightarrow> (string \<times> json) list" where
  "payload_json p =
     [(''version'', JInt (qp_version p)), (''recipientRef'', JStr (qp_recipientRef p)),
      (''currency'', JStr (qp_currency p))]
     @ (case qp_amountMinor p of None \<Rightarrow> [] | Some a \<Rightarrow> [(''amountMinor'', JStr a)])
     @ [(''nonce'', JStr (qp_nonce p)), (''expiresAt'', JStr (qp_expiresAt p)),
        (''type'', JStr (qr_type_text (qp_type p)))]
     @ (case qp_purpose p of None \<Rightarrow> [] | Some a \<Rightarrow> [(''purpose'', JStr a)])
     @ [(''keyId'', JStr (qp_keyId p)), (''signature'', JStr (qp_signature p))]"

definition json_text :: "json option \<Rightarrow> string option" where
  "json_text j = (case j of Some (JStr s) \<Rightarrow> Some s | _ \<Rightarrow> None)"

definition json_optional_text :: "json option \<Rightarrow> string option option" where
  "json_optional_text j = (case j of None \<Rightarrow> Some None | Some (JStr s) \<Rightarrow> Some (Some s) | _ \<Rightarrow> None)"

definition type_of_text :: "string option \<Rightarrow> qrType option" where
  "type_of_text s =
     (if s = Some ''STATIC'' then Some STATIC else if s = Some ''DYNAMIC'' then Some DYNAMIC else None)"

definition isSignedQrPayload :: "(string \<times> json) list \<Rightarrow> signed_payload option" where
  "isSignedQrPayload obj =
     (case (map_of obj ''version'', json_text (map_of obj ''recipientRef''), json_text (map_of obj ''currency''),
            json_text (map_of obj ''nonce''), json_text (map_of obj ''expiresAt''),
            type_of_text (json_text (map_of obj ''type'')), json_text (map_of obj ''signature''),
            json_text (map_of obj ''keyId''), json_optional_text (map_of obj ''amountMinor''),
            json_optional_text (map_of obj ''purpose'')) of
        (Some (JInt v), Some r, Some c, Some n, Some e, Some t, Some s, Some k, Some a, Some p) \<Rightarrow>
          Some \<lparr>qp_version = v, qp_recipientRef = r, qp_currency = c, qp_amountMinor = a, qp_nonce = n,
                qp_expiresAt = e, qp_type = t, qp_purpose = p, qp_keyId = k, qp_signature = s\<rparr>
      | _ \<Rightarrow> None)"

record qr_env = payments_env +
  q_hmac :: "string \<Rightarrow> string \<Rightarrow> string"
  q_signingKey :: string
  q_nonce :: string
  q_toIso :: "time \<Rightarrow> string"
  q_ofIso :: "string \<Rightarrow> time option"
  q_print :: "(string \<times> json) list \<Rightarrow> string"
  q_parse :: "string \<Rightarrow> (string \<times> json) list option"

definition encodeQrPayload :: "qr_env \<Rightarrow> signed_payload \<Rightarrow> string" where
  "encodeQrPayload env p = q_print env (payload_json p)"

definition decodeQrPayload :: "qr_env \<Rightarrow> string \<Rightarrow> signed_payload option" where
  "decodeQrPayload env s = Option.bind (q_parse env s) isSignedQrPayload"

section \<open>Tables\<close>

datatype qrRequestStatus = QR_ACTIVE | QR_REDEEMED | QR_EXPIRED | QR_CANCELLED
datatype qrPaymentStatus = QP_PROCESSING | QP_COMPLETED | QP_FAILED
datatype qrEventType = QR_ISSUED | QR_SCANNED | QE_COMPLETED | QE_FAILED

record qr_request =
  qr_id :: string
  qr_type :: qrType
  qr_status :: qrRequestStatus
  qr_recipientCustomerId :: string
  qr_recipientAccountId :: string
  qr_recipientMaskedReference :: string
  qr_recipientPublicReference :: string
  qr_currency :: string
  qr_amountMinor :: "int option"
  qr_purpose :: "string option"
  qr_nonceHash :: string
  qr_signatureHash :: string
  qr_protocolVersion :: int
  qr_expiresAt :: time
  qr_redeemedAt :: "time option"

record qr_redemption =
  qx_id :: string
  qx_qrPaymentRequestId :: string
  qx_displayReference :: string
  qx_senderCustomerId :: string
  qx_senderAccountId :: string
  qx_senderMaskedReference :: string
  qx_recipientCustomerId :: string
  qx_recipientAccountId :: string
  qx_recipientMaskedReference :: string
  qx_currency :: string
  qx_amountMinor :: int
  qx_status :: qrPaymentStatus
  qx_intentTokenHash :: string
  qx_idempotencyKeyHash :: string
  qx_requestHash :: string
  qx_ledgerJournalId :: "string option"
  qx_senderBalanceAfterMinor :: "int option"
  qx_recipientBalanceAfterMinor :: "int option"
  qx_correlationId :: string
  qx_createdAt :: time
  qx_completedAt :: "time option"
  qx_failedAt :: "time option"

record qr_event =
  qv_qrPaymentRequestId :: string
  qv_eventType :: qrEventType
  qv_previousStatus :: "string option"
  qv_nextStatus :: "string option"
  qv_safeCode :: "string option"
  qv_occurredAt :: time

record qr_db =
  qrRequests :: "qr_request list"
  qrRedemptions :: "qr_redemption list"
  qrEvents :: "qr_event list"

section \<open>Issuing\<close>

text \<open>The ledger's answer about an account: masked and receiving reference, an error status, or nothing.\<close>

datatype account_reply = AccountIs string string | AccountFailed nat | AccountUnreachable

record issue_input =
  qi2_customerId :: string
  qi2_accountId :: string
  qi2_type :: qrType
  qi2_amountMinor :: "string option"
  qi2_currency :: string
  qi2_purpose :: "string option"

record issue_result =
  qo_qrId :: string
  qo_payload :: string
  qo_type :: qrType
  qo_expiresAt :: time

text \<open>An optional string of the request counts when it is not empty.\<close>

definition truthy :: "string option \<Rightarrow> string option" where
  "truthy s = (if s = Some [] then None else s)"

definition issuing_account :: "account_reply \<Rightarrow> (payments_error, string \<times> string) res" where
  "issuing_account r =
     (case r of
        AccountIs masked receiving \<Rightarrow> Inr (masked, receiving)
      | AccountFailed st \<Rightarrow> if st = 404 then Inl (PaymentsError ''ACCOUNT_NOT_FOUND'' 404) else Inl (LedgerCallError st None)
      | AccountUnreachable \<Rightarrow> Inl PaymentsPlainError)"

definition bigint :: "string \<Rightarrow> (payments_error, int) res" where
  "bigint s = (case js_BigInt s of Inl _ \<Rightarrow> Inl PaymentsPlainError | Inr v \<Rightarrow> Inr v)"

definition issue_expiry :: "'a payments_env_scheme \<Rightarrow> payments_config \<Rightarrow> qrType \<Rightarrow> time" where
  "issue_expiry env cfg t =
     p_now env + (if t = DYNAMIC then qrDynamicTtlSeconds cfg * 1000 else qrStaticTtlHours cfg * 3600 * 1000)"

definition issue_payload :: "qr_env \<Rightarrow> payments_config \<Rightarrow> issue_input \<Rightarrow> string \<Rightarrow> signed_payload" where
  "issue_payload env cfg input publicRef =
     signQrPayload (q_hmac env)
       \<lparr>qp_version = QR_PROTOCOL_VERSION, qp_recipientRef = publicRef, qp_currency = qi2_currency input,
        qp_amountMinor = truthy (qi2_amountMinor input), qp_nonce = q_nonce env,
        qp_expiresAt = q_toIso env (issue_expiry env cfg (qi2_type input)), qp_type = qi2_type input,
        qp_purpose = truthy (qi2_purpose input), qp_keyId = ''aegis-qr-v1''\<rparr> (q_signingKey env)"

definition create_qr_request :: "qr_request \<Rightarrow> time \<Rightarrow> qr_db \<Rightarrow> (payments_error, qr_db) res" where
  "create_qr_request r now db =
     (if list_ex (\<lambda>q. qr_id q = qr_id r \<or> qr_nonceHash q = qr_nonceHash r) (qrRequests db)
      then Inl PaymentsUniqueViolation
      else Inr (db\<lparr>qrRequests := qrRequests db @ [r],
                   qrEvents := qrEvents db @
                     [\<lparr>qv_qrPaymentRequestId = qr_id r, qv_eventType = QR_ISSUED, qv_previousStatus = None,
                       qv_nextStatus = Some ''ACTIVE'', qv_safeCode = None, qv_occurredAt = now\<rparr>]\<rparr>))"

definition issue ::
  "qr_env \<Rightarrow> payments_config \<Rightarrow> account_reply \<Rightarrow> issue_input \<Rightarrow> qr_db \<Rightarrow> (payments_error, issue_result \<times> qr_db) res" where
  "issue env cfg reply input db =
     andThen (issuing_account reply) (\<lambda>(maskedRef, publicRef).
     let p = issue_payload env cfg input publicRef in
     andThen (case truthy (qi2_amountMinor input) of
                None \<Rightarrow> Inr None | Some a \<Rightarrow> andThen (bigint a) (\<lambda>v. Inr (Some v))) (\<lambda>amount.
     andThen (create_qr_request
       \<lparr>qr_id = p_uuid env 0, qr_type = qi2_type input, qr_status = QR_ACTIVE,
        qr_recipientCustomerId = qi2_customerId input, qr_recipientAccountId = qi2_accountId input,
        qr_recipientMaskedReference = maskedRef, qr_recipientPublicReference = publicRef,
        qr_currency = qi2_currency input, qr_amountMinor = amount, qr_purpose = truthy (qi2_purpose input),
        qr_nonceHash = p_sha256 env (q_nonce env), qr_signatureHash = p_sha256 env (qp_signature p),
        qr_protocolVersion = QR_PROTOCOL_VERSION, qr_expiresAt = issue_expiry env cfg (qi2_type input),
        qr_redeemedAt = None\<rparr> (p_now env) db) (\<lambda>db'.
       Inr (\<lparr>qo_qrId = p_uuid env 0, qo_payload = encodeQrPayload env p, qo_type = qi2_type input,
             qo_expiresAt = issue_expiry env cfg (qi2_type input)\<rparr>, db'))))"

section \<open>Previewing\<close>

record qr_preview_input =
  qpi_payload :: string
  qpi_senderCustomerId :: string
  qpi_sourceAccountId :: string

record qr_preview_result =
  qpr_qrId :: string
  qpr_recipientMaskedReference :: string
  qpr_amount :: "money option"
  qpr_purpose :: "string option"
  qpr_type :: qrType
  qpr_expiresAt :: time
  qpr_intentToken :: string

text \<open>The checks on the payload itself.  A date that does not parse compares as not expired.\<close>

definition check_payload :: "qr_env \<Rightarrow> string \<Rightarrow> (payments_error, signed_payload) res" where
  "check_payload env payload =
     (case decodeQrPayload env payload of
        None \<Rightarrow> Inl (PaymentsError ''QR_INVALID'' 400)
      | Some d \<Rightarrow>
          if qp_version d \<noteq> QR_PROTOCOL_VERSION then Inl (PaymentsError ''QR_UNSUPPORTED_VERSION'' 400)
          else if \<not> verifyQrSignature (q_hmac env) d (q_signingKey env)
          then Inl (PaymentsError ''QR_INVALID_SIGNATURE'' 400)
          else if (case q_ofIso env (qp_expiresAt d) of None \<Rightarrow> False | Some t \<Rightarrow> t \<le> p_now env)
          then Inl (PaymentsError ''QR_EXPIRED'' 410)
          else if qp_currency d \<noteq> ''LKR'' then Inl (PaymentsError ''QR_INVALID_CURRENCY'' 400)
          else (case qp_amountMinor d of
                  None \<Rightarrow> Inr d
                | Some a \<Rightarrow> andThen (bigint a) (\<lambda>v.
                    if v \<le> 0 then Inl (PaymentsError ''QR_INVALID_AMOUNT'' 400) else Inr d)))"

definition check_record ::
  "qr_env \<Rightarrow> signed_payload \<Rightarrow> string \<Rightarrow> qr_db \<Rightarrow> (payments_error, qr_request) res" where
  "check_record env d senderCustomerId db =
     (case find_by qr_nonceHash (p_sha256 env (qp_nonce d)) (qrRequests db) of
        None \<Rightarrow> Inl (PaymentsError ''QR_INVALID'' 404)
      | Some q \<Rightarrow>
          if qr_type q = DYNAMIC \<and> qr_status q = QR_REDEEMED then Inl (PaymentsError ''QR_ALREADY_REDEEMED'' 409)
          else if qr_status q = QR_EXPIRED \<or> qr_status q = QR_CANCELLED then Inl (PaymentsError ''QR_EXPIRED'' 410)
          else if qr_recipientCustomerId q = senderCustomerId then Inl (PaymentsError ''SELF_TRANSFER'' 409)
          else Inr q)"

definition redemption_collides :: "qr_redemption \<Rightarrow> qr_redemption \<Rightarrow> bool" where
  "redemption_collides x y =
     (qx_id x = qx_id y \<or> qx_qrPaymentRequestId x = qx_qrPaymentRequestId y
      \<or> qx_displayReference x = qx_displayReference y \<or> qx_intentTokenHash x = qx_intentTokenHash y
      \<or> qx_senderCustomerId x = qx_senderCustomerId y \<and> qx_idempotencyKeyHash x = qx_idempotencyKeyHash y)"

definition preview_redemption ::
  "qr_env \<Rightarrow> qr_preview_input \<Rightarrow> qr_request \<Rightarrow> string \<Rightarrow> int \<Rightarrow> qr_redemption" where
  "preview_redemption env input q senderMaskedRef amount =
     \<lparr>qx_id = p_uuid env 0, qx_qrPaymentRequestId = qr_id q,
      qx_displayReference = newQrPaymentReference (p_hex env),
      qx_senderCustomerId = qpi_senderCustomerId input, qx_senderAccountId = qpi_sourceAccountId input,
      qx_senderMaskedReference = senderMaskedRef, qx_recipientCustomerId = qr_recipientCustomerId q,
      qx_recipientAccountId = qr_recipientAccountId q,
      qx_recipientMaskedReference = qr_recipientMaskedReference q, qx_currency = qr_currency q,
      qx_amountMinor = amount, qx_status = QP_PROCESSING,
      qx_intentTokenHash = p_sha256 env (p_token env),
      qx_idempotencyKeyHash = p_sha256 env (''temp-'' @ p_token env), qx_requestHash = p_sha256 env ''pending'',
      qx_ledgerJournalId = None, qx_senderBalanceAfterMinor = None, qx_recipientBalanceAfterMinor = None,
      qx_correlationId = p_uuid env 1, qx_createdAt = p_dbNow env, qx_completedAt = None, qx_failedAt = None\<rparr>"

definition qr_preview ::
  "qr_env \<Rightarrow> account_reply \<Rightarrow> qr_preview_input \<Rightarrow> qr_db \<Rightarrow> (payments_error, qr_preview_result \<times> qr_db) res" where
  "qr_preview env reply input db =
     andThen (check_payload env (qpi_payload input)) (\<lambda>d.
     andThen (check_record env d (qpi_senderCustomerId input) db) (\<lambda>q.
     andThen (case reply of AccountIs masked _ \<Rightarrow> Inr masked | _ \<Rightarrow> Inl (PaymentsError ''ACCOUNT_NOT_FOUND'' 404)) (\<lambda>masked.
     andThen (case qr_amountMinor q of
                Some a \<Rightarrow> Inr a
              | None \<Rightarrow> bigint (case truthy (qp_amountMinor d) of None \<Rightarrow> ''0'' | Some a \<Rightarrow> a)) (\<lambda>amount.
       let x = preview_redemption env input q masked amount in
       if list_ex (redemption_collides x) (qrRedemptions db) then Inl PaymentsUniqueViolation
       else Inr
         (\<lparr>qpr_qrId = qr_id q, qpr_recipientMaskedReference = qr_recipientMaskedReference q,
           qpr_amount = (case qr_amountMinor q of
              Some a \<Rightarrow> if a = 0 then None else Some \<lparr>currency = qr_currency q, minorUnits = dec_of_int a\<rparr>
            | None \<Rightarrow> None),
           qpr_purpose = qr_purpose q, qpr_type = qr_type q, qpr_expiresAt = qr_expiresAt q,
           qpr_intentToken = p_token env\<rparr>,
          db\<lparr>qrRedemptions := qrRedemptions db @ [x],
             qrEvents := qrEvents db @
               [\<lparr>qv_qrPaymentRequestId = qr_id q, qv_eventType = QR_SCANNED, qv_previousStatus = None,
                 qv_nextStatus = None, qv_safeCode = None, qv_occurredAt = p_now env\<rparr>]\<rparr>)))))"

section \<open>Settling and confirming\<close>

record qr_receipt_line =
  qf_id :: string
  qf_displayReference :: string
  qf_status :: qrPaymentStatus
  qf_senderMaskedReference :: string
  qf_recipientMaskedReference :: string
  qf_amount :: money
  qf_senderBalanceAfter :: "money option"
  qf_createdAt :: time
  qf_completedAt :: "time option"

text \<open>A balance of zero is falsy and comes out as null.\<close>

definition qr_balance_after :: "qr_redemption \<Rightarrow> money option" where
  "qr_balance_after x =
     (case qx_senderBalanceAfterMinor x of
        Some b \<Rightarrow> if b = 0 then None else Some \<lparr>currency = qx_currency x, minorUnits = dec_of_int b\<rparr>
      | None \<Rightarrow> None)"

definition formatRedemption :: "qr_redemption \<Rightarrow> qr_receipt_line" where
  "formatRedemption x =
     \<lparr>qf_id = qx_id x, qf_displayReference = qx_displayReference x, qf_status = qx_status x,
      qf_senderMaskedReference = qx_senderMaskedReference x,
      qf_recipientMaskedReference = qx_recipientMaskedReference x,
      qf_amount = \<lparr>currency = qx_currency x, minorUnits = dec_of_int (qx_amountMinor x)\<rparr>,
      qf_senderBalanceAfter = qr_balance_after x, qf_createdAt = qx_createdAt x,
      qf_completedAt = qx_completedAt x\<rparr>"

definition qr_settle_command :: "qr_redemption \<Rightarrow> string \<Rightarrow> transfer_command" where
  "qr_settle_command x recipientPublicReference =
     \<lparr>tp_senderCustomerId = qx_senderCustomerId x, tp_sourceAccountId = qx_senderAccountId x,
      tp_recipientReference = recipientPublicReference, tp_amountMinor = dec_of_int (qx_amountMinor x),
      tp_currency = qx_currency x, tc_transferId = qx_id x, tc_transferReference = qx_displayReference x,
      tc_idempotencyKey = ''qr-pay:'' @ qx_id x\<rparr>"

definition qr_event_of ::
  "'a payments_env_scheme \<Rightarrow> string \<Rightarrow> qrEventType \<Rightarrow> string \<Rightarrow> string option \<Rightarrow> qr_event" where
  "qr_event_of env rid e next code =
     \<lparr>qv_qrPaymentRequestId = rid, qv_eventType = e, qv_previousStatus = Some ''PROCESSING'',
      qv_nextStatus = Some next, qv_safeCode = code, qv_occurredAt = p_now env\<rparr>"

definition qr_record_settlement ::
  "'a payments_env_scheme \<Rightarrow> qr_redemption \<Rightarrow> transfer_result \<Rightarrow> qr_db \<Rightarrow> (payments_error, qr_redemption \<times> qr_db) res" where
  "qr_record_settlement env x r db =
     andThen (bigint (minorUnits (tr_senderBalanceAfter r))) (\<lambda>sb.
     andThen (bigint (minorUnits (tr_recipientBalanceAfter r))) (\<lambda>rb.
       let f = (\<lambda>y. y\<lparr>qx_status := QP_COMPLETED, qx_ledgerJournalId := Some (tr_journalId r),
                      qx_senderBalanceAfterMinor := Some sb, qx_recipientBalanceAfterMinor := Some rb,
                      qx_completedAt := Some (p_now env)\<rparr>)
       in if list_ex (\<lambda>y. qx_id y \<noteq> qx_id x \<and> qx_ledgerJournalId y = Some (tr_journalId r)) (qrRedemptions db)
          then Inl PaymentsUniqueViolation
          else (case find_by qx_id (qx_id x) (qrRedemptions db) of
                  None \<Rightarrow> Inl PaymentsPlainError
                | Some y \<Rightarrow> Inr (f y,
                    db\<lparr>qrRedemptions := update_by qx_id (qx_id x) f (qrRedemptions db),
                       qrRequests := update_by qr_id (qx_qrPaymentRequestId x)
                         (\<lambda>q. q\<lparr>qr_status := QR_REDEEMED, qr_redeemedAt := Some (p_now env)\<rparr>) (qrRequests db),
                       qrEvents := qrEvents db @
                         [qr_event_of env (qx_qrPaymentRequestId x) QE_COMPLETED ''COMPLETED'' None]\<rparr>))))"

definition qr_record_failure ::
  "'a payments_env_scheme \<Rightarrow> qr_redemption \<Rightarrow> string option \<Rightarrow> qr_db \<Rightarrow> (payments_error, qr_redemption \<times> qr_db) res" where
  "qr_record_failure env x code db =
     (let f = (\<lambda>y. y\<lparr>qx_status := QP_FAILED, qx_failedAt := Some (p_now env)\<rparr>) in
      case find_by qx_id (qx_id x) (qrRedemptions db) of
        None \<Rightarrow> Inl PaymentsPlainError
      | Some y \<Rightarrow> Inr (f y,
          db\<lparr>qrRedemptions := update_by qx_id (qx_id x) f (qrRedemptions db),
             qrEvents := qrEvents db @
               [qr_event_of env (qx_qrPaymentRequestId x) QE_FAILED ''FAILED''
                 (Some (case code of None \<Rightarrow> ''UNKNOWN'' | Some c \<Rightarrow> c))]\<rparr>))"

definition qr_settle ::
  "'a payments_env_scheme \<Rightarrow> 's ledger_call \<Rightarrow> qr_redemption \<Rightarrow> string \<Rightarrow> string \<Rightarrow> qr_db \<Rightarrow> 's
     \<Rightarrow> (payments_error, qr_redemption) res \<times> qr_db \<times> 's" where
  "qr_settle env call x recipientPublicReference correlationId db s =
     (case call (qr_settle_command x recipientPublicReference) correlationId s of
        (reply, s') \<Rightarrow>
          (case reply of
             Answer r \<Rightarrow>
               (case qr_record_settlement env x r db of
                  Inr (y, db') \<Rightarrow> (Inr y, db', s')
                | Inl _ \<Rightarrow> (Inr x, db, s'))
           | CallFailed status code \<Rightarrow>
               if status < 500 then
                 (case qr_record_failure env x code db of
                    Inr (y, db') \<Rightarrow> (Inr y, db', s')
                  | Inl e \<Rightarrow> (Inl e, db, s'))
               else (Inr x, db, s')
           | Unreachable \<Rightarrow> (Inr x, db, s')))"

record qr_confirmation =
  qc_senderCustomerId :: string
  qc_intentToken :: string
  qc_idempotencyKey :: string

definition qr_request_hash :: "'a payments_env_scheme \<Rightarrow> string \<Rightarrow> string \<Rightarrow> string" where
  "qr_request_hash env senderCustomerId intentTokenHash =
     canonicalRequestHash (p_sha256 env) (JObj [(''senderCustomerId'', Some (JStr senderCustomerId)),
       (''intentTokenHash'', Some (JStr intentTokenHash))])"

text \<open>The transaction: the redemption with the public reference of its code, and whether it answers a repeat.\<close>

definition qr_confirm_transaction ::
  "'a payments_env_scheme \<Rightarrow> qr_confirmation \<Rightarrow> qr_db \<Rightarrow> (payments_error, (qr_redemption \<times> string \<times> bool) \<times> qr_db) res" where
  "qr_confirm_transaction env input db =
     (let tokenHash = p_sha256 env (qc_intentToken input);
          keyHash = p_sha256 env (qc_idempotencyKey input);
          hash = qr_request_hash env (qc_senderCustomerId input) tokenHash
      in case List.find (\<lambda>x. qx_senderCustomerId x = qc_senderCustomerId input \<and> qx_idempotencyKeyHash x = keyHash)
                (qrRedemptions db) of
           Some x \<Rightarrow>
             if qx_requestHash x \<noteq> hash then Inl (paymentError ''IDEMPOTENCY_CONFLICT'')
             else Inr ((x, [], True), db)
         | None \<Rightarrow>
             (case find_by qx_intentTokenHash tokenHash (qrRedemptions db) of
                None \<Rightarrow> Inl (PaymentsError ''QR_INVALID'' 400)
              | Some x \<Rightarrow>
                  (case find_by qr_id (qx_qrPaymentRequestId x) (qrRequests db) of
                     None \<Rightarrow> Inl PaymentsPlainError
                   | Some q \<Rightarrow>
                       if qx_status x \<noteq> QP_PROCESSING then Inl (PaymentsError ''QR_ALREADY_REDEEMED'' 409)
                       else if qr_expiresAt q \<le> p_now env \<or> qr_status q = QR_EXPIRED
                       then Inl (PaymentsError ''QR_EXPIRED'' 410)
                       else if list_ex (\<lambda>y. qx_id y \<noteq> qx_id x \<and> qx_senderCustomerId y = qx_senderCustomerId x
                                 \<and> qx_idempotencyKeyHash y = keyHash) (qrRedemptions db)
                       then Inl PaymentsUniqueViolation
                       else (let f = (\<lambda>y. y\<lparr>qx_idempotencyKeyHash := keyHash, qx_requestHash := hash\<rparr>)
                             in Inr ((f x, qr_recipientPublicReference q, False),
                                  db\<lparr>qrRedemptions := update_by qx_id (qx_id x) f (qrRedemptions db)\<rparr>)))))"

definition qr_confirm ::
  "'a payments_env_scheme \<Rightarrow> 's ledger_call \<Rightarrow> qr_confirmation \<Rightarrow> string \<Rightarrow> qr_db \<Rightarrow> 's
     \<Rightarrow> (payments_error, qr_receipt_line) res \<times> qr_db \<times> 's" where
  "qr_confirm env call input correlationId db s =
     (case qr_confirm_transaction env input db of
        Inl e \<Rightarrow> (Inl e, db, s)
      | Inr ((x, publicRef, replayed), db1) \<Rightarrow>
          if replayed then (Inr (formatRedemption x), db1, s)
          else (case qr_settle env call x publicRef correlationId db1 s of
                  (out, db2, s') \<Rightarrow> (andThen out (\<lambda>y. Inr (formatRedemption y)), db2, s')))"

definition qr_lookup :: "string \<Rightarrow> string \<Rightarrow> qr_db \<Rightarrow> (payments_error, qr_redemption) res" where
  "qr_lookup customerId qrId db =
     ofOption (PaymentsError ''TRANSFER_NOT_FOUND'' 404)
       (List.find (\<lambda>x. qx_qrPaymentRequestId x = qrId
          \<and> (qx_senderCustomerId x = customerId \<or> qx_recipientCustomerId x = customerId)) (qrRedemptions db))"

definition qr_status_of ::
  "string \<Rightarrow> string \<Rightarrow> qr_db \<Rightarrow> (payments_error, string \<times> string \<times> qrPaymentStatus \<times> money \<times> time \<times> time option) res" where
  "qr_status_of customerId qrId db =
     andThen (qr_lookup customerId qrId db) (\<lambda>x.
       Inr (qx_id x, qx_displayReference x, qx_status x,
            \<lparr>currency = qx_currency x, minorUnits = dec_of_int (qx_amountMinor x)\<rparr>, qx_createdAt x, qx_completedAt x))"

definition qr_receipt ::
  "string \<Rightarrow> string \<Rightarrow> qr_db \<Rightarrow> (payments_error, qr_receipt_line \<times> string \<times> string option) res" where
  "qr_receipt customerId qrId db =
     andThen (qr_lookup customerId qrId db) (\<lambda>x.
       Inr (formatRedemption x, ''RCPT-'' @ qx_displayReference x,
            Option.bind (find_by qr_id (qx_qrPaymentRequestId x) (qrRequests db)) qr_purpose))"

section \<open>What a signature binds\<close>

definition payload_entries :: "'a qr_payload_scheme \<Rightarrow> (string \<times> string) list" where
  "payload_entries d =
     (case qp_amountMinor d of None \<Rightarrow> [] | Some a \<Rightarrow> [(''amountMinor'', a)])
     @ [(''currency'', qp_currency d), (''expiresAt'', qp_expiresAt d), (''keyId'', qp_keyId d), (''nonce'', qp_nonce d)]
     @ (case qp_purpose d of None \<Rightarrow> [] | Some p \<Rightarrow> [(''purpose'', p)])
     @ [(''recipientRef'', qp_recipientRef d), (''type'', qr_type_text (qp_type d)),
        (''version'', dec_of_int (qp_version d))]"

lemma canonicalPayloadString_eq [code]:
  "canonicalPayloadString d = join_with ''&'' (map (\<lambda>(k, v). k @ ''='' @ v) (payload_entries d))"
  by (cases "qp_amountMinor d"; cases "qp_purpose d")
    (simp_all add: canonicalPayloadString_def payload_entries_def Let_def)

text \<open>The separator does not occur in the fields.\<close>

definition plain_fields :: "'a qr_payload_scheme \<Rightarrow> bool" where
  "plain_fields d =
     (CHR ''&'' \<notin> set (qp_currency d) \<and> CHR ''&'' \<notin> set (qp_expiresAt d) \<and> CHR ''&'' \<notin> set (qp_keyId d)
      \<and> CHR ''&'' \<notin> set (qp_nonce d) \<and> CHR ''&'' \<notin> set (qp_recipientRef d)
      \<and> (case qp_amountMinor d of None \<Rightarrow> True | Some a \<Rightarrow> CHR ''&'' \<notin> set a)
      \<and> (case qp_purpose d of None \<Rightarrow> True | Some a \<Rightarrow> CHR ''&'' \<notin> set a))"

lemma dec_of_int_no_amp: "CHR ''&'' \<notin> set (dec_of_int i)"
proof -
  have "CHR ''&'' \<notin> set (dec_of_nat n)" for n
    using dec_of_nat_digits [of n] by (auto simp: list_all_iff is_digit_def)
  then show ?thesis by (simp add: dec_of_int_def)
qed

lemma payload_split:
  assumes "plain_fields d"
  shows "split_on CHR ''&'' (canonicalPayloadString d) = map (\<lambda>(k, v). k @ ''='' @ v) (payload_entries d)"
  unfolding canonicalPayloadString_eq
  by (rule split_join)
    (use assms dec_of_int_no_amp in \<open>auto simp: payload_entries_def plain_fields_def qr_type_text_def
      split: option.splits qrType.splits\<close>)

lemma payload_fields_eq:
  assumes "plain_fields d" "plain_fields e" "canonicalPayloadString d = canonicalPayloadString e"
  shows "qp_version d = qp_version e \<and> qp_recipientRef d = qp_recipientRef e \<and> qp_currency d = qp_currency e
    \<and> qp_amountMinor d = qp_amountMinor e \<and> qp_nonce d = qp_nonce e \<and> qp_expiresAt d = qp_expiresAt e
    \<and> qp_type d = qp_type e \<and> qp_purpose d = qp_purpose e \<and> qp_keyId d = qp_keyId e"
proof -
  have "map (\<lambda>(k, v). k @ ''='' @ v) (payload_entries d) = map (\<lambda>(k, v). k @ ''='' @ v) (payload_entries e)"
    using payload_split [OF assms(1)] payload_split [OF assms(2)] assms(3) by metis
  then show ?thesis
    by (cases "qp_amountMinor d"; cases "qp_purpose d"; cases "qp_amountMinor e"; cases "qp_purpose e")
      (auto simp: payload_entries_def qr_type_text_def split: qrType.splits)
qed

section \<open>Reading back what was issued\<close>

lemma isSignedQrPayload_json: "isSignedQrPayload (payload_json p) = Some p"
  by (cases p; cases "qp_amountMinor p"; cases "qp_purpose p"; cases "qp_type p")
    (auto simp: isSignedQrPayload_def payload_json_def json_text_def json_optional_text_def type_of_text_def qr_type_text_def)

lemma signed_fields [simp]:
  "qp_version (signQrPayload h d k) = qp_version d" "qp_nonce (signQrPayload h d k) = qp_nonce d"
  "qp_currency (signQrPayload h d k) = qp_currency d" "qp_amountMinor (signQrPayload h d k) = qp_amountMinor d"
  "qp_expiresAt (signQrPayload h d k) = qp_expiresAt d"
  "canonicalPayloadString (signQrPayload h d k) = canonicalPayloadString d"
  "qp_signature (signQrPayload h d k) = h k (canonicalPayloadString d)"
  by (simp_all add: signQrPayload_def qr_payload.defs signed_payload.defs canonicalPayloadString_def)

lemma verify_signed: "hex_bytes (h k (canonicalPayloadString d)) \<noteq> [] \<Longrightarrow> verifyQrSignature h (signQrPayload h d k) k"
  by (simp add: verifyQrSignature_def Let_def)

text \<open>The codec and the clock format read back what they wrote; the keyed hash prints hexadecimal.\<close>

definition qr_env_ok :: "qr_env \<Rightarrow> bool" where
  "qr_env_ok env =
     ((\<forall>p. q_parse env (q_print env (payload_json p)) = Some (payload_json p))
      \<and> (\<forall>t. q_ofIso env (q_toIso env t) = Some t)
      \<and> (\<forall>m. hex_bytes (q_hmac env (q_signingKey env) m) \<noteq> []))"

definition same_service :: "qr_env \<Rightarrow> qr_env \<Rightarrow> bool" where
  "same_service env env' =
     (p_sha256 env' = p_sha256 env \<and> q_hmac env' = q_hmac env \<and> q_signingKey env' = q_signingKey env
      \<and> q_toIso env' = q_toIso env \<and> q_ofIso env' = q_ofIso env \<and> q_print env' = q_print env \<and> q_parse env' = q_parse env)"

lemma issue_spec:
  assumes "issue env cfg reply input db = Inr (res, db')"
  obtains masked public amount q where "reply = AccountIs masked public"
    "truthy (qi2_amountMinor input) = None \<and> amount = None
      \<or> (\<exists>a v. truthy (qi2_amountMinor input) = Some a \<and> bigint a = Inr v \<and> amount = Some v)"
    "find_by qr_nonceHash (p_sha256 env (q_nonce env)) (qrRequests db') = Some q"
    "qr_id q = qo_qrId res" "qr_status q = QR_ACTIVE" "qr_amountMinor q = amount" "qr_currency q = qi2_currency input"
    "qr_recipientCustomerId q = qi2_customerId input" "qr_recipientPublicReference q = public"
    "qo_payload res = encodeQrPayload env (issue_payload env cfg input public)" "qrRedemptions db' = qrRedemptions db"
proof -
  from assms obtain masked public amount q where r: "reply = AccountIs masked public"
    and a: "truthy (qi2_amountMinor input) = None \<and> amount = None
      \<or> (\<exists>a v. truthy (qi2_amountMinor input) = Some a \<and> bigint a = Inr v \<and> amount = Some v)"
    and q: "create_qr_request q (p_now env) db = Inr db'" "qr_id q = qo_qrId res" "qr_status q = QR_ACTIVE"
      "qr_amountMinor q = amount" "qr_currency q = qi2_currency input" "qr_nonceHash q = p_sha256 env (q_nonce env)"
      "qr_recipientCustomerId q = qi2_customerId input" "qr_recipientPublicReference q = public"
    and o: "qo_payload res = encodeQrPayload env (issue_payload env cfg input public)"
    by (auto simp: issue_def issuing_account_def Let_def res_simps split: account_reply.splits if_splits option.splits)
  have "find_by qr_nonceHash (qr_nonceHash q) (qrRequests db) = None"
    using q(1) by (auto simp: create_qr_request_def list_ex_iff find_by_None split: if_splits)
  then have "find_by qr_nonceHash (p_sha256 env (q_nonce env)) (qrRequests db') = Some q" "qrRedemptions db' = qrRedemptions db"
    using q(1,6) by (auto simp: create_qr_request_def find_by_append split: if_splits)
  with that [OF r a _ q(2,3,4,5,7,8) o] show ?thesis by blast
qed

section \<open>Calls the ledger's schema refuses\<close>

lemma ledger_transfer_refuses:
  assumes "\<not> internalLedgerTransferCommandSchema (isUuid lenv) cmd"
  shows "ledger_transfer lenv net cid cmd ldb =
     (if net = DELIVERED then CallFailed 400 (Some ''INVALID_REQUEST'') else Unreachable, ldb)"
  using assms
  by (cases net) (simp_all add: ledger_transfer_def transfer_endpoint_def reply_of_def invalidRequestError_def exception_filter_def)

lemma served_call_refuses:
  assumes "\<And>uuid. \<not> internalLedgerTransferCommandSchema uuid cmd"
  shows "\<exists>rest. served_call cmd cid s = (CallFailed 400 (Some ''INVALID_REQUEST''), (fst s, rest))
    \<or> served_call cmd cid s = (Unreachable, (fst s, rest))"
  using assms by (auto simp: served_call_def ledger_transfer_refuses split: list.splits prod.splits)

lemma qrp_reference_refused: "\<not> transferDisplayReferenceSchema (newQrPaymentReference h)"
  by (auto simp: transferDisplayReferenceSchema_def newQrPaymentReference_def split: list.splits)

section \<open>Reachable databases\<close>

inductive qr_step :: "payments_config \<Rightarrow> 's ledger_call \<Rightarrow> qr_db \<times> 's \<Rightarrow> qr_db \<times> 's \<Rightarrow> bool" for cfg call where
  qr_issue: "issue env cfg reply input db = Inr (res, db') \<Longrightarrow> qr_step cfg call (db, s) (db', s)"
| qr_scan: "qr_preview env reply pinput db = Inr (pres, db') \<Longrightarrow> qr_step cfg call (db, s) (db', s)"
| qr_pay: "qr_confirm (env :: qr_env) call cinput cid db s = (out, db', s') \<Longrightarrow> qr_step cfg call (db, s) (db', s')"

definition qr_open :: "qr_redemption \<Rightarrow> bool" where
  "qr_open x =
     ((\<exists>h. qx_displayReference x = newQrPaymentReference h) \<and> qx_status x \<noteq> QP_COMPLETED \<and> qx_ledgerJournalId x = None)"

definition qr_inv :: "qr_db \<Rightarrow> bool" where
  "qr_inv db =
     (distinct (map qx_qrPaymentRequestId (qrRedemptions db)) \<and> distinct (map qx_id (qrRedemptions db))
      \<and> distinct (map qr_nonceHash (qrRequests db)) \<and> (\<forall>x \<in> set (qrRedemptions db). qr_open x))"

lemma update_redemptions_inv:
  assumes "qr_inv db" and "\<And>x. qx_id (f x) = qx_id x \<and> qx_qrPaymentRequestId (f x) = qx_qrPaymentRequestId x"
    and "\<And>x. qr_open x \<Longrightarrow> qr_open (f x)"
  shows "qr_inv (db\<lparr>qrRedemptions := update_by qx_id k f (qrRedemptions db)\<rparr>)"
  using assms by (auto simp: qr_inv_def set_update_by)

lemma create_qr_request_inv:
  assumes "qr_inv db" and "create_qr_request r now db = Inr db'"
  shows "qr_inv db'"
proof -
  from assms(2) have "qr_nonceHash r \<notin> qr_nonceHash ` set (qrRequests db)"
    by (auto simp: create_qr_request_def list_ex_iff split: if_splits)
  with assms show ?thesis by (auto simp: create_qr_request_def qr_inv_def split: if_splits)
qed

lemma issue_inv: "qr_inv db \<Longrightarrow> issue env cfg reply input db = Inr (res, db') \<Longrightarrow> qr_inv db'"
  by (auto simp: issue_def Let_def res_simps split: prod.splits dest: create_qr_request_inv)

lemma add_redemption_inv:
  assumes "qr_inv db" and "\<not> list_ex (redemption_collides x) (qrRedemptions db)" and "qr_open x"
  shows "qr_inv (db\<lparr>qrRedemptions := qrRedemptions db @ [x], qrEvents := es\<rparr>)"
proof -
  have "qx_id x \<notin> qx_id ` set (qrRedemptions db)"
    "qx_qrPaymentRequestId x \<notin> qx_qrPaymentRequestId ` set (qrRedemptions db)"
    using assms(2) by (auto simp: list_ex_iff redemption_collides_def)
  with assms(1,3) show ?thesis by (auto simp: qr_inv_def)
qed

lemma qr_preview_inv: "qr_inv db \<Longrightarrow> qr_preview env reply input db = Inr (res, db') \<Longrightarrow> qr_inv db'"
  by (auto simp: qr_preview_def Let_def res_simps preview_redemption_def qr_open_def
      intro!: add_redemption_inv)

text \<open>A redemption with a QR reference never gets an answer from the ledger.\<close>

lemma qr_settle_inv:
  assumes inv: "qr_inv db" and x: "\<exists>h. qx_displayReference x = newQrPaymentReference h" "qx_status x \<noteq> QP_COMPLETED"
    and ok: "qr_settle env served_call x ref cid db s = (out, db', s')"
  shows "qr_inv db' \<and> fst s' = fst s \<and> (\<forall>y. out = Inr y \<longrightarrow> qx_status y \<noteq> QP_COMPLETED)"
proof -
  have "\<not> internalLedgerTransferCommandSchema uuid (qr_settle_command x ref)" for uuid
    using x(1) qrp_reference_refused by (auto simp: internalLedgerTransferCommandSchema_def qr_settle_command_def)
  from served_call_refuses [OF this] obtain rest where
    c: "served_call (qr_settle_command x ref) cid s = (CallFailed 400 (Some ''INVALID_REQUEST''), (fst s, rest))
      \<or> served_call (qr_settle_command x ref) cid s = (Unreachable, (fst s, rest))" by blast
  have inv_upd: "qr_inv (db\<lparr>qrRedemptions := update_by qx_id (qx_id x)
        (\<lambda>y. y\<lparr>qx_status := QP_FAILED, qx_failedAt := Some (p_now env)\<rparr>) (qrRedemptions db), qrEvents := es\<rparr>)" for es
    using update_redemptions_inv [OF inv, of "\<lambda>y. y\<lparr>qx_status := QP_FAILED, qx_failedAt := Some (p_now env)\<rparr>" "qx_id x"]
    by (auto simp: qr_inv_def qr_open_def)
  from c ok inv x show ?thesis
    by (auto simp: qr_settle_def qr_record_failure_def Let_def inv_upd split: option.splits)
qed

lemma qr_confirm_inv:
  assumes inv: "qr_inv db" and ok: "qr_confirm env served_call input cid db s = (out, db', s')"
  shows "qr_inv db' \<and> fst s' = fst s \<and> (\<forall>r. out = Inr r \<longrightarrow> qf_status r \<noteq> QP_COMPLETED)"
proof (cases "qr_confirm_transaction env input db")
  case (Inl e)
  with ok inv show ?thesis by (auto simp: qr_confirm_def)
next
  case (Inr z)
  then obtain x ref rep db1 where tx: "qr_confirm_transaction env input db = Inr ((x, ref, rep), db1)" by (metis prod.exhaust)
  define f where "f = (\<lambda>y :: qr_redemption. y\<lparr>qx_idempotencyKeyHash := p_sha256 env (qc_idempotencyKey input),
      qx_requestHash := qr_request_hash env (qc_senderCustomerId input) (p_sha256 env (qc_intentToken input))\<rparr>)"
  have upd: "qr_inv (db\<lparr>qrRedemptions := update_by qx_id k f (qrRedemptions db)\<rparr>)" for k
    by (rule update_redemptions_inv [OF inv]) (auto simp: f_def qr_open_def)
  have mem: "qr_open u" if "u \<in> set (qrRedemptions db)" for u using inv that by (simp add: qr_inv_def)
  from tx have one: "qr_inv db1 \<and> qr_open x"
    using inv upd mem
    by (auto simp: qr_confirm_transaction_def Let_def f_def qr_open_def find_Some_iff split: option.splits if_splits
        dest!: find_by_Some mem)
  then have x: "\<exists>h. qx_displayReference x = newQrPaymentReference h" "qx_status x \<noteq> QP_COMPLETED" by (auto simp: qr_open_def)
  show ?thesis
  proof (cases rep)
    case True
    with ok tx one x show ?thesis by (auto simp: qr_confirm_def formatRedemption_def)
  next
    case False
    obtain o2 where st: "qr_settle env served_call x ref cid db1 s = (o2, db', s')"
      and out: "out = andThen o2 (\<lambda>y. Inr (formatRedemption y))"
      using ok tx False by (auto simp: qr_confirm_def split: prod.splits)
    from qr_settle_inv [OF conjunct1 [OF one] x st] show ?thesis by (auto simp: out res_simps formatRedemption_def)
  qed
qed

lemma qr_step_inv:
  "qr_step cfg served_call a b \<Longrightarrow> qr_inv (fst a) \<Longrightarrow> qr_inv (fst b) \<and> fst (snd b) = fst (snd a)"
  by (induction rule: qr_step.induct) (auto dest: issue_inv qr_preview_inv qr_confirm_inv)

lemma qr_reach_inv:
  assumes "(qr_step cfg served_call)\<^sup>*\<^sup>* a b" and "qr_inv (fst a)"
  shows "qr_inv (fst b) \<and> fst (snd b) = fst (snd a)"
  using assms by (induction rule: rtranclp_induct) (auto dest: qr_step_inv)

section \<open>A concrete code\<close>

text \<open>For the witnesses: a text form in which every string is preceded by its length in unary.\<close>

definition put_str :: "string \<Rightarrow> string" where
  "put_str x = replicate (length x) CHR ''1'' @ CHR ''0'' # x"

fun get_str :: "nat \<Rightarrow> string \<Rightarrow> string \<times> string" where
  "get_str n [] = ([], [])"
| "get_str n (c # s) = (if c = CHR ''1'' then get_str (Suc n) s else (take n s, drop n s))"

fun get_strs :: "nat \<Rightarrow> string \<Rightarrow> string list" where
  "get_strs 0 s = []"
| "get_strs (Suc k) s = (case get_str 0 s of (x, r) \<Rightarrow> x # get_strs k r)"

definition put_opt :: "string option \<Rightarrow> string" where
  "put_opt x = (case x of None \<Rightarrow> [] | Some a \<Rightarrow> CHR ''s'' # a)"

definition get_opt :: "string \<Rightarrow> string option" where
  "get_opt x = (if x = [] then None else Some (tl x))"

definition demo_print :: "(string \<times> json) list \<Rightarrow> string" where
  "demo_print obj =
     (case isSignedQrPayload obj of
        None \<Rightarrow> []
      | Some p \<Rightarrow> concat (map put_str [dec_of_int (qp_version p), qp_recipientRef p, qp_currency p,
          put_opt (qp_amountMinor p), qp_nonce p, qp_expiresAt p, qr_type_text (qp_type p), put_opt (qp_purpose p),
          qp_keyId p, qp_signature p]))"

definition demo_parse :: "string \<Rightarrow> (string \<times> json) list option" where
  "demo_parse s =
     (case get_strs 10 s of
        [v, r, c, a, n, e, t, u, k, g] \<Rightarrow>
          (case type_of_text (Some t) of
             None \<Rightarrow> None
           | Some ty \<Rightarrow> Some (payload_json
               \<lparr>qp_version = int_of_dec v, qp_recipientRef = r, qp_currency = c, qp_amountMinor = get_opt a, qp_nonce = n,
                qp_expiresAt = e, qp_type = ty, qp_purpose = get_opt u, qp_keyId = k, qp_signature = g\<rparr>))
      | _ \<Rightarrow> None)"

definition demo_qr_env :: "time \<Rightarrow> qr_env" where
  "demo_qr_env now =
     payments_env.extend (demo_pay_env now)
       (qr_env.fields (\<lambda>k m. ''ab'') ''key'' ''nonce-1'' dec_of_int (\<lambda>s. Some (int_of_dec s)) demo_print demo_parse)"

definition demo_issue_input :: issue_input where
  "demo_issue_input =
     \<lparr>qi2_customerId = ''merchant'', qi2_accountId = ''acc-m'', qi2_type = DYNAMIC, qi2_amountMinor = Some ''250'',
      qi2_currency = ''LKR'', qi2_purpose = Some ''Lunch''\<rparr>"

definition empty_qr_db :: qr_db where
  "empty_qr_db = \<lparr>qrRequests = [], qrRedemptions = [], qrEvents = []\<rparr>"

definition demo_scan :: "(payments_error, qr_preview_result \<times> qr_db) res" where
  "demo_scan =
     andThen (issue (demo_qr_env 1000) demo_cfg (AccountIs ''m'' ''r'') demo_issue_input empty_qr_db) (\<lambda>(res, db).
       qr_preview (demo_qr_env 2000) (AccountIs ''m2'' ''r2'')
         \<lparr>qpi_payload = qo_payload res, qpi_senderCustomerId = ''alice'', qpi_sourceAccountId = ''acc-alice''\<rparr> db)"

definition demo_scanned_db :: qr_db where
  "demo_scanned_db = (case demo_scan of Inr (_, db) \<Rightarrow> db | Inl _ \<Rightarrow> empty_qr_db)"

lemma get_put_str [simp]: "get_str 0 (put_str x @ r) = (x, r)"
proof -
  have "get_str k (replicate n CHR ''1'' @ CHR ''0'' # y) = (take (k + n) y, drop (k + n) y)" for k n y
    by (induction n arbitrary: k) auto
  from this [of 0 "length x" "x @ r"] show ?thesis by (simp add: put_str_def)
qed

lemma get_put_strs: "get_strs (length xs) (concat (map put_str xs) @ r) = xs"
  by (induction xs) simp_all

lemma get_put_opt [simp]: "get_opt (put_opt x) = x"
  by (cases x) (simp_all add: get_opt_def put_opt_def)

lemma demo_scanned_reached: "(qr_step demo_cfg call)\<^sup>*\<^sup>* (empty_qr_db, s) (demo_scanned_db, s)"
proof -
  have "\<not> isl demo_scan" by code_simp
  then obtain pres db where sc: "demo_scan = Inr (pres, db)" by (metis isl_def sum.exhaust prod.exhaust)
  then have "demo_scanned_db = db" unfolding demo_scanned_db_def sc by simp
  with sc obtain res db1 where i: "issue (demo_qr_env 1000) demo_cfg (AccountIs ''m'' ''r'') demo_issue_input empty_qr_db = Inr (res, db1)"
    and p: "qr_preview (demo_qr_env 2000) (AccountIs ''m2'' ''r2'')
         \<lparr>qpi_payload = qo_payload res, qpi_senderCustomerId = ''alice'', qpi_sourceAccountId = ''acc-alice''\<rparr> db1
         = Inr (pres, demo_scanned_db)"
    by (auto simp: demo_scan_def res_simps)
  from qr_issue [OF i] qr_scan [OF p] show ?thesis by (meson converse_rtranclp_into_rtranclp r_into_rtranclp)
qed

section \<open>Properties\<close>

text \<open>a QR code can be read back.  A code the service issued in LKR, with a positive amount or none, is
  accepted by the preview of another customer any time before it expires: version, signature, expiry,
  currency and amount pass, the record is found by its nonce, and the preview reports the code's own
  identifier and amount and stores one redemption for it.\<close>

theorem issued_code_previews:
  assumes ok: "issue env cfg reply input db = Inr (res, db')" and env: "qr_env_ok env" "same_service env env'"
    and lkr: "qi2_currency input = ''LKR''"
    and pos: "\<forall>a v. truthy (qi2_amountMinor input) = Some a \<longrightarrow> bigint a = Inr v \<longrightarrow> 0 < v"
    and now: "p_now env' < issue_expiry env cfg (qi2_type input)"
    and other: "sender \<noteq> qi2_customerId input"
    and fresh: "\<And>x. qx_qrPaymentRequestId x = qo_qrId res \<Longrightarrow> qx_id x = p_uuid env' 0 \<Longrightarrow>
       qx_displayReference x = newQrPaymentReference (p_hex env') \<Longrightarrow> qx_intentTokenHash x = p_sha256 env' (p_token env') \<Longrightarrow>
       qx_senderCustomerId x = sender \<Longrightarrow> qx_idempotencyKeyHash x = p_sha256 env' (''temp-'' @ p_token env') \<Longrightarrow>
       \<not> list_ex (redemption_collides x) (qrRedemptions db)"
  shows "\<exists>out db''. qr_preview env' (AccountIs masked receiving)
        \<lparr>qpi_payload = qo_payload res, qpi_senderCustomerId = sender, qpi_sourceAccountId = account\<rparr> db' = Inr (out, db'')
    \<and> qpr_qrId out = qo_qrId res
    \<and> qpr_amount out = (case truthy (qi2_amountMinor input) of None \<Rightarrow> None
        | Some a \<Rightarrow> (case bigint a of Inr v \<Rightarrow> Some (lkr v) | Inl _ \<Rightarrow> None))
    \<and> length (qrRedemptions db'') = Suc (length (qrRedemptions db))"
proof -
  obtain m0 public amount q where
    am: "truthy (qi2_amountMinor input) = None \<and> amount = None
      \<or> (\<exists>a v. truthy (qi2_amountMinor input) = Some a \<and> bigint a = Inr v \<and> amount = Some v)"
    and q: "find_by qr_nonceHash (p_sha256 env (q_nonce env)) (qrRequests db') = Some q"
    "qr_id q = qo_qrId res" "qr_status q = QR_ACTIVE" "qr_amountMinor q = amount" "qr_currency q = qi2_currency input"
    "qr_recipientCustomerId q = qi2_customerId input"
    and pl: "qo_payload res = encodeQrPayload env (issue_payload env cfg input public)" and rd: "qrRedemptions db' = qrRedemptions db"
    by (rule issue_spec [OF ok])
  let ?p = "issue_payload env cfg input public"
  have dec: "decodeQrPayload env' (qo_payload res) = Some ?p"
    using env by (simp add: pl decodeQrPayload_def encodeQrPayload_def qr_env_ok_def same_service_def isSignedQrPayload_json)
  have ver: "verifyQrSignature (q_hmac env') ?p (q_signingKey env')"
    using env by (simp add: issue_payload_def same_service_def qr_env_ok_def verify_signed)
  have "check_payload env' (qo_payload res) = Inr ?p"
    using env now lkr pos am
    by (auto simp: check_payload_def dec ver) (auto simp: issue_payload_def same_service_def qr_env_ok_def)
  moreover have "check_record env' ?p sender db' = Inr q"
    using env q other by (simp add: check_record_def issue_payload_def same_service_def)
  moreover have "qp_amountMinor ?p = truthy (qi2_amountMinor input)" by (simp add: issue_payload_def)
  moreover have "bigint ''0'' = Inr 0" using js_BigInt_nat [of 0] by (simp add: bigint_def)
  moreover have "truthy None = None" by (simp add: truthy_def)
  ultimately show ?thesis using q am pos fresh lkr rd
    by (auto simp: qr_preview_def Let_def preview_redemption_def lkr_def)
qed

text \<open>C18: a signature binds the whole payload.  When the signature a scanned payload carries is the one made
  for an issued payload, the signing key's hash does not collide on the two texts, and the fields are free
  of the separator, then every field of the scanned payload (amount, nonce, recipient, expiry, type,
  purpose) is the issued one.\<close>

theorem signature_binds_payload:
  assumes ok: "verifyQrSignature hmac p key" and sig: "qp_signature p = qp_signature (signQrPayload hmac d key)"
    and inj: "hex_bytes (hmac key (canonicalPayloadString p)) = hex_bytes (hmac key (canonicalPayloadString d))
       \<Longrightarrow> canonicalPayloadString p = canonicalPayloadString d"
    and plain: "plain_fields p" "plain_fields d"
  shows "qp_version p = qp_version d \<and> qp_recipientRef p = qp_recipientRef d \<and> qp_currency p = qp_currency d
    \<and> qp_amountMinor p = qp_amountMinor d \<and> qp_nonce p = qp_nonce d \<and> qp_expiresAt p = qp_expiresAt d
    \<and> qp_type p = qp_type d \<and> qp_purpose p = qp_purpose d \<and> qp_keyId p = qp_keyId d"
proof -
  have "hex_bytes (hmac key (canonicalPayloadString p)) = hex_bytes (hmac key (canonicalPayloadString d))"
    using ok sig by (auto simp: verifyQrSignature_def Let_def split: if_splits)
  from payload_fields_eq [OF plain inj [OF this]] show ?thesis .
qed

theorem signature_binds_payload_witness:
  "let d = \<lparr>qp_version = 1, qp_recipientRef = ''R'', qp_currency = ''LKR'', qp_amountMinor = Some ''5'', qp_nonce = ''N'',
        qp_expiresAt = ''E'', qp_type = STATIC, qp_purpose = None, qp_keyId = ''K''\<rparr>
   in verifyQrSignature (\<lambda>k m. ''ab'') (signQrPayload (\<lambda>k m. ''ab'') d []) []
      \<and> qp_amountMinor (signQrPayload (\<lambda>k m. ''ab'') d []) = Some ''5''"
proof -
  let ?d = "\<lparr>qp_version = 1, qp_recipientRef = ''R'', qp_currency = ''LKR'', qp_amountMinor = Some ''5'', qp_nonce = ''N'',
        qp_expiresAt = ''E'', qp_type = STATIC, qp_purpose = None, qp_keyId = ''K''\<rparr>"
  have 1: "verifyQrSignature (\<lambda>k m. ''ab'') (signQrPayload (\<lambda>k m. ''ab'') ?d []) []" by code_simp
  have 2: "plain_fields (signQrPayload (\<lambda>k m. ''ab'') ?d [])" "plain_fields ?d" by code_simp+
  from signature_binds_payload [OF 1 refl _ 2] 1 show ?thesis by simp
qed

text \<open>no QR payment is ever settled.  The service asks the ledger for a customer transfer under an
  AEGIS-QRP reference, which the ledger's command schema refuses with 400: in every state the service can
  reach against the ledger, whatever the network does, the ledger has not moved and no redemption is
  COMPLETED or carries a journal.\<close>

theorem qr_never_settles:
  assumes "(qr_step cfg served_call)\<^sup>*\<^sup>* (empty_qr_db, (ldb, script)) (db, s)"
  shows "fst s = ldb \<and> (\<forall>x \<in> set (qrRedemptions db). qx_status x \<noteq> QP_COMPLETED \<and> qx_ledgerJournalId x = None)"
proof -
  have "qr_inv empty_qr_db" by (simp add: qr_inv_def empty_qr_db_def)
  with qr_reach_inv [OF assms] have "qr_inv db" "fst s = ldb" by simp_all
  then show ?thesis by (simp add: qr_inv_def qr_open_def)
qed

text \<open>a code is scanned once.  A redemption row is created at preview, and the index on the code allows
  one: while a redemption of a code exists, whatever became of it, every further preview of that code that
  passes the checks, by anyone, is refused by the database, static codes included.\<close>

theorem second_preview_refused:
  assumes ok: "check_payload env payload = Inr d" "check_record env d sender db = Inr q"
    and x: "x \<in> set (qrRedemptions db)" "qx_qrPaymentRequestId x = qr_id q"
    and amount: "qr_amountMinor q \<noteq> None"
  shows "qr_preview env (AccountIs masked receiving)
      \<lparr>qpi_payload = payload, qpi_senderCustomerId = sender, qpi_sourceAccountId = account\<rparr> db = Inl PaymentsUniqueViolation"
proof -
  obtain a where a: "qr_amountMinor q = Some a" using amount by auto
  have "list_ex (redemption_collides y) (qrRedemptions db)" if "qx_qrPaymentRequestId y = qr_id q" for y
    using x that unfolding list_ex_iff redemption_collides_def by metis
  then show ?thesis by (simp add: qr_preview_def ok a Let_def preview_redemption_def)
qed

end
