(* ===== verification/AgentCash.thy ===== *)
theory AgentCash
  imports QrPayments
begin

text \<open>
  Agent cash-in and cash-out in the payments service (\<open>services/payments/src/agent/agent.service.ts\<close>): preview,
  confirmation, settlement, status and limits, and the states they can reach.
\<close>

section \<open>Tables\<close>

datatype agentOperationType = OP_CASH_IN | OP_CASH_OUT

datatype agentStatus = AC_PENDING_CONFIRMATION | AC_PROCESSING | AC_COMPLETED | AC_FAILED | AC_CANCELLED

datatype agentEventType =
    AE_OPERATION_CREATED | AE_CUSTOMER_CONFIRMED | AE_PROCESSING_STARTED | AE_LEDGER_POSTED | AE_COMPLETED
  | AE_FAILED | AE_CANCELLED | AE_RECOVERY_RETRY

record agent_operation =
  ac_id :: string
  ac_displayReference :: string
  ac_operationType :: agentOperationType
  ac_status :: agentStatus
  ac_agentId :: string
  ac_agentReference :: string
  ac_customerCustomerId :: string
  ac_customerAccountId :: string
  ac_customerMaskedReference :: string
  ac_customerPublicReference :: string
  ac_agentAccountId :: string
  ac_currency :: string
  ac_amountMinor :: int
  ac_intentTokenHash :: string
  ac_idempotencyKeyHash :: string
  ac_requestHash :: string
  ac_ledgerJournalId :: "string option"
  ac_correlationId :: string
  ac_expiresAt :: time
  ac_confirmedAt :: "time option"
  ac_createdAt :: time
  ac_completedAt :: "time option"
  ac_failedAt :: "time option"

record agent_event =
  ae_operationId :: string
  ae_eventType :: agentEventType
  ae_previousStatus :: "agentStatus option"
  ae_nextStatus :: "agentStatus option"
  ae_occurredAt :: time

record agent_db =
  agentOperations :: "agent_operation list"
  agentEvents :: "agent_event list"

text \<open>What \<open>resolveAccountByReference\<close> of the ledger client gives its caller: the account, a
  \<open>LedgerCallError\<close> with the HTTP status, or any other error of \<open>fetch\<close> or of the body.\<close>

datatype resolve_reply = Resolved string string string | ResolveRefused nat | ResolveThrew

section \<open>Preview\<close>

record agent_preview_input =
  api_agentId :: string
  api_agentReference :: string
  api_customerReference :: string
  api_amountMinor :: string
  api_currency :: string
  api_operationType :: agentOperationType

record agent_preview_result =
  apr_operationId :: string
  apr_operationType :: agentOperationType
  apr_customerMaskedReference :: string
  apr_agentReference :: string
  apr_amount :: money
  apr_intentToken :: string
  apr_expiresAt :: time

definition generateReference :: "string \<Rightarrow> string" where
  "generateReference v =
     ''AEGIS-AGT-'' @ take 4 v @ ''-'' @ take 4 (drop 4 v) @ ''-'' @ take 4 (drop 8 v)"

definition agent_customer :: "resolve_reply \<Rightarrow> (payments_error, string \<times> string \<times> string) res" where
  "agent_customer reply =
     (case reply of
        Resolved customerId accountId masked \<Rightarrow> Inr (customerId, accountId, masked)
      | ResolveRefused status \<Rightarrow>
          Inl (if status = 404 then PaymentsError ''ACCOUNT_NOT_FOUND'' 404 else LedgerCallError status None)
      | ResolveThrew \<Rightarrow> Inl PaymentsPlainError)"

definition agent_daily_total :: "string \<Rightarrow> time \<Rightarrow> agent_db \<Rightarrow> int" where
  "agent_daily_total agentId today db =
     sum_list (map ac_amountMinor
       (filter (\<lambda>x. ac_agentId x = agentId \<and> ac_status x = AC_COMPLETED \<and> today \<le> ac_createdAt x) (agentOperations db)))"

definition new_operation ::
  "payments_env \<Rightarrow> payments_config \<Rightarrow> agent_preview_input \<Rightarrow> int \<Rightarrow> string \<times> string \<times> string \<Rightarrow> string \<Rightarrow> agent_operation" where
  "new_operation env cfg input amount customer correlationId =
     \<lparr>ac_id = p_uuid env 0, ac_displayReference = generateReference (p_hex env),
      ac_operationType = api_operationType input, ac_status = AC_PENDING_CONFIRMATION,
      ac_agentId = api_agentId input, ac_agentReference = api_agentReference input,
      ac_customerCustomerId = fst customer, ac_customerAccountId = fst (snd customer),
      ac_customerMaskedReference = snd (snd customer), ac_customerPublicReference = api_customerReference input,
      ac_agentAccountId = api_agentId input, ac_currency = api_currency input, ac_amountMinor = amount,
      ac_intentTokenHash = p_sha256 env (p_token env),
      ac_idempotencyKeyHash = p_sha256 env (''temp-'' @ generateReference (p_hex env)),
      ac_requestHash = p_sha256 env ''pending'', ac_ledgerJournalId = None, ac_correlationId = correlationId,
      ac_expiresAt = p_now env + intentTtlSeconds cfg * 1000, ac_confirmedAt = None, ac_createdAt = p_dbNow env,
      ac_completedAt = None, ac_failedAt = None\<rparr>"

text \<open>The unique indexes of the operations table.\<close>

definition operation_collides :: "agent_operation \<Rightarrow> agent_operation \<Rightarrow> bool" where
  "operation_collides x y =
     (ac_id x = ac_id y \<or> ac_displayReference x = ac_displayReference y \<or> ac_intentTokenHash x = ac_intentTokenHash y
      \<or> ac_agentId x = ac_agentId y \<and> ac_idempotencyKeyHash x = ac_idempotencyKeyHash y)"

definition agent_event_of ::
  "payments_env \<Rightarrow> string \<Rightarrow> agentEventType \<Rightarrow> agentStatus option \<Rightarrow> agentStatus \<Rightarrow> agent_event" where
  "agent_event_of env oid e p n =
     \<lparr>ae_operationId = oid, ae_eventType = e, ae_previousStatus = p, ae_nextStatus = Some n, ae_occurredAt = p_now env\<rparr>"

definition create_operation :: "payments_env \<Rightarrow> agent_operation \<Rightarrow> agent_db \<Rightarrow> (payments_error, agent_db) res" where
  "create_operation env x db =
     (if list_ex (operation_collides x) (agentOperations db) then Inl PaymentsUniqueViolation
      else Inr (db\<lparr>agentOperations := agentOperations db @ [x],
                   agentEvents := agentEvents db @
                     [agent_event_of env (ac_id x) AE_OPERATION_CREATED None AC_PENDING_CONFIRMATION]\<rparr>))"

definition agent_preview ::
  "payments_env \<Rightarrow> payments_config \<Rightarrow> resolve_reply \<Rightarrow> agent_preview_input \<Rightarrow> string \<Rightarrow> agent_db
     \<Rightarrow> (payments_error, agent_preview_result \<times> agent_db) res" where
  "agent_preview env cfg reply input correlationId db =
     andThen (bigint (api_amountMinor input)) (\<lambda>amount.
     andThen (require (minTransferMinor cfg \<le> amount) (PaymentsError ''INVALID_REQUEST'' 400)) (\<lambda>_.
     andThen (require (amount \<le> maxTransferMinor cfg) (PaymentsError ''LIMIT_EXCEEDED'' 403)) (\<lambda>_.
     andThen (agent_customer reply) (\<lambda>customer.
     andThen (require (agent_daily_total (api_agentId input) (utc_midnight (p_now env)) db + amount
                       \<le> dailyOutgoingLimitMinor cfg) (PaymentsError ''LIMIT_EXCEEDED'' 403)) (\<lambda>_.
     let x = new_operation env cfg input amount customer correlationId
     in andThen (create_operation env x db) (\<lambda>db'.
       Inr (\<lparr>apr_operationId = ac_id x, apr_operationType = ac_operationType x,
             apr_customerMaskedReference = ac_customerMaskedReference x, apr_agentReference = ac_agentReference x,
             apr_amount = \<lparr>currency = ac_currency x, minorUnits = dec_of_int (ac_amountMinor x)\<rparr>,
             apr_intentToken = p_token env, apr_expiresAt = ac_expiresAt x\<rparr>, db')))))))"

section \<open>Confirmation and settlement\<close>

record agent_confirmation =
  acf_agentId :: string
  acf_intentToken :: string
  acf_idempotencyKey :: string

definition agent_request_hash :: "payments_env \<Rightarrow> agent_confirmation \<Rightarrow> string" where
  "agent_request_hash env input =
     canonicalHash env (JObj [(''agentId'', Some (JStr (acf_agentId input))),
       (''intentTokenHash'', Some (JStr (p_sha256 env (acf_intentToken input))))])"

definition confirm_row :: "payments_env \<Rightarrow> agent_confirmation \<Rightarrow> agent_operation \<Rightarrow> agent_operation" where
  "confirm_row env input x =
     x\<lparr>ac_status := AC_PROCESSING, ac_idempotencyKeyHash := p_sha256 env (acf_idempotencyKey input),
       ac_requestHash := agent_request_hash env input, ac_confirmedAt := Some (p_now env)\<rparr>"

definition agent_confirm_transaction ::
  "payments_env \<Rightarrow> agent_confirmation \<Rightarrow> agent_db \<Rightarrow> (payments_error, (agent_operation \<times> bool) \<times> agent_db) res" where
  "agent_confirm_transaction env input db =
     (let keyHash = p_sha256 env (acf_idempotencyKey input) in
      case List.find (\<lambda>x. ac_agentId x = acf_agentId input \<and> ac_idempotencyKeyHash x = keyHash) (agentOperations db) of
        Some x \<Rightarrow>
          if ac_requestHash x \<noteq> agent_request_hash env input then Inl (paymentError ''IDEMPOTENCY_CONFLICT'')
          else Inr ((x, True), db)
      | None \<Rightarrow>
          (case find_by ac_intentTokenHash (p_sha256 env (acf_intentToken input)) (agentOperations db) of
             None \<Rightarrow> Inl (PaymentsError ''INVALID_REQUEST'' 404)
           | Some x \<Rightarrow>
               if ac_status x \<noteq> AC_PENDING_CONFIRMATION then Inl (PaymentsError ''INVALID_REQUEST'' 409)
               else if ac_expiresAt x \<le> p_now env then Inl (PaymentsError ''INTENT_EXPIRED'' 410)
               else if list_ex (\<lambda>y. ac_id y \<noteq> ac_id x \<and> ac_agentId y = ac_agentId x \<and> ac_idempotencyKeyHash y = keyHash)
                         (agentOperations db)
               then Inl PaymentsUniqueViolation
               else Inr ((confirm_row env input x, False),
                      db\<lparr>agentOperations := update_by ac_id (ac_id x) (confirm_row env input) (agentOperations db),
                         agentEvents := agentEvents db @
                           [agent_event_of env (ac_id x) AE_CUSTOMER_CONFIRMED (Some AC_PENDING_CONFIRMATION) AC_PROCESSING]\<rparr>)))"

definition agent_settle_command :: "agent_operation \<Rightarrow> transfer_command" where
  "agent_settle_command x =
     \<lparr>tp_senderCustomerId = ''agent'', tp_sourceAccountId = ac_agentAccountId x,
      tp_recipientReference = ac_customerPublicReference x, tp_amountMinor = dec_of_int (ac_amountMinor x),
      tp_currency = ac_currency x, tc_transferId = ac_id x, tc_transferReference = ac_displayReference x,
      tc_idempotencyKey = ''agent-cash:'' @ ac_id x\<rparr>"

definition agent_complete_row :: "payments_env \<Rightarrow> transfer_result \<Rightarrow> agent_operation \<Rightarrow> agent_operation" where
  "agent_complete_row env r x =
     x\<lparr>ac_status := AC_COMPLETED, ac_ledgerJournalId := Some (tr_journalId r), ac_completedAt := Some (p_now env)\<rparr>"

definition agent_fail_row :: "payments_env \<Rightarrow> agent_operation \<Rightarrow> agent_operation" where
  "agent_fail_row env x = x\<lparr>ac_status := AC_FAILED, ac_failedAt := Some (p_now env)\<rparr>"

text \<open>Updating the row by its identifier, then creating the event; a missing row or a journal that another
  row carries makes the update throw.\<close>

definition update_operation ::
  "payments_env \<Rightarrow> agent_operation \<Rightarrow> (agent_operation \<Rightarrow> agent_operation) \<Rightarrow> agentEventType \<Rightarrow> agentStatus \<Rightarrow> agent_db
     \<Rightarrow> (payments_error, agent_operation \<times> agent_db) res" where
  "update_operation env x f e st db =
     (case find_by ac_id (ac_id x) (agentOperations db) of
        None \<Rightarrow> Inl PaymentsPlainError
      | Some y \<Rightarrow>
          if ac_ledgerJournalId (f y) \<noteq> None
             \<and> list_ex (\<lambda>z. ac_id z \<noteq> ac_id x \<and> ac_ledgerJournalId z = ac_ledgerJournalId (f y)) (agentOperations db)
          then Inl PaymentsUniqueViolation
          else Inr (f y, db\<lparr>agentOperations := update_by ac_id (ac_id x) f (agentOperations db),
                            agentEvents := agentEvents db @ [agent_event_of env (ac_id x) e (Some AC_PROCESSING) st]\<rparr>))"

definition agent_settle_reply ::
  "payments_env \<Rightarrow> agent_operation \<Rightarrow> transfer_result ledger_reply \<Rightarrow> agent_db
     \<Rightarrow> (payments_error, agent_operation) res \<times> agent_db" where
  "agent_settle_reply env x reply db =
     (case reply of
        Answer r \<Rightarrow>
          (case update_operation env x (agent_complete_row env r) AE_COMPLETED AC_COMPLETED db of
             Inr (y, db') \<Rightarrow> (Inr y, db')
           | Inl _ \<Rightarrow> (Inr x, db))
      | CallFailed status _ \<Rightarrow>
          if status < 500 then
            (case update_operation env x (agent_fail_row env) AE_FAILED AC_FAILED db of
               Inr (y, db') \<Rightarrow> (Inr y, db')
             | Inl e \<Rightarrow> (Inl e, db))
          else (Inr x, db)
      | Unreachable \<Rightarrow> (Inr x, db))"

definition agent_settle ::
  "payments_env \<Rightarrow> 's ledger_call \<Rightarrow> agent_operation \<Rightarrow> string \<Rightarrow> agent_db \<Rightarrow> 's
     \<Rightarrow> (payments_error, agent_operation) res \<times> agent_db \<times> 's" where
  "agent_settle env call x correlationId db s =
     (case call (agent_settle_command x) correlationId s of
        (reply, s') \<Rightarrow> (case agent_settle_reply env x reply db of (out, db') \<Rightarrow> (out, db', s')))"

record agent_view =
  av_id :: string
  av_displayReference :: string
  av_operationType :: agentOperationType
  av_status :: agentStatus
  av_customerMaskedReference :: string
  av_agentReference :: string
  av_amount :: money
  av_createdAt :: time
  av_completedAt :: "time option"

definition formatOperation :: "agent_operation \<Rightarrow> agent_view" where
  "formatOperation x =
     \<lparr>av_id = ac_id x, av_displayReference = ac_displayReference x, av_operationType = ac_operationType x,
      av_status = ac_status x, av_customerMaskedReference = ac_customerMaskedReference x,
      av_agentReference = ac_agentReference x,
      av_amount = \<lparr>currency = ac_currency x, minorUnits = dec_of_int (ac_amountMinor x)\<rparr>,
      av_createdAt = ac_createdAt x, av_completedAt = ac_completedAt x\<rparr>"

definition agent_confirm ::
  "payments_env \<Rightarrow> 's ledger_call \<Rightarrow> agent_confirmation \<Rightarrow> string \<Rightarrow> agent_db \<Rightarrow> 's
     \<Rightarrow> (payments_error, agent_view) res \<times> agent_db \<times> 's" where
  "agent_confirm env call input correlationId db s =
     (case agent_confirm_transaction env input db of
        Inl e \<Rightarrow> (Inl e, db, s)
      | Inr ((x, replayed), db1) \<Rightarrow>
          if replayed \<or> ac_status x \<noteq> AC_PROCESSING then (Inr (formatOperation x), db1, s)
          else (case agent_settle env call x correlationId db1 s of
                  (out, db2, s') \<Rightarrow> (andThen out (\<lambda>y. Inr (formatOperation y)), db2, s')))"

definition agent_status :: "string \<Rightarrow> string \<Rightarrow> agent_db \<Rightarrow> (payments_error, agent_view) res" where
  "agent_status agentId operationId db =
     (case List.find (\<lambda>x. ac_id x = operationId \<and> ac_agentId x = agentId) (agentOperations db) of
        None \<Rightarrow> Inl (PaymentsError ''TRANSFER_NOT_FOUND'' 404)
      | Some x \<Rightarrow> Inr (formatOperation x))"

record agent_limits =
  al_agentReference :: string
  al_currency :: string
  al_minTransactionMinor :: string
  al_maxTransactionMinor :: string
  al_dailyCashInLimitMinor :: string
  al_dailyCashOutLimitMinor :: string
  al_dailyCashInUsedMinor :: string
  al_dailyCashOutUsedMinor :: string
  al_floatBalanceMinor :: string
  al_floatLimitMinor :: string

definition limits :: "payments_config \<Rightarrow> string \<Rightarrow> agent_limits" where
  "limits cfg agentReference =
     \<lparr>al_agentReference = agentReference, al_currency = ''LKR'',
      al_minTransactionMinor = dec_of_int (minTransferMinor cfg), al_maxTransactionMinor = dec_of_int (maxTransferMinor cfg),
      al_dailyCashInLimitMinor = dec_of_int (dailyOutgoingLimitMinor cfg),
      al_dailyCashOutLimitMinor = dec_of_int (dailyOutgoingLimitMinor cfg),
      al_dailyCashInUsedMinor = ''0'', al_dailyCashOutUsedMinor = ''0'',
      al_floatBalanceMinor = ''10000000'', al_floatLimitMinor = ''50000000''\<rparr>"

section \<open>Reachable states\<close>

text \<open>A world is the tables and the operations whose ledger call has not been recorded yet.  The relation is
  parametric in the replies the ledger may give to a command.\<close>

record agent_world =
  aw_db :: agent_db
  aw_flight :: "agent_operation list"

inductive agent_step ::
  "payments_config \<Rightarrow> (transfer_command \<Rightarrow> transfer_result ledger_reply \<Rightarrow> bool) \<Rightarrow> agent_world \<Rightarrow> agent_world \<Rightarrow> bool"
  for cfg replies where
  agent_step_preview:
    "agent_preview env cfg reply input cid (aw_db w) = Inr (res, db') \<Longrightarrow>
     agent_step cfg replies w (w\<lparr>aw_db := db'\<rparr>)"
| agent_step_confirm:
    "agent_confirm_transaction env cinput (aw_db w) = Inr ((x, False), db') \<Longrightarrow>
     agent_step cfg replies w (w\<lparr>aw_db := db', aw_flight := aw_flight w @ [x]\<rparr>)"
| agent_step_record:
    "aw_flight w = xs @ x # ys \<Longrightarrow> replies (agent_settle_command x) r \<Longrightarrow>
     agent_settle_reply env x r (aw_db w) = (out, db') \<Longrightarrow>
     agent_step cfg replies w (w\<lparr>aw_db := db', aw_flight := xs @ ys\<rparr>)"
| agent_step_crash:
    "agent_step cfg replies w (w\<lparr>aw_flight := filter P (aw_flight w)\<rparr>)"

definition agent_keys_ok :: "agent_operation list \<Rightarrow> bool" where
  "agent_keys_ok ops =
     (distinct (map ac_id ops) \<and>
      (\<forall>x \<in> set ops. \<forall>y \<in> set ops. ac_id x \<noteq> ac_id y \<longrightarrow>
         ac_displayReference x \<noteq> ac_displayReference y \<and> ac_intentTokenHash x \<noteq> ac_intentTokenHash y
         \<and> (ac_agentId x \<noteq> ac_agentId y \<or> ac_idempotencyKeyHash x \<noteq> ac_idempotencyKeyHash y)
         \<and> (ac_ledgerJournalId x \<noteq> None \<longrightarrow> ac_ledgerJournalId x \<noteq> ac_ledgerJournalId y)))"

definition agent_row_ok :: "payments_config \<Rightarrow> agent_operation \<Rightarrow> bool" where
  "agent_row_ok cfg x =
     (minTransferMinor cfg \<le> ac_amountMinor x \<and> ac_amountMinor x \<le> maxTransferMinor cfg
      \<and> ac_status x \<noteq> AC_CANCELLED
      \<and> (ac_status x = AC_PENDING_CONFIRMATION) = (ac_confirmedAt x = None)
      \<and> (ac_status x = AC_COMPLETED) = (ac_ledgerJournalId x \<noteq> None)
      \<and> (ac_status x = AC_COMPLETED) = (ac_completedAt x \<noteq> None)
      \<and> (ac_status x = AC_FAILED) = (ac_failedAt x \<noteq> None)
      \<and> (\<exists>h. ac_displayReference x = generateReference h))"

definition agent_finished :: "agent_operation \<Rightarrow> bool" where
  "agent_finished x = (ac_status x = AC_COMPLETED \<or> ac_status x = AC_FAILED)"

definition agent_inv :: "payments_config \<Rightarrow> agent_world \<Rightarrow> bool" where
  "agent_inv cfg w =
     (agent_keys_ok (agentOperations (aw_db w)) \<and> (\<forall>x \<in> set (agentOperations (aw_db w)). agent_row_ok cfg x)
      \<and> distinct (map ac_id (aw_flight w))
      \<and> (\<forall>x \<in> set (aw_flight w). x \<in> set (agentOperations (aw_db w)) \<and> ac_status x = AC_PROCESSING))"


lemma agent_keys_add:
  assumes "agent_keys_ok ops" and "\<not> list_ex (operation_collides x) ops" and "ac_ledgerJournalId x = None"
  shows "agent_keys_ok (ops @ [x])"
  using assms by (auto simp: agent_keys_ok_def list_ex_iff operation_collides_def)

lemma agent_keys_update:
  assumes "agent_keys_ok ops"
    and same: "\<And>x. ac_id (f x) = ac_id x \<and> ac_displayReference (f x) = ac_displayReference x
      \<and> ac_intentTokenHash (f x) = ac_intentTokenHash x \<and> ac_agentId (f x) = ac_agentId x"
    and key: "\<And>x y. x \<in> set ops \<Longrightarrow> ac_id x = k \<Longrightarrow> y \<in> set ops \<Longrightarrow> ac_id y \<noteq> k \<Longrightarrow>
      (ac_agentId y \<noteq> ac_agentId x \<or> ac_idempotencyKeyHash y \<noteq> ac_idempotencyKeyHash (f x))
      \<and> (ac_ledgerJournalId (f x) \<noteq> None \<longrightarrow> ac_ledgerJournalId y \<noteq> ac_ledgerJournalId (f x))"
  shows "agent_keys_ok (update_by ac_id k f ops)"
proof -
  have pair: "ac_displayReference (f x) \<noteq> ac_displayReference y \<and> ac_intentTokenHash (f x) \<noteq> ac_intentTokenHash y
      \<and> (ac_agentId (f x) \<noteq> ac_agentId y \<or> ac_idempotencyKeyHash (f x) \<noteq> ac_idempotencyKeyHash y)
      \<and> (ac_ledgerJournalId (f x) \<noteq> None \<or> ac_ledgerJournalId y \<noteq> None \<longrightarrow> ac_ledgerJournalId (f x) \<noteq> ac_ledgerJournalId y)"
    if "x \<in> set ops" "ac_id x = k" "y \<in> set ops" "ac_id y \<noteq> k" for x y
  proof -
    have "ac_displayReference x \<noteq> ac_displayReference y \<and> ac_intentTokenHash x \<noteq> ac_intentTokenHash y"
      using assms(1) that by (auto simp: agent_keys_ok_def)
    with key [OF that] same [of x] show ?thesis by (cases "ac_ledgerJournalId (f x)") auto
  qed
  have rest: "ac_displayReference x \<noteq> ac_displayReference y \<and> ac_intentTokenHash x \<noteq> ac_intentTokenHash y
      \<and> (ac_agentId x \<noteq> ac_agentId y \<or> ac_idempotencyKeyHash x \<noteq> ac_idempotencyKeyHash y)
      \<and> (ac_ledgerJournalId x \<noteq> None \<longrightarrow> ac_ledgerJournalId x \<noteq> ac_ledgerJournalId y)"
    if "x \<in> set ops" "y \<in> set ops" "ac_id x \<noteq> ac_id y" for x y
    using assms(1) that by (simp add: agent_keys_ok_def)
  have ids: "map ac_id (update_by ac_id k f ops) = map ac_id ops"
    by (rule map_key_update_by) (simp add: same)
  show ?thesis unfolding agent_keys_ok_def ids
  proof (intro conjI ballI impI)
    show "distinct (map ac_id ops)" using assms(1) by (simp add: agent_keys_ok_def)
  next
    fix u v assume uv: "u \<in> set (update_by ac_id k f ops)" "v \<in> set (update_by ac_id k f ops)" "ac_id u \<noteq> ac_id v"
    obtain x y where x: "x \<in> set ops" "u = (if ac_id x = k then f x else x)"
      and y: "y \<in> set ops" "v = (if ac_id y = k then f y else y)"
      using uv(1,2) by (auto simp: set_update_by)
    have ne: "ac_id x \<noteq> ac_id y" using uv(3) x(2) y(2) same by (auto split: if_splits)
    show "ac_displayReference u \<noteq> ac_displayReference v" "ac_intentTokenHash u \<noteq> ac_intentTokenHash v"
      "ac_agentId u \<noteq> ac_agentId v \<or> ac_idempotencyKeyHash u \<noteq> ac_idempotencyKeyHash v"
      using ne x y rest [OF x(1) y(1) ne] pair [OF x(1) _ y(1)] pair [OF y(1) _ x(1)] by (auto split: if_splits)
    show "ac_ledgerJournalId u \<noteq> ac_ledgerJournalId v" if "ac_ledgerJournalId u \<noteq> None"
      using that ne x y rest [OF x(1) y(1) ne] pair [OF x(1) _ y(1)] pair [OF y(1) _ x(1)]
      by (auto split: if_splits)
  qed
qed

lemma agent_keys_unique:
  "agent_keys_ok ops \<Longrightarrow> x \<in> set ops \<Longrightarrow> y \<in> set ops \<Longrightarrow> ac_id x = ac_id y \<Longrightarrow> x = y"
  by (auto simp: agent_keys_ok_def distinct_map dest: inj_onD)

lemma replaced_row:
  assumes "agent_keys_ok ops" and "x \<in> set ops"
  shows "set (update_by ac_id (ac_id x) f ops) = insert (f x) (set ops - {x})"
proof -
  have "ac_id z = ac_id x \<longleftrightarrow> z = x" if "z \<in> set ops" for z using agent_keys_unique [OF assms(1) that assms(2)] by auto
  then show ?thesis using assms(2) by (auto simp: set_update_by)
qed

text \<open>Replacing one unfinished row keeps the invariant as long as the operations in flight are the others or the
  new row itself.\<close>

lemma agent_inv_replaced:
  assumes "agent_keys_ok (agentOperations (aw_db w'))" and "set (agentOperations (aw_db w')) = insert x' (set ops - {x})"
    and "agent_row_ok cfg x'" and "\<And>z. z \<in> set ops \<Longrightarrow> agent_row_ok cfg z" and "\<not> agent_finished x"
    and "distinct (map ac_id (aw_flight w'))"
    and "\<And>z. z \<in> set (aw_flight w') \<Longrightarrow> z = x' \<or> z \<in> set ops \<and> z \<noteq> x"
    and "\<And>z. z \<in> set (aw_flight w') \<Longrightarrow> ac_status z = AC_PROCESSING"
  shows "agent_inv cfg w' \<and> (\<forall>z \<in> set ops. agent_finished z \<longrightarrow> z \<in> set (agentOperations (aw_db w')))"
  using assms by (auto simp: agent_inv_def)

lemma agent_preview_adds:
  assumes "agent_preview env cfg reply input cid db = Inr (res, db')"
  shows "\<exists>x. agentOperations db' = agentOperations db @ [x] \<and> agent_row_ok cfg x \<and> ac_ledgerJournalId x = None
    \<and> \<not> list_ex (operation_collides x) (agentOperations db)"
  using assms
  by (auto simp: agent_preview_def create_operation_def new_operation_def agent_row_ok_def Let_def res_simps
      split: if_splits)

lemma agent_confirm_updates:
  assumes "agent_confirm_transaction env input db = Inr ((x, False), db')"
  obtains y where "y \<in> set (agentOperations db)" "ac_status y = AC_PENDING_CONFIRMATION" "x = confirm_row env input y"
    "agentOperations db' = update_by ac_id (ac_id y) (confirm_row env input) (agentOperations db)"
    "\<forall>z \<in> set (agentOperations db). ac_id z \<noteq> ac_id y \<longrightarrow>
      ac_agentId z \<noteq> ac_agentId y \<or> ac_idempotencyKeyHash z \<noteq> p_sha256 env (acf_idempotencyKey input)"
proof -
  from assms obtain y where
    "find_by ac_intentTokenHash (p_sha256 env (acf_intentToken input)) (agentOperations db) = Some y"
    "ac_status y = AC_PENDING_CONFIRMATION" "x = confirm_row env input y"
    "agentOperations db' = update_by ac_id (ac_id y) (confirm_row env input) (agentOperations db)"
    "\<not> list_ex (\<lambda>z. ac_id z \<noteq> ac_id y \<and> ac_agentId z = ac_agentId y
       \<and> ac_idempotencyKeyHash z = p_sha256 env (acf_idempotencyKey input)) (agentOperations db)"
    by (auto simp: agent_confirm_transaction_def Let_def split: option.splits if_splits)
  then show ?thesis using find_by_Some [of ac_intentTokenHash] by (intro that [of y]) (auto simp: list_ex_iff)
qed

text \<open>Recording a reply either leaves the tables alone or finishes the row of the operation.\<close>

lemma agent_reply_updates:
  assumes "agent_settle_reply env x reply db = (out, db')"
  obtains "db' = db"
  | f where "agentOperations db' = update_by ac_id (ac_id x) f (agentOperations db)"
      "f = agent_fail_row env \<or> (\<exists>r. reply = Answer r \<and> f = agent_complete_row env r)"
      "\<And>y z. y \<in> set (agentOperations db) \<Longrightarrow> ac_id y \<noteq> ac_id x \<Longrightarrow> z \<in> set (agentOperations db) \<Longrightarrow> ac_id z = ac_id x \<Longrightarrow>
        distinct (map ac_id (agentOperations db)) \<Longrightarrow>
        ac_ledgerJournalId (f z) \<noteq> None \<Longrightarrow> ac_ledgerJournalId y \<noteq> ac_ledgerJournalId (f z)"
proof -
  note cases = that
  have one: "find_by ac_id (ac_id x) ops = Some z"
    if "z \<in> set ops" "ac_id z = ac_id x" "distinct (map ac_id ops)" for z ops
    using find_by_distinct [OF that(3) that(1)] that(2) by simp
  have upd: "thesis"
    if u: "update_operation env x f e st db = Inr (y, db')"
      and f: "f = agent_fail_row env \<or> (\<exists>r. reply = Answer r \<and> f = agent_complete_row env r)" for f e st y
  proof (rule cases(2) [of f])
    show "agentOperations db' = update_by ac_id (ac_id x) f (agentOperations db)"
      using u by (auto simp: update_operation_def split: option.splits if_splits)
    show "f = agent_fail_row env \<or> (\<exists>r. reply = Answer r \<and> f = agent_complete_row env r)" by (rule f)
    show "ac_ledgerJournalId y' \<noteq> ac_ledgerJournalId (f z)"
      if "y' \<in> set (agentOperations db)" "ac_id y' \<noteq> ac_id x" "z \<in> set (agentOperations db)" "ac_id z = ac_id x"
        "distinct (map ac_id (agentOperations db))" "ac_ledgerJournalId (f z) \<noteq> None" for y' z
      using u one [OF that(3,4,5)] that
      by (auto simp: update_operation_def list_ex_iff split: option.splits if_splits)
  qed
  show ?thesis
  proof (cases reply)
    case (Answer r)
    with assms cases(1) upd show ?thesis
      by (cases "update_operation env x (agent_complete_row env r) AE_COMPLETED AC_COMPLETED db")
        (auto simp: agent_settle_reply_def)
  next
    case (CallFailed st code)
    with assms cases(1) upd show ?thesis
      by (cases "update_operation env x (agent_fail_row env) AE_FAILED AC_FAILED db")
        (auto simp: agent_settle_reply_def split: if_splits)
  next
    case Unreachable
    with assms cases(1) show ?thesis by (auto simp: agent_settle_reply_def)
  qed
qed

lemma row_shapes [simp]:
  "ac_id (confirm_row env i x) = ac_id x" "ac_id (agent_complete_row env r x) = ac_id x" "ac_id (agent_fail_row env x) = ac_id x"
  "ac_displayReference (confirm_row env i x) = ac_displayReference x"
  "ac_displayReference (agent_complete_row env r x) = ac_displayReference x"
  "ac_displayReference (agent_fail_row env x) = ac_displayReference x"
  by (simp_all add: confirm_row_def agent_complete_row_def agent_fail_row_def)

lemma agent_confirm_inv:
  assumes tx: "agent_confirm_transaction env input (aw_db w) = Inr ((x, False), db')" and inv: "agent_inv cfg w"
  shows "agent_inv cfg (w\<lparr>aw_db := db', aw_flight := aw_flight w @ [x]\<rparr>)
    \<and> (\<forall>z \<in> set (agentOperations (aw_db w)). agent_finished z \<longrightarrow>
         z \<in> set (agentOperations (aw_db (w\<lparr>aw_db := db', aw_flight := aw_flight w @ [x]\<rparr>))))"
proof -
  let ?ops = "agentOperations (aw_db w)"
  obtain y where y: "y \<in> set ?ops" "ac_status y = AC_PENDING_CONFIRMATION" "x = confirm_row env input y"
    and ops: "agentOperations db' = update_by ac_id (ac_id y) (confirm_row env input) ?ops"
    and free: "\<forall>z \<in> set ?ops. ac_id z \<noteq> ac_id y \<longrightarrow>
      ac_agentId z \<noteq> ac_agentId y \<or> ac_idempotencyKeyHash z \<noteq> p_sha256 env (acf_idempotencyKey input)"
    by (rule agent_confirm_updates [OF tx])
  have keys: "agent_keys_ok ?ops" and rows: "\<And>z. z \<in> set ?ops \<Longrightarrow> agent_row_ok cfg z"
    and fl: "distinct (map ac_id (aw_flight w))" "\<And>z. z \<in> set (aw_flight w) \<Longrightarrow> z \<in> set ?ops \<and> ac_status z = AC_PROCESSING"
    using inv by (auto simp: agent_inv_def)
  have same: "z = y" if "z \<in> set ?ops" "ac_id z = ac_id y" for z using agent_keys_unique [OF keys that(1) y(1) that(2)] .
  have "agent_keys_ok (agentOperations db')" unfolding ops
  proof (rule agent_keys_update [OF keys])
    fix u v assume uv: "u \<in> set ?ops" "ac_id u = ac_id y" "v \<in> set ?ops" "ac_id v \<noteq> ac_id y"
    have "u = y" using same [OF uv(1,2)] .
    moreover have "ac_ledgerJournalId y = None" using rows [OF y(1)] y(2) by (simp add: agent_row_ok_def)
    ultimately show "(ac_agentId v \<noteq> ac_agentId u \<or> ac_idempotencyKeyHash v \<noteq> ac_idempotencyKeyHash (confirm_row env input u))
      \<and> (ac_ledgerJournalId (confirm_row env input u) \<noteq> None \<longrightarrow> ac_ledgerJournalId v \<noteq> ac_ledgerJournalId (confirm_row env input u))"
      using free uv(3,4) by (simp add: confirm_row_def)
  qed (simp add: confirm_row_def)
  note keys' = this
  have st: "agent_row_ok cfg x" "ac_status x = AC_PROCESSING" "ac_id x = ac_id y"
    using rows [OF y(1)] y(2,3) by (simp_all add: agent_row_ok_def confirm_row_def)
  have mem: "set (agentOperations db') = insert x (set ?ops - {y})"
    unfolding ops using replaced_row [OF keys y(1), of "confirm_row env input"] y(3) by simp
  have ny: "y \<notin> set (aw_flight w)" using fl(2) [of y] y(2) by auto
  have "ac_id y \<notin> ac_id ` set (aw_flight w)"
  proof
    assume "ac_id y \<in> ac_id ` set (aw_flight w)"
    then obtain z where "z \<in> set (aw_flight w)" "ac_id z = ac_id y" by auto
    with fl(2) [of z] same [of z] ny show False by auto
  qed
  with fl(1) st(3) have dist: "distinct (map ac_id (aw_flight w @ [x]))" by simp
  show ?thesis
  proof (rule agent_inv_replaced [where x = y and x' = x])
    show "agent_keys_ok (agentOperations (aw_db (w\<lparr>aw_db := db', aw_flight := aw_flight w @ [x]\<rparr>)))" using keys' by simp
    show "set (agentOperations (aw_db (w\<lparr>aw_db := db', aw_flight := aw_flight w @ [x]\<rparr>))) = insert x (set ?ops - {y})"
      using mem by simp
    show "agent_row_ok cfg x" by (rule st)
    show "agent_row_ok cfg z" if "z \<in> set ?ops" for z by (rule rows [OF that])
    show "\<not> agent_finished y" using y(2) by (simp add: agent_finished_def)
    show "distinct (map ac_id (aw_flight (w\<lparr>aw_db := db', aw_flight := aw_flight w @ [x]\<rparr>)))" using dist by simp
    fix z assume z: "z \<in> set (aw_flight (w\<lparr>aw_db := db', aw_flight := aw_flight w @ [x]\<rparr>))"
    show "z = x \<or> z \<in> set ?ops \<and> z \<noteq> y" using z fl(2) [of z] ny by auto
    show "ac_status z = AC_PROCESSING" using z fl(2) [of z] st(2) by auto
  qed
qed

lemma agent_record_inv:
  assumes fx: "aw_flight w = xs @ x # ys" and rp: "agent_settle_reply env x r (aw_db w) = (out, db')"
    and inv: "agent_inv cfg w"
  shows "agent_inv cfg (w\<lparr>aw_db := db', aw_flight := xs @ ys\<rparr>)
    \<and> (\<forall>z \<in> set (agentOperations (aw_db w)). agent_finished z \<longrightarrow>
         z \<in> set (agentOperations (aw_db (w\<lparr>aw_db := db', aw_flight := xs @ ys\<rparr>))))"
proof -
  let ?ops = "agentOperations (aw_db w)"
  have keys: "agent_keys_ok ?ops" and rows: "\<And>z. z \<in> set ?ops \<Longrightarrow> agent_row_ok cfg z"
    and fl: "distinct (map ac_id (aw_flight w))" "\<And>z. z \<in> set (aw_flight w) \<Longrightarrow> z \<in> set ?ops \<and> ac_status z = AC_PROCESSING"
    using inv by (auto simp: agent_inv_def)
  have x: "x \<in> set ?ops" "ac_status x = AC_PROCESSING" using fl(2) [of x] fx by auto
  have same: "z = x" if "z \<in> set ?ops" "ac_id z = ac_id x" for z using agent_keys_unique [OF keys that(1) x(1) that(2)] .
  show ?thesis
  proof (rule agent_reply_updates [OF rp])
    assume "db' = aw_db w"
    with fx inv show ?thesis by (auto simp: agent_inv_def)
  next
    fix f assume ops: "agentOperations db' = update_by ac_id (ac_id x) f ?ops"
      and f: "f = agent_fail_row env \<or> (\<exists>t. r = Answer t \<and> f = agent_complete_row env t)"
      and jn: "\<And>y z. y \<in> set ?ops \<Longrightarrow> ac_id y \<noteq> ac_id x \<Longrightarrow> z \<in> set ?ops \<Longrightarrow> ac_id z = ac_id x \<Longrightarrow>
        distinct (map ac_id ?ops) \<Longrightarrow> ac_ledgerJournalId (f z) \<noteq> None \<Longrightarrow> ac_ledgerJournalId y \<noteq> ac_ledgerJournalId (f z)"
    have shape: "ac_id (f u) = ac_id u \<and> ac_displayReference (f u) = ac_displayReference u
      \<and> ac_intentTokenHash (f u) = ac_intentTokenHash u \<and> ac_agentId (f u) = ac_agentId u
      \<and> ac_idempotencyKeyHash (f u) = ac_idempotencyKeyHash u" for u
      using f by (auto simp: agent_fail_row_def agent_complete_row_def)
    have dist: "distinct (map ac_id ?ops)" using keys by (simp add: agent_keys_ok_def)
    have "agent_keys_ok (agentOperations db')" unfolding ops
    proof (rule agent_keys_update [OF keys])
      fix u v assume uv: "u \<in> set ?ops" "ac_id u = ac_id x" "v \<in> set ?ops" "ac_id v \<noteq> ac_id x"
      have "ac_agentId v \<noteq> ac_agentId u \<or> ac_idempotencyKeyHash v \<noteq> ac_idempotencyKeyHash u"
        using keys uv by (auto simp: agent_keys_ok_def)
      with jn [OF uv(3,4) uv(1,2) dist] shape [of u]
      show "(ac_agentId v \<noteq> ac_agentId u \<or> ac_idempotencyKeyHash v \<noteq> ac_idempotencyKeyHash (f u))
        \<and> (ac_ledgerJournalId (f u) \<noteq> None \<longrightarrow> ac_ledgerJournalId v \<noteq> ac_ledgerJournalId (f u))" by auto
    qed (simp add: shape)
    moreover have "agent_row_ok cfg (f x)"
      using rows [OF x(1)] x(2) f by (auto simp: agent_row_ok_def agent_fail_row_def agent_complete_row_def)
    moreover have mem: "set (agentOperations db') = insert (f x) (set ?ops - {x})"
      unfolding ops by (rule replaced_row [OF keys x(1)])
    moreover have "distinct (map ac_id (xs @ ys)) \<and> ac_id x \<notin> ac_id ` set (xs @ ys)"
      using fl(1) fx by auto
    moreover have "\<And>z. z \<in> set (xs @ ys) \<Longrightarrow> z \<in> set ?ops \<and> ac_status z = AC_PROCESSING"
      using fl(2) fx by auto
    ultimately show ?thesis using rows x(2)
      by (intro agent_inv_replaced [where ops = ?ops and x = x and x' = "f x"]) (auto simp: agent_finished_def)
  qed
qed

lemma agent_step_inv:
  assumes "agent_step cfg replies w w'" and "agent_inv cfg w"
  shows "agent_inv cfg w' \<and> (\<forall>x \<in> set (agentOperations (aw_db w)). agent_finished x \<longrightarrow> x \<in> set (agentOperations (aw_db w')))"
  using assms
proof (induction rule: agent_step.induct)
  case (agent_step_preview env reply input cid w res db')
  from agent_preview_adds [OF this(1)] this(2) show ?case
    by (auto simp: agent_inv_def agent_keys_add)
next
  case (agent_step_confirm env input w x db')
  then show ?case by (rule agent_confirm_inv)
next
  case (agent_step_record w xs x ys r env out db')
  from agent_record_inv [OF this(1,3,4)] show ?case .
next
  case (agent_step_crash w P)
  then show ?case by (auto simp: agent_inv_def distinct_map_filter)
qed

lemma agent_reaches_inv:
  assumes "(agent_step cfg replies)\<^sup>*\<^sup>* w w'" and "agent_inv cfg w"
  shows "agent_inv cfg w' \<and> (\<forall>x \<in> set (agentOperations (aw_db w)). agent_finished x \<longrightarrow> x \<in> set (agentOperations (aw_db w')))"
  using assms by (induction rule: rtranclp_induct) (auto dest: agent_step_inv)

section \<open>Properties\<close>

lemma agent_reference_refused: "\<not> transferDisplayReferenceSchema (generateReference h)"
  by (auto simp: transferDisplayReferenceSchema_def generateReference_def split: list.splits)

text \<open>The replies of the modelled ledger behind the network.\<close>

definition served_replies :: "transfer_command \<Rightarrow> transfer_result ledger_reply \<Rightarrow> bool" where
  "served_replies cmd r = (\<exists>cid s s'. served_call cmd cid s = (r, s'))"

lemma agent_command_refused:
  assumes "ac_displayReference x = generateReference h"
  shows "\<exists>rest. served_call (agent_settle_command x) cid s = (CallFailed 400 (Some ''INVALID_REQUEST''), (fst s, rest))
    \<or> served_call (agent_settle_command x) cid s = (Unreachable, (fst s, rest))"
  by (rule served_call_refuses)
    (simp add: internalLedgerTransferCommandSchema_def agent_settle_command_def assms agent_reference_refused)

lemma served_replies_refuse:
  assumes "served_replies (agent_settle_command x) r" and "ac_displayReference x = generateReference h"
  shows "\<not> (\<exists>t. r = Answer t)"
proof -
  from assms(1) obtain cid s s' where "served_call (agent_settle_command x) cid s = (r, s')" by (auto simp: served_replies_def)
  with agent_command_refused [OF assms(2), of cid s] show ?thesis by auto
qed

lemma served_step_open:
  assumes "agent_step cfg served_replies w w'" and "agent_inv cfg w"
    and "\<forall>x \<in> set (agentOperations (aw_db w)). ac_status x \<noteq> AC_COMPLETED"
  shows "\<forall>x \<in> set (agentOperations (aw_db w')). ac_status x \<noteq> AC_COMPLETED"
  using assms
proof (induction rule: agent_step.induct)
  case (agent_step_preview env reply input cid w res db')
  from this(1,3) show ?case
    by (auto simp: agent_preview_def create_operation_def new_operation_def Let_def res_simps split: if_splits)
next
  case (agent_step_confirm env input w x db')
  from this(3) show ?case
    by (rule_tac agent_confirm_updates [OF agent_step_confirm(1)]) (auto simp: set_update_by confirm_row_def)
next
  case (agent_step_record w xs x ys r env out db')
  have "x \<in> set (agentOperations (aw_db w))" using agent_step_record(1,4) by (auto simp: agent_inv_def)
  then obtain h where "ac_displayReference x = generateReference h" using agent_step_record(4) by (auto simp: agent_inv_def agent_row_ok_def)
  from served_replies_refuse [OF agent_step_record(2) this] agent_step_record(5) show ?case
    by (rule_tac agent_reply_updates [OF agent_step_record(3)]) (auto simp: set_update_by agent_fail_row_def)
qed auto

lemma served_reach_open:
  assumes "(agent_step cfg served_replies)\<^sup>*\<^sup>* w w'" and "agent_inv cfg w"
    and "\<forall>x \<in> set (agentOperations (aw_db w)). ac_status x \<noteq> AC_COMPLETED"
  shows "\<forall>x \<in> set (agentOperations (aw_db w')). ac_status x \<noteq> AC_COMPLETED"
  using assms
proof (induction rule: rtranclp_induct)
  case (step y z)
  then show ?case using agent_reaches_inv [OF step(1)] served_step_open [OF step(2)] by blast
qed simp

definition empty_agent_world :: agent_world where
  "empty_agent_world = \<lparr>aw_db = \<lparr>agentOperations = [], agentEvents = []\<rparr>, aw_flight = []\<rparr>"

lemma empty_agent_inv: "agent_inv cfg empty_agent_world"
  by (simp add: agent_inv_def agent_keys_ok_def empty_agent_world_def)

section \<open>Concrete runs\<close>

definition demo_agent_env :: "string \<Rightarrow> time \<Rightarrow> payments_env" where
  "demo_agent_env tag now =
     \<lparr>p_sha256 = (\<lambda>x. CHR ''#'' # x), p_uuid = (\<lambda>n. ''op-'' @ tag), p_token = ''token-'' @ tag, p_hex = tag @ ''0123456789AB'',
      p_now = now, p_dbNow = now, p_isUuid = (\<lambda>_. True)\<rparr>"

definition demo_cash_in :: agent_preview_input where
  "demo_cash_in = \<lparr>api_agentId = ''agent-7'', api_agentReference = ''AGENT-7'', api_customerReference = ''AEGIS-AAAA-AAAA-BBB2'',
     api_amountMinor = ''600'', api_currency = ''LKR'', api_operationType = OP_CASH_IN\<rparr>"

definition demo_agent_confirmation :: "string \<Rightarrow> agent_confirmation" where
  "demo_agent_confirmation tag =
     \<lparr>acf_agentId = ''agent-7'', acf_intentToken = ''token-'' @ tag, acf_idempotencyKey = ''key-'' @ tag\<rparr>"

definition demo_resolved :: resolve_reply where
  "demo_resolved = Resolved ''bob'' ''acc-bob'' ''AEGIS-****-****-BBB2''"

definition preview_demo :: "string \<Rightarrow> agent_db \<Rightarrow> agent_db" where
  "preview_demo tag db =
     (case agent_preview (demo_agent_env tag 1000) demo_cfg demo_resolved demo_cash_in ''c'' db of
        Inr (_, db') \<Rightarrow> db' | Inl _ \<Rightarrow> db)"

definition demo_pending_db :: agent_db where
  "demo_pending_db = preview_demo ''A'' \<lparr>agentOperations = [], agentEvents = []\<rparr>"

lemma rtranclp_snoc: "r\<^sup>*\<^sup>* a b \<Longrightarrow> r b c \<Longrightarrow> r\<^sup>*\<^sup>* a c"
  by (rule rtranclp.rtrancl_into_rtrancl)

lemma preview_demo_reached:
  assumes "(agent_step demo_cfg replies)\<^sup>*\<^sup>* empty_agent_world w"
  shows "(agent_step demo_cfg replies)\<^sup>*\<^sup>* empty_agent_world (w\<lparr>aw_db := preview_demo tag (aw_db w)\<rparr>)"
proof (cases "agent_preview (demo_agent_env tag 1000) demo_cfg demo_resolved demo_cash_in ''c'' (aw_db w)")
  case (Inl e)
  then show ?thesis using assms by (simp add: preview_demo_def)
next
  case (Inr z)
  obtain res db' where z: "z = (res, db')" by (cases z)
  from rtranclp_snoc [OF assms agent_step_preview [OF Inr [unfolded z]]] show ?thesis by (simp add: preview_demo_def Inr z)
qed

lemma demo_pending_reached:
  "(agent_step demo_cfg replies)\<^sup>*\<^sup>* empty_agent_world \<lparr>aw_db = demo_pending_db, aw_flight = []\<rparr>"
  using preview_demo_reached [of replies empty_agent_world "''A''"] by (simp add: empty_agent_world_def demo_pending_db_def)

definition demo_agent_op :: agent_operation where
  "demo_agent_op = confirm_row (demo_agent_env ''A'' 2000) (demo_agent_confirmation ''A'') (hd (agentOperations demo_pending_db))"

definition demo_confirmed_db :: agent_db where
  "demo_confirmed_db =
     (case agent_confirm_transaction (demo_agent_env ''A'' 2000) (demo_agent_confirmation ''A'') demo_pending_db of
        Inr (_, db') \<Rightarrow> db' | Inl _ \<Rightarrow> demo_pending_db)"

lemma demo_confirmed:
  "agent_confirm_transaction (demo_agent_env ''A'' 2000) (demo_agent_confirmation ''A'') demo_pending_db
     = Inr ((demo_agent_op, False), demo_confirmed_db)"
  by code_simp

lemma demo_confirmed_reached:
  "(agent_step demo_cfg replies)\<^sup>*\<^sup>* empty_agent_world \<lparr>aw_db = demo_confirmed_db, aw_flight = [demo_agent_op]\<rparr>"
  using rtranclp_snoc [OF demo_pending_reached agent_step_confirm [of _ _ "\<lparr>aw_db = demo_pending_db, aw_flight = []\<rparr>"]]
    demo_confirmed by fastforce

text \<open>every state the agent cash service can reach is consistent, whatever the ledger answers.  Under any
  interleaving of previews, confirmations, recorded replies and crashes, identifiers, references, intent tokens, keys of one agent
  and ledger journals belong to one operation at most; every amount lies within the configured bounds; the
  timestamps and the journal of a row agree with its status; what is in flight is in progress and is settled
  once; and a completed or failed operation is never changed again.\<close>

theorem agent_operations_consistent:
  assumes "(agent_step cfg replies)\<^sup>*\<^sup>* empty_agent_world w" and "(agent_step cfg replies)\<^sup>*\<^sup>* w w'"
  shows "agent_inv cfg w \<and> (\<forall>x \<in> set (agentOperations (aw_db w)). agent_finished x \<longrightarrow> x \<in> set (agentOperations (aw_db w')))"
  using agent_reaches_inv [OF assms(1) empty_agent_inv] agent_reaches_inv [OF assms(2)] by blast

text \<open>no agent cash operation is ever completed.  The service asks the ledger for a customer transfer of
  the customer called agent under an AEGIS-AGT reference, which the ledger's command schema refuses: in every state the
  service reaches against the modelled ledger no operation is COMPLETED or has a journal, and settling any of its
  operations leaves the ledger as it was, whatever the network does.\<close>

theorem agent_cash_never_completes:
  assumes "(agent_step cfg served_replies)\<^sup>*\<^sup>* empty_agent_world w" and "x \<in> set (agentOperations (aw_db w))"
  shows "ac_status x \<noteq> AC_COMPLETED \<and> ac_ledgerJournalId x = None
    \<and> fst (snd (served_call (agent_settle_command x) cid s)) = fst s"
proof -
  have ok: "agent_row_ok cfg x" using agent_reaches_inv [OF assms(1) empty_agent_inv] assms(2) by (auto simp: agent_inv_def)
  have "ac_status x \<noteq> AC_COMPLETED"
    using served_reach_open [OF assms(1) empty_agent_inv] assms(2) by (simp add: empty_agent_world_def)
  moreover obtain h where "ac_displayReference x = generateReference h" using ok by (auto simp: agent_row_ok_def)
  from agent_command_refused [OF this, of cid s] have "fst (snd (served_call (agent_settle_command x) cid s)) = fst s" by auto
  ultimately show ?thesis using ok by (simp add: agent_row_ok_def)
qed

text \<open>The daily limit of an agent is checked at preview and counts completed operations only, so operations
  previewed before any of them completes are all confirmed, beyond the limit.\<close>

lemma agent_limit_not_reserved:
  "sum_list (map ac_amountMinor (agentOperations (preview_demo ''B'' demo_pending_db))) > dailyOutgoingLimitMinor demo_cfg
   \<and> list_all (\<lambda>x. ac_agentId x = ''agent-7'' \<and> ac_status x = AC_PENDING_CONFIRMATION)
       (agentOperations (preview_demo ''B'' demo_pending_db))"
  by code_simp

text \<open>Confirmation does not compare the caller with the agent of the operation: whoever has the token confirms it.\<close>

lemma agent_confirm_any_agent:
  assumes "find_by ac_intentTokenHash (p_sha256 env token) (agentOperations db) = Some x"
    and "ac_status x = AC_PENDING_CONFIRMATION" and "p_now env < ac_expiresAt x"
    and "\<forall>y \<in> set (agentOperations db). ac_idempotencyKeyHash y \<noteq> p_sha256 env key"
  shows "\<exists>db'. agent_confirm_transaction env \<lparr>acf_agentId = anyone, acf_intentToken = token, acf_idempotencyKey = key\<rparr> db
     = Inr ((confirm_row env \<lparr>acf_agentId = anyone, acf_intentToken = token, acf_idempotencyKey = key\<rparr> x, False), db')"
proof -
  have "List.find (\<lambda>x. ac_agentId x = anyone \<and> ac_idempotencyKeyHash x = p_sha256 env key) (agentOperations db) = None"
    using assms(4) by (auto simp: find_None_iff)
  with assms show ?thesis by (auto simp: agent_confirm_transaction_def list_ex_iff)
qed

end
