(* ===== verification/PaymentsReconciliation.thy ===== *)
theory PaymentsReconciliation
  imports AgentCash
begin

text \<open>
  The reconciliation of the payments service
  (\<open>services/payments/src/reconciliation/payments-reconciliation.service.ts\<close>): its six checks over the transfer, QR and
  agent tables, and the loop that turns counts into issues, whose bound shrinks while it runs.
\<close>

section \<open>Collecting issues\<close>

record payments_issue =
  pi_code :: string
  pi_severity :: issueSeverity

text \<open>\<open>for (let i = 0; i < Math.min(count, 50 - issues.length); i += 1) issues.push(...)\<close>: the bound is
  evaluated again in every round.\<close>

function add_from :: "nat \<Rightarrow> payments_issue \<Rightarrow> nat \<Rightarrow> payments_issue list \<Rightarrow> payments_issue list" where
  "add_from i item count issues =
     (if int i < min (int count) (50 - int (length issues))
      then add_from (i + 1) item count (issues @ [item]) else issues)"
  by pat_completeness auto

termination
  by (relation "measure (\<lambda>(i, item, count, issues). count - i)") auto

declare add_from.simps [simp del]

definition add_issue :: "string \<Rightarrow> issueSeverity \<Rightarrow> nat \<Rightarrow> payments_issue list \<Rightarrow> payments_issue list" where
  "add_issue code severity count issues = add_from 0 \<lparr>pi_code = code, pi_severity = severity\<rparr> count issues"

section \<open>The checks\<close>

definition ledger_data_missing :: "payments_db \<Rightarrow> nat" where
  "ledger_data_missing pdb =
     length (filter (\<lambda>t. tw_status t = T_COMPLETED
       \<and> (tw_ledgerJournalId t = None \<or> tw_senderPostingId t = None \<or> tw_recipientPostingId t = None)) (transfers pdb))"

definition orphan_intents :: "payments_db \<Rightarrow> nat" where
  "orphan_intents pdb =
     length (filter (\<lambda>i. ti_consumedAt i \<noteq> None \<and> \<not> list_ex (\<lambda>t. tw_intentId t = ti_id i) (transfers pdb))
       (transferIntents pdb))"

definition completed_with_failure :: "payments_db \<Rightarrow> nat" where
  "completed_with_failure pdb =
     length (filter (\<lambda>t. tw_status t = T_COMPLETED \<and> tw_failureCode t \<noteq> None) (transfers pdb))"

definition stale_processing :: "time \<Rightarrow> payments_db \<Rightarrow> nat" where
  "stale_processing now pdb =
     length (filter (\<lambda>t. tw_status t = T_PROCESSING \<and> tw_updatedAt t < now - 30000) (transfers pdb))"

definition qr_data_missing :: "qr_db \<Rightarrow> nat" where
  "qr_data_missing qdb =
     length (filter (\<lambda>x. qx_status x = QP_COMPLETED \<and> qx_ledgerJournalId x = None) (qrRedemptions qdb))"

definition agent_data_missing :: "agent_db \<Rightarrow> nat" where
  "agent_data_missing adb =
     length (filter (\<lambda>x. ac_status x = AC_COMPLETED \<and> ac_ledgerJournalId x = None) (agentOperations adb))"

definition payments_issues :: "time \<Rightarrow> payments_db \<Rightarrow> qr_db \<Rightarrow> agent_db \<Rightarrow> payments_issue list" where
  "payments_issues now pdb qdb adb =
     add_issue ''COMPLETED_AGENT_MISSING_LEDGER_DATA'' ERROR (agent_data_missing adb)
     (add_issue ''COMPLETED_QR_MISSING_LEDGER_DATA'' ERROR (qr_data_missing qdb)
     (add_issue ''STALE_PROCESSING_TRANSFER'' WARNING (stale_processing now pdb)
     (add_issue ''COMPLETED_TRANSFER_HAS_FAILURE'' ERROR (completed_with_failure pdb)
     (add_issue ''CONSUMED_INTENT_WITHOUT_TRANSFER'' ERROR (orphan_intents pdb)
     (add_issue ''COMPLETED_TRANSFER_LEDGER_DATA_MISSING'' ERROR (ledger_data_missing pdb) [])))))"

record payments_run =
  pn_status :: reconciliationStatus
  pn_checkedTransfers :: nat
  pn_checkedIntents :: nat
  pn_issueCount :: nat
  pn_issues :: "payments_issue list"
  pn_startedAt :: time
  pn_completedAt :: time

text \<open>The stored run, whose first five fields are also the answer.\<close>

definition payments_reconciliation ::
  "payments_env \<Rightarrow> payments_db \<Rightarrow> qr_db \<Rightarrow> agent_db \<Rightarrow> payments_run list \<Rightarrow> payments_run \<times> payments_run list" where
  "payments_reconciliation env pdb qdb adb runs =
     (let issues = payments_issues (p_now env) pdb qdb adb;
          run = \<lparr>pn_status = (if list_ex (\<lambda>i. pi_severity i = ERROR) issues then FAIL else PASS),
                 pn_checkedTransfers = length (transfers pdb), pn_checkedIntents = length (transferIntents pdb),
                 pn_issueCount = length issues, pn_issues = issues,
                 pn_startedAt = p_now env, pn_completedAt = p_now env\<rparr>
      in (run, runs @ [run]))"

section \<open>What the loop adds\<close>

text \<open>Half of the remaining room, rounded up, or the count when that is less.\<close>

lemma add_from_eq:
  assumes "length issues \<le> 50"
  shows "add_from i item count issues =
     issues @ replicate (min (count - i) ((51 - length issues - i) div 2)) item"
  using assms
proof (induction i item count issues rule: add_from.induct)
  case (1 i item count issues)
  show ?case
  proof (cases "int i < min (int count) (50 - int (length issues))")
    case True
    then have len: "length issues < 50" "i < count" "i < 50 - length issues" by auto
    have "add_from i item count issues = add_from (i + 1) item count (issues @ [item])"
      using True by (subst add_from.simps) simp
    also have "\<dots> = (issues @ [item]) @ replicate (min (count - (i + 1)) ((51 - length (issues @ [item]) - (i + 1)) div 2)) item"
      using 1(1) [OF True] len by simp
    also have "\<dots> = issues @ replicate (Suc (min (count - Suc i) ((49 - length issues - i) div 2))) item" by simp
    also have "Suc (min (count - Suc i) ((49 - length issues - i) div 2)) = min (count - i) ((51 - length issues - i) div 2)"
    proof -
      have "51 - length issues - i = Suc (Suc (49 - length issues - i))" using len by linarith
      then have "(51 - length issues - i) div 2 = Suc ((49 - length issues - i) div 2)" by simp
      moreover have "count - i = Suc (count - Suc i)" using len by linarith
      ultimately show ?thesis by (simp only: min_Suc_Suc)
    qed
    finally show ?thesis .
  next
    case False
    then have "count \<le> i \<or> 51 - length issues - i \<le> 1" using 1(2) by linarith
    then have "min (count - i) ((51 - length issues - i) div 2) = 0" by auto
    moreover have "add_from i item count issues = issues" using False by (subst add_from.simps) auto
    ultimately show ?thesis by simp
  qed
qed

lemma add_issue_eq:
  assumes "length issues \<le> 50"
  shows "add_issue code severity count issues =
     issues @ replicate (min count ((51 - length issues) div 2)) \<lparr>pi_code = code, pi_severity = severity\<rparr>"
  using add_from_eq [OF assms, of 0] by (simp add: add_issue_def)

lemma half_room:
  fixes n m k :: nat
  assumes "n \<le> m" and "m \<le> 51" and "k \<le> (51 - n) div 2"
  shows "n + k \<le> (m + 51) div 2"
proof -
  have "k * 2 \<le> 51 - n" using assms(3) by (simp add: less_eq_div_iff_mult_less_eq)
  moreover have "n \<le> 51" using assms by simp
  ultimately have "k * 2 + n \<le> 51" by (simp add: le_diff_conv2)
  with assms(1) have "(n + k) * 2 \<le> m + 51" by simp
  then show ?thesis by (simp add: less_eq_div_iff_mult_less_eq)
qed

lemma some_room: "(n :: nat) \<le> 49 \<Longrightarrow> (min k ((51 - n) div 2) = 0) = (k = 0)"
  by (cases k) (auto simp: min_def)

text \<open>Before each of the six calls there is room for at least one issue.\<close>

lemma payments_issues_spec:
  shows "length (payments_issues now pdb qdb adb) \<le> 50"
    and "(\<exists>i \<in> set (payments_issues now pdb qdb adb). pi_severity i = ERROR) \<longleftrightarrow>
      ledger_data_missing pdb \<noteq> 0 \<or> orphan_intents pdb \<noteq> 0 \<or> completed_with_failure pdb \<noteq> 0
      \<or> qr_data_missing qdb \<noteq> 0 \<or> agent_data_missing adb \<noteq> 0"
    and "(\<exists>i \<in> set (payments_issues now pdb qdb adb). pi_severity i = WARNING) \<longleftrightarrow> stale_processing now pdb \<noteq> 0"
proof -
  define a where "a = min (ledger_data_missing pdb) 25"
  define b where "b = min (orphan_intents pdb) ((51 - a) div 2)"
  define c where "c = min (completed_with_failure pdb) ((51 - (a + b)) div 2)"
  define d where "d = min (stale_processing now pdb) ((51 - (a + b + c)) div 2)"
  define e where "e = min (qr_data_missing qdb) ((51 - (a + b + c + d)) div 2)"
  define f where "f = min (agent_data_missing adb) ((51 - (a + b + c + d + e)) div 2)"
  note defs = a_def b_def c_def d_def e_def f_def
  have a: "a \<le> 25" by (simp add: a_def)
  have b: "a + b \<le> 38" using half_room [OF a, of b] by (simp add: b_def)
  have c: "a + b + c \<le> 44" using half_room [OF b, of c] by (simp add: c_def)
  have d: "a + b + c + d \<le> 47" using half_room [OF c, of d] by (simp add: d_def)
  have e: "a + b + c + d + e \<le> 49" using half_room [OF d, of e] by (simp add: e_def)
  have f: "a + b + c + d + e + f \<le> 50" using half_room [OF e, of f] by (simp add: f_def)
  have zero: "(a = 0) = (ledger_data_missing pdb = 0)" "(b = 0) = (orphan_intents pdb = 0)"
    "(c = 0) = (completed_with_failure pdb = 0)" "(d = 0) = (stale_processing now pdb = 0)"
    "(e = 0) = (qr_data_missing qdb = 0)" "(f = 0) = (agent_data_missing adb = 0)"
  proof -
    show "(a = 0) = (ledger_data_missing pdb = 0)" by (simp add: a_def min_def)
    show "(b = 0) = (orphan_intents pdb = 0)" unfolding b_def by (rule some_room) (use a in simp)
    show "(c = 0) = (completed_with_failure pdb = 0)" unfolding c_def by (rule some_room) (use b in simp)
    show "(d = 0) = (stale_processing now pdb = 0)" unfolding d_def by (rule some_room) (use c in simp)
    show "(e = 0) = (qr_data_missing qdb = 0)" unfolding e_def by (rule some_room) (use d in simp)
    show "(f = 0) = (agent_data_missing adb = 0)" unfolding f_def by (rule some_room) (use e in simp)
  qed
  let ?E = "\<lambda>n code. replicate n \<lparr>pi_code = code, pi_severity = ERROR\<rparr>"
  let ?A = "?E a ''COMPLETED_TRANSFER_LEDGER_DATA_MISSING''" and ?B = "?E b ''CONSUMED_INTENT_WITHOUT_TRANSFER''"
    and ?C = "?E c ''COMPLETED_TRANSFER_HAS_FAILURE''"
    and ?D = "replicate d \<lparr>pi_code = ''STALE_PROCESSING_TRANSFER'', pi_severity = WARNING\<rparr>"
    and ?G = "?E e ''COMPLETED_QR_MISSING_LEDGER_DATA''" and ?H = "?E f ''COMPLETED_AGENT_MISSING_LEDGER_DATA''"
  have next_issue: "add_issue code severity count issues = issues @ replicate k \<lparr>pi_code = code, pi_severity = severity\<rparr>"
    if "length issues = n" "n \<le> 49" "k = min count ((51 - n) div 2)" for code severity count issues n k
    using add_issue_eq [of issues code severity count] that by simp
  have eq: "payments_issues now pdb qdb adb = ((((?A @ ?B) @ ?C) @ ?D) @ ?G) @ ?H"
    unfolding payments_issues_def
      next_issue [of "[]" 0, OF list.size(3) zero_le, of a, simplified, OF a_def]
      next_issue [of "?A" a, OF length_replicate _ b_def, OF le_trans [OF a], simplified]
      next_issue [of "?A @ ?B" "a + b", OF _ _ c_def, simplified, OF le_trans [OF b], simplified]
      next_issue [of "(?A @ ?B) @ ?C" "a + b + c", OF _ _ d_def, simplified, OF le_trans [OF c], simplified]
      next_issue [of "((?A @ ?B) @ ?C) @ ?D" "a + b + c + d", OF _ _ e_def, simplified, OF le_trans [OF d], simplified]
      next_issue [of "(((?A @ ?B) @ ?C) @ ?D) @ ?G" "a + b + c + d + e", OF _ e f_def, simplified]
    by simp
  show "length (payments_issues now pdb qdb adb) \<le> 50" using f by (simp add: eq)
  show "(\<exists>i \<in> set (payments_issues now pdb qdb adb). pi_severity i = ERROR) \<longleftrightarrow>
      ledger_data_missing pdb \<noteq> 0 \<or> orphan_intents pdb \<noteq> 0 \<or> completed_with_failure pdb \<noteq> 0
      \<or> qr_data_missing qdb \<noteq> 0 \<or> agent_data_missing adb \<noteq> 0"
    unfolding eq zero [symmetric] by (auto simp: set_replicate_conv_if)
  show "(\<exists>i \<in> set (payments_issues now pdb qdb adb). pi_severity i = WARNING) \<longleftrightarrow> stale_processing now pdb \<noteq> 0"
    unfolding eq zero [symmetric] by (auto simp: set_replicate_conv_if)
qed

lemma count_zero: "(length (filter P xs) = 0) = (\<forall>x \<in> set xs. \<not> P x)"
  by (simp add: filter_empty_conv)

text \<open>What a clean bill says of the three databases.\<close>

definition payments_clean :: "payments_db \<Rightarrow> qr_db \<Rightarrow> agent_db \<Rightarrow> bool" where
  "payments_clean pdb qdb adb =
     ((\<forall>t \<in> set (transfers pdb). tw_status t = T_COMPLETED \<longrightarrow>
         tw_ledgerJournalId t \<noteq> None \<and> tw_senderPostingId t \<noteq> None \<and> tw_recipientPostingId t \<noteq> None
         \<and> tw_failureCode t = None)
      \<and> (\<forall>i \<in> set (transferIntents pdb). ti_consumedAt i \<noteq> None \<longrightarrow> ti_id i \<in> tw_intentId ` set (transfers pdb))
      \<and> (\<forall>x \<in> set (qrRedemptions qdb). qx_status x = QP_COMPLETED \<longrightarrow> qx_ledgerJournalId x \<noteq> None)
      \<and> (\<forall>x \<in> set (agentOperations adb). ac_status x = AC_COMPLETED \<longrightarrow> ac_ledgerJournalId x \<noteq> None))"

lemma payments_clean_counts:
  "payments_clean pdb qdb adb \<longleftrightarrow>
     ledger_data_missing pdb = 0 \<and> orphan_intents pdb = 0 \<and> completed_with_failure pdb = 0
     \<and> qr_data_missing qdb = 0 \<and> agent_data_missing adb = 0"
  unfolding payments_clean_def ledger_data_missing_def orphan_intents_def completed_with_failure_def
    qr_data_missing_def agent_data_missing_def count_zero list_ex_iff image_iff
  by (intro iffI conjI) (blast | metis)+

lemma payments_reconciliation_status:
  assumes "payments_reconciliation env pdb qdb adb runs = (run, runs')"
  shows "pn_status run = PASS \<longleftrightarrow> payments_clean pdb qdb adb"
  using assms payments_issues_spec(2) [of "p_now env" pdb qdb adb]
  by (auto simp: payments_reconciliation_def Let_def payments_clean_counts list_ex_iff)

text \<open>the verdict of a payments reconciliation is exact.  Although every round of the collecting loop halves the room
  it leaves, so that most problems are not listed, a run on any tables answers PASS exactly when every
  completed transfer has its journal and postings and no failure code, every consumed intent has its transfer,
  and every completed QR payment and agent operation has its journal; a warning is listed exactly when a
  transfer has been in progress for more than thirty seconds; and at most fifty issues are stored.\<close>

theorem payments_reconciliation_exact:
  assumes "payments_reconciliation env pdb qdb adb runs = (run, runs')"
  shows "(pn_status run = PASS \<longleftrightarrow> payments_clean pdb qdb adb)
    \<and> ((\<exists>i \<in> set (pn_issues run). pi_severity i = WARNING) \<longleftrightarrow>
        (\<exists>t \<in> set (transfers pdb). tw_status t = T_PROCESSING \<and> tw_updatedAt t < p_now env - 30000))
    \<and> pn_issueCount run = length (pn_issues run) \<and> pn_issueCount run \<le> 50 \<and> runs' = runs @ [run]"
proof -
  have run: "pn_issues run = payments_issues (p_now env) pdb qdb adb" "pn_issueCount run = length (pn_issues run)"
    "runs' = runs @ [run]"
    using assms by (auto simp: payments_reconciliation_def Let_def)
  have "(stale_processing (p_now env) pdb \<noteq> 0) =
      (\<exists>t \<in> set (transfers pdb). tw_status t = T_PROCESSING \<and> tw_updatedAt t < p_now env - 30000)"
    unfolding stale_processing_def count_zero by blast
  with payments_issues_spec [of "p_now env" pdb qdb adb] payments_reconciliation_status [OF assms] run show ?thesis by simp
qed



section \<open>Overlapping settlements\<close>

text \<open>A confirmation and a recovery run settle the same transfer: both calls reach the ledger before either reply is recorded.\<close>

definition overlap_call :: "transfer_row \<Rightarrow> ledger_db \<times> (ledger_env \<times> network) list
    \<Rightarrow> transfer_result ledger_reply \<times> ledger_db \<times> (ledger_env \<times> network) list" where
  "overlap_call t s = served_call (settle_command t) ''cid'' s"

definition overlap_check :: "payments_db \<Rightarrow> payments_db \<Rightarrow> ledger_db \<Rightarrow> bool" where
  "overlap_check before after ldb =
     (map tw_status (transfers before) = [T_COMPLETED] \<and> map tw_status (transfers after) = [T_FAILED]
      \<and> map (wallet_balance demo_bank) (customerAccounts ldb) = [1000, 0] \<and> map (wallet_balance ldb) (customerAccounts ldb) = [400, 600]
      \<and> pn_status (fst (payments_reconciliation (demo_pay_env 50000) after demo_scanned_db demo_confirmed_db [])) = PASS)"

definition overlap_script :: "ledger_db \<times> (ledger_env \<times> network) list" where
  "overlap_script = (demo_bank, [(demo_env, DELIVERED), (demo_env, DELIVERED)])"

definition overlap_ends :: bool where
  "overlap_ends =
     (case confirm_transaction (demo_pay_env 3000) demo_cfg demo_confirmation ''cid'' demo_authorized_db of
        Inr ((t, False), p1) \<Rightarrow>
          (case claim (demo_pay_env 40000) demo_cfg p1 of
             Inr ((_, [u]), p2) \<Rightarrow>
               let a = overlap_call t overlap_script; b = overlap_call u (snd a); p3 = snd (settle_reply (demo_pay_env 40001) t (fst a) p2)
               in overlap_check p3 (snd (settle_reply (demo_pay_env 40002) u (fst b) p3)) (fst (snd b))
           | _ \<Rightarrow> False)
      | _ \<Rightarrow> False)"

lemma overlap_ends: overlap_ends
  by code_simp

lemma overlap_preflight: "confirm_preflight (demo_pay_env 3000) calm_risk demo_confirmation ''cid'' demo_authorized_db = Inr None"
  by code_simp

text \<open>The steps of the overlap: the confirmation writes its row, recovery claims it, both call the ledger, and both record the reply.\<close>

lemma overlap_steps:
  assumes c: "confirm_transaction (demo_pay_env 3000) demo_cfg demo_confirmation ''cid'' demo_authorized_db = Inr ((t, False), p1)"
    and cl: "claim (demo_pay_env 40000) demo_cfg p1 = Inr ((n, [u]), p2)"
    and calls: "served_call (settle_command t) ''cid'' s = (r1, s1)" "served_call (settle_command u) ''cid'' s1 = (r2, s2)"
    and replies: "settle_reply e1 t r1 p2 = (o1, p3)" "settle_reply e2 u r2 p3 = (o2, p4)"
  shows "\<exists>w. pay_reaches demo_cfg served_call {ClocksAgree} (empty_world s) w \<and> w_db w = p3 \<and> w_ledger w = s2
    \<and> pay_step demo_cfg served_call {ClocksAgree} w (w\<lparr>w_db := p4, w_replies := []\<rparr>)"
proof -
  let ?step = "pay_step demo_cfg served_call {ClocksAgree}"
  let ?w = "empty_world s\<lparr>w_db := demo_authorized_db\<rparr>"
  let ?w1 = "?w\<lparr>w_db := p1, w_flight := [t]\<rparr>"
  let ?w2 = "?w1\<lparr>w_db := p2, w_flight := [t, u]\<rparr>"
  let ?w3 = "?w2\<lparr>w_flight := [u], w_replies := [(t, r1)], w_ledger := s1\<rparr>"
  let ?w4 = "?w3\<lparr>w_flight := [], w_replies := [(t, r1), (u, r2)], w_ledger := s2\<rparr>"
  let ?w5 = "?w4\<lparr>w_db := p3, w_replies := [(u, r2)]\<rparr>"
  have e [simp]: "w_flight (empty_world s) = []" "w_replies (empty_world s) = []" "w_ledger (empty_world s) = s"
    by (simp_all add: empty_world_def)
  have "?step ?w ?w1"
    using step_prepare [OF overlap_preflight, where cfg = demo_cfg and env = "demo_pay_env 3000" and w = ?w and t = t and pdb' = p1
        and A = "{ClocksAgree}" and call = served_call] c by (simp add: demo_pay_env_def)
  moreover have "?step ?w1 ?w2"
    using step_claim [where env = "demo_pay_env 40000" and cfg = demo_cfg and w = ?w1 and rows = "[u]" and A = "{ClocksAgree}" and call = served_call] cl by simp
  moreover have "?step ?w2 ?w3"
    using step_call [where w = ?w2 and xs = "[]" and ys = "[u]" and A = "{ClocksAgree}" and cfg = demo_cfg and t = t and call = served_call and cid = "''cid''"] calls(1) by simp
  moreover have "?step ?w3 ?w4"
    using step_call [where w = ?w3 and xs = "[]" and ys = "[]" and A = "{ClocksAgree}" and cfg = demo_cfg and t = u and call = served_call and cid = "''cid''"] calls(2) by simp
  moreover have "?step ?w4 ?w5"
    using step_record [where w = ?w4 and xs = "[]" and ys = "[(u, r2)]" and t = t and reply = r1 and env = e1 and cfg = demo_cfg and call = served_call and A = "{ClocksAgree}"] replies(1) by simp
  ultimately have "pay_reaches demo_cfg served_call {ClocksAgree} ?w ?w5"
    unfolding pay_reaches_def by (meson rtranclp.rtrancl_into_rtrancl rtranclp.rtrancl_refl)
  moreover have "?step ?w5 (?w5\<lparr>w_db := p4, w_replies := []\<rparr>)"
    using step_record [where w = ?w5 and xs = "[]" and ys = "[]" and t = u and reply = r2 and env = e2 and cfg = demo_cfg and call = served_call and A = "{ClocksAgree}"] replies(2) by simp
  ultimately show ?thesis
    using pay_reaches_trans [OF demo_authorized_reached] by (intro exI [of _ ?w5]) simp
qed

text \<open>overlapping settlements can report a transfer that moved the money as failed.  Recovery claims a transfer
  whose confirmation is still waiting for the ledger; the ledger executes the first call and refuses the second
  for lack of funds, as its balance check comes before the replay; payments records COMPLETED and then, by an
  update without a condition on the status, FAILED.  The wallets have changed by the amount, and the
  reconciliation answers PASS.\<close>

theorem overlapping_settlements_conflict:
  "\<exists>w w'. pay_reaches demo_cfg served_call {ClocksAgree} (empty_world overlap_script) w
     \<and> pay_step demo_cfg served_call {ClocksAgree} w w'
     \<and> map tw_status (transfers (w_db w)) = [T_COMPLETED] \<and> map tw_status (transfers (w_db w')) = [T_FAILED]
     \<and> map (wallet_balance demo_bank) (customerAccounts (fst (w_ledger w'))) = [1000, 0]
     \<and> map (wallet_balance (fst (w_ledger w'))) (customerAccounts (fst (w_ledger w'))) = [400, 600]
     \<and> pn_status (fst (payments_reconciliation (demo_pay_env 50000) (w_db w') demo_scanned_db demo_confirmed_db [])) = PASS"
proof -
  from overlap_ends obtain t p1 n u p2 where
      c: "confirm_transaction (demo_pay_env 3000) demo_cfg demo_confirmation ''cid'' demo_authorized_db = Inr ((t, False), p1)"
      "claim (demo_pay_env 40000) demo_cfg p1 = Inr ((n, [u]), p2)"
    and k: "let a = overlap_call t overlap_script; b = overlap_call u (snd a); p3 = snd (settle_reply (demo_pay_env 40001) t (fst a) p2)
        in overlap_check p3 (snd (settle_reply (demo_pay_env 40002) u (fst b) p3)) (fst (snd b))"
    unfolding overlap_ends_def by (auto split: sum.splits prod.splits bool.splits list.splits simp del: Let_def)
  define a where "a = overlap_call t overlap_script"
  define b where "b = overlap_call u (snd a)"
  define p3 where "p3 = snd (settle_reply (demo_pay_env 40001) t (fst a) p2)"
  define p4 where "p4 = snd (settle_reply (demo_pay_env 40002) u (fst b) p3)"
  have k': "overlap_check p3 p4 (fst (snd b))" using k by (simp add: Let_def a_def b_def p3_def p4_def)
  obtain w where "pay_reaches demo_cfg served_call {ClocksAgree} (empty_world overlap_script) w" "w_db w = p3" "w_ledger w = snd b"
    "pay_step demo_cfg served_call {ClocksAgree} w (w\<lparr>w_db := p4, w_replies := []\<rparr>)"
    using overlap_steps [OF c, of overlap_script "fst a" "snd a" "fst b" "snd b" "demo_pay_env 40001"
        "fst (settle_reply (demo_pay_env 40001) t (fst a) p2)" p3 "demo_pay_env 40002" "fst (settle_reply (demo_pay_env 40002) u (fst b) p3)" p4]
    by (auto simp: a_def b_def p3_def p4_def overlap_call_def)
  with k'
  show ?thesis by (intro exI [of _ w] exI [of _ "w\<lparr>w_db := p4, w_replies := []\<rparr>"]) (simp add: overlap_check_def)
qed

end
