(* ===== verification/RoundingError.thy ===== *)
theory RoundingError
  imports Complex_Main JsNumber
begin

text \<open>
  How far rounding moves a number: a positive rational of normal size becomes a double within half a unit in
  its last place, so within the fraction \<open>1 / 2 ^ 53\<close> of it.
\<close>

definition js_value :: "int \<Rightarrow> int \<Rightarrow> real" where
  "js_value m e = real_of_int m * 2 powi e"

lemma pow2_ratio: "real_of_int (pow2 e) / real_of_int (pow2 (- e)) = 2 powi e"
  by (cases "0 \<le> e") (simp_all add: pow2_def power_int_def power_inverse inverse_eq_divide power_one_over)

lemma pow2_pos [simp]: "0 < pow2 e"
  by (simp add: pow2_def)

lemma powi_nat: "0 \<le> k \<Longrightarrow> real_of_int (2 ^ nat k) = 2 powi k"
  by (simp add: power_int_def)

lemma bits_real:
  assumes "0 < n"
  shows "2 powi (bits n - 1) \<le> real_of_int n \<and> real_of_int n < 2 powi bits n"
proof -
  from bits_bounds [OF assms] have b: "0 < bits n" "2 ^ nat (bits n - 1) \<le> n" "n < 2 ^ nat (bits n)" by auto
  from b(2) have "real_of_int (2 ^ nat (bits n - 1)) \<le> real_of_int n" by (simp only: of_int_le_iff)
  moreover from b(3) have "real_of_int n < real_of_int (2 ^ nat (bits n))" by (simp only: of_int_less_iff)
  ultimately show ?thesis using b(1) by (simp only: powi_nat)
qed

lemma leading_bounds:
  assumes "0 < n" and "0 < d"
  shows "2 powi leading n d \<le> real_of_int n / real_of_int d" and "real_of_int n / real_of_int d < 2 powi (leading n d + 1)"
proof -
  define b where "b = bits n - bits d"
  note n = bits_real [OF assms(1)] and d = bits_real [OF assms(2)]
  have d0: "0 < real_of_int d" using assms(2) by simp
  have up: "real_of_int n / real_of_int d < 2 powi (b + 1)"
  proof -
    have "real_of_int n < 2 powi bits n" using n by simp
    also have "\<dots> = 2 powi (b + 1) * 2 powi (bits d - 1)" by (simp add: b_def power_int_add [symmetric])
    also have "\<dots> \<le> 2 powi (b + 1) * real_of_int d" using d by simp
    finally show ?thesis using d0 by (simp add: pos_divide_less_eq)
  qed
  have low: "2 powi (b - 1) \<le> real_of_int n / real_of_int d"
  proof -
    have "2 powi (b - 1) * real_of_int d \<le> 2 powi (b - 1) * 2 powi bits d" using d by simp
    also have "\<dots> = 2 powi (bits n - 1)" by (simp add: b_def power_int_add [symmetric])
    also have "\<dots> \<le> real_of_int n" using n by simp
    finally show ?thesis using d0 by (simp add: pos_le_divide_eq)
  qed
  have test: "d * pow2 b \<le> n * pow2 (- b) \<longleftrightarrow> 2 powi b \<le> real_of_int n / real_of_int d"
  proof -
    have "d * pow2 b \<le> n * pow2 (- b) \<longleftrightarrow> real_of_int d * real_of_int (pow2 b) \<le> real_of_int n * real_of_int (pow2 (- b))"
      by (simp only: of_int_mult [symmetric] of_int_le_iff)
    also have "\<dots> \<longleftrightarrow> real_of_int (pow2 b) / real_of_int (pow2 (- b)) \<le> real_of_int n / real_of_int d"
      using d0 by (simp add: divide_le_eq pos_le_divide_eq field_simps)
    finally show ?thesis by (simp only: pow2_ratio)
  qed
  show "2 powi leading n d \<le> real_of_int n / real_of_int d" and "real_of_int n / real_of_int d < 2 powi (leading n d + 1)"
    using up low test by (auto simp: leading_def Let_def b_def [symmetric])
qed

lemma to_double_near:
  assumes "0 < n" and "0 < d" and "2 powi (- 1022) \<le> real_of_int n / real_of_int d" and "real_of_int n / real_of_int d < 2 powi 1000"
  obtains m e where "to_double n d = Fin m e" "0 \<le> m"
    "\<bar>js_value m e - real_of_int n / real_of_int d\<bar> \<le> real_of_int n / real_of_int d / 2 ^ 53"
proof -
  define e where "e = last_bit n d"
  define m where "m = round_half_even (n * pow2 (- e)) (d * pow2 e)"
  define q where "q = real_of_int n / real_of_int d"
  have d0: "0 < real_of_int d" and q0: "0 < q" using assms(1,2) by (simp_all add: q_def)
  have "\<bar>2 * (m * (d * pow2 e) - n * pow2 (- e))\<bar> \<le> d * pow2 e"
    unfolding m_def using assms(2) by (intro round_half_even_near) simp
  then have "real_of_int \<bar>2 * (m * (d * pow2 e) - n * pow2 (- e))\<bar> \<le> real_of_int (d * pow2 e)" by (simp only: of_int_le_iff)
  then have i: "\<bar>2 * (real_of_int m * (real_of_int d * u) - real_of_int n * v)\<bar> \<le> real_of_int d * u"
    if "u = real_of_int (pow2 e)" "v = real_of_int (pow2 (- e))" for u v using that by simp
  have near: "\<bar>js_value m e - q\<bar> \<le> 2 powi e / 2"
  proof -
    define u v where "u = real_of_int (pow2 e)" and "v = real_of_int (pow2 (- e))"
    have v: "0 < v" and r: "u / v = 2 powi e" by (simp_all add: u_def v_def pow2_ratio)
    have "2 * (real_of_int m * (real_of_int d * u) - real_of_int n * v) = real_of_int d * v * (2 * (real_of_int m * (u / v) - q))"
      using d0 v by (simp add: q_def field_simps)
    then have "real_of_int d * v * \<bar>2 * (real_of_int m * (u / v) - q)\<bar> \<le> real_of_int d * v * (u / v)"
      using i [OF u_def v_def] d0 v by (simp add: abs_mult)
    then have "\<bar>2 * (real_of_int m * (u / v) - q)\<bar> \<le> u / v" using mult_pos_pos [OF d0 v] by (simp only: mult_le_cancel_left_pos)
    then have "\<bar>2 * (js_value m e - q)\<bar> \<le> 2 powi e" unfolding js_value_def r .
    then show ?thesis by (simp only: abs_mult abs_numeral pos_le_divide_eq zero_less_numeral mult.commute)
  qed
  have L: "2 powi leading n d \<le> q" "q < 2 powi (leading n d + 1)" using leading_bounds [OF assms(1,2)] by (simp_all add: q_def)
  have ulp: "2 powi e \<le> q / 2 ^ 52"
  proof (cases "e = leading n d - 52")
    case True
    then have "2 powi e = (2 :: real) powi leading n d / 2 powi 52" by (simp add: power_int_diff)
    then have "2 powi e = (2 :: real) powi leading n d / 2 ^ 52" by (simp add: power_int_def)
    with L(1) show ?thesis by (simp add: divide_right_mono)
  next
    case False
    then have "e = - 1074" by (auto simp: e_def last_bit_def)
    then have "2 powi e = (2 :: real) powi (- 1022 - 52)" by simp
    also have "\<dots> = 2 powi (- 1022) / 2 powi 52" by (rule power_int_diff) simp
    also have "\<dots> \<le> q / 2 powi 52" using assms(3) unfolding q_def by (rule divide_right_mono) simp
    also have "(2 :: real) powi 52 = 2 ^ 52" by (simp only: power_int_numeral)
    finally show ?thesis .
  qed
  have close: "\<bar>js_value m e - q\<bar> \<le> q / 2 ^ 53" using near ulp by simp
  have m0: "0 \<le> m"
  proof -
    have "0 \<le> js_value m e" using close q0 by (simp add: abs_if split: if_splits)
    moreover have "0 < (2 :: real) powi e" by simp
    ultimately show ?thesis by (simp add: js_value_def zero_le_mult_iff not_le)
  qed
  have "m * pow2 e < pow2 1024"
  proof -
    have v: "js_value m e \<le> 2 * q" using close q0 by (simp add: abs_if split: if_splits)
    have "real_of_int (m * pow2 e) < 2 powi 1001"
    proof (cases "0 \<le> e")
      case True
      then have "real_of_int (m * pow2 e) = js_value m e" by (simp add: js_value_def pow2_def power_int_def)
      moreover have "2 * q < 2 * 2 powi 1000" using assms(4) by (simp add: q_def)
      moreover have "(2 :: real) * 2 powi 1000 = 2 powi 1001" by (simp add: power_int_def)
      ultimately show ?thesis using v by linarith
    next
      case False
      then have "real_of_int (m * pow2 e) = real_of_int m" by (simp add: pow2_def)
      also have "\<dots> = js_value m e * 2 powi (- e)" by (simp add: js_value_def power_int_minus)
      also have "\<dots> \<le> 2 * q * 2 powi (- e)" using v by (simp add: mult_right_mono)
      also have "\<dots> < 2 * 2 powi (leading n d + 1) * 2 powi (- e)" using L(2) by simp
      also have "\<dots> = 2 powi (leading n d - e + 2)" by (simp add: power_int_add power_int_diff power_int_minus field_simps)
      also have "\<dots> \<le> 2 powi 1001" by (rule power_int_increasing) (simp_all add: e_def last_bit_def)
      finally show ?thesis .
    qed
    also have "\<dots> < 2 powi 1024" by (rule power_int_strict_increasing) simp_all
    also have "\<dots> = real_of_int (pow2 1024)" by (simp add: pow2_def power_int_def)
    finally show ?thesis by (simp only: of_int_less_iff)
  qed
  then have "to_double n d = Fin m e" using assms(1) by (simp add: to_double_def Let_def e_def [symmetric] m_def [symmetric])
  from that [OF this m0 close [unfolded q_def]] show thesis .
qed

section \<open>Amounts in hundredths\<close>

text \<open>Reading a decimal amount of cents as a double and multiplying it by a hundred is off by less than one
  cent, below the bound.\<close>

lemma hundredfold_near:
  assumes "0 < n" and "n < 2 ^ 50" and "0 < k" "0 < d" and ratio0: "100 * k = n * d"
  obtains m e where "js_times (to_double k d) 100 = Fin m e" "\<bar>js_value m e - real_of_int n\<bar> < 1"
proof -
  have "100 * real_of_int k = real_of_int n * real_of_int d" using ratio0 by (metis of_int_mult of_int_numeral)
  then have kd: "real_of_int k / real_of_int d = real_of_int n / 100" using assms(4) by (simp add: field_simps)
  have n: "1 \<le> real_of_int n" "real_of_int n < 2 ^ 50" using assms by (simp, metis of_int_less_iff of_int_numeral of_int_power)
  have small: "2 powi (- 1022) \<le> (1 / 100 :: real)" "(1 / 50 :: real) \<le> 1"
  proof -
    have "(2 :: real) powi (- 1022) \<le> 2 powi (- 7)" by (rule power_int_increasing) simp_all
    also have "(2 :: real) powi (- 7) \<le> 1 / 100" by (simp add: power_int_def field_simps)
    finally show "2 powi (- 1022) \<le> (1 / 100 :: real)" .
  qed simp
  have big: "(2 :: real) ^ 52 \<le> 2 powi 1000"
  proof -
    have "(2 :: real) powi 52 \<le> 2 powi 1000" by (rule power_int_increasing) simp_all
    then show ?thesis by (simp add: power_int_def)
  qed
  obtain m1 e1 where t1: "to_double k d = Fin m1 e1" and p1: "0 \<le> m1"
    and c1: "\<bar>js_value m1 e1 - real_of_int n / 100\<bar> \<le> real_of_int n / 100 / 2 ^ 53"
    using to_double_near [OF assms(3,4), unfolded kd] assms n small big by auto
  define q where "q = js_value m1 e1 * 100"
  have q: "\<bar>q - real_of_int n\<bar> \<le> real_of_int n / 2 ^ 53" using c1 by (simp add: q_def abs_if split: if_splits)
  have ratio: "real_of_int (m1 * 100 * pow2 e1) / real_of_int (pow2 (- e1)) = q"
    by (simp add: q_def js_value_def pow2_ratio [symmetric])
  have "real_of_int n / 2 ^ 53 \<le> 1 / 8" using n by simp
  with q n have "7 / 8 \<le> q" "q < 2 ^ 50 + 1 / 8" by linarith+
  then have q_range: "7 / 8 \<le> q" "q < 2 ^ 51" by simp_all
  have "0 < real_of_int (m1 * 100 * pow2 e1) / real_of_int (pow2 (- e1))" using ratio q_range by simp
  then have pos: "0 < m1 * 100 * pow2 e1" by (metis of_int_0_less_iff pow2_pos zero_less_divide_iff less_asym)
  obtain m e where t2: "to_double (m1 * 100 * pow2 e1) (pow2 (- e1)) = Fin m e"
    and c2: "\<bar>js_value m e - q\<bar> \<le> q / 2 ^ 53"
  proof (rule to_double_near [OF pos pow2_pos [of "- e1"], unfolded ratio])
    show "2 powi (- 1022) \<le> q" using small(1) q_range(1) by linarith
    have "(2 :: real) ^ 51 \<le> 2 ^ 52" by simp
    then show "q < 2 powi 1000" using q_range(2) big by linarith
  qed (rule that)
  have "q / 2 ^ 53 < 1 / 4" using q_range by simp
  with c2 q \<open>real_of_int n / 2 ^ 53 \<le> 1 / 8\<close> have "\<bar>js_value m e - real_of_int n\<bar> < 1" by linarith
  with t1 t2 show thesis by (intro that [of m e]) (simp_all add: js_times_def)
qed

lemma js_floor_value: "js_floor (Fin m e) = Some \<lfloor>js_value m e\<rfloor>"
proof -
  have "js_value m e = real_of_int (m * pow2 e) / real_of_int (pow2 (- e))" by (simp add: js_value_def pow2_ratio [symmetric])
  then show ?thesis by (simp only: js_floor_def js_number.case floor_divide_of_int_eq)
qed

lemma hundredfold_floor:
  assumes "0 < n" and "n < 2 ^ 50" and "0 < k" "0 < d" and "100 * k = n * d"
  shows "js_floor (js_times (to_double k d) 100) = Some n \<or> js_floor (js_times (to_double k d) 100) = Some (n - 1)"
proof -
  obtain m e where t: "js_times (to_double k d) 100 = Fin m e" and c: "\<bar>js_value m e - real_of_int n\<bar> < 1"
    by (rule hundredfold_near [OF assms])
  then have "\<lfloor>js_value m e\<rfloor> = n \<or> \<lfloor>js_value m e\<rfloor> = n - 1" by linarith
  then show ?thesis by (auto simp: t js_floor_value)
qed

end
