(* ===== verification/Ussd.thy ===== *)
theory Ussd
  imports AgentCash RoundingError
begin

text \<open>
  The USSD channel of the payments service (\<open>services/payments/src/ussd/ussd.service.ts\<close>): a menu whose
  sessions live in Redis for five minutes and which ends in a transfer.  A stored session is JSON text; the
  model keeps the object it denotes.
\<close>

section \<open>Numbers as text\<close>

text \<open>\<open>Number.prototype.toString\<close> of a non-negative integral double: the exact decimal numeral up to the
  largest safe integer; above it the shortest digits that read back as the number, in scientific notation from
  \<open>10 ^ 21\<close> on.\<close>

definition digits_at :: "int \<Rightarrow> int \<Rightarrow> nat \<Rightarrow> int \<times> int" where
  "digits_at v n k =
     (let s = round_half_even v (10 ^ nat (n - int k)) in if s = 10 ^ k then (1, n + 1) else (s, n))"

definition reads_back :: "int \<Rightarrow> int \<times> int \<Rightarrow> bool" where
  "reads_back v sn =
     (case sn of (s, n) \<Rightarrow> js_integer (to_double (s * 10 ^ nat (n - int (length (dec_of_int s)))) 1) = Some v)"

definition shortest_digits :: "int \<Rightarrow> int \<times> int" where
  "shortest_digits v =
     (let n = int (length (dec_of_int v))
      in case List.find (\<lambda>k. reads_back v (digits_at v n k)) [1 ..< 18] of
           Some k \<Rightarrow> digits_at v n k | None \<Rightarrow> (v, n))"

definition js_integer_text :: "int \<Rightarrow> string" where
  "js_integer_text v =
     (if v \<le> max_safe_integer then dec_of_int v
      else case shortest_digits v of (s, n) \<Rightarrow>
        let ds = dec_of_int s in
        if n \<le> 21 then ds @ replicate (nat n - length ds) CHR ''0''
        else (if length ds = 1 then ds else hd ds # CHR ''.'' # tl ds) @ ''e+'' @ dec_of_int (n - 1))"

definition ussd_amount_re :: "string \<Rightarrow> bool" where
  "ussd_amount_re s =
     (let whole = takeWhile is_digit s; rest = dropWhile is_digit s
      in whole \<noteq> [] \<and> (rest = [] \<or> hd rest = CHR ''.'' \<and> list_all is_digit (tl rest)
           \<and> 1 \<le> length (tl rest) \<and> length (tl rest) \<le> 2))"

text \<open>\<open>Math.floor(parseFloat(userInput) * 100).toString()\<close>\<close>

definition ussd_amount :: "string \<Rightarrow> string" where
  "ussd_amount s =
     (case js_floor (js_times (decimal_literal False s) 100) of
        Some v \<Rightarrow> js_integer_text v | None \<Rightarrow> ''Infinity'')"

section \<open>Sessions\<close>

record ussd_session =
  us_state :: string
  us_msisdn :: string
  us_customerId :: string
  us_recipientReference :: "string option"
  us_recipientAccountId :: "string option"
  us_amountMinor :: "string option"

type_synonym ussd_store = "(string \<times> ussd_session \<times> time) list"

definition redis_get :: "time \<Rightarrow> ussd_store \<Rightarrow> string \<Rightarrow> ussd_session option" where
  "redis_get now store k =
     (case find_by fst k store of
        Some (_, s, until) \<Rightarrow> if now < until then Some s else None
      | None \<Rightarrow> None)"

definition redis_delete :: "string \<Rightarrow> ussd_store \<Rightarrow> ussd_store" where
  "redis_delete k store = filter (\<lambda>e. fst e \<noteq> k) store"

definition redis_set :: "time \<Rightarrow> string \<Rightarrow> ussd_session \<Rightarrow> int \<Rightarrow> ussd_store \<Rightarrow> ussd_store" where
  "redis_set now k s ttlSeconds store = (k, s, now + ttlSeconds * 1000) # redis_delete k store"

definition ussd_key :: "payments_config \<Rightarrow> string \<Rightarrow> string" where
  "ussd_key cfg sessionId = pc_redisKeyPrefix cfg @ ''ussd:'' @ sessionId"

record ussd_response =
  ur_sessionId :: string
  ur_message :: string
  ur_release :: bool

section \<open>The menu\<close>

definition WELCOME_MENU :: string where
  "WELCOME_MENU = ''Welcome to AEGIS USSD Banking'' @ [CHR 0x0A] @ ''1. Balance'' @ [CHR 0x0A] @ ''2. Send Money'' @ [CHR 0x0A] @ ''3. Exit''"

definition ussd_command :: "payments_env \<Rightarrow> string \<Rightarrow> ussd_session \<Rightarrow> transfer_command" where
  "ussd_command env customer st =
     \<lparr>tp_senderCustomerId = customer, tp_sourceAccountId = customer,
      tp_recipientReference = (case us_recipientReference st of Some r \<Rightarrow> r | None \<Rightarrow> []),
      tp_amountMinor = (case us_amountMinor st of Some a \<Rightarrow> a | None \<Rightarrow> []), tp_currency = ''LKR'',
      tc_transferId = p_uuid env 0, tc_transferReference = take 8 (p_hex env),
      tc_idempotencyKey = ''ussd-pay:'' @ p_uuid env 0\<rparr>"

definition ussd_pay_message :: "payments_env \<Rightarrow> transfer_result ledger_reply \<Rightarrow> string" where
  "ussd_pay_message env reply =
     (case reply of
        Answer _ \<Rightarrow> ''Transfer successful. Reference: '' @ map js_upper (take 8 (p_uuid env 0))
      | CallFailed _ _ \<Rightarrow> ''Transfer failed. Ledger request failed.''
      | Unreachable \<Rightarrow> ''Transfer failed. The transfer is processing.'')"

text \<open>One round of the menu: the session, the message, whether the dialogue ends, and the ledger behind it.\<close>

definition ussd_round ::
  "payments_env \<Rightarrow> (string \<Rightarrow> resolve_reply) \<Rightarrow> 's ledger_call \<Rightarrow> string \<Rightarrow> string \<Rightarrow> string \<Rightarrow> ussd_session \<Rightarrow> 's
     \<Rightarrow> (ussd_session \<times> string \<times> bool) \<times> 's" where
  "ussd_round env ask call customer cid userInput st s =
     (if us_state st = ''WELCOME'' then ((st\<lparr>us_state := ''MAIN_MENU''\<rparr>, WELCOME_MENU, False), s)
      else if us_state st = ''MAIN_MENU'' then
        (if userInput = ''1'' then
           ((st\<lparr>us_state := ''BALANCE''\<rparr>,
             ''Your balance request is being processed.'' @ [CHR 0x0A] @ ''1. Back to menu'', False), s)
         else if userInput = ''2'' then
           ((st\<lparr>us_state := ''SEND_MONEY_RECIPIENT''\<rparr>, ''Enter recipient account public reference:'', False), s)
         else ((st, ''Thank you for using AEGIS.'', True), s))
      else if us_state st = ''BALANCE'' then ((st\<lparr>us_state := ''MAIN_MENU''\<rparr>, WELCOME_MENU, False), s)
      else if us_state st = ''SEND_MONEY_RECIPIENT'' then
        (case ask userInput of
           Resolved _ accountId _ \<Rightarrow>
             ((st\<lparr>us_recipientReference := Some userInput, us_recipientAccountId := Some accountId,
                  us_state := ''SEND_MONEY_AMOUNT''\<rparr>, ''Enter amount in LKR:'', False), s)
         | _ \<Rightarrow> ((st, ''Account not found. Enter recipient account public reference:'', False), s))
      else if us_state st = ''SEND_MONEY_AMOUNT'' then
        (if \<not> ussd_amount_re userInput then ((st, ''Invalid amount. Enter amount in LKR:'', False), s)
         else ((st\<lparr>us_amountMinor := Some (ussd_amount userInput), us_state := ''SEND_MONEY_CONFIRM''\<rparr>,
                ''Send '' @ userInput @ '' LKR to '' @
                (case us_recipientReference st of Some r \<Rightarrow> r | None \<Rightarrow> ''undefined'') @ ''?'' @ [CHR 0x0A] @ ''1. Confirm'' @
                [CHR 0x0A] @ ''2. Cancel'', False), s))
      else if us_state st = ''SEND_MONEY_CONFIRM'' then
        (if userInput = ''1'' then
           ((st\<lparr>us_state := ''SEND_MONEY_PIN''\<rparr>, ''Enter your 6-digit PIN to confirm:'', False), s)
         else ((st, ''Transfer cancelled.'', True), s))
      else if us_state st = ''SEND_MONEY_PIN'' then
        (if userInput \<noteq> ''123456'' then ((st, ''Invalid PIN. Session ended.'', True), s)
         else (case call (ussd_command env customer st) cid s of
                 (reply, s') \<Rightarrow> ((st, ussd_pay_message env reply, True), s')))
      else ((st, ''Session ended due to an error.'', True), s))"

record ussd_input =
  ui_sessionId :: string
  ui_msisdn :: string
  ui_input :: string

definition handleWebhook ::
  "payments_env \<Rightarrow> payments_config \<Rightarrow> (string \<Rightarrow> resolve_reply) \<Rightarrow> 's ledger_call \<Rightarrow> ussd_input \<Rightarrow> string \<Rightarrow> string option
     \<Rightarrow> ussd_store \<Rightarrow> 's \<Rightarrow> ussd_response \<times> ussd_store \<times> 's" where
  "handleWebhook env cfg ask call input cid customerId store s =
     (let customer = (case customerId of Some c \<Rightarrow> if c = [] then ''00000000-0000-0000-0000-000000000000'' else c
                      | None \<Rightarrow> ''00000000-0000-0000-0000-000000000000'');
          k = ussd_key cfg (ui_sessionId input);
          st = (case redis_get (p_now env) store k of
                  Some st \<Rightarrow> st
                | None \<Rightarrow> \<lparr>us_state = ''WELCOME'', us_msisdn = ui_msisdn input, us_customerId = customer,
                            us_recipientReference = None, us_recipientAccountId = None, us_amountMinor = None\<rparr>)
      in case ussd_round env ask call customer cid (ui_input input) st s of
           ((st', message, ended), s') \<Rightarrow>
             (\<lparr>ur_sessionId = ui_sessionId input, ur_message = message, ur_release = ended\<rparr>,
              if ended then redis_delete k store else redis_set (p_now env) k st' 300 store, s'))"

record ussd_simulation =
  um_sessionId :: string
  um_message :: string
  um_ended :: bool
  um_simulated :: bool

definition handleSimulate ::
  "payments_env \<Rightarrow> payments_config \<Rightarrow> (string \<Rightarrow> resolve_reply) \<Rightarrow> 's ledger_call \<Rightarrow> string option \<Rightarrow> string \<Rightarrow> string \<Rightarrow> string
     \<Rightarrow> ussd_store \<Rightarrow> 's \<Rightarrow> ussd_simulation \<times> ussd_store \<times> 's" where
  "handleSimulate env cfg ask call sessionId userInput customerId cid store s =
     (case handleWebhook env cfg ask call
             \<lparr>ui_sessionId = (case sessionId of Some i \<Rightarrow> i | None \<Rightarrow> p_uuid env 1), ui_msisdn = ''+94770000000'',
              ui_input = userInput\<rparr> cid (Some customerId) store s of
        (r, store', s') \<Rightarrow>
          (\<lparr>um_sessionId = ur_sessionId r, um_message = ur_message r, um_ended = ur_release r, um_simulated = True\<rparr>,
           store', s'))"

section \<open>Amounts\<close>

text \<open>What an accepted text denotes: its hundredths.\<close>

definition cents_of :: "string \<Rightarrow> int" where
  "cents_of s = digits_value (takeWhile is_digit s @ take 2 (tl (dropWhile is_digit s) @ ''00''))"

lemma nat_of_dec_zero: "nat_of_dec (CHR ''0'' # s) = nat_of_dec s"
  using nat_of_dec_append [of "[CHR ''0'']" s] by (simp add: nat_of_dec_def digit_val_def)

lemma digits_value_nat: "digits_value s = int (nat_of_dec s)"
  by (simp add: digits_value_def int_of_dec_def nat_of_dec_zero)

lemma digits_value_zeros: "digits_value (ds @ replicate k CHR ''0'') = digits_value ds * 10 ^ k"
proof -
  have "nat_of_dec (replicate k CHR ''0'') = 0"
    by (induction k) (simp_all add: nat_of_dec_zero)
  then show ?thesis by (simp add: digits_value_nat nat_of_dec_append)
qed

lemma accepted_amount:
  assumes "ussd_amount_re s"
  shows "\<exists>frac. length frac \<le> 2
    \<and> cents_of s = digits_value (takeWhile is_digit s @ frac @ replicate (2 - length frac) CHR ''0'')
    \<and> decimal_literal False s = to_double (digits_value (takeWhile is_digit s @ frac)) (10 ^ length frac)"
proof (cases "dropWhile is_digit s")
  case Nil
  with assms show ?thesis
    by (intro exI [of _ "[]"])
      (simp add: ussd_amount_re_def cents_of_def decimal_literal_def exponent_part_def Let_def numeral_2_eq_2
        del: dropWhile_eq_Nil_conv)
next
  case (Cons c frac)
  with assms have c: "c = CHR ''.''" "list_all is_digit frac" "length frac = 1 \<or> length frac = 2" "takeWhile is_digit s \<noteq> []"
    by (auto simp: ussd_amount_re_def Let_def)
  have all: "takeWhile is_digit frac = frac" "dropWhile is_digit frac = []" using c(2) by (auto simp: list_all_iff)
  have pad: "take 2 (frac @ ''00'') = frac @ replicate (2 - length frac) CHR ''0''" using c(3) by auto
  show ?thesis
    using c(1,3,4) Cons all pad
    by (intro exI [of _ frac])
      (auto simp: cents_of_def decimal_literal_def exponent_part_def Let_def simp del: dropWhile_eq_Nil_conv takeWhile_eq_all_conv)
qed

lemma ussd_amount_cases:
  assumes "ussd_amount_re s" and "0 < cents_of s" and "cents_of s < 2 ^ 50"
  shows "ussd_amount s = dec_of_int (cents_of s) \<or> ussd_amount s = dec_of_int (cents_of s - 1)"
proof -
  obtain frac where f: "length frac \<le> 2"
      "cents_of s = digits_value (takeWhile is_digit s @ frac @ replicate (2 - length frac) CHR ''0'')"
      "decimal_literal False s = to_double (digits_value (takeWhile is_digit s @ frac)) (10 ^ length frac)"
    using accepted_amount [OF assms(1)] by blast
  define k where "k = digits_value (takeWhile is_digit s @ frac)"
  have c: "cents_of s = k * 10 ^ (2 - length frac)"
    using digits_value_zeros [of "takeWhile is_digit s @ frac"] by (simp add: f(2) k_def)
  have "100 * k = cents_of s * 10 ^ length frac"
  proof -
    have "cents_of s * 10 ^ length frac = k * 10 ^ (2 - length frac + length frac)" by (simp add: c power_add)
    also have "2 - length frac + length frac = 2" using f(1) by simp
    finally show ?thesis by simp
  qed
  moreover have "0 < k" using assms(2) by (simp add: c zero_less_mult_iff)
  ultimately have "js_floor (js_times (decimal_literal False s) 100) = Some (cents_of s)
      \<or> js_floor (js_times (decimal_literal False s) 100) = Some (cents_of s - 1)"
    using hundredfold_floor [OF assms(2,3) _ _ , of k "10 ^ length frac"] by (simp add: f(3) k_def)
  moreover have "cents_of s \<le> max_safe_integer" using assms(3) by (simp add: max_safe_integer_def)
  ultimately show ?thesis by (auto simp: ussd_amount_def js_integer_text_def)
qed


section \<open>Sessions on record\<close>

text \<open>A session that may pay names a recipient and an amount read from an accepted text.\<close>

definition session_ok :: "ussd_session \<Rightarrow> bool" where
  "session_ok st \<longleftrightarrow>
     (us_state st \<in> {''SEND_MONEY_AMOUNT'', ''SEND_MONEY_CONFIRM'', ''SEND_MONEY_PIN''} \<longrightarrow> us_recipientReference st \<noteq> None)
     \<and> (us_state st \<in> {''SEND_MONEY_CONFIRM'', ''SEND_MONEY_PIN''} \<longrightarrow>
          (\<exists>t. ussd_amount_re t \<and> us_amountMinor st = Some (ussd_amount t)))"

definition store_ok :: "ussd_store \<Rightarrow> bool" where
  "store_ok store \<longleftrightarrow> (\<forall>e \<in> set store. session_ok (fst (snd e)))"

inductive ussd_reach :: "'s ledger_call \<Rightarrow> ussd_store \<times> 's \<Rightarrow> bool" for call where
  ussd_start: "ussd_reach call ([], s)"
| ussd_dial: "ussd_reach call (store, s) \<Longrightarrow>
    handleWebhook env cfg ask call input cid customer store s = (r, store', s') \<Longrightarrow> ussd_reach call (store', s')"

lemma ussd_round_session:
  assumes "ussd_round env ask call customer cid userInput st s = ((st', message, ended), s')" and "session_ok st"
  shows "session_ok st'"
  using assms by (auto simp: ussd_round_def session_ok_def split: if_splits resolve_reply.splits prod.splits)

lemma ussd_round_quiet:
  assumes "ussd_round env ask call customer cid userInput st s = ((st', message, ended), s')"
    and "us_state st \<noteq> ''SEND_MONEY_PIN'' \<or> userInput \<noteq> ''123456''"
  shows "s' = s"
  using assms by (auto simp: ussd_round_def split: if_splits resolve_reply.splits prod.splits)


lemma redis_get_ok: "redis_get now store k = Some st \<Longrightarrow> store_ok store \<Longrightarrow> session_ok st"
  by (force simp: redis_get_def store_ok_def dest: find_by_Some split: option.splits prod.splits if_splits)

lemma fresh_session_ok [simp]: "us_state st = ''WELCOME'' \<Longrightarrow> session_ok st"
  by (simp add: session_ok_def)

lemma handleWebhook_store:
  assumes "handleWebhook env cfg ask call input cid customer store s = (r, store', s')" and "store_ok store"
  shows "store_ok store'"
proof -
  have "session_ok st'" if "ussd_round env ask call c cid (ui_input input)
      (case redis_get (p_now env) store k of None \<Rightarrow> st0 | Some st \<Rightarrow> st) s = ((st', message, ended), s'')"
    and "us_state st0 = ''WELCOME''" for c k st0 st' message ended s''
    using that(2) by (intro ussd_round_session [OF that(1)]) (auto split: option.splits dest: redis_get_ok [OF _ assms(2)])
  with assms show ?thesis
    by (auto simp: handleWebhook_def Let_def store_ok_def redis_set_def redis_delete_def split: prod.splits if_splits)
qed

lemma ussd_reach_ok:
  assumes "ussd_reach call w"
  shows "store_ok (fst w)"
  using assms by induction (auto simp: store_ok_def [of "[]"] intro: handleWebhook_store)


lemma ussd_reference_refused: "\<not> transferDisplayReferenceSchema (take 8 h)"
proof
  assume "transferDisplayReferenceSchema (take 8 h)"
  then obtain a b c where "split_on CHR ''-'' (take 8 h) = [''AEGIS'', ''TRF'', a, b, c]"
    by (auto simp: transferDisplayReferenceSchema_def split: list.splits)
  then have "take 8 h = join_with ''-'' [''AEGIS'', ''TRF'', a, b, c]" by (metis join_split)
  then have "length (take 8 h) = length (join_with ''-'' [''AEGIS'', ''TRF'', a, b, c])" by simp
  then show False by (simp add: join_with_Cons)
qed

lemma ussd_command_refused:
  "\<exists>rest. served_call (ussd_command env customer st) cid s = (CallFailed 400 (Some ''INVALID_REQUEST''), (fst s, rest))
    \<or> served_call (ussd_command env customer st) cid s = (Unreachable, (fst s, rest))"
  by (rule served_call_refuses) (simp add: internalLedgerTransferCommandSchema_def ussd_command_def ussd_reference_refused)

lemma ussd_round_served:
  assumes "ussd_round env ask served_call customer cid userInput st s = ((st', message, ended), s')"
  shows "fst s' = fst s" and "\<not> starts_with ''Transfer successful'' message"
proof -
  have "fst s' = fst s \<and> \<not> starts_with ''Transfer successful'' message"
  proof (cases "us_state st = ''SEND_MONEY_PIN'' \<and> userInput = ''123456''")
    case True
    with assms ussd_command_refused [of env customer st cid s] show ?thesis
      by (auto simp: ussd_round_def ussd_pay_message_def starts_with_def)
  next
    case False
    with assms ussd_round_quiet [OF assms] show ?thesis
      by (auto simp: ussd_round_def WELCOME_MENU_def starts_with_def split: if_splits resolve_reply.splits)
  qed
  then show "fst s' = fst s" and "\<not> starts_with ''Transfer successful'' message" by simp_all
qed

section \<open>A dialogue\<close>

type_synonym demo_side = "ledger_db \<times> (ledger_env \<times> network) list"

section \<open>Properties\<close>

text \<open>the amount the USSD channel sends is the one the customer typed or one cent less, never more: for every
  text the menu accepts, of less than \<open>2 ^ 50\<close> cents, the double product and its floor are off by at most one cent.
  They are off: \<open>0.29\<close> becomes 28 cents.\<close>

theorem ussd_amount_within_a_cent:
  assumes "ussd_amount_re s" and "0 < cents_of s" and "cents_of s < 2 ^ 50"
  shows "ussd_amount s = dec_of_int (cents_of s) \<or> ussd_amount s = dec_of_int (cents_of s - 1)"
  using assms by (rule ussd_amount_cases)

text \<open>the ledger is asked for a transfer only by a session that went through recipient, amount and confirmation and
  then entered the PIN of the code: in every state the channel can reach, a round that changes the ledger's side
  is the one call of the transfer endpoint, with the reference entered and the amount read from an accepted text.\<close>

theorem ussd_pays_as_entered:
  assumes "ussd_reach call (store, s)"
    and "handleWebhook env cfg ask call input cid customer store s = (r, store', s')" and "s' \<noteq> s"
  shows "\<exists>sender recipient t. ui_input input = ''123456'' \<and> ussd_amount_re t \<and> ur_release r
    \<and> s' = snd (call \<lparr>tp_senderCustomerId = sender, tp_sourceAccountId = sender, tp_recipientReference = recipient,
                      tp_amountMinor = ussd_amount t, tp_currency = ''LKR'', tc_transferId = p_uuid env 0,
                      tc_transferReference = take 8 (p_hex env), tc_idempotencyKey = ''ussd-pay:'' @ p_uuid env 0\<rparr> cid s)
    \<and> (\<exists>e \<in> set store. fst e = ussd_key cfg (ui_sessionId input) \<and> us_state (fst (snd e)) = ''SEND_MONEY_PIN''
         \<and> us_recipientReference (fst (snd e)) = Some recipient \<and> us_amountMinor (fst (snd e)) = Some (ussd_amount t))"
proof -
  let ?k = "ussd_key cfg (ui_sessionId input)"
  obtain c st0 st' message ended where
    round: "ussd_round env ask call c cid (ui_input input) (case redis_get (p_now env) store ?k of None \<Rightarrow> st0 | Some st \<Rightarrow> st) s
      = ((st', message, ended), s')" and st0: "us_state st0 = ''WELCOME''" and r: "ur_release r = ended"
    using assms(2) by (auto simp: handleWebhook_def Let_def split: prod.splits)
  from ussd_round_quiet [OF round] assms(3) have pin: "ui_input input = ''123456''"
    and "us_state (case redis_get (p_now env) store ?k of None \<Rightarrow> st0 | Some st \<Rightarrow> st) = ''SEND_MONEY_PIN''" by blast+
  then obtain st where st: "redis_get (p_now env) store ?k = Some st" "us_state st = ''SEND_MONEY_PIN''"
    using st0 by (auto split: option.splits)
  from st(1) have e: "\<exists>e \<in> set store. fst e = ?k \<and> fst (snd e) = st"
    by (force simp: redis_get_def dest: find_by_Some split: option.splits prod.splits if_splits)
  have "session_ok st" using redis_get_ok [OF st(1)] ussd_reach_ok [OF assms(1)] by simp
  then obtain recipient t where p: "us_recipientReference st = Some recipient" "ussd_amount_re t" "us_amountMinor st = Some (ussd_amount t)"
    using st(2) by (auto simp: session_ok_def)
  have "ended \<and> s' = snd (call (ussd_command env c st) cid s)"
    using round st pin by (auto simp: ussd_round_def split: prod.splits)
  with p e st(2) pin r show ?thesis
    by (intro exI [of _ c] exI [of _ recipient] exI [of _ t]) (auto simp: ussd_command_def)
qed

text \<open>no USSD payment moves money.  The reference of eight hexadecimal digits is refused by the ledger's command
  schema, so whatever session is on record, whatever is entered and whatever the network does, the ledger's
  database stays as it was and the customer is never told that a transfer succeeded.\<close>

theorem ussd_never_moves_money:
  assumes "handleWebhook env cfg ask served_call input cid customer store s = (r, store', s')"
  shows "fst s' = fst s \<and> \<not> starts_with ''Transfer successful'' (ur_message r)"
  using assms by (auto simp: handleWebhook_def Let_def dest: ussd_round_served split: prod.splits)


end
