(* ===== verification/RiskEngine.thy ===== *)
theory RiskEngine
  imports PaymentsDb
begin

text \<open>
  The risk engine (\<open>services/risk/src/assessments/risk-engine.ts\<close>): fifteen weighted rules over the facts known of
  a customer, a score capped at a hundred, four bands and the decision and control they lead to.
\<close>

section \<open>Rules\<close>

datatype risk_band = BAND_LOW | BAND_MEDIUM | BAND_HIGH | BAND_CRITICAL

datatype controlType =
    CT_REQUIRE_STEP_UP | CT_TEMPORARY_BLOCK | CT_TRANSFER_HOLD | CT_RECIPIENT_BLOCK | CT_SESSION_REVOKE
  | CT_ACCOUNT_RESTRICT | CT_MANUAL_REVIEW | CT_QUARANTINE

record risk_thresholds =
  th_authFailures :: int
  th_requestVelocity :: int
  th_transferVelocity :: int
  th_cumulativeOutgoingMinor :: int
  th_highValueMinor :: int
  th_insufficientFunds :: int
  th_idempotencyConflicts :: int
  th_linkedSubjectsPerDevice :: int
  th_csrfMalformed :: int

definition DEFAULT_THRESHOLDS :: risk_thresholds where
  "DEFAULT_THRESHOLDS =
     \<lparr>th_authFailures = 5, th_requestVelocity = 60, th_transferVelocity = 5, th_cumulativeOutgoingMinor = 25000000,
      th_highValueMinor = 10000000, th_insufficientFunds = 3, th_idempotencyConflicts = 2,
      th_linkedSubjectsPerDevice = 3, th_csrfMalformed = 5\<rparr>"

record risk_facts =
  rf_authFailures :: int
  rf_requestVelocity :: int
  rf_transferVelocity :: int
  rf_cumulativeOutgoingMinor :: int
  rf_newRecipient :: bool
  rf_insufficientFunds :: int
  rf_idempotencyConflicts :: int
  rf_linkedSubjectsForDevice :: int
  rf_rapidRegionChange :: bool
  rf_integrityAnomaly :: bool
  rf_internalAuthFailures :: int
  rf_csrfMalformedFailures :: int
  rf_blockedScope :: bool
  rf_activeIncident :: bool
  rf_activeControl :: bool

record risk_request =
  rq_evaluationId :: string
  rq_operation :: string
  rq_subjectId :: string
  rq_sessionId :: "string option"
  rq_deviceId :: "string option"
  rq_accountId :: "string option"
  rq_recipientId :: "string option"
  rq_amountMinor :: "string option"
  rq_currency :: "string option"
  rq_stepUpVerified :: bool
  rq_correlationId :: string

record triggered_rule =
  tr_code :: string
  tr_reasonCode :: string
  tr_weight :: int

definition risk_rule :: "bool \<Rightarrow> string \<Rightarrow> string \<Rightarrow> int \<Rightarrow> bool \<times> triggered_rule" where
  "risk_rule matched rule reason weight = (matched, \<lparr>tr_code = rule, tr_reasonCode = reason, tr_weight = weight\<rparr>)"

definition risk_rules :: "int \<Rightarrow> risk_facts \<Rightarrow> risk_thresholds \<Rightarrow> (bool \<times> triggered_rule) list" where
  "risk_rules amount facts th =
     [risk_rule (th_authFailures th \<le> rf_authFailures facts) ''AUTH_FAILURE_BURST'' ''REPEATED_AUTH_FAILURES'' 25,
      risk_rule (th_requestVelocity th \<le> rf_requestVelocity facts) ''REQUEST_VELOCITY'' ''SUSPICIOUS_REQUEST_VELOCITY'' 20,
      risk_rule (th_transferVelocity th \<le> rf_transferVelocity facts) ''TRANSFER_VELOCITY'' ''HIGH_TRANSFER_VELOCITY'' 25,
      risk_rule (th_cumulativeOutgoingMinor th \<le> rf_cumulativeOutgoingMinor facts) ''CUMULATIVE_OUTGOING'' ''HIGH_CUMULATIVE_VALUE'' 25,
      risk_rule (th_highValueMinor th \<le> amount) ''HIGH_VALUE'' ''HIGH_VALUE_TRANSFER'' 20,
      risk_rule (th_highValueMinor th \<le> amount \<and> rf_newRecipient facts) ''NEW_RECIPIENT_HIGH_VALUE'' ''NEW_RECIPIENT_HIGH_VALUE'' 30,
      risk_rule (th_insufficientFunds th \<le> rf_insufficientFunds facts) ''INSUFFICIENT_FUNDS_BURST'' ''REPEATED_INSUFFICIENT_FUNDS'' 15,
      risk_rule (th_idempotencyConflicts th \<le> rf_idempotencyConflicts facts) ''REPLAY_PATTERN'' ''REPLAY_LIKE_BEHAVIOUR'' 35,
      risk_rule (th_linkedSubjectsPerDevice th \<le> rf_linkedSubjectsForDevice facts) ''SHARED_DEVICE_CLUSTER'' ''SUSPICIOUS_DEVICE_CLUSTER'' 25,
      risk_rule (rf_rapidRegionChange facts) ''RAPID_REGION_CHANGE'' ''RAPID_REGION_CHANGE'' 15,
      risk_rule (rf_integrityAnomaly facts) ''INTEGRITY_ANOMALY'' ''INTEGRITY_ANOMALY'' 60,
      risk_rule (0 < rf_internalAuthFailures facts) ''INTERNAL_AUTH_FAILURE'' ''INTERNAL_AUTHENTICATION_FAILURE'' 50,
      risk_rule (th_csrfMalformed th \<le> rf_csrfMalformedFailures facts) ''SENSITIVE_REQUEST_FAILURES'' ''REPEATED_INVALID_REQUESTS'' 20,
      risk_rule (rf_blockedScope facts) ''KNOWN_BLOCKED_SCOPE'' ''ACTIVE_BLOCK'' 100,
      risk_rule (rf_activeIncident facts \<or> rf_activeControl facts) ''EXISTING_RISK_STATE'' ''ACTIVE_INCIDENT_OR_CONTROL'' 50]"

text \<open>\<open>BigInt(input.amountMinor || '0')\<close>; the amount is a decimal numeral by the schema of the request.\<close>

definition request_amount :: "risk_request \<Rightarrow> int" where
  "request_amount input =
     (case rq_amountMinor input of Some a \<Rightarrow> if a = [] then 0 else int_of_dec a | None \<Rightarrow> 0)"

definition triggeredRiskRules :: "risk_request \<Rightarrow> risk_facts \<Rightarrow> risk_thresholds \<Rightarrow> triggered_rule list" where
  "triggeredRiskRules input facts th = map snd (filter fst (risk_rules (request_amount input) facts th))"

section \<open>Score, band and decision\<close>

definition riskBand :: "int \<Rightarrow> risk_band" where
  "riskBand score =
     (if 75 \<le> score then BAND_CRITICAL else if 50 \<le> score then BAND_HIGH
      else if 25 \<le> score then BAND_MEDIUM else BAND_LOW)"

record engine_result =
  er_score :: int
  er_band :: risk_band
  er_decision :: riskDecision
  er_triggeredRules :: "string list"
  er_reasonCodes :: "string list"
  er_controlRecommendation :: "controlType option"
  er_publicExplanation :: string

definition public_explanation :: "riskDecision \<Rightarrow> string" where
  "public_explanation d =
     (if d = ALLOW then ''No additional verification is required.''
      else if d = ALLOW_WITH_MONITORING then ''The operation may continue with security monitoring.''
      else if d = REQUIRE_STEP_UP then ''Additional identity verification is required.''
      else ''The operation cannot continue while a security review is active.'')"

definition risk_decision :: "bool \<Rightarrow> risk_band \<Rightarrow> bool \<Rightarrow> bool \<Rightarrow> riskDecision \<times> controlType option" where
  "risk_decision blocked band stepUp anyRule =
     (if blocked then (BLOCK, Some CT_TEMPORARY_BLOCK)
      else if band = BAND_CRITICAL then (QUARANTINE, Some CT_QUARANTINE)
      else if band = BAND_HIGH then (HOLD_FOR_REVIEW, Some CT_TRANSFER_HOLD)
      else if band = BAND_MEDIUM \<and> \<not> stepUp then (REQUIRE_STEP_UP, Some CT_REQUIRE_STEP_UP)
      else if band = BAND_MEDIUM \<or> anyRule then (ALLOW_WITH_MONITORING, None)
      else (ALLOW, None))"

definition evaluateRisk :: "risk_request \<Rightarrow> risk_facts \<Rightarrow> risk_thresholds \<Rightarrow> engine_result" where
  "evaluateRisk input facts th =
     (let rules = triggeredRiskRules input facts th;
          score = min 100 (foldl (\<lambda>sum rule. sum + tr_weight rule) 0 rules);
          band = riskBand score;
          (decision, control) = risk_decision (rf_blockedScope facts) band (rq_stepUpVerified input) (0 < length rules)
      in \<lparr>er_score = score, er_band = band, er_decision = decision, er_triggeredRules = map tr_code rules,
          er_reasonCodes = map tr_reasonCode rules, er_controlRecommendation = control,
          er_publicExplanation = public_explanation decision\<rparr>)"

section \<open>Facts about the score\<close>

lemma foldl_weights: "foldl (\<lambda>sum rule. sum + tr_weight rule) a rules = a + sum_list (map tr_weight rules)"
  by (induction rules arbitrary: a) simp_all

definition matched_weight :: "(bool \<times> triggered_rule) list \<Rightarrow> int" where
  "matched_weight rules = (\<Sum>(m, rule) \<leftarrow> rules. if m then tr_weight rule else 0)"

lemma weights_of_matched: "sum_list (map (tr_weight \<circ> snd) (filter fst rules)) = matched_weight rules"
  by (induction rules) (auto simp: matched_weight_def)

text \<open>The same rules, in the same order with the same weights, of which more match.\<close>

definition rules_below :: "(bool \<times> triggered_rule) list \<Rightarrow> (bool \<times> triggered_rule) list \<Rightarrow> bool" where
  "rules_below rs rs' \<longleftrightarrow>
     list_all2 (\<lambda>(m, rule) (m', rule'). (m \<longrightarrow> m') \<and> rule = rule' \<and> 0 \<le> tr_weight rule) rs rs'"

lemma rules_below_weight: "rules_below rs rs' \<Longrightarrow> matched_weight rs \<le> matched_weight rs'"
  unfolding rules_below_def by (induction rule: list_all2_induct) (auto simp: matched_weight_def)

lemma rules_below_any: "rules_below rs rs' \<Longrightarrow> filter fst rs \<noteq> [] \<Longrightarrow> filter fst rs' \<noteq> []"
  unfolding rules_below_def by (induction rule: list_all2_induct) (auto split: if_splits)

definition facts_below :: "risk_facts \<Rightarrow> risk_facts \<Rightarrow> bool" where
  "facts_below f g \<longleftrightarrow>
     rf_authFailures f \<le> rf_authFailures g \<and> rf_requestVelocity f \<le> rf_requestVelocity g
     \<and> rf_transferVelocity f \<le> rf_transferVelocity g \<and> rf_cumulativeOutgoingMinor f \<le> rf_cumulativeOutgoingMinor g
     \<and> (rf_newRecipient f \<longrightarrow> rf_newRecipient g) \<and> rf_insufficientFunds f \<le> rf_insufficientFunds g
     \<and> rf_idempotencyConflicts f \<le> rf_idempotencyConflicts g \<and> rf_linkedSubjectsForDevice f \<le> rf_linkedSubjectsForDevice g
     \<and> (rf_rapidRegionChange f \<longrightarrow> rf_rapidRegionChange g) \<and> (rf_integrityAnomaly f \<longrightarrow> rf_integrityAnomaly g)
     \<and> rf_internalAuthFailures f \<le> rf_internalAuthFailures g \<and> rf_csrfMalformedFailures f \<le> rf_csrfMalformedFailures g
     \<and> (rf_blockedScope f \<longrightarrow> rf_blockedScope g)
     \<and> (rf_activeIncident f \<or> rf_activeControl f \<longrightarrow> rf_activeIncident g \<or> rf_activeControl g)"

lemma risk_rules_mono:
  assumes "a \<le> b" and "facts_below f g"
  shows "rules_below (risk_rules a f th) (risk_rules b g th)"
  using assms unfolding rules_below_def risk_rules_def risk_rule_def facts_below_def
  by (auto intro: order_trans)

fun severity :: "riskDecision \<Rightarrow> nat" where
  "severity ALLOW = 0"
| "severity ALLOW_WITH_MONITORING = 1"
| "severity REQUIRE_STEP_UP = 2"
| "severity HOLD_FOR_REVIEW = 3"
| "severity QUARANTINE = 4"
| "severity BLOCK = 5"

lemma evaluateRisk_score: "er_score (evaluateRisk input facts th) = min 100 (matched_weight (risk_rules (request_amount input) facts th))"
  by (simp add: evaluateRisk_def Let_def triggeredRiskRules_def foldl_weights weights_of_matched split: prod.splits)

lemma evaluateRisk_band: "er_band (evaluateRisk input facts th) = riskBand (er_score (evaluateRisk input facts th))"
  by (simp add: evaluateRisk_def Let_def split: prod.splits)

lemma evaluateRisk_decision:
  "(er_decision (evaluateRisk input facts th), er_controlRecommendation (evaluateRisk input facts th)) =
     risk_decision (rf_blockedScope facts) (er_band (evaluateRisk input facts th)) (rq_stepUpVerified input)
       (filter fst (risk_rules (request_amount input) facts th) \<noteq> [])"
  by (simp add: evaluateRisk_def Let_def triggeredRiskRules_def split: prod.splits)

lemma matched_weight_nonneg: "0 \<le> matched_weight (risk_rules a f th)"
  by (simp add: matched_weight_def risk_rules_def risk_rule_def)

lemma evaluateRisk_score_range: "0 \<le> er_score (evaluateRisk input facts th) \<and> er_score (evaluateRisk input facts th) \<le> 100"
  using matched_weight_nonneg by (simp add: evaluateRisk_score)

lemma risk_decision_mono:
  assumes "b \<longrightarrow> b'" and "s \<le> s'" and "u' \<longrightarrow> u" and "r \<longrightarrow> r'"
  shows "severity (fst (risk_decision b (riskBand s) u r)) \<le> severity (fst (risk_decision b' (riskBand s') u' r'))"
  using assms by (auto simp: risk_decision_def riskBand_def)


lemma evaluateRisk_mono:
  assumes "request_amount i \<le> request_amount j" and "facts_below f g" and "rq_stepUpVerified j \<longrightarrow> rq_stepUpVerified i"
  shows "er_score (evaluateRisk i f th) \<le> er_score (evaluateRisk j g th)"
    and "severity (er_decision (evaluateRisk i f th)) \<le> severity (er_decision (evaluateRisk j g th))"
proof -
  note below = risk_rules_mono [OF assms(1,2), of th]
  show score: "er_score (evaluateRisk i f th) \<le> er_score (evaluateRisk j g th)"
    using rules_below_weight [OF below] by (simp add: evaluateRisk_score)
  have d: "er_decision (evaluateRisk k h th) = fst (risk_decision (rf_blockedScope h) (riskBand (er_score (evaluateRisk k h th)))
      (rq_stepUpVerified k) (filter fst (risk_rules (request_amount k) h th) \<noteq> []))" for k h
    using evaluateRisk_decision [of k h th] by (metis evaluateRisk_band fst_conv)
  show "severity (er_decision (evaluateRisk i f th)) \<le> severity (er_decision (evaluateRisk j g th))"
    unfolding d using assms(2,3) score rules_below_any [OF below] by (intro risk_decision_mono) (auto simp: facts_below_def)
qed

section \<open>Properties\<close>

text \<open>the risk engine is monotone: with a larger amount, higher counts, more alarms and no fresher step-up, the
  score never falls and the decision is never milder, in the order allow, allow with monitoring, step-up, hold,
  quarantine, block.\<close>

theorem risk_engine_monotone:
  assumes "request_amount i \<le> request_amount j" and "facts_below f g" and "rq_stepUpVerified j \<longrightarrow> rq_stepUpVerified i"
  shows "er_score (evaluateRisk i f th) \<le> er_score (evaluateRisk j g th)
    \<and> severity (er_decision (evaluateRisk i f th)) \<le> severity (er_decision (evaluateRisk j g th))"
  using evaluateRisk_mono [OF assms] by simp

definition calm_facts :: risk_facts where
  "calm_facts =
     \<lparr>rf_authFailures = 0, rf_requestVelocity = 0, rf_transferVelocity = 0, rf_cumulativeOutgoingMinor = 0,
      rf_newRecipient = False, rf_insufficientFunds = 0, rf_idempotencyConflicts = 0, rf_linkedSubjectsForDevice = 0,
      rf_rapidRegionChange = False, rf_integrityAnomaly = False, rf_internalAuthFailures = 0,
      rf_csrfMalformedFailures = 0, rf_blockedScope = False, rf_activeIncident = False, rf_activeControl = False\<rparr>"

definition demo_risk_request :: "string option \<Rightarrow> risk_request" where
  "demo_risk_request amount =
     \<lparr>rq_evaluationId = ''e1'', rq_operation = ''TRANSFER_CONFIRMATION'', rq_subjectId = ''alice'', rq_sessionId = None,
      rq_deviceId = None, rq_accountId = None, rq_recipientId = None, rq_amountMinor = amount, rq_currency = None,
      rq_stepUpVerified = False, rq_correlationId = ''c''\<rparr>"

end
