(* ===== verification/RiskEvents.thy ===== *)
theory RiskEvents
  imports RiskEngine
begin

text \<open>
  The state of the risk service (\<open>services/risk/prisma/schema.prisma\<close>) and its intake: velocity counters in Redis
  (\<open>events/velocity.service.ts\<close>), security events (\<open>events/event.service.ts\<close>) and their retention
  (\<open>retention/retention.service.ts\<close>).
\<close>

section \<open>Errors, environment, tables\<close>

datatype risk_error =
    RiskHttp string nat
  | RiskZodError
  | RiskUniqueViolation
  | RiskRecordNotFound
  | RiskConstraint
  | RiskFault string

definition riskUnauthorized :: risk_error where
  "riskUnauthorized = RiskHttp ''Unauthorized'' 401"

definition riskForbidden :: risk_error where
  "riskForbidden = RiskHttp ''Forbidden'' 403"

datatype attribute = AttrText string | AttrNumber js_number | AttrBool bool | AttrNull

record event_row =
  ev_id :: string
  ev_source :: string
  ev_sourceEventId :: string
  ev_schemaVersion :: string
  ev_eventType :: string
  ev_severity :: string
  ev_occurredAt :: time
  ev_receivedAt :: time
  ev_subjectId :: "string option"
  ev_accountId :: "string option"
  ev_sessionId :: "string option"
  ev_deviceId :: "string option"
  ev_recipientId :: "string option"
  ev_correlationId :: string
  ev_attributes :: "(string \<times> attribute) list"

record input_facts =
  if_operation :: string
  if_hasSession :: bool
  if_hasDevice :: bool
  if_hasAccount :: bool
  if_hasRecipient :: bool
  if_amountMinor :: "string option"
  if_stepUpVerified :: bool

record assessment_row =
  an_id :: string
  an_evaluationId :: string
  an_eventId :: "string option"
  an_subjectId :: string
  an_operation :: string
  an_score :: int
  an_band :: risk_band
  an_decision :: riskDecision
  an_triggeredRules :: "string list"
  an_reasonCodes :: "string list"
  an_controlRecommendation :: "controlType option"
  an_inputFacts :: input_facts
  an_ruleSetVersion :: string
  an_publicExplanation :: string
  an_expiresAt :: time
  an_createdAt :: time

datatype controlStatus = CS_ACTIVE | CS_RELEASED | CS_EXPIRED | CS_OVERRIDDEN

record control_row =
  cl_id :: string
  cl_idempotencyKeyHash :: string
  cl_type :: controlType
  cl_scopeType :: controlScope
  cl_scopeId :: string
  cl_operation :: "string option"
  cl_reasonCode :: string
  cl_status :: controlStatus
  cl_assessmentId :: "string option"
  cl_incidentId :: "string option"
  cl_createdBy :: string
  cl_expiresAt :: time
  cl_createdAt :: time

record control_event =
  ce_controlId :: string
  ce_eventType :: string
  ce_actorId :: string
  ce_reason :: string
  ce_occurredAt :: time

datatype incidentStatus = IS_OPEN | IS_INVESTIGATING | IS_CONTAINED | IS_RESOLVED | IS_FALSE_POSITIVE

record incident_row =
  in_id :: string
  in_assessmentId :: "string option"
  in_severity :: risk_band
  in_status :: incidentStatus
  in_title :: string
  in_assignedTo :: "string option"
  in_resolutionReason :: "string option"
  in_createdAt :: time
  in_resolvedAt :: "time option"

record incident_event =
  ie_incidentId :: string
  ie_eventType :: string
  ie_actorId :: string
  ie_note :: "string option"
  ie_occurredAt :: time

record source_health =
  sh_source :: string
  sh_lastEventId :: string
  sh_lastOccurredAt :: time
  sh_lastReceivedAt :: time
  sh_acceptedCount :: int
  sh_duplicateCount :: int

record operator_audit =
  oa_operatorId :: string
  oa_action :: string
  oa_targetType :: string
  oa_targetId :: string
  oa_reason :: string
  oa_correlationId :: string
  oa_occurredAt :: time

text \<open>The digest, the clock, fresh identifiers and random tokens are parameters, and so is the order in which the
  database returns the control rows of a query that asks for none.\<close>

record risk_env =
  rk_sha256 :: "string \<Rightarrow> string"
  rk_now :: time
  rk_uuid :: "nat \<Rightarrow> string"
  rk_token :: "nat \<Rightarrow> string"
  rk_order :: "control_row list \<Rightarrow> control_row list"

record risk_db =
  securityEvents :: "event_row list"
  riskAssessments :: "assessment_row list"
  controlActions :: "control_row list"
  controlEvents :: "control_event list"
  incidents :: "incident_row list"
  incidentEvents :: "incident_event list"
  sourceHealths :: "source_health list"
  operatorAudits :: "operator_audit list"

definition empty_risk_db :: risk_db where
  "empty_risk_db =
     \<lparr>securityEvents = [], riskAssessments = [], controlActions = [], controlEvents = [], incidents = [],
      incidentEvents = [], sourceHealths = [], operatorAudits = []\<rparr>"

section \<open>Velocity counters\<close>

text \<open>A Redis counter with the time its key expires; an integer is read through \<open>Number\<close>, so rounded to a double.\<close>

type_synonym velocity_store = "(string \<times> int \<times> time) list"

definition risk_key :: "risk_config \<Rightarrow> string list \<Rightarrow> string" where
  "risk_key cfg parts =
     rc_redisPrefix cfg @
     join_with '':'' (map (map (\<lambda>c. if is_alnum c \<or> c \<in> set '':_-'' then c else CHR ''_'')) parts)"

definition number_of_int :: "int \<Rightarrow> int" where
  "number_of_int v = (case js_integer (to_double v 1) of Some i \<Rightarrow> i | None \<Rightarrow> v)"

definition velocity_live :: "time \<Rightarrow> velocity_store \<Rightarrow> string \<Rightarrow> (int \<times> time) option" where
  "velocity_live now store k =
     (case find_by fst k store of Some (_, v, until) \<Rightarrow> if now < until then Some (v, until) else None | None \<Rightarrow> None)"

definition velocity_increment ::
  "risk_env \<Rightarrow> risk_config \<Rightarrow> string \<Rightarrow> string \<Rightarrow> int \<Rightarrow> int \<Rightarrow> velocity_store \<Rightarrow> (risk_error, int \<times> velocity_store) res" where
  "velocity_increment env cfg scopeId signal windowSeconds amount store =
     (let k = risk_key cfg [''velocity'', signal, rk_sha256 env scopeId];
          (v, until) = (case velocity_live (rk_now env) store k of
                          Some (v, until) \<Rightarrow> (v + amount, until)
                        | None \<Rightarrow> (amount, rk_now env + windowSeconds * 1000))
      in if 2 ^ 63 \<le> v then Inl (RiskFault ''increment or decrement would overflow'')
         else Inr (number_of_int v, (k, v, until) # filter (\<lambda>e. fst e \<noteq> k) store))"

definition velocity_read :: "risk_env \<Rightarrow> risk_config \<Rightarrow> velocity_store \<Rightarrow> string \<Rightarrow> string \<Rightarrow> int" where
  "velocity_read env cfg store scopeId signal =
     (case velocity_live (rk_now env) store (risk_key cfg [''velocity'', signal, rk_sha256 env scopeId]) of
        Some (v, _) \<Rightarrow> number_of_int v | None \<Rightarrow> 0)"

section \<open>Intake\<close>

definition source_token :: "risk_config \<Rightarrow> string \<Rightarrow> string option" where
  "source_token cfg source = map_of (rc_sourceTokens cfg) source"

definition authenticate :: "risk_config \<Rightarrow> string \<Rightarrow> string \<Rightarrow> (risk_error, unit) res" where
  "authenticate cfg source token =
     (case source_token cfg source of
        None \<Rightarrow> Inl riskUnauthorized
      | Some expected \<Rightarrow> require (expected \<noteq> [] \<and> timingSafeStringEqual token expected) riskUnauthorized)"

definition authenticateSourceToken :: "risk_config \<Rightarrow> string \<Rightarrow> (risk_error, unit) res" where
  "authenticateSourceToken cfg token =
     require (list_ex (\<lambda>(_, expected). timingSafeStringEqual token expected) (rc_sourceTokens cfg)) riskUnauthorized"

text \<open>\<open>Number(event.attributes.amountMinor || 0)\<close>, when it is a positive safe integer.\<close>

definition attribute_number :: "attribute option \<Rightarrow> js_number" where
  "attribute_number a =
     (case a of
        Some (AttrText t) \<Rightarrow> if t = [] then Fin 0 0 else js_Number t
      | Some (AttrNumber x) \<Rightarrow> x
      | Some (AttrBool b) \<Rightarrow> if b then Fin 1 0 else Fin 0 0
      | Some AttrNull \<Rightarrow> Fin 0 0
      | None \<Rightarrow> Fin 0 0)"

definition outgoing_amount :: "event_row \<Rightarrow> int option" where
  "outgoing_amount e =
     (case isSafeInteger (attribute_number (map_of (ev_attributes e) ''amountMinor'')) of
        Some v \<Rightarrow> if 0 < v then Some v else None
      | None \<Rightarrow> None)"

definition velocity_plan :: "event_row \<Rightarrow> (string \<times> int \<times> int) list" where
  "velocity_plan e =
     (let t = ev_eventType e in
      [(''requests:60s'', 60, 1)]
      @ (if t \<in> {''LOGIN_FAILURE'', ''PIN_FAILURE'', ''OTP_FAILURE'', ''ACCOUNT_LOCK''} then [(''auth-failures:600s'', 600, 1)] else [])
      @ (if t \<in> {''TRANSFER_PREVIEW'', ''TRANSFER_CONFIRMATION''}
         then (''transfers:600s'', 600, 1) #
              (case outgoing_amount e of Some v \<Rightarrow> [(''outgoing:86400s'', 86400, v)] | None \<Rightarrow> [])
         else [])
      @ (if t = ''INSUFFICIENT_FUNDS'' then [(''insufficient:600s'', 600, 1)] else [])
      @ (if t = ''IDEMPOTENCY_CONFLICT'' then [(''idempotency:600s'', 600, 1)] else [])
      @ (if t \<in> {''CSRF_FAILURE'', ''MALFORMED_REQUEST''} then [(''invalid-sensitive:600s'', 600, 1)] else []))"

text \<open>The increments one after the other; the first that fails ends the call and leaves what was counted.\<close>

fun run_increments ::
  "risk_env \<Rightarrow> risk_config \<Rightarrow> string \<Rightarrow> (string \<times> int \<times> int) list \<Rightarrow> velocity_store \<Rightarrow> (risk_error, unit) res \<times> velocity_store" where
  "run_increments env cfg subject [] store = (Inr (), store)"
| "run_increments env cfg subject ((signal, window, amount) # rest) store =
     (case velocity_increment env cfg subject signal window amount store of
        Inl err \<Rightarrow> (Inl err, store)
      | Inr (_, store') \<Rightarrow> run_increments env cfg subject rest store')"

definition updateVelocity ::
  "risk_env \<Rightarrow> risk_config \<Rightarrow> event_row \<Rightarrow> velocity_store \<Rightarrow> (risk_error, unit) res \<times> velocity_store" where
  "updateVelocity env cfg e store =
     (case ev_subjectId e of
        Some subject \<Rightarrow> if subject = [] then (Inr (), store) else run_increments env cfg subject (velocity_plan e) store
      | None \<Rightarrow> (Inr (), store))"

record ingest_result =
  ig_id :: string
  ig_duplicate :: bool
  ig_receivedAt :: time

definition upsert_health :: "risk_env \<Rightarrow> event_row \<Rightarrow> source_health list \<Rightarrow> source_health list" where
  "upsert_health env e rows =
     (if find_by sh_source (ev_source e) rows = None
      then rows @ [\<lparr>sh_source = ev_source e, sh_lastEventId = ev_id e, sh_lastOccurredAt = ev_occurredAt e,
                    sh_lastReceivedAt = rk_now env, sh_acceptedCount = 1, sh_duplicateCount = 0\<rparr>]
      else update_by sh_source (ev_source e)
             (\<lambda>h. h\<lparr>sh_lastEventId := ev_id e, sh_lastOccurredAt := ev_occurredAt e, sh_lastReceivedAt := rk_now env,
                    sh_acceptedCount := sh_acceptedCount h + 1\<rparr>) rows)"

definition ingest_transaction :: "risk_env \<Rightarrow> event_row \<Rightarrow> risk_db \<Rightarrow> (risk_error, event_row \<times> risk_db) res" where
  "ingest_transaction env e db =
     (let row = e\<lparr>ev_receivedAt := rk_now env\<rparr> in
      if list_ex (\<lambda>r. ev_id r = ev_id e \<or> ev_source r = ev_source e \<and> ev_sourceEventId r = ev_sourceEventId e) (securityEvents db)
      then Inl RiskUniqueViolation
      else Inr (row, db\<lparr>securityEvents := securityEvents db @ [row], sourceHealths := upsert_health env e (sourceHealths db)\<rparr>))"

definition ingest_duplicate :: "event_row \<Rightarrow> risk_db \<Rightarrow> (risk_error, ingest_result \<times> risk_db) res" where
  "ingest_duplicate e db =
     (case find_by (\<lambda>r. (ev_source r, ev_sourceEventId r)) (ev_source e, ev_sourceEventId e) (securityEvents db) of
        None \<Rightarrow> Inl RiskRecordNotFound
      | Some existing \<Rightarrow>
          if find_by sh_source (ev_source e) (sourceHealths db) = None then Inl RiskRecordNotFound
          else Inr (\<lparr>ig_id = ev_id existing, ig_duplicate = True, ig_receivedAt = ev_receivedAt existing\<rparr>,
                    db\<lparr>sourceHealths := update_by sh_source (ev_source e)
                         (\<lambda>h. h\<lparr>sh_duplicateCount := sh_duplicateCount h + 1\<rparr>) (sourceHealths db)\<rparr>))"

definition ingest ::
  "risk_env \<Rightarrow> risk_config \<Rightarrow> event_row \<Rightarrow> string \<Rightarrow> risk_db \<Rightarrow> velocity_store
     \<Rightarrow> (risk_error, ingest_result) res \<times> risk_db \<times> velocity_store" where
  "ingest env cfg e token db store =
     (case authenticate cfg (ev_source e) token of
        Inl err \<Rightarrow> (Inl err, db, store)
      | Inr _ \<Rightarrow>
     (case velocity_increment env cfg (ev_source e) ''ingestion-source:60s'' 60 1 store of
        Inl err \<Rightarrow> (Inl err, db, store)
      | Inr (rate, store1) \<Rightarrow>
          if 1000 < rate then (Inl (RiskHttp ''SOURCE_RATE_LIMITED'' 429), db, store1)
          else (case ingest_transaction env e db of
                  Inr (row, db') \<Rightarrow>
                    (case updateVelocity env cfg e store1 of
                       (Inl err, store2) \<Rightarrow> (Inl err, db', store2)
                     | (Inr _, store2) \<Rightarrow>
                         (Inr \<lparr>ig_id = ev_id row, ig_duplicate = False, ig_receivedAt = ev_receivedAt row\<rparr>, db', store2))
                | Inl RiskUniqueViolation \<Rightarrow>
                    (case ingest_duplicate e db of
                       Inl err \<Rightarrow> (Inl err, db, store1) | Inr (r, db') \<Rightarrow> (Inr r, db', store1))
                | Inl err \<Rightarrow> (Inl err, db, store1))))"

section \<open>Retention\<close>

definition retention_run :: "risk_env \<Rightarrow> risk_config \<Rightarrow> risk_db \<Rightarrow> nat \<times> risk_db" where
  "retention_run env cfg db =
     (let before = rk_now env - rc_retentionDays cfg * 86400000;
          gone = (\<lambda>e. ev_receivedAt e < before \<and> \<not> list_ex (\<lambda>a. an_eventId a = Some (ev_id e)) (riskAssessments db))
      in (length (filter gone (securityEvents db)), db\<lparr>securityEvents := filter (\<lambda>e. \<not> gone e) (securityEvents db)\<rparr>))"


section \<open>Events are counted once\<close>

definition event_key :: "event_row \<Rightarrow> string \<times> string" where
  "event_key e = (ev_source e, ev_sourceEventId e)"

lemma find_event_key: "find_by (\<lambda>r. (ev_source r, ev_sourceEventId r)) = find_by event_key"
  by (simp add: event_key_def [abs_def])

text \<open>What a successful call leaves: the event under its key, with the identity it answered, and its source's health.\<close>

definition event_known :: "risk_db \<Rightarrow> string \<times> string \<Rightarrow> string \<Rightarrow> time \<Rightarrow> bool" where
  "event_known db k i received \<longleftrightarrow>
     (\<exists>row. find_by event_key k (securityEvents db) = Some row \<and> ev_id row = i \<and> ev_receivedAt row = received)
     \<and> find_by sh_source (fst k) (sourceHealths db) \<noteq> None"

lemma ingest_transaction_known:
  assumes "ingest_transaction env e db = Inr (row, db')"
  shows "event_known db' (event_key e) (ev_id row) (ev_receivedAt row)"
proof -
  from assms have fresh: "\<not> list_ex (\<lambda>r. event_key r = event_key e) (securityEvents db)" and
    row: "row = e\<lparr>ev_receivedAt := rk_now env\<rparr>"
    and db': "db' = db\<lparr>securityEvents := securityEvents db @ [row], sourceHealths := upsert_health env e (sourceHealths db)\<rparr>"
    by (auto simp: ingest_transaction_def Let_def event_key_def list_ex_iff split: if_splits)
  from fresh have "find_by event_key (event_key e) (securityEvents db) = None" by (auto simp: find_by_None list_ex_iff)
  moreover have "event_key row = event_key e" by (simp add: row event_key_def)
  moreover have "find_by sh_source (ev_source e) (upsert_health env e (sourceHealths db)) \<noteq> None"
    by (auto simp: upsert_health_def find_by_append find_by_update_by)
  ultimately show ?thesis by (simp add: event_known_def db' find_by_append event_key_def)
qed

lemma ingest_known:
  assumes "ingest env cfg e token db store = (Inr r, db', store')"
  shows "event_known db' (event_key e) (ig_id r) (ig_receivedAt r)"
  using assms ingest_transaction_known [of env e db]
  by (auto simp: ingest_def ingest_duplicate_def find_event_key event_known_def event_key_def find_by_update_by
      split: sum.splits prod.splits if_splits risk_error.splits option.splits)

text \<open>A counter touches its own key only.\<close>

lemma velocity_increment_other:
  assumes "velocity_increment env cfg scope signal window amount store = Inr (v, store')"
    and "k \<noteq> risk_key cfg [''velocity'', signal, rk_sha256 env scope]"
  shows "find_by fst k store' = find_by fst k store"
proof -
  have "find_by fst k (filter (\<lambda>e. fst e \<noteq> j) store) = find_by fst k store" if "k \<noteq> j" for j
    using that by (induction store) auto
  with assms show ?thesis by (auto simp: velocity_increment_def Let_def split: prod.splits option.splits if_splits)
qed


section \<open>Properties\<close>

text \<open>a security event counts once.  After an event was accepted, every further delivery under the same source and
  source identifier, with whatever content, adds no event and moves no counter of any customer, only the count of
  its source; when it gets past the source's token and rate it is answered as a duplicate, with the first event's
  identity and time.\<close>

theorem event_counted_once:
  assumes "ingest env cfg e token db store = (Inr r, db1, store1)"
    and "event_key e' = event_key e" and "ingest env' cfg' e' token' db1 store1' = (out, db2, store2)"
  shows "securityEvents db2 = securityEvents db1
    \<and> (\<forall>k. k \<noteq> risk_key cfg' [''velocity'', ''ingestion-source:60s'', rk_sha256 env' (ev_source e')] \<longrightarrow>
          find_by fst k store2 = find_by fst k store1')
    \<and> (\<forall>r'. out = Inr r' \<longrightarrow> r' = \<lparr>ig_id = ig_id r, ig_duplicate = True, ig_receivedAt = ig_receivedAt r\<rparr>)
    \<and> (authenticate cfg' (ev_source e') token' = Inr () \<longrightarrow>
       (\<exists>v s. velocity_increment env' cfg' (ev_source e') ''ingestion-source:60s'' 60 1 store1' = Inr (v, s) \<and> v \<le> 1000) \<longrightarrow>
       out = Inr \<lparr>ig_id = ig_id r, ig_duplicate = True, ig_receivedAt = ig_receivedAt r\<rparr>)"
proof -
  have known: "event_known db1 (event_key e') (ig_id r) (ig_receivedAt r)" using ingest_known [OF assms(1)] assms(2) by simp
  then obtain row where row: "find_by event_key (event_key e') (securityEvents db1) = Some row" "ev_id row = ig_id r"
      "ev_receivedAt row = ig_receivedAt r" and health: "find_by sh_source (ev_source e') (sourceHealths db1) \<noteq> None"
    by (auto simp: event_known_def event_key_def)
  from row(1) have "row \<in> set (securityEvents db1)" "event_key row = event_key e'" by (auto dest: find_by_Some)
  then have dup: "ingest_transaction env' e' db1 = Inl RiskUniqueViolation"
    by (auto simp: ingest_transaction_def Let_def list_ex_iff event_key_def)
  have d: "ingest_duplicate e' db1 = Inr (\<lparr>ig_id = ig_id r, ig_duplicate = True, ig_receivedAt = ig_receivedAt r\<rparr>,
      db1\<lparr>sourceHealths := update_by sh_source (ev_source e') (\<lambda>h. h\<lparr>sh_duplicateCount := sh_duplicateCount h + 1\<rparr>) (sourceHealths db1)\<rparr>)"
    using row health by (auto simp: ingest_duplicate_def find_event_key event_key_def)
  note cases = assms(3) [unfolded ingest_def dup d]
  show ?thesis
  proof (intro conjI)
    show "securityEvents db2 = securityEvents db1" using cases by (auto split: sum.splits prod.splits if_splits)
    show "\<forall>k. k \<noteq> risk_key cfg' [''velocity'', ''ingestion-source:60s'', rk_sha256 env' (ev_source e')] \<longrightarrow>
          find_by fst k store2 = find_by fst k store1'"
      using cases by (auto split: sum.splits prod.splits if_splits dest: velocity_increment_other)
    show "\<forall>r'. out = Inr r' \<longrightarrow> r' = \<lparr>ig_id = ig_id r, ig_duplicate = True, ig_receivedAt = ig_receivedAt r\<rparr>"
      using cases by (auto split: sum.splits prod.splits if_splits)
    show "authenticate cfg' (ev_source e') token' = Inr () \<longrightarrow>
       (\<exists>v s. velocity_increment env' cfg' (ev_source e') ''ingestion-source:60s'' 60 1 store1' = Inr (v, s) \<and> v \<le> 1000) \<longrightarrow>
       out = Inr \<lparr>ig_id = ig_id r, ig_duplicate = True, ig_receivedAt = ig_receivedAt r\<rparr>"
      using cases by (auto split: sum.splits prod.splits if_splits)
  qed
qed


definition demo_risk_cfg :: risk_config where
  "demo_risk_cfg =
     \<lparr>rc_host = ''h'', rc_port = 4105, rc_databaseUrl = ''d'', rc_redisUrl = ''r'', rc_internalToken = ''t'',
      rc_sourceTokens = [(''PAYMENTS'', ''p'')], rc_redisPrefix = ''x:'', rc_retentionDays = 90, assessmentTtlSeconds = 300,
      staleSourceSeconds = 900, operatorBootstrapToken = Some ''boot'', operatorSessionTtlSeconds = 1800,
      highValueMinor = 10000000, cumulativeValueMinor = 25000000, rc_identityServiceUrl = ''i'',
      rc_identityInternalToken = ''it'', rc_identityTimeoutMs = 3000\<rparr>"

definition demo_risk_env :: "string \<Rightarrow> time \<Rightarrow> risk_env" where
  "demo_risk_env tag now =
     \<lparr>rk_sha256 = (\<lambda>s. CHR ''#'' # s), rk_now = now, rk_uuid = (\<lambda>n. tag @ replicate n CHR ''+''),
      rk_token = (\<lambda>n. tag @ replicate n CHR ''t''), rk_order = (\<lambda>rows. rows)\<rparr>"

end
