(* ===== verification/RiskControls.thy ===== *)
theory RiskControls
  imports RiskEvents "HOL-Library.Multiset"
begin

text \<open>
  Assessments (\<open>assessments/assessment.service.ts\<close>), controls (\<open>controls/control.service.ts\<close>), incidents
  (\<open>incidents/incident.service.ts\<close>) and the reconciliation of the risk service
  (\<open>reconciliation/reconciliation.service.ts\<close>).
\<close>

section \<open>Facts of an assessment\<close>

definition given :: "string option \<Rightarrow> bool" where
  "given x = (case x of Some s \<Rightarrow> s \<noteq> [] | None \<Rightarrow> False)"

definition recent_events :: "risk_env \<Rightarrow> int \<Rightarrow> (event_row \<Rightarrow> bool) \<Rightarrow> risk_db \<Rightarrow> event_row list" where
  "recent_events env span P db = filter (\<lambda>e. P e \<and> rk_now env - span \<le> ev_occurredAt e) (securityEvents db)"

definition device_subjects :: "risk_env \<Rightarrow> risk_request \<Rightarrow> risk_db \<Rightarrow> nat" where
  "device_subjects env input db =
     (if given (rq_deviceId input)
      then min 20 (length (remdups (map ev_subjectId
             (recent_events env 86400000 (\<lambda>e. ev_deviceId e = rq_deviceId input \<and> ev_subjectId e \<noteq> None) db))))
      else 0)"

definition active_controls :: "risk_env \<Rightarrow> string \<Rightarrow> risk_db \<Rightarrow> control_row list" where
  "active_controls env subject db =
     take 20 (rk_order env (filter (\<lambda>c. cl_scopeType c = SCOPE_CUSTOMER \<and> cl_scopeId c = subject
       \<and> cl_status c = CS_ACTIVE \<and> rk_now env < cl_expiresAt c) (controlActions db)))"

definition incident_open :: "incident_row \<Rightarrow> bool" where
  "incident_open i = (in_status i \<in> {IS_OPEN, IS_INVESTIGATING, IS_CONTAINED})"

definition open_incidents_of :: "string \<Rightarrow> risk_db \<Rightarrow> incident_row list" where
  "open_incidents_of subject db =
     filter (\<lambda>i. incident_open i
       \<and> (case in_assessmentId i of None \<Rightarrow> False
          | Some a \<Rightarrow> list_ex (\<lambda>r. an_id r = a \<and> an_subjectId r = subject) (riskAssessments db))) (incidents db)"

definition risk_facts_of :: "risk_env \<Rightarrow> risk_config \<Rightarrow> risk_request \<Rightarrow> risk_db \<Rightarrow> velocity_store \<Rightarrow> risk_facts" where
  "risk_facts_of env cfg input db store =
     (let subject = rq_subjectId input;
          rate = velocity_read env cfg store subject;
          controls = active_controls env subject db
      in \<lparr>rf_authFailures = rate ''auth-failures:600s'', rf_requestVelocity = rate ''requests:60s'',
          rf_transferVelocity = rate ''transfers:600s'', rf_cumulativeOutgoingMinor = rate ''outgoing:86400s'',
          rf_newRecipient = (given (rq_recipientId input)
            \<and> recent_events env 86400000 (\<lambda>e. ev_subjectId e = Some subject \<and> ev_recipientId e = rq_recipientId input
                \<and> ev_eventType e = ''NEW_RECIPIENT'') db \<noteq> []),
          rf_insufficientFunds = rate ''insufficient:600s'', rf_idempotencyConflicts = rate ''idempotency:600s'',
          rf_linkedSubjectsForDevice = int (device_subjects env input db), rf_rapidRegionChange = False,
          rf_integrityAnomaly = (recent_events env 86400000 (\<lambda>e. ev_subjectId e = Some subject
            \<and> ev_eventType e \<in> {''RECONCILIATION_ANOMALY'', ''UNBALANCED_JOURNAL'', ''INTEGRITY_FAILURE'', ''TAMPER_SIGNAL''}) db \<noteq> []),
          rf_internalAuthFailures = int (length (recent_events env 3600000 (\<lambda>e. ev_subjectId e = Some subject
            \<and> ev_eventType e \<in> {''INTERNAL_AUTH_FAILURE'', ''INVALID_SERVICE_TOKEN''}) db)),
          rf_csrfMalformedFailures = rate ''invalid-sensitive:600s'',
          rf_blockedScope = list_ex (\<lambda>c. cl_type c \<in> {CT_TEMPORARY_BLOCK, CT_QUARANTINE, CT_ACCOUNT_RESTRICT, CT_RECIPIENT_BLOCK}) controls,
          rf_activeIncident = (open_incidents_of subject db \<noteq> []),
          rf_activeControl = list_ex (\<lambda>c. cl_type c \<noteq> CT_REQUIRE_STEP_UP \<or> \<not> rq_stepUpVerified input) controls\<rparr>)"

section \<open>Evaluation\<close>

record risk_assessment =
  ra_assessmentId :: string
  ra_score :: int
  ra_band :: risk_band
  ra_decision :: riskDecision
  ra_triggeredRules :: "string list"
  ra_reasonCodes :: "string list"
  ra_controlRecommendation :: "controlType option"
  ra_expiresAt :: time
  ra_ruleSetVersion :: string
  ra_publicExplanation :: string

definition code_list_ok :: "string list \<Rightarrow> bool" where
  "code_list_ok codes = (list_all (\<lambda>s. 1 \<le> length s \<and> length s \<le> 64) codes \<and> length codes \<le> 32)"

definition riskAssessmentSchema :: "(string \<Rightarrow> bool) \<Rightarrow> risk_assessment \<Rightarrow> bool" where
  "riskAssessmentSchema uuid r =
     (uuid (ra_assessmentId r) \<and> 0 \<le> ra_score r \<and> ra_score r \<le> 100 \<and> code_list_ok (ra_triggeredRules r)
      \<and> code_list_ok (ra_reasonCodes r) \<and> 1 \<le> length (ra_ruleSetVersion r) \<and> length (ra_ruleSetVersion r) \<le> 32
      \<and> 1 \<le> length (ra_publicExplanation r) \<and> length (ra_publicExplanation r) \<le> 256)"

definition risk_response :: "(string \<Rightarrow> bool) \<Rightarrow> assessment_row \<Rightarrow> (risk_error, risk_assessment) res" where
  "risk_response uuid row =
     (let r = \<lparr>ra_assessmentId = an_id row, ra_score = an_score row, ra_band = an_band row, ra_decision = an_decision row,
               ra_triggeredRules = an_triggeredRules row, ra_reasonCodes = an_reasonCodes row,
               ra_controlRecommendation = an_controlRecommendation row, ra_expiresAt = an_expiresAt row,
               ra_ruleSetVersion = an_ruleSetVersion row, ra_publicExplanation = an_publicExplanation row\<rparr>
      in if riskAssessmentSchema uuid r then Inr r else Inl RiskZodError)"

definition service_thresholds :: "risk_config \<Rightarrow> risk_thresholds" where
  "service_thresholds cfg =
     DEFAULT_THRESHOLDS\<lparr>th_cumulativeOutgoingMinor := cumulativeValueMinor cfg, th_highValueMinor := highValueMinor cfg\<rparr>"

definition RULE_SET_VERSION :: string where
  "RULE_SET_VERSION = ''risk-rules-2026-08-v1''"

definition new_assessment :: "risk_env \<Rightarrow> risk_config \<Rightarrow> risk_request \<Rightarrow> engine_result \<Rightarrow> assessment_row" where
  "new_assessment env cfg input res =
     \<lparr>an_id = rk_uuid env 0, an_evaluationId = rq_evaluationId input, an_eventId = None, an_subjectId = rq_subjectId input,
      an_operation = rq_operation input, an_score = er_score res, an_band = er_band res, an_decision = er_decision res,
      an_triggeredRules = er_triggeredRules res, an_reasonCodes = er_reasonCodes res,
      an_controlRecommendation = er_controlRecommendation res, 
      an_inputFacts = \<lparr>if_operation = rq_operation input, if_hasSession = given (rq_sessionId input),
        if_hasDevice = given (rq_deviceId input), if_hasAccount = given (rq_accountId input),
        if_hasRecipient = given (rq_recipientId input), if_amountMinor = rq_amountMinor input,
        if_stepUpVerified = rq_stepUpVerified input\<rparr>, an_ruleSetVersion = RULE_SET_VERSION,
      an_publicExplanation = er_publicExplanation res, an_expiresAt = rk_now env + assessmentTtlSeconds cfg * 1000,
      an_createdAt = rk_now env\<rparr>"

definition band_text :: "risk_band \<Rightarrow> string" where
  "band_text b = (case b of BAND_LOW \<Rightarrow> ''LOW'' | BAND_MEDIUM \<Rightarrow> ''MEDIUM'' | BAND_HIGH \<Rightarrow> ''HIGH'' | BAND_CRITICAL \<Rightarrow> ''CRITICAL'')"

definition control_text :: "controlType \<Rightarrow> string" where
  "control_text t =
     (case t of CT_REQUIRE_STEP_UP \<Rightarrow> ''REQUIRE_STEP_UP'' | CT_TEMPORARY_BLOCK \<Rightarrow> ''TEMPORARY_BLOCK''
      | CT_TRANSFER_HOLD \<Rightarrow> ''TRANSFER_HOLD'' | CT_RECIPIENT_BLOCK \<Rightarrow> ''RECIPIENT_BLOCK'' | CT_SESSION_REVOKE \<Rightarrow> ''SESSION_REVOKE''
      | CT_ACCOUNT_RESTRICT \<Rightarrow> ''ACCOUNT_RESTRICT'' | CT_MANUAL_REVIEW \<Rightarrow> ''MANUAL_REVIEW'' | CT_QUARANTINE \<Rightarrow> ''QUARANTINE'')"

definition severe :: "risk_band \<Rightarrow> bool" where
  "severe b = (b = BAND_HIGH \<or> b = BAND_CRITICAL)"

definition AUTOMATED :: string where
  "AUTOMATED = ''automated:risk-engine''"

definition new_incident :: "risk_env \<Rightarrow> engine_result \<Rightarrow> incident_row" where
  "new_incident env res =
     \<lparr>in_id = rk_uuid env 1, in_assessmentId = Some (rk_uuid env 0), in_severity = er_band res, in_status = IS_OPEN,
      in_title = ''Automated '' @ map ascii_lower (band_text (er_band res)) @ '' risk assessment'', in_assignedTo = None,
      in_resolutionReason = None, in_createdAt = rk_now env, in_resolvedAt = None\<rparr>"

definition new_incident_event :: "risk_env \<Rightarrow> engine_result \<Rightarrow> incident_event" where
  "new_incident_event env res =
     \<lparr>ie_incidentId = rk_uuid env 1, ie_eventType = ''CREATED'', ie_actorId = AUTOMATED,
      ie_note = Some (let note = join_with '', '' (er_reasonCodes res) in if note = [] then ''High aggregate risk'' else note),
      ie_occurredAt = rk_now env\<rparr>"

definition control_duration :: "risk_band \<Rightarrow> int" where
  "control_duration b = (if b = BAND_CRITICAL then 900 else if b = BAND_HIGH then 600 else 300)"

definition new_automated_control :: "risk_env \<Rightarrow> risk_request \<Rightarrow> engine_result \<Rightarrow> controlType \<Rightarrow> control_row" where
  "new_automated_control env input res t =
     \<lparr>cl_id = rk_uuid env 2, cl_idempotencyKeyHash = rk_sha256 env (''assessment:'' @ rk_uuid env 0 @ '':'' @ control_text t),
      cl_type = t, cl_scopeType = SCOPE_CUSTOMER, cl_scopeId = rq_subjectId input, cl_operation = Some (rq_operation input),
      cl_reasonCode = (case er_reasonCodes res of r # _ \<Rightarrow> if r = [] then ''RISK_SCORE_THRESHOLD'' else r | [] \<Rightarrow> ''RISK_SCORE_THRESHOLD''),
      cl_status = CS_ACTIVE, cl_assessmentId = Some (rk_uuid env 0),
      cl_incidentId = (if severe (er_band res) then Some (rk_uuid env 1) else None), cl_createdBy = AUTOMATED,
      cl_expiresAt = rk_now env + control_duration (er_band res) * 1000, cl_createdAt = rk_now env\<rparr>"

definition new_control_event :: "control_row \<Rightarrow> string \<Rightarrow> string \<Rightarrow> string \<Rightarrow> time \<Rightarrow> control_event" where
  "new_control_event c t actor reason now =
     \<lparr>ce_controlId = cl_id c, ce_eventType = t, ce_actorId = actor, ce_reason = reason, ce_occurredAt = now\<rparr>"

text \<open>Inserts with the unique indexes and checks of the tables.\<close>

definition insert_assessment :: "assessment_row \<Rightarrow> risk_db \<Rightarrow> (risk_error, risk_db) res" where
  "insert_assessment a db =
     (if list_ex (\<lambda>b. an_id b = an_id a \<or> an_evaluationId b = an_evaluationId a) (riskAssessments db) then Inl RiskUniqueViolation
      else if an_score a < 0 \<or> 100 < an_score a \<or> an_expiresAt a \<le> an_createdAt a then Inl RiskConstraint
      else Inr (db\<lparr>riskAssessments := riskAssessments db @ [a]\<rparr>))"

definition insert_incident :: "incident_row \<Rightarrow> incident_event \<Rightarrow> risk_db \<Rightarrow> (risk_error, risk_db) res" where
  "insert_incident i ev db =
     (if list_ex (\<lambda>j. in_id j = in_id i) (incidents db) then Inl RiskUniqueViolation
      else Inr (db\<lparr>incidents := incidents db @ [i], incidentEvents := incidentEvents db @ [ev]\<rparr>))"

definition insert_control :: "control_row \<Rightarrow> control_event \<Rightarrow> risk_db \<Rightarrow> (risk_error, risk_db) res" where
  "insert_control c ev db =
     (if list_ex (\<lambda>d. cl_id d = cl_id c \<or> cl_idempotencyKeyHash d = cl_idempotencyKeyHash c) (controlActions db)
      then Inl RiskUniqueViolation
      else if cl_expiresAt c \<le> cl_createdAt c
        \<or> (case cl_incidentId c of Some i \<Rightarrow> find_by in_id i (incidents db) = None | None \<Rightarrow> False) then Inl RiskConstraint
      else Inr (db\<lparr>controlActions := controlActions db @ [c], controlEvents := controlEvents db @ [ev]\<rparr>))"

definition evaluate_transaction ::
  "risk_env \<Rightarrow> risk_config \<Rightarrow> risk_request \<Rightarrow> engine_result \<Rightarrow> risk_db \<Rightarrow> (risk_error, assessment_row \<times> risk_db) res" where
  "evaluate_transaction env cfg input res db =
     (let a = new_assessment env cfg input res in
      andThen (insert_assessment a db) (\<lambda>db1.
      andThen (if severe (er_band res) then insert_incident (new_incident env res) (new_incident_event env res) db1 else Inr db1) (\<lambda>db2.
      andThen (case er_controlRecommendation res of
                 None \<Rightarrow> Inr db2
               | Some t \<Rightarrow> (let c = new_automated_control env input res t in
                   insert_control c (new_control_event c ''CREATED'' AUTOMATED
                     (''Deterministic assessment '' @ an_id a) (rk_now env)) db2)) (\<lambda>db3.
        Inr (a, db3)))))"

definition evaluate ::
  "risk_env \<Rightarrow> (string \<Rightarrow> bool) \<Rightarrow> risk_config \<Rightarrow> risk_request \<Rightarrow> risk_db \<Rightarrow> velocity_store
     \<Rightarrow> (risk_error, risk_assessment) res \<times> risk_db" where
  "evaluate env uuid cfg input db store =
     (case find_by an_evaluationId (rq_evaluationId input) (riskAssessments db) of
        Some existing \<Rightarrow> (risk_response uuid existing, db)
      | None \<Rightarrow>
          (case evaluate_transaction env cfg input
                  (evaluateRisk input (risk_facts_of env cfg input db store) (service_thresholds cfg)) db of
             Inl err \<Rightarrow> (Inl err, db)
           | Inr (a, db') \<Rightarrow> (risk_response uuid a, db')))"

section \<open>Controls\<close>

definition expire_control :: "risk_env \<Rightarrow> control_row \<Rightarrow> risk_db \<Rightarrow> risk_db" where
  "expire_control env c db =
     db\<lparr>controlActions := update_by cl_id (cl_id c) (\<lambda>r. r\<lparr>cl_status := CS_EXPIRED\<rparr>) (controlActions db),
        controlEvents := controlEvents db @
          [new_control_event c ''EXPIRED'' ''automated:expiry-job'' ''Configured control expiry reached.'' (rk_now env)]\<rparr>"

definition due_controls :: "risk_env \<Rightarrow> risk_db \<Rightarrow> control_row list" where
  "due_controls env db =
     take 500 (rk_order env (filter (\<lambda>c. cl_status c = CS_ACTIVE \<and> cl_expiresAt c \<le> rk_now env) (controlActions db)))"

definition expire :: "risk_env \<Rightarrow> risk_db \<Rightarrow> nat \<times> risk_db" where
  "expire env db = (let rows = due_controls env db in (length rows, fold (expire_control env) rows db))"

record control_check =
  cc_allowed :: bool
  cc_decision :: riskDecision
  cc_reasonCodes :: "string list"
  cc_requiresStepUp :: bool
  cc_expiresAt :: "time option"

text \<open>\<open>[...new Set(xs)]\<close> keeps the first of each.\<close>

definition first_of_each :: "'a list \<Rightarrow> 'a list" where
  "first_of_each xs = rev (remdups (rev xs))"

definition check_rows :: "time \<Rightarrow> (controlScope \<times> string) list \<Rightarrow> control_row list \<Rightarrow> control_row list" where
  "check_rows now scopes rows =
     sort_key cl_createdAt (filter (\<lambda>c. cl_status c = CS_ACTIVE \<and> now < cl_expiresAt c
       \<and> (cl_scopeType c, cl_scopeId c) \<in> set scopes) rows)"

definition check_answer :: "control_row list \<Rightarrow> control_check" where
  "check_answer rows =
     (let types = map cl_type rows;
          quarantine = CT_QUARANTINE \<in> set types;
          blocked = (quarantine \<or> list_ex (\<lambda>t. t \<in> {CT_TEMPORARY_BLOCK, CT_ACCOUNT_RESTRICT, CT_RECIPIENT_BLOCK}) types);
          held = list_ex (\<lambda>t. t \<in> {CT_TRANSFER_HOLD, CT_MANUAL_REVIEW}) types;
          stepUp = CT_REQUIRE_STEP_UP \<in> set types
      in \<lparr>cc_allowed = (\<not> blocked \<and> \<not> held),
          cc_decision = (if quarantine then QUARANTINE else if blocked then BLOCK else if held then HOLD_FOR_REVIEW
                         else if stepUp then REQUIRE_STEP_UP else ALLOW),
          cc_reasonCodes = first_of_each (map cl_reasonCode rows), cc_requiresStepUp = stepUp,
          cc_expiresAt = (if rows = [] then None else Some (Min (set (map cl_expiresAt rows))))\<rparr>)"

definition check_controls :: "risk_env \<Rightarrow> (controlScope \<times> string) list \<Rightarrow> risk_db \<Rightarrow> control_check \<times> risk_db" where
  "check_controls env scopes db =
     (let db' = snd (expire env db) in (check_answer (check_rows (rk_now env) scopes (controlActions db')), db'))"

record apply_input =
  ap_idempotencyKey :: string
  ap_type :: controlType
  ap_scopeType :: controlScope
  ap_scopeId :: string
  ap_reasonCode :: string
  ap_expiresAt :: time
  ap_incidentId :: "string option"

definition identityControlUnavailable :: risk_error where
  "identityControlUnavailable = RiskHttp ''IDENTITY_CONTROL_UNAVAILABLE'' 503"

text \<open>\<open>revoke\<close> says whether the identity service accepted the revocation of a session.\<close>

definition revoke_for :: "(string \<Rightarrow> string \<Rightarrow> string \<Rightarrow> bool) \<Rightarrow> control_row \<Rightarrow> (risk_error, control_row) res" where
  "revoke_for revoke c =
     (if cl_type c = CT_SESSION_REVOKE \<and> \<not> revoke (cl_scopeId c) (cl_id c) (cl_reasonCode c)
      then Inl identityControlUnavailable else Inr c)"

definition new_operator_control :: "risk_env \<Rightarrow> apply_input \<Rightarrow> string \<Rightarrow> control_row" where
  "new_operator_control env input operatorId =
     \<lparr>cl_id = rk_uuid env 0, cl_idempotencyKeyHash = rk_sha256 env (ap_idempotencyKey input), cl_type = ap_type input,
      cl_scopeType = ap_scopeType input, cl_scopeId = ap_scopeId input, cl_operation = None,
      cl_reasonCode = ap_reasonCode input, cl_status = CS_ACTIVE, cl_assessmentId = None, cl_incidentId = ap_incidentId input,
      cl_createdBy = operatorId, cl_expiresAt = ap_expiresAt input, cl_createdAt = rk_now env\<rparr>"

definition apply_control ::
  "risk_env \<Rightarrow> (string \<Rightarrow> string \<Rightarrow> string \<Rightarrow> bool) \<Rightarrow> apply_input \<Rightarrow> string \<Rightarrow> risk_db \<Rightarrow> (risk_error, control_row) res \<times> risk_db" where
  "apply_control env revoke input operatorId db =
     (case find_by cl_idempotencyKeyHash (rk_sha256 env (ap_idempotencyKey input)) (controlActions db) of
        Some existing \<Rightarrow> (revoke_for revoke existing, db)
      | None \<Rightarrow>
          (let c = new_operator_control env input operatorId in
           case insert_control c (new_control_event c ''CREATED'' operatorId (ap_reasonCode input) (rk_now env)) db of
             Inl err \<Rightarrow> (Inl err, db)
           | Inr db' \<Rightarrow> (revoke_for revoke c, db')))"

text \<open>The update names the row by its identifier only: whatever its status has become since it was read.\<close>

definition release_write :: "risk_env \<Rightarrow> string \<Rightarrow> string \<Rightarrow> control_row \<Rightarrow> risk_db \<Rightarrow> risk_db" where
  "release_write env reason operatorId c db =
     db\<lparr>controlActions := update_by cl_id (cl_id c) (\<lambda>r. r\<lparr>cl_status := CS_RELEASED\<rparr>) (controlActions db),
        controlEvents := controlEvents db @ [new_control_event c ''RELEASED'' operatorId reason (rk_now env)]\<rparr>"

definition release_control :: "risk_env \<Rightarrow> string \<Rightarrow> string \<Rightarrow> string \<Rightarrow> risk_db \<Rightarrow> (risk_error, control_row \<times> risk_db) res" where
  "release_control env i reason operatorId db =
     (case find_by cl_id i (controlActions db) of
        None \<Rightarrow> Inl RiskRecordNotFound
      | Some c \<Rightarrow>
          if cl_status c \<noteq> CS_ACTIVE then Inr (c, db)
          else Inr (c\<lparr>cl_status := CS_RELEASED\<rparr>, release_write env reason operatorId c db))"

section \<open>Incidents\<close>

record incident_input =
  iu_status :: "incidentStatus option"
  iu_assignedTo :: "string option"
  iu_note :: "string option"
  iu_resolutionReason :: "string option"

definition is_resolved :: "incidentStatus \<Rightarrow> bool" where
  "is_resolved s = (s = IS_RESOLVED \<or> s = IS_FALSE_POSITIVE)"

text \<open>\<open>a || b || c\<close> on optional texts.\<close>

definition or_text :: "string option \<Rightarrow> string option \<Rightarrow> string option" where
  "or_text a b = (if given a then a else b)"

definition incident_event_type :: "incident_input \<Rightarrow> incident_row \<Rightarrow> string" where
  "incident_event_type input current =
     (if iu_status input = Some IS_OPEN \<and> is_resolved (in_status current) then ''REOPENED''
      else if iu_status input \<noteq> None then ''STATUS_CHANGED''
      else if given (iu_assignedTo input) then ''ASSIGNED'' else ''NOTE_ADDED'')"

text \<open>A field that is \<open>undefined\<close> keeps its value.\<close>

definition set_if :: "'a option \<Rightarrow> 'a option \<Rightarrow> 'a option" where
  "set_if new old = (case new of Some x \<Rightarrow> Some x | None \<Rightarrow> old)"

definition updated_incident :: "risk_env \<Rightarrow> incident_input \<Rightarrow> incident_row \<Rightarrow> incident_row" where
  "updated_incident env input r =
     r\<lparr>in_status := (case iu_status input of Some s \<Rightarrow> s | None \<Rightarrow> in_status r),
       in_assignedTo := set_if (iu_assignedTo input) (in_assignedTo r),
       in_resolutionReason := set_if (iu_resolutionReason input) (in_resolutionReason r),
       in_resolvedAt := (case iu_status input of
          Some s \<Rightarrow> if is_resolved s then Some (rk_now env) else if s = IS_OPEN then None else in_resolvedAt r
        | None \<Rightarrow> in_resolvedAt r)\<rparr>"

text \<open>The update of the row and the event about it; the kind of the event depends on the row as it was read.\<close>

definition incident_write :: "risk_env \<Rightarrow> incident_row \<Rightarrow> incident_input \<Rightarrow> string \<Rightarrow> risk_db \<Rightarrow> risk_db" where
  "incident_write env current input operatorId db =
     db\<lparr>incidents := update_by in_id (in_id current) (updated_incident env input) (incidents db),
        incidentEvents := incidentEvents db @
          [\<lparr>ie_incidentId = in_id current, ie_eventType = incident_event_type input current, ie_actorId = operatorId,
            ie_note = or_text (iu_note input) (or_text (iu_resolutionReason input) (iu_assignedTo input)),
            ie_occurredAt = rk_now env\<rparr>]\<rparr>"

definition reason_missing :: "incident_input \<Rightarrow> bool" where
  "reason_missing input =
     ((case iu_status input of Some s \<Rightarrow> is_resolved s | None \<Rightarrow> False) \<and> \<not> given (iu_resolutionReason input))"

definition incident_update :: "risk_env \<Rightarrow> string \<Rightarrow> incident_input \<Rightarrow> string \<Rightarrow> risk_db \<Rightarrow> (risk_error, incident_row \<times> risk_db) res" where
  "incident_update env i input operatorId db =
     (case find_by in_id i (incidents db) of
        None \<Rightarrow> Inl RiskRecordNotFound
      | Some current \<Rightarrow>
          if reason_missing input then Inl (RiskFault ''A resolution reason is required.'')
          else Inr (updated_incident env input current, incident_write env current input operatorId db))"

section \<open>Reconciliation\<close>

record risk_issues =
  ri_orphanControls :: nat
  ri_orphanControlEvents :: nat
  ri_orphanIncidentEvents :: nat
  ri_unhandledHigh :: nat
  ri_staleSources :: nat

definition count_if :: "('a \<Rightarrow> bool) \<Rightarrow> 'a list \<Rightarrow> nat" where
  "count_if P xs = length (filter P xs)"

text \<open>The five counts are queries of their own, sent together: each may see another state.\<close>

definition risk_counts :: "risk_env \<Rightarrow> risk_db \<Rightarrow> risk_db \<Rightarrow> risk_db \<Rightarrow> risk_db \<Rightarrow> risk_db \<Rightarrow> risk_issues" where
  "risk_counts env d1 d2 d3 d4 d5 =
     \<lparr>ri_orphanControls = count_if (\<lambda>c. cl_assessmentId c = None \<and> cl_incidentId c = None \<and> cl_createdBy c = AUTOMATED) (controlActions d1),
      ri_orphanControlEvents = count_if (\<lambda>e. find_by cl_id (ce_controlId e) (controlActions d2) = None) (controlEvents d2),
      ri_orphanIncidentEvents = count_if (\<lambda>e. find_by in_id (ie_incidentId e) (incidents d3) = None) (incidentEvents d3),
      ri_unhandledHigh = count_if (\<lambda>a. severe (an_band a) \<and> \<not> list_ex (\<lambda>i. in_assessmentId i = Some (an_id a)) (incidents d4)) (riskAssessments d4),
      ri_staleSources = count_if (\<lambda>h. sh_lastReceivedAt h < rk_now env - 900000) (sourceHealths d5)\<rparr>"

definition issues_pass :: "risk_issues \<Rightarrow> bool" where
  "issues_pass issues =
     (ri_orphanControls issues = 0 \<and> ri_orphanControlEvents issues = 0 \<and> ri_orphanIncidentEvents issues = 0
      \<and> ri_unhandledHigh issues = 0 \<and> ri_staleSources issues = 0)"

definition risk_reconciliation :: "risk_env \<Rightarrow> risk_db \<Rightarrow> (bool \<times> nat \<times> risk_issues) \<times> risk_db" where
  "risk_reconciliation env db =
     (let (expired, db') = expire env db; issues = risk_counts env db' db' db' db' db'
      in ((issues_pass issues, expired, issues), db'))"

section \<open>Closing a control\<close>

text \<open>Expiry and release share a step: a row leaves \<open>ACTIVE\<close> and its trail gets one more entry.\<close>

text \<open>The entries of a control are its creation and then closing entries, of which the last one agrees with the status;
  an active control has none.  Unguarded updates can close a control more than once.\<close>

definition closing_entry :: "controlStatus \<Rightarrow> string" where
  "closing_entry s = (case s of CS_RELEASED \<Rightarrow> ''RELEASED'' | CS_EXPIRED \<Rightarrow> ''EXPIRED'' | _ \<Rightarrow> [])"

definition trail_ok :: "controlStatus \<Rightarrow> string list \<Rightarrow> bool" where
  "trail_ok s entries =
     (case entries of
        [] \<Rightarrow> False
      | e # es \<Rightarrow> e = ''CREATED'' \<and> set es \<subseteq> {''RELEASED'', ''EXPIRED''}
          \<and> (if es = [] then s = CS_ACTIVE else last es = closing_entry s))"

lemma trail_ok_close: "trail_ok s es \<Longrightarrow> st \<in> {CS_RELEASED, CS_EXPIRED} \<Longrightarrow> trail_ok st (es @ [closing_entry st])"
  by (auto simp: trail_ok_def closing_entry_def split: list.splits if_splits)

lemma trail_ok_not_overridden: "trail_ok s es \<Longrightarrow> s \<noteq> CS_OVERRIDDEN"
  by (auto simp: trail_ok_def closing_entry_def split: list.splits if_splits dest!: last_in_set)

definition events_of :: "risk_db \<Rightarrow> string \<Rightarrow> string list" where
  "events_of db i = map ce_eventType (filter (\<lambda>e. ce_controlId e = i) (controlEvents db))"

definition controls_ok :: "risk_db \<Rightarrow> bool" where
  "controls_ok db \<longleftrightarrow>
     distinct (map cl_id (controlActions db))
     \<and> (\<forall>c \<in> set (controlActions db). trail_ok (cl_status c) (events_of db (cl_id c))
          \<and> (cl_createdBy c = AUTOMATED \<longrightarrow> cl_assessmentId c \<noteq> None))
     \<and> (\<forall>e \<in> set (controlEvents db). ce_controlId e \<in> cl_id ` set (controlActions db))"

definition incidents_ok :: "risk_db \<Rightarrow> bool" where
  "incidents_ok db \<longleftrightarrow>
     (\<forall>i \<in> set (incidents db). is_resolved (in_status i) \<longrightarrow> given (in_resolutionReason i))
     \<and> (\<forall>e \<in> set (incidentEvents db). ie_incidentId e \<in> in_id ` set (incidents db))"

definition assessments_ok :: "(string \<Rightarrow> bool) \<Rightarrow> risk_db \<Rightarrow> bool" where
  "assessments_ok uuid db \<longleftrightarrow>
     (\<forall>a \<in> set (riskAssessments db). (\<exists>r. risk_response uuid a = Inr r)
        \<and> (severe (an_band a) \<longrightarrow> Some (an_id a) \<in> in_assessmentId ` set (incidents db)))"

definition risk_inv :: "(string \<Rightarrow> bool) \<Rightarrow> risk_db \<Rightarrow> bool" where
  "risk_inv uuid db \<longleftrightarrow> controls_ok db \<and> incidents_ok db \<and> assessments_ok uuid db"

definition close_control :: "control_row \<Rightarrow> controlStatus \<Rightarrow> string \<Rightarrow> string \<Rightarrow> time \<Rightarrow> risk_db \<Rightarrow> risk_db" where
  "close_control c st actor reason now db =
     db\<lparr>controlActions := update_by cl_id (cl_id c) (\<lambda>r. r\<lparr>cl_status := st\<rparr>) (controlActions db),
        controlEvents := controlEvents db @ [new_control_event c (closing_entry st) actor reason now]\<rparr>"

lemma close_control_ok:
  assumes "controls_ok db" and "cl_id c \<in> cl_id ` set (controlActions db)" and "st \<in> {CS_RELEASED, CS_EXPIRED}"
  shows "controls_ok (close_control c st actor reason now db)"
proof -
  let ?db = "close_control c st actor reason now db"
  have ev: "events_of ?db i = events_of db i @ (if i = cl_id c then [closing_entry st] else [])" for i
    by (simp add: events_of_def close_control_def new_control_event_def)
  have ids: "map cl_id (controlActions ?db) = map cl_id (controlActions db)" by (simp add: close_control_def)
  then have id_set: "cl_id ` set (controlActions ?db) = cl_id ` set (controlActions db)" by (metis set_map)
  show ?thesis unfolding controls_ok_def
  proof (intro conjI ballI)
    show "distinct (map cl_id (controlActions ?db))" using assms(1) by (simp add: ids controls_ok_def)
  next
    fix r assume "r \<in> set (controlActions ?db)"
    then obtain q where q: "q \<in> set (controlActions db)" "r = (if cl_id q = cl_id c then q\<lparr>cl_status := st\<rparr> else q)"
      by (auto simp: close_control_def set_update_by)
    then have "trail_ok (cl_status q) (events_of db (cl_id q))" using assms(1) by (simp add: controls_ok_def)
    then show "trail_ok (cl_status r) (events_of ?db (cl_id r))" using q(2) assms(3) trail_ok_close [of "cl_status q" "events_of db (cl_id q)" st] by (auto simp: ev)
    show "cl_createdBy r = AUTOMATED \<longrightarrow> cl_assessmentId r \<noteq> None" using assms(1) q by (auto simp: controls_ok_def)
  next
    fix e assume "e \<in> set (controlEvents ?db)"
    then have "e \<in> set (controlEvents db) \<or> ce_controlId e = cl_id c" by (auto simp: close_control_def new_control_event_def)
    then show "ce_controlId e \<in> cl_id ` set (controlActions ?db)"
      unfolding id_set using assms(1,2) by (auto simp: controls_ok_def)
  qed
qed

lemma closing_writes:
  "expire_control env c db = close_control c CS_EXPIRED ''automated:expiry-job'' ''Configured control expiry reached.'' (rk_now env) db"
  "release_write env reason operator c db = close_control c CS_RELEASED operator reason (rk_now env) db"
  by (simp_all add: expire_control_def release_write_def close_control_def closing_entry_def)

lemma close_control_other:
  "d \<in> set (controlActions db) \<Longrightarrow> cl_id d \<noteq> cl_id c \<Longrightarrow> d \<in> set (controlActions (close_control c st actor reason now db))"
  by (force simp: close_control_def set_update_by)

lemma close_control_ids: "cl_id ` set (controlActions (close_control c st actor reason now db)) = cl_id ` set (controlActions db)"
proof -
  have "map cl_id (controlActions (close_control c st actor reason now db)) = map cl_id (controlActions db)" by (simp add: close_control_def)
  then show ?thesis by (metis set_map)
qed

lemma expire_fold_ok:
  assumes "controls_ok db" and "cl_id ` set rows \<subseteq> cl_id ` set (controlActions db)"
  shows "controls_ok (fold (expire_control env) rows db)"
  using assms
proof (induction rows arbitrary: db)
  case (Cons c rows)
  then have "controls_ok (expire_control env c db)" unfolding closing_writes by (intro close_control_ok) auto
  moreover have "cl_id ` set rows \<subseteq> cl_id ` set (controlActions (expire_control env c db))"
    using Cons.prems(2) unfolding closing_writes close_control_ids by simp
  ultimately show ?case using Cons.IH [of "expire_control env c db"] by simp
qed simp

lemma expire_fold_frame:
  "riskAssessments (fold (expire_control env) rows db) = riskAssessments db
   \<and> incidents (fold (expire_control env) rows db) = incidents db
   \<and> incidentEvents (fold (expire_control env) rows db) = incidentEvents db
   \<and> securityEvents (fold (expire_control env) rows db) = securityEvents db
   \<and> sourceHealths (fold (expire_control env) rows db) = sourceHealths db"
  by (induction rows arbitrary: db) (simp_all add: expire_control_def)

lemma expire_fold_keeps:
  assumes "c \<in> set (controlActions db)" and "cl_id c \<notin> cl_id ` set rows"
  shows "c \<in> set (controlActions (fold (expire_control env) rows db))"
  using assms
proof (induction rows arbitrary: db)
  case (Cons d rows)
  then have "c \<in> set (controlActions (expire_control env d db))" unfolding closing_writes by (intro close_control_other) auto
  with Cons show ?case by simp
qed simp

text \<open>The database returns a permutation of the rows, in an order of its own.\<close>

definition order_ok :: "risk_env \<Rightarrow> bool" where
  "order_ok env \<longleftrightarrow> (\<forall>rows. mset (rk_order env rows) = mset rows)"

lemma due_controls_props:
  assumes "order_ok env" and "controls_ok db"
  shows "distinct (map cl_id (due_controls env db))"
    and "c \<in> set (due_controls env db) \<Longrightarrow> c \<in> set (controlActions db) \<and> cl_status c = CS_ACTIVE \<and> cl_expiresAt c \<le> rk_now env"
proof -
  let ?rows = "filter (\<lambda>c. cl_status c = CS_ACTIVE \<and> cl_expiresAt c \<le> rk_now env) (controlActions db)"
  have m: "mset (rk_order env ?rows) = mset ?rows" using assms(1) by (simp add: order_ok_def)
  have "distinct (map cl_id ?rows)" using assms(2) by (simp add: controls_ok_def distinct_map_filter)
  moreover have "mset (map cl_id (rk_order env ?rows)) = mset (map cl_id ?rows)" using m by simp
  ultimately have "distinct (map cl_id (rk_order env ?rows))" using mset_eq_imp_distinct_iff by blast
  then have "distinct (take 500 (map cl_id (rk_order env ?rows)))" by (rule distinct_take)
  then show "distinct (map cl_id (due_controls env db))" by (simp only: due_controls_def take_map)
  show "c \<in> set (controlActions db) \<and> cl_status c = CS_ACTIVE \<and> cl_expiresAt c \<le> rk_now env" if "c \<in> set (due_controls env db)"
  proof -
    have "c \<in> set (rk_order env ?rows)" using that unfolding due_controls_def by (rule in_set_takeD)
    then have "c \<in> set ?rows" using mset_eq_setD [OF m] by (simp only:)
    then show ?thesis by simp
  qed
qed

lemma expire_ok:
  assumes "order_ok env" and "controls_ok db"
  shows "controls_ok (snd (expire env db))"
  unfolding expire_def Let_def snd_conv using due_controls_props(2) [OF assms] by (intro expire_fold_ok assms) auto

lemma expire_frame [simp]:
  "riskAssessments (snd (expire env db)) = riskAssessments db" "incidents (snd (expire env db)) = incidents db"
  "incidentEvents (snd (expire env db)) = incidentEvents db" "securityEvents (snd (expire env db)) = securityEvents db"
  "sourceHealths (snd (expire env db)) = sourceHealths db"
  using expire_fold_frame by (simp_all add: expire_def Let_def)

lemma expire_keeps:
  assumes "order_ok env" and "controls_ok db" and "c \<in> set (controlActions db)" and "rk_now env < cl_expiresAt c"
  shows "c \<in> set (controlActions (snd (expire env db)))"
proof -
  have "cl_id c \<notin> cl_id ` set (due_controls env db)"
  proof
    assume "cl_id c \<in> cl_id ` set (due_controls env db)"
    then obtain d where d: "d \<in> set (due_controls env db)" "cl_id d = cl_id c" by auto
    with due_controls_props(2) [OF assms(1,2) d(1)] assms(2,3) have "d = c"
      unfolding controls_ok_def by (metis distinct_map inj_onD)
    with due_controls_props(2) [OF assms(1,2) d(1)] assms(4) show False by simp
  qed
  then show ?thesis unfolding expire_def Let_def snd_conv by (rule expire_fold_keeps [OF assms(3)])
qed


section \<open>Evaluation keeps the books of risk\<close>

lemma insert_control_ok:
  assumes "insert_control c ev db = Inr db'" and "controls_ok db"
    and "cl_status c = CS_ACTIVE" and "ce_controlId ev = cl_id c" and "ce_eventType ev = ''CREATED''"
    and "cl_createdBy c = AUTOMATED \<longrightarrow> cl_assessmentId c \<noteq> None"
  shows "controls_ok db'"
proof -
  from assms(1) have fresh: "cl_id c \<notin> cl_id ` set (controlActions db)"
    and db': "controlActions db' = controlActions db @ [c]" "controlEvents db' = controlEvents db @ [ev]"
    by (auto simp: insert_control_def list_ex_iff split: if_splits)
  have none: "events_of db (cl_id c) = []"
    using fresh assms(2) unfolding events_of_def controls_ok_def by (simp add: filter_empty_conv) metis
  have ev: "events_of db' i = events_of db i @ (if i = cl_id c then [''CREATED''] else [])" for i
    using assms(4,5) by (simp add: events_of_def db')
  have "trail_ok (cl_status r) (events_of db' (cl_id r))" if "r \<in> set (controlActions db)" for r
  proof -
    have "cl_id r \<noteq> cl_id c" using fresh that by (metis image_eqI)
    with that assms(2) show ?thesis by (simp add: ev controls_ok_def)
  qed
  then show ?thesis
    using assms(2-6) fresh none ev [of "cl_id c"] by (auto simp: controls_ok_def db' trail_ok_def)
qed

lemma insert_control_frame:
  assumes "insert_control c ev db = Inr db'"
  shows "riskAssessments db' = riskAssessments db" "incidents db' = incidents db" "incidentEvents db' = incidentEvents db"
    "c \<in> set (controlActions db')"
  using assms by (auto simp: insert_control_def split: if_splits)

lemma engine_codes:
  "code_list_ok (er_triggeredRules (evaluateRisk input facts th)) \<and> code_list_ok (er_reasonCodes (evaluateRisk input facts th))"
proof -
  let ?rules = "risk_rules (request_amount input) facts th"
  let ?ok = "\<lambda>x. 1 \<le> length (tr_code (snd x)) \<and> length (tr_code (snd x)) \<le> 64
    \<and> 1 \<le> length (tr_reasonCode (snd x)) \<and> length (tr_reasonCode (snd x)) \<le> 64"
  have all: "list_all ?ok ?rules" by (simp add: risk_rules_def risk_rule_def)
  have "length ?rules = 15" by (simp add: risk_rules_def)
  then have len: "length (filter fst ?rules) \<le> 32" using length_filter_le [of fst ?rules] by simp
  have "er_triggeredRules (evaluateRisk input facts th) = map tr_code (triggeredRiskRules input facts th)"
    "er_reasonCodes (evaluateRisk input facts th) = map tr_reasonCode (triggeredRiskRules input facts th)"
    by (simp_all add: evaluateRisk_def Let_def split: prod.splits)
  with all len show ?thesis by (auto simp: code_list_ok_def triggeredRiskRules_def list_all_iff)
qed

lemma new_assessment_conforms:
  assumes "uuid (rk_uuid env 0)"
  shows "\<exists>r. risk_response uuid (new_assessment env cfg input (evaluateRisk input facts th)) = Inr r"
proof -
  have "er_publicExplanation (evaluateRisk input facts th) = public_explanation (er_decision (evaluateRisk input facts th))"
    by (simp add: evaluateRisk_def Let_def split: prod.splits)
  moreover have "1 \<le> length (public_explanation d) \<and> length (public_explanation d) \<le> 256" for d
    by (simp add: public_explanation_def)
  ultimately show ?thesis
    using assms engine_codes evaluateRisk_score_range [of input facts th]
    by (simp add: risk_response_def riskAssessmentSchema_def new_assessment_def RULE_SET_VERSION_def Let_def)
qed

lemma evaluate_transaction_ok:
  assumes ok: "evaluate_transaction env cfg input (evaluateRisk input facts th) db = Inr (a, db')"
    and inv: "risk_inv uuid db" and uuid: "uuid (rk_uuid env 0)"
  shows "risk_inv uuid db' \<and> a = new_assessment env cfg input (evaluateRisk input facts th)"
proof -
  let ?res = "evaluateRisk input facts th"
  let ?a = "new_assessment env cfg input ?res"
  from ok obtain db1 db2 where 1: "insert_assessment ?a db = Inr db1"
    and 2: "(if severe (er_band ?res) then insert_incident (new_incident env ?res) (new_incident_event env ?res) db1 else Inr db1) = Inr db2"
    and 3: "(case er_controlRecommendation ?res of None \<Rightarrow> Inr db2
               | Some t \<Rightarrow> insert_control (new_automated_control env input ?res t)
                   (new_control_event (new_automated_control env input ?res t) ''CREATED'' AUTOMATED
                     (''Deterministic assessment '' @ an_id ?a) (rk_now env)) db2) = Inr db'"
    and a: "a = ?a"
    unfolding evaluate_transaction_def Let_def by (auto simp: res_simps)
  have db1: "riskAssessments db1 = riskAssessments db @ [?a]" "controlActions db1 = controlActions db" "controlEvents db1 = controlEvents db"
    "incidents db1 = incidents db" "incidentEvents db1 = incidentEvents db"
    using 1 by (auto simp: insert_assessment_def split: if_splits)
  have db2: "riskAssessments db2 = riskAssessments db1" "controlActions db2 = controlActions db1" "controlEvents db2 = controlEvents db1"
    "set (incidents db) \<subseteq> set (incidents db2)" "severe (er_band ?res) \<longrightarrow> new_incident env ?res \<in> set (incidents db2)"
    "incidents_ok db1 \<longrightarrow> incidents_ok db2"
    using 2 db1 by (auto simp: insert_incident_def incidents_ok_def new_incident_def new_incident_event_def is_resolved_def split: if_splits)
  have inc1: "incidents_ok db1" using inv by (simp add: risk_inv_def incidents_ok_def db1)
  have ctl2: "controls_ok db2" using inv by (simp add: risk_inv_def controls_ok_def events_of_def db1 db2(1-3))
  have ass2: "assessments_ok uuid db2"
  proof -
    have "\<exists>r. risk_response uuid ?a = Inr r" using uuid by (rule new_assessment_conforms)
    moreover have "Some (an_id ?a) \<in> in_assessmentId ` set (incidents db2)" if "severe (an_band ?a)"
    proof -
      from that db2(5) have "new_incident env ?res \<in> set (incidents db2)" by (simp add: new_assessment_def)
      then have "in_assessmentId (new_incident env ?res) \<in> in_assessmentId ` set (incidents db2)" by (rule imageI)
      then show ?thesis by (simp add: new_incident_def new_assessment_def)
    qed
    moreover have "in_assessmentId ` set (incidents db) \<subseteq> in_assessmentId ` set (incidents db2)" using db2(4) by (rule image_mono)
    ultimately show ?thesis using inv unfolding risk_inv_def assessments_ok_def db1 db2(1) by auto
  qed
  have "controls_ok db' \<and> riskAssessments db' = riskAssessments db2 \<and> incidents db' = incidents db2 \<and> incidentEvents db' = incidentEvents db2"
  proof (cases "er_controlRecommendation ?res")
    case None
    with 3 ctl2 show ?thesis by simp
  next
    case (Some t)
    with 3 have i: "insert_control (new_automated_control env input ?res t)
        (new_control_event (new_automated_control env input ?res t) ''CREATED'' AUTOMATED
           (''Deterministic assessment '' @ an_id ?a) (rk_now env)) db2 = Inr db'" by simp
    show ?thesis using insert_control_ok [OF i ctl2] insert_control_frame [OF i]
      by (simp add: new_automated_control_def new_control_event_def)
  qed
  with ass2 inc1 db2(6) a show ?thesis by (simp add: risk_inv_def incidents_ok_def assessments_ok_def)
qed


section \<open>Reachable states\<close>

definition risk_env_ok :: "(string \<Rightarrow> bool) \<Rightarrow> risk_env \<Rightarrow> bool" where
  "risk_env_ok uuid env \<longleftrightarrow> order_ok env \<and> (\<forall>n. uuid (rk_uuid env n))"

text \<open>The statements that write, in any order and interleaving, with any environment.  What an operation read before it
  writes is not part of the step: an assessment is decided on any facts; a control that was active when it was read
  may be closed already when the expiry job or a release writes to it, and an incident may have changed.  An
  operator's identity is not the engine's, and a resolution reason is not empty, by the schema of the endpoint.\<close>

inductive risk_step :: "(string \<Rightarrow> bool) \<Rightarrow> risk_db \<Rightarrow> risk_db \<Rightarrow> bool" for uuid where
  risk_ingest: "ingest env cfg e token db store = (out, db', store') \<Longrightarrow> risk_step uuid db db'"
| risk_retention: "retention_run env cfg db = (n, db') \<Longrightarrow> risk_step uuid db db'"
| risk_evaluate:
    "risk_env_ok uuid env \<Longrightarrow> evaluate_transaction env cfg input (evaluateRisk input facts th) db = Inr (a, db') \<Longrightarrow> risk_step uuid db db'"
| risk_expire: "cl_id c \<in> cl_id ` set (controlActions db) \<Longrightarrow> cl_expiresAt c \<le> rk_now env \<Longrightarrow>
    \<forall>r \<in> set (controlActions db). cl_id r = cl_id c \<longrightarrow> cl_expiresAt r = cl_expiresAt c \<Longrightarrow>
    risk_step uuid db (expire_control env c db)"
| risk_apply:
    "insert_control (new_operator_control env req operator)
       (new_control_event (new_operator_control env req operator) ''CREATED'' operator (ap_reasonCode req) (rk_now env)) db = Inr db' \<Longrightarrow>
     operator \<noteq> AUTOMATED \<Longrightarrow> risk_step uuid db db'"
| risk_release: "cl_id c \<in> cl_id ` set (controlActions db) \<Longrightarrow> risk_step uuid db (release_write env reason operator c db)"
| risk_incident:
    "in_id current \<in> in_id ` set (incidents db) \<Longrightarrow> \<not> reason_missing upd \<Longrightarrow> iu_resolutionReason upd \<noteq> Some [] \<Longrightarrow>
     risk_step uuid db (incident_write env current upd operator db)"

lemma risk_inv_frame:
  assumes "risk_inv uuid db" and "controlActions db' = controlActions db" "controlEvents db' = controlEvents db"
    "incidents db' = incidents db" "incidentEvents db' = incidentEvents db" "riskAssessments db' = riskAssessments db"
  shows "risk_inv uuid db'"
  using assms by (simp add: risk_inv_def controls_ok_def events_of_def incidents_ok_def assessments_ok_def)

lemma risk_inv_controls:
  assumes "risk_inv uuid db" and "controls_ok db'"
    "incidents db' = incidents db" "incidentEvents db' = incidentEvents db" "riskAssessments db' = riskAssessments db"
  shows "risk_inv uuid db'"
  using assms by (simp add: risk_inv_def incidents_ok_def assessments_ok_def)

lemma expire_inv: "risk_env_ok uuid env \<Longrightarrow> risk_inv uuid db \<Longrightarrow> risk_inv uuid (snd (expire env db))"
  by (rule risk_inv_controls) (auto simp: risk_env_ok_def risk_inv_def intro: expire_ok)

lemma ingest_frame:
  assumes "ingest env cfg e token db store = (out, db', store')"
  shows "controlActions db' = controlActions db" "controlEvents db' = controlEvents db"
    "incidents db' = incidents db" "incidentEvents db' = incidentEvents db" "riskAssessments db' = riskAssessments db"
  using assms
  by (auto simp: ingest_def ingest_transaction_def ingest_duplicate_def Let_def
      split: sum.splits prod.splits if_splits option.splits risk_error.splits)

lemma evaluate_inv:
  assumes "evaluate env uuid cfg input db store = (res, db')" and "risk_inv uuid db" and "risk_env_ok uuid env"
  shows "risk_inv uuid db'"
  using assms evaluate_transaction_ok [of env cfg input _ _ db]
  by (auto simp: evaluate_def risk_env_ok_def split: option.splits sum.splits prod.splits)

lemma close_control_inv:
  assumes "risk_inv uuid db" and "cl_id c \<in> cl_id ` set (controlActions db)" and "st \<in> {CS_RELEASED, CS_EXPIRED}"
  shows "risk_inv uuid (close_control c st actor reason now db)"
  using assms by (intro risk_inv_controls [OF assms(1)] close_control_ok) (auto simp: risk_inv_def close_control_def)

lemma apply_control_inv:
  assumes "insert_control (new_operator_control env req operator)
       (new_control_event (new_operator_control env req operator) ''CREATED'' operator (ap_reasonCode req) (rk_now env)) db = Inr db'"
    and "operator \<noteq> AUTOMATED" and "risk_inv uuid db"
  shows "risk_inv uuid db'"
proof (rule risk_inv_controls [OF assms(3)])
  show "controls_ok db'"
    using insert_control_ok [OF assms(1)] assms(2,3) by (simp add: risk_inv_def new_operator_control_def new_control_event_def)
qed (use insert_control_frame [OF assms(1)] in simp_all)

lemma incident_write_inv:
  assumes "in_id current \<in> in_id ` set (incidents db)" and "\<not> reason_missing upd" and "iu_resolutionReason upd \<noteq> Some []"
    and "risk_inv uuid db"
  shows "risk_inv uuid (incident_write env current upd operator db)"
proof -
  let ?db = "incident_write env current upd operator db"
  have keep: "in_id (updated_incident env upd r) = in_id r" "in_assessmentId (updated_incident env upd r) = in_assessmentId r" for r
    by (simp_all add: updated_incident_def)
  have ids: "map in_id (incidents ?db) = map in_id (incidents db)" "map in_assessmentId (incidents ?db) = map in_assessmentId (incidents db)"
    by (simp_all add: incident_write_def keep)
  have sets: "in_id ` set (incidents ?db) = in_id ` set (incidents db)" "in_assessmentId ` set (incidents ?db) = in_assessmentId ` set (incidents db)"
    using ids by (metis set_map)+
  have res: "is_resolved (in_status (updated_incident env upd r)) \<Longrightarrow> given (in_resolutionReason (updated_incident env upd r))"
    if "is_resolved (in_status r) \<longrightarrow> given (in_resolutionReason r)" for r
    using that assms(2,3) by (auto simp: reason_missing_def updated_incident_def set_if_def given_def split: option.splits)
  have "incidents_ok ?db"
    using assms(4,1) res unfolding risk_inv_def incidents_ok_def sets by (auto simp: incident_write_def set_update_by)
  moreover have "controls_ok ?db" using assms(4) by (simp add: risk_inv_def controls_ok_def events_of_def incident_write_def)
  moreover have "assessments_ok uuid ?db"
    using assms(4) unfolding risk_inv_def assessments_ok_def sets by (simp add: incident_write_def)
  ultimately show ?thesis by (simp add: risk_inv_def)
qed

lemma risk_step_inv:
  assumes "risk_step uuid db db'" and "risk_inv uuid db"
  shows "risk_inv uuid db'"
  using assms
proof cases
  case (risk_ingest env cfg e token store out store')
  then show ?thesis using ingest_frame assms(2) risk_inv_frame by metis
next
  case (risk_retention env cfg n)
  then show ?thesis by (intro risk_inv_frame [OF assms(2)]) (auto simp: retention_run_def Let_def)
next
  case (risk_evaluate env cfg input facts th a)
  then show ?thesis using evaluate_transaction_ok [OF _ assms(2)] by (auto simp: risk_env_ok_def)
next
  case (risk_expire c env)
  then show ?thesis using assms(2) by (simp add: closing_writes close_control_inv)
next
  case (risk_release c env reason operator)
  then show ?thesis using assms(2) by (simp add: closing_writes close_control_inv)
qed (use assms(2) in \<open>auto intro: apply_control_inv incident_write_inv\<close>)

lemma risk_steps_inv: "(risk_step uuid)\<^sup>*\<^sup>* db db' \<Longrightarrow> risk_inv uuid db \<Longrightarrow> risk_inv uuid db'"
  by (induction rule: rtranclp_induct) (auto intro: risk_step_inv)

lemma risk_reach_inv: "(risk_step uuid)\<^sup>*\<^sup>* empty_risk_db db \<Longrightarrow> risk_inv uuid db"
  by (erule risk_steps_inv) (simp add: risk_inv_def controls_ok_def incidents_ok_def assessments_ok_def empty_risk_db_def)

section \<open>The operations are made of these steps\<close>

lemma evaluate_steps:
  assumes "evaluate env uuid cfg input db store = (res, db')" and "risk_env_ok uuid env"
  shows "(risk_step uuid)\<^sup>*\<^sup>* db db'"
  using assms by (auto simp: evaluate_def split: option.splits sum.splits prod.splits intro: r_into_rtranclp risk_evaluate)

lemma expire_fold_steps:
  assumes "controls_ok db" and "\<forall>c \<in> set rows. cl_expiresAt c \<le> rk_now env \<and> (\<exists>r \<in> set (controlActions db). cl_id r = cl_id c \<and> cl_expiresAt r = cl_expiresAt c)"
  shows "(risk_step uuid)\<^sup>*\<^sup>* db (fold (expire_control env) rows db)"
  using assms
proof (induction rows arbitrary: db)
  case (Cons c rows)
  from Cons.prems(2) obtain r where r: "r \<in> set (controlActions db)" "cl_id r = cl_id c" "cl_expiresAt r = cl_expiresAt c"
    and due: "cl_expiresAt c \<le> rk_now env" by auto
  have mem: "cl_id c \<in> cl_id ` set (controlActions db)" using r(1,2) by (metis image_eqI)
  have "\<forall>q \<in> set (controlActions db). cl_id q = cl_id c \<longrightarrow> cl_expiresAt q = cl_expiresAt c"
    using Cons.prems(1) r unfolding controls_ok_def distinct_map by (metis inj_onD)
  from risk_expire [OF mem due this] have one: "risk_step uuid db (expire_control env c db)" .
  have "controls_ok (expire_control env c db)" unfolding closing_writes by (intro close_control_ok Cons.prems(1) mem) simp
  moreover have "\<exists>q \<in> set (controlActions (expire_control env c db)). cl_id q = cl_id d \<and> cl_expiresAt q = cl_expiresAt d" if "d \<in> set rows" for d
  proof -
    from Cons.prems(2) that obtain p where "p \<in> set (controlActions db)" "cl_id p = cl_id d" "cl_expiresAt p = cl_expiresAt d" by auto
    then show ?thesis
      by (intro bexI [of _ "if cl_id p = cl_id c then p\<lparr>cl_status := CS_EXPIRED\<rparr> else p"]) (auto simp: expire_control_def set_update_by)
  qed
  ultimately have "(risk_step uuid)\<^sup>*\<^sup>* (expire_control env c db) (fold (expire_control env) rows (expire_control env c db))"
    using Cons.prems(2) by (intro Cons.IH) auto
  with one show ?case by (simp add: converse_rtranclp_into_rtranclp)
qed simp

lemma expire_steps:
  assumes "risk_env_ok uuid env" and "controls_ok db"
  shows "(risk_step uuid)\<^sup>*\<^sup>* db (snd (expire env db))"
proof -
  from assms(1) have "order_ok env" by (simp add: risk_env_ok_def)
  note due = due_controls_props(2) [OF this assms(2)]
  show ?thesis unfolding expire_def Let_def snd_conv by (rule expire_fold_steps [OF assms(2)]) (use due in blast)
qed

lemma check_steps:
  "risk_env_ok uuid env \<Longrightarrow> controls_ok db \<Longrightarrow> (risk_step uuid)\<^sup>*\<^sup>* db (snd (check_controls env scopes db))"
  using expire_steps by (simp add: check_controls_def Let_def)

lemma operator_steps:
  "apply_control env revoke req operator db = (res, db') \<Longrightarrow> operator \<noteq> AUTOMATED \<Longrightarrow> (risk_step uuid)\<^sup>*\<^sup>* db db'"
  "release_control env i reason operator db = Inr (c, db') \<Longrightarrow> (risk_step uuid)\<^sup>*\<^sup>* db db'"
  "incident_update env i upd operator db = Inr (inc, db') \<Longrightarrow> iu_resolutionReason upd \<noteq> Some [] \<Longrightarrow> (risk_step uuid)\<^sup>*\<^sup>* db db'"
  by (auto simp: apply_control_def release_control_def incident_update_def Let_def
      split: option.splits sum.splits if_splits intro!: r_into_rtranclp intro: risk_apply risk_release risk_incident dest!: find_by_Some)

text \<open>A control keeps its type, scope and expiry, and is active unless its trail has a closing entry: a release, or an
  expiry dated after its time.\<close>

definition tracked :: "control_row \<Rightarrow> risk_db \<Rightarrow> bool" where
  "tracked n db =
     (\<exists>c \<in> set (controlActions db). cl_id c = cl_id n \<and> cl_type c = cl_type n \<and> cl_scopeType c = cl_scopeType n
        \<and> cl_scopeId c = cl_scopeId n \<and> cl_expiresAt c = cl_expiresAt n
        \<and> (cl_status c = CS_ACTIVE \<or> (\<exists>e \<in> set (controlEvents db). ce_controlId e = cl_id n
             \<and> (ce_eventType e = ''RELEASED'' \<or> cl_expiresAt n \<le> ce_occurredAt e))))"

lemma tracked_mono:
  "tracked n db \<Longrightarrow> set (controlActions db) \<subseteq> set (controlActions db') \<Longrightarrow> set (controlEvents db) \<subseteq> set (controlEvents db') \<Longrightarrow> tracked n db'"
  unfolding tracked_def by blast

lemma tracked_close:
  assumes "tracked n db" and "cl_id n = cl_id c \<Longrightarrow> st \<noteq> CS_RELEASED \<Longrightarrow> cl_expiresAt n \<le> now"
  shows "tracked n (close_control c st actor reason now db)"
proof -
  from assms(1) obtain r where r: "r \<in> set (controlActions db)" "cl_id r = cl_id n" "cl_type r = cl_type n" "cl_scopeType r = cl_scopeType n"
      "cl_scopeId r = cl_scopeId n" "cl_expiresAt r = cl_expiresAt n"
    and a: "cl_status r = CS_ACTIVE \<or> (\<exists>e \<in> set (controlEvents db). ce_controlId e = cl_id n
             \<and> (ce_eventType e = ''RELEASED'' \<or> cl_expiresAt n \<le> ce_occurredAt e))" by (auto simp: tracked_def)
  let ?r = "if cl_id r = cl_id c then r\<lparr>cl_status := st\<rparr> else r" and ?db = "close_control c st actor reason now db"
  have "?r \<in> set (controlActions ?db)" using r(1) by (auto simp: close_control_def set_update_by)
  moreover have "cl_status ?r = CS_ACTIVE \<or> (\<exists>e \<in> set (controlEvents ?db). ce_controlId e = cl_id n
      \<and> (ce_eventType e = ''RELEASED'' \<or> cl_expiresAt n \<le> ce_occurredAt e))"
    using a r(2) assms(2)
    by (cases "st = CS_RELEASED") (auto simp: close_control_def new_control_event_def closing_entry_def)
  ultimately show ?thesis unfolding tracked_def using r(2-) by (intro bexI [of _ ?r]) simp_all
qed

lemma evaluate_transaction_controls:
  assumes "evaluate_transaction env cfg input res db = Inr (a, db')"
  shows "set (controlActions db) \<subseteq> set (controlActions db')" "set (controlEvents db) \<subseteq> set (controlEvents db')"
  using assms unfolding evaluate_transaction_def Let_def
  by (auto simp: res_simps insert_assessment_def insert_incident_def insert_control_def split: if_splits option.splits)

lemma tracked_step:
  assumes "risk_step uuid db db'" and "tracked n db"
  shows "tracked n db'"
  using assms
proof cases
  case (risk_ingest env cfg e token store out store')
  with assms(2) show ?thesis by (intro tracked_mono [OF assms(2)]) (simp_all add: ingest_frame)
next
  case (risk_retention env cfg k)
  then show ?thesis by (intro tracked_mono [OF assms(2)]) (auto simp: retention_run_def Let_def)
next
  case (risk_evaluate env cfg input facts th a)
  then show ?thesis by (intro tracked_mono [OF assms(2)] evaluate_transaction_controls)
next
  case (risk_expire c env)
  have "cl_expiresAt n \<le> rk_now env" if "cl_id n = cl_id c"
    using assms(2) risk_expire(3,4) that by (auto simp: tracked_def)
  then show ?thesis using assms(2) by (simp add: risk_expire(1) closing_writes tracked_close)
next
  case (risk_apply env req operator)
  then show ?thesis by (intro tracked_mono [OF assms(2)]) (auto simp: insert_control_def split: if_splits)
next
  case (risk_release c env reason operator)
  show ?thesis unfolding risk_release(1) closing_writes by (rule tracked_close [OF assms(2)]) simp
next
  case (risk_incident current upd env operator)
  then show ?thesis by (intro tracked_mono [OF assms(2)]) (auto simp: incident_write_def)
qed

lemma tracked_new: "n \<in> set (controlActions db) \<Longrightarrow> cl_status n = CS_ACTIVE \<Longrightarrow> tracked n db"
  by (auto simp: tracked_def)

lemma tracked_active:
  assumes "tracked n db" and "\<forall>e \<in> set (controlEvents db). ce_occurredAt e \<le> now" and "now < cl_expiresAt n"
    and "\<forall>e \<in> set (controlEvents db). ce_controlId e = cl_id n \<longrightarrow> ce_eventType e \<noteq> ''RELEASED''"
    and "cl_type n = t" "(cl_scopeType n, cl_scopeId n) \<in> set scopes"
  shows "\<exists>q. q \<in> set (controlActions db) \<and> cl_status q = CS_ACTIVE \<and> cl_type q = t
    \<and> now < cl_expiresAt q \<and> (cl_scopeType q, cl_scopeId q) \<in> set scopes"
  using assms unfolding tracked_def by force

lemma tracked_steps: "(risk_step uuid)\<^sup>*\<^sup>* db db' \<Longrightarrow> tracked n db \<Longrightarrow> tracked n db'"
  by (induction rule: rtranclp_induct) (auto intro: tracked_step)

text \<open>An incident that was resolved and goes back to investigation, rather than to open, keeps its resolution time.\<close>

lemma reinvestigated_keeps_resolution:
  "iu_status upd = Some IS_INVESTIGATING \<Longrightarrow>
     in_status (updated_incident env upd r) = IS_INVESTIGATING \<and> in_resolvedAt (updated_incident env upd r) = in_resolvedAt r"
  by (simp add: updated_incident_def is_resolved_def)

section \<open>Decisions and controls\<close>

lemma blocking_type:
  assumes "t \<in> set types"
    and "t \<in> {CT_QUARANTINE, CT_TEMPORARY_BLOCK, CT_ACCOUNT_RESTRICT, CT_RECIPIENT_BLOCK, CT_TRANSFER_HOLD, CT_MANUAL_REVIEW}"
  shows "\<not> (\<not> (CT_QUARANTINE \<in> set types \<or> list_ex (\<lambda>t. t \<in> {CT_TEMPORARY_BLOCK, CT_ACCOUNT_RESTRICT, CT_RECIPIENT_BLOCK}) types)
      \<and> \<not> list_ex (\<lambda>t. t \<in> {CT_TRANSFER_HOLD, CT_MANUAL_REVIEW}) types)"
  using assms by (auto simp: list_ex_iff)

lemma check_sees_control:
  assumes "order_ok env" and "controls_ok db" and "c \<in> set (controlActions db)" and "cl_status c = CS_ACTIVE"
    and "rk_now env < cl_expiresAt c" and "(cl_scopeType c, cl_scopeId c) \<in> set scopes"
  shows "cl_type c \<in> {CT_QUARANTINE, CT_TEMPORARY_BLOCK, CT_ACCOUNT_RESTRICT, CT_RECIPIENT_BLOCK, CT_TRANSFER_HOLD, CT_MANUAL_REVIEW}
      \<Longrightarrow> \<not> cc_allowed (fst (check_controls env scopes db))"
    and "cl_type c = CT_REQUIRE_STEP_UP \<Longrightarrow> cc_requiresStepUp (fst (check_controls env scopes db))"
proof -
  let ?rows = "check_rows (rk_now env) scopes (controlActions (snd (expire env db)))"
  have "c \<in> set ?rows" using expire_keeps [OF assms(1-3,5)] assms(4-6) by (simp add: check_rows_def)
  then have t: "cl_type c \<in> set (map cl_type ?rows)" by simp
  show "\<not> cc_allowed (fst (check_controls env scopes db))"
    if "cl_type c \<in> {CT_QUARANTINE, CT_TEMPORARY_BLOCK, CT_ACCOUNT_RESTRICT, CT_RECIPIENT_BLOCK, CT_TRANSFER_HOLD, CT_MANUAL_REVIEW}"
    unfolding check_controls_def check_answer_def Let_def fst_conv control_check.select_convs by (rule blocking_type [OF t that])
  show "cc_requiresStepUp (fst (check_controls env scopes db))" if "cl_type c = CT_REQUIRE_STEP_UP"
    using t that unfolding check_controls_def check_answer_def Let_def by simp
qed

text \<open>The control that goes with a decision.\<close>

lemma decision_control:
  "er_decision (evaluateRisk input facts th) \<in> {HOLD_FOR_REVIEW, BLOCK, QUARANTINE} \<Longrightarrow>
     \<exists>t. er_controlRecommendation (evaluateRisk input facts th) = Some t \<and> t \<in> {CT_QUARANTINE, CT_TEMPORARY_BLOCK, CT_TRANSFER_HOLD}"
  "er_decision (evaluateRisk input facts th) = REQUIRE_STEP_UP \<Longrightarrow>
     er_controlRecommendation (evaluateRisk input facts th) = Some CT_REQUIRE_STEP_UP"
  using evaluateRisk_decision [of input facts th] by (auto simp: risk_decision_def split: if_splits)

lemma evaluate_control:
  assumes "evaluate env uuid cfg input db store = (Inr r, db')"
    and "find_by an_evaluationId (rq_evaluationId input) (riskAssessments db) = None"
  shows "\<exists>facts th. ra_decision r = er_decision (evaluateRisk input facts th)
    \<and> (\<forall>t. er_controlRecommendation (evaluateRisk input facts th) = Some t \<longrightarrow>
         new_automated_control env input (evaluateRisk input facts th) t \<in> set (controlActions db'))"
proof -
  let ?facts = "risk_facts_of env cfg input db store" and ?th = "service_thresholds cfg"
  let ?res = "evaluateRisk input ?facts ?th"
  from assms obtain a where t: "evaluate_transaction env cfg input ?res db = Inr (a, db')" and r: "risk_response uuid a = Inr r"
    by (auto simp: evaluate_def split: sum.splits prod.splits)
  from t have a: "a = new_assessment env cfg input ?res" unfolding evaluate_transaction_def Let_def by (auto simp: res_simps)
  have "ra_decision r = er_decision ?res"
    using r by (auto simp: a risk_response_def new_assessment_def Let_def split: if_splits)
  moreover have "new_automated_control env input ?res t \<in> set (controlActions db')" if "er_controlRecommendation ?res = Some t" for t
    using assms t that unfolding evaluate_transaction_def Let_def by (auto simp: res_simps dest: insert_control_frame)
  ultimately show ?thesis by blast
qed

section \<open>A sample state\<close>

definition demo_hot_store :: velocity_store where
  "demo_hot_store =
     [(risk_key demo_risk_cfg [''velocity'', ''auth-failures:600s'', ''#alice''], 5, 900000),
      (risk_key demo_risk_cfg [''velocity'', ''transfers:600s'', ''#alice''], 5, 900000)]"

definition demo_evaluation :: "(risk_error, risk_assessment) res \<times> risk_db" where
  "demo_evaluation =
     evaluate (demo_risk_env ''a'' 1000) (\<lambda>_. True) demo_risk_cfg (demo_risk_request None) empty_risk_db demo_hot_store"

lemma demo_evaluation_holds:
  "(case demo_evaluation of (Inr r, db) \<Rightarrow> ra_decision r = HOLD_FOR_REVIEW \<and> length (incidents db) = 1 | _ \<Rightarrow> False)"
  by code_simp

lemma demo_evaluationE:
  obtains r db where "evaluate (demo_risk_env ''a'' 1000) (\<lambda>_. True) demo_risk_cfg (demo_risk_request None) empty_risk_db demo_hot_store = (Inr r, db)"
    "ra_decision r = HOLD_FOR_REVIEW" "length (incidents db) = 1"
  using demo_evaluation_holds by (auto simp: demo_evaluation_def split: prod.splits sum.splits)

lemma demo_risk_env_ok: "risk_env_ok (\<lambda>_. True) (demo_risk_env tag now)" "order_ok (demo_risk_env tag now)"
  by (simp_all add: risk_env_ok_def order_ok_def demo_risk_env_def)

section \<open>Properties\<close>

text \<open>C19: a decision of the risk engine is enforced until it is released.  In every reachable state, once an assessment
  holds, blocks or quarantines a customer, whatever the service does afterwards, a control check of that customer
  made in the next five minutes is refused, and the payments service, asking it, refuses the operation, as long as
  the trail has no entry that an operator released this control, and no entry dated after the check; a decision for
  step-up makes the check ask for step-up in the same way.\<close>

theorem decision_enforced:
  assumes "(risk_step uuid)\<^sup>*\<^sup>* empty_risk_db db" and "risk_env_ok uuid env"
    and "evaluate env uuid cfg input db store = (Inr r, db')"
    and "find_by an_evaluationId (rq_evaluationId input) (riskAssessments db) = None"
    and later: "(risk_step uuid)\<^sup>*\<^sup>* db' db''"
    and "order_ok env'" and "rk_now env' < rk_now env + 300000" and "(SCOPE_CUSTOMER, rq_subjectId input) \<in> set scopes"
    and past: "\<forall>e \<in> set (controlEvents db''). ce_occurredAt e \<le> rk_now env'"
    and kept: "\<forall>e \<in> set (controlEvents db''). ce_controlId e = rk_uuid env 2 \<longrightarrow> ce_eventType e \<noteq> ''RELEASED''"
  shows "(ra_decision r \<in> {HOLD_FOR_REVIEW, BLOCK, QUARANTINE} \<longrightarrow>
            \<not> cc_allowed (fst (check_controls env' scopes db''))
            \<and> (\<forall>risk p. enforcement_scopes p = scopes \<longrightarrow>
                 rs_controls risk (ri_operation p) scopes = RiskAnswer (cc_allowed (fst (check_controls env' scopes db''))) \<longrightarrow>
                 enforce risk p = Inl securityControlActive))
    \<and> (ra_decision r = REQUIRE_STEP_UP \<longrightarrow> cc_requiresStepUp (fst (check_controls env' scopes db'')))"
proof -
  obtain facts th where d: "ra_decision r = er_decision (evaluateRisk input facts th)"
    and c: "\<And>t. er_controlRecommendation (evaluateRisk input facts th) = Some t \<Longrightarrow>
      new_automated_control env input (evaluateRisk input facts th) t \<in> set (controlActions db')"
    using evaluate_control [OF assms(3,4)] by blast
  have inv: "risk_inv uuid db'" by (rule evaluate_inv [OF assms(3) risk_reach_inv [OF assms(1)] assms(2)])
  have ok: "controls_ok db''" using risk_steps_inv [OF later inv] by (simp add: risk_inv_def)
  have still: "\<exists>q. q \<in> set (controlActions db'') \<and> cl_status q = CS_ACTIVE \<and> cl_type q = t
      \<and> rk_now env' < cl_expiresAt q \<and> (cl_scopeType q, cl_scopeId q) \<in> set scopes"
    if t: "er_controlRecommendation (evaluateRisk input facts th) = Some t" for t
    by (rule tracked_active [OF tracked_steps [OF later tracked_new [OF c [OF t]]] past])
      (use kept assms(7,8) in \<open>auto simp: new_automated_control_def control_duration_def\<close>)
  note sees = check_sees_control [OF assms(6) ok]
  have 1: "\<not> cc_allowed (fst (check_controls env' scopes db''))" if dec: "ra_decision r \<in> {HOLD_FOR_REVIEW, BLOCK, QUARANTINE}"
  proof -
    from dec d decision_control(1) [of input facts th] obtain t where
      t: "er_controlRecommendation (evaluateRisk input facts th) = Some t" "t \<in> {CT_QUARANTINE, CT_TEMPORARY_BLOCK, CT_TRANSFER_HOLD}" by auto
    from still [OF t(1)] obtain q where q: "q \<in> set (controlActions db'')" "cl_status q = CS_ACTIVE" "cl_type q = t"
      "rk_now env' < cl_expiresAt q" "(cl_scopeType q, cl_scopeId q) \<in> set scopes" by blast
    show ?thesis using t(2) q(3) by (intro sees(1) [OF q(1,2,4,5)]) auto
  qed
  have 2: "cc_requiresStepUp (fst (check_controls env' scopes db''))" if dec: "ra_decision r = REQUIRE_STEP_UP"
  proof -
    have t: "er_controlRecommendation (evaluateRisk input facts th) = Some CT_REQUIRE_STEP_UP" using decision_control(2) dec d by simp
    from still [OF t] obtain q where q: "q \<in> set (controlActions db'')" "cl_status q = CS_ACTIVE" "cl_type q = CT_REQUIRE_STEP_UP"
      "rk_now env' < cl_expiresAt q" "(cl_scopeType q, cl_scopeId q) \<in> set scopes" by blast
    show ?thesis by (rule sees(2) [OF q(1,2,4,5,3)])
  qed
  show ?thesis using 1 2 by (auto simp: enforce_def risk_internal_def)
qed

theorem decision_enforced_witness:
  "\<exists>r db'. evaluate (demo_risk_env ''a'' 1000) (\<lambda>_. True) demo_risk_cfg (demo_risk_request None) empty_risk_db demo_hot_store = (Inr r, db')
     \<and> ra_decision r = HOLD_FOR_REVIEW
     \<and> \<not> cc_allowed (fst (check_controls (demo_risk_env ''c'' 3000) [(SCOPE_CUSTOMER, ''alice'')]
           (snd (check_controls (demo_risk_env ''b'' 2000) [(SCOPE_CUSTOMER, ''alice'')] db'))))"
proof -
  obtain r db' where e: "evaluate (demo_risk_env ''a'' 1000) (\<lambda>_. True) demo_risk_cfg (demo_risk_request None) empty_risk_db demo_hot_store = (Inr r, db')"
    and d: "ra_decision r = HOLD_FOR_REVIEW" by (rule demo_evaluationE)
  let ?db = "snd (check_controls (demo_risk_env ''b'' 2000) [(SCOPE_CUSTOMER, ''alice'')] db')"
  have "(risk_step (\<lambda>_. True))\<^sup>*\<^sup>* empty_risk_db db'" by (rule evaluate_steps [OF e demo_risk_env_ok(1)])
  then have "controls_ok db'" by (auto dest!: risk_reach_inv simp: risk_inv_def)
  from check_steps [OF demo_risk_env_ok(1) this] have later: "(risk_step (\<lambda>_. True))\<^sup>*\<^sup>* db' ?db" .
  have "map (\<lambda>e. (ce_eventType e, ce_occurredAt e)) (controlEvents (snd (check_controls (demo_risk_env ''b'' 2000) [(SCOPE_CUSTOMER, ''alice'')]
      (snd demo_evaluation)))) = [(''CREATED'', 1000)]" by code_simp
  then have ev: "\<forall>x \<in> set (controlEvents ?db). ce_occurredAt x \<le> 3000 \<and> ce_eventType x \<noteq> ''RELEASED''"
    using e by (auto simp: demo_evaluation_def map_eq_Cons_conv)
  have "\<not> cc_allowed (fst (check_controls (demo_risk_env ''c'' 3000) [(SCOPE_CUSTOMER, ''alice'')] ?db))"
    using decision_enforced [OF _ demo_risk_env_ok(1) e _ later demo_risk_env_ok(2), of "''c''" 3000 "[(SCOPE_CUSTOMER, ''alice'')]"] d ev
    by (simp add: empty_risk_db_def demo_risk_env_def demo_risk_request_def)
  with e d show ?thesis by blast
qed

text \<open>C20: the risk service reconciles in every state its statements can reach, in any interleaving of ingestion,
  assessments, expiry, operators and retention: whatever reachable states its five queries see, no automated control
  lacks an assessment, no control or incident event is an orphan, every high or critical assessment has an incident,
  so the report fails only for silent sources.  In every such state a control's trail is its creation, followed by
  nothing while it is active and otherwise by closing entries the last of which agrees with its status, and every
  resolved incident carries a reason.  A control can be closed twice, since expiry and release write without a
  condition on the status.\<close>

theorem reachable_risk_reconciles:
  assumes "\<forall>d \<in> {d1, d2, d3, d4, d5}. (risk_step uuid)\<^sup>*\<^sup>* empty_risk_db d" and "issues = risk_counts env d1 d2 d3 d4 d5"
  shows "ri_orphanControls issues = 0 \<and> ri_orphanControlEvents issues = 0 \<and> ri_orphanIncidentEvents issues = 0
    \<and> ri_unhandledHigh issues = 0 \<and> (issues_pass issues \<longleftrightarrow> ri_staleSources issues = 0)
    \<and> (\<forall>c \<in> set (controlActions d1). trail_ok (cl_status c) (events_of d1 (cl_id c)))
    \<and> (\<forall>i \<in> set (incidents d3). is_resolved (in_status i) \<longrightarrow> given (in_resolutionReason i))"
proof -
  have ok: "controls_ok d \<and> incidents_ok d \<and> assessments_ok uuid d" if "d \<in> {d1, d2, d3, d4, d5}" for d
    using assms(1) risk_reach_inv that unfolding risk_inv_def by blast
  note oks = ok [unfolded controls_ok_def incidents_ok_def assessments_ok_def]
  have 1: "count_if (\<lambda>c. cl_assessmentId c = None \<and> cl_incidentId c = None \<and> cl_createdBy c = AUTOMATED) (controlActions d1) = 0"
    using oks [of d1] by (auto simp: count_if_def filter_empty_conv)
  have 2: "count_if (\<lambda>e. find_by cl_id (ce_controlId e) (controlActions d2) = None) (controlEvents d2) = 0"
    using oks [of d2] by (auto simp: count_if_def filter_empty_conv find_by_None)
  have 3: "count_if (\<lambda>e. find_by in_id (ie_incidentId e) (incidents d3) = None) (incidentEvents d3) = 0"
    using oks [of d3] by (auto simp: count_if_def filter_empty_conv find_by_None)
  have 4: "count_if (\<lambda>a. severe (an_band a) \<and> \<not> list_ex (\<lambda>i. in_assessmentId i = Some (an_id a)) (incidents d4)) (riskAssessments d4) = 0"
    using oks [of d4] by (force simp: count_if_def filter_empty_conv list_ex_iff)
  show ?thesis using 1 2 3 4 oks [of d1] oks [of d3] by (simp add: assms(2) risk_counts_def issues_pass_def)
qed

theorem reachable_risk_reconciles_witness:
  "\<exists>r db. evaluate (demo_risk_env ''a'' 1000) (\<lambda>_. True) demo_risk_cfg (demo_risk_request None) empty_risk_db demo_hot_store = (Inr r, db)
     \<and> length (incidents db) = 1
     \<and> ri_unhandledHigh (risk_counts (demo_risk_env ''b'' 2000000) db db db db db) = 0"
proof -
  obtain r db where e: "evaluate (demo_risk_env ''a'' 1000) (\<lambda>_. True) demo_risk_cfg (demo_risk_request None) empty_risk_db demo_hot_store = (Inr r, db)"
    and d: "length (incidents db) = 1" by (rule demo_evaluationE)
  have "(risk_step (\<lambda>_. True))\<^sup>*\<^sup>* empty_risk_db db" by (rule evaluate_steps [OF e demo_risk_env_ok(1)])
  then have "\<forall>x \<in> {db, db, db, db, db}. (risk_step (\<lambda>_. True))\<^sup>*\<^sup>* empty_risk_db x" by simp
  from reachable_risk_reconciles [OF this refl, of "demo_risk_env ''b'' 2000000"] e d show ?thesis by auto
qed

text \<open>C21: the risk service's own answers satisfy their contract: in every reachable state an evaluation, fresh or
  repeated, never fails the assessment schema, whatever the facts: its score lies between 0 and 100, it names at
  most thirty-two rules and reasons of at most sixty-four characters, and its version and explanation fit.\<close>

theorem assessments_conform:
  assumes "(risk_step uuid)\<^sup>*\<^sup>* empty_risk_db db" and "risk_env_ok uuid env"
    and "evaluate env uuid cfg input db store = (out, db')"
  shows "out \<noteq> Inl RiskZodError \<and> (\<forall>r. out = Inr r \<longrightarrow> riskAssessmentSchema uuid r)"
proof -
  have inv: "risk_inv uuid db" by (rule risk_reach_inv [OF assms(1)])
  have conf: "risk_response uuid a = Inr r \<Longrightarrow> riskAssessmentSchema uuid r" for a r
    by (auto simp: risk_response_def Let_def split: if_splits)
  have no_zod: "evaluate_transaction env cfg input res db \<noteq> Inl RiskZodError" for res
    unfolding evaluate_transaction_def Let_def
    by (auto simp: res_simps insert_assessment_def insert_incident_def insert_control_def split: if_splits option.splits)
  show ?thesis
  proof (cases "find_by an_evaluationId (rq_evaluationId input) (riskAssessments db)")
    case None
    with assms(2,3) inv no_zod conf evaluate_transaction_ok [of env cfg input _ _ db] new_assessment_conforms [of uuid env] show ?thesis
      unfolding evaluate_def risk_env_ok_def by (auto split: sum.splits prod.splits) (metis Inr_Inl_False)+
  next
    case (Some a)
    then have "a \<in> set (riskAssessments db)" by (auto dest: find_by_Some)
    with inv obtain r where "risk_response uuid a = Inr r" by (auto simp: risk_inv_def assessments_ok_def)
    with Some assms(3) conf show ?thesis by (auto simp: evaluate_def)
  qed
qed


theorem assessments_conform_witness:
  "\<exists>r db'. evaluate (demo_risk_env ''a'' 1000) (\<lambda>_. True) demo_risk_cfg (demo_risk_request None) empty_risk_db demo_hot_store = (Inr r, db')
     \<and> riskAssessmentSchema (\<lambda>_. True) r"
proof -
  obtain r db' where e: "evaluate (demo_risk_env ''a'' 1000) (\<lambda>_. True) demo_risk_cfg (demo_risk_request None) empty_risk_db demo_hot_store = (Inr r, db')"
    by (rule demo_evaluationE)
  have "riskAssessmentSchema (\<lambda>_. True) r" using assessments_conform [OF _ demo_risk_env_ok(1) e] by simp
  with e show ?thesis by blast
qed

end
