(* ===== verification/RiskOperators.thy ===== *)
theory RiskOperators
  imports RiskControls "HOL-Library.Product_Lexorder"
begin

text \<open>
  Security operators of the risk service (\<open>operators/operator.service.ts\<close>, \<open>operators/operator.controller.ts\<close>):
  sessions in Redis with a token for changes, the operations behind them and their audit trail.
\<close>

section \<open>Sessions\<close>

record operator_identity =
  oi_operatorId :: string
  oi_role :: string
  oi_createdAt :: time
  oi_expiresAt :: time

record operator_session = operator_identity +
  os_csrfHash :: string

type_synonym operator_store = "(string \<times> operator_session \<times> time) list"

definition operator_key :: "risk_env \<Rightarrow> risk_config \<Rightarrow> string \<Rightarrow> string" where
  "operator_key env cfg token = risk_key cfg [''operator-session'', rk_sha256 env token]"

definition bootstrap ::
  "risk_env \<Rightarrow> risk_config \<Rightarrow> string \<Rightarrow> operator_store \<Rightarrow> (risk_error, (string \<times> string \<times> operator_identity) \<times> operator_store) res" where
  "bootstrap env cfg accessToken store =
     (if (case operatorBootstrapToken cfg of None \<Rightarrow> True | Some t \<Rightarrow> t = [] \<or> \<not> timingSafeStringEqual accessToken t)
      then Inl riskUnauthorized
      else (let sessionToken = rk_token env 0; csrfToken = rk_token env 1; k = operator_key env cfg sessionToken;
                until = rk_now env + operatorSessionTtlSeconds cfg * 1000;
                identity = \<lparr>oi_operatorId = ''operator:development-security'', oi_role = ''SECURITY_OPERATOR'',
                            oi_createdAt = rk_now env, oi_expiresAt = until\<rparr>
            in Inr ((sessionToken, csrfToken, identity),
                    (k, operator_identity.extend identity (operator_session.fields (rk_sha256 env csrfToken)), until)
                    # filter (\<lambda>e. fst e \<noteq> k) store)))"

definition operator_validate ::
  "risk_env \<Rightarrow> risk_config \<Rightarrow> string \<Rightarrow> string option \<Rightarrow> bool \<Rightarrow> operator_store \<Rightarrow> (risk_error, operator_identity) res" where
  "operator_validate env cfg sessionToken csrfToken mutation store =
     (case find_by fst (operator_key env cfg sessionToken) store of
        None \<Rightarrow> Inl riskUnauthorized
      | Some (_, v, until) \<Rightarrow>
          if until \<le> rk_now env then Inl riskUnauthorized
          else if oi_role v \<noteq> ''SECURITY_OPERATOR'' \<or> oi_expiresAt v \<le> rk_now env then Inl riskUnauthorized
          else if mutation \<and> (case csrfToken of None \<Rightarrow> True
                              | Some c \<Rightarrow> c = [] \<or> \<not> timingSafeStringEqual (rk_sha256 env c) (os_csrfHash v)) then Inl riskForbidden
          else Inr (operator_identity.truncate v))"

definition operator_revoke :: "risk_env \<Rightarrow> risk_config \<Rightarrow> string \<Rightarrow> operator_store \<Rightarrow> operator_store" where
  "operator_revoke env cfg sessionToken store = filter (\<lambda>e. fst e \<noteq> operator_key env cfg sessionToken) store"

section \<open>Requests\<close>

record operator_request =
  or_session :: "string option"
  or_csrf :: "string option"
  or_correlationId :: "string option"

definition request_token :: "operator_request \<Rightarrow> string" where
  "request_token r = (case or_session r of Some t \<Rightarrow> js_trim t | None \<Rightarrow> [])"

definition request_csrf :: "operator_request \<Rightarrow> string option" where
  "request_csrf r = map_option js_trim (or_csrf r)"

definition operator_logout ::
  "risk_env \<Rightarrow> risk_config \<Rightarrow> operator_request \<Rightarrow> operator_store \<Rightarrow> (risk_error, operator_store) res" where
  "operator_logout env cfg r store =
     andThen (operator_validate env cfg (request_token r) (request_csrf r) True store) (\<lambda>_.
       Inr (operator_revoke env cfg (request_token r) store))"

text \<open>\<open>/^[A-Za-z0-9._:-]{16,128}$/u\<close> and \<open>/^[A-Z0-9_]{3,64}$/u\<close>\<close>

definition reasonCodeSchema :: "string \<Rightarrow> bool" where
  "reasonCodeSchema s = (list_all (\<lambda>c. is_upper_alnum c \<or> c = CHR ''_'') s \<and> 3 \<le> length s \<and> length s \<le> 64)"

definition applyControlRequestSchema :: "(string \<Rightarrow> bool) \<Rightarrow> apply_input \<Rightarrow> bool" where
  "applyControlRequestSchema uuid i =
     (idempotencyKeySchema (ap_idempotencyKey i) \<and> opaqueIdentifier (ap_scopeId i) \<and> reasonCodeSchema (ap_reasonCode i)
      \<and> (case ap_incidentId i of None \<Rightarrow> True | Some x \<Rightarrow> uuid x))"

definition text_between :: "nat \<Rightarrow> nat \<Rightarrow> string \<Rightarrow> (risk_error, string) res" where
  "text_between lo hi s =
     (let t = js_trim s in if lo \<le> length t \<and> length t \<le> hi then Inr t else Inl RiskZodError)"

definition optional_text :: "nat \<Rightarrow> nat \<Rightarrow> string option \<Rightarrow> (risk_error, string option) res" where
  "optional_text lo hi x =
     (case x of None \<Rightarrow> Inr None | Some s \<Rightarrow> andThen (text_between lo hi s) (\<lambda>t. Inr (Some t)))"

definition incidentUpdateSchema :: "incident_input \<Rightarrow> (risk_error, incident_input) res" where
  "incidentUpdateSchema i =
     (if (case iu_assignedTo i of None \<Rightarrow> False | Some a \<Rightarrow> length a < 8 \<or> 128 < length a) then Inl RiskZodError
      else andThen (optional_text 3 1000 (iu_note i)) (\<lambda>note.
           andThen (optional_text 8 500 (iu_resolutionReason i)) (\<lambda>reason.
           if iu_status i = None \<and> iu_assignedTo i = None \<and> note = None \<and> reason = None then Inl RiskZodError
           else Inr (i\<lparr>iu_note := note, iu_resolutionReason := reason\<rparr>))))"

definition operator_audit_row :: "risk_env \<Rightarrow> (string \<Rightarrow> bool) \<Rightarrow> operator_identity \<Rightarrow> string \<Rightarrow> string \<Rightarrow> string \<Rightarrow> string \<Rightarrow> operator_request \<Rightarrow> operator_audit" where
  "operator_audit_row env uuid op action targetType targetId reason r =
     \<lparr>oa_operatorId = oi_operatorId op, oa_action = action, oa_targetType = targetType, oa_targetId = targetId, oa_reason = reason,
      oa_correlationId = (case or_correlationId r of Some c \<Rightarrow> if uuid c then c else rk_uuid env 9 | None \<Rightarrow> rk_uuid env 9),
      oa_occurredAt = rk_now env\<rparr>"

definition operator_apply ::
  "risk_env \<Rightarrow> (string \<Rightarrow> bool) \<Rightarrow> risk_config \<Rightarrow> (string \<Rightarrow> string \<Rightarrow> string \<Rightarrow> bool) \<Rightarrow> operator_request \<Rightarrow> apply_input \<Rightarrow> operator_store
     \<Rightarrow> risk_db \<Rightarrow> (risk_error, control_row) res \<times> risk_db" where
  "operator_apply env uuid cfg revoke r input store db =
     (case operator_validate env cfg (request_token r) (request_csrf r) True store of
        Inl err \<Rightarrow> (Inl err, db)
      | Inr op \<Rightarrow>
          if \<not> applyControlRequestSchema uuid input then (Inl RiskZodError, db)
          else (case apply_control env revoke input (oi_operatorId op) db of
                  (Inl err, db') \<Rightarrow> (Inl err, db')
                | (Inr c, db') \<Rightarrow>
                    (Inr c, db'\<lparr>operatorAudits := operatorAudits db' @
                      [operator_audit_row env uuid op ''CONTROL_APPLY'' ''CONTROL'' (cl_id c) (ap_reasonCode input) r]\<rparr>)))"

definition operator_release ::
  "risk_env \<Rightarrow> (string \<Rightarrow> bool) \<Rightarrow> risk_config \<Rightarrow> operator_request \<Rightarrow> string \<Rightarrow> string \<Rightarrow> operator_store \<Rightarrow> risk_db
     \<Rightarrow> (risk_error, control_row \<times> risk_db) res" where
  "operator_release env uuid cfg r i reason store db =
     andThen (operator_validate env cfg (request_token r) (request_csrf r) True store) (\<lambda>op.
     andThen (text_between 8 500 reason) (\<lambda>why.
     andThen (require (uuid i) RiskZodError) (\<lambda>_.
     andThen (release_control env i why (oi_operatorId op) db) (\<lambda>(c, db').
       Inr (c, db'\<lparr>operatorAudits := operatorAudits db' @
                [operator_audit_row env uuid op ''CONTROL_RELEASE'' ''CONTROL'' (cl_id c) why r]\<rparr>)))))"

definition incident_audit_reason :: "incident_input \<Rightarrow> string" where
  "incident_audit_reason i =
     (case or_text (iu_note i) (iu_resolutionReason i) of
        Some t \<Rightarrow> t
      | None \<Rightarrow> (case iu_status i of
                   Some IS_OPEN \<Rightarrow> ''OPEN'' | Some IS_INVESTIGATING \<Rightarrow> ''INVESTIGATING'' | Some IS_CONTAINED \<Rightarrow> ''CONTAINED''
                 | Some IS_RESOLVED \<Rightarrow> ''RESOLVED'' | Some IS_FALSE_POSITIVE \<Rightarrow> ''FALSE_POSITIVE'' | None \<Rightarrow> ''assignment''))"

definition operator_incident ::
  "risk_env \<Rightarrow> (string \<Rightarrow> bool) \<Rightarrow> risk_config \<Rightarrow> operator_request \<Rightarrow> string \<Rightarrow> incident_input \<Rightarrow> operator_store \<Rightarrow> risk_db
     \<Rightarrow> (risk_error, incident_row \<times> risk_db) res" where
  "operator_incident env uuid cfg r i body store db =
     andThen (operator_validate env cfg (request_token r) (request_csrf r) True store) (\<lambda>op.
     andThen (incidentUpdateSchema body) (\<lambda>input.
     andThen (require (uuid i) RiskZodError) (\<lambda>_.
     andThen (incident_update env i input (oi_operatorId op) db) (\<lambda>(row, db').
       Inr (row, db'\<lparr>operatorAudits := operatorAudits db' @
                  [operator_audit_row env uuid op ''INCIDENT_UPDATE'' ''INCIDENT'' (in_id row) (incident_audit_reason input) r]\<rparr>)))))"

section \<open>Reads\<close>

record source_view =
  sv_source :: string
  sv_lastReceivedAt :: time
  sv_stale :: bool

record risk_overview =
  ro_eventsLast24Hours :: nat
  ro_activeControls :: nat
  ro_openIncidents :: nat
  ro_highCriticalAssessments :: nat
  ro_riskDistribution :: "(risk_band \<times> nat) list"
  ro_sourceHealth :: "source_view list"

definition overview :: "risk_env \<Rightarrow> risk_config \<Rightarrow> operator_request \<Rightarrow> operator_store \<Rightarrow> risk_db \<Rightarrow> (risk_error, risk_overview) res" where
  "overview env cfg r store db =
     andThen (operator_validate env cfg (request_token r) None False store) (\<lambda>_.
       let since = rk_now env - 86400000;
           recent = filter (\<lambda>a. since \<le> an_createdAt a) (riskAssessments db)
       in Inr \<lparr>ro_eventsLast24Hours = count_if (\<lambda>e. since \<le> ev_receivedAt e) (securityEvents db),
               ro_activeControls = count_if (\<lambda>c. cl_status c = CS_ACTIVE \<and> rk_now env < cl_expiresAt c) (controlActions db),
               ro_openIncidents = count_if incident_open (incidents db),
               ro_highCriticalAssessments = count_if (\<lambda>a. severe (an_band a)) recent,
               ro_riskDistribution = map (\<lambda>b. (b, count_if (\<lambda>a. an_band a = b) recent)) [BAND_LOW, BAND_MEDIUM, BAND_HIGH, BAND_CRITICAL],
               ro_sourceHealth = map (\<lambda>h. \<lparr>sv_source = sh_source h, sv_lastReceivedAt = sh_lastReceivedAt h,
                                          sv_stale = (900000 < rk_now env - sh_lastReceivedAt h)\<rparr>)
                                  (sort_key sh_source (sourceHealths db))\<rparr>)"

text \<open>Rows after a cursor, newest first, at most fifty-one; the decoded cursor is a parameter of the reads.\<close>

definition cursor_page :: "('r \<Rightarrow> time) \<Rightarrow> ('r \<Rightarrow> string) \<Rightarrow> (time \<times> string) option \<Rightarrow> 'r list \<Rightarrow> 'r list" where
  "cursor_page at key cursor rows =
     take 51 (rev (sort_key (\<lambda>r. (at r, key r))
       (filter (\<lambda>r. case cursor of None \<Rightarrow> True | Some (t, k) \<Rightarrow> at r < t \<or> at r = t \<and> key r < k) rows)))"

definition operator_events where
  "operator_events env cfg r cursor store db =
     andThen (operator_validate env cfg (request_token r) None False store) (\<lambda>_. Inr (cursor_page ev_receivedAt ev_id cursor (securityEvents db)))"

definition operator_assessments where
  "operator_assessments env cfg r cursor store db =
     andThen (operator_validate env cfg (request_token r) None False store) (\<lambda>_. Inr (cursor_page an_createdAt an_id cursor (riskAssessments db)))"

definition operator_controls where
  "operator_controls env cfg r cursor store db =
     andThen (operator_validate env cfg (request_token r) None False store) (\<lambda>_. Inr (cursor_page cl_createdAt cl_id cursor (controlActions db)))"

definition operator_incidents where
  "operator_incidents env cfg r cursor store db =
     andThen (operator_validate env cfg (request_token r) None False store) (\<lambda>_. Inr (cursor_page in_createdAt in_id cursor (incidents db)))"

definition incident_detail :: "string \<Rightarrow> risk_db \<Rightarrow> (risk_error, incident_row \<times> control_row list \<times> incident_event list) res" where
  "incident_detail i db =
     (case find_by in_id i (incidents db) of
        None \<Rightarrow> Inl RiskRecordNotFound
      | Some row \<Rightarrow> Inr (row, filter (\<lambda>c. cl_incidentId c = Some i) (controlActions db),
                        sort_key ie_occurredAt (filter (\<lambda>e. ie_incidentId e = i) (incidentEvents db))))"


section \<open>Facts\<close>

lemma operator_validate_Inr:
  assumes "operator_validate env cfg token csrf mutation store = Inr op"
  shows "\<exists>v until. find_by fst (operator_key env cfg token) store = Some (operator_key env cfg token, v, until)
    \<and> rk_now env < until \<and> oi_role v = ''SECURITY_OPERATOR'' \<and> op = operator_identity.truncate v
    \<and> (mutation \<longrightarrow> (\<exists>c. csrf = Some c \<and> rk_sha256 env c = os_csrfHash v))"
  using assms
  by (auto simp: operator_validate_def timingSafeStringEqual_iff dest: find_by_Some split: option.splits prod.splits if_splits)

lemma bootstrap_validates:
  assumes "bootstrap env cfg accessToken store = Inr ((token, csrf, identity), store')"
    and "rk_sha256 env' = rk_sha256 env" and "rk_now env' < rk_now env + operatorSessionTtlSeconds cfg * 1000"
    and "csrf \<noteq> []" and "rk_sha256 env csrf \<noteq> []"
  shows "operator_validate env' cfg token (Some csrf) True store' = Inr identity"
  using assms
  by (auto simp: bootstrap_def operator_validate_def operator_key_def timingSafeStringEqual_iff Let_def
      operator_identity.defs operator_session.defs split: if_splits)

lemma revoked_session_refused:
  "operator_validate env cfg token csrf mutation (operator_revoke env cfg token store) = Inl riskUnauthorized"
proof -
  have "find_by fst k (filter (\<lambda>e. fst e \<noteq> k) xs) = None" for k :: string and xs :: operator_store
    by (induction xs) auto
  then show ?thesis by (simp add: operator_validate_def operator_revoke_def)
qed

lemma apply_control_audits:
  "apply_control env revoke input operator db = (res, db') \<Longrightarrow> operatorAudits db' = operatorAudits db"
  by (auto simp: apply_control_def insert_control_def Let_def split: option.splits sum.splits if_splits)

lemma release_control_audits:
  "release_control env i why operator db = Inr (c, db') \<Longrightarrow> operatorAudits db' = operatorAudits db"
  by (auto simp: release_control_def release_write_def split: option.splits if_splits)

lemma incident_update_audits:
  "incident_update env i input operator db = Inr (row, db') \<Longrightarrow> operatorAudits db' = operatorAudits db"
  by (auto simp: incident_update_def incident_write_def split: option.splits if_splits)

definition operator_authorised :: "risk_env \<Rightarrow> risk_config \<Rightarrow> operator_store \<Rightarrow> operator_request \<Rightarrow> string \<Rightarrow> bool" where
  "operator_authorised env cfg store r op \<longleftrightarrow>
     (\<exists>v until c. find_by fst (operator_key env cfg (request_token r)) store = Some (operator_key env cfg (request_token r), v, until)
      \<and> rk_now env < until \<and> oi_role v = ''SECURITY_OPERATOR'' \<and> oi_operatorId v = op
      \<and> request_csrf r = Some c \<and> rk_sha256 env c = os_csrfHash v)"

definition audit_added :: "risk_db \<Rightarrow> risk_db \<Rightarrow> string \<Rightarrow> string \<Rightarrow> string \<Rightarrow> bool" where
  "audit_added db db' op action target \<longleftrightarrow>
     (\<exists>a. operatorAudits db' = operatorAudits db @ [a] \<and> oa_operatorId a = op \<and> oa_action a = action \<and> oa_targetId a = target)"

lemma validated_operator:
  "operator_validate env cfg (request_token r) (request_csrf r) True store = Inr op \<Longrightarrow>
     operator_authorised env cfg store r (oi_operatorId op)"
  by (drule operator_validate_Inr) (auto simp: operator_authorised_def operator_identity.defs)

lemma operator_apply_audited:
  assumes "operator_apply env uuid cfg revoke r input store db = (out, db')"
  shows "(db' \<noteq> db \<longrightarrow> (\<exists>op. operator_authorised env cfg store r op))
    \<and> (\<forall>c. out = Inr c \<longrightarrow> (\<exists>op. operator_authorised env cfg store r op \<and> audit_added db db' op ''CONTROL_APPLY'' (cl_id c)))"
  using assms validated_operator [of env cfg r store]
  by (fastforce simp: operator_apply_def audit_added_def operator_audit_row_def dest: apply_control_audits
      split: sum.splits prod.splits if_splits)

lemma operator_release_audited:
  assumes "operator_release env uuid cfg r i reason store db = Inr (c, db')"
  shows "\<exists>op. operator_authorised env cfg store r op \<and> audit_added db db' op ''CONTROL_RELEASE'' (cl_id c)"
  using assms validated_operator [of env cfg r store]
  by (fastforce simp: operator_release_def audit_added_def operator_audit_row_def res_simps dest: release_control_audits)

lemma operator_incident_audited:
  assumes "operator_incident env uuid cfg r i body store db = Inr (row, db')"
  shows "\<exists>op. operator_authorised env cfg store r op \<and> audit_added db db' op ''INCIDENT_UPDATE'' (in_id row)"
  using assms validated_operator [of env cfg r store]
  by (fastforce simp: operator_incident_def audit_added_def operator_audit_row_def res_simps dest: incident_update_audits)

section \<open>A sample session\<close>

definition demo_operator_store :: operator_store where
  "demo_operator_store =
     (case bootstrap (demo_risk_env ''o'' 1000) demo_risk_cfg ''boot'' [] of Inr (_, store) \<Rightarrow> store | Inl _ \<Rightarrow> [])"

definition demo_operator_request :: operator_request where
  "demo_operator_request = \<lparr>or_session = Some ''o'', or_csrf = Some ''ot'', or_correlationId = None\<rparr>"

definition demo_apply :: "controlType \<Rightarrow> apply_input" where
  "demo_apply t =
     \<lparr>ap_idempotencyKey = ''key-key-key-key-'', ap_type = t, ap_scopeType = SCOPE_CUSTOMER, ap_scopeId = ''alice-01'',
      ap_reasonCode = ''FRAUD'', ap_expiresAt = 90000, ap_incidentId = None\<rparr>"

text \<open>A control whose session revocation the identity service refuses stays in force without an audit entry.\<close>

lemma failed_revocation_unaudited:
  "(case operator_apply (demo_risk_env ''a'' 2000) (\<lambda>_. True) demo_risk_cfg (\<lambda>_ _ _. False) demo_operator_request
      (demo_apply CT_SESSION_REVOKE) demo_operator_store empty_risk_db of
      (out, db) \<Rightarrow> out = Inl identityControlUnavailable \<and> length (controlActions db) = 1 \<and> operatorAudits db = [])"
  by code_simp

section \<open>Properties\<close>

text \<open>C22: operators change controls and incidents only inside a live session and with the token bound to it, and every
  change they are told of is on the audit trail: whenever one of the three operations changes the database, the
  caller's session is in the store, has not expired, has the operator role and matches the change token, and a
  successful answer leaves exactly one new audit entry under that session's operator.\<close>

theorem operator_changes_audited:
  "(\<forall>revoke input out db'. operator_apply env uuid cfg revoke r input store db = (out, db') \<longrightarrow>
      (db' \<noteq> db \<longrightarrow> (\<exists>op. operator_authorised env cfg store r op))
      \<and> (\<forall>c. out = Inr c \<longrightarrow> (\<exists>op. operator_authorised env cfg store r op \<and> audit_added db db' op ''CONTROL_APPLY'' (cl_id c))))
   \<and> (\<forall>i reason c db'. operator_release env uuid cfg r i reason store db = Inr (c, db') \<longrightarrow>
      (\<exists>op. operator_authorised env cfg store r op \<and> audit_added db db' op ''CONTROL_RELEASE'' (cl_id c)))
   \<and> (\<forall>i body row db'. operator_incident env uuid cfg r i body store db = Inr (row, db') \<longrightarrow>
      (\<exists>op. operator_authorised env cfg store r op \<and> audit_added db db' op ''INCIDENT_UPDATE'' (in_id row)))"
proof (rule conjI)
  show "\<forall>revoke input out db'. operator_apply env uuid cfg revoke r input store db = (out, db') \<longrightarrow>
      (db' \<noteq> db \<longrightarrow> (\<exists>op. operator_authorised env cfg store r op))
      \<and> (\<forall>c. out = Inr c \<longrightarrow> (\<exists>op. operator_authorised env cfg store r op \<and> audit_added db db' op ''CONTROL_APPLY'' (cl_id c)))"
    by (intro allI impI) (rule operator_apply_audited)
qed (auto dest: operator_release_audited operator_incident_audited)

theorem operator_changes_audited_witness:
  "\<exists>c db'. operator_apply (demo_risk_env ''a'' 2000) (\<lambda>_. True) demo_risk_cfg (\<lambda>_ _ _. True) demo_operator_request
       (demo_apply CT_TEMPORARY_BLOCK) demo_operator_store empty_risk_db = (Inr c, db')
     \<and> (\<exists>op. audit_added empty_risk_db db' op ''CONTROL_APPLY'' (cl_id c))"
proof -
  let ?run = "operator_apply (demo_risk_env ''a'' 2000) (\<lambda>_. True) demo_risk_cfg (\<lambda>_ _ _. True) demo_operator_request
       (demo_apply CT_TEMPORARY_BLOCK) demo_operator_store empty_risk_db"
  have "(case ?run of (Inr c, _) \<Rightarrow> True | _ \<Rightarrow> False)" by code_simp
  then obtain c db' where run: "?run = (Inr c, db')" by (auto split: prod.splits sum.splits)
  have "\<exists>op. audit_added empty_risk_db db' op ''CONTROL_APPLY'' (cl_id c)"
    using operator_changes_audited [THEN conjunct1, THEN spec, THEN spec, THEN spec, THEN spec, THEN mp, OF run] by auto
  with run show ?thesis by blast
qed

end
