(* ===== verification/IdentityStore.thy ===== *)
theory IdentityStore
  imports Configuration
begin

text \<open>
  The state of the identity service: users, credentials and the audit of authentication in the database
  (\<open>services/identity/prisma/schema.prisma\<close>), short-lived values in Redis (\<open>redis/redis.service.ts\<close>), the security
  helpers (\<open>common/security/security.ts\<close>) and sessions (\<open>auth/sessions/session.service.ts\<close>).  A value stored as JSON
  is the object it denotes.
\<close>

section \<open>Redis\<close>

text \<open>A key with its value and the time it expires, if it does.\<close>

type_synonym 'v rstore = "(string \<times> 'v \<times> time option) list"

definition rlive :: "time \<Rightarrow> 'v rstore \<Rightarrow> string \<Rightarrow> ('v \<times> time option) option" where
  "rlive now store k =
     (case find_by fst k store of
        Some (_, v, until) \<Rightarrow> if (case until of None \<Rightarrow> True | Some t \<Rightarrow> now < t) then Some (v, until) else None
      | None \<Rightarrow> None)"

definition rget :: "time \<Rightarrow> 'v rstore \<Rightarrow> string \<Rightarrow> 'v option" where
  "rget now store k = map_option fst (rlive now store k)"

definition rdel :: "string \<Rightarrow> 'v rstore \<Rightarrow> 'v rstore" where
  "rdel k store = filter (\<lambda>e. fst e \<noteq> k) store"

definition rset :: "time \<Rightarrow> string \<Rightarrow> 'v \<Rightarrow> int \<Rightarrow> 'v rstore \<Rightarrow> 'v rstore" where
  "rset now k v ttlSeconds store = (k, v, Some (now + ttlSeconds * 1000)) # rdel k store"

definition rset_keep :: "time \<Rightarrow> string \<Rightarrow> 'v \<Rightarrow> 'v rstore \<Rightarrow> 'v rstore" where
  "rset_keep now k v store =
     (k, v, case rlive now store k of Some (_, until) \<Rightarrow> until | None \<Rightarrow> None) # rdel k store"

definition rincr :: "time \<Rightarrow> string \<Rightarrow> int \<Rightarrow> int rstore \<Rightarrow> int \<times> int rstore" where
  "rincr now k ttlSeconds store =
     (case rlive now store k of
        Some (v, until) \<Rightarrow> (v + 1, (k, v + 1, if v + 1 = 1 then Some (now + ttlSeconds * 1000) else until) # rdel k store)
      | None \<Rightarrow> (1, (k, 1, Some (now + ttlSeconds * 1000)) # rdel k store))"

lemma find_rdel [simp]: "find_by fst j (rdel k store) = (if j = k then None else find_by fst j store)"
  by (induction store) (auto simp: rdel_def)

lemma rlive_rdel [simp]: "rlive now (rdel k store) j = (if j = k then None else rlive now store j)"
  by (simp add: rlive_def)

lemma rlive_Cons [simp]:
  "rlive now ((k, v, until) # store) j =
     (if k = j then (if (case until of None \<Rightarrow> True | Some t \<Rightarrow> now < t) then Some (v, until) else None) else rlive now store j)"
  by (simp add: rlive_def)

lemma rget_rdel [simp]: "rget now (rdel k store) j = (if j = k then None else rget now store j)"
  by (simp add: rget_def)

lemma rget_rset [simp]:
  "rget now' (rset now k v ttl store) j = (if j = k then if now' < now + ttl * 1000 then Some v else None else rget now' store j)"
  by (simp add: rget_def rset_def)

section \<open>Security helpers\<close>

definition maskPhone :: "string \<Rightarrow> string" where
  "maskPhone phone =
     (if length phone \<le> 7 then ''***''
      else take 3 phone @ replicate (length phone - 6) CHR ''*'' @ drop (length phone - 3) phone)"

text \<open>The digest, the keyed digest, the PIN hash and its check, the clock, fresh identifiers, random tokens and the
  random six-digit number are parameters.\<close>

record identity_env =
  id_sha256 :: "string \<Rightarrow> string"
  id_hmac :: "string \<Rightarrow> string \<Rightarrow> string"
  id_hashPin :: "string \<Rightarrow> string"
  id_verifyPin :: "string \<Rightarrow> string \<Rightarrow> bool"
  id_now :: time
  id_uuid :: "nat \<Rightarrow> string"
  id_token :: "nat \<Rightarrow> string"
  id_random :: int

definition maskDevice :: "identity_env \<Rightarrow> string option \<Rightarrow> string option" where
  "maskDevice env d =
     (case d of Some x \<Rightarrow> if x = [] then None else Some (''device:'' @ take 12 (id_sha256 env x)) | None \<Rightarrow> None)"

section \<open>Rows and state\<close>

datatype userStatus = US_PENDING | US_ACTIVE | US_LOCKED | US_DISABLED

record user_row =
  u_id :: string
  u_phoneE164 :: string
  u_preferredLanguage :: string
  u_kycTier :: int
  u_status :: userStatus
  u_consentAcceptedAt :: time
  u_phoneVerifiedAt :: "time option"
  u_lastAuthenticatedAt :: "time option"
  u_failedLoginCount :: int
  u_lockedUntil :: "time option"

record pin_row =
  pn_userId :: string
  pn_pinHash :: string
  pn_algorithm :: string
  pn_rotatedAt :: "time option"

record passkey_row =
  pk_id :: string
  pk_userId :: string
  pk_credentialId :: string
  pk_publicKey :: string
  pk_counter :: int
  pk_transports :: "string list"
  pk_deviceType :: string
  pk_backedUp :: bool
  pk_nickname :: "string option"
  pk_lastUsedAt :: "time option"
  pk_revokedAt :: "time option"

record auth_event =
  ae_id :: string
  ae_userId :: "string option"
  ae_eventType :: string
  ae_outcome :: string
  ae_correlationId :: string
  ae_maskedActor :: string
  ae_ipHash :: "string option"
  ae_userAgentHash :: "string option"
  ae_createdAt :: time

datatype otpPurpose = ONBOARDING | FALLBACK

record otp_challenge =
  och_phoneHash :: string
  och_codeHash :: string
  och_purpose :: otpPurpose
  och_attempts :: int
  och_preferredLanguage :: "string option"
  och_consentAcceptedAt :: "time option"

datatype authenticationMethod = PIN_OTP | PASSKEY

record stored_session =
  ss_userId :: string
  ss_createdAt :: time
  ss_lastSeenAt :: time
  ss_absoluteExpiresAt :: time
  ss_csrfHash :: string
  ss_authenticationMethod :: authenticationMethod
  ss_device :: "string option"
  ss_version :: int

text \<open>One store per key space; the first part of a key tells them apart.  \<open>st_riskEvents\<close> are the event types sent to the
  risk service, whose answer is ignored.\<close>

record identity_state =
  st_users :: "user_row list"
  st_pins :: "pin_row list"
  st_passkeys :: "passkey_row list"
  st_authEvents :: "auth_event list"
  st_riskEvents :: "(string \<times> string) list"
  st_cooldowns :: "string rstore"
  st_challenges :: "otp_challenge rstore"
  st_counters :: "int rstore"
  st_locks :: "string rstore"
  st_sessions :: "stored_session rstore"
  st_enrollments :: "string rstore"
  st_registrations :: "(string \<times> string) rstore"
  st_authentications :: "string rstore"

definition identity_key :: "identity_config \<Rightarrow> string list \<Rightarrow> string" where
  "identity_key cfg parts = ic_redisKeyPrefix cfg @ join_with '':'' parts"

datatype identity_error =
    AuthError string nat
  | IdentityZodError
  | IdentityRecordNotFound
  | IdentityUniqueViolation
  | WebAuthnError

definition unauthenticatedError :: identity_error where
  "unauthenticatedError = AuthError ''UNAUTHENTICATED'' 401"

definition invalidCredentialsError :: identity_error where
  "invalidCredentialsError = AuthError ''INVALID_CREDENTIALS'' 401"

text \<open>An operation gives a result or an error and the state it leaves, in both cases.\<close>

type_synonym 'a identity_op = "identity_state \<Rightarrow> (identity_error, 'a) res \<times> identity_state"

definition opThen :: "'a identity_op \<Rightarrow> ('a \<Rightarrow> 'b identity_op) \<Rightarrow> 'b identity_op" where
  "opThen m f st = (case m st of (Inl err, st') \<Rightarrow> (Inl err, st') | (Inr x, st') \<Rightarrow> f x st')"

definition opFail :: "identity_error \<Rightarrow> 'a identity_op" where
  "opFail err st = (Inl err, st)"

definition opReturn :: "'a \<Rightarrow> 'a identity_op" where
  "opReturn x st = (Inr x, st)"

definition opModify :: "(identity_state \<Rightarrow> identity_state) \<Rightarrow> unit identity_op" where
  "opModify f st = (Inr (), f st)"

definition opRead :: "(identity_state \<Rightarrow> 'a) \<Rightarrow> 'a identity_op" where
  "opRead f st = (Inr (f st), st)"

section \<open>Authentication events\<close>

record request_context =
  cx_correlationId :: string
  cx_ipHash :: "string option"
  cx_userAgent :: "string option"

definition nonempty :: "string option \<Rightarrow> bool" where
  "nonempty x = (case x of Some s \<Rightarrow> s \<noteq> [] | None \<Rightarrow> False)"

definition risk_event_type :: "string \<Rightarrow> string \<Rightarrow> string" where
  "risk_event_type eventType outcome =
     (let failed = (outcome = ''FAILURE'' \<or> outcome = ''LOCKED'') in
      if eventType = ''SESSION_CONTROL'' then ''SESSION_REVOKED''
      else if has_substring ''OTP'' eventType then (if failed then ''OTP_FAILURE'' else ''LOGIN_SUCCESS'')
      else if eventType = ''TRANSFER_STEP_UP'' then (if failed then ''PIN_FAILURE'' else ''LOGIN_SUCCESS'')
      else if failed then ''LOGIN_FAILURE''
      else if has_substring ''SESSION'' eventType then ''SESSION_CREATED'' else ''LOGIN_SUCCESS'')"

definition risk_event_severity :: "string \<Rightarrow> string" where
  "risk_event_severity outcome =
     (if outcome = ''LOCKED'' then ''HIGH'' else if outcome = ''FAILURE'' then ''MEDIUM'' else ''INFO'')"

definition record_event :: "identity_env \<Rightarrow> request_context \<Rightarrow> string option \<Rightarrow> string option \<Rightarrow> string \<Rightarrow> string \<Rightarrow> unit identity_op" where
  "record_event env cx userId phone eventType outcome =
     opModify (\<lambda>st. st\<lparr>st_authEvents := st_authEvents st @
        [\<lparr>ae_id = id_uuid env (length (st_authEvents st)), ae_userId = userId, ae_eventType = eventType, ae_outcome = outcome,
          ae_correlationId = cx_correlationId cx,
          ae_maskedActor = (case phone of Some p \<Rightarrow> if p = [] then ''anonymous'' else maskPhone p | None \<Rightarrow> ''anonymous''),
          ae_ipHash = cx_ipHash cx,
          ae_userAgentHash = (if nonempty (cx_userAgent cx) then map_option (id_sha256 env) (cx_userAgent cx) else None),
          ae_createdAt = id_now env\<rparr>],
        st_riskEvents := st_riskEvents st @ [(risk_event_type eventType outcome, risk_event_severity outcome)]\<rparr>)"

section \<open>Sessions\<close>

record masked_user =
  mu_id :: string
  mu_phoneMasked :: string
  mu_preferredLanguage :: string
  mu_kycTier :: int
  mu_status :: userStatus
  mu_phoneVerified :: bool

record session_response =
  sr_authenticationMethod :: authenticationMethod
  sr_expiresAt :: time
  sr_user :: masked_user

record created_session =
  cr_sessionId :: string
  cr_csrfToken :: string
  cr_maxAgeSeconds :: int
  cr_session :: session_response

definition sessionKey :: "identity_env \<Rightarrow> identity_config \<Rightarrow> string \<Rightarrow> string" where
  "sessionKey env cfg sessionId = identity_key cfg [''session'', id_sha256 env sessionId]"

definition safeUser :: "string \<Rightarrow> masked_user identity_op" where
  "safeUser userId st =
     (case find_by u_id userId (st_users st) of
        None \<Rightarrow> (Inl unauthenticatedError, st)
      | Some u \<Rightarrow>
          if u_status u \<noteq> US_ACTIVE then (Inl unauthenticatedError, st)
          else (Inr \<lparr>mu_id = u_id u, mu_phoneMasked = maskPhone (u_phoneE164 u), mu_preferredLanguage = u_preferredLanguage u,
                     mu_kycTier = u_kycTier u, mu_status = u_status u, mu_phoneVerified = (u_phoneVerifiedAt u \<noteq> None)\<rparr>, st))"

definition new_session :: "identity_env \<Rightarrow> identity_config \<Rightarrow> string \<Rightarrow> authenticationMethod \<Rightarrow> string option \<Rightarrow> stored_session" where
  "new_session env cfg userId authMethod deviceId =
     \<lparr>ss_userId = userId, ss_createdAt = id_now env, ss_lastSeenAt = id_now env,
      ss_absoluteExpiresAt = id_now env + sessionAbsoluteTtlSeconds cfg * 1000, ss_csrfHash = id_sha256 env (id_token env 1),
      ss_authenticationMethod = authMethod, ss_device = maskDevice env deviceId, ss_version = 1\<rparr>"

definition session_create ::
  "identity_env \<Rightarrow> identity_config \<Rightarrow> string \<Rightarrow> authenticationMethod \<Rightarrow> string option \<Rightarrow> created_session identity_op" where
  "session_create env cfg userId authMethod deviceId =
     (let sessionId = id_token env 0; stored = new_session env cfg userId authMethod deviceId in
      opThen (opModify (\<lambda>st. st\<lparr>st_sessions :=
        rset (id_now env) (sessionKey env cfg sessionId) stored (sessionIdleTtlSeconds cfg) (st_sessions st)\<rparr>)) (\<lambda>_.
      opThen (safeUser userId) (\<lambda>user.
      opReturn \<lparr>cr_sessionId = sessionId, cr_csrfToken = id_token env 1, cr_maxAgeSeconds = sessionAbsoluteTtlSeconds cfg,
                cr_session = \<lparr>sr_authenticationMethod = authMethod, sr_expiresAt = ss_absoluteExpiresAt stored, sr_user = user\<rparr>\<rparr>)))"

definition session_read :: "identity_env \<Rightarrow> identity_config \<Rightarrow> string \<Rightarrow> stored_session identity_op" where
  "session_read env cfg sessionId st =
     (let k = sessionKey env cfg sessionId in
      case rget (id_now env) (st_sessions st) k of
        None \<Rightarrow> (Inl unauthenticatedError, st)
      | Some v \<Rightarrow>
          if ss_absoluteExpiresAt v \<le> id_now env
          then (Inl unauthenticatedError, st\<lparr>st_sessions := rdel k (st_sessions st)\<rparr>)
          else (Inr v, st))"

definition session_get :: "identity_env \<Rightarrow> identity_config \<Rightarrow> string \<Rightarrow> session_response identity_op" where
  "session_get env cfg sessionId =
     opThen (session_read env cfg sessionId) (\<lambda>v.
     let absoluteRemaining = max 1 ((ss_absoluteExpiresAt v - id_now env) div 1000);
         v' = v\<lparr>ss_lastSeenAt := id_now env\<rparr>
     in opThen (opModify (\<lambda>st. st\<lparr>st_sessions := rset (id_now env) (sessionKey env cfg sessionId) v'
                  (min (sessionIdleTtlSeconds cfg) absoluteRemaining) (st_sessions st)\<rparr>)) (\<lambda>_.
        opThen (safeUser (ss_userId v')) (\<lambda>user.
        opReturn \<lparr>sr_authenticationMethod = ss_authenticationMethod v', sr_expiresAt = ss_absoluteExpiresAt v', sr_user = user\<rparr>)))"

definition session_subject :: "identity_env \<Rightarrow> identity_config \<Rightarrow> string \<Rightarrow> string identity_op" where
  "session_subject env cfg sessionId = opThen (session_read env cfg sessionId) (\<lambda>v. opReturn (ss_userId v))"

definition requireCsrf :: "identity_env \<Rightarrow> identity_config \<Rightarrow> string \<Rightarrow> string \<Rightarrow> stored_session identity_op" where
  "requireCsrf env cfg sessionId csrfToken =
     opThen (session_read env cfg sessionId) (\<lambda>v.
       if \<not> timingSafeStringEqual (ss_csrfHash v) (id_sha256 env csrfToken) then opFail (AuthError ''INVALID_CSRF'' 403)
       else opReturn v)"

definition session_authorize :: "identity_env \<Rightarrow> identity_config \<Rightarrow> string \<Rightarrow> string \<Rightarrow> string identity_op" where
  "session_authorize env cfg sessionId csrfToken =
     opThen (requireCsrf env cfg sessionId csrfToken) (\<lambda>v. opReturn (ss_userId v))"

definition session_revoke :: "identity_env \<Rightarrow> identity_config \<Rightarrow> string \<Rightarrow> string \<Rightarrow> unit identity_op" where
  "session_revoke env cfg sessionId csrfToken =
     opThen (requireCsrf env cfg sessionId csrfToken) (\<lambda>_.
       opModify (\<lambda>st. st\<lparr>st_sessions := rdel (sessionKey env cfg sessionId) (st_sessions st)\<rparr>))"

definition revokeTrusted :: "identity_env \<Rightarrow> identity_config \<Rightarrow> string \<Rightarrow> string option identity_op" where
  "revokeTrusted env cfg sessionId st =
     (case session_subject env cfg sessionId st of
        (Inr userId, st') \<Rightarrow> (Inr (Some userId), st'\<lparr>st_sessions := rdel (sessionKey env cfg sessionId) (st_sessions st')\<rparr>)
      | (Inl (AuthError code status), st') \<Rightarrow> if status = 401 then (Inr None, st') else (Inl (AuthError code status), st')
      | (Inl err, st') \<Rightarrow> (Inl err, st'))"

definition session_control ::
  "identity_env \<Rightarrow> identity_config \<Rightarrow> string \<Rightarrow> (string \<Rightarrow> bool) \<Rightarrow> string \<Rightarrow> string \<Rightarrow> request_context \<Rightarrow> bool identity_op" where
  "session_control env cfg sessionId uuid controlId reasonCode cx =
     (if length sessionId < 32 \<or> 256 < length sessionId then opFail IdentityZodError
      else if \<not> uuid controlId \<or> \<not> (list_all (\<lambda>c. is_upper_alnum c \<or> c = CHR ''_'') reasonCode \<and> 3 \<le> length reasonCode \<and> length reasonCode \<le> 64)
      then opFail IdentityZodError
      else opThen (revokeTrusted env cfg sessionId) (\<lambda>userId.
        case userId of
          Some u \<Rightarrow> if u = [] then opReturn False
                   else opThen (record_event env (cx\<lparr>cx_ipHash := None, cx_userAgent := None\<rparr>) (Some u) None ''SESSION_CONTROL'' ''ACCEPTED'')
                          (\<lambda>_. opReturn True)
        | None \<Rightarrow> opReturn False))"

end
