(* ===== verification/IdentityAuth.thy ===== *)
theory IdentityAuth
  imports IdentityStore
begin

text \<open>
  One-time codes (\<open>auth/otp/otp.service.ts\<close>), onboarding (\<open>auth/onboarding/onboarding.service.ts\<close>), the PIN login
  (\<open>auth/fallback/fallback.service.ts\<close>) and the step-up of a transfer
  (\<open>auth/step-up/transfer-step-up.service.ts\<close>).
\<close>

section \<open>One-time codes\<close>

definition purpose_text :: "otpPurpose \<Rightarrow> string" where
  "purpose_text p = (case p of ONBOARDING \<Rightarrow> ''ONBOARDING'' | FALLBACK \<Rightarrow> ''FALLBACK'')"

definition phoneHash :: "identity_env \<Rightarrow> identity_config \<Rightarrow> string \<Rightarrow> string" where
  "phoneHash env cfg phone = id_hmac env phone (ic_internalToken cfg)"

definition challenge_key :: "identity_config \<Rightarrow> string \<Rightarrow> string" where
  "challenge_key cfg challengeId = identity_key cfg [''otp'', ''challenge'', challengeId]"

definition count_up :: "identity_env \<Rightarrow> string \<Rightarrow> int \<Rightarrow> int identity_op" where
  "count_up env k ttlSeconds st =
     (case rincr (id_now env) k ttlSeconds (st_counters st) of (n, counters) \<Rightarrow> (Inr n, st\<lparr>st_counters := counters\<rparr>))"

definition rateLimitAllows :: "identity_env \<Rightarrow> identity_config \<Rightarrow> string \<Rightarrow> string \<Rightarrow> bool identity_op" where
  "rateLimitAllows env cfg phone ip =
     opThen (count_up env (identity_key cfg [''otp'', ''rate'', ''phone'', phone]) 3600) (\<lambda>phoneCount.
     opThen (count_up env (identity_key cfg [''otp'', ''rate'', ''ip'', ip]) 3600) (\<lambda>ipCount.
     opReturn (phoneCount \<le> otpRequestLimitPerHour cfg \<and> ipCount \<le> otpRequestLimitPerHour cfg * 4)))"

definition pad_code :: "int \<Rightarrow> string" where
  "pad_code n = (let s = dec_of_int n in replicate (6 - length s) CHR ''0'' @ s)"

definition exposeForDemo :: "identity_config \<Rightarrow> string \<Rightarrow> string option" where
  "exposeForDemo cfg c = (if demoAuthEnabled cfg then Some c else None)"

record otp_request_result =
  or_challengeId :: string
  or_demoOtp :: "string option"

definition otp_request ::
  "identity_env \<Rightarrow> identity_config \<Rightarrow> string \<Rightarrow> otpPurpose \<Rightarrow> string \<Rightarrow> string option \<Rightarrow> time option \<Rightarrow> otp_request_result identity_op" where
  "otp_request env cfg phone purpose ipHash language consent =
     (let hash = phoneHash env cfg phone;
          cooldownKey = identity_key cfg [''otp'', ''cooldown'', purpose_text purpose, hash];
          challengeId = id_uuid env 0;
          c = pad_code (id_random env);
          challenge = \<lparr>och_phoneHash = hash, och_codeHash = id_hmac env c (ic_internalToken cfg), och_purpose = purpose,
                       och_attempts = 0, och_preferredLanguage = language, och_consentAcceptedAt = consent\<rparr>
      in opThen (opRead (\<lambda>st. rget (id_now env) (st_cooldowns st) cooldownKey)) (\<lambda>existing.
         if nonempty existing then opReturn \<lparr>or_challengeId = the existing, or_demoOtp = None\<rparr>
         else opThen (rateLimitAllows env cfg hash ipHash) (\<lambda>allowed.
           if \<not> allowed then opReturn \<lparr>or_challengeId = challengeId, or_demoOtp = None\<rparr>
           else opThen (opModify (\<lambda>st. st\<lparr>st_challenges :=
                  rset (id_now env) (challenge_key cfg challengeId) challenge (otpTtlSeconds cfg) (st_challenges st),
                  st_cooldowns := rset (id_now env) cooldownKey challengeId (otpResendCooldownSeconds cfg) (st_cooldowns st)\<rparr>)) (\<lambda>_.
                opReturn \<lparr>or_challengeId = challengeId, or_demoOtp = exposeForDemo cfg c\<rparr>))))"

definition invalidOtpError :: identity_error where
  "invalidOtpError = AuthError ''INVALID_OTP'' 401"

definition otp_matches :: "identity_env \<Rightarrow> identity_config \<Rightarrow> string \<Rightarrow> string \<Rightarrow> otpPurpose \<Rightarrow> otp_challenge \<Rightarrow> bool" where
  "otp_matches env cfg phone otp purpose ch =
     (timingSafeStringEqual (och_phoneHash ch) (phoneHash env cfg phone) \<and> och_purpose ch = purpose
      \<and> timingSafeStringEqual (och_codeHash ch) (id_hmac env otp (ic_internalToken cfg)))"

text \<open>A verification reads the challenge with one command of Redis and, after the comparison, writes or deletes it with
  another one; it writes what it read, with one attempt more.\<close>

definition otp_read :: "identity_env \<Rightarrow> identity_config \<Rightarrow> string \<Rightarrow> identity_state \<Rightarrow> otp_challenge option" where
  "otp_read env cfg challengeId st = rget (id_now env) (st_challenges st) (challenge_key cfg challengeId)"

definition otp_settle :: "identity_env \<Rightarrow> identity_config \<Rightarrow> string \<Rightarrow> string \<Rightarrow> string \<Rightarrow> otpPurpose \<Rightarrow> otp_challenge \<Rightarrow> otp_challenge identity_op" where
  "otp_settle env cfg phone challengeId otp purpose ch st =
     (let k = challenge_key cfg challengeId in
      if \<not> otp_matches env cfg phone otp purpose ch then
        (let ch' = ch\<lparr>och_attempts := och_attempts ch + 1\<rparr> in
         (Inl invalidOtpError,
          st\<lparr>st_challenges := if otpMaxAttempts cfg \<le> och_attempts ch' then rdel k (st_challenges st)
                             else rset_keep (id_now env) k ch' (st_challenges st)\<rparr>))
      else (Inr ch, st\<lparr>st_challenges := rdel k (st_challenges st)\<rparr>))"

definition otp_verify :: "identity_env \<Rightarrow> identity_config \<Rightarrow> string \<Rightarrow> string \<Rightarrow> string \<Rightarrow> otpPurpose \<Rightarrow> otp_challenge identity_op" where
  "otp_verify env cfg phone challengeId otp purpose st =
     (case otp_read env cfg challengeId st of
        None \<Rightarrow> (Inl invalidOtpError, st)
      | Some ch \<Rightarrow> otp_settle env cfg phone challengeId otp purpose ch st)"

lemmas otp_verify_defs = otp_verify_def otp_read_def otp_settle_def

section \<open>Onboarding\<close>

definition PIN_ALGORITHM :: string where
  "PIN_ALGORITHM = ''argon2id-v=19-m=19456,t=2,p=1''"

definition onboarding_requestOtp ::
  "identity_env \<Rightarrow> identity_config \<Rightarrow> string \<Rightarrow> string \<Rightarrow> request_context \<Rightarrow> otp_request_result identity_op" where
  "onboarding_requestOtp env cfg phone language cx =
     opThen (otp_request env cfg phone ONBOARDING (case cx_ipHash cx of Some h \<Rightarrow> h | None \<Rightarrow> []) (Some language) (Some (id_now env))) (\<lambda>result.
     opThen (record_event env cx None (Some phone) ''OTP_REQUESTED'' ''ACCEPTED'') (\<lambda>_.
     opReturn result))"

definition onboard_user :: "identity_env \<Rightarrow> string \<Rightarrow> otp_challenge \<Rightarrow> user_row option \<Rightarrow> user_row identity_op" where
  "onboard_user env phone ch existing st =
     (let consent = (case och_consentAcceptedAt ch of Some t \<Rightarrow> t | None \<Rightarrow> id_now env) in
      case existing of
        Some u \<Rightarrow>
          let f = (\<lambda>r. r\<lparr>u_phoneVerifiedAt := Some (id_now env),
                        u_preferredLanguage := (case och_preferredLanguage ch of Some l \<Rightarrow> l | None \<Rightarrow> u_preferredLanguage r),
                        u_consentAcceptedAt := consent\<rparr>)
          in (Inr (f u), st\<lparr>st_users := update_by u_id (u_id u) f (st_users st)\<rparr>)
      | None \<Rightarrow>
          let u = \<lparr>u_id = id_uuid env 1, u_phoneE164 = phone,
                   u_preferredLanguage = (case och_preferredLanguage ch of Some l \<Rightarrow> l | None \<Rightarrow> ''EN''), u_kycTier = 0,
                   u_status = US_PENDING, u_consentAcceptedAt = consent, u_phoneVerifiedAt = Some (id_now env),
                   u_lastAuthenticatedAt = None, u_failedLoginCount = 0, u_lockedUntil = None\<rparr>
          in if list_ex (\<lambda>r. u_id r = u_id u \<or> u_phoneE164 r = phone) (st_users st) then (Inl IdentityUniqueViolation, st)
             else (Inr u, st\<lparr>st_users := st_users st @ [u]\<rparr>))"

record enrollment_result =
  en_enrollmentToken :: string
  en_expiresInSeconds :: int
  en_user :: masked_user

definition enrollment_key :: "identity_env \<Rightarrow> identity_config \<Rightarrow> string \<Rightarrow> string" where
  "enrollment_key env cfg token = identity_key cfg [''enrollment'', id_sha256 env token]"

definition onboarding_verifyOtp ::
  "identity_env \<Rightarrow> identity_config \<Rightarrow> string \<Rightarrow> string \<Rightarrow> string \<Rightarrow> request_context \<Rightarrow> enrollment_result identity_op" where
  "onboarding_verifyOtp env cfg phone challengeId otp cx =
     opThen (otp_verify env cfg phone challengeId otp ONBOARDING) (\<lambda>ch.
     opThen (opRead (\<lambda>st. find_by u_phoneE164 phone (st_users st))) (\<lambda>existing.
     if (case existing of Some u \<Rightarrow> u_status u \<noteq> US_PENDING | None \<Rightarrow> False) then opFail (AuthError ''ONBOARDING_UNAVAILABLE'' 409)
     else opThen (onboard_user env phone ch existing) (\<lambda>user.
     opThen (opModify (\<lambda>st. st\<lparr>st_enrollments :=
       rset (id_now env) (enrollment_key env cfg (id_token env 0)) (u_id user) 600 (st_enrollments st)\<rparr>)) (\<lambda>_.
     opThen (record_event env cx (Some (u_id user)) (Some phone) (if existing = None then ''USER_CREATED'' else ''OTP_VERIFIED'') ''SUCCESS'') (\<lambda>_.
     opReturn \<lparr>en_enrollmentToken = id_token env 0, en_expiresInSeconds = 600,
               en_user = \<lparr>mu_id = u_id user, mu_phoneMasked = maskPhone (u_phoneE164 user), mu_preferredLanguage = u_preferredLanguage user,
                          mu_kycTier = u_kycTier user, mu_status = u_status user, mu_phoneVerified = True\<rparr>\<rparr>)))))"

text \<open>The transaction: the PIN is stored and the user activated, or neither.\<close>

definition upsert_pin :: "identity_env \<Rightarrow> string \<Rightarrow> string \<Rightarrow> pin_row list \<Rightarrow> pin_row list" where
  "upsert_pin env userId hash pins =
     (if find_by pn_userId userId pins = None
      then pins @ [\<lparr>pn_userId = userId, pn_pinHash = hash, pn_algorithm = PIN_ALGORITHM, pn_rotatedAt = None\<rparr>]
      else update_by pn_userId userId (\<lambda>p. p\<lparr>pn_pinHash := hash, pn_algorithm := PIN_ALGORITHM, pn_rotatedAt := Some (id_now env)\<rparr>) pins)"

definition activated :: "identity_env \<Rightarrow> user_row \<Rightarrow> user_row" where
  "activated env u =
     u\<lparr>u_status := US_ACTIVE, u_failedLoginCount := 0, u_lockedUntil := None, u_lastAuthenticatedAt := Some (id_now env)\<rparr>"

definition pin_transaction :: "identity_env \<Rightarrow> string \<Rightarrow> string \<Rightarrow> user_row identity_op" where
  "pin_transaction env userId hash st =
     (case find_by u_id userId (st_users st) of
        None \<Rightarrow> (Inl IdentityRecordNotFound, st)
      | Some u \<Rightarrow>
          if u_status u \<noteq> US_PENDING then (Inl IdentityRecordNotFound, st)
          else (Inr (activated env u),
                st\<lparr>st_pins := upsert_pin env userId hash (st_pins st),
                   st_users := update_by u_id userId (activated env) (st_users st)\<rparr>))"

definition onboarding_createPin ::
  "identity_env \<Rightarrow> identity_config \<Rightarrow> string \<Rightarrow> string \<Rightarrow> string option \<Rightarrow> request_context \<Rightarrow> created_session identity_op" where
  "onboarding_createPin env cfg enrollmentToken pin deviceId cx =
     (let k = enrollment_key env cfg enrollmentToken in
      opThen (opRead (\<lambda>st. rget (id_now env) (st_enrollments st) k)) (\<lambda>raw.
      opThen (opModify (\<lambda>st. st\<lparr>st_enrollments := rdel k (st_enrollments st)\<rparr>)) (\<lambda>_.
      case raw of
        None \<Rightarrow> opFail (AuthError ''INVALID_ENROLLMENT'' 401)
      | Some userId \<Rightarrow>
          opThen (pin_transaction env userId (id_hashPin env pin)) (\<lambda>user.
          opThen (record_event env cx (Some userId) (Some (u_phoneE164 user)) ''PIN_CONFIGURED'' ''SUCCESS'') (\<lambda>_.
          session_create env cfg userId PIN_OTP deviceId)))))"

section \<open>PIN login\<close>

definition maxFailures :: int where
  "maxFailures = 5"

definition lockSeconds :: int where
  "lockSeconds = 300"

definition failed_login :: "identity_env \<Rightarrow> user_row \<Rightarrow> user_row \<Rightarrow> user_row" where
  "failed_login env user r =
     (let failures = u_failedLoginCount user + 1; locked = (maxFailures \<le> failures) in
      r\<lparr>u_failedLoginCount := failures, u_status := (if locked then US_LOCKED else u_status user),
        u_lockedUntil := (if locked then Some (id_now env + lockSeconds * 1000) else u_lockedUntil user)\<rparr>)"

definition fallback_verifyPin :: "identity_env \<Rightarrow> string \<Rightarrow> string \<Rightarrow> request_context \<Rightarrow> user_row identity_op" where
  "fallback_verifyPin env phone pin cx st =
     (case find_by u_phoneE164 phone (st_users st) of
        None \<Rightarrow> (Inl invalidCredentialsError, st)
      | Some user \<Rightarrow>
     (case find_by pn_userId (u_id user) (st_pins st) of
        None \<Rightarrow> (Inl invalidCredentialsError, st)
      | Some credential \<Rightarrow>
          if (case u_lockedUntil user of Some t \<Rightarrow> id_now env < t | None \<Rightarrow> False) then (Inl invalidCredentialsError, st)
          else if \<not> id_verifyPin env (pn_pinHash credential) pin \<or> u_status user \<noteq> US_ACTIVE \<and> u_status user \<noteq> US_LOCKED then
            opThen (opModify (\<lambda>st. st\<lparr>st_users := update_by u_id (u_id user) (failed_login env user) (st_users st)\<rparr>)) (\<lambda>_.
            opThen (record_event env cx (Some (u_id user)) (Some phone)
                     (if maxFailures \<le> u_failedLoginCount user + 1 then ''ACCOUNT_LOCKED'' else ''PIN_LOGIN_FAILED'') ''FAILURE'') (\<lambda>_.
            opFail invalidCredentialsError)) st
          else (Inr user, st)))"

definition fallback_requestOtp ::
  "identity_env \<Rightarrow> identity_config \<Rightarrow> string \<Rightarrow> string \<Rightarrow> request_context \<Rightarrow> otp_request_result identity_op" where
  "fallback_requestOtp env cfg phone pin cx =
     opThen (fallback_verifyPin env phone pin cx) (\<lambda>user.
     opThen (otp_request env cfg phone FALLBACK (case cx_ipHash cx of Some h \<Rightarrow> h | None \<Rightarrow> []) None None) (\<lambda>result.
     opThen (record_event env cx (Some (u_id user)) (Some phone) ''OTP_REQUESTED'' ''ACCEPTED'') (\<lambda>_.
     opReturn result)))"

definition fallback_login ::
  "identity_env \<Rightarrow> identity_config \<Rightarrow> string \<Rightarrow> string \<Rightarrow> string \<Rightarrow> string \<Rightarrow> string option \<Rightarrow> request_context \<Rightarrow> created_session identity_op" where
  "fallback_login env cfg phone pin challengeId otp deviceId cx =
     opThen (fallback_verifyPin env phone pin cx) (\<lambda>user.
     opThen (otp_verify env cfg phone challengeId otp FALLBACK) (\<lambda>_.
     opThen (opModify (\<lambda>st. st\<lparr>st_users := update_by u_id (u_id user) (activated env) (st_users st)\<rparr>)) (\<lambda>_.
     opThen (record_event env cx (Some (u_id user)) (Some phone) ''PIN_LOGIN_SUCCEEDED'' ''SUCCESS'') (\<lambda>_.
     session_create env cfg (u_id user) PIN_OTP deviceId))))"

section \<open>Step-up of a transfer\<close>

definition attempts_key :: "identity_env \<Rightarrow> identity_config \<Rightarrow> string \<Rightarrow> string" where
  "attempts_key env cfg userId = identity_key cfg [''transfer-step-up'', id_sha256 env userId]"

definition lock_key :: "identity_env \<Rightarrow> identity_config \<Rightarrow> string \<Rightarrow> string" where
  "lock_key env cfg userId = identity_key cfg [''transfer-step-up-lock'', id_sha256 env userId]"

definition pin_valid :: "identity_env \<Rightarrow> string \<Rightarrow> string \<Rightarrow> identity_state \<Rightarrow> bool" where
  "pin_valid env userId pin st =
     (case find_by u_id userId (st_users st) of
        None \<Rightarrow> False
      | Some u \<Rightarrow> u_status u = US_ACTIVE
          \<and> (case find_by pn_userId userId (st_pins st) of None \<Rightarrow> False | Some p \<Rightarrow> id_verifyPin env (pn_pinHash p) pin))"

definition stepUpFailedError :: identity_error where
  "stepUpFailedError = AuthError ''TRANSFER_STEP_UP_FAILED'' 401"

definition stepUpLockedError :: identity_error where
  "stepUpLockedError = AuthError ''TRANSFER_STEP_UP_LOCKED'' 429"

definition step_up_failure :: "identity_env \<Rightarrow> identity_config \<Rightarrow> string \<Rightarrow> request_context \<Rightarrow> unit identity_op" where
  "step_up_failure env cfg userId cx =
     opThen (count_up env (attempts_key env cfg userId) (transferStepUpLockSeconds cfg)) (\<lambda>count.
     opThen (opModify (\<lambda>st. if transferStepUpMaxAttempts cfg \<le> count
                            then st\<lparr>st_locks := rset (id_now env) (lock_key env cfg userId) ''1'' (transferStepUpLockSeconds cfg) (st_locks st)\<rparr>
                            else st)) (\<lambda>_.
     opThen (record_event env cx (Some userId) None ''TRANSFER_STEP_UP''
              (if transferStepUpMaxAttempts cfg \<le> count then ''LOCKED'' else ''FAILURE'')) (\<lambda>_.
     opFail stepUpFailedError)))"

definition step_up_user :: "identity_env \<Rightarrow> identity_config \<Rightarrow> string \<Rightarrow> request_context \<Rightarrow> string \<Rightarrow> unit identity_op" where
  "step_up_user env cfg pin cx userId =
     opThen (opRead (\<lambda>st. rget (id_now env) (st_locks st) (lock_key env cfg userId))) (\<lambda>lock.
     if nonempty lock then
       opThen (record_event env cx (Some userId) None ''TRANSFER_STEP_UP'' ''LOCKED'') (\<lambda>_. opFail stepUpLockedError)
     else opThen (opRead (pin_valid env userId pin)) (\<lambda>valid.
       if \<not> valid then step_up_failure env cfg userId cx
       else opThen (opModify (\<lambda>st. st\<lparr>st_counters := rdel (attempts_key env cfg userId) (st_counters st)\<rparr>)) (\<lambda>_.
            record_event env cx (Some userId) None ''TRANSFER_STEP_UP'' ''SUCCESS'')))"

definition step_up_verify :: "identity_env \<Rightarrow> identity_config \<Rightarrow> string \<Rightarrow> string \<Rightarrow> request_context \<Rightarrow> unit identity_op" where
  "step_up_verify env cfg sessionId pin cx =
     opThen (session_subject env cfg sessionId) (step_up_user env cfg pin cx)"

section \<open>Guesses of a one-time code\<close>

text \<open>A sequence of verifications of one challenge, at any times, for any phone and purpose: for each, whether the
  challenge was there to compare with, and the result.\<close>

fun otp_tries ::
  "identity_config \<Rightarrow> string \<Rightarrow> (identity_env \<times> string \<times> string \<times> otpPurpose) list \<Rightarrow> identity_state
     \<Rightarrow> (bool \<times> (identity_error, otp_challenge) res) list \<times> identity_state" where
  "otp_tries cfg challengeId [] st = ([], st)"
| "otp_tries cfg challengeId ((env, phone, otp, purpose) # rest) st =
     (case otp_verify env cfg phone challengeId otp purpose st of (r, st') \<Rightarrow>
        (case otp_tries cfg challengeId rest st' of (rs, st'') \<Rightarrow>
           ((rget (id_now env) (st_challenges st) (challenge_key cfg challengeId) \<noteq> None, r) # rs, st'')))"

text \<open>Verifications that all read the challenge before the first of them writes.\<close>

fun otp_overlap ::
  "identity_config \<Rightarrow> string \<Rightarrow> otp_challenge \<Rightarrow> (identity_env \<times> string \<times> string \<times> otpPurpose) list \<Rightarrow> identity_state
     \<Rightarrow> (identity_error, otp_challenge) res list \<times> identity_state" where
  "otp_overlap cfg challengeId ch [] st = ([], st)"
| "otp_overlap cfg challengeId ch ((env, phone, otp, purpose) # rest) st =
     (case otp_settle env cfg phone challengeId otp purpose ch st of (r, st') \<Rightarrow>
        (case otp_overlap cfg challengeId ch rest st' of (rs, st'') \<Rightarrow> (r # rs, st'')))"

definition otp_correct :: "identity_config \<Rightarrow> otp_challenge \<Rightarrow> identity_env \<times> string \<times> string \<times> otpPurpose \<Rightarrow> bool" where
  "otp_correct cfg ch t = (case t of (env, phone, otp, purpose) \<Rightarrow> otp_matches env cfg phone otp purpose ch)"

lemma otp_overlap_results:
  "map (\<lambda>r. \<not> isl r) (fst (otp_overlap cfg challengeId ch tries st)) = map (otp_correct cfg ch) tries"
  by (induction cfg challengeId ch tries st rule: otp_overlap.induct)
    (auto simp: otp_settle_def otp_correct_def Let_def split: prod.splits)

definition stored_challenge :: "identity_config \<Rightarrow> string \<Rightarrow> identity_state \<Rightarrow> otp_challenge option" where
  "stored_challenge cfg challengeId st =
     map_option (fst \<circ> snd) (find_by fst (challenge_key cfg challengeId) (st_challenges st))"

lemma otp_verify_cases:
  assumes "otp_verify env cfg phone challengeId otp purpose st = (r, st')"
  obtains (absent) "rget (id_now env) (st_challenges st) (challenge_key cfg challengeId) = None" "r = Inl invalidOtpError" "st' = st"
    | (wrong) ch where "stored_challenge cfg challengeId st = Some ch" "r = Inl invalidOtpError"
        "stored_challenge cfg challengeId st' = None \<or> och_attempts ch + 1 < otpMaxAttempts cfg \<and>
           stored_challenge cfg challengeId st' = Some (ch\<lparr>och_attempts := och_attempts ch + 1\<rparr>)"
    | (right) ch where "stored_challenge cfg challengeId st = Some ch" "r = Inr ch" "stored_challenge cfg challengeId st' = None"
        "otp_matches env cfg phone otp purpose ch"
proof (cases "rget (id_now env) (st_challenges st) (challenge_key cfg challengeId)")
  case None
  with assms have "r = Inl invalidOtpError" "st' = st" by (simp_all add: otp_verify_defs Let_def)
  with None show thesis by (rule absent)
next
  case (Some ch)
  then have st: "stored_challenge cfg challengeId st = Some ch"
    by (auto simp: stored_challenge_def rget_def rlive_def split: option.splits prod.splits if_splits)
  show thesis
  proof (cases "otp_matches env cfg phone otp purpose ch")
    case True
    with assms Some st show thesis
      by (intro right [of ch]) (auto simp: otp_verify_defs Let_def stored_challenge_def)
  next
    case False
    with assms Some have r: "r = Inl invalidOtpError"
      and st': "st' = st\<lparr>st_challenges := if otpMaxAttempts cfg \<le> och_attempts ch + 1 then rdel (challenge_key cfg challengeId) (st_challenges st)
        else rset_keep (id_now env) (challenge_key cfg challengeId) (ch\<lparr>och_attempts := och_attempts ch + 1\<rparr>) (st_challenges st)\<rparr>"
      by (auto simp: otp_verify_defs Let_def)
    from st r show thesis by (intro wrong [of ch]) (auto simp: st' stored_challenge_def rset_keep_def)
  qed
qed

lemma stored_challenge_None:
  "stored_challenge cfg challengeId st = None \<Longrightarrow> rget now (st_challenges st) (challenge_key cfg challengeId) = None"
  by (simp add: stored_challenge_def rget_def rlive_def)

definition examined :: "(bool \<times> 'r) list \<Rightarrow> nat" where
  "examined rs = length (filter fst rs)"

definition accepted :: "(bool \<times> ('e, 'a) res) list \<Rightarrow> nat" where
  "accepted rs = length (filter (\<lambda>r. \<not> isl (snd r)) rs)"

lemma otp_tries_gone:
  assumes "stored_challenge cfg challengeId st = None" and "otp_tries cfg challengeId tries st = (rs, st')"
  shows "examined rs = 0 \<and> accepted rs = 0"
  using assms
proof (induction tries arbitrary: st rs st')
  case (Cons t tries)
  obtain env phone otp purpose where t: "t = (env, phone, otp, purpose)" by (metis prod.exhaust)
  obtain r st1 where v: "otp_verify env cfg phone challengeId otp purpose st = (r, st1)" by (metis prod.exhaust)
  obtain rs1 st2 where w: "otp_tries cfg challengeId tries st1 = (rs1, st2)" by (metis prod.exhaust)
  from v Cons.prems(1) have r: "r = Inl invalidOtpError" "st1 = st" by (cases rule: otp_verify_cases; simp)+
  have "rs = (False, r) # rs1" using Cons.prems by (simp add: t v w stored_challenge_None)
  with Cons.IH [OF _ w] Cons.prems(1) r show ?case by (simp add: examined_def accepted_def)
qed (simp add: examined_def accepted_def)

lemma otp_tries_bounded:
  assumes "otp_tries cfg challengeId tries st = (rs, st')"
    and "\<And>ch. stored_challenge cfg challengeId st = Some ch \<Longrightarrow> 0 \<le> och_attempts ch \<and> och_attempts ch < otpMaxAttempts cfg"
  shows "accepted rs \<le> 1 \<and> accepted rs \<le> examined rs
    \<and> int (examined rs) \<le> (case stored_challenge cfg challengeId st of Some ch \<Rightarrow> otpMaxAttempts cfg - och_attempts ch | None \<Rightarrow> 0)"
  using assms
proof (induction tries arbitrary: st rs st')
  case (Cons t tries)
  obtain env phone otp purpose where t: "t = (env, phone, otp, purpose)" by (metis prod.exhaust)
  obtain r st1 where v: "otp_verify env cfg phone challengeId otp purpose st = (r, st1)" by (metis prod.exhaust)
  obtain rs1 st2 where w: "otp_tries cfg challengeId tries st1 = (rs1, st2)" by (metis prod.exhaust)
  obtain x where rs: "rs = (x, r) # rs1" and x: "x = (rget (id_now env) (st_challenges st) (challenge_key cfg challengeId) \<noteq> None)"
    using Cons.prems(1) by (auto simp: t v w)
  from v show ?case
  proof (cases rule: otp_verify_cases)
    case absent
    with Cons.IH [OF w] Cons.prems(2) show ?thesis by (auto simp: rs x examined_def accepted_def)
  next
    case (wrong ch)
    have ok: "0 \<le> och_attempts c \<and> och_attempts c < otpMaxAttempts cfg" if "stored_challenge cfg challengeId st1 = Some c" for c
      using wrong Cons.prems(2) [of ch] that by auto
    have len: "examined rs \<le> examined rs1 + 1" "examined rs1 \<le> examined rs" "accepted rs = accepted rs1"
      using wrong by (auto simp: rs examined_def accepted_def)
    from Cons.IH [OF w ok] wrong Cons.prems(2) [of ch] len show ?thesis by (auto split: option.splits)
  next
    case (right ch)
    have x: "x" using right stored_challenge_None v unfolding x by (auto simp: otp_verify_defs Let_def split: option.splits)
    from otp_tries_gone [OF right(3) w] x right Cons.prems(2) [of ch] show ?thesis
      by (simp add: rs examined_def accepted_def)
  qed
qed (force simp: examined_def accepted_def split: option.splits)


section \<open>Two factors\<close>

lemmas op_defs = opThen_def opFail_def opReturn_def opModify_def opRead_def

lemma opThen_eq_Inr: "(opThen m f st = (Inr y, st')) = (\<exists>x st1. m st = (Inr x, st1) \<and> f x st1 = (Inr y, st'))"
  by (auto simp: opThen_def split: prod.splits sum.splits)

lemma find_by_update_same:
  assumes "find_by key k rows = Some r" and "key2 r = j" and "\<And>x. key (f x) = key x"
  shows "find_by key k (update_by key2 j f rows) = Some (f r)"
  using assms by (induction rows) (auto simp: update_by_def split: if_splits)

lemma fallback_verifyPin_Inr:
  assumes "fallback_verifyPin env phone pin cx st = (Inr u, st')"
  shows "st' = st \<and> find_by u_phoneE164 phone (st_users st) = Some u
    \<and> (\<exists>cred. find_by pn_userId (u_id u) (st_pins st) = Some cred \<and> id_verifyPin env (pn_pinHash cred) pin)
    \<and> (\<forall>t. u_lockedUntil u = Some t \<longrightarrow> t \<le> id_now env) \<and> (u_status u = US_ACTIVE \<or> u_status u = US_LOCKED)"
  using assms by (auto simp: fallback_verifyPin_def op_defs record_event_def split: option.splits if_splits)

text \<open>A failed PIN check counts; the fifth locks the account for five minutes.\<close>

lemma failed_pin_counts:
  assumes "find_by u_phoneE164 phone (st_users st) = Some u" and "find_by pn_userId (u_id u) (st_pins st) = Some cred"
    and "\<And>t. u_lockedUntil u = Some t \<Longrightarrow> t \<le> id_now env"
    and "\<not> id_verifyPin env (pn_pinHash cred) pin \<or> u_status u = US_DISABLED \<or> u_status u = US_PENDING"
    and "fallback_verifyPin env phone pin cx st = (out, st')"
  shows "out = Inl invalidCredentialsError \<and> st_pins st' = st_pins st \<and> st_challenges st' = st_challenges st
    \<and> find_by u_phoneE164 phone (st_users st') = Some (failed_login env u u)"
proof -
  have "(case u_lockedUntil u of Some t \<Rightarrow> id_now env < t | None \<Rightarrow> False) = False" using assms(3) by (auto split: option.splits)
  moreover have "(\<not> id_verifyPin env (pn_pinHash cred) pin \<or> u_status u \<noteq> US_ACTIVE \<and> u_status u \<noteq> US_LOCKED) = True" using assms(4) by auto
  moreover have "find_by u_phoneE164 phone (update_by u_id (u_id u) (failed_login env u) (st_users st)) = Some (failed_login env u u)"
    by (rule find_by_update_same [OF assms(1)]) (simp_all add: failed_login_def Let_def)
  ultimately show ?thesis using assms(1,2,5) by (auto simp: fallback_verifyPin_def op_defs record_event_def)
qed

lemma locked_account_refuses:
  assumes "find_by u_phoneE164 phone (st_users st) = Some u" and "u_lockedUntil u = Some t" and "id_now env < t"
  shows "fallback_verifyPin env phone pin cx st = (Inl invalidCredentialsError, st)"
  using assms by (auto simp: fallback_verifyPin_def split: option.splits)

lemma session_create_Inr:
  assumes "session_create env cfg userId authMethod deviceId st = (Inr cs, st')"
  shows "cr_sessionId cs = id_token env 0 \<and> st_users st' = st_users st \<and> st_challenges st' = st_challenges st
    \<and> st_sessions st' = rset (id_now env) (sessionKey env cfg (id_token env 0)) (new_session env cfg userId authMethod deviceId)
        (sessionIdleTtlSeconds cfg) (st_sessions st)"
  using assms by (auto simp: session_create_def safeUser_def op_defs Let_def split: option.splits if_splits)

section \<open>Guesses of a PIN at step-up\<close>

fun step_up_tries ::
  "identity_config \<Rightarrow> request_context \<Rightarrow> string \<Rightarrow> (identity_env \<times> string) list \<Rightarrow> identity_state
     \<Rightarrow> (identity_error, unit) res list \<times> identity_state" where
  "step_up_tries cfg cx userId [] st = ([], st)"
| "step_up_tries cfg cx userId ((env, pin) # rest) st =
     (case step_up_user env cfg pin cx userId st of (r, st') \<Rightarrow>
        (case step_up_tries cfg cx userId rest st' of (rs, st'') \<Rightarrow> (r # rs, st'')))"

text \<open>After \<open>j\<close> failures since \<open>t0\<close>: the counter holds \<open>j\<close> and outlives the window, and so does the lock once the
  counter is full.\<close>

definition failures_since :: "identity_config \<Rightarrow> (string \<Rightarrow> string) \<Rightarrow> string \<Rightarrow> time \<Rightarrow> nat \<Rightarrow> identity_state \<Rightarrow> bool" where
  "failures_since cfg h userId t0 j st \<longleftrightarrow>
     (let k = identity_key cfg [''transfer-step-up'', h userId]; l = identity_key cfg [''transfer-step-up-lock'', h userId];
          close = t0 + transferStepUpLockSeconds cfg * 1000
      in (if j = 0 then rlive t0 (st_counters st) k = None
          else \<exists>until. find_by fst k (st_counters st) = Some (k, int j, Some until) \<and> close \<le> until)
         \<and> (transferStepUpMaxAttempts cfg \<le> int j \<longrightarrow>
              (\<exists>until. find_by fst l (st_locks st) = Some (l, ''1'', Some until) \<and> close \<le> until)))"

lemma failures_since_counter:
  assumes "failures_since cfg h userId t0 j st" and "t0 \<le> now" and "now < t0 + transferStepUpLockSeconds cfg * 1000"
  shows "rincr now (identity_key cfg [''transfer-step-up'', h userId]) (transferStepUpLockSeconds cfg) (st_counters st) = (int (Suc j), cs) \<Longrightarrow>
    \<exists>until. find_by fst (identity_key cfg [''transfer-step-up'', h userId]) cs =
        Some (identity_key cfg [''transfer-step-up'', h userId], int (Suc j), Some until) \<and> t0 + transferStepUpLockSeconds cfg * 1000 \<le> until"
    and "fst (rincr now (identity_key cfg [''transfer-step-up'', h userId]) (transferStepUpLockSeconds cfg) (st_counters st)) = int (Suc j)"
proof -
  let ?k = "identity_key cfg [''transfer-step-up'', h userId]"
  have live: "rlive now (st_counters st) ?k = (if j = 0 then None else map_option (\<lambda>e. (fst (snd e), snd (snd e))) (find_by fst ?k (st_counters st)))"
    using assms by (auto simp: failures_since_def Let_def rlive_def split: option.splits prod.splits if_splits)
  show "fst (rincr now ?k (transferStepUpLockSeconds cfg) (st_counters st)) = int (Suc j)"
    using assms(1) live by (auto simp: rincr_def failures_since_def Let_def split: option.splits if_splits)
  show "\<exists>until. find_by fst ?k cs = Some (?k, int (Suc j), Some until) \<and> t0 + transferStepUpLockSeconds cfg * 1000 \<le> until"
    if "rincr now ?k (transferStepUpLockSeconds cfg) (st_counters st) = (int (Suc j), cs)"
    using that assms live by (auto simp: rincr_def failures_since_def Let_def split: option.splits if_splits)
qed

lemma step_up_user_failure:
  assumes inv: "failures_since cfg (id_sha256 env) userId t0 j st"
    and time: "t0 \<le> id_now env" "id_now env < t0 + transferStepUpLockSeconds cfg * 1000"
    and run: "step_up_user env cfg pin cx userId st = (r, st')" and "isl r"
  shows "r = Inl stepUpFailedError \<and> int j < transferStepUpMaxAttempts cfg \<and> failures_since cfg (id_sha256 env) userId t0 (Suc j) st'
    \<or> r = Inl stepUpLockedError \<and> failures_since cfg (id_sha256 env) userId t0 j st'"
proof -
  let ?k = "identity_key cfg [''transfer-step-up'', id_sha256 env userId]"
    and ?l = "identity_key cfg [''transfer-step-up-lock'', id_sha256 env userId]"
  show ?thesis
  proof (cases "nonempty (rget (id_now env) (st_locks st) ?l)")
    case True
    then have "r = Inl stepUpLockedError" "st_counters st' = st_counters st" "st_locks st' = st_locks st"
      using run by (auto simp: step_up_user_def op_defs record_event_def lock_key_def)
    with inv show ?thesis by (simp add: failures_since_def Let_def)
  next
    case False
    then have j: "int j < transferStepUpMaxAttempts cfg"
      using inv time by (auto simp: failures_since_def Let_def rget_def rlive_def nonempty_def split: if_splits)
    obtain cs where cs: "rincr (id_now env) ?k (transferStepUpLockSeconds cfg) (st_counters st) = (int (Suc j), cs)"
      using failures_since_counter(2) [OF inv time] by (metis prod.collapse)
    have bad: "\<not> pin_valid env userId pin st"
    proof
      assume "pin_valid env userId pin st"
      with run False have "r = Inr ()" by (auto simp: step_up_user_def op_defs record_event_def lock_key_def)
      with \<open>isl r\<close> show False by simp
    qed
    have st': "r = Inl stepUpFailedError" "st_counters st' = cs"
      "st_locks st' = (if transferStepUpMaxAttempts cfg \<le> int (Suc j) then rset (id_now env) ?l ''1'' (transferStepUpLockSeconds cfg) (st_locks st) else st_locks st)"
      using run False bad cs
      by (auto simp: step_up_user_def step_up_failure_def count_up_def op_defs record_event_def lock_key_def attempts_key_def)
    have "failures_since cfg (id_sha256 env) userId t0 (Suc j) st'"
      using failures_since_counter(1) [OF inv time cs] time by (auto simp: failures_since_def Let_def st' rset_def)
    with st' j show ?thesis by simp
  qed
qed

lemma step_up_tries_bounded:
  assumes "step_up_tries cfg cx userId tries st = (rs, st')"
    and "\<And>env pin. (env, pin) \<in> set tries \<Longrightarrow>
      id_sha256 env = h \<and> t0 \<le> id_now env \<and> id_now env < t0 + transferStepUpLockSeconds cfg * 1000"
    and "failures_since cfg h userId t0 j st" and "\<And>r. r \<in> set rs \<Longrightarrow> isl r" and "int j \<le> transferStepUpMaxAttempts cfg"
  shows "int (j + length (filter (\<lambda>r. r = Inl stepUpFailedError) rs)) \<le> transferStepUpMaxAttempts cfg"
  using assms
proof (induction tries arbitrary: st rs st' j)
  case (Cons t tries)
  obtain env pin where t: "t = (env, pin)" by (metis prod.exhaust)
  obtain r st1 where v: "step_up_user env cfg pin cx userId st = (r, st1)" by (metis prod.exhaust)
  obtain rs1 st2 where w: "step_up_tries cfg cx userId tries st1 = (rs1, st2)" by (metis prod.exhaust)
  have rs: "rs = r # rs1" using Cons.prems(1) by (simp add: t v w)
  have e: "id_sha256 env = h" "t0 \<le> id_now env" "id_now env < t0 + transferStepUpLockSeconds cfg * 1000"
    using Cons.prems(2) [of env pin] by (simp_all add: t)
  have tl: "id_sha256 en = h \<and> t0 \<le> id_now en \<and> id_now en < t0 + transferStepUpLockSeconds cfg * 1000" if "(en, pi) \<in> set tries" for en pi
    using Cons.prems(2) [of en pi] that by simp
  have inl: "isl r" "\<And>x. x \<in> set rs1 \<Longrightarrow> isl x" using Cons.prems(4) by (auto simp: rs)
  from step_up_user_failure [OF _ e(2,3) v inl(1), of j] Cons.prems(3) e(1) consider
    (failed) "r = Inl stepUpFailedError" "int j < transferStepUpMaxAttempts cfg" "failures_since cfg h userId t0 (Suc j) st1"
    | (locked) "r = Inl stepUpLockedError" "failures_since cfg h userId t0 j st1" by blast
  then show ?case
  proof cases
    case failed
    from Cons.IH [OF w tl failed(3) inl(2)] failed show ?thesis by (simp add: rs)
  next
    case locked
    from Cons.IH [OF w tl locked(2) inl(2)] locked Cons.prems(5) show ?thesis by (simp add: rs stepUpFailedError_def stepUpLockedError_def)
  qed
qed simp


section \<open>A sample user\<close>

definition demo_identity_cfg :: identity_config where
  "demo_identity_cfg =
     \<lparr>ic_nodeEnvironment = ''test'', ic_host = ''h'', ic_port = 4101, ic_databaseUrl = ''d'', ic_redisUrl = ''r'', ic_redisKeyPrefix = ''x:'',
      ic_internalToken = ''t'', ic_sessionCookieName = ''s'', ic_csrfCookieName = ''c'', sessionIdleTtlSeconds = 900,
      sessionAbsoluteTtlSeconds = 28800, otpTtlSeconds = 300, otpResendCooldownSeconds = 60, otpMaxAttempts = 2,
      otpRequestLimitPerHour = 5, demoAuthEnabled = True, ic_webauthnRpName = ''n'', ic_webauthnRpId = ''i'', ic_webauthnOrigin = ''o'',
      ic_fieldEncryptionKey = ''k'', transferStepUpMaxAttempts = 2, transferStepUpLockSeconds = 300, ic_riskServiceUrl = ''u'',
      ic_riskIdentitySourceToken = ''v'', ic_riskTimeoutMs = 100\<rparr>"

definition demo_identity_env :: "string \<Rightarrow> time \<Rightarrow> identity_env" where
  "demo_identity_env tag now =
     \<lparr>id_sha256 = (\<lambda>s. CHR ''#'' # s), id_hmac = (\<lambda>s k. CHR ''='' # s), id_hashPin = (\<lambda>p. CHR ''$'' # p),
      id_verifyPin = (\<lambda>h p. h = CHR ''$'' # p), id_now = now, id_uuid = (\<lambda>n. tag @ replicate (min n 3) CHR ''+''),
      id_token = (\<lambda>n. tag @ replicate (min n 3) CHR ''t''), id_random = 7\<rparr>"

definition demo_cx :: request_context where
  "demo_cx = \<lparr>cx_correlationId = ''c'', cx_ipHash = None, cx_userAgent = None\<rparr>"

definition demo_user :: "userStatus \<Rightarrow> int \<Rightarrow> user_row" where
  "demo_user status failures =
     \<lparr>u_id = ''u1'', u_phoneE164 = ''+94'', u_preferredLanguage = ''EN'', u_kycTier = 0, u_status = status, u_consentAcceptedAt = 0,
      u_phoneVerifiedAt = Some 0, u_lastAuthenticatedAt = None, u_failedLoginCount = failures, u_lockedUntil = None\<rparr>"

definition demo_challenge :: otp_challenge where
  "demo_challenge =
     \<lparr>och_phoneHash = ''=+94'', och_codeHash = ''=1'', och_purpose = FALLBACK, och_attempts = 0, och_preferredLanguage = None,
      och_consentAcceptedAt = None\<rparr>"

definition demo_identity :: "userStatus \<Rightarrow> int \<Rightarrow> identity_state" where
  "demo_identity status failures =
     \<lparr>st_users = [demo_user status failures],
      st_pins = [\<lparr>pn_userId = ''u1'', pn_pinHash = ''$12'', pn_algorithm = PIN_ALGORITHM, pn_rotatedAt = None\<rparr>], st_passkeys = [],
      st_authEvents = [], st_riskEvents = [], st_cooldowns = [],
      st_challenges = [(challenge_key demo_identity_cfg ''ch'', demo_challenge, Some 900000)], st_counters = [], st_locks = [],
      st_sessions = [], st_enrollments = [], st_registrations = [], st_authentications = []\<rparr>"

section \<open>Properties\<close>

text \<open>C23: guesses of a one-time code are bounded only as long as they come one after the other.  Presented with codes one
  at a time, however often, whenever and for whatever phone and purpose, a fresh challenge is compared with at most
  \<open>otpMaxAttempts\<close> codes and accepted at most once.  Guesses that overlap are not bounded: any number of verifications that
  read the challenge before one of them writes are all compared with it, and every correct one is accepted.\<close>

theorem otp_guesses_bounded:
  assumes "otp_tries cfg challengeId tries st = (rs, st')"
    and "stored_challenge cfg challengeId st = Some ch" and "och_attempts ch = 0" and "0 < otpMaxAttempts cfg"
  shows "int (examined rs) \<le> otpMaxAttempts cfg \<and> accepted rs \<le> 1 \<and> accepted rs \<le> examined rs
    \<and> map (\<lambda>r. \<not> isl r) (fst (otp_overlap cfg challengeId ch others st)) = map (otp_correct cfg ch) others"
  using otp_tries_bounded [OF assms(1)] assms(2-4) otp_overlap_results by auto

theorem otp_guesses_bounded_witness:
  "\<exists>rs st'. otp_tries demo_identity_cfg ''ch''
       (map (\<lambda>c. (demo_identity_env ''a'' 1000, ''+94'', c, FALLBACK)) [''2'', ''3'', ''1'']) (demo_identity US_ACTIVE 0) = (rs, st')
     \<and> examined rs = 2 \<and> accepted rs = 0 \<and> int (examined rs) \<le> otpMaxAttempts demo_identity_cfg"
proof -
  let ?tries = "map (\<lambda>c. (demo_identity_env ''a'' 1000, ''+94'', c, FALLBACK)) [''2'', ''3'', ''1'']"
  obtain rs st' where run: "otp_tries demo_identity_cfg ''ch'' ?tries (demo_identity US_ACTIVE 0) = (rs, st')" by (metis prod.exhaust)
  have "map (\<lambda>(x, r). (x, isl r)) (fst (otp_tries demo_identity_cfg ''ch'' ?tries (demo_identity US_ACTIVE 0))) = [(True, True), (True, True), (False, True)]"
    by code_simp
  then have "map (\<lambda>(x, r). (x, isl r)) rs = [(True, True), (True, True), (False, True)]" by (simp only: run fst_conv)
  then have "examined rs = 2" "accepted rs = 0" by (auto simp: examined_def accepted_def map_eq_Cons_conv)
  moreover have "stored_challenge demo_identity_cfg ''ch'' (demo_identity US_ACTIVE 0) = Some demo_challenge"
    by (simp add: stored_challenge_def demo_identity_def)
  ultimately show ?thesis
    using run otp_guesses_bounded [OF run] by (auto simp: demo_challenge_def demo_identity_cfg_def)
qed

text \<open>the PIN that authorises a transfer cannot be guessed by trying: from a clean counter, within one lock period
  and without a success, at most \<open>transferStepUpMaxAttempts\<close> PINs are compared, whatever the attempts; every further one is
  refused as locked.\<close>

theorem step_up_guesses_bounded:
  assumes "step_up_tries cfg cx userId tries st = (rs, st')"
    and "\<forall>(env, pin) \<in> set tries. id_sha256 env = h \<and> t0 \<le> id_now env \<and> id_now env < t0 + transferStepUpLockSeconds cfg * 1000"
    and "rlive t0 (st_counters st) (identity_key cfg [''transfer-step-up'', h userId]) = None"
    and "0 < transferStepUpMaxAttempts cfg" and "\<forall>r \<in> set rs. isl r"
  shows "int (length (filter (\<lambda>r. r = Inl stepUpFailedError) rs)) \<le> transferStepUpMaxAttempts cfg"
proof -
  have "failures_since cfg h userId t0 0 st" using assms(3,4) by (simp add: failures_since_def Let_def)
  from step_up_tries_bounded [OF assms(1) _ this] assms(2,4,5) show ?thesis by auto
qed

text \<open>C24: a PIN login takes both factors.  A session is given out only when the account is not locked, the PIN is the
  account's and the one-time code is the one of a live challenge issued for that phone and for logging in; the
  challenge is used up, the session belongs to that account, and after the fifth failed PIN no PIN is accepted for
  five minutes.\<close>

theorem login_needs_both_factors:
  "(\<forall>deviceId cs st'. fallback_login env cfg phone pin challengeId otp deviceId cx st = (Inr cs, st') \<longrightarrow>
     (\<exists>u cred ch. find_by u_phoneE164 phone (st_users st) = Some u \<and> find_by pn_userId (u_id u) (st_pins st) = Some cred
        \<and> id_verifyPin env (pn_pinHash cred) pin \<and> (\<forall>t. u_lockedUntil u = Some t \<longrightarrow> t \<le> id_now env)
        \<and> rget (id_now env) (st_challenges st) (challenge_key cfg challengeId) = Some ch \<and> och_purpose ch = FALLBACK
        \<and> och_phoneHash ch = phoneHash env cfg phone \<and> och_codeHash ch = id_hmac env otp (ic_internalToken cfg)
        \<and> stored_challenge cfg challengeId st' = None
        \<and> (\<exists>v until. find_by fst (sessionKey env cfg (cr_sessionId cs)) (st_sessions st') = Some (sessionKey env cfg (cr_sessionId cs), v, until)
             \<and> ss_userId v = u_id u)))
   \<and> (\<forall>u cred st' env' pin' cx'. find_by u_phoneE164 phone (st_users st) = Some u \<longrightarrow> find_by pn_userId (u_id u) (st_pins st) = Some cred \<longrightarrow>
        (\<forall>t. u_lockedUntil u = Some t \<longrightarrow> t \<le> id_now env) \<longrightarrow> \<not> id_verifyPin env (pn_pinHash cred) pin \<longrightarrow> 4 \<le> u_failedLoginCount u \<longrightarrow>
        snd (fallback_verifyPin env phone pin cx st) = st' \<longrightarrow> id_now env' < id_now env + 300000 \<longrightarrow>
        fallback_verifyPin env' phone pin' cx' st' = (Inl invalidCredentialsError, st'))"
proof (intro conjI allI impI)
  fix deviceId cs st'
  assume "fallback_login env cfg phone pin challengeId otp deviceId cx st = (Inr cs, st')"
  then obtain u ch st1 st2 where 1: "fallback_verifyPin env phone pin cx st = (Inr u, st)"
    and 2: "otp_verify env cfg phone challengeId otp FALLBACK st = (Inr ch, st1)"
    and 3: "session_create env cfg (u_id u) PIN_OTP deviceId st2 = (Inr cs, st')" and 4: "st_challenges st2 = st_challenges st1"
    using fallback_verifyPin_Inr
    by (fastforce simp: fallback_login_def opThen_eq_Inr record_event_def opModify_def)
  note u = fallback_verifyPin_Inr [OF 1] and s = session_create_Inr [OF 3]
  have c: "rget (id_now env) (st_challenges st) (challenge_key cfg challengeId) = Some ch" "otp_matches env cfg phone otp FALLBACK ch"
    "st_challenges st1 = rdel (challenge_key cfg challengeId) (st_challenges st)"
    using 2 by (auto simp: otp_verify_defs Let_def split: option.splits if_splits)
  have gone: "stored_challenge cfg challengeId st' = None" using s c(3) 4 by (simp add: stored_challenge_def)
  have sess: "\<exists>v until. find_by fst (sessionKey env cfg (cr_sessionId cs)) (st_sessions st') = Some (sessionKey env cfg (cr_sessionId cs), v, until)
      \<and> ss_userId v = u_id u" using s by (simp add: rset_def new_session_def)
  show "\<exists>u cred ch. find_by u_phoneE164 phone (st_users st) = Some u \<and> find_by pn_userId (u_id u) (st_pins st) = Some cred
        \<and> id_verifyPin env (pn_pinHash cred) pin \<and> (\<forall>t. u_lockedUntil u = Some t \<longrightarrow> t \<le> id_now env)
        \<and> rget (id_now env) (st_challenges st) (challenge_key cfg challengeId) = Some ch \<and> och_purpose ch = FALLBACK
        \<and> och_phoneHash ch = phoneHash env cfg phone \<and> och_codeHash ch = id_hmac env otp (ic_internalToken cfg)
        \<and> stored_challenge cfg challengeId st' = None
        \<and> (\<exists>v until. find_by fst (sessionKey env cfg (cr_sessionId cs)) (st_sessions st') = Some (sessionKey env cfg (cr_sessionId cs), v, until)
             \<and> ss_userId v = u_id u)"
    using u c(1,2) gone sess by (auto simp: otp_matches_def timingSafeStringEqual_iff)
next
  fix u cred st' pin' cx' and env' :: identity_env
  assume a: "find_by u_phoneE164 phone (st_users st) = Some u" "find_by pn_userId (u_id u) (st_pins st) = Some cred"
    "\<forall>t. u_lockedUntil u = Some t \<longrightarrow> t \<le> id_now env" "\<not> id_verifyPin env (pn_pinHash cred) pin" "4 \<le> u_failedLoginCount u"
    "snd (fallback_verifyPin env phone pin cx st) = st'" "id_now env' < id_now env + 300000"
  have "find_by u_phoneE164 phone (st_users st') = Some (failed_login env u u)"
    using failed_pin_counts [OF a(1,2), of env pin cx] a(3,4,6) by (metis prod.collapse)
  then show "fallback_verifyPin env' phone pin' cx' st' = (Inl invalidCredentialsError, st')"
    by (rule locked_account_refuses) (use a(5,7) in \<open>simp_all add: failed_login_def Let_def maxFailures_def lockSeconds_def\<close>)
qed

theorem login_needs_both_factors_witness:
  "(\<exists>cs st'. fallback_login (demo_identity_env ''a'' 1000) demo_identity_cfg ''+94'' ''12'' ''ch'' ''1'' None demo_cx (demo_identity US_ACTIVE 0) = (Inr cs, st')
     \<and> stored_challenge demo_identity_cfg ''ch'' st' = None)"
proof -
  let ?run = "fallback_login (demo_identity_env ''a'' 1000) demo_identity_cfg ''+94'' ''12'' ''ch'' ''1'' None demo_cx (demo_identity US_ACTIVE 0)"
  have "\<not> isl (fst ?run)" by code_simp
  then obtain cs st' where run: "?run = (Inr cs, st')" by (cases ?run; cases "fst ?run") auto
  have "stored_challenge demo_identity_cfg ''ch'' st' = None"
    using login_needs_both_factors [THEN conjunct1, THEN spec, THEN spec, THEN spec, THEN mp, OF run] by blast
  with run show ?thesis by blast
qed

text \<open>a disabled account can be brought back by its holder without the bank: the fifth failed login overwrites the
  status DISABLED with LOCKED, a status the login accepts once the lock has run out, and the login then sets it to
  ACTIVE.\<close>

theorem disabled_account_reactivates:
  assumes "find_by u_phoneE164 phone (st_users st) = Some u" and "u_status u = US_DISABLED" and "u_failedLoginCount u = 4"
    and "u_lockedUntil u = None" and "find_by pn_userId (u_id u) (st_pins st) = Some cred"
    and "fallback_verifyPin env1 phone pin1 cx1 st = (out, st1)"
    and "id_now env1 + 300000 \<le> id_now env2" and "id_verifyPin env2 (pn_pinHash cred) pin2"
    and "rget (id_now env2) (st_challenges st) (challenge_key cfg challengeId) = Some ch" and "otp_matches env2 cfg phone otp FALLBACK ch"
  shows "\<exists>cs st2. fallback_login env2 cfg phone pin2 challengeId otp deviceId cx2 st1 = (Inr cs, st2)
    \<and> (\<exists>u2. find_by u_phoneE164 phone (st_users st2) = Some u2 \<and> u_status u2 = US_ACTIVE)"
proof -
  note f = failed_pin_counts [OF assms(1,5) _ _ assms(6)]
  define v where "v = failed_login env1 u u"
  have st1: "st_pins st1 = st_pins st" "st_challenges st1 = st_challenges st" "find_by u_phoneE164 phone (st_users st1) = Some v"
    using f assms(2,4) by (auto simp: v_def)
  have v: "u_id v = u_id u" "u_status v = US_LOCKED" "u_lockedUntil v = Some (id_now env1 + 300000)"
    using assms(3) by (simp_all add: v_def failed_login_def Let_def maxFailures_def lockSeconds_def)
  have 1: "fallback_verifyPin env2 phone pin2 cx2 st1 = (Inr v, st1)"
    using st1 v assms(5,7,8) by (simp add: fallback_verifyPin_def)
  let ?st2 = "st1\<lparr>st_challenges := rdel (challenge_key cfg challengeId) (st_challenges st1)\<rparr>"
  have 2: "otp_verify env2 cfg phone challengeId otp FALLBACK st1 = (Inr ch, ?st2)"
    using st1 assms(9,10) by (simp add: otp_verify_defs)
  have users: "find_by u_phoneE164 phone (update_by u_id (u_id v) (activated env2) (st_users st1)) = Some (activated env2 v)"
    by (rule find_by_update_same [OF st1(3)]) (simp_all add: activated_def)
  obtain w where w: "find_by u_id (u_id v) (st_users st1) = Some w"
    using st1(3) by (metis find_by_Some find_by_None image_eqI option.exhaust)
  have "find_by u_id (u_id v) (update_by u_id (u_id v) (activated env2) (st_users st1)) = Some (activated env2 w)"
    by (rule find_by_update_same [OF w]) (use find_by_Some [OF w] in \<open>simp_all add: activated_def\<close>)
  then show ?thesis
    using users
    by (auto simp: fallback_login_def opThen_def 1 2 opModify_def record_event_def session_create_def safeUser_def opReturn_def Let_def activated_def)
qed

end
