(* ===== verification/IdentityPasskeys.thy ===== *)
theory IdentityPasskeys
  imports IdentityAuth
begin

text \<open>
  Passkeys (\<open>auth/passkeys/passkey.service.ts\<close>), the HTTP interface of the identity service (\<open>auth/auth.controller.ts\<close>)
  with the schemas of its bodies (\<open>packages/contracts/src/auth/v1.ts\<close>), and what any sequence of requests keeps true of
  the stored state.
\<close>

section \<open>Schemas of the requests\<close>

definition e164PhoneSchema :: "string \<Rightarrow> string option" where
  "e164PhoneSchema s =
     (let t = js_trim s; d = drop 1 t in
      if starts_with ''+'' t \<and> 8 \<le> length d \<and> length d \<le> 15 \<and> list_all is_digit d \<and> hd d \<noteq> CHR ''0'' then Some t else None)"

definition preferredLanguageSchema :: "string \<Rightarrow> bool" where
  "preferredLanguageSchema s = (s \<in> {''EN'', ''SI'', ''TA''})"

definition deviceIdSchema :: "string option \<Rightarrow> string option option" where
  "deviceIdSchema d =
     (case d of None \<Rightarrow> Some None
      | Some s \<Rightarrow> if 1 \<le> length (js_trim s) \<and> length (js_trim s) \<le> 128 then Some (Some (js_trim s)) else None)"

definition sixDigits :: "string \<Rightarrow> bool" where
  "sixDigits s = (length s = 6 \<and> list_all is_digit s)"

text \<open>The listed weak values are six equal digits or six consecutive ones, up or down.\<close>

definition weakPinValues :: "string list" where
  "weakPinValues = [''000000'', ''111111'', ''123456'', ''234567'', ''345678'', ''456789'', ''987654'', ''876543'', ''765432'',
     ''654321'', ''543210'']"

definition isWeakPrototypePin :: "string \<Rightarrow> bool" where
  "isWeakPrototypePin pin = (sixDigits pin \<and> pin = replicate 6 (hd pin) \<or> pin \<in> set weakPinValues)"

definition securePrototypePinSchema :: "string \<Rightarrow> bool" where
  "securePrototypePinSchema pin = (sixDigits pin \<and> \<not> isWeakPrototypePin pin)"

text \<open>A credential as the browser sends it; the extension results are passed on unread.\<close>

record webauthn_credential =
  wc_id :: string
  wc_rawId :: "string option"
  wc_type :: string
  wc_authenticatorAttachment :: "string option"
  wc_clientDataJSON :: string
  wc_extensionResults :: "string option"

record registration_credential = webauthn_credential +
  wr_attestationObject :: string
  wr_transports :: "string list option"
  wr_authenticatorData :: "string option"
  wr_publicKey :: "string option"
  wr_publicKeyAlgorithm :: "int option"

record authentication_credential = webauthn_credential +
  wa_authenticatorData :: string
  wa_signature :: string
  wa_userHandle :: "string option"

definition len_in :: "nat \<Rightarrow> nat \<Rightarrow> string \<Rightarrow> bool" where
  "len_in a b s = (a \<le> length s \<and> length s \<le> b)"

definition opt_len :: "nat \<Rightarrow> nat \<Rightarrow> string option \<Rightarrow> bool" where
  "opt_len a b x = (case x of None \<Rightarrow> True | Some s \<Rightarrow> len_in a b s)"

definition credentialSchema :: "('a) webauthn_credential_scheme \<Rightarrow> bool" where
  "credentialSchema c =
     (len_in 1 2048 (wc_id c) \<and> opt_len 1 4096 (wc_rawId c) \<and> wc_type c = ''public-key''
      \<and> opt_len 0 64 (wc_authenticatorAttachment c) \<and> len_in 1 16384 (wc_clientDataJSON c))"

definition registrationCredentialSchema :: "registration_credential \<Rightarrow> bool" where
  "registrationCredentialSchema c =
     (credentialSchema c \<and> len_in 1 65536 (wr_attestationObject c)
      \<and> (case wr_transports c of None \<Rightarrow> True | Some ts \<Rightarrow> length ts \<le> 16 \<and> list_all (len_in 0 64) ts)
      \<and> opt_len 0 16384 (wr_authenticatorData c) \<and> opt_len 0 65536 (wr_publicKey c))"

definition authenticationCredentialSchema :: "authentication_credential \<Rightarrow> bool" where
  "authenticationCredentialSchema c =
     (credentialSchema c \<and> len_in 1 16384 (wa_authenticatorData c) \<and> len_in 1 16384 (wa_signature c)
      \<and> opt_len 0 4096 (wa_userHandle c))"

definition nicknameSchema :: "string option \<Rightarrow> string option option" where
  "nicknameSchema x =
     (case x of None \<Rightarrow> Some None
      | Some s \<Rightarrow> if len_in 1 64 (js_trim s) then Some (Some (js_trim s)) else None)"

section \<open>Passkeys\<close>

text \<open>The WebAuthn library: the challenge it generates, and its checks of a registration and of an assertion, which raise
  (\<open>None\<close>) or give a verdict.  A check is given the expected challenge, origin and relying party, and an assertion also
  the stored credential.\<close>

record registration_info =
  ri_credentialId :: string
  ri_publicKey :: string
  ri_counter :: int
  ri_transports :: "string list option"
  ri_deviceType :: string
  ri_backedUp :: bool

record stored_credential =
  sc_id :: string
  sc_publicKey :: string
  sc_counter :: int
  sc_transports :: "string list"

record webauthn =
  wn_challenge :: string
  wn_verifyRegistration :: "registration_credential \<Rightarrow> string \<Rightarrow> string \<Rightarrow> string \<Rightarrow> (bool \<times> registration_info option) option"
  wn_verifyAuthentication :: "authentication_credential \<Rightarrow> string \<Rightarrow> string \<Rightarrow> string \<Rightarrow> stored_credential \<Rightarrow> (bool \<times> int) option"

definition challengeTtlSeconds :: int where
  "challengeTtlSeconds = 300"

definition invalidPasskey :: identity_error where
  "invalidPasskey = AuthError ''PASSKEY_FAILED'' 401"

definition registration_key :: "identity_env \<Rightarrow> identity_config \<Rightarrow> string \<Rightarrow> string" where
  "registration_key env cfg challenge = identity_key cfg [''webauthn'', ''registration'', id_sha256 env challenge]"

definition authentication_key :: "identity_env \<Rightarrow> identity_config \<Rightarrow> string \<Rightarrow> string" where
  "authentication_key env cfg challenge = identity_key cfg [''webauthn'', ''authentication'', id_sha256 env challenge]"

record registration_options =
  ro_challenge :: string
  ro_excluded :: "(string \<times> string list) list"

definition registrationOptions ::
  "identity_env \<Rightarrow> identity_config \<Rightarrow> webauthn \<Rightarrow> string \<Rightarrow> string \<Rightarrow> registration_options identity_op" where
  "registrationOptions env cfg w sessionId csrfToken =
     opThen (session_authorize env cfg sessionId csrfToken) (\<lambda>userId.
     opThen (opRead (\<lambda>st. filter (\<lambda>p. pk_userId p = userId \<and> pk_revokedAt p = None) (st_passkeys st))) (\<lambda>credentials.
     opThen (opModify (\<lambda>st. st\<lparr>st_registrations :=
       rset (id_now env) (registration_key env cfg (wn_challenge w)) (userId, id_sha256 env sessionId) challengeTtlSeconds (st_registrations st)\<rparr>)) (\<lambda>_.
     opReturn \<lparr>ro_challenge = wn_challenge w, ro_excluded = map (\<lambda>p. (pk_credentialId p, pk_transports p)) credentials\<rparr>)))"

definition passkey_create :: "passkey_row \<Rightarrow> unit identity_op" where
  "passkey_create p st =
     (if list_ex (\<lambda>r. pk_id r = pk_id p \<or> pk_credentialId r = pk_credentialId p) (st_passkeys st) then (Inl IdentityUniqueViolation, st)
      else (Inr (), st\<lparr>st_passkeys := st_passkeys st @ [p]\<rparr>))"

definition new_passkey :: "identity_env \<Rightarrow> string \<Rightarrow> string option \<Rightarrow> registration_info \<Rightarrow> passkey_row" where
  "new_passkey env userId nickname info =
     \<lparr>pk_id = id_uuid env 1, pk_userId = userId, pk_credentialId = ri_credentialId info, pk_publicKey = ri_publicKey info,
      pk_counter = ri_counter info, pk_transports = (case ri_transports info of Some ts \<Rightarrow> ts | None \<Rightarrow> []),
      pk_deviceType = ri_deviceType info, pk_backedUp = ri_backedUp info, pk_nickname = nickname, pk_lastUsedAt = None,
      pk_revokedAt = None\<rparr>"

definition take_registration :: "identity_env \<Rightarrow> string \<Rightarrow> (string \<times> string) option identity_op" where
  "take_registration env k st =
     (Inr (rget (id_now env) (st_registrations st) k), st\<lparr>st_registrations := rdel k (st_registrations st)\<rparr>)"

definition verifyRegistration ::
  "identity_env \<Rightarrow> identity_config \<Rightarrow> webauthn \<Rightarrow> string \<Rightarrow> string \<Rightarrow> string \<Rightarrow> registration_credential \<Rightarrow> string option \<Rightarrow> string \<Rightarrow> unit identity_op" where
  "verifyRegistration env cfg w sessionId csrfToken challenge credential nickname correlationId =
     opThen (session_authorize env cfg sessionId csrfToken) (\<lambda>userId.
     opThen (take_registration env (registration_key env cfg challenge)) (\<lambda>raw.
     case raw of
       None \<Rightarrow> opFail invalidPasskey
     | Some (owner, sessionHash) \<Rightarrow>
         if owner \<noteq> userId \<or> \<not> timingSafeStringEqual sessionHash (id_sha256 env sessionId) then opFail invalidPasskey
         else (case wn_verifyRegistration w credential challenge (ic_webauthnOrigin cfg) (ic_webauthnRpId cfg) of
                 None \<Rightarrow> opFail WebAuthnError
               | Some (verified, infoOpt) \<Rightarrow>
           (case infoOpt of
              None \<Rightarrow> opFail invalidPasskey
            | Some info \<Rightarrow>
                if \<not> verified then opFail invalidPasskey
                else opThen (passkey_create (new_passkey env userId nickname info)) (\<lambda>_.
                     record_event env \<lparr>cx_correlationId = correlationId, cx_ipHash = None, cx_userAgent = None\<rparr> (Some userId) None
                       ''PASSKEY_REGISTERED'' ''SUCCESS'')))))"

definition authenticationOptions :: "identity_env \<Rightarrow> identity_config \<Rightarrow> webauthn \<Rightarrow> string \<Rightarrow> string identity_op" where
  "authenticationOptions env cfg w ipHash =
     opThen (count_up env (identity_key cfg [''webauthn'', ''rate'', ipHash]) 3600) (\<lambda>rateCount.
     if 20 < rateCount then opFail (AuthError ''RATE_LIMITED'' 429)
     else opThen (opModify (\<lambda>st. st\<lparr>st_authentications :=
       rset (id_now env) (authentication_key env cfg (wn_challenge w)) ipHash challengeTtlSeconds (st_authentications st)\<rparr>)) (\<lambda>_.
     opReturn (wn_challenge w)))"

definition MAX_SAFE_INTEGER :: int where
  "MAX_SAFE_INTEGER = 9007199254740991"

definition take_authentication :: "identity_env \<Rightarrow> string \<Rightarrow> string option identity_op" where
  "take_authentication env k st =
     (Inr (rget (id_now env) (st_authentications st) k), st\<lparr>st_authentications := rdel k (st_authentications st)\<rparr>)"

definition to_stored :: "passkey_row \<Rightarrow> stored_credential" where
  "to_stored p =
     \<lparr>sc_id = pk_credentialId p, sc_publicKey = pk_publicKey p, sc_counter = pk_counter p, sc_transports = pk_transports p\<rparr>"

definition passkey_used :: "identity_env \<Rightarrow> int \<Rightarrow> passkey_row \<Rightarrow> passkey_row" where
  "passkey_used env newCounter p = p\<lparr>pk_counter := newCounter, pk_lastUsedAt := Some (id_now env)\<rparr>"

definition verifyAuthentication ::
  "identity_env \<Rightarrow> identity_config \<Rightarrow> webauthn \<Rightarrow> string \<Rightarrow> authentication_credential \<Rightarrow> string option \<Rightarrow> string \<Rightarrow> string \<Rightarrow> created_session identity_op" where
  "verifyAuthentication env cfg w challenge credential deviceId ipHash correlationId =
     opThen (take_authentication env (authentication_key env cfg challenge)) (\<lambda>raw.
     case raw of
       None \<Rightarrow> opFail invalidPasskey
     | Some storedIp \<Rightarrow>
         if \<not> timingSafeStringEqual storedIp ipHash then opFail invalidPasskey
         else opThen (opRead (\<lambda>st. find_by pk_credentialId (wc_id credential) (st_passkeys st))) (\<lambda>found.
     case found of
       None \<Rightarrow> opFail invalidPasskey
     | Some p \<Rightarrow>
         if pk_revokedAt p \<noteq> None then opFail invalidPasskey
         else if MAX_SAFE_INTEGER < pk_counter p then opFail invalidPasskey
         else (case wn_verifyAuthentication w credential challenge (ic_webauthnOrigin cfg) (ic_webauthnRpId cfg) (to_stored p) of
                 None \<Rightarrow> opFail WebAuthnError
               | Some (verified, newCounter) \<Rightarrow>
                   if \<not> verified \<or> 0 < pk_counter p \<and> newCounter < pk_counter p then opFail invalidPasskey
                   else opThen (opModify (\<lambda>st. st\<lparr>st_passkeys := update_by pk_id (pk_id p) (passkey_used env newCounter) (st_passkeys st)\<rparr>)) (\<lambda>_.
                        opThen (record_event env \<lparr>cx_correlationId = correlationId, cx_ipHash = Some ipHash, cx_userAgent = None\<rparr>
                                 (Some (pk_userId p)) None ''PASSKEY_LOGIN_SUCCEEDED'' ''SUCCESS'') (\<lambda>_.
                        session_create env cfg (pk_userId p) PASSKEY deviceId)))))"

section \<open>The controller\<close>

record http_headers =
  hd_clientIpHash :: "string option"
  hd_ip :: "string option"
  hd_aegisUserAgent :: "string option"
  hd_userAgent :: "string option"
  hd_correlationId :: string
  hd_sessionId :: "string option"
  hd_csrf :: "string option"

definition is_hex_digit :: "char \<Rightarrow> bool" where
  "is_hex_digit c = (is_digit c \<or> CHR ''a'' \<le> c \<and> c \<le> CHR ''f'')"

definition request_ip :: "identity_env \<Rightarrow> http_headers \<Rightarrow> string" where
  "request_ip env r =
     (let supplied = (case hd_clientIpHash r of Some s \<Rightarrow> s | None \<Rightarrow> []) in
      if length supplied = 64 \<and> list_all is_hex_digit supplied then supplied
      else id_sha256 env (if nonempty (hd_ip r) then the (hd_ip r) else ''unknown''))"

definition requestContext :: "identity_env \<Rightarrow> http_headers \<Rightarrow> request_context" where
  "requestContext env r =
     \<lparr>cx_correlationId = hd_correlationId r, cx_ipHash = Some (request_ip env r),
      cx_userAgent = (if nonempty (map_option (take 512) (hd_aegisUserAgent r)) then map_option (take 512) (hd_aegisUserAgent r)
                      else hd_userAgent r)\<rparr>"

definition requiredHeader :: "string option \<Rightarrow> string \<Rightarrow> string identity_op" where
  "requiredHeader x code =
     (case x of None \<Rightarrow> opFail (AuthError code 401)
      | Some s \<Rightarrow> if js_trim s = [] then opFail (AuthError code 401) else opReturn (js_trim s))"

definition invalidRequest :: identity_error where
  "invalidRequest = AuthError ''INVALID_REQUEST'' 400"

definition parsed :: "'a option \<Rightarrow> 'a identity_op" where
  "parsed x = (case x of None \<Rightarrow> opFail invalidRequest | Some y \<Rightarrow> opReturn y)"

definition checked :: "bool \<Rightarrow> unit identity_op" where
  "checked b = (if b then opReturn () else opFail invalidRequest)"

datatype auth_request =
    RequestOnboardingOtp string string bool "string option"
  | VerifyOnboardingOtp string string string
  | CreatePin string string string "string option"
  | RequestFallbackOtp string string "string option"
  | FallbackLogin string string string string "string option"
  | GetSession
  | StepUpTransfer string
  | Logout
  | RegistrationOptions
  | VerifyRegistration string registration_credential "string option"
  | AuthenticationOptions
  | VerifyAuthentication string authentication_credential "string option"
  | RevokeSession string string

datatype auth_response =
    OtpAccepted otp_request_result
  | Enrolled enrollment_result
  | SessionCreated created_session
  | SessionRead session_response
  | StepUpVerified
  | LoggedOut
  | RegistrationChallenge registration_options
  | PasskeyVerified
  | AuthenticationChallenge string
  | SessionControlled bool

definition answer :: "('a \<Rightarrow> auth_response) \<Rightarrow> 'a identity_op \<Rightarrow> auth_response identity_op" where
  "answer f m = opThen m (\<lambda>x. opReturn (f x))"

definition auth_handle ::
  "identity_env \<Rightarrow> identity_config \<Rightarrow> webauthn \<Rightarrow> (string \<Rightarrow> bool) \<Rightarrow> http_headers \<Rightarrow> auth_request \<Rightarrow> auth_response identity_op" where
  "auth_handle env cfg w uuid r req =
     (let cx = requestContext env r in
      case req of
        RequestOnboardingOtp phone language consent device \<Rightarrow>
          opThen (parsed (e164PhoneSchema phone)) (\<lambda>p.
          opThen (checked (preferredLanguageSchema language \<and> consent)) (\<lambda>_.
          opThen (parsed (deviceIdSchema device)) (\<lambda>_.
          answer OtpAccepted (onboarding_requestOtp env cfg p language cx))))
      | VerifyOnboardingOtp phone challengeId otp \<Rightarrow>
          opThen (parsed (e164PhoneSchema phone)) (\<lambda>p.
          opThen (checked (uuid challengeId \<and> sixDigits otp)) (\<lambda>_.
          answer Enrolled (onboarding_verifyOtp env cfg p challengeId otp cx)))
      | CreatePin token pin confirmation device \<Rightarrow>
          opThen (checked (len_in 32 512 token \<and> securePrototypePinSchema pin \<and> sixDigits confirmation \<and> pin = confirmation)) (\<lambda>_.
          opThen (parsed (deviceIdSchema device)) (\<lambda>d.
          answer SessionCreated (onboarding_createPin env cfg token pin d cx)))
      | RequestFallbackOtp phone pin device \<Rightarrow>
          opThen (parsed (e164PhoneSchema phone)) (\<lambda>p.
          opThen (checked (sixDigits pin)) (\<lambda>_.
          opThen (parsed (deviceIdSchema device)) (\<lambda>_.
          answer OtpAccepted (fallback_requestOtp env cfg p pin cx))))
      | FallbackLogin phone pin challengeId otp device \<Rightarrow>
          opThen (parsed (e164PhoneSchema phone)) (\<lambda>p.
          opThen (checked (sixDigits pin \<and> uuid challengeId \<and> sixDigits otp)) (\<lambda>_.
          opThen (parsed (deviceIdSchema device)) (\<lambda>d.
          answer SessionCreated (fallback_login env cfg p pin challengeId otp d cx))))
      | GetSession \<Rightarrow>
          opThen (requiredHeader (hd_sessionId r) ''UNAUTHENTICATED'') (\<lambda>sid.
          answer SessionRead (session_get env cfg sid))
      | StepUpTransfer pin \<Rightarrow>
          opThen (requiredHeader (hd_sessionId r) ''UNAUTHENTICATED'') (\<lambda>sid.
          opThen (checked (sixDigits pin)) (\<lambda>_.
          answer (\<lambda>_. StepUpVerified) (step_up_verify env cfg sid pin cx)))
      | Logout \<Rightarrow>
          opThen (requiredHeader (hd_sessionId r) ''UNAUTHENTICATED'') (\<lambda>sid.
          opThen (requiredHeader (hd_csrf r) ''INVALID_CSRF'') (\<lambda>csrf.
          answer (\<lambda>_. LoggedOut) (session_revoke env cfg sid csrf)))
      | RegistrationOptions \<Rightarrow>
          opThen (requiredHeader (hd_sessionId r) ''UNAUTHENTICATED'') (\<lambda>sid.
          opThen (requiredHeader (hd_csrf r) ''INVALID_CSRF'') (\<lambda>csrf.
          answer RegistrationChallenge (registrationOptions env cfg w sid csrf)))
      | VerifyRegistration challenge credential nickname \<Rightarrow>
          opThen (requiredHeader (hd_sessionId r) ''UNAUTHENTICATED'') (\<lambda>sid.
          opThen (requiredHeader (hd_csrf r) ''INVALID_CSRF'') (\<lambda>csrf.
          opThen (checked (len_in 16 4096 challenge \<and> registrationCredentialSchema credential)) (\<lambda>_.
          opThen (parsed (nicknameSchema nickname)) (\<lambda>name.
          answer (\<lambda>_. PasskeyVerified)
            (verifyRegistration env cfg w sid csrf challenge credential name (hd_correlationId r))))))
      | AuthenticationOptions \<Rightarrow> answer AuthenticationChallenge (authenticationOptions env cfg w (request_ip env r))
      | VerifyAuthentication challenge credential device \<Rightarrow>
          opThen (checked (len_in 16 4096 challenge \<and> authenticationCredentialSchema credential)) (\<lambda>_.
          opThen (parsed (deviceIdSchema device)) (\<lambda>d.
          answer SessionCreated
            (verifyAuthentication env cfg w challenge credential d (request_ip env r) (hd_correlationId r))))
      | RevokeSession controlId reasonCode \<Rightarrow>
          answer SessionControlled
            (session_control env cfg (case hd_sessionId r of Some s \<Rightarrow> s | None \<Rightarrow> []) uuid controlId reasonCode cx))"

section \<open>What every request keeps\<close>

definition has_user :: "string \<Rightarrow> identity_state \<Rightarrow> bool" where
  "has_user userId st = (userId \<in> u_id ` set (st_users st))"

definition account_ok :: "pin_row list \<Rightarrow> user_row \<Rightarrow> bool" where
  "account_ok pins u =
     (((u_status u = US_PENDING) = (u_id u \<notin> pn_userId ` set pins)) \<and> u_phoneVerifiedAt u \<noteq> None
      \<and> (u_status u = US_ACTIVE \<longrightarrow> 0 \<le> u_failedLoginCount u \<and> u_failedLoginCount u < maxFailures)
      \<and> (u_status u = US_LOCKED \<longrightarrow> u_lockedUntil u \<noteq> None \<and> maxFailures \<le> u_failedLoginCount u))"

definition session_ok :: "identity_config \<Rightarrow> stored_session \<Rightarrow> bool" where
  "session_ok cfg v = (ss_absoluteExpiresAt v = ss_createdAt v + sessionAbsoluteTtlSeconds cfg * 1000)"

definition accounts_ok :: "identity_state \<Rightarrow> bool" where
  "accounts_ok st =
     (distinct (map u_id (st_users st)) \<and> distinct (map u_phoneE164 (st_users st))
      \<and> distinct (map pn_userId (st_pins st)) \<and> pn_userId ` set (st_pins st) \<subseteq> u_id ` set (st_users st)
      \<and> (\<forall>u \<in> set (st_users st). account_ok (st_pins st) u))"

definition passkeys_ok :: "identity_state \<Rightarrow> bool" where
  "passkeys_ok st =
     (distinct (map pk_id (st_passkeys st)) \<and> distinct (map pk_credentialId (st_passkeys st))
      \<and> (\<forall>p \<in> set (st_passkeys st). has_user (pk_userId p) st))"

definition sessions_ok :: "identity_config \<Rightarrow> identity_state \<Rightarrow> bool" where
  "sessions_ok cfg st = (\<forall>(k, v, t) \<in> set (st_sessions st). session_ok cfg v \<and> has_user (ss_userId v) st)"

definition identity_ok :: "identity_config \<Rightarrow> identity_state \<Rightarrow> bool" where
  "identity_ok cfg st =
     (accounts_ok st \<and> passkeys_ok st \<and> sessions_ok cfg st
      \<and> (\<forall>(k, v, t) \<in> set (st_enrollments st). has_user v st))"

lemma identity_ok_frame:
  assumes "st_users st' = st_users st" "st_pins st' = st_pins st" "st_passkeys st' = st_passkeys st"
    and "st_sessions st' = st_sessions st" "st_enrollments st' = st_enrollments st"
  shows "identity_ok cfg st' = identity_ok cfg st" "has_user u st' = has_user u st"
  using assms by (simp_all add: identity_ok_def accounts_ok_def passkeys_ok_def sessions_ok_def has_user_def)

lemma identity_ok_events [simp]:
  "identity_ok cfg (st\<lparr>st_authEvents := x\<rparr>) = identity_ok cfg st" "has_user u (st\<lparr>st_authEvents := x\<rparr>) = has_user u st"
  "identity_ok cfg (st\<lparr>st_riskEvents := y\<rparr>) = identity_ok cfg st" "has_user u (st\<lparr>st_riskEvents := y\<rparr>) = has_user u st"
  "identity_ok cfg (st\<lparr>st_counters := c\<rparr>) = identity_ok cfg st" "has_user u (st\<lparr>st_counters := c\<rparr>) = has_user u st"
  "identity_ok cfg (st\<lparr>st_locks := z\<rparr>) = identity_ok cfg st" "has_user u (st\<lparr>st_locks := z\<rparr>) = has_user u st"
  "identity_ok cfg (st\<lparr>st_challenges := d\<rparr>) = identity_ok cfg st" "has_user u (st\<lparr>st_challenges := d\<rparr>) = has_user u st"
  "identity_ok cfg (st\<lparr>st_cooldowns := e\<rparr>) = identity_ok cfg st" "has_user u (st\<lparr>st_cooldowns := e\<rparr>) = has_user u st"
  "identity_ok cfg (st\<lparr>st_registrations := g\<rparr>) = identity_ok cfg st" "has_user u (st\<lparr>st_registrations := g\<rparr>) = has_user u st"
  "identity_ok cfg (st\<lparr>st_authentications := h\<rparr>) = identity_ok cfg st" "has_user u (st\<lparr>st_authentications := h\<rparr>) = has_user u st"
  by (rule identity_ok_frame; simp)+

lemma has_user_stores [simp]:
  "has_user u (st\<lparr>st_sessions := x\<rparr>) = has_user u st" "has_user u (st\<lparr>st_enrollments := y\<rparr>) = has_user u st"
  "has_user u (st\<lparr>st_passkeys := z\<rparr>) = has_user u st" "has_user u (st\<lparr>st_pins := p\<rparr>) = has_user u st"
  by (simp_all add: has_user_def)

lemma set_rdel: "set (rdel k store) \<subseteq> set store"
  by (auto simp: rdel_def)

lemma rget_member: "rget now store k = Some v \<Longrightarrow> \<exists>j t. (j, v, t) \<in> set store"
  unfolding rget_def rlive_def
  by (auto split: option.splits prod.splits if_splits dest!: find_by_Some)

lemma keeps_sessions_del:
  "identity_ok cfg st \<Longrightarrow> identity_ok cfg (st\<lparr>st_sessions := rdel k (st_sessions st)\<rparr>)"
  using set_rdel [of k "st_sessions st"]
  by (auto simp: identity_ok_def accounts_ok_def passkeys_ok_def sessions_ok_def)

lemma keeps_sessions_set:
  "identity_ok cfg st \<Longrightarrow> session_ok cfg v \<Longrightarrow> has_user (ss_userId v) st
     \<Longrightarrow> identity_ok cfg (st\<lparr>st_sessions := rset now k v ttl (st_sessions st)\<rparr>)"
  using set_rdel [of k "st_sessions st"]
  by (auto simp: identity_ok_def accounts_ok_def passkeys_ok_def sessions_ok_def rset_def)

lemma keeps_enrollments_set:
  "identity_ok cfg st \<Longrightarrow> has_user u st \<Longrightarrow> identity_ok cfg (st\<lparr>st_enrollments := rset now k u ttl (st_enrollments st)\<rparr>)"
  using set_rdel [of k "st_enrollments st"]
  by (auto simp: identity_ok_def accounts_ok_def passkeys_ok_def sessions_ok_def rset_def)

lemma keeps_enrollments_del:
  "identity_ok cfg st \<Longrightarrow> identity_ok cfg (st\<lparr>st_enrollments := rdel k (st_enrollments st)\<rparr>)"
  using set_rdel [of k "st_enrollments st"]
  by (auto simp: identity_ok_def accounts_ok_def passkeys_ok_def sessions_ok_def)

lemma stored_session_ok:
  "identity_ok cfg st \<Longrightarrow> rget now (st_sessions st) k = Some v \<Longrightarrow> session_ok cfg v \<and> has_user (ss_userId v) st"
  by (auto simp: identity_ok_def sessions_ok_def dest!: rget_member)

text \<open>An operation run in a state of the invariant in which the users \<open>S\<close> exist leaves such a state, loses no user, and
  when it returns \<open>x\<close> the users \<open>F x\<close> exist.\<close>

definition op_ok :: "identity_config \<Rightarrow> string set \<Rightarrow> 'a identity_op \<Rightarrow> ('a \<Rightarrow> string set) \<Rightarrow> bool" where
  "op_ok cfg S m F =
     (\<forall>st r st'. identity_ok cfg st \<longrightarrow> (\<forall>u \<in> S. has_user u st) \<longrightarrow> m st = (r, st') \<longrightarrow>
        identity_ok cfg st' \<and> (\<forall>u. has_user u st \<longrightarrow> has_user u st') \<and> (\<forall>x. r = Inr x \<longrightarrow> (\<forall>u \<in> F x. has_user u st')))"

named_theorems op_rules

lemma op_okI:
  assumes "\<And>st r st'. identity_ok cfg st \<Longrightarrow> \<forall>u \<in> S. has_user u st \<Longrightarrow> m st = (r, st') \<Longrightarrow>
     identity_ok cfg st' \<and> (\<forall>u. has_user u st \<longrightarrow> has_user u st') \<and> (\<forall>x. r = Inr x \<longrightarrow> (\<forall>u \<in> F x. has_user u st'))"
  shows "op_ok cfg S m F"
  using assms unfolding op_ok_def by blast

lemma op_ok_then:
  assumes "op_ok cfg S m F" and "\<And>x. op_ok cfg (S \<union> F x) (f x) G"
  shows "op_ok cfg S (opThen m f) G"
proof (rule op_okI)
  fix st r st'
  assume st: "identity_ok cfg st" "\<forall>u \<in> S. has_user u st" and run: "opThen m f st = (r, st')"
  obtain r1 st1 where m: "m st = (r1, st1)" by fastforce
  from assms(1) st m have 1: "identity_ok cfg st1" "\<And>u. has_user u st \<Longrightarrow> has_user u st1"
      "\<And>x u. r1 = Inr x \<Longrightarrow> u \<in> F x \<Longrightarrow> has_user u st1" unfolding op_ok_def by blast+
  show "identity_ok cfg st' \<and> (\<forall>u. has_user u st \<longrightarrow> has_user u st') \<and> (\<forall>x. r = Inr x \<longrightarrow> (\<forall>u \<in> G x. has_user u st'))"
  proof (cases r1)
    case (Inl err)
    with run m 1 show ?thesis by (auto simp: opThen_def)
  next
    case (Inr x)
    with run m have f: "f x st1 = (r, st')" by (simp add: opThen_def)
    have "\<forall>u \<in> S \<union> F x. has_user u st1" using 1 Inr st(2) by blast
    with assms(2) [of x] 1(1) f have "identity_ok cfg st' \<and> (\<forall>u. has_user u st1 \<longrightarrow> has_user u st')
        \<and> (\<forall>x. r = Inr x \<longrightarrow> (\<forall>u \<in> G x. has_user u st'))" unfolding op_ok_def by blast
    with 1(2) show ?thesis by blast
  qed
qed

lemma op_ok_plain [op_rules]:
  "op_ok cfg S m (\<lambda>_. {}) \<Longrightarrow> (\<And>x. op_ok cfg S (f x) G) \<Longrightarrow> op_ok cfg S (opThen m f) G"
  by (rule op_ok_then [where F = "\<lambda>_. {}"]) simp_all

lemma op_ok_fail [op_rules]: "op_ok cfg S (opFail err) F"
  by (simp add: op_ok_def opFail_def)

lemma op_ok_return [op_rules]: "F x \<subseteq> S \<Longrightarrow> op_ok cfg S (opReturn x) F"
  by (auto simp: op_ok_def opReturn_def)

lemma op_ok_read [op_rules]: "op_ok cfg S (opRead f) (\<lambda>_. {})"
  by (auto simp: op_ok_def opRead_def)

lemma op_ok_modify [op_rules]:
  "(\<And>st. identity_ok cfg st \<Longrightarrow> \<forall>u \<in> S. has_user u st \<Longrightarrow> identity_ok cfg (f st) \<and> (\<forall>u. has_user u st \<longrightarrow> has_user u (f st)))
     \<Longrightarrow> op_ok cfg S (opModify f) (\<lambda>_. {})"
  by (auto simp: op_ok_def opModify_def)

lemma op_ok_if [op_rules]:
  "(b \<Longrightarrow> op_ok cfg S m F) \<Longrightarrow> (\<not> b \<Longrightarrow> op_ok cfg S n F) \<Longrightarrow> op_ok cfg S (if b then m else n) F"
  by simp

lemma op_ok_option [op_rules]:
  "(x = None \<Longrightarrow> op_ok cfg S m F) \<Longrightarrow> (\<And>y. x = Some y \<Longrightarrow> op_ok cfg S (f y) F)
     \<Longrightarrow> op_ok cfg S (case x of None \<Rightarrow> m | Some y \<Rightarrow> f y) F"
  by (cases x) simp_all

lemma op_ok_record_event [op_rules]: "op_ok cfg S (record_event env cx u p e r) (\<lambda>_. {})"
  by (auto simp: op_ok_def record_event_def opModify_def)

lemma op_ok_count_up [op_rules]: "op_ok cfg S (count_up env k ttl) (\<lambda>_. {})"
  by (auto simp: op_ok_def count_up_def split: prod.splits)

lemma op_ok_safeUser [op_rules]: "op_ok cfg S (safeUser u) (\<lambda>_. {})"
  by (auto simp: op_ok_def safeUser_def split: option.splits if_splits)

lemma op_ok_session_create [op_rules]:
  "u \<in> S \<Longrightarrow> op_ok cfg S (session_create env cfg u authMethod device) (\<lambda>_. {})"
  unfolding session_create_def Let_def
  by (rule op_rules)+ (auto simp: new_session_def session_ok_def intro!: keeps_sessions_set op_rules)

lemma op_ok_session_read: "op_ok cfg S (session_read env cfg sid) (\<lambda>v. {ss_userId v})"
  unfolding session_read_def Let_def
  by (rule op_okI) (auto split: option.splits if_splits dest: stored_session_ok intro: keeps_sessions_del)

lemma op_ok_session_subject: "op_ok cfg S (session_subject env cfg sid) (\<lambda>u. {u})"
  unfolding session_subject_def by (rule op_ok_then [OF op_ok_session_read]) (rule op_rules, simp)

lemma op_ok_session_authorize: "op_ok cfg S (session_authorize env cfg sid csrf) (\<lambda>u. {u})"
  unfolding session_authorize_def requireCsrf_def
  by (rule op_ok_then [where F = "\<lambda>v. {ss_userId v}", OF op_ok_then [OF op_ok_session_read]]) (rule op_rules; simp)+

lemma op_ok_requireCsrf: "op_ok cfg S (requireCsrf env cfg sid csrf) (\<lambda>v. {ss_userId v})"
  unfolding requireCsrf_def by (rule op_ok_then [OF op_ok_session_read]) (rule op_rules; simp)+

lemma op_ok_weaken: "op_ok cfg S m F \<Longrightarrow> op_ok cfg S m (\<lambda>_. {})"
  unfolding op_ok_def by blast

lemma op_ok_session_get [op_rules]: "op_ok cfg S (session_get env cfg sid) (\<lambda>_. {})"
proof (rule op_okI)
  fix st r st'
  assume ok: "identity_ok cfg st" "\<forall>u \<in> S. has_user u st" and run: "session_get env cfg sid st = (r, st')"
  show "identity_ok cfg st' \<and> (\<forall>u. has_user u st \<longrightarrow> has_user u st') \<and> (\<forall>x. r = Inr x \<longrightarrow> (\<forall>u \<in> {}. has_user u st'))"
  proof (cases "rget (id_now env) (st_sessions st) (sessionKey env cfg sid)")
    case None
    with run ok show ?thesis by (auto simp: session_get_def session_read_def opThen_def)
  next
    case (Some v)
    note v = stored_session_ok [OF ok(1) Some]
    show ?thesis
    proof (cases "ss_absoluteExpiresAt v \<le> id_now env")
      case True
      with run Some ok show ?thesis by (auto simp: session_get_def session_read_def opThen_def intro: keeps_sessions_del)
    next
      case False
      let ?st = "st\<lparr>st_sessions := rset (id_now env) (sessionKey env cfg sid) (v\<lparr>ss_lastSeenAt := id_now env\<rparr>)
           (min (sessionIdleTtlSeconds cfg) (max 1 ((ss_absoluteExpiresAt v - id_now env) div 1000))) (st_sessions st)\<rparr>"
      have "identity_ok cfg ?st" using v ok(1) by (intro keeps_sessions_set) (simp_all add: session_ok_def)
      moreover have "st' = ?st" using run Some False
        by (auto simp: session_get_def session_read_def opThen_def opModify_def safeUser_def opReturn_def Let_def
            split: option.splits if_splits)
      ultimately show ?thesis by simp
    qed
  qed
qed

lemma op_ok_session_revoke [op_rules]: "op_ok cfg S (session_revoke env cfg sid csrf) (\<lambda>_. {})"
  unfolding session_revoke_def
  by (rule op_ok_then [OF op_ok_requireCsrf]) (rule op_rules, simp add: keeps_sessions_del)

lemma op_ok_revokeTrusted [op_rules]: "op_ok cfg S (revokeTrusted env cfg sid) (\<lambda>_. {})"
proof (rule op_okI)
  fix st r st'
  assume ok: "identity_ok cfg st" "\<forall>u \<in> S. has_user u st" and run: "revokeTrusted env cfg sid st = (r, st')"
  obtain r1 st1 where s: "session_subject env cfg sid st = (r1, st1)" by fastforce
  from op_ok_session_subject [of cfg S env sid] ok s have "identity_ok cfg st1" "\<forall>u. has_user u st \<longrightarrow> has_user u st1"
    unfolding op_ok_def by blast+
  with run s show "identity_ok cfg st' \<and> (\<forall>u. has_user u st \<longrightarrow> has_user u st') \<and> (\<forall>x. r = Inr x \<longrightarrow> (\<forall>u \<in> {}. has_user u st'))"
    by (auto simp: revokeTrusted_def keeps_sessions_del split: sum.splits identity_error.splits if_splits)
qed

lemma op_ok_session_control [op_rules]: "op_ok cfg S (session_control env cfg sid uuid c reason cx) (\<lambda>_. {})"
  unfolding session_control_def by (intro op_rules) simp_all

lemma op_ok_rateLimitAllows [op_rules]: "op_ok cfg S (rateLimitAllows env cfg phone ip) (\<lambda>_. {})"
  unfolding rateLimitAllows_def by (intro op_rules) simp_all

lemma op_ok_otp_request [op_rules]: "op_ok cfg S (otp_request env cfg phone purpose ip l c) (\<lambda>_. {})"
  unfolding otp_request_def Let_def by (intro op_rules) simp_all

lemma op_ok_otp_verify [op_rules]: "op_ok cfg S (otp_verify env cfg phone ch otp purpose) (\<lambda>_. {})"
  unfolding otp_verify_defs Let_def by (rule op_okI) (auto split: option.splits if_splits)

lemma op_ok_onboarding_requestOtp [op_rules]: "op_ok cfg S (onboarding_requestOtp env cfg phone l cx) (\<lambda>_. {})"
  unfolding onboarding_requestOtp_def by (intro op_rules) simp_all

lemma op_ok_step_up_verify [op_rules]: "op_ok cfg S (step_up_verify env cfg sid pin cx) (\<lambda>_. {})"
  unfolding step_up_verify_def step_up_user_def step_up_failure_def
  by (rule op_ok_then [OF op_ok_session_subject]) (intro op_rules; simp)

lemma op_ok_registrationOptions [op_rules]: "op_ok cfg S (registrationOptions env cfg w sid csrf) (\<lambda>_. {})"
  unfolding registrationOptions_def
  by (rule op_ok_then [OF op_ok_session_authorize]) (intro op_rules; simp)

lemma op_ok_authenticationOptions [op_rules]: "op_ok cfg S (authenticationOptions env cfg w ip) (\<lambda>_. {})"
  unfolding authenticationOptions_def by (intro op_rules) simp_all

lemma op_ok_takes [op_rules]:
  "op_ok cfg S (take_registration env k) (\<lambda>_. {})" "op_ok cfg S (take_authentication env k) (\<lambda>_. {})"
  by (auto simp: op_ok_def take_registration_def take_authentication_def)

lemma op_ok_passkey_create [op_rules]: "pk_userId p \<in> S \<Longrightarrow> op_ok cfg S (passkey_create p) (\<lambda>_. {})"
  by (rule op_okI) (auto simp: passkey_create_def identity_ok_def accounts_ok_def passkeys_ok_def sessions_ok_def list_ex_iff
      split: if_splits)

lemma op_ok_verifyRegistration [op_rules]: "op_ok cfg S (verifyRegistration env cfg w sid csrf ch c n co) (\<lambda>_. {})"
  unfolding verifyRegistration_def
  by (rule op_ok_then [OF op_ok_session_authorize]) (intro op_rules; auto simp: new_passkey_def intro!: op_rules split: prod.splits)

lemma has_user_update [simp]:
  assumes "\<And>u. u_id (f u) = u_id u"
  shows "has_user w (st\<lparr>st_users := update_by u_id k f (st_users st)\<rparr>) = has_user w st"
  using arg_cong [OF map_key_update_by [where key' = u_id and f = f and key = u_id and k = k and rows = "st_users st", OF assms], of set]
  by (simp add: has_user_def)

lemma keeps_user_update:
  assumes ok: "identity_ok cfg st" and f: "\<And>u. u_id (f u) = u_id u" "\<And>u. u_phoneE164 (f u) = u_phoneE164 u"
    and upd: "\<And>u. u \<in> set (st_users st) \<Longrightarrow> u_id u = k \<Longrightarrow> account_ok (st_pins st) u \<Longrightarrow> account_ok (st_pins st) (f u)"
  shows "identity_ok cfg (st\<lparr>st_users := update_by u_id k f (st_users st)\<rparr>)"
proof -
  have "u_id ` set (update_by u_id k f (st_users st)) = u_id ` set (st_users st)"
    using arg_cong [OF map_key_update_by [where key' = u_id and f = f and key = u_id and k = k and rows = "st_users st", OF f(1)], of set] by simp
  then have "accounts_ok (st\<lparr>st_users := update_by u_id k f (st_users st)\<rparr>)"
    using ok upd f by (auto simp: identity_ok_def accounts_ok_def set_update_by)
  with ok f show ?thesis by (simp add: identity_ok_def passkeys_ok_def sessions_ok_def)
qed

lemma account_of: "identity_ok cfg st \<Longrightarrow> u \<in> set (st_users st) \<Longrightarrow> account_ok (st_pins st) u"
  by (simp add: identity_ok_def accounts_ok_def)

lemma op_ok_onboard_user:
  assumes "\<And>u. existing = Some u \<Longrightarrow> u_id u \<in> S"
  shows "op_ok cfg S (onboard_user env phone ch existing) (\<lambda>u. {u_id u})"
proof (rule op_okI)
  fix st r st'
  assume ok: "identity_ok cfg st" "\<forall>u \<in> S. has_user u st" and run: "onboard_user env phone ch existing st = (r, st')"
  show "identity_ok cfg st' \<and> (\<forall>u. has_user u st \<longrightarrow> has_user u st') \<and> (\<forall>x. r = Inr x \<longrightarrow> (\<forall>u \<in> {u_id x}. has_user u st'))"
  proof (cases existing)
    case (Some u)
    define f where "f r = r\<lparr>u_phoneVerifiedAt := Some (id_now env),
        u_preferredLanguage := (case och_preferredLanguage ch of Some l \<Rightarrow> l | None \<Rightarrow> u_preferredLanguage r),
        u_consentAcceptedAt := (case och_consentAcceptedAt ch of Some t \<Rightarrow> t | None \<Rightarrow> id_now env)\<rparr>" for r :: user_row
    have f: "u_id (f x) = u_id x" "u_phoneE164 (f x) = u_phoneE164 x" "account_ok pins x \<Longrightarrow> account_ok pins (f x)" for x pins
      by (simp_all add: f_def account_ok_def)
    have st': "r = Inr (f u)" "st' = st\<lparr>st_users := update_by u_id (u_id u) f (st_users st)\<rparr>"
      using run by (simp_all add: Some onboard_user_def Let_def f_def [abs_def])
    have "has_user (u_id u) st" using assms Some ok(2) by simp
    with keeps_user_update [OF ok(1) f(1,2), of "u_id u"] f(3) show ?thesis by (simp add: st' f(1))
  next
    case None
    show ?thesis
    proof (cases "isl r")
      case True
      with run None ok show ?thesis by (auto simp: onboard_user_def Let_def split: if_splits)
    next
      case False
      then obtain u where st': "r = Inr u" "st' = st\<lparr>st_users := st_users st @ [u]\<rparr>" and u: "u_status u = US_PENDING" "u_phoneVerifiedAt u \<noteq> None"
          "\<And>x. x \<in> set (st_users st) \<Longrightarrow> u_id x \<noteq> u_id u \<and> u_phoneE164 x \<noteq> u_phoneE164 u"
        using run None by (auto simp: onboard_user_def Let_def list_ex_iff split: if_splits)
      have fresh: "u_id u \<notin> u_id ` set (st_users st)" "u_phoneE164 u \<notin> u_phoneE164 ` set (st_users st)" using u(3) by force+
      have "u_id u \<notin> pn_userId ` set (st_pins st)" using fresh(1) ok(1) by (auto simp: identity_ok_def accounts_ok_def)
      then have "account_ok (st_pins st) u" using u by (simp add: account_ok_def)
      then have "accounts_ok st'" using ok(1) fresh by (auto simp: st' identity_ok_def accounts_ok_def)
      moreover have keep: "has_user w st' = (has_user w st \<or> w = u_id u)" for w by (auto simp: st' has_user_def)
      moreover have "passkeys_ok st'" "sessions_ok cfg st'" "\<forall>(k, v, t) \<in> set (st_enrollments st'). has_user v st'"
        using ok(1) keep by (fastforce simp: identity_ok_def passkeys_ok_def sessions_ok_def st')+
      ultimately show ?thesis using st'(1) by (simp add: identity_ok_def)
    qed
  qed
qed

text \<open>The user a phone number leads to, and the one an enrolment token stands for, exist.\<close>

lemma op_ok_find_user: "op_ok cfg S (opRead (\<lambda>st. find_by u_phoneE164 phone (st_users st))) (\<lambda>x. u_id ` set_option x)"
  by (auto simp: op_ok_def opRead_def has_user_def dest: find_by_Some)

lemma op_ok_read_enrollment: "op_ok cfg S (opRead (\<lambda>st. rget now (st_enrollments st) k)) (\<lambda>x. set_option x)"
  by (auto simp: op_ok_def opRead_def identity_ok_def dest!: rget_member)

lemma op_ok_onboarding_verifyOtp [op_rules]: "op_ok cfg S (onboarding_verifyOtp env cfg phone c otp cx) (\<lambda>_. {})"
  unfolding onboarding_verifyOtp_def
  by (rule op_ok_plain, rule op_rules, rule op_ok_then [OF op_ok_find_user], rule op_ok_if, rule op_rules,
      rule op_ok_then [OF op_ok_onboard_user]) (auto intro!: op_rules keeps_enrollments_set)

lemma has_pin_upsert: "pn_userId ` set (upsert_pin env u h pins) = insert u (pn_userId ` set pins)"
proof (cases "find_by pn_userId u pins")
  case (Some p)
  let ?f = "\<lambda>p. p\<lparr>pn_pinHash := h, pn_algorithm := PIN_ALGORITHM, pn_rotatedAt := Some (id_now env)\<rparr>"
  have "map pn_userId (update_by pn_userId u ?f pins) = map pn_userId pins" by simp
  then have "pn_userId ` set (update_by pn_userId u ?f pins) = pn_userId ` set pins" by (metis list.set_map)
  then show ?thesis using Some find_by_Some [OF Some] by (auto simp: upsert_pin_def)
qed (simp add: upsert_pin_def)

lemma distinct_upsert: "distinct (map pn_userId pins) \<Longrightarrow> distinct (map pn_userId (upsert_pin env u h pins))"
  by (auto simp: upsert_pin_def find_by_None)

lemma op_ok_pin_transaction [op_rules]: "op_ok cfg S (pin_transaction env u h) (\<lambda>_. {})"
proof (rule op_okI)
  fix st r st'
  assume ok: "identity_ok cfg st" "\<forall>u \<in> S. has_user u st" and run: "pin_transaction env u h st = (r, st')"
  show "identity_ok cfg st' \<and> (\<forall>u. has_user u st \<longrightarrow> has_user u st') \<and> (\<forall>x. r = Inr x \<longrightarrow> (\<forall>u \<in> {}. has_user u st'))"
  proof (cases "find_by u_id u (st_users st)")
    case None
    with run ok show ?thesis by (auto simp: pin_transaction_def)
  next
    case (Some a)
    note a = find_by_Some [OF this]
    show ?thesis
    proof (cases "u_status a = US_PENDING")
      case False
      with run Some ok show ?thesis by (auto simp: pin_transaction_def)
    next
      case True
      let ?pins = "upsert_pin env u h (st_pins st)" and ?users = "update_by u_id u (activated env) (st_users st)"
      have st': "st' = st\<lparr>st_pins := ?pins, st_users := ?users\<rparr>" using run Some True by (simp add: pin_transaction_def)
      have ids: "map u_id ?users = map u_id (st_users st)" "map u_phoneE164 ?users = map u_phoneE164 (st_users st)"
        by (simp_all add: activated_def)
      then have ids': "u_id ` set ?users = u_id ` set (st_users st)" by (metis list.set_map)
      have keep: "has_user w st' = has_user w st" for w by (simp add: st' has_user_def ids')
      have "account_ok ?pins x" if "x \<in> set ?users" for x
        using that account_of [OF ok(1)]
        by (auto simp: set_update_by account_ok_def activated_def has_pin_upsert maxFailures_def)
      then have "accounts_ok st'" using ok(1) a ids ids' distinct_upsert
        by (auto simp: st' identity_ok_def accounts_ok_def has_pin_upsert)
      with ok(1) keep show ?thesis by (simp add: identity_ok_def passkeys_ok_def sessions_ok_def) (simp add: st')
    qed
  qed
qed

lemma op_ok_onboarding_createPin [op_rules]: "op_ok cfg S (onboarding_createPin env cfg t pin d cx) (\<lambda>_. {})"
  unfolding onboarding_createPin_def Let_def
  by (rule op_ok_then [OF op_ok_read_enrollment]) (auto intro!: op_rules keeps_enrollments_del split: option.splits)

lemma failed_login_simps [simp]:
  "u_id (failed_login env user r) = u_id r" "u_phoneE164 (failed_login env user r) = u_phoneE164 r"
  "u_phoneVerifiedAt (failed_login env user r) = u_phoneVerifiedAt r"
  by (simp_all add: failed_login_def Let_def)

lemma account_ok_failed: "account_ok pins u \<Longrightarrow> u_status u \<noteq> US_PENDING \<Longrightarrow> account_ok pins (failed_login env u u)"
  by (auto simp: account_ok_def failed_login_def Let_def)

lemma account_ok_activated: "account_ok pins u \<Longrightarrow> u_status u \<noteq> US_PENDING \<Longrightarrow> account_ok pins (activated env u)"
  by (auto simp: account_ok_def activated_def maxFailures_def)

lemma user_by_id: "identity_ok cfg st \<Longrightarrow> u \<in> set (st_users st) \<Longrightarrow> v \<in> set (st_users st) \<Longrightarrow> u_id u = u_id v \<Longrightarrow> u = v"
  by (auto simp: identity_ok_def accounts_ok_def distinct_map dest: inj_onD)

lemma op_ok_fallback_verifyPin: "op_ok cfg S (fallback_verifyPin env phone pin cx) (\<lambda>u. {u_id u})"
proof (rule op_okI)
  fix st r st'
  assume ok: "identity_ok cfg st" "\<forall>u \<in> S. has_user u st" and run: "fallback_verifyPin env phone pin cx st = (r, st')"
  show "identity_ok cfg st' \<and> (\<forall>u. has_user u st \<longrightarrow> has_user u st') \<and> (\<forall>x. r = Inr x \<longrightarrow> (\<forall>u \<in> {u_id x}. has_user u st'))"
  proof (cases "st' = st")
    case True
    with ok run show ?thesis by (auto simp: has_user_def dest!: fallback_verifyPin_Inr dest: find_by_Some)
  next
    case False
    then obtain u cred where u: "find_by u_phoneE164 phone (st_users st) = Some u" and pin: "find_by pn_userId (u_id u) (st_pins st) = Some cred"
      using run by (auto simp: fallback_verifyPin_def split: option.splits)
    let ?st = "st\<lparr>st_users := update_by u_id (u_id u) (failed_login env u) (st_users st)\<rparr>"
    have mem: "u \<in> set (st_users st)" using find_by_Some [OF u] by simp
    have "u_id u \<in> pn_userId ` set (st_pins st)" using find_by_Some [OF pin] by force
    with account_of [OF ok(1) mem] have np: "u_status u \<noteq> US_PENDING" by (simp add: account_ok_def)
    have "identity_ok cfg ?st" using ok(1)
      by (rule keeps_user_update) (auto simp: account_ok_failed np dest: user_by_id [OF ok(1) _ mem])
    moreover have "\<exists>es rs. st' = ?st\<lparr>st_authEvents := es, st_riskEvents := rs\<rparr>" "isl r"
      using run u pin False by (auto simp: fallback_verifyPin_def op_defs record_event_def split: if_splits)
    ultimately show ?thesis by auto
  qed
qed

lemma op_ok_fallback_requestOtp [op_rules]: "op_ok cfg S (fallback_requestOtp env cfg phone pin cx) (\<lambda>_. {})"
  unfolding fallback_requestOtp_def by (rule op_ok_then [OF op_ok_fallback_verifyPin]) (intro op_rules; simp)

lemma otp_verify_frame: "st_users (snd (otp_verify env cfg phone c otp purpose st)) = st_users st"
    "st_pins (snd (otp_verify env cfg phone c otp purpose st)) = st_pins st"
  by (auto simp: otp_verify_defs Let_def split: option.splits)

lemma op_ok_fallback_login [op_rules]: "op_ok cfg S (fallback_login env cfg phone pin c otp d cx) (\<lambda>_. {})"
proof (rule op_okI)
  fix st r st'
  assume ok: "identity_ok cfg st" "\<forall>u \<in> S. has_user u st" and run: "fallback_login env cfg phone pin c otp d cx st = (r, st')"
  let ?goal = "identity_ok cfg st' \<and> (\<forall>u. has_user u st \<longrightarrow> has_user u st') \<and> (\<forall>x. r = Inr x \<longrightarrow> (\<forall>u \<in> {}. has_user u st'))"
  obtain r1 st1 where v: "fallback_verifyPin env phone pin cx st = (r1, st1)" by fastforce
  obtain r2 st2 where o: "otp_verify env cfg phone c otp FALLBACK st1 = (r2, st2)" by fastforce
  from op_ok_fallback_verifyPin [of cfg S env phone pin cx] ok v have 1: "identity_ok cfg st1" "\<forall>u. has_user u st \<longrightarrow> has_user u st1"
    unfolding op_ok_def by blast+
  from op_ok_otp_verify [of cfg "{}" env phone c otp FALLBACK] 1(1) o have 2: "identity_ok cfg st2" "\<forall>u. has_user u st1 \<longrightarrow> has_user u st2"
    unfolding op_ok_def by blast+
  show ?goal
  proof (cases "isl r1 \<or> isl r2")
    case True
    with run v o 1 2 show ?thesis by (auto simp: fallback_login_def opThen_def split: sum.splits)
  next
    case False
    then obtain u y where r: "r1 = Inr u" "r2 = Inr y" by (cases r1; cases r2) auto
    let ?st = "st2\<lparr>st_users := update_by u_id (u_id u) (activated env) (st_users st2)\<rparr>"
    from fallback_verifyPin_Inr [OF v [unfolded r]] have u: "st1 = st" "find_by u_phoneE164 phone (st_users st) = Some u" "u_status u \<noteq> US_PENDING" by auto
    have fr: "st_users st2 = st_users st" using otp_verify_frame [of env cfg phone c otp FALLBACK st1] o u by simp
    then have mem: "u \<in> set (st_users st2)" using find_by_Some [OF u(2)] by simp
    have 3: "identity_ok cfg ?st" using 2(1)
      by (rule keeps_user_update) (auto simp: activated_def [of env] account_ok_activated [unfolded activated_def] u(3) dest: user_by_id [OF 2(1) _ mem])
    have 4: "has_user w ?st = has_user w st2" for w by (simp add: activated_def)
    have "op_ok cfg {u_id u} (opThen (record_event env cx (Some (u_id u)) (Some phone) ''PIN_LOGIN_SUCCEEDED'' ''SUCCESS'')
        (\<lambda>_. session_create env cfg (u_id u) PIN_OTP d)) (\<lambda>_. {})" by (intro op_rules) simp
    moreover have "opThen (record_event env cx (Some (u_id u)) (Some phone) ''PIN_LOGIN_SUCCEEDED'' ''SUCCESS'')
        (\<lambda>_. session_create env cfg (u_id u) PIN_OTP d) ?st = (r, st')"
      using run v o r by (simp add: fallback_login_def opThen_def opModify_def)
    moreover have "has_user (u_id u) st2" using mem by (auto simp: has_user_def)
    ultimately have "identity_ok cfg st'" "\<forall>w. has_user w ?st \<longrightarrow> has_user w st'" using 3 4
      unfolding op_ok_def by blast+
    with 1 2 4 show ?thesis by auto
  qed
qed

lemma keeps_passkey_used:
  assumes "identity_ok cfg st"
  shows "identity_ok cfg (st\<lparr>st_passkeys := update_by pk_id k (passkey_used env n) (st_passkeys st)\<rparr>)"
  using assms by (auto simp: identity_ok_def accounts_ok_def passkeys_ok_def sessions_ok_def passkey_used_def set_update_by)

lemma op_ok_find_passkey: "op_ok cfg S (opRead (\<lambda>st. find_by pk_credentialId c (st_passkeys st))) (\<lambda>x. pk_userId ` set_option x)"
  by (auto simp: op_ok_def opRead_def identity_ok_def passkeys_ok_def dest: find_by_Some)

lemma op_ok_verifyAuthentication [op_rules]: "op_ok cfg S (verifyAuthentication env cfg w ch c d ip co) (\<lambda>_. {})"
  unfolding verifyAuthentication_def
  by (rule op_ok_plain, rule op_rules, rule op_ok_option, rule op_rules, rule op_ok_if, rule op_rules,
      rule op_ok_then [OF op_ok_find_passkey]) (auto intro!: op_rules keeps_passkey_used split: option.splits prod.splits)

lemma op_ok_answer [op_rules]: "op_ok cfg S m (\<lambda>_. {}) \<Longrightarrow> op_ok cfg S (answer f m) (\<lambda>_. {})"
  unfolding answer_def by (intro op_rules) simp_all

lemma op_ok_requiredHeader [op_rules]: "op_ok cfg S (requiredHeader x code) (\<lambda>_. {})"
  unfolding requiredHeader_def by (intro op_rules) simp

lemma op_ok_parsed [op_rules]: "op_ok cfg S (parsed x) (\<lambda>_. {})" "op_ok cfg S (checked b) (\<lambda>_. {})"
  unfolding parsed_def checked_def by (intro op_rules; simp)+

lemma auth_handle_ok: "op_ok cfg {} (auth_handle env cfg w uuid r req) (\<lambda>_. {})"
  unfolding auth_handle_def Let_def by (cases req) (simp_all only: auth_request.case, (intro op_rules)+)

section \<open>Histories\<close>

text \<open>The states of a service that started empty and answered any requests, at any times and with any answers of the
  libraries.\<close>

definition identity_empty :: identity_state where
  "identity_empty =
     \<lparr>st_users = [], st_pins = [], st_passkeys = [], st_authEvents = [], st_riskEvents = [], st_cooldowns = [], st_challenges = [],
      st_counters = [], st_locks = [], st_sessions = [], st_enrollments = [], st_registrations = [], st_authentications = []\<rparr>"

inductive identity_reachable :: "identity_config \<Rightarrow> identity_state \<Rightarrow> bool" for cfg where
  identity_start: "identity_reachable cfg identity_empty"
| identity_answer: "identity_reachable cfg st \<Longrightarrow> auth_handle env cfg w uuid r req st = (out, st') \<Longrightarrow> identity_reachable cfg st'"

lemma reachable_identity_ok: "identity_reachable cfg st \<Longrightarrow> identity_ok cfg st"
proof (induction rule: identity_reachable.induct)
  case identity_start
  show ?case by (simp add: identity_empty_def identity_ok_def accounts_ok_def passkeys_ok_def sessions_ok_def)
next
  case (identity_answer st env w uuid r req out st')
  with auth_handle_ok [of cfg env w uuid r req] show ?case unfolding op_ok_def by blast
qed

section \<open>A sample enrolment and a sample passkey\<close>

definition demo_webauthn :: webauthn where
  "demo_webauthn =
     \<lparr>wn_challenge = ''challenge-0000001'', wn_verifyRegistration = (\<lambda>_ _ _ _. None),
      wn_verifyAuthentication = (\<lambda>c ch o' rp sc. Some (wa_signature c = sc_publicKey sc, sc_counter sc + 1))\<rparr>"

definition demo_headers :: "string option \<Rightarrow> http_headers" where
  "demo_headers sid =
     \<lparr>hd_clientIpHash = None, hd_ip = Some ''1'', hd_aegisUserAgent = None, hd_userAgent = None, hd_correlationId = ''c'',
      hd_sessionId = sid, hd_csrf = None\<rparr>"

definition demo_token :: string where
  "demo_token = replicate 32 CHR ''k''"

definition demo_requests :: "(time \<times> string option \<times> auth_request) list" where
  "demo_requests =
     [(0, None, RequestOnboardingOtp ''+94771234567'' ''EN'' True None),
      (1000, None, VerifyOnboardingOtp ''+94771234567'' demo_token ''000007''),
      (2000, None, CreatePin demo_token ''135790'' ''135790'' None),
      (3000, Some demo_token, GetSession)]"

fun demo_run :: "(time \<times> string option \<times> auth_request) list \<Rightarrow> identity_state \<Rightarrow> identity_state" where
  "demo_run [] st = st"
| "demo_run ((t, sid, req) # reqs) st =
     demo_run reqs (snd (auth_handle (demo_identity_env demo_token t) demo_identity_cfg demo_webauthn (\<lambda>_. True) (demo_headers sid) req st))"

lemma demo_run_reachable: "identity_reachable demo_identity_cfg st \<Longrightarrow> identity_reachable demo_identity_cfg (demo_run reqs st)"
  by (induction reqs st rule: demo_run.induct) (auto intro: identity_answer [OF _ prod.collapse [symmetric]])

definition demo_passkey :: passkey_row where
  "demo_passkey =
     \<lparr>pk_id = ''k1'', pk_userId = ''u1'', pk_credentialId = ''cr'', pk_publicKey = ''pub'', pk_counter = 3, pk_transports = [],
      pk_deviceType = ''d'', pk_backedUp = False, pk_nickname = None, pk_lastUsedAt = None, pk_revokedAt = None\<rparr>"

definition demo_assertion :: authentication_credential where
  "demo_assertion =
     \<lparr>wc_id = ''cr'', wc_rawId = None, wc_type = ''public-key'', wc_authenticatorAttachment = None, wc_clientDataJSON = ''j'',
      wc_extensionResults = None, wa_authenticatorData = ''a'', wa_signature = ''pub'', wa_userHandle = None\<rparr>"

definition demo_passkey_state :: identity_state where
  "demo_passkey_state = (demo_identity US_ACTIVE 0)\<lparr>st_passkeys := [demo_passkey],
     st_authentications := [(authentication_key (demo_identity_env ''x'' 0) demo_identity_cfg ''ch'', ''ip'', Some 300000)]\<rparr>"

section \<open>Properties\<close>

text \<open>C25: whatever requests the identity service has answered, one after the other, an account with no PIN is PENDING and every other one has
  exactly one PIN, an ACTIVE account has fewer than five failed logins in a row and a LOCKED one an end of its lock,
  phone numbers, PINs and passkeys are unique and belong to an account, and a session that is accepted at some moment
  belongs to an existing account and is younger than the absolute lifetime of the configuration, however often it was
  refreshed.\<close>

theorem identity_history_consistent:
  assumes "identity_reachable cfg st"
  shows "distinct (map u_phoneE164 (st_users st)) \<and> distinct (map pn_userId (st_pins st)) \<and> distinct (map pk_credentialId (st_passkeys st))
    \<and> (\<forall>p \<in> set (st_passkeys st). has_user (pk_userId p) st)
    \<and> (\<forall>u \<in> set (st_users st). (u_status u = US_PENDING) = (find_by pn_userId (u_id u) (st_pins st) = None))
    \<and> (\<forall>u \<in> set (st_users st). u_status u = US_ACTIVE \<longrightarrow> u_failedLoginCount u < maxFailures)
    \<and> (\<forall>u \<in> set (st_users st). u_status u = US_LOCKED \<longrightarrow> u_lockedUntil u \<noteq> None)
    \<and> (\<forall>env sid v st'. session_read env cfg sid st = (Inr v, st') \<longrightarrow>
         has_user (ss_userId v) st \<and> id_now env < ss_createdAt v + sessionAbsoluteTtlSeconds cfg * 1000)"
proof -
  have ok: "identity_ok cfg st" by (rule reachable_identity_ok [OF assms])
  have 1: "has_user (ss_userId v) st \<and> id_now env < ss_createdAt v + sessionAbsoluteTtlSeconds cfg * 1000"
    if "session_read env cfg sid st = (Inr v, st')" for env sid v st'
    using that stored_session_ok [OF ok] by (auto simp: session_read_def Let_def session_ok_def split: option.splits if_splits)
  from ok have 2: "distinct (map u_phoneE164 (st_users st))" "distinct (map pn_userId (st_pins st))"
      "distinct (map pk_credentialId (st_passkeys st))" "\<forall>p \<in> set (st_passkeys st). has_user (pk_userId p) st"
    by (simp_all add: identity_ok_def accounts_ok_def passkeys_ok_def)
  have 3: "(u_status u = US_PENDING) = (find_by pn_userId (u_id u) (st_pins st) = None)" "u_status u = US_ACTIVE \<Longrightarrow> u_failedLoginCount u < maxFailures"
      "u_status u = US_LOCKED \<Longrightarrow> u_lockedUntil u \<noteq> None" if "u \<in> set (st_users st)" for u
    using account_of [OF ok that] by (auto simp: account_ok_def find_by_None)
  show ?thesis using 1 2 3 by blast
qed

theorem identity_history_consistent_witness:
  "identity_reachable demo_identity_cfg (demo_run demo_requests identity_empty)
    \<and> map u_status (st_users (demo_run demo_requests identity_empty)) = [US_ACTIVE]
    \<and> (\<exists>v. session_read (demo_identity_env demo_token 4000) demo_identity_cfg demo_token (demo_run demo_requests identity_empty)
          = (Inr v, demo_run demo_requests identity_empty)
        \<and> 4000 < ss_createdAt v + 28800 * 1000)"
proof -
  let ?st = "demo_run demo_requests identity_empty"
  have reach: "identity_reachable demo_identity_cfg ?st" by (intro demo_run_reachable identity_start)
  have user: "map u_status (st_users ?st) = [US_ACTIVE]" by code_simp
  have "\<not> isl (fst (session_read (demo_identity_env demo_token 4000) demo_identity_cfg demo_token ?st))" by code_simp
  then obtain v st' where v: "session_read (demo_identity_env demo_token 4000) demo_identity_cfg demo_token ?st = (Inr v, st')"
    by (cases "session_read (demo_identity_env demo_token 4000) demo_identity_cfg demo_token ?st"; cases "fst (session_read (demo_identity_env demo_token 4000) demo_identity_cfg demo_token ?st)") auto
  have "st' = ?st" using v by (auto simp: session_read_def Let_def split: option.splits if_splits)
  moreover have "id_now (demo_identity_env demo_token 4000) < ss_createdAt v + sessionAbsoluteTtlSeconds demo_identity_cfg * 1000"
    using identity_history_consistent [OF reach] v by blast
  ultimately show ?thesis using reach user v by (auto simp: demo_identity_env_def demo_identity_cfg_def)
qed

text \<open>C26: a passkey login is accepted only for a challenge that was issued to the same address and not used before, with
  a credential that is registered, not revoked and confirmed by the WebAuthn check against the stored key, whose
  counter did not go back, and whose account is ACTIVE.  The challenge is spent by the attempt: presenting it again,
  at any time, with any credential and from anywhere, is refused and changes nothing else.\<close>

theorem passkey_login_sound:
  assumes "verifyAuthentication env cfg w challenge credential deviceId ipHash correlationId st = (Inr s, st')"
  shows "\<exists>p n u. rget (id_now env) (st_authentications st) (authentication_key env cfg challenge) = Some ipHash
      \<and> find_by pk_credentialId (wc_id credential) (st_passkeys st) = Some p \<and> pk_revokedAt p = None
      \<and> wn_verifyAuthentication w credential challenge (ic_webauthnOrigin cfg) (ic_webauthnRpId cfg) (to_stored p) = Some (True, n)
      \<and> (0 < pk_counter p \<longrightarrow> pk_counter p \<le> n)
      \<and> find_by u_id (pk_userId p) (st_users st) = Some u \<and> u_status u = US_ACTIVE
      \<and> st_passkeys st' = update_by pk_id (pk_id p) (passkey_used env n) (st_passkeys st)
      \<and> rget (id_now env) (st_sessions st') (sessionKey env cfg (cr_sessionId s)) =
          (if 0 < sessionIdleTtlSeconds cfg then Some (new_session env cfg (pk_userId p) PASSKEY deviceId) else None)
      \<and> (\<forall>env2 w2 cred2 dev2 ip2 co2. id_sha256 env2 challenge = id_sha256 env challenge \<longrightarrow>
           fst (verifyAuthentication env2 cfg w2 challenge cred2 dev2 ip2 co2 st') = Inl invalidPasskey
           \<and> st_sessions (snd (verifyAuthentication env2 cfg w2 challenge cred2 dev2 ip2 co2 st')) = st_sessions st'
           \<and> st_passkeys (snd (verifyAuthentication env2 cfg w2 challenge cred2 dev2 ip2 co2 st')) = st_passkeys st')"
proof -
  let ?k = "authentication_key env cfg challenge"
  obtain ip where ip: "rget (id_now env) (st_authentications st) ?k = Some ip" "timingSafeStringEqual ip ipHash"
    using assms by (auto simp: verifyAuthentication_def take_authentication_def op_defs split: option.splits if_splits)
  obtain p where p: "find_by pk_credentialId (wc_id credential) (st_passkeys st) = Some p" "pk_revokedAt p = None"
      "\<not> MAX_SAFE_INTEGER < pk_counter p"
    using assms ip by (auto simp: verifyAuthentication_def take_authentication_def op_defs split: option.splits if_splits)
  obtain n where n: "wn_verifyAuthentication w credential challenge (ic_webauthnOrigin cfg) (ic_webauthnRpId cfg) (to_stored p) = Some (True, n)"
      "\<not> (0 < pk_counter p \<and> n < pk_counter p)"
    using assms ip p by (auto simp: verifyAuthentication_def take_authentication_def op_defs split: option.splits if_splits prod.splits)
  obtain es rs where sess: "session_create env cfg (pk_userId p) PASSKEY deviceId
      (st\<lparr>st_authentications := rdel ?k (st_authentications st), st_passkeys := update_by pk_id (pk_id p) (passkey_used env n) (st_passkeys st),
          st_authEvents := es, st_riskEvents := rs\<rparr>) = (Inr s, st')"
    using assms ip p n by (auto simp: verifyAuthentication_def take_authentication_def record_event_def op_defs)
  obtain u where u: "find_by u_id (pk_userId p) (st_users st) = Some u" "u_status u = US_ACTIVE"
    using sess by (auto simp: session_create_def safeUser_def op_defs Let_def split: option.splits if_splits)
  have after: "st_passkeys st' = update_by pk_id (pk_id p) (passkey_used env n) (st_passkeys st)"
      "st_authentications st' = rdel ?k (st_authentications st)" "cr_sessionId s = id_token env 0"
      "st_sessions st' = rset (id_now env) (sessionKey env cfg (id_token env 0)) (new_session env cfg (pk_userId p) PASSKEY deviceId)
        (sessionIdleTtlSeconds cfg) (st_sessions st)"
    using sess by (auto simp: session_create_def safeUser_def op_defs Let_def split: option.splits if_splits)
  have again: "verifyAuthentication env2 cfg w2 challenge cred2 dev2 ip2 co2 st'
      = (Inl invalidPasskey, st'\<lparr>st_authentications := rdel ?k (st_authentications st')\<rparr>)"
    if "id_sha256 env2 challenge = id_sha256 env challenge" for env2 w2 cred2 dev2 ip2 co2
  proof -
    have "authentication_key env2 cfg challenge = ?k" using that by (simp add: authentication_key_def)
    then show ?thesis by (simp add: verifyAuthentication_def take_authentication_def op_defs after(2))
  qed
  have "ip = ipHash" using ip(2) by (simp add: timingSafeStringEqual_iff)
  with ip p n u after again show ?thesis by auto
qed

theorem passkey_login_sound_witness:
  "\<exists>s st'. verifyAuthentication (demo_identity_env ''x'' 1000) demo_identity_cfg demo_webauthn ''ch'' demo_assertion None ''ip'' ''c'' demo_passkey_state
        = (Inr s, st')
      \<and> fst (verifyAuthentication (demo_identity_env ''y'' 2000) demo_identity_cfg demo_webauthn ''ch'' demo_assertion None ''ip'' ''c'' st')
        = Inl invalidPasskey"
proof -
  let ?run = "verifyAuthentication (demo_identity_env ''x'' 1000) demo_identity_cfg demo_webauthn ''ch'' demo_assertion None ''ip'' ''c'' demo_passkey_state"
  have "\<not> isl (fst ?run)" by code_simp
  then obtain s st' where run: "?run = (Inr s, st')" by (cases ?run; cases "fst ?run") auto
  moreover have "id_sha256 (demo_identity_env ''y'' 2000) ''ch'' = id_sha256 (demo_identity_env ''x'' 1000) ''ch''"
    by (simp add: demo_identity_env_def)
  ultimately show ?thesis using passkey_login_sound [OF run] by blast
qed

end
