(* ===== verification/SabclCodec.thy ===== *)
theory SabclCodec
  imports Configuration
begin

text \<open>
  The encodings of the SABCL package: base64url of buffers (\<open>packages/sabcl/src/crypto/primitives.ts\<close>), the canonical
  length-prefixed encoding of signed material (\<open>protocol/canonical.ts\<close>) and the padding of payloads
  (\<open>protocol/padding.ts\<close>), with the error codes (\<open>protocol/errors.ts\<close>) and the wire constants
  (\<open>protocol/version.ts\<close>).  A buffer is a list of characters, one per byte; a JavaScript string is the list of its
  UTF-8 bytes.
\<close>

type_synonym bytes = string

section \<open>Errors and constants\<close>

datatype sabcl_code =
    SABCL_MALFORMED | SABCL_UNSUPPORTED_VERSION | SABCL_OVERSIZED | SABCL_EXPIRED | SABCL_REPLAYED
  | SABCL_SIGNATURE_INVALID | SABCL_DECRYPTION_FAILED | SABCL_UNKNOWN_SENDER | SABCL_UNKNOWN_RECIPIENT
  | SABCL_KEY_REVOKED | SABCL_ROUTE_INVALID | SABCL_HOP_LIMIT_EXCEEDED | SABCL_RECIPIENT_UNAVAILABLE
  | SABCL_NOT_CONFIGURED

text \<open>A thrown value: an error of the protocol, or an error of the runtime or of the schema library.\<close>

datatype sabcl_error = SabclError sabcl_code | RangeError | TypeError | SabclZodError

definition toSabclError :: "sabcl_code \<Rightarrow> sabcl_error \<Rightarrow> sabcl_code" where
  "toSabclError fallback e = (case e of SabclError c \<Rightarrow> c | _ \<Rightarrow> fallback)"

definition SABCL_PROTOCOL_VERSION :: string where
  "SABCL_PROTOCOL_VERSION = ''SABCL/1''"

definition requestKey_domain :: string where
  "requestKey_domain = ''SABCL/1 request-key''"

definition responseKey_domain :: string where
  "responseKey_domain = ''SABCL/1 response-key''"

definition requestSignature_domain :: string where
  "requestSignature_domain = ''SABCL/1 request-signature''"

definition responseSignature_domain :: string where
  "responseSignature_domain = ''SABCL/1 response-signature''"

definition routeToken_domain :: string where
  "routeToken_domain = ''SABCL/1 route-token''"

definition serviceHandle_domain :: string where
  "serviceHandle_domain = ''SABCL/1 service-handle''"

definition SABCL_KEY_BYTES :: nat where
  "SABCL_KEY_BYTES = 32"

definition SABCL_TAG_BYTES :: nat where
  "SABCL_TAG_BYTES = 16"

definition SABCL_ROUTE_TOKEN_BYTES :: nat where
  "SABCL_ROUTE_TOKEN_BYTES = 32"

definition SABCL_MAX_PLAINTEXT_BYTES :: nat where
  "SABCL_MAX_PLAINTEXT_BYTES = 65536"

definition SABCL_MAX_ENVELOPE_BYTES :: nat where
  "SABCL_MAX_ENVELOPE_BYTES = 262144"

definition SABCL_MAX_HOP_LIMIT :: int where
  "SABCL_MAX_HOP_LIMIT = 4"

definition SABCL_DEFAULT_HOP_LIMIT :: int where
  "SABCL_DEFAULT_HOP_LIMIT = 2"

definition SABCL_MAX_TTL_SECONDS :: int where
  "SABCL_MAX_TTL_SECONDS = 120"

definition SABCL_DEFAULT_TTL_SECONDS :: int where
  "SABCL_DEFAULT_TTL_SECONDS = 30"

definition SABCL_CLOCK_SKEW_SECONDS :: int where
  "SABCL_CLOCK_SKEW_SECONDS = 5"

section \<open>base64url\<close>

definition b64_char :: "nat \<Rightarrow> char" where
  "b64_char i =
     (if i < 26 then char_of (65 + i) else if i < 52 then char_of (71 + i) else if i < 62 then char_of (i - 4)
      else if i = 62 then CHR ''-'' else CHR ''_'')"

definition b64_digit :: "char \<Rightarrow> nat option" where
  "b64_digit c =
     (if is_upper c then Some (of_char c - 65) else if is_lower c then Some (of_char c - 71)
      else if is_digit c then Some (of_char c + 4) else if c = CHR ''-'' then Some 62 else if c = CHR ''_'' then Some 63 else None)"

text \<open>Three bytes become four digits of six bits; one or two bytes at the end become two or three.\<close>

fun b64_groups :: "nat list \<Rightarrow> nat list" where
  "b64_groups (a # b # c # rest) = a div 4 # (a mod 4 * 16 + b div 16) # (b mod 16 * 4 + c div 64) # c mod 64 # b64_groups rest"
| "b64_groups [a, b] = [a div 4, a mod 4 * 16 + b div 16, b mod 16 * 4]"
| "b64_groups [a] = [a div 4, a mod 4 * 16]"
| "b64_groups [] = []"

fun b64_ungroup :: "nat list \<Rightarrow> nat list" where
  "b64_ungroup (p # q # r # s # rest) = (p * 4 + q div 16) # (q mod 16 * 16 + r div 4) # (r mod 4 * 64 + s) # b64_ungroup rest"
| "b64_ungroup [p, q, r] = [p * 4 + q div 16, q mod 16 * 16 + r div 4]"
| "b64_ungroup [p, q] = [p * 4 + q div 16]"
| "b64_ungroup _ = []"

definition toBase64Url :: "bytes \<Rightarrow> string" where
  "toBase64Url value = map b64_char (b64_groups (map of_char value))"

definition b64_decode :: "string \<Rightarrow> bytes" where
  "b64_decode value = map char_of (b64_ungroup (List.map_filter b64_digit value))"

definition fromBase64Url :: "string \<Rightarrow> (sabcl_error, bytes) res" where
  "fromBase64Url value =
     (if value = [] then Inl (SabclError SABCL_MALFORMED)
      else let decoded = b64_decode value in
        if toBase64Url decoded \<noteq> value then Inl (SabclError SABCL_MALFORMED) else Inr decoded)"

lemma b64_digit_char: "i < 64 \<Longrightarrow> b64_digit (b64_char i) = Some i"
proof -
  have "\<forall>i \<in> set [0..<64]. b64_digit (b64_char i) = Some i" by code_simp
  then show "i < 64 \<Longrightarrow> ?thesis" by simp
qed

lemma b64_groups_bound: "list_all (\<lambda>x. x < 256) xs \<Longrightarrow> list_all (\<lambda>x. x < 64) (b64_groups xs)"
  by (induction xs rule: b64_groups.induct) auto

lemma b64_byte1: "(a::nat) div 4 * 4 + (a mod 4 * 16 + b div 16) div 16 = a" if "b < 256"
  using that by simp

lemma b64_byte2: "((a::nat) mod 4 * 16 + b div 16) mod 16 * 16 + (b mod 16 * 4 + c div 64) div 4 = b" if "b < 256" "c < 256"
proof -
  have "(a mod 4 * 16 + b div 16) mod 16 = b div 16" using that(1) by simp
  moreover have "(b mod 16 * 4 + c div 64) div 4 = b mod 16" using that(2) by simp
  ultimately show ?thesis by simp
qed

lemma b64_byte3: "((b::nat) mod 16 * 4 + c div 64) mod 4 * 64 + c mod 64 = c" if "c < 256"
proof -
  have "(b mod 16 * 4 + c div 64) mod 4 = c div 64" using that by simp
  then show ?thesis by simp
qed

lemma b64_ungroup_groups: "list_all (\<lambda>x. x < 256) xs \<Longrightarrow> b64_ungroup (b64_groups xs) = xs"
proof (induction xs rule: b64_groups.induct)
  case (1 a b c rest)
  then show ?case using b64_byte1 [of b a] b64_byte2 [of b c a] b64_byte3 [of c b] by simp
next
  case (2 a b)
  then show ?case using b64_byte1 [of b a] b64_byte2 [of b 0 a] by simp
next
  case (3 a)
  then show ?case using b64_byte1 [of 0 a] by simp
qed simp

lemma map_filter_digits: "list_all (\<lambda>x. x < 64) xs \<Longrightarrow> List.map_filter b64_digit (map b64_char xs) = xs"
  by (induction xs) (auto simp: List.map_filter_simps b64_digit_char)

lemma bytes_bound: "list_all (\<lambda>x. x < 256) (map of_char (b :: bytes) :: nat list)"
  by (auto simp: list_all_iff)

lemma b64_decode_encode [simp]: "b64_decode (toBase64Url b) = b"
  unfolding b64_decode_def toBase64Url_def
  by (simp add: map_filter_digits [OF b64_groups_bound [OF bytes_bound]] b64_ungroup_groups [OF bytes_bound] comp_def)

lemma toBase64Url_Nil [simp]: "(toBase64Url b = []) = (b = [])"
  by (cases b rule: remdups_adj.cases; simp add: toBase64Url_def) (metis b64_groups.simps list.distinct(1) neq_Nil_conv)

lemma Nil_toBase64Url [simp]: "([] = toBase64Url b) = (b = [])"
  using toBase64Url_Nil [of b] by argo

lemma toBase64Url_inject [simp]: "(toBase64Url a = toBase64Url b) = (a = b)"
  by (metis b64_decode_encode)

lemma fromBase64Url_iff: "(fromBase64Url s = Inr b) = (s = toBase64Url b \<and> b \<noteq> [])"
  by (auto simp: fromBase64Url_def Let_def)

lemma fromBase64Url_to [simp]: "b \<noteq> [] \<Longrightarrow> fromBase64Url (toBase64Url b) = Inr b"
  by (simp add: fromBase64Url_iff)

section \<open>Canonical encoding\<close>

fun be_bytes :: "nat \<Rightarrow> nat \<Rightarrow> bytes" where
  "be_bytes 0 v = []"
| "be_bytes (Suc k) v = char_of (v div 256 ^ k) # be_bytes k v"

fun be_value :: "bytes \<Rightarrow> nat" where
  "be_value [] = 0"
| "be_value (c # cs) = of_char c * 256 ^ length cs + be_value cs"

text \<open>\<open>writeUInt32BE\<close> raises outside of 32 bits; \<open>canonicalUInt\<close> takes the safe non-negative integers.\<close>

definition encode_field :: "bytes \<Rightarrow> (sabcl_error, bytes) res" where
  "encode_field f = (if length f < 2 ^ 32 then Inr (be_bytes 4 (length f) @ f) else Inl RangeError)"

fun canonicalEncode :: "bytes list \<Rightarrow> (sabcl_error, bytes) res" where
  "canonicalEncode [] = Inr []"
| "canonicalEncode (f # fs) = andThen (encode_field f) (\<lambda>x. andThen (canonicalEncode fs) (\<lambda>xs. Inr (x @ xs)))"

definition canonicalUInt :: "int \<Rightarrow> (sabcl_error, bytes) res" where
  "canonicalUInt v = (if v < 0 \<or> 9007199254740991 < v then Inl RangeError else Inr (be_bytes 8 (nat v)))"

lemma length_be_bytes [simp]: "length (be_bytes k v) = k"
  by (induction k) simp_all

lemma be_value_bytes: "be_value (be_bytes k v) = v mod 256 ^ k"
proof (induction k)
  case (Suc k)
  have "v div 256 ^ k mod 256 * 256 ^ k + v mod 256 ^ k = v mod (256 ^ k * 256)"
    using mod_mult2_eq [of v "256 ^ k" 256] by (simp add: mult.commute)
  with Suc show ?case by (simp add: mult.commute [of 256])
qed simp

lemma be_bytes_inject: "a < 256 ^ k \<Longrightarrow> b < 256 ^ k \<Longrightarrow> be_bytes k a = be_bytes k b \<Longrightarrow> a = b"
  by (metis be_value_bytes mod_less)

lemma canonicalUInt_inject:
  assumes "canonicalUInt a = Inr x" "canonicalUInt b = Inr x"
  shows "a = b"
proof -
  have r: "0 \<le> a" "a \<le> 9007199254740991" "0 \<le> b" "b \<le> 9007199254740991" "be_bytes 8 (nat a) = be_bytes 8 (nat b)"
    using assms by (auto simp: canonicalUInt_def split: if_splits)
  then have "nat a < 256 ^ 8" "nat b < 256 ^ 8" by simp_all
  with be_bytes_inject r(5) have "nat a = nat b" by blast
  with r show ?thesis by simp
qed

lemma encode_field_prefix:
  assumes "encode_field f = Inr x" "encode_field g = Inr y" "x @ xs = y @ ys"
  shows "f = g \<and> xs = ys"
proof -
  have e: "be_bytes 4 (length f) @ f @ xs = be_bytes 4 (length g) @ g @ ys" "length f < 2 ^ 32" "length g < 2 ^ 32"
    using assms by (auto simp: encode_field_def split: if_splits)
  then have p: "be_bytes 4 (length f) = be_bytes 4 (length g)" "f @ xs = g @ ys" by (simp_all add: append_eq_append_conv)
  have "length f = length g" by (rule be_bytes_inject [OF _ _ p(1)]) (use e in simp_all)
  with p(2) show ?thesis by (simp add: append_eq_append_conv)
qed

text \<open>One representation per field vector: a splice of neighbouring fields never encodes to the same bytes.\<close>

lemma canonicalEncode_inject:
  assumes "canonicalEncode fs = Inr x" "canonicalEncode gs = Inr x" "length fs = length gs"
  shows "fs = gs"
  using assms
proof (induction fs gs arbitrary: x rule: list_induct2')
  case (4 f fs g gs)
  from "4.prems" obtain a as b bs where
    e: "encode_field f = Inr a" "canonicalEncode fs = Inr as" "encode_field g = Inr b" "canonicalEncode gs = Inr bs" "x = a @ as" "x = b @ bs"
    by (auto simp: res_simps)
  with encode_field_prefix [OF e(1,3), of as bs] have "f = g" "as = bs" by simp_all
  with "4.IH" [of as] e "4.prems"(3) show ?case by simp
qed (auto simp: res_simps)

section \<open>Padding\<close>

definition SABCL_PADDING_BUCKETS :: "nat list" where
  "SABCL_PADDING_BUCKETS = map (\<lambda>k. 2 ^ k) [9..<17]"

definition paddingBucketFor :: "nat \<Rightarrow> (sabcl_error, nat) res" where
  "paddingBucketFor n = ofOption RangeError (List.find (\<lambda>size. n \<le> size) SABCL_PADDING_BUCKETS)"

definition padPayload :: "bytes \<Rightarrow> (sabcl_error, bytes \<times> nat) res" where
  "padPayload payload =
     (if length payload > SABCL_MAX_PLAINTEXT_BYTES then Inl (SabclError SABCL_OVERSIZED)
      else andThen (paddingBucketFor (length payload + 4)) (\<lambda>bucket.
        Inr (be_bytes 4 (length payload) @ payload @ replicate (bucket - (length payload + 4)) CHR 0x00, bucket)))"

definition unpadPayload :: "bytes \<Rightarrow> (sabcl_error, bytes) res" where
  "unpadPayload padded =
     (if length padded < 4 then Inl (SabclError SABCL_MALFORMED)
      else let n = be_value (take 4 padded) in
        if n > length padded - 4 then Inl (SabclError SABCL_MALFORMED) else Inr (take n (drop 4 padded)))"

lemma padding_bucket_ge: "paddingBucketFor n = Inr b \<Longrightarrow> n \<le> b \<and> b \<in> set SABCL_PADDING_BUCKETS"
  by (auto simp: paddingBucketFor_def res_simps find_Some_iff)

lemma pad_length: "padPayload p = Inr (padded, b) \<Longrightarrow> length padded = b"
  by (auto simp: padPayload_def res_simps dest!: padding_bucket_ge split: if_splits)

lemma unpad_pad:
  assumes "padPayload p = Inr (padded, b)"
  shows "unpadPayload padded = Inr p"
proof -
  from assms have p: "padded = be_bytes 4 (length p) @ p @ replicate (b - (length p + 4)) CHR 0x00" "length p + 4 \<le> b"
      "length p \<le> SABCL_MAX_PLAINTEXT_BYTES"
    by (auto simp: padPayload_def res_simps dest!: padding_bucket_ge split: if_splits)
  have "be_value (take 4 padded) = length p" using p(3) by (simp add: p(1) be_value_bytes SABCL_MAX_PLAINTEXT_BYTES_def)
  then show ?thesis using p(2) by (simp add: unpadPayload_def Let_def p(1))
qed

text \<open>A payload just below the limit fits no bucket once its length is written in front of it.\<close>

lemma padding_gap:
  assumes "65532 < length p" "length p \<le> 65536"
  shows "padPayload p = Inl RangeError"
proof -
  have "\<not> length p + 4 \<le> size" if "size \<in> set SABCL_PADDING_BUCKETS" for size
    using that assms(1) by (auto simp: SABCL_PADDING_BUCKETS_def upt_rec)
  then have "List.find (\<lambda>size. length p + 4 \<le> size) SABCL_PADDING_BUCKETS = None" by (simp add: find_None_iff)
  then show ?thesis using assms(2) by (simp add: padPayload_def paddingBucketFor_def SABCL_MAX_PLAINTEXT_BYTES_def res_simps)
qed

end
