(* ===== verification/SabclSeal.thy ===== *)
theory SabclSeal
  imports SabclCodec
begin

text \<open>
  The envelopes of SABCL (\<open>protocol/envelope.ts\<close>), the keys and the keyring (\<open>crypto/keyring.ts\<close>, \<open>crypto/primitives.ts\<close>)
  and the construction that seals and opens requests and responses (\<open>protocol/seal.ts\<close>).  The cryptographic functions of
  \<open>node:crypto\<close> are parameters; a key is its raw bytes.
\<close>

section \<open>Envelopes\<close>

definition is_b64 :: "char \<Rightarrow> bool" where
  "is_b64 c = (b64_digit c \<noteq> None)"

definition base64Url :: "nat \<Rightarrow> string \<Rightarrow> bool" where
  "base64Url mx s = (1 \<le> length s \<and> length s \<le> mx \<and> list_all is_b64 s)"

definition is_name_char :: "char \<Rightarrow> bool" where
  "is_name_char c = (is_lower c \<or> is_digit c \<or> c = CHR ''-'')"

definition name_re :: "string \<Rightarrow> bool" where
  "name_re s = (case s of [] \<Rightarrow> False | c # cs \<Rightarrow> is_lower c \<and> list_all is_name_char cs)"

definition KEY_ID_PATTERN :: "string \<Rightarrow> bool" where
  "KEY_ID_PATTERN s =
     (let p = takeWhile (\<lambda>c. c \<noteq> CHR ''.'') s; rest = dropWhile (\<lambda>c. c \<noteq> CHR ''.'') s in
      name_re p \<and> starts_with ''.v'' rest \<and> drop 2 rest \<noteq> [] \<and> list_all is_digit (drop 2 rest))"

definition sabclKeyIdSchema :: "string \<Rightarrow> bool" where
  "sabclKeyIdSchema s = (3 \<le> length s \<and> length s \<le> 64 \<and> KEY_ID_PATTERN s)"

record sabcl_header =
  ev_v :: string
  ev_mid :: string
  ev_rt :: string
  ev_skid :: string
  ev_rkid :: string
  ev_epk :: string
  ev_iat :: int
  ev_exp :: int
  ev_n :: string
  ev_hl :: int
  ev_pad :: int

record sabcl_envelope = sabcl_header +
  ev_ct :: string
  ev_tag :: string
  ev_sig :: string

definition safe_nonneg :: "int \<Rightarrow> bool" where
  "safe_nonneg x = (0 \<le> x \<and> x \<le> 9007199254740991)"

definition sabclEnvelopeSchema :: "sabcl_envelope \<Rightarrow> bool" where
  "sabclEnvelopeSchema e =
     (ev_v e = SABCL_PROTOCOL_VERSION \<and> base64Url 32 (ev_mid e) \<and> base64Url 64 (ev_rt e) \<and> sabclKeyIdSchema (ev_skid e)
      \<and> sabclKeyIdSchema (ev_rkid e) \<and> base64Url 64 (ev_epk e) \<and> safe_nonneg (ev_iat e) \<and> safe_nonneg (ev_exp e)
      \<and> base64Url 24 (ev_n e) \<and> 0 \<le> ev_hl e \<and> ev_hl e \<le> SABCL_MAX_HOP_LIMIT \<and> 0 < ev_pad e \<and> safe_nonneg (ev_pad e)
      \<and> base64Url SABCL_MAX_ENVELOPE_BYTES (ev_ct e) \<and> base64Url 32 (ev_tag e) \<and> base64Url 128 (ev_sig e))"

record response_envelope =
  re_v :: string
  re_cid :: string
  re_skid :: string
  re_n :: string
  re_pad :: int
  re_ct :: string
  re_tag :: string
  re_sig :: string

definition sabclResponseEnvelopeSchema :: "response_envelope \<Rightarrow> bool" where
  "sabclResponseEnvelopeSchema e =
     (re_v e = SABCL_PROTOCOL_VERSION \<and> base64Url 32 (re_cid e) \<and> sabclKeyIdSchema (re_skid e) \<and> base64Url 24 (re_n e)
      \<and> 0 < re_pad e \<and> safe_nonneg (re_pad e) \<and> base64Url SABCL_MAX_ENVELOPE_BYTES (re_ct e) \<and> base64Url 32 (re_tag e)
      \<and> base64Url 128 (re_sig e))"

definition canonicalRequestHeader :: "('a) sabcl_header_scheme \<Rightarrow> (sabcl_error, bytes) res" where
  "canonicalRequestHeader e =
     andThen (canonicalUInt (ev_iat e)) (\<lambda>iat. andThen (canonicalUInt (ev_exp e)) (\<lambda>ex.
     andThen (canonicalUInt (ev_hl e)) (\<lambda>hl. andThen (canonicalUInt (ev_pad e)) (\<lambda>pad.
     canonicalEncode [ev_v e, ev_mid e, ev_rt e, ev_skid e, ev_rkid e, ev_epk e, iat, ex, ev_n e, hl, pad]))))"

definition canonicalResponseHeader :: "string \<Rightarrow> string \<Rightarrow> string \<Rightarrow> string \<Rightarrow> int \<Rightarrow> (sabcl_error, bytes) res" where
  "canonicalResponseHeader v cid skid n pad =
     andThen (canonicalUInt pad) (\<lambda>p. canonicalEncode [v, cid, skid, n, p])"

definition decrementHopLimit :: "int \<Rightarrow> int option" where
  "decrementHopLimit hopLimit = (if hopLimit \<le> 0 then None else Some (hopLimit - 1))"

section \<open>Keys\<close>

record private_identity =
  pv_keyId :: string
  pv_service :: string
  pv_encryptionPrivateKey :: bytes
  pv_signingPrivateKey :: bytes
  pv_notAfter :: "int option"

record public_identity =
  pb_keyId :: string
  pb_service :: string
  pb_encryptionPublicKey :: bytes
  pb_signingPublicKey :: bytes
  pb_revoked :: bool
  pb_notAfter :: "int option"

text \<open>X25519, its public keys and the check of a public key, HKDF-SHA-256, AES-256-GCM, Ed25519 and HMAC-SHA-256.\<close>

record sabcl_crypto =
  cy_dh :: "bytes \<Rightarrow> bytes \<Rightarrow> bytes option"
  cy_dhPublic :: "bytes \<Rightarrow> bytes"
  cy_isKey :: "bytes \<Rightarrow> bool"
  cy_hkdf :: "bytes \<Rightarrow> bytes \<Rightarrow> bytes \<Rightarrow> nat \<Rightarrow> bytes"
  cy_seal :: "bytes \<Rightarrow> bytes \<Rightarrow> bytes \<Rightarrow> bytes \<Rightarrow> bytes \<times> bytes"
  cy_open :: "bytes \<Rightarrow> bytes \<Rightarrow> bytes \<Rightarrow> bytes \<Rightarrow> bytes \<Rightarrow> bytes option"
  cy_sign :: "bytes \<Rightarrow> bytes \<Rightarrow> bytes"
  cy_signPublic :: "bytes \<Rightarrow> bytes"
  cy_verify :: "bytes \<Rightarrow> bytes \<Rightarrow> bytes \<Rightarrow> bool"
  cy_hmac :: "bytes \<Rightarrow> bytes \<Rightarrow> bytes"

definition deriveSharedSecret :: "sabcl_crypto \<Rightarrow> bytes \<Rightarrow> bytes \<Rightarrow> (sabcl_error, bytes) res" where
  "deriveSharedSecret cy privateKey publicKey = ofOption (SabclError SABCL_DECRYPTION_FAILED) (cy_dh cy privateKey publicKey)"

definition deriveKey :: "sabcl_crypto \<Rightarrow> bytes \<Rightarrow> bytes \<Rightarrow> bytes \<Rightarrow> bytes" where
  "deriveKey cy sharedSecret salt info = cy_hkdf cy sharedSecret salt info SABCL_KEY_BYTES"

definition aeadOpen :: "sabcl_crypto \<Rightarrow> bytes \<Rightarrow> bytes \<Rightarrow> bytes \<Rightarrow> bytes \<Rightarrow> bytes \<Rightarrow> (sabcl_error, bytes) res" where
  "aeadOpen cy key nonce ciphertext tag aad =
     (if length tag \<noteq> SABCL_TAG_BYTES then Inl (SabclError SABCL_DECRYPTION_FAILED)
      else ofOption (SabclError SABCL_DECRYPTION_FAILED) (cy_open cy key nonce ciphertext tag aad))"

definition importKey :: "sabcl_crypto \<Rightarrow> string \<Rightarrow> (sabcl_error, bytes) res" where
  "importKey cy material =
     andThen (fromBase64Url material) (\<lambda>raw.
       if length raw \<noteq> 32 then Inl (SabclError SABCL_MALFORMED)
       else if \<not> cy_isKey cy raw then Inl (SabclError SABCL_MALFORMED) else Inr raw)"

definition serviceOfKeyId :: "string \<Rightarrow> (sabcl_error, string) res" where
  "serviceOfKeyId keyId =
     (if sabclKeyIdSchema keyId then Inr (takeWhile (\<lambda>c. c \<noteq> CHR ''.'') keyId) else Inl (SabclError SABCL_MALFORMED))"

definition versionOfKeyId :: "string \<Rightarrow> int" where
  "versionOfKeyId keyId = int (foldl (\<lambda>n c. 10 * n + digit_val c) 0 (drop 2 (dropWhile (\<lambda>c. c \<noteq> CHR ''.'') keyId)))"

definition loadPrivateIdentity ::
  "sabcl_crypto \<Rightarrow> string \<Rightarrow> string \<Rightarrow> string \<Rightarrow> int option \<Rightarrow> (sabcl_error, private_identity) res" where
  "loadPrivateIdentity cy keyId encryptionPrivateKey signingPrivateKey notAfter =
     (if \<not> sabclKeyIdSchema keyId then Inl SabclZodError
      else andThen (importKey cy encryptionPrivateKey) (\<lambda>ek. andThen (importKey cy signingPrivateKey) (\<lambda>sk.
        andThen (serviceOfKeyId keyId) (\<lambda>service.
        Inr \<lparr>pv_keyId = keyId, pv_service = service, pv_encryptionPrivateKey = ek, pv_signingPrivateKey = sk, pv_notAfter = notAfter\<rparr>))))"

record public_material =
  pm_keyId :: string
  pm_encryptionPublicKey :: string
  pm_signingPublicKey :: string
  pm_revoked :: "bool option"
  pm_notAfter :: "int option"

definition loadPublicIdentity :: "sabcl_crypto \<Rightarrow> public_material \<Rightarrow> (sabcl_error, public_identity) res" where
  "loadPublicIdentity cy m =
     (if \<not> sabclKeyIdSchema (pm_keyId m) then Inl SabclZodError
      else andThen (serviceOfKeyId (pm_keyId m)) (\<lambda>service.
        andThen (importKey cy (pm_encryptionPublicKey m)) (\<lambda>ek. andThen (importKey cy (pm_signingPublicKey m)) (\<lambda>sk.
        Inr \<lparr>pb_keyId = pm_keyId m, pb_service = service, pb_encryptionPublicKey = ek, pb_signingPublicKey = sk,
             pb_revoked = (pm_revoked m = Some True), pb_notAfter = pm_notAfter m\<rparr>))))"

record keyring =
  kr_own :: private_identity
  kr_peers :: "public_identity list"

fun add_peers :: "public_identity list \<Rightarrow> public_identity list \<Rightarrow> (sabcl_error, public_identity list) res" where
  "add_peers known [] = Inr known"
| "add_peers known (p # ps) =
     (if find_by pb_keyId (pb_keyId p) known \<noteq> None then Inl (SabclError SABCL_NOT_CONFIGURED) else add_peers (known @ [p]) ps)"

definition newKeyring :: "private_identity \<Rightarrow> public_identity list \<Rightarrow> (sabcl_error, keyring) res" where
  "newKeyring own peers = andThen (add_peers [] peers) (\<lambda>ps. Inr \<lparr>kr_own = own, kr_peers = ps\<rparr>)"

definition key_live :: "int \<Rightarrow> public_identity \<Rightarrow> bool" where
  "key_live now p = (\<not> pb_revoked p \<and> (case pb_notAfter p of None \<Rightarrow> True | Some t \<Rightarrow> now \<le> t))"

definition keyring_peer :: "keyring \<Rightarrow> string \<Rightarrow> int \<Rightarrow> (sabcl_error, public_identity) res" where
  "keyring_peer kr keyId now =
     andThen (ofOption (SabclError SABCL_UNKNOWN_SENDER) (find_by pb_keyId keyId (kr_peers kr))) (\<lambda>p.
       if pb_revoked p then Inl (SabclError SABCL_KEY_REVOKED)
       else if (case pb_notAfter p of None \<Rightarrow> False | Some t \<Rightarrow> t < now) then Inl (SabclError SABCL_KEY_REVOKED)
       else Inr p)"

definition activePeerFor :: "keyring \<Rightarrow> string \<Rightarrow> int \<Rightarrow> (sabcl_error, public_identity) res" where
  "activePeerFor kr service now =
     (case sort_key (\<lambda>p. - versionOfKeyId (pb_keyId p)) (filter (\<lambda>p. pb_service p = service \<and> key_live now p) (kr_peers kr)) of
        [] \<Rightarrow> Inl (SabclError SABCL_UNKNOWN_RECIPIENT)
      | p # _ \<Rightarrow> Inr p)"

definition peerKeyIds :: "keyring \<Rightarrow> string list" where
  "peerKeyIds kr = sort (map pb_keyId (kr_peers kr))"

record rotation_entry =
  rn_service :: string
  rn_active :: "string option"
  rn_accepted :: "string list"
  rn_revoked :: "string list"

definition rotationState :: "keyring \<Rightarrow> int \<Rightarrow> rotation_entry list" where
  "rotationState kr now =
     map (\<lambda>service. let all = filter (\<lambda>p. pb_service p = service) (kr_peers kr) in
       \<lparr>rn_service = service,
        rn_active = (case activePeerFor kr service now of Inr p \<Rightarrow> Some (pb_keyId p) | Inl _ \<Rightarrow> None),
        rn_accepted = sort (map pb_keyId (filter (key_live now) all)),
        rn_revoked = sort (map pb_keyId (filter (\<lambda>p. \<not> key_live now p) all))\<rparr>)
       (sort (remdups (map pb_service (kr_peers kr))))"

section \<open>Sealing and opening\<close>

text \<open>What a seal draws at random: the ephemeral private key, the nonce and the message identifier.\<close>

record sabcl_fresh =
  fr_ephemeral :: bytes
  fr_nonce :: bytes
  fr_mid :: bytes

definition signed_message :: "string \<Rightarrow> bytes \<Rightarrow> bytes \<Rightarrow> bytes \<Rightarrow> (sabcl_error, bytes) res" where
  "signed_message domain aad ciphertext tag = canonicalEncode [domain, aad, ciphertext, tag]"

definition request_header ::
  "sabcl_crypto \<Rightarrow> sabcl_fresh \<Rightarrow> private_identity \<Rightarrow> public_identity \<Rightarrow> string \<Rightarrow> int \<Rightarrow> int \<Rightarrow> int \<Rightarrow> nat \<Rightarrow> sabcl_header" where
  "request_header cy fr sender recipient routeToken issuedAt ttl hopLimit bucket =
     \<lparr>ev_v = SABCL_PROTOCOL_VERSION, ev_mid = toBase64Url (fr_mid fr), ev_rt = routeToken,
      ev_skid = pv_keyId sender, ev_rkid = pb_keyId recipient, ev_epk = toBase64Url (cy_dhPublic cy (fr_ephemeral fr)),
      ev_iat = issuedAt, ev_exp = issuedAt + ttl, ev_n = toBase64Url (fr_nonce fr), ev_hl = hopLimit, ev_pad = int bucket\<rparr>"

definition with_body :: "sabcl_header \<Rightarrow> string \<Rightarrow> string \<Rightarrow> string \<Rightarrow> sabcl_envelope" where
  "with_body h ct tag sig =
     \<lparr>ev_v = ev_v h, ev_mid = ev_mid h, ev_rt = ev_rt h, ev_skid = ev_skid h, ev_rkid = ev_rkid h, ev_epk = ev_epk h,
      ev_iat = ev_iat h, ev_exp = ev_exp h, ev_n = ev_n h, ev_hl = ev_hl h, ev_pad = ev_pad h,
      ev_ct = ct, ev_tag = tag, ev_sig = sig\<rparr>"

definition sealRequest ::
  "sabcl_crypto \<Rightarrow> sabcl_fresh \<Rightarrow> private_identity \<Rightarrow> public_identity \<Rightarrow> string \<Rightarrow> bytes \<Rightarrow> int option \<Rightarrow> int option \<Rightarrow> int \<Rightarrow>
     (sabcl_error, sabcl_envelope \<times> bytes) res" where
  "sealRequest cy fr sender recipient routeToken serialised ttlSeconds hops issuedAt =
     (let ttl = (case ttlSeconds of Some t \<Rightarrow> t | None \<Rightarrow> SABCL_DEFAULT_TTL_SECONDS);
          hopLimit = (case hops of Some h \<Rightarrow> h | None \<Rightarrow> SABCL_DEFAULT_HOP_LIMIT)
      in if ttl \<le> 0 \<or> SABCL_MAX_TTL_SECONDS < ttl then Inl (SabclError SABCL_MALFORMED)
         else if hopLimit < 1 \<or> SABCL_MAX_HOP_LIMIT < hopLimit then Inl (SabclError SABCL_MALFORMED)
         else if pb_revoked recipient then Inl (SabclError SABCL_KEY_REVOKED)
         else if (case pv_notAfter sender of None \<Rightarrow> False | Some t \<Rightarrow> t < issuedAt) then Inl (SabclError SABCL_KEY_REVOKED)
         else andThen (padPayload serialised) (\<lambda>(padded, bucket).
           let header = request_header cy fr sender recipient routeToken issuedAt ttl hopLimit bucket
           in andThen (canonicalRequestHeader header) (\<lambda>aad.
              andThen (deriveSharedSecret cy (fr_ephemeral fr) (pb_encryptionPublicKey recipient)) (\<lambda>sharedSecret.
              andThen (canonicalEncode [requestKey_domain, aad]) (\<lambda>info.
              case cy_seal cy (deriveKey cy sharedSecret (fr_nonce fr) info) (fr_nonce fr) padded aad of (ciphertext, tag) \<Rightarrow>
              andThen (signed_message requestSignature_domain aad ciphertext tag) (\<lambda>msg.
              let envelope = with_body header (toBase64Url ciphertext) (toBase64Url tag) (toBase64Url (cy_sign cy (pv_signingPrivateKey sender) msg))
              in if sabclEnvelopeSchema envelope then Inr (envelope, sharedSecret) else Inl SabclZodError))))))"

record 'p opened_request =
  op_payload :: 'p
  op_messageId :: string
  op_senderKeyId :: string
  op_senderService :: string
  op_routeToken :: string
  op_responseSecret :: bytes

text \<open>\<open>parse\<close> is \<open>JSON.parse\<close> on the payload's bytes.\<close>

definition openRequest ::
  "sabcl_crypto \<Rightarrow> (bytes \<Rightarrow> 'p option) \<Rightarrow> private_identity \<Rightarrow> keyring \<Rightarrow> sabcl_envelope \<Rightarrow> int \<Rightarrow> (sabcl_error, 'p opened_request) res" where
  "openRequest cy parse recipient kr e now =
     (if ev_v e \<noteq> SABCL_PROTOCOL_VERSION then Inl (SabclError SABCL_UNSUPPORTED_VERSION)
      else if ev_exp e < now then Inl (SabclError SABCL_EXPIRED)
      else if now + SABCL_CLOCK_SKEW_SECONDS < ev_iat e then Inl (SabclError SABCL_EXPIRED)
      else if SABCL_MAX_TTL_SECONDS < ev_exp e - ev_iat e then Inl (SabclError SABCL_MALFORMED)
      else if ev_rkid e \<noteq> pv_keyId recipient then Inl (SabclError SABCL_UNKNOWN_RECIPIENT)
      else andThen (keyring_peer kr (ev_skid e) now) (\<lambda>sender.
        andThen (canonicalRequestHeader e) (\<lambda>aad.
        andThen (fromBase64Url (ev_ct e)) (\<lambda>ciphertext. andThen (fromBase64Url (ev_tag e)) (\<lambda>tag. andThen (fromBase64Url (ev_sig e)) (\<lambda>signature.
        andThen (signed_message requestSignature_domain aad ciphertext tag) (\<lambda>msg.
        if \<not> cy_verify cy (pb_signingPublicKey sender) msg signature then Inl (SabclError SABCL_SIGNATURE_INVALID)
        else andThen (importKey cy (ev_epk e)) (\<lambda>ephemeralPublic.
          andThen (deriveSharedSecret cy (pv_encryptionPrivateKey recipient) ephemeralPublic) (\<lambda>sharedSecret.
          andThen (fromBase64Url (ev_n e)) (\<lambda>nonce.
          andThen (canonicalEncode [requestKey_domain, aad]) (\<lambda>info.
          andThen (aeadOpen cy (deriveKey cy sharedSecret nonce info) nonce ciphertext tag aad) (\<lambda>padded.
          if int (length padded) \<noteq> ev_pad e then Inl (SabclError SABCL_MALFORMED)
          else andThen (unpadPayload padded) (\<lambda>raw.
            andThen (ofOption (SabclError SABCL_MALFORMED) (parse raw)) (\<lambda>payload.
            Inr \<lparr>op_payload = payload, op_messageId = ev_mid e, op_senderKeyId = ev_skid e, op_senderService = pb_service sender,
                 op_routeToken = ev_rt e, op_responseSecret = sharedSecret\<rparr>))))))))))))))"

definition sealResponse ::
  "sabcl_crypto \<Rightarrow> bytes \<Rightarrow> private_identity \<Rightarrow> bytes \<Rightarrow> string \<Rightarrow> bytes \<Rightarrow> (sabcl_error, response_envelope) res" where
  "sealResponse cy nonce responder responseSecret correlationId serialised =
     andThen (padPayload serialised) (\<lambda>(padded, bucket).
     andThen (canonicalResponseHeader SABCL_PROTOCOL_VERSION correlationId (pv_keyId responder) (toBase64Url nonce) (int bucket)) (\<lambda>aad.
     andThen (canonicalEncode [responseKey_domain, aad]) (\<lambda>info.
     case cy_seal cy (deriveKey cy responseSecret nonce info) nonce padded aad of (ciphertext, tag) \<Rightarrow>
     andThen (signed_message responseSignature_domain aad ciphertext tag) (\<lambda>msg.
     let envelope = \<lparr>re_v = SABCL_PROTOCOL_VERSION, re_cid = correlationId, re_skid = pv_keyId responder, re_n = toBase64Url nonce,
           re_pad = int bucket, re_ct = toBase64Url ciphertext, re_tag = toBase64Url tag,
           re_sig = toBase64Url (cy_sign cy (pv_signingPrivateKey responder) msg)\<rparr>
     in if sabclResponseEnvelopeSchema envelope then Inr envelope else Inl SabclZodError))))"

definition openResponse ::
  "sabcl_crypto \<Rightarrow> (bytes \<Rightarrow> 'p option) \<Rightarrow> public_identity \<Rightarrow> bytes \<Rightarrow> string \<Rightarrow> response_envelope \<Rightarrow> (sabcl_error, 'p) res" where
  "openResponse cy parse responder responseSecret expectedCorrelationId e =
     (if re_v e \<noteq> SABCL_PROTOCOL_VERSION then Inl (SabclError SABCL_UNSUPPORTED_VERSION)
      else if re_cid e \<noteq> expectedCorrelationId then Inl (SabclError SABCL_MALFORMED)
      else if re_skid e \<noteq> pb_keyId responder then Inl (SabclError SABCL_UNKNOWN_SENDER)
      else andThen (canonicalResponseHeader (re_v e) (re_cid e) (re_skid e) (re_n e) (re_pad e)) (\<lambda>aad.
        andThen (fromBase64Url (re_ct e)) (\<lambda>ciphertext. andThen (fromBase64Url (re_tag e)) (\<lambda>tag. andThen (fromBase64Url (re_sig e)) (\<lambda>signature.
        andThen (signed_message responseSignature_domain aad ciphertext tag) (\<lambda>msg.
        if \<not> cy_verify cy (pb_signingPublicKey responder) msg signature then Inl (SabclError SABCL_SIGNATURE_INVALID)
        else andThen (fromBase64Url (re_n e)) (\<lambda>nonce.
          andThen (canonicalEncode [responseKey_domain, aad]) (\<lambda>info.
          andThen (aeadOpen cy (deriveKey cy responseSecret nonce info) nonce ciphertext tag aad) (\<lambda>padded.
          if int (length padded) \<noteq> re_pad e then Inl (SabclError SABCL_MALFORMED)
          else andThen (unpadPayload padded) (\<lambda>raw. ofOption (SabclError SABCL_MALFORMED) (parse raw)))))))))))"

section \<open>What is sealed is opened\<close>

text \<open>The documented behaviour of the primitives: decryption with the same key, nonce and associated data undoes
  encryption and keeps the length, a tag has 16 bytes, both sides of X25519 compute the same secret, the public key of a private one is a
  valid key of 32 bytes, a signature has 64 bytes and is accepted for the message and the key it was made with, and a digest has 32 bytes.\<close>

definition crypto_correct :: "sabcl_crypto \<Rightarrow> bool" where
  "crypto_correct cy =
     ((\<forall>k n p a c t. cy_seal cy k n p a = (c, t) \<longrightarrow> cy_open cy k n c t a = Some p \<and> length c = length p \<and> length t = SABCL_TAG_BYTES)
      \<and> (\<forall>a b. cy_dh cy a (cy_dhPublic cy b) = cy_dh cy b (cy_dhPublic cy a))
      \<and> (\<forall>a. length (cy_dhPublic cy a) = 32 \<and> cy_isKey cy (cy_dhPublic cy a))
      \<and> (\<forall>sk m. cy_verify cy (cy_signPublic cy sk) m (cy_sign cy sk m) \<and> length (cy_sign cy sk m) = 64)
      \<and> (\<forall>k m. length (cy_hmac cy k m) = SABCL_ROUTE_TOKEN_BYTES))"

lemma base64Url_nonempty: "base64Url n (toBase64Url b) \<Longrightarrow> b \<noteq> []"
  by (auto simp: base64Url_def toBase64Url_def)

lemma header_with_body [simp]: "canonicalRequestHeader (with_body h ct tag sig) = canonicalRequestHeader h"
  by (simp add: canonicalRequestHeader_def with_body_def)

lemma with_body_simps [simp]:
  "ev_v (with_body h c t s) = ev_v h" "ev_mid (with_body h c t s) = ev_mid h" "ev_rt (with_body h c t s) = ev_rt h"
  "ev_skid (with_body h c t s) = ev_skid h" "ev_rkid (with_body h c t s) = ev_rkid h" "ev_epk (with_body h c t s) = ev_epk h"
  "ev_iat (with_body h c t s) = ev_iat h" "ev_exp (with_body h c t s) = ev_exp h" "ev_n (with_body h c t s) = ev_n h"
  "ev_hl (with_body h c t s) = ev_hl h" "ev_pad (with_body h c t s) = ev_pad h" "ev_ct (with_body h c t s) = c"
  "ev_tag (with_body h c t s) = t" "ev_sig (with_body h c t s) = s"
  by (simp_all add: with_body_def)

lemma sealRequest_cases:
  assumes "sealRequest cy fr sender recipient rt serialised ttl hops now = Inr (e, secret)"
  obtains t h padded bucket aad info c g msg where
    "0 < t" "t \<le> SABCL_MAX_TTL_SECONDS" "1 \<le> h" "padPayload serialised = Inr (padded, bucket)"
    "canonicalRequestHeader (request_header cy fr sender recipient rt now t h bucket) = Inr aad"
    "cy_dh cy (fr_ephemeral fr) (pb_encryptionPublicKey recipient) = Some secret"
    "canonicalEncode [requestKey_domain, aad] = Inr info"
    "cy_seal cy (deriveKey cy secret (fr_nonce fr) info) (fr_nonce fr) padded aad = (c, g)"
    "signed_message requestSignature_domain aad c g = Inr msg"
    "e = with_body (request_header cy fr sender recipient rt now t h bucket) (toBase64Url c) (toBase64Url g)
       (toBase64Url (cy_sign cy (pv_signingPrivateKey sender) msg))"
    "sabclEnvelopeSchema e"
proof -
  define t where "t = (case ttl of Some t \<Rightarrow> t | None \<Rightarrow> SABCL_DEFAULT_TTL_SECONDS)"
  define h where "h = (case hops of Some h \<Rightarrow> h | None \<Rightarrow> SABCL_DEFAULT_HOP_LIMIT)"
  note run = assms [unfolded sealRequest_def Let_def, folded t_def h_def]
  have b: "0 < t" "t \<le> SABCL_MAX_TTL_SECONDS" "1 \<le> h" using run by (auto split: if_splits)
  obtain padded bucket where p: "padPayload serialised = Inr (padded, bucket)"
    using run by (auto simp: res_simps split: if_splits)
  let ?h = "request_header cy fr sender recipient rt now t h bucket"
  obtain aad where aad: "canonicalRequestHeader ?h = Inr aad" using run p by (auto simp: res_simps split: if_splits)
  obtain ss where ss: "cy_dh cy (fr_ephemeral fr) (pb_encryptionPublicKey recipient) = Some ss"
    using run p aad by (auto simp: deriveSharedSecret_def res_simps split: if_splits)
  obtain info where info: "canonicalEncode [requestKey_domain, aad] = Inr info"
    using run p aad ss by (cases "canonicalEncode [requestKey_domain, aad]") (auto simp: deriveSharedSecret_def split: if_splits)
  obtain c g where c: "cy_seal cy (deriveKey cy ss (fr_nonce fr) info) (fr_nonce fr) padded aad = (c, g)" by fastforce
  obtain msg where msg: "signed_message requestSignature_domain aad c g = Inr msg"
    using run p aad ss info c by (cases "signed_message requestSignature_domain aad c g") (auto simp: deriveSharedSecret_def split: if_splits)
  have "secret = ss \<and> e = with_body ?h (toBase64Url c) (toBase64Url g) (toBase64Url (cy_sign cy (pv_signingPrivateKey sender) msg))
      \<and> sabclEnvelopeSchema e"
    using run p aad ss info c msg by (auto simp: deriveSharedSecret_def split: if_splits)
  then show ?thesis using that [OF b p aad _ info _ msg] ss c by blast
qed

declare canonicalEncode.simps [simp del]

text \<open>The sender of a sealed request is the key it names, and it expires.\<close>

lemma sealRequest_fields:
  assumes "sealRequest cy fr sender recipient rt serialised ttl hops now = Inr (e, secret)"
  shows "ev_v e = SABCL_PROTOCOL_VERSION" "ev_skid e = pv_keyId sender" "ev_rkid e = pb_keyId recipient" "ev_rt e = rt"
    "ev_mid e = toBase64Url (fr_mid fr)" "ev_iat e = now" "ev_exp e - now \<le> SABCL_MAX_TTL_SECONDS" "now < ev_exp e" "1 \<le> ev_hl e"
    "sabclEnvelopeSchema e"
  using assms by (auto elim!: sealRequest_cases simp: request_header_def)

lemma open_seal:
  assumes cy: "crypto_correct cy"
    and seal: "sealRequest cy fr sender recipient rt serialised ttl hops issued = Inr (e, secret)"
    and keys: "pb_keyId recipient = pv_keyId own" "pb_encryptionPublicKey recipient = cy_dhPublic cy (pv_encryptionPrivateKey own)"
    and peer: "keyring_peer kr (pv_keyId sender) now = Inr p" "pb_signingPublicKey p = cy_signPublic cy (pv_signingPrivateKey sender)"
    and time: "issued - SABCL_CLOCK_SKEW_SECONDS \<le> now" "now \<le> ev_exp e"
    and json: "parse serialised = Some payload"
  shows "openRequest cy parse own kr e now =
     Inr \<lparr>op_payload = payload, op_messageId = ev_mid e, op_senderKeyId = pv_keyId sender, op_senderService = pb_service p,
          op_routeToken = rt, op_responseSecret = secret\<rparr>"
proof -
  from seal obtain t h padded bucket aad info c g msg where
    s: "t \<le> SABCL_MAX_TTL_SECONDS" "padPayload serialised = Inr (padded, bucket)"
    "canonicalRequestHeader (request_header cy fr sender recipient rt issued t h bucket) = Inr aad"
    "cy_dh cy (fr_ephemeral fr) (pb_encryptionPublicKey recipient) = Some secret"
    "canonicalEncode [requestKey_domain, aad] = Inr info"
    "cy_seal cy (deriveKey cy secret (fr_nonce fr) info) (fr_nonce fr) padded aad = (c, g)"
    "signed_message requestSignature_domain aad c g = Inr msg"
    "e = with_body (request_header cy fr sender recipient rt issued t h bucket) (toBase64Url c) (toBase64Url g)
       (toBase64Url (cy_sign cy (pv_signingPrivateKey sender) msg))"
    "sabclEnvelopeSchema e" by (elim sealRequest_cases)
  have hd: "ev_v e = SABCL_PROTOCOL_VERSION" "ev_skid e = pv_keyId sender" "ev_rkid e = pb_keyId recipient" "ev_rt e = rt"
    "ev_iat e = issued" "ev_exp e - issued \<le> SABCL_MAX_TTL_SECONDS" "ev_epk e = toBase64Url (cy_dhPublic cy (fr_ephemeral fr))"
    "ev_n e = toBase64Url (fr_nonce fr)" "ev_pad e = int bucket" "canonicalRequestHeader e = Inr aad"
    "ev_ct e = toBase64Url c" "ev_tag e = toBase64Url g" "ev_sig e = toBase64Url (cy_sign cy (pv_signingPrivateKey sender) msg)"
    using s(1,3,8) by (simp_all add: request_header_def)
  have ne: "c \<noteq> []" "g \<noteq> []" "cy_sign cy (pv_signingPrivateKey sender) msg \<noteq> []" "fr_nonce fr \<noteq> []"
    using s(9) unfolding sabclEnvelopeSchema_def hd by (auto dest: base64Url_nonempty)
  from cy have dh: "cy_dh cy (pv_encryptionPrivateKey own) (cy_dhPublic cy (fr_ephemeral fr)) = Some secret"
    using s(4) keys(2) unfolding crypto_correct_def by metis
  have epk: "importKey cy (ev_epk e) = Inr (cy_dhPublic cy (fr_ephemeral fr))"
  proof -
    have "length (cy_dhPublic cy (fr_ephemeral fr)) = 32" "cy_isKey cy (cy_dhPublic cy (fr_ephemeral fr))"
      using cy by (auto simp: crypto_correct_def)
    moreover from this(1) have "cy_dhPublic cy (fr_ephemeral fr) \<noteq> []" by auto
    ultimately show ?thesis by (simp add: importKey_def hd(7))
  qed
  have dec: "aeadOpen cy (deriveKey cy secret (fr_nonce fr) info) (fr_nonce fr) c g aad = Inr padded"
    using cy s(6) unfolding crypto_correct_def aeadOpen_def by auto
  have "cy_verify cy (pb_signingPublicKey p) msg (cy_sign cy (pv_signingPrivateKey sender) msg)"
    using cy peer(2) by (simp add: crypto_correct_def)
  then show ?thesis using ne dh epk dec time hd s(5,7) peer(1) keys(1) json unpad_pad [OF s(2)] pad_length [OF s(2)]
    by (simp add: openRequest_def deriveSharedSecret_def)
qed

lemma open_seal_response:
  assumes cy: "crypto_correct cy"
    and seal: "sealResponse cy nonce own secret cid serialised = Inr e"
    and keys: "pb_keyId responder = pv_keyId own" "pb_signingPublicKey responder = cy_signPublic cy (pv_signingPrivateKey own)"
    and json: "parse serialised = Some payload"
  shows "openResponse cy parse responder secret cid e = Inr payload"
proof -
  obtain padded bucket where p: "padPayload serialised = Inr (padded, bucket)" using seal by (auto simp: sealResponse_def res_simps)
  let ?hd = "canonicalResponseHeader SABCL_PROTOCOL_VERSION cid (pv_keyId own) (toBase64Url nonce) (int bucket)"
  obtain aad where aad: "?hd = Inr aad" using seal p by (auto simp: sealResponse_def res_simps)
  obtain info where info: "canonicalEncode [responseKey_domain, aad] = Inr info" using seal p aad by (auto simp: sealResponse_def res_simps)
  obtain c g where c: "cy_seal cy (deriveKey cy secret nonce info) nonce padded aad = (c, g)" by fastforce
  obtain msg where msg: "signed_message responseSignature_domain aad c g = Inr msg" using seal p aad info c by (auto simp: sealResponse_def res_simps)
  let ?e = "\<lparr>re_v = SABCL_PROTOCOL_VERSION, re_cid = cid, re_skid = pv_keyId own, re_n = toBase64Url nonce, re_pad = int bucket,
    re_ct = toBase64Url c, re_tag = toBase64Url g, re_sig = toBase64Url (cy_sign cy (pv_signingPrivateKey own) msg)\<rparr>"
  have e: "e = ?e" "sabclResponseEnvelopeSchema ?e" using seal p aad info c msg by (auto simp: sealResponse_def Let_def split: if_splits)
  have ne: "c \<noteq> []" "g \<noteq> []" "cy_sign cy (pv_signingPrivateKey own) msg \<noteq> []" "nonce \<noteq> []"
    using e(2) by (auto simp: sabclResponseEnvelopeSchema_def dest: base64Url_nonempty)
  have dec: "aeadOpen cy (deriveKey cy secret nonce info) nonce c g aad = Inr padded"
    using cy c unfolding crypto_correct_def aeadOpen_def by auto
  have "cy_verify cy (pb_signingPublicKey responder) msg (cy_sign cy (pv_signingPrivateKey own) msg)"
    using cy keys(2) by (simp add: crypto_correct_def)
  then show ?thesis using ne dec aad info msg keys(1) json unpad_pad [OF p] pad_length [OF p] by (simp add: openResponse_def e(1))
qed

section \<open>Sealing succeeds\<close>

lemma b64_groups_length: "3 * length (b64_groups xs) \<le> 4 * length xs + 2"
  by (induction xs rule: b64_groups.induct) auto

lemma toBase64Url_length: "3 * length (toBase64Url b) \<le> 4 * length b + 2"
  using b64_groups_length [of "map of_char b"] by (simp add: toBase64Url_def)

lemma toBase64Url_chars: "list_all is_b64 (toBase64Url b)"
proof -
  have "list_all (\<lambda>x. x < 64) (b64_groups (map of_char b))" by (rule b64_groups_bound [OF bytes_bound])
  then show ?thesis by (auto simp: toBase64Url_def list_all_iff is_b64_def b64_digit_char)
qed

lemma base64Url_to: "b \<noteq> [] \<Longrightarrow> 4 * length b + 2 \<le> 3 * mx \<Longrightarrow> base64Url mx (toBase64Url b)"
  using toBase64Url_length [of b] toBase64Url_chars [of b] by (cases "toBase64Url b") (auto simp: base64Url_def)

lemma padPayload_total:
  assumes "length p \<le> 65532"
  obtains padded bucket where "padPayload p = Inr (padded, bucket)" "bucket \<le> 65536" "0 < bucket"
proof -
  have "65536 \<in> set SABCL_PADDING_BUCKETS" by (auto simp: SABCL_PADDING_BUCKETS_def intro: image_eqI [where x = 16])
  then have "List.find (\<lambda>size. length p + 4 \<le> size) SABCL_PADDING_BUCKETS \<noteq> None" using assms by (auto simp: find_None_iff)
  then obtain b where b: "List.find (\<lambda>size. length p + 4 \<le> size) SABCL_PADDING_BUCKETS = Some b" by auto
  then have "b \<in> set SABCL_PADDING_BUCKETS" "length p + 4 \<le> b" by (auto simp: find_Some_iff)
  then have "b \<le> 65536" "0 < b"
    using power_increasing [of _ 16 "2 :: nat"] by (auto simp: SABCL_PADDING_BUCKETS_def)
  then show ?thesis using that b assms
    by (simp add: padPayload_def paddingBucketFor_def SABCL_MAX_PLAINTEXT_BYTES_def)
qed

lemma canonicalEncode_total: "list_all (\<lambda>f. length f < 2 ^ 32) fs \<Longrightarrow>
    \<exists>x. canonicalEncode fs = Inr x \<and> length x = sum_list (map (\<lambda>f. length f + 4) fs)"
  by (induction fs) (auto simp: canonicalEncode.simps encode_field_def)

lemma canonicalUInt_total: "safe_nonneg v \<Longrightarrow> \<exists>x. canonicalUInt v = Inr x \<and> length x = 8"
  by (simp add: safe_nonneg_def canonicalUInt_def)

lemma header_total:
  assumes "sabclEnvelopeSchema (with_body h c g s)"
  shows "\<exists>x. canonicalRequestHeader h = Inr x \<and> length x < 1000"
proof -
  note d = assms [unfolded sabclEnvelopeSchema_def base64Url_def sabclKeyIdSchema_def, simplified]
  have hl: "safe_nonneg (ev_hl h)" using d by (auto simp: safe_nonneg_def SABCL_MAX_HOP_LIMIT_def)
  obtain a1 a2 a3 a4 where a: "canonicalUInt (ev_iat h) = Inr a1" "canonicalUInt (ev_exp h) = Inr a2" "canonicalUInt (ev_hl h) = Inr a3"
      "canonicalUInt (ev_pad h) = Inr a4" "length a1 = 8" "length a2 = 8" "length a3 = 8" "length a4 = 8"
    using d hl canonicalUInt_total by meson
  let ?fs = "[ev_v h, ev_mid h, ev_rt h, ev_skid h, ev_rkid h, ev_epk h, a1, a2, ev_n h, a3, a4]"
  have "list_all (\<lambda>f. length f < 2 ^ 32) ?fs" using d a by (auto simp: SABCL_PROTOCOL_VERSION_def)
  from canonicalEncode_total [OF this] obtain x where "canonicalEncode ?fs = Inr x" "length x = sum_list (map (\<lambda>f. length f + 4) ?fs)" by blast
  moreover from this(2) have "length x < 1000" using d a by (simp add: SABCL_PROTOCOL_VERSION_def)
  ultimately show ?thesis by (simp add: canonicalRequestHeader_def a)
qed

text \<open>A payload of at most 65532 bytes can be sealed whenever the keys and the options are in range.\<close>

lemma sealRequest_total:
  assumes cy: "crypto_correct cy" and size: "length serialised \<le> 65532"
    and opts: "0 < ttl" "ttl \<le> SABCL_MAX_TTL_SECONDS" "1 \<le> hop" "hop \<le> SABCL_MAX_HOP_LIMIT"
    and keys: "\<not> pb_revoked recipient" "pv_notAfter sender = None" "sabclKeyIdSchema (pv_keyId sender)" "sabclKeyIdSchema (pb_keyId recipient)"
    and rt: "base64Url 64 rt" and fresh: "length (fr_mid fr) = 16" "length (fr_nonce fr) = 12"
    and time: "0 \<le> issued" "issued \<le> 9007199254740000"
    and dh: "cy_dh cy (fr_ephemeral fr) (pb_encryptionPublicKey recipient) = Some secret"
  shows "\<exists>e. sealRequest cy fr sender recipient rt serialised (Some ttl) (Some hop) issued = Inr (e, secret) \<and> ev_exp e = issued + ttl"
proof -
  obtain padded bucket where p: "padPayload serialised = Inr (padded, bucket)" "bucket \<le> 65536" "0 < bucket" by (rule padPayload_total [OF size])
  let ?h = "request_header cy fr sender recipient rt issued ttl hop bucket"
  have sz: "length (cy_dhPublic cy (fr_ephemeral fr)) = 32" "\<And>m. length (cy_sign cy (pv_signingPrivateKey sender) m) = 64"
      "\<And>k n a c t. cy_seal cy k n padded a = (c, t) \<Longrightarrow> length c = length padded \<and> length t = 16"
    using cy by (simp_all add: crypto_correct_def SABCL_TAG_BYTES_def)
  have ok: "sabclEnvelopeSchema (with_body ?h (toBase64Url c) (toBase64Url g) (toBase64Url s))"
    if "length c = bucket" "length g = 16" "length s = 64" for c g s
  proof -
    have ne: "c \<noteq> []" "g \<noteq> []" "s \<noteq> []" "fr_mid fr \<noteq> []" "fr_nonce fr \<noteq> []" "cy_dhPublic cy (fr_ephemeral fr) \<noteq> []"
      using that p(3) fresh sz(1) by auto
    have "base64Url 32 (toBase64Url (fr_mid fr))" "base64Url 24 (toBase64Url (fr_nonce fr))" "base64Url 64 (toBase64Url (cy_dhPublic cy (fr_ephemeral fr)))"
        "base64Url SABCL_MAX_ENVELOPE_BYTES (toBase64Url c)" "base64Url 32 (toBase64Url g)" "base64Url 128 (toBase64Url s)"
      using ne that p(2) fresh sz(1) by (auto intro!: base64Url_to simp: SABCL_MAX_ENVELOPE_BYTES_def)
    then show ?thesis using opts keys rt time p
      by (simp add: sabclEnvelopeSchema_def request_header_def safe_nonneg_def SABCL_MAX_TTL_SECONDS_def)
  qed
  have lp: "length padded = bucket" by (rule pad_length [OF p(1)])
  from header_total [OF ok [of "replicate bucket CHR ''x''" "replicate 16 CHR ''x''" "replicate 64 CHR ''x''"]]
  obtain aad where aad: "canonicalRequestHeader ?h = Inr aad" "length aad < 1000" by auto
  have "list_all (\<lambda>f. length f < 2 ^ 32) [requestKey_domain, aad]" using aad(2) by (simp add: requestKey_domain_def)
  from canonicalEncode_total [OF this] obtain info where info: "canonicalEncode [requestKey_domain, aad] = Inr info" by blast
  obtain c g where c: "cy_seal cy (deriveKey cy secret (fr_nonce fr) info) (fr_nonce fr) padded aad = (c, g)" by fastforce
  note lc = sz(3) [OF c]
  have "list_all (\<lambda>f. length f < 2 ^ 32) [requestSignature_domain, aad, c, g]"
    using aad(2) lc lp p(2) by (simp add: requestSignature_domain_def)
  from canonicalEncode_total [OF this] obtain msg where msg: "signed_message requestSignature_domain aad c g = Inr msg"
    unfolding signed_message_def by blast
  let ?e = "with_body ?h (toBase64Url c) (toBase64Url g) (toBase64Url (cy_sign cy (pv_signingPrivateKey sender) msg))"
  have "sabclEnvelopeSchema ?e" by (rule ok) (use lc lp sz(2) in auto)
  then have "sealRequest cy fr sender recipient rt serialised (Some ttl) (Some hop) issued = Inr (?e, secret)"
    using opts keys p(1) aad(1) dh info c msg by (auto simp: sealRequest_def Let_def deriveSharedSecret_def)
  then show ?thesis by (auto simp: request_header_def)
qed

section \<open>What is opened was signed\<close>

text \<open>The message a sender signs for a request envelope, and the one a responder signs.\<close>

definition request_message :: "sabcl_envelope \<Rightarrow> bytes option" where
  "request_message e =
     (case andThen (canonicalRequestHeader e) (\<lambda>aad. andThen (fromBase64Url (ev_ct e)) (\<lambda>c. andThen (fromBase64Url (ev_tag e)) (\<lambda>g.
        signed_message requestSignature_domain aad c g))) of Inr m \<Rightarrow> Some m | Inl _ \<Rightarrow> None)"

definition response_message :: "response_envelope \<Rightarrow> bytes option" where
  "response_message e =
     (case andThen (canonicalResponseHeader (re_v e) (re_cid e) (re_skid e) (re_n e) (re_pad e)) (\<lambda>aad.
        andThen (fromBase64Url (re_ct e)) (\<lambda>c. andThen (fromBase64Url (re_tag e)) (\<lambda>g.
        signed_message responseSignature_domain aad c g))) of Inr m \<Rightarrow> Some m | Inl _ \<Rightarrow> None)"

lemma canonicalRequestHeader_inject:
  assumes "canonicalRequestHeader e = Inr x" "canonicalRequestHeader f = Inr x"
  shows "sabcl_header.truncate e = sabcl_header.truncate f"
proof -
  from assms(1) obtain a1 a2 a3 a4 where a: "canonicalUInt (ev_iat e) = Inr a1" "canonicalUInt (ev_exp e) = Inr a2" "canonicalUInt (ev_hl e) = Inr a3"
      "canonicalUInt (ev_pad e) = Inr a4"
      "canonicalEncode [ev_v e, ev_mid e, ev_rt e, ev_skid e, ev_rkid e, ev_epk e, a1, a2, ev_n e, a3, a4] = Inr x"
    by (auto simp: canonicalRequestHeader_def res_simps)
  from assms(2) obtain b1 b2 b3 b4 where b: "canonicalUInt (ev_iat f) = Inr b1" "canonicalUInt (ev_exp f) = Inr b2" "canonicalUInt (ev_hl f) = Inr b3"
      "canonicalUInt (ev_pad f) = Inr b4"
      "canonicalEncode [ev_v f, ev_mid f, ev_rt f, ev_skid f, ev_rkid f, ev_epk f, b1, b2, ev_n f, b3, b4] = Inr x"
    by (auto simp: canonicalRequestHeader_def res_simps)
  from canonicalEncode_inject [OF a(5) b(5)] have eq: "ev_v e = ev_v f" "ev_mid e = ev_mid f" "ev_rt e = ev_rt f" "ev_skid e = ev_skid f"
      "ev_rkid e = ev_rkid f" "ev_epk e = ev_epk f" "a1 = b1" "a2 = b2" "ev_n e = ev_n f" "a3 = b3" "a4 = b4" by simp_all
  have "ev_iat e = ev_iat f" "ev_exp e = ev_exp f" "ev_hl e = ev_hl f" "ev_pad e = ev_pad f"
    using a b eq canonicalUInt_inject by blast+
  with eq show ?thesis by (simp add: sabcl_header.defs)
qed

lemma request_message_inject:
  assumes "request_message e = Some m" "request_message f = Some m"
  shows "f\<lparr>ev_sig := s\<rparr> = e\<lparr>ev_sig := s\<rparr>"
proof -
  from assms(1) obtain a1 c1 g1 where e: "canonicalRequestHeader e = Inr a1" "fromBase64Url (ev_ct e) = Inr c1" "fromBase64Url (ev_tag e) = Inr g1"
      "canonicalEncode [requestSignature_domain, a1, c1, g1] = Inr m"
    by (auto simp: request_message_def signed_message_def res_simps split: sum.splits)
  from assms(2) obtain a2 c2 g2 where f: "canonicalRequestHeader f = Inr a2" "fromBase64Url (ev_ct f) = Inr c2" "fromBase64Url (ev_tag f) = Inr g2"
      "canonicalEncode [requestSignature_domain, a2, c2, g2] = Inr m"
    by (auto simp: request_message_def signed_message_def res_simps split: sum.splits)
  from canonicalEncode_inject [OF e(4) f(4)] have eq: "a1 = a2" "c1 = c2" "g1 = g2" by simp_all
  then have "sabcl_header.truncate e = sabcl_header.truncate f" using e(1) f(1) canonicalRequestHeader_inject by blast
  moreover have "ev_ct e = ev_ct f" "ev_tag e = ev_tag f" using e(2,3) f(2,3) eq by (simp_all add: fromBase64Url_iff)
  ultimately show ?thesis by (simp add: sabcl_header.defs)
qed

lemma messages_apart: "request_message e = Some m \<Longrightarrow> response_message r = Some m \<Longrightarrow> False"
proof -
  assume "request_message e = Some m" "response_message r = Some m"
  then obtain a1 c1 g1 a2 c2 g2 where m: "canonicalEncode [requestSignature_domain, a1, c1, g1] = Inr m"
      "canonicalEncode [responseSignature_domain, a2, c2, g2] = Inr m"
    by (auto simp: request_message_def response_message_def signed_message_def res_simps split: sum.splits)
  from canonicalEncode_inject [OF m] show False by (simp add: requestSignature_domain_def responseSignature_domain_def)
qed

lemma openRequest_verified:
  assumes "openRequest cy parse own kr e now = Inr r"
  obtains p m s where "keyring_peer kr (ev_skid e) now = Inr p" "request_message e = Some m" "fromBase64Url (ev_sig e) = Inr s"
    "cy_verify cy (pb_signingPublicKey p) m s"
    "ev_rkid e = pv_keyId own" "now \<le> ev_exp e" "ev_iat e \<le> now + SABCL_CLOCK_SKEW_SECONDS" "op_routeToken r = ev_rt e" "op_messageId r = ev_mid e"
    "op_senderService r = pb_service p"
  using assms by (auto simp: openRequest_def request_message_def res_simps split: if_splits)

section \<open>A sample pair of services\<close>

definition demo_crypto :: sabcl_crypto where
  "demo_crypto =
     \<lparr>cy_dh = (\<lambda>_ _. Some ''secret''), cy_dhPublic = (\<lambda>a. take 32 (a @ replicate 32 CHR ''p'')), cy_isKey = (\<lambda>_. True),
      cy_hkdf = (\<lambda>_ _ _ _. ''key''), cy_seal = (\<lambda>k n p a. (p, replicate 16 CHR ''t'')), cy_open = (\<lambda>k n c t a. Some c),
      cy_sign = (\<lambda>sk m. take 64 (sk @ replicate 64 CHR ''!'')), cy_signPublic = (\<lambda>sk. sk),
      cy_verify = (\<lambda>pk m s. s = take 64 (pk @ replicate 64 CHR ''!'')),
      cy_hmac = (\<lambda>k m. take 32 (m @ replicate 32 CHR ''h''))\<rparr>"

definition demo_own :: "string \<Rightarrow> private_identity" where
  "demo_own service =
     \<lparr>pv_keyId = service @ ''.v1'', pv_service = service, pv_encryptionPrivateKey = service, pv_signingPrivateKey = service, pv_notAfter = None\<rparr>"

definition demo_public :: "string \<Rightarrow> public_identity" where
  "demo_public service =
     \<lparr>pb_keyId = service @ ''.v1'', pb_service = service, pb_encryptionPublicKey = cy_dhPublic demo_crypto service,
      pb_signingPublicKey = service, pb_revoked = False, pb_notAfter = None\<rparr>"

definition demo_ring :: "string \<Rightarrow> keyring" where
  "demo_ring service = \<lparr>kr_own = demo_own service, kr_peers = [demo_public ''gw'', demo_public ''ledger'']\<rparr>"

definition demo_fresh :: sabcl_fresh where
  "demo_fresh = \<lparr>fr_ephemeral = ''e'', fr_nonce = replicate 12 CHR ''n'', fr_mid = replicate 16 CHR ''m''\<rparr>"

lemma demo_crypto_correct: "crypto_correct demo_crypto"
  by (auto simp: crypto_correct_def demo_crypto_def SABCL_TAG_BYTES_def SABCL_ROUTE_TOKEN_BYTES_def)

lemma demo_key_ids: "sabclKeyIdSchema ''gw.v1''" "sabclKeyIdSchema ''ledger.v1''" "base64Url 64 ''token''"
  by code_simp+

section \<open>Properties\<close>

text \<open>C28: sealing and opening are inverse.  A payload of at most 65532 bytes is sealed for a recipient whenever its key is
  live and the options are in range, and the recipient opens the envelope to exactly that payload, with the sender,
  the route token and the shared secret of the sealer, at every moment from five seconds before it was issued until it
  expires; a second later it is refused as expired.\<close>

theorem sabcl_seal_roundtrip:
  assumes "crypto_correct cy" and "length serialised \<le> 65532"
    and "0 < ttl" "ttl \<le> SABCL_MAX_TTL_SECONDS" "1 \<le> hop" "hop \<le> SABCL_MAX_HOP_LIMIT"
    and "\<not> pb_revoked recipient" "pv_notAfter sender = None" "sabclKeyIdSchema (pv_keyId sender)" "sabclKeyIdSchema (pb_keyId recipient)"
    and "base64Url 64 rt" "length (fr_mid fr) = 16" "length (fr_nonce fr) = 12" "0 \<le> issued" "issued \<le> 9007199254740000"
    and "cy_dh cy (fr_ephemeral fr) (pb_encryptionPublicKey recipient) = Some secret"
    and "pb_keyId recipient = pv_keyId own" "pb_encryptionPublicKey recipient = cy_dhPublic cy (pv_encryptionPrivateKey own)"
    and "\<And>now. keyring_peer kr (pv_keyId sender) now = Inr p" "pb_signingPublicKey p = cy_signPublic cy (pv_signingPrivateKey sender)"
    and "parse serialised = Some payload"
  shows "\<exists>e. sealRequest cy fr sender recipient rt serialised (Some ttl) (Some hop) issued = Inr (e, secret)
      \<and> (\<forall>now. issued - SABCL_CLOCK_SKEW_SECONDS \<le> now \<and> now \<le> issued + ttl \<longrightarrow> openRequest cy parse own kr e now =
           Inr \<lparr>op_payload = payload, op_messageId = toBase64Url (fr_mid fr), op_senderKeyId = pv_keyId sender,
                op_senderService = pb_service p, op_routeToken = rt, op_responseSecret = secret\<rparr>)
      \<and> openRequest cy parse own kr e (issued + ttl + 1) = Inl (SabclError SABCL_EXPIRED)"
proof -
  obtain e where e: "sealRequest cy fr sender recipient rt serialised (Some ttl) (Some hop) issued = Inr (e, secret)" "ev_exp e = issued + ttl"
    using sealRequest_total [OF assms(1-16)] by blast
  note f = sealRequest_fields [OF e(1)]
  have "openRequest cy parse own kr e now =
      Inr \<lparr>op_payload = payload, op_messageId = toBase64Url (fr_mid fr), op_senderKeyId = pv_keyId sender,
           op_senderService = pb_service p, op_routeToken = rt, op_responseSecret = secret\<rparr>"
    if "issued - SABCL_CLOCK_SKEW_SECONDS \<le> now" "now \<le> issued + ttl" for now
    using open_seal [where parse = parse, OF assms(1) e(1) assms(17,18,19,20) that(1) _ assms(21)] that(2) e(2) f(5) by simp
  moreover have "openRequest cy parse own kr e (issued + ttl + 1) = Inl (SabclError SABCL_EXPIRED)"
    using e(2) f(1) by (simp add: openRequest_def)
  ultimately show ?thesis using e(1) by blast
qed

theorem sabcl_seal_roundtrip_witness:
  "\<exists>e. sealRequest demo_crypto demo_fresh (demo_own ''gw'') (demo_public ''ledger'') ''token'' ''{}'' (Some 30) (Some 2) 100 = Inr (e, ''secret'')
      \<and> openRequest demo_crypto Some (demo_own ''ledger'') (demo_ring ''ledger'') e 101 =
          Inr \<lparr>op_payload = ''{}'', op_messageId = toBase64Url (replicate 16 CHR ''m''), op_senderKeyId = ''gw.v1'',
               op_senderService = ''gw'', op_routeToken = ''token'', op_responseSecret = ''secret''\<rparr>"
proof -
  have peer: "keyring_peer (demo_ring ''ledger'') (pv_keyId (demo_own ''gw'')) now = Inr (demo_public ''gw'')" for now
    by (simp add: keyring_peer_def demo_ring_def demo_own_def demo_public_def)
  from sabcl_seal_roundtrip [of demo_crypto "''{}''" 30 2 "demo_public ''ledger''" "demo_own ''gw''" "''token''" demo_fresh 100 "''secret''"
      "demo_own ''ledger''" "demo_ring ''ledger''" "demo_public ''gw''" Some "''{}''", OF demo_crypto_correct _ _ _ _ _ _ _ _ _ _ _ _ _ _ _ _ _ peer]
  obtain e where "sealRequest demo_crypto demo_fresh (demo_own ''gw'') (demo_public ''ledger'') ''token'' ''{}'' (Some 30) (Some 2) 100 = Inr (e, ''secret'')"
      "\<And>now. 100 - SABCL_CLOCK_SKEW_SECONDS \<le> now \<and> now \<le> 130 \<Longrightarrow> openRequest demo_crypto Some (demo_own ''ledger'') (demo_ring ''ledger'') e now =
        Inr \<lparr>op_payload = ''{}'', op_messageId = toBase64Url (fr_mid demo_fresh), op_senderKeyId = pv_keyId (demo_own ''gw''),
             op_senderService = pb_service (demo_public ''gw''), op_routeToken = ''token'', op_responseSecret = ''secret''\<rparr>"
    using demo_key_ids by (auto simp: demo_own_def demo_public_def demo_crypto_def demo_fresh_def SABCL_MAX_TTL_SECONDS_def SABCL_MAX_HOP_LIMIT_def)
  from this(1) this(2) [of 101] show ?thesis by (auto simp: SABCL_CLOCK_SKEW_SECONDS_def demo_fresh_def demo_own_def demo_public_def)
qed

text \<open>C29: the signature of an accepted request covers the whole request.  When a recipient opens an envelope, the signature
  that this envelope carries was verified with the key of the peer it names, over a message that no other request
  envelope has, up to the signature itself, and no response envelope at all: the route token, the addressee, the
  times, the hop limit, the nonce, the padding, the ciphertext and the tag cannot be exchanged under a signature, and
  a response cannot be passed off as a request.  So when the sender made this signature for the message of one of the
  envelopes \<open>E\<close>, the envelope is that one.\<close>

theorem sabcl_only_signed_requests_open:
  assumes "openRequest cy parse own kr e now = Inr r" "keyring_peer kr (ev_skid e) now = Inr p"
  shows "\<exists>m s. request_message e = Some m \<and> fromBase64Url (ev_sig e) = Inr s \<and> cy_verify cy (pb_signingPublicKey p) m s
    \<and> ev_rkid e = pv_keyId own \<and> now \<le> ev_exp e \<and> op_routeToken r = ev_rt e \<and> op_messageId r = ev_mid e
    \<and> (\<forall>f. request_message f = Some m \<longrightarrow> f\<lparr>ev_sig := ev_sig e\<rparr> = e) \<and> (\<forall>f. response_message f \<noteq> Some m)
    \<and> (\<forall>E. m \<in> {m. \<exists>f \<in> E. request_message f = Some m} \<longrightarrow> (\<exists>f \<in> E. e = f\<lparr>ev_sig := ev_sig e\<rparr>))"
proof -
  from openRequest_verified [OF assms(1)] obtain q m s where v: "keyring_peer kr (ev_skid e) now = Inr q" "request_message e = Some m"
      "fromBase64Url (ev_sig e) = Inr s" "cy_verify cy (pb_signingPublicKey q) m s" "ev_rkid e = pv_keyId own" "now \<le> ev_exp e"
      "op_routeToken r = ev_rt e" "op_messageId r = ev_mid e"
    by metis
  have "q = p" using assms(2) v(1) by simp
  moreover have inj: "f\<lparr>ev_sig := ev_sig e\<rparr> = e" if "request_message f = Some m" for f
    using request_message_inject [OF v(2) that, of "ev_sig e"] by simp
  moreover have "response_message f \<noteq> Some m" for f using messages_apart [OF v(2)] by auto
  ultimately show ?thesis using v(2-) by (intro exI [of _ m] exI [of _ s]) (auto; metis)
qed

theorem sabcl_only_signed_requests_open_witness:
  "\<exists>e r m s. openRequest demo_crypto Some (demo_own ''ledger'') (demo_ring ''ledger'') e 101 = Inr r
      \<and> request_message e = Some m \<and> fromBase64Url (ev_sig e) = Inr s \<and> cy_verify demo_crypto ''gw'' m s
      \<and> (\<forall>f. request_message f = Some m \<longrightarrow> f\<lparr>ev_sig := ev_sig e\<rparr> = e)"
proof -
  from sealRequest_total [of demo_crypto "''{}''" 30 2 "demo_public ''ledger''" "demo_own ''gw''" "''token''" demo_fresh 100 "''secret''", OF demo_crypto_correct]
  obtain e where e: "sealRequest demo_crypto demo_fresh (demo_own ''gw'') (demo_public ''ledger'') ''token'' ''{}'' (Some 30) (Some 2) 100 = Inr (e, ''secret'')"
      "ev_exp e = 130"
    using demo_key_ids by (auto simp: demo_own_def demo_public_def demo_crypto_def demo_fresh_def SABCL_MAX_TTL_SECONDS_def SABCL_MAX_HOP_LIMIT_def)
  have peer: "keyring_peer (demo_ring ''ledger'') (ev_skid e) 101 = Inr (demo_public ''gw'')"
    using sealRequest_fields(2) [OF e(1)] by (simp add: keyring_peer_def demo_ring_def demo_own_def demo_public_def)
  have "pb_keyId (demo_public ''ledger'') = pv_keyId (demo_own ''ledger'')"
      "pb_encryptionPublicKey (demo_public ''ledger'') = cy_dhPublic demo_crypto (pv_encryptionPrivateKey (demo_own ''ledger''))"
      "pb_signingPublicKey (demo_public ''gw'') = cy_signPublic demo_crypto (pv_signingPrivateKey (demo_own ''gw''))"
    by (simp_all add: demo_own_def demo_public_def demo_crypto_def)
  from open_seal [where parse = Some and payload = "''{}''" and now = 101, OF demo_crypto_correct e(1) this(1,2) peer [unfolded sealRequest_fields(2) [OF e(1)]] this(3)] e(2)
  have "\<exists>r. openRequest demo_crypto Some (demo_own ''ledger'') (demo_ring ''ledger'') e 101 = Inr r"
    by (simp add: SABCL_CLOCK_SKEW_SECONDS_def)
  then obtain r where r: "openRequest demo_crypto Some (demo_own ''ledger'') (demo_ring ''ledger'') e 101 = Inr r" ..
  have "pb_signingPublicKey (demo_public ''gw'') = ''gw''" by (simp add: demo_public_def)
  with sabcl_only_signed_requests_open [OF r peer] obtain m s where
      "request_message e = Some m" "fromBase64Url (ev_sig e) = Inr s" "cy_verify demo_crypto ''gw'' m s"
      "\<forall>f. request_message f = Some m \<longrightarrow> f\<lparr>ev_sig := ev_sig e\<rparr> = e" by auto
  with r show ?thesis by blast
qed

end
