(* ===== verification/SabclRecipient.thy ===== *)
theory SabclRecipient
  imports SabclSeal IdentityStore
begin

text \<open>
  The receiving side of SABCL: the replay stores (\<open>replay/replay-store.ts\<close>, \<open>replay/redis-replay-store.ts\<close>), the inner
  request (\<open>protocol/payload.ts\<close>), the catalogue of capabilities (\<open>catalog/capabilities.ts\<close>), the recipient
  (\<open>server/sabcl-recipient.ts\<close>) and the dispatch onto the service itself (\<open>server/loopback-dispatch.ts\<close>).
\<close>

section \<open>Replay stores\<close>

text \<open>The contract of \<open>SabclReplayStore\<close>: \<open>holds s m t\<close> says that \<open>s\<close> still knows \<open>m\<close> at the moment \<open>t\<close>.\<close>

locale replay_store =
  fixes remember :: "time \<Rightarrow> string \<Rightarrow> int \<Rightarrow> 's \<Rightarrow> bool \<times> 's"
    and holds :: "'s \<Rightarrow> string \<Rightarrow> time \<Rightarrow> bool"
  assumes claim_holds: "remember now m ttl s = (True, s') \<Longrightarrow> 0 < ttl \<Longrightarrow> t < now + ttl * 1000 \<Longrightarrow> holds s' m t"
    and held_refused: "holds s m now \<Longrightarrow> fst (remember now m ttl s) = False"
    and keeps_held: "holds s m' t \<Longrightarrow> now \<le> t \<Longrightarrow> holds (snd (remember now m ttl s)) m' t"
begin

fun claims :: "(time \<times> string \<times> int) list \<Rightarrow> 's \<Rightarrow> 's" where
  "claims [] s = s"
| "claims ((now, m, ttl) # rest) s = claims rest (snd (remember now m ttl s))"

lemma claims_keep:
  "holds s m t \<Longrightarrow> (\<And>now m' ttl. (now, m', ttl) \<in> set cs \<Longrightarrow> now \<le> t) \<Longrightarrow> holds (claims cs s) m t"
  by (induction cs s rule: claims.induct) (auto intro: keeps_held)

text \<open>Whatever happens in between, a claimed identifier is refused until its time is over.\<close>

lemma no_second_claim:
  assumes "remember t1 m ttl s = (True, s1)" "0 < ttl" and "\<And>now m' ttl'. (now, m', ttl') \<in> set cs \<Longrightarrow> now \<le> t2"
    and "t2 < t1 + ttl * 1000"
  shows "fst (remember t2 m ttl2 (claims cs s1)) = False"
proof -
  from claim_holds [OF assms(1,2,4)] have "holds s1 m t2" .
  then have "holds (claims cs s1) m t2" by (rule claims_keep) (use assms(3) in auto)
  then show ?thesis by (rule held_refused)
qed

end

text \<open>The process-local store sweeps what has expired before it looks.\<close>

type_synonym memory_store = "(string \<times> time) list"

definition memory_remember :: "time \<Rightarrow> string \<Rightarrow> int \<Rightarrow> memory_store \<Rightarrow> bool \<times> memory_store" where
  "memory_remember now messageId ttlSeconds seen =
     (let live = filter (\<lambda>(k, until). now < until) seen in
      if find_by fst messageId live \<noteq> None then (False, live) else (True, live @ [(messageId, now + ttlSeconds * 1000)]))"

definition memory_holds :: "memory_store \<Rightarrow> string \<Rightarrow> time \<Rightarrow> bool" where
  "memory_holds seen m t = (\<exists>until. (m, until) \<in> set seen \<and> t < until)"

interpretation mem: replay_store memory_remember memory_holds
proof unfold_locales
  fix now ttl t :: int and m s s'
  assume "memory_remember now m ttl s = (True, s')" "0 < ttl" "t < now + ttl * 1000"
  then show "memory_holds s' m t" by (auto simp: memory_remember_def memory_holds_def Let_def split: if_splits)
next
  fix s m now ttl
  assume "memory_holds s m now"
  then show "fst (memory_remember now m ttl s) = False"
    by (force simp: memory_remember_def memory_holds_def Let_def find_by_None)
next
  fix s m' t now m ttl
  assume "memory_holds s m' t" "now \<le> t"
  then show "memory_holds (snd (memory_remember now m ttl s)) m' t"
    by (fastforce simp: memory_remember_def memory_holds_def Let_def)
qed

text \<open>\<open>SET NX EX\<close>.\<close>

definition redis_remember :: "string \<Rightarrow> time \<Rightarrow> string \<Rightarrow> int \<Rightarrow> string rstore \<Rightarrow> bool \<times> string rstore" where
  "redis_remember prefix now messageId ttlSeconds store =
     (let k = prefix @ ''replay:'' @ messageId in
      if rlive now store k \<noteq> None then (False, store) else (True, rset now k ''1'' (max 1 ttlSeconds) store))"

definition redis_holds :: "string \<Rightarrow> string rstore \<Rightarrow> string \<Rightarrow> time \<Rightarrow> bool" where
  "redis_holds prefix store m t = (rlive t store (prefix @ ''replay:'' @ m) \<noteq> None)"

lemma rlive_later: "rlive t store k \<noteq> None \<Longrightarrow> now \<le> t \<Longrightarrow> rlive now store k \<noteq> None"
  by (auto simp: rlive_def split: option.splits prod.splits if_splits)

interpretation red: replay_store "redis_remember prefix" "redis_holds prefix" for prefix
proof unfold_locales
  fix now ttl t :: int and m s s'
  assume "redis_remember prefix now m ttl s = (True, s')" "0 < ttl" "t < now + ttl * 1000"
  then show "redis_holds prefix s' m t" by (auto simp: redis_remember_def redis_holds_def Let_def rset_def split: if_splits)
next
  fix s m now ttl
  assume "redis_holds prefix s m now"
  then show "fst (redis_remember prefix now m ttl s) = False" by (auto simp: redis_remember_def redis_holds_def Let_def)
next
  fix s m' t now m ttl
  assume h: "redis_holds prefix s m' t" "now \<le> t"
  then have "rlive now s (prefix @ ''replay:'' @ m') \<noteq> None" unfolding redis_holds_def by (rule rlive_later)
  with h show "redis_holds prefix (snd (redis_remember prefix now m ttl s)) m' t"
    by (auto simp: redis_remember_def redis_holds_def Let_def rset_def)
qed

section \<open>The inner request\<close>

datatype http_method = GET | POST

record inner_request =
  ir_op :: string
  ir_method :: http_method
  ir_path :: string
  ir_body :: "string option"
  ir_actor :: "string option option"
  ir_correlationId :: string

record inner_response =
  is_status :: int
  is_body :: "string option"

definition op_re :: "string \<Rightarrow> bool" where
  "op_re s = (let parts = split_on CHR ''.'' s in 2 \<le> length parts \<and> list_all name_re parts)"

definition sabclInnerRequestSchema :: "inner_request \<Rightarrow> bool" where
  "sabclInnerRequestSchema r =
     (3 \<le> length (ir_op r) \<and> length (ir_op r) \<le> 64 \<and> op_re (ir_op r)
      \<and> 1 \<le> length (ir_path r) \<and> length (ir_path r) \<le> 2048 \<and> starts_with ''/'' (ir_path r)
      \<and> (case ir_actor r of Some (Some c) \<Rightarrow> 1 \<le> length c \<and> length c \<le> 128 | _ \<Rightarrow> True)
      \<and> 1 \<le> length (ir_correlationId r) \<and> length (ir_correlationId r) \<le> 128)"

definition sabclInnerResponseSchema :: "inner_response \<Rightarrow> bool" where
  "sabclInnerResponseSchema r = (100 \<le> is_status r \<and> is_status r \<le> 599)"

section \<open>Capabilities\<close>

text \<open>A path pattern of the catalogue is a sequence of segments between slashes, each a fixed text or an identifier, and
  may allow a query string.\<close>

datatype path_segment = Lit string | ID

record path_pattern =
  pp_segments :: "path_segment list"
  pp_query :: bool

definition is_id_char :: "char \<Rightarrow> bool" where
  "is_id_char c = (is_alnum c \<or> c = CHR ''_'' \<or> c = CHR ''-'')"

definition is_query_char :: "char \<Rightarrow> bool" where
  "is_query_char c = (is_alnum c \<or> c \<in> set ''_=&%.,:-'')"

definition segment_matches :: "path_segment \<Rightarrow> string \<Rightarrow> bool" where
  "segment_matches seg s =
     (case seg of Lit l \<Rightarrow> s = l | ID \<Rightarrow> 1 \<le> length s \<and> length s \<le> 128 \<and> list_all is_id_char s)"

definition pattern_test :: "path_pattern \<Rightarrow> string \<Rightarrow> bool" where
  "pattern_test p path =
     (let main = takeWhile (\<lambda>c. c \<noteq> CHR ''?'') path; query = dropWhile (\<lambda>c. c \<noteq> CHR ''?'') path in
      list_all2 segment_matches (Lit [] # pp_segments p) (split_on CHR ''/'' main)
      \<and> (query = [] \<or> pp_query p \<and> length (tl query) \<le> 512 \<and> list_all is_query_char (tl query)))"

record capability =
  cp_operationPrefix :: string
  cp_methods :: "http_method list"
  cp_pathPatterns :: "path_pattern list"

record catalogue_entry =
  ce_routeId :: string
  ce_service :: string
  ce_capability :: capability

definition fixed_path :: "string list \<Rightarrow> path_pattern" where
  "fixed_path parts = \<lparr>pp_segments = map Lit parts, pp_query = False\<rparr>"

definition SABCL_CAPABILITIES :: "catalogue_entry list" where
  "SABCL_CAPABILITIES =
     [\<lparr>ce_routeId = ''identity.step-up'', ce_service = ''identity'', ce_capability =
        \<lparr>cp_operationPrefix = ''identity.step-up'', cp_methods = [GET, POST], cp_pathPatterns =
          [fixed_path [''api'', ''v1'', ''auth'', ''transfer-step-up''], fixed_path [''api'', ''v1'', ''auth'', ''session'']]\<rparr>\<rparr>,
      \<lparr>ce_routeId = ''ledger.accounts'', ce_service = ''ledger'', ce_capability =
        \<lparr>cp_operationPrefix = ''ledger.accounts'', cp_methods = [GET, POST], cp_pathPatterns =
          [fixed_path [''internal'', ''customer-accounts'', ''default''],
           \<lparr>pp_segments = [Lit ''internal'', Lit ''customers'', ID, Lit ''accounts''], pp_query = False\<rparr>,
           \<lparr>pp_segments = [Lit ''internal'', Lit ''customer-accounts'', ID], pp_query = False\<rparr>,
           \<lparr>pp_segments = [Lit ''internal'', Lit ''customer-accounts'', ID, Lit ''balance''], pp_query = False\<rparr>,
           \<lparr>pp_segments = [Lit ''internal'', Lit ''customer-accounts'', ID, Lit ''transactions''], pp_query = True\<rparr>,
           \<lparr>pp_segments = [Lit ''internal'', Lit ''customer-accounts'', ID, Lit ''transactions'', ID], pp_query = False\<rparr>]\<rparr>\<rparr>,
      \<lparr>ce_routeId = ''ledger.postings'', ce_service = ''ledger'', ce_capability =
        \<lparr>cp_operationPrefix = ''ledger.postings'', cp_methods = [POST], cp_pathPatterns =
          [fixed_path [''internal'', ''customer-transfers'', ''preview''], fixed_path [''internal'', ''customer-transfers'']]\<rparr>\<rparr>,
      \<lparr>ce_routeId = ''payments.transfer'', ce_service = ''payments'', ce_capability =
        \<lparr>cp_operationPrefix = ''payments.transfer'', cp_methods = [GET, POST], cp_pathPatterns =
          [fixed_path [''internal'', ''transfer-policy''], fixed_path [''internal'', ''transfer-intents''],
           \<lparr>pp_segments = [Lit ''internal'', Lit ''transfer-intents'', ID, Lit ''authorize''], pp_query = False\<rparr>,
           fixed_path [''internal'', ''transfers''],
           \<lparr>pp_segments = [Lit ''internal'', Lit ''customers'', ID, Lit ''transfers''], pp_query = True\<rparr>,
           \<lparr>pp_segments = [Lit ''internal'', Lit ''customers'', ID, Lit ''transfers'', ID], pp_query = False\<rparr>]\<rparr>\<rparr>]"

definition capabilitiesForService :: "string \<Rightarrow> capability list" where
  "capabilitiesForService service = map ce_capability (filter (\<lambda>e. ce_service e = service) SABCL_CAPABILITIES)"

definition routeIdsForService :: "string \<Rightarrow> string list" where
  "routeIdsForService service = map ce_routeId (filter (\<lambda>e. ce_service e = service) SABCL_CAPABILITIES)"

text \<open>\<open>decodeURIComponent\<close>: the percent escapes must be well formed and the bytes UTF-8.\<close>

fun percent_decode :: "string \<Rightarrow> string option" where
  "percent_decode [] = Some []"
| "percent_decode (c # cs) =
     (if c = CHR ''%'' then
        (case cs of
           a # b # rest \<Rightarrow>
             (case (radix_digit 16 a, radix_digit 16 b) of
                (Some x, Some y) \<Rightarrow> map_option (\<lambda>r. char_of (16 * x + y) # r) (percent_decode rest)
              | _ \<Rightarrow> None)
         | _ \<Rightarrow> None)
      else map_option (\<lambda>r. c # r) (percent_decode cs))"

definition byte_in :: "nat \<Rightarrow> nat \<Rightarrow> char \<Rightarrow> bool" where
  "byte_in a b c = (a \<le> of_char c \<and> of_char c \<le> b)"

fun utf8_ok :: "string \<Rightarrow> bool" where
  "utf8_ok [] = True"
| "utf8_ok [a] = byte_in 0 127 a"
| "utf8_ok [a, b] = (byte_in 0 127 a \<and> byte_in 0 127 b \<or> byte_in 194 223 a \<and> byte_in 128 191 b)"
| "utf8_ok [a, b, c] =
     (if byte_in 0 127 a then utf8_ok [b, c]
      else if byte_in 194 223 a then byte_in 128 191 b \<and> utf8_ok [c]
      else byte_in 224 239 a \<and> byte_in 128 191 b \<and> byte_in 128 191 c \<and> (byte_in 224 224 a \<longrightarrow> byte_in 160 191 b)
        \<and> (byte_in 237 237 a \<longrightarrow> byte_in 128 159 b))"
| "utf8_ok (a # b # c # d # rest) =
     (if byte_in 0 127 a then utf8_ok (b # c # d # rest)
      else if byte_in 194 223 a then byte_in 128 191 b \<and> utf8_ok (c # d # rest)
      else if byte_in 224 239 a then byte_in 128 191 b \<and> byte_in 128 191 c \<and> (byte_in 224 224 a \<longrightarrow> byte_in 160 191 b)
        \<and> (byte_in 237 237 a \<longrightarrow> byte_in 128 159 b) \<and> utf8_ok (d # rest)
      else byte_in 240 244 a \<and> byte_in 128 191 b \<and> byte_in 128 191 c \<and> byte_in 128 191 d \<and> (byte_in 240 240 a \<longrightarrow> byte_in 144 191 b)
        \<and> (byte_in 244 244 a \<longrightarrow> byte_in 128 143 b) \<and> utf8_ok rest)"

definition safeDecode :: "string \<Rightarrow> string" where
  "safeDecode value = (case percent_decode value of Some s \<Rightarrow> if utf8_ok s then s else value | None \<Rightarrow> value)"

definition assertCapability :: "capability list \<Rightarrow> inner_request \<Rightarrow> (sabcl_error, unit) res" where
  "assertCapability capabilities request =
     (case List.find (\<lambda>c. starts_with (cp_operationPrefix c @ ''.'') (ir_op request)) capabilities of
        None \<Rightarrow> Inl (SabclError SABCL_ROUTE_INVALID)
      | Some c \<Rightarrow>
          if ir_method request \<notin> set (cp_methods c) then Inl (SabclError SABCL_ROUTE_INVALID)
          else let decoded = safeDecode (ir_path request) in
            if has_substring ''..'' decoded \<or> has_substring [CHR 0x5C] decoded then Inl (SabclError SABCL_ROUTE_INVALID)
            else if \<not> list_ex (\<lambda>p. pattern_test p (ir_path request)) (cp_pathPatterns c) then Inl (SabclError SABCL_ROUTE_INVALID)
            else Inr ())"

section \<open>The recipient\<close>

definition statusForCode :: "sabcl_code \<Rightarrow> int" where
  "statusForCode code =
     (case code of
        SABCL_OVERSIZED \<Rightarrow> 413
      | SABCL_REPLAYED \<Rightarrow> 409 | SABCL_EXPIRED \<Rightarrow> 409
      | SABCL_ROUTE_INVALID \<Rightarrow> 403 | SABCL_HOP_LIMIT_EXCEEDED \<Rightarrow> 403
      | SABCL_RECIPIENT_UNAVAILABLE \<Rightarrow> 503 | SABCL_NOT_CONFIGURED \<Rightarrow> 503
      | SABCL_MALFORMED \<Rightarrow> 400 | SABCL_UNSUPPORTED_VERSION \<Rightarrow> 400
      | _ \<Rightarrow> 401)"

datatype recipient_outcome = Sealed response_envelope | Rejected sabcl_code

definition outcome_status :: "recipient_outcome \<Rightarrow> int" where
  "outcome_status x = (case x of Sealed _ \<Rightarrow> 200 | Rejected c \<Rightarrow> statusForCode c)"

text \<open>A decoded payload: a JSON document of the shape of an inner request, or another one.\<close>

datatype payload = Shaped inner_request | OtherJson

record sabcl_codec =
  jc_printRequest :: "inner_request \<Rightarrow> bytes"
  jc_parseRequest :: "bytes \<Rightarrow> payload option"
  jc_printResponse :: "inner_response \<Rightarrow> bytes"
  jc_parseResponse :: "bytes \<Rightarrow> inner_response option option"

record recipient_options =
  ro_keyring :: keyring
  ro_prefix :: string
  ro_capabilities :: "capability list"
  ro_dispatch :: "inner_request \<Rightarrow> (sabcl_error, inner_response) res"

text \<open>The result, the request that was dispatched, if any, and the replay store.  \<open>now\<close> is the moment of the handling
  in milliseconds.\<close>

definition recipient_handle ::
  "sabcl_crypto \<Rightarrow> sabcl_codec \<Rightarrow> recipient_options \<Rightarrow> bytes \<Rightarrow> time \<Rightarrow> sabcl_envelope option \<Rightarrow> string rstore \<Rightarrow>
     recipient_outcome \<times> inner_request option \<times> string rstore" where
  "recipient_handle cy jc opts nonce now rawEnvelope store =
     (case rawEnvelope of
        None \<Rightarrow> (Rejected SABCL_MALFORMED, None, store)
      | Some e \<Rightarrow>
          if \<not> sabclEnvelopeSchema e then (Rejected SABCL_MALFORMED, None, store)
          else (case openRequest cy (jc_parseRequest jc) (kr_own (ro_keyring opts)) (ro_keyring opts) e (now div 1000) of
            Inl err \<Rightarrow> (Rejected (toSabclError SABCL_DECRYPTION_FAILED err), None, store)
          | Inr opened \<Rightarrow>
              (case redis_remember (ro_prefix opts) now (ev_mid e) (max 1 (ev_exp e - now div 1000 + 1)) store of
                 (False, store') \<Rightarrow> (Rejected SABCL_REPLAYED, None, store')
               | (True, store') \<Rightarrow>
                   (case op_payload opened of
                      OtherJson \<Rightarrow> (Rejected SABCL_MALFORMED, None, store')
                    | Shaped inner \<Rightarrow>
                        if \<not> sabclInnerRequestSchema inner then (Rejected SABCL_MALFORMED, None, store')
                        else (case assertCapability (ro_capabilities opts) inner of
                          Inl err \<Rightarrow> (Rejected (toSabclError SABCL_DECRYPTION_FAILED err), None, store')
                        | Inr _ \<Rightarrow>
                            (case andThen (ro_dispatch opts inner) (\<lambda>result.
                               sealResponse cy nonce (kr_own (ro_keyring opts)) (op_responseSecret opened) (op_messageId opened) (jc_printResponse jc result)) of
                               Inl err \<Rightarrow> (Rejected (toSabclError SABCL_DECRYPTION_FAILED err), Some inner, store')
                             | Inr response \<Rightarrow> (Sealed response, Some inner, store')))))))"

section \<open>Dispatch onto the service itself\<close>

record loopback_call =
  lo_method :: http_method
  lo_path :: string
  lo_headers :: "(string \<times> string) list"
  lo_body :: "string option"

text \<open>The origin a path resolves to against the base URL and the answer of the service, if any, are parameters.\<close>

definition loopback_dispatch ::
  "(string \<Rightarrow> string) \<Rightarrow> string \<Rightarrow> (loopback_call \<Rightarrow> inner_response option) \<Rightarrow> string \<Rightarrow> string \<Rightarrow> inner_request \<Rightarrow> (sabcl_error, inner_response) res" where
  "loopback_dispatch origin_of base_origin call tokenHeader internalToken request =
     (if origin_of (ir_path request) \<noteq> base_origin then Inl (SabclError SABCL_ROUTE_INVALID)
      else ofOption (SabclError SABCL_RECIPIENT_UNAVAILABLE)
        (call \<lparr>lo_method = ir_method request, lo_path = ir_path request,
               lo_headers = [(''accept'', ''application/json''), (''content-type'', ''application/json''), (tokenHeader, internalToken),
                             (''x-correlation-id'', ir_correlationId request)]
                 @ (case ir_actor request of Some (Some c) \<Rightarrow> if c = [] then [] else [(''x-aegis-customer-id'', c)] | _ \<Rightarrow> []),
               lo_body = (if ir_method request = POST then Some (case ir_body request of Some b \<Rightarrow> b | None \<Rightarrow> ''{}'') else None)\<rparr>))"

section \<open>What a recipient dispatches\<close>

lemma recipient_dispatched:
  assumes "recipient_handle cy jc opts nonce now raw store = (out, Some inner, store')"
  obtains e opened where "raw = Some e" "sabclEnvelopeSchema e"
    "openRequest cy (jc_parseRequest jc) (kr_own (ro_keyring opts)) (ro_keyring opts) e (now div 1000) = Inr opened"
    "op_payload opened = Shaped inner"
    "redis_remember (ro_prefix opts) now (ev_mid e) (max 1 (ev_exp e - now div 1000 + 1)) store = (True, store')"
    "sabclInnerRequestSchema inner" "assertCapability (ro_capabilities opts) inner = Inr ()"
  using assms by (auto simp: recipient_handle_def split: option.splits if_splits sum.splits prod.splits bool.splits payload.splits)

lemma recipient_store:
  "snd (snd (recipient_handle cy jc opts nonce now (Some e) store))
     \<in> {store, snd (redis_remember (ro_prefix opts) now (ev_mid e) (max 1 (ev_exp e - now div 1000 + 1)) store)}"
  unfolding recipient_handle_def
  by (auto split: if_splits sum.splits prod.splits bool.splits payload.splits)

lemma recipient_keeps_held:
  assumes "redis_holds (ro_prefix opts) store m t" "now \<le> t"
  shows "redis_holds (ro_prefix opts) (snd (snd (recipient_handle cy jc opts nonce now raw store))) m t"
proof (cases raw)
  case (Some e)
  with recipient_store [of cy jc opts nonce now e store] assms red.keeps_held [OF assms] show ?thesis by auto
qed (use assms in \<open>simp add: recipient_handle_def\<close>)

fun recipient_run ::
  "sabcl_crypto \<Rightarrow> sabcl_codec \<Rightarrow> recipient_options \<Rightarrow> (bytes \<times> time \<times> sabcl_envelope option) list \<Rightarrow> string rstore \<Rightarrow>
     (sabcl_envelope option \<times> inner_request option) list" where
  "recipient_run cy jc opts [] store = []"
| "recipient_run cy jc opts ((nonce, now, raw) # rest) store =
     (let (out, did, store') = recipient_handle cy jc opts nonce now raw store in (raw, did) # recipient_run cy jc opts rest store')"

definition dispatches :: "string \<Rightarrow> int \<Rightarrow> (sabcl_envelope option \<times> inner_request option) list \<Rightarrow> nat" where
  "dispatches m x log = length (filter (\<lambda>(raw, did). did \<noteq> None \<and> (\<exists>e. raw = Some e \<and> ev_mid e = m \<and> ev_exp e = x)) log)"

definition held_until :: "string \<Rightarrow> string \<Rightarrow> int \<Rightarrow> time \<Rightarrow> string rstore \<Rightarrow> bool" where
  "held_until prefix m x t0 store = (\<forall>t. t0 \<le> t \<and> t < (x + 1) * 1000 \<longrightarrow> redis_holds prefix store m t)"

lemma ms_before_expiry: "(now :: int) div 1000 \<le> x \<Longrightarrow> now < (x + 1) * 1000"
proof -
  assume "now div 1000 \<le> x"
  then have "now div 1000 < x + 1" by simp
  then show ?thesis by (simp add: div_less_iff_less_mult)
qed

lemma held_refuses:
  assumes "held_until (ro_prefix opts) m x t0 store" "t0 \<le> now" "ev_mid e = m" "ev_exp e = x"
  shows "fst (snd (recipient_handle cy jc opts nonce now (Some e) store)) = None"
proof (rule ccontr)
  assume "fst (snd (recipient_handle cy jc opts nonce now (Some e) store)) \<noteq> None"
  then obtain out inner store' where run: "recipient_handle cy jc opts nonce now (Some e) store = (out, Some inner, store')"
    by (metis option.exhaust prod.collapse)
  from recipient_dispatched [OF run] obtain opened where
    o: "openRequest cy (jc_parseRequest jc) (kr_own (ro_keyring opts)) (ro_keyring opts) e (now div 1000) = Inr opened"
    "redis_remember (ro_prefix opts) now m (max 1 (ev_exp e - now div 1000 + 1)) store = (True, store')"
    using assms(3) by blast
  have "now div 1000 \<le> x" using openRequest_verified [OF o(1)] assms(4) by blast
  then have "redis_holds (ro_prefix opts) store m now" using assms(1,2) ms_before_expiry unfolding held_until_def by blast
  from red.held_refused [OF this] o(2) show False by (metis fst_conv)
qed

lemma held_no_dispatch:
  assumes "held_until (ro_prefix opts) m x t0 store" "sorted (map (\<lambda>(_, t, _). t) reqs)" "\<And>n t r. (n, t, r) \<in> set reqs \<Longrightarrow> t0 \<le> t"
  shows "dispatches m x (recipient_run cy jc opts reqs store) = 0"
  using assms
proof (induction reqs arbitrary: store t0)
  case (Cons q reqs)
  obtain nonce now raw where q: "q = (nonce, now, raw)" by (cases q)
  obtain out did store' where run: "recipient_handle cy jc opts nonce now raw store = (out, did, store')" by (metis prod.exhaust)
  have early: "t0 \<le> now" using Cons.prems(3) q by auto
  have "held_until (ro_prefix opts) m x now store'"
    using Cons.prems(1) early recipient_keeps_held [where cy = cy and jc = jc and nonce = nonce and raw = raw and store = store and opts = opts and now = now] run
    by (auto simp: held_until_def)
  moreover have "sorted (map (\<lambda>(_, t, _). t) reqs)" "\<And>n t r. (n, t, r) \<in> set reqs \<Longrightarrow> now \<le> t" using Cons.prems(2) by (auto simp: q)
  ultimately have tl: "dispatches m x (recipient_run cy jc opts reqs store') = 0" by (rule Cons.IH)
  have "did = None" if "raw = Some e" "ev_mid e = m" "ev_exp e = x" for e
    using held_refuses [OF Cons.prems(1) early that(2,3)] run that(1) by (metis fst_conv snd_conv)
  with tl show ?case by (auto simp: q run dispatches_def)
qed (simp add: dispatches_def)

lemma dispatched_is_held:
  assumes "recipient_handle cy jc opts nonce now (Some e) store = (out, Some inner, store')"
  shows "held_until (ro_prefix opts) (ev_mid e) (ev_exp e) now store'"
proof -
  from recipient_dispatched [OF assms] obtain opened where
    "redis_remember (ro_prefix opts) now (ev_mid e) (max 1 (ev_exp e - now div 1000 + 1)) store = (True, store')" by blast
  note held = red.claim_holds [OF this]
  have "(ev_exp e + 1) * 1000 \<le> now + max 1 (ev_exp e - now div 1000 + 1) * 1000"
  proof -
    have "now div 1000 * 1000 \<le> now" by (simp add: minus_mod_eq_div_mult [symmetric])
    then show ?thesis by (simp add: max_def algebra_simps)
  qed
  then show ?thesis using held by (auto simp: held_until_def)
qed

lemma dispatched_once:
  assumes "sorted (map (\<lambda>(_, t, _). t) reqs)"
  shows "dispatches m x (recipient_run cy jc opts reqs store) \<le> 1"
  using assms
proof (induction reqs arbitrary: store)
  case (Cons q reqs)
  obtain nonce now raw where q: "q = (nonce, now, raw)" by (cases q)
  obtain out did store' where run: "recipient_handle cy jc opts nonce now raw store = (out, did, store')" by (metis prod.exhaust)
  have srt: "sorted (map (\<lambda>(_, t, _). t) reqs)" "\<And>n t r. (n, t, r) \<in> set reqs \<Longrightarrow> now \<le> t" using Cons.prems by (auto simp: q)
  show ?case
  proof (cases "\<exists>e inner. raw = Some e \<and> did = Some inner \<and> ev_mid e = m \<and> ev_exp e = x")
    case True
    then obtain e inner where e: "raw = Some e" "did = Some inner" "ev_mid e = m" "ev_exp e = x" by blast
    have "held_until (ro_prefix opts) m x now store'" using dispatched_is_held run e by blast
    from held_no_dispatch [OF this srt] show ?thesis by (simp add: q run dispatches_def)
  next
    case False
    with Cons.IH [OF srt(1), of store'] show ?thesis by (auto simp: q run dispatches_def)
  qed
qed (simp add: dispatches_def)

text \<open>A request that was sealed for this recipient and is fresh reaches the dispatch when its operation and path are allowed;
  the answer is the sealed result of the dispatch.\<close>

lemma recipient_serves_sealed:
  assumes cy: "crypto_correct cy"
    and seal: "sealRequest cy fr sender recipient rt serialised ttl hops issued = Inr (e, secret)"
    and keys: "pb_keyId recipient = pv_keyId (kr_own (ro_keyring opts))"
      "pb_encryptionPublicKey recipient = cy_dhPublic cy (pv_encryptionPrivateKey (kr_own (ro_keyring opts)))"
    and peer: "keyring_peer (ro_keyring opts) (pv_keyId sender) (now div 1000) = Inr p" "pb_signingPublicKey p = cy_signPublic cy (pv_signingPrivateKey sender)"
    and time: "issued - SABCL_CLOCK_SKEW_SECONDS \<le> now div 1000" "now div 1000 \<le> ev_exp e"
    and json: "jc_parseRequest jc serialised = Some (Shaped inner)"
    and inner: "sabclInnerRequestSchema inner" "assertCapability (ro_capabilities opts) inner = Inr ()"
    and fresh: "\<not> redis_holds (ro_prefix opts) store (ev_mid e) now"
  shows "\<exists>store'. recipient_handle cy jc opts nonce now (Some e) store =
     (case andThen (ro_dispatch opts inner) (\<lambda>result.
        sealResponse cy nonce (kr_own (ro_keyring opts)) secret (ev_mid e) (jc_printResponse jc result)) of
        Inl err \<Rightarrow> Rejected (toSabclError SABCL_DECRYPTION_FAILED err) | Inr response \<Rightarrow> Sealed response, Some inner, store')"
proof -
  note op = open_seal [where parse = "jc_parseRequest jc", OF cy seal keys peer time json]
  obtain store' where rem: "redis_remember (ro_prefix opts) now (ev_mid e) (max 1 (ev_exp e - now div 1000 + 1)) store = (True, store')"
    using fresh by (simp add: redis_remember_def redis_holds_def Let_def)
  show ?thesis using sealRequest_fields(10) [OF seal] inner
    by (auto simp: recipient_handle_def op rem split: sum.splits)
qed

section \<open>A sample recipient\<close>

definition demo_inner :: inner_request where
  "demo_inner =
     \<lparr>ir_op = ''ledger.postings.transfer'', ir_method = POST, ir_path = ''/internal/customer-transfers'', ir_body = None, ir_actor = None,
      ir_correlationId = ''c''\<rparr>"

definition demo_codec :: sabcl_codec where
  "demo_codec =
     \<lparr>jc_printRequest = (\<lambda>_. ''{}''), jc_parseRequest = (\<lambda>_. Some (Shaped demo_inner)), jc_printResponse = (\<lambda>_. ''ok''),
      jc_parseResponse = (\<lambda>_. Some (Some \<lparr>is_status = 201, is_body = None\<rparr>))\<rparr>"

definition demo_recipient :: recipient_options where
  "demo_recipient =
     \<lparr>ro_keyring = demo_ring ''ledger'', ro_prefix = ''x:'', ro_capabilities = capabilitiesForService ''ledger'',
      ro_dispatch = (\<lambda>_. Inr \<lparr>is_status = 201, is_body = None\<rparr>)\<rparr>"

lemma demo_inner_allowed:
  "sabclInnerRequestSchema demo_inner" "assertCapability (capabilitiesForService ''ledger'') demo_inner = Inr ()"
  by code_simp+

lemma demo_sealed:
  assumes "base64Url 64 rt"
  obtains e where "sealRequest demo_crypto demo_fresh (demo_own ''gw'') (demo_public ''ledger'') rt ''{}'' (Some 30) (Some 2) 100 = Inr (e, ''secret'')"
    "ev_exp e = 130" "ev_rt e = rt"
proof -
  from sealRequest_total [of demo_crypto "''{}''" 30 2 "demo_public ''ledger''" "demo_own ''gw''" rt demo_fresh 100 "''secret''", OF demo_crypto_correct]
  obtain e where "sealRequest demo_crypto demo_fresh (demo_own ''gw'') (demo_public ''ledger'') rt ''{}'' (Some 30) (Some 2) 100 = Inr (e, ''secret'')"
      "ev_exp e = 130"
    using demo_key_ids assms by (auto simp: demo_own_def demo_public_def demo_crypto_def demo_fresh_def SABCL_MAX_TTL_SECONDS_def SABCL_MAX_HOP_LIMIT_def)
  with sealRequest_fields(4) [OF this(1)] that show ?thesis by blast
qed

lemma demo_dispatched:
  assumes "base64Url 64 rt"
  obtains e out store' where "ev_rt e = rt" "ev_exp e = 130"
    "recipient_handle demo_crypto demo_codec demo_recipient ''n'' 101000 (Some e) [] = (out, Some demo_inner, store')"
proof -
  obtain e where e: "sealRequest demo_crypto demo_fresh (demo_own ''gw'') (demo_public ''ledger'') rt ''{}'' (Some 30) (Some 2) 100 = Inr (e, ''secret'')"
      "ev_exp e = 130" "ev_rt e = rt" by (rule demo_sealed [OF assms])
  from recipient_serves_sealed [where opts = demo_recipient and now = 101000 and p = "demo_public ''gw''" and jc = demo_codec and inner = demo_inner
      and store = "[]" and nonce = "''n''", OF demo_crypto_correct e(1)] demo_inner_allowed e(2)
  have "fst (snd (recipient_handle demo_crypto demo_codec demo_recipient ''n'' 101000 (Some e) [])) = Some demo_inner"
    by (auto simp: demo_recipient_def demo_ring_def demo_own_def demo_public_def demo_crypto_def demo_codec_def keyring_peer_def
        SABCL_CLOCK_SKEW_SECONDS_def redis_holds_def rlive_def)
  then show ?thesis using that [OF e(3,2)] by (metis prod.collapse)
qed

text \<open>The recipient checks the operation the request names, not the capability its route token stands for: a request to post a
  transfer is executed whatever route token it came with, that of the read-only \<open>ledger.accounts\<close> included.\<close>

lemma route_token_not_enforced:
  "base64Url 64 rt \<Longrightarrow> \<exists>e out store'. ev_rt e = rt
     \<and> recipient_handle demo_crypto demo_codec demo_recipient ''n'' 101000 (Some e) [] = (out, Some demo_inner, store')"
  by (metis demo_dispatched)

section \<open>Properties\<close>

text \<open>C30: a service executes a message at most once.  In any sequence of deliveries to a recipient, whatever they are, in
  the order of time, copies of a message, envelopes with the same identifier and expiry, are dispatched at most once:
  the claim on the identifier outlives the last moment at which the message would still be opened.\<close>

theorem sabcl_dispatched_once:
  assumes "sorted (map (\<lambda>(_, t, _). t) reqs)"
  shows "dispatches m x (recipient_run cy jc opts reqs store) \<le> 1"
  by (rule dispatched_once [OF assms])

theorem sabcl_dispatched_once_witness:
  "\<exists>e. fst (snd (recipient_handle demo_crypto demo_codec demo_recipient ''n'' 101000 (Some e) [])) = Some demo_inner
     \<and> dispatches (ev_mid e) (ev_exp e) (recipient_run demo_crypto demo_codec demo_recipient
          [(''n'', 101000, Some e), (''o'', 130999, Some e), (''p'', 131000, Some e)] []) \<le> 1"
proof -
  obtain e out store' where "recipient_handle demo_crypto demo_codec demo_recipient ''n'' 101000 (Some e) [] = (out, Some demo_inner, store')"
    by (rule demo_dispatched [OF demo_key_ids(3)])
  moreover have "dispatches (ev_mid e) (ev_exp e) (recipient_run demo_crypto demo_codec demo_recipient
      [(''n'', 101000, Some e), (''o'', 130999, Some e), (''p'', 131000, Some e)] []) \<le> 1"
    by (rule sabcl_dispatched_once) simp
  ultimately show ?thesis by (metis fst_conv snd_conv)
qed

text \<open>C31: a recipient executes only what its catalogue allows for a peer it knows.  A dispatched request came in an envelope
  addressed to this service and not yet expired; the signature it carries verifies, with the key of the live peer it
  names, over the message of this very envelope, header, ciphertext and tag; its
  operation and method belong to a capability of the service, its path matches a pattern of that capability, and
  neither the path as sent nor any \<open>..\<close> hidden behind percent escapes leads out of it.\<close>

theorem sabcl_dispatch_guarded:
  assumes "recipient_handle cy jc opts nonce now raw store = (out, Some inner, store')"
    and "ro_capabilities opts = capabilitiesForService service"
  shows "\<exists>e p m s entry pat. raw = Some e \<and> ev_rkid e = pv_keyId (kr_own (ro_keyring opts)) \<and> now < (ev_exp e + 1) * 1000
      \<and> keyring_peer (ro_keyring opts) (ev_skid e) (now div 1000) = Inr p \<and> request_message e = Some m
      \<and> fromBase64Url (ev_sig e) = Inr s \<and> cy_verify cy (pb_signingPublicKey p) m s
      \<and> entry \<in> set SABCL_CAPABILITIES \<and> ce_service entry = service
      \<and> starts_with (cp_operationPrefix (ce_capability entry) @ ''.'') (ir_op inner) \<and> ir_method inner \<in> set (cp_methods (ce_capability entry))
      \<and> pat \<in> set (cp_pathPatterns (ce_capability entry)) \<and> pattern_test pat (ir_path inner)
      \<and> \<not> has_substring ''..'' (safeDecode (ir_path inner))"
proof -
  from recipient_dispatched [OF assms(1)] obtain e opened where
    e: "raw = Some e" "openRequest cy (jc_parseRequest jc) (kr_own (ro_keyring opts)) (ro_keyring opts) e (now div 1000) = Inr opened"
      "assertCapability (ro_capabilities opts) inner = Inr ()" by blast
  from openRequest_verified [OF e(2)] obtain p m s where
    v: "keyring_peer (ro_keyring opts) (ev_skid e) (now div 1000) = Inr p" "request_message e = Some m"
      "fromBase64Url (ev_sig e) = Inr s" "cy_verify cy (pb_signingPublicKey p) m s" "ev_rkid e = pv_keyId (kr_own (ro_keyring opts))" "now div 1000 \<le> ev_exp e" by metis
  from e(3) obtain c where c: "List.find (\<lambda>c. starts_with (cp_operationPrefix c @ ''.'') (ir_op inner)) (capabilitiesForService service) = Some c"
      "ir_method inner \<in> set (cp_methods c)" "\<not> has_substring ''..'' (safeDecode (ir_path inner))"
      "list_ex (\<lambda>p. pattern_test p (ir_path inner)) (cp_pathPatterns c)"
    by (auto simp: assertCapability_def assms(2) Let_def split: option.splits if_splits)
  from c(1) have "c \<in> set (capabilitiesForService service)" "starts_with (cp_operationPrefix c @ ''.'') (ir_op inner)"
    by (auto simp: find_Some_iff)
  then obtain entry where en: "entry \<in> set SABCL_CAPABILITIES" "ce_service entry = service" "c = ce_capability entry"
      "starts_with (cp_operationPrefix c @ ''.'') (ir_op inner)" by (auto simp: capabilitiesForService_def)
  from c(4) obtain pat where "pat \<in> set (cp_pathPatterns c)" "pattern_test pat (ir_path inner)" by (auto simp: list_ex_iff)
  with e(1) v ms_before_expiry [OF v(6)] c(2,3) en show ?thesis by blast
qed

theorem sabcl_dispatch_guarded_witness:
  "\<exists>e entry. fst (snd (recipient_handle demo_crypto demo_codec demo_recipient ''n'' 101000 (Some e) [])) = Some demo_inner
     \<and> entry \<in> set SABCL_CAPABILITIES \<and> ce_service entry = ''ledger''
     \<and> starts_with (cp_operationPrefix (ce_capability entry) @ ''.'') (ir_op demo_inner)"
proof -
  obtain e out store' where run: "recipient_handle demo_crypto demo_codec demo_recipient ''n'' 101000 (Some e) [] = (out, Some demo_inner, store')"
    by (rule demo_dispatched [OF demo_key_ids(3)])
  have "ro_capabilities demo_recipient = capabilitiesForService ''ledger''" by (simp add: demo_recipient_def)
  from sabcl_dispatch_guarded [OF run this] show ?thesis using run by (metis fst_conv snd_conv)
qed

end
