(* ===== verification/SabclRouter.thy ===== *)
theory SabclRouter
  imports SabclRecipient
begin

text \<open>
  Route tokens and the route table (\<open>protocol/route-token.ts\<close>), the audit records (\<open>audit/audit.ts\<close>), the blind router
  (\<open>services/sabcl-router/src/routing/router.service.ts\<close> with its Redis) and the sender
  (\<open>client/sabcl-client.ts\<close>), and the whole path of a call from the sender through the router to the recipient and back.
\<close>

section \<open>Route tokens\<close>

definition ROUTE_ID_PATTERN :: "string \<Rightarrow> bool" where
  "ROUTE_ID_PATTERN s = (let parts = split_on CHR ''.'' s in length parts = 2 \<and> list_all name_re parts)"

definition assertRouteId :: "string \<Rightarrow> (sabcl_error, string) res" where
  "assertRouteId routeId = (if ROUTE_ID_PATTERN routeId then Inr routeId else Inl (SabclError SABCL_ROUTE_INVALID))"

definition deriveRouteToken :: "sabcl_crypto \<Rightarrow> bytes \<Rightarrow> string \<Rightarrow> (sabcl_error, string) res" where
  "deriveRouteToken cy routeSecret routeId =
     andThen (assertRouteId routeId) (\<lambda>_.
       if length routeSecret < 32 then Inl (SabclError SABCL_NOT_CONFIGURED)
       else Inr (toBase64Url (take SABCL_ROUTE_TOKEN_BYTES (cy_hmac cy routeSecret (routeToken_domain @ ''|'' @ routeId)))))"

record sabcl_route =
  sr_routeId :: string
  sr_service :: string
  sr_destination :: string
  sr_revoked :: "bool option"

type_synonym route_table = "(string \<times> sabcl_route) list"

text \<open>The protocol of a URL is a parameter; it has none when the URL cannot be parsed.\<close>

fun add_routes :: "sabcl_crypto \<Rightarrow> (string \<Rightarrow> string option) \<Rightarrow> bytes \<Rightarrow> route_table \<Rightarrow> sabcl_route list \<Rightarrow> (sabcl_error, route_table) res" where
  "add_routes cy protocol secret known [] = Inr known"
| "add_routes cy protocol secret known (r # rs) =
     andThen (assertRouteId (sr_routeId r)) (\<lambda>_.
     andThen (ofOption TypeError (protocol (sr_destination r))) (\<lambda>p.
     if p \<noteq> ''http:'' \<and> p \<noteq> ''https:'' then Inl (SabclError SABCL_NOT_CONFIGURED)
     else andThen (deriveRouteToken cy secret (sr_routeId r)) (\<lambda>token.
       if find_by fst token known \<noteq> None then Inl (SabclError SABCL_NOT_CONFIGURED)
       else add_routes cy protocol secret (known @ [(token, r)]) rs)))"

definition newRouteTable :: "sabcl_crypto \<Rightarrow> (string \<Rightarrow> string option) \<Rightarrow> bytes \<Rightarrow> sabcl_route list \<Rightarrow> (sabcl_error, route_table) res" where
  "newRouteTable cy protocol secret routes =
     (if routes = [] then Inl (SabclError SABCL_NOT_CONFIGURED) else add_routes cy protocol secret [] routes)"

definition route_revoked :: "sabcl_route \<Rightarrow> bool" where
  "route_revoked r = (sr_revoked r = Some True)"

definition route_resolve :: "route_table \<Rightarrow> string \<Rightarrow> (sabcl_error, sabcl_route) res" where
  "route_resolve table token =
     (case fromBase64Url token of
        Inl _ \<Rightarrow> Inl (SabclError SABCL_ROUTE_INVALID)
      | Inr supplied \<Rightarrow>
          (case filter (\<lambda>(candidate, r). supplied = b64_decode candidate \<and> \<not> route_revoked r) table of
             [] \<Rightarrow> Inl (SabclError SABCL_ROUTE_INVALID)
           | found \<Rightarrow> Inr (snd (last found))))"

definition liveRouteIds :: "route_table \<Rightarrow> string list" where
  "liveRouteIds table = sort (map sr_routeId (filter (\<lambda>r. \<not> route_revoked r) (map snd table)))"

definition destinations :: "route_table \<Rightarrow> (string \<times> string \<times> string) list" where
  "destinations table =
     map (\<lambda>r. (sr_routeId r, sr_service r, sr_destination r)) (filter (\<lambda>r. \<not> route_revoked r) (map snd table))"

section \<open>Audit\<close>

datatype audit_event =
    Envelope_accepted | Envelope_rejected | Envelope_replayed | Envelope_expired | Signature_invalid | Route_invalid
  | Recipient_unavailable | Hop_exhausted | Key_rotation_used

record audit_record =
  au_event :: audit_event
  au_messageDigest :: string
  au_routeDigest :: "string option"
  au_senderKeyId :: "string option"
  au_reason :: "sabcl_code option"

definition auditDigest :: "(bytes \<Rightarrow> string) \<Rightarrow> bytes \<Rightarrow> string \<Rightarrow> string" where
  "auditDigest hash salt x = take 12 (hash (salt @ serviceHandle_domain @ ''|'' @ x))"

definition audit_snapshot :: "audit_record list \<Rightarrow> audit_event \<Rightarrow> nat" where
  "audit_snapshot log ev = length (filter (\<lambda>r. au_event r = ev) log)"

definition eventForCode :: "sabcl_code \<Rightarrow> audit_event" where
  "eventForCode code =
     (case code of
        SABCL_REPLAYED \<Rightarrow> Envelope_replayed
      | SABCL_EXPIRED \<Rightarrow> Envelope_expired
      | SABCL_SIGNATURE_INVALID \<Rightarrow> Signature_invalid
      | SABCL_ROUTE_INVALID \<Rightarrow> Route_invalid
      | SABCL_RECIPIENT_UNAVAILABLE \<Rightarrow> Recipient_unavailable
      | SABCL_HOP_LIMIT_EXCEEDED \<Rightarrow> Hop_exhausted
      | _ \<Rightarrow> Envelope_rejected)"

section \<open>The router\<close>

text \<open>A body on the wire: a response envelope, an error with a known code, or anything else; an answer may not come.\<close>

datatype wire_body = WireEnvelope response_envelope | WireError sabcl_code | WireOther

datatype wire_answer = NoAnswer | Answer int wire_body

definition answer_ok :: "int \<Rightarrow> bool" where
  "answer_ok status = (200 \<le> status \<and> status \<le> 299)"

definition readErrorCode :: "wire_body \<Rightarrow> sabcl_code option" where
  "readErrorCode b = (case b of WireError c \<Rightarrow> Some c | _ \<Rightarrow> None)"

definition forward_answer :: "wire_answer \<Rightarrow> (sabcl_error, response_envelope) res" where
  "forward_answer a =
     (case a of
        NoAnswer \<Rightarrow> Inl (SabclError SABCL_RECIPIENT_UNAVAILABLE)
      | Answer status body \<Rightarrow>
          if \<not> answer_ok status then
            Inl (SabclError (case readErrorCode body of Some c \<Rightarrow> c | None \<Rightarrow> SABCL_RECIPIENT_UNAVAILABLE))
          else (case body of
                  WireEnvelope r \<Rightarrow> if sabclResponseEnvelopeSchema r then Inr r else Inl (SabclError SABCL_RECIPIENT_UNAVAILABLE)
                | _ \<Rightarrow> Inl (SabclError SABCL_RECIPIENT_UNAVAILABLE)))"

record router_config =
  rc_redisKeyPrefix :: string
  rc_rateLimitPerMinute :: int
  rc_maxEnvelopeBytes :: int
  rc_keyring :: keyring
  rc_routeSecret :: bytes
  rc_routes :: route_table

record router_state =
  rs_replay :: "string rstore"
  rs_rates :: "int rstore"
  rs_audit :: "audit_record list"

definition incrementRate :: "router_config \<Rightarrow> time \<Rightarrow> string \<Rightarrow> router_state \<Rightarrow> int \<times> router_state" where
  "incrementRate cfg now senderKeyId st =
     (case rincr now (rc_redisKeyPrefix cfg @ ''rate:'' @ senderKeyId) 60 (rs_rates st) of (n, rates) \<Rightarrow> (n, st\<lparr>rs_rates := rates\<rparr>))"

text \<open>The checks of an envelope before any state is touched.\<close>

definition router_admit :: "router_config \<Rightarrow> time \<Rightarrow> sabcl_envelope \<Rightarrow> (sabcl_error, unit) res" where
  "router_admit cfg now e =
     (let sec = now div 1000 in
      if ev_v e \<noteq> SABCL_PROTOCOL_VERSION then Inl (SabclError SABCL_UNSUPPORTED_VERSION)
      else if ev_exp e < sec then Inl (SabclError SABCL_EXPIRED)
      else if sec + SABCL_CLOCK_SKEW_SECONDS < ev_iat e then Inl (SabclError SABCL_EXPIRED)
      else if SABCL_MAX_TTL_SECONDS < ev_exp e - ev_iat e then Inl (SabclError SABCL_MALFORMED)
      else andThen (keyring_peer (rc_keyring cfg) (ev_skid e) sec) (\<lambda>_.
        if ev_hl e \<le> 0 then Inl (SabclError SABCL_HOP_LIMIT_EXCEEDED) else Inr ()))"

definition router_attempt ::
  "router_config \<Rightarrow> (string \<Rightarrow> sabcl_envelope \<Rightarrow> wire_answer) \<Rightarrow> time \<Rightarrow> sabcl_envelope \<Rightarrow> router_state \<Rightarrow>
     (sabcl_error, response_envelope) res \<times> (string \<times> sabcl_envelope) option \<times> router_state" where
  "router_attempt cfg net now e st =
     (case router_admit cfg now e of
        Inl err \<Rightarrow> (Inl err, None, st)
      | Inr _ \<Rightarrow>
          (case incrementRate cfg now (ev_skid e) st of (rate, st1) \<Rightarrow>
            if rc_rateLimitPerMinute cfg < rate then (Inl (SabclError SABCL_ROUTE_INVALID), None, st1)
            else (case route_resolve (rc_routes cfg) (ev_rt e) of
                    Inl err \<Rightarrow> (Inl err, None, st1)
                  | Inr route \<Rightarrow>
                      (case redis_remember (rc_redisKeyPrefix cfg) now (ev_mid e) (max 1 (ev_exp e - now div 1000 + 1)) (rs_replay st1) of
                         (False, replay) \<Rightarrow> (Inl (SabclError SABCL_REPLAYED), None, st1\<lparr>rs_replay := replay\<rparr>)
                       | (True, replay) \<Rightarrow>
                           (forward_answer (net (sr_destination route) e), Some (sr_destination route, e), st1\<lparr>rs_replay := replay\<rparr>)))))"

definition audit_of :: "(string \<Rightarrow> string) \<Rightarrow> sabcl_envelope option \<Rightarrow> sabcl_code option \<Rightarrow> audit_record" where
  "audit_of digest e reason =
     \<lparr>au_event = (case reason of None \<Rightarrow> Envelope_accepted | Some c \<Rightarrow> eventForCode c),
      au_messageDigest = (case e of Some x \<Rightarrow> digest (ev_mid x) | None \<Rightarrow> ''unparsed''),
      au_routeDigest = map_option (\<lambda>x. digest (ev_rt x)) e, au_senderKeyId = map_option ev_skid e, au_reason = reason\<rparr>"

text \<open>The answer to the sender, the message that was forwarded and where to, if any, and the state.\<close>

definition router_route ::
  "(bytes \<Rightarrow> string) \<Rightarrow> router_config \<Rightarrow> (string \<Rightarrow> sabcl_envelope \<Rightarrow> wire_answer) \<Rightarrow> time \<Rightarrow> sabcl_envelope option \<Rightarrow> int \<Rightarrow> router_state \<Rightarrow>
     wire_answer \<times> (string \<times> sabcl_envelope) option \<times> router_state" where
  "router_route hash cfg net now rawEnvelope rawByteLength st =
     (let digest = auditDigest hash (rc_routeSecret cfg);
          parsed = (case rawEnvelope of Some e \<Rightarrow> if sabclEnvelopeSchema e then Some e else None | None \<Rightarrow> None);
          (result, sent, known, st') =
            (if rc_maxEnvelopeBytes cfg < rawByteLength then (Inl (SabclError SABCL_OVERSIZED), None, None, st)
             else (case parsed of
                     None \<Rightarrow> (Inl (SabclError SABCL_MALFORMED), None, None, st)
                   | Some e \<Rightarrow> (case router_attempt cfg net now e st of (r, s, st1) \<Rightarrow> (r, s, Some e, st1))))
      in case result of
           Inr response \<Rightarrow> (Answer 200 (WireEnvelope response), sent, st'\<lparr>rs_audit := rs_audit st' @ [audit_of digest known None]\<rparr>)
         | Inl err \<Rightarrow>
             let code = toSabclError SABCL_MALFORMED err in
             (Answer (statusForCode code) (WireError code), sent, st'\<lparr>rs_audit := rs_audit st' @ [audit_of digest known (Some code)]\<rparr>))"

section \<open>The sender\<close>

record client_options =
  ci_keyring :: keyring
  ci_routeSecret :: bytes
  ci_ttlSeconds :: "int option"
  ci_hopLimit :: "int option"

definition client_answer :: "wire_answer \<Rightarrow> (sabcl_error, response_envelope) res" where
  "client_answer a =
     (case a of
        NoAnswer \<Rightarrow> Inl (SabclError SABCL_RECIPIENT_UNAVAILABLE)
      | Answer status body \<Rightarrow>
          if \<not> answer_ok status then
            Inl (SabclError (case readErrorCode body of Some c \<Rightarrow> c | None \<Rightarrow> SABCL_RECIPIENT_UNAVAILABLE))
          else (case body of
                  WireEnvelope r \<Rightarrow> if sabclResponseEnvelopeSchema r then Inr r else Inl (SabclError SABCL_MALFORMED)
                | _ \<Rightarrow> Inl (SabclError SABCL_MALFORMED)))"

definition client_send ::
  "sabcl_crypto \<Rightarrow> sabcl_codec \<Rightarrow> sabcl_fresh \<Rightarrow> client_options \<Rightarrow> (sabcl_envelope \<Rightarrow> wire_answer) \<Rightarrow> string \<Rightarrow> string \<Rightarrow> inner_request \<Rightarrow> time \<Rightarrow>
     (sabcl_error, inner_response) res" where
  "client_send cy jc fr opts router routeId service request now =
     (let sec = now div 1000 in
      andThen (activePeerFor (ci_keyring opts) service sec) (\<lambda>recipient.
      andThen (deriveRouteToken cy (ci_routeSecret opts) routeId) (\<lambda>routeToken.
      andThen (sealRequest cy fr (kr_own (ci_keyring opts)) recipient routeToken (jc_printRequest jc request)
                (Some (case ci_ttlSeconds opts of Some t \<Rightarrow> t | None \<Rightarrow> SABCL_DEFAULT_TTL_SECONDS))
                (Some (case ci_hopLimit opts of Some h \<Rightarrow> h | None \<Rightarrow> SABCL_DEFAULT_HOP_LIMIT)) sec) (\<lambda>(envelope, responseSecret).
      andThen (client_answer (router envelope)) (\<lambda>response.
      andThen (openResponse cy (jc_parseResponse jc) recipient responseSecret (ev_mid envelope) response) (\<lambda>decoded.
        case decoded of
          Some r \<Rightarrow> if sabclInnerResponseSchema r then Inr r else Inl (SabclError SABCL_MALFORMED)
        | None \<Rightarrow> Inl (SabclError SABCL_MALFORMED)))))))"

text \<open>What the recipient answers on the wire.\<close>

definition recipient_answer :: "recipient_outcome \<Rightarrow> wire_answer" where
  "recipient_answer out = (case out of Sealed r \<Rightarrow> Answer 200 (WireEnvelope r) | Rejected c \<Rightarrow> Answer (statusForCode c) (WireError c))"

section \<open>What the router forwards\<close>

lemma route_resolve_Inr:
  assumes "route_resolve table token = Inr r"
  shows "(token, r) \<in> set table \<or> (\<exists>t. (t, r) \<in> set table \<and> b64_decode t = b64_decode token)" "\<not> route_revoked r"
proof -
  from assms obtain b where b: "fromBase64Url token = Inr b" by (auto simp: route_resolve_def split: sum.splits)
  let ?f = "filter (\<lambda>(candidate, r). b = b64_decode candidate \<and> \<not> route_revoked r) table"
  from assms b have "?f \<noteq> []" "r = snd (last ?f)" by (auto simp: route_resolve_def split: list.splits)
  moreover obtain t q where tq: "last ?f = (t, q)" by fastforce
  ultimately have "(t, q) \<in> set ?f" "q = r" by (metis last_in_set, simp)
  then have "(t, r) \<in> set table" "b = b64_decode t" "\<not> route_revoked r" by auto
  moreover have "b64_decode token = b" using b by (auto simp: fromBase64Url_iff)
  ultimately show "(token, r) \<in> set table \<or> (\<exists>t. (t, r) \<in> set table \<and> b64_decode t = b64_decode token)" "\<not> route_revoked r" by auto
qed

lemma router_attempt_sent:
  assumes "router_attempt cfg net now e st = (res, Some (dest, e'), st')"
  obtains r where "e' = e" "router_admit cfg now e = Inr ()" "route_resolve (rc_routes cfg) (ev_rt e) = Inr r" "dest = sr_destination r"
    "\<not> redis_holds (rc_redisKeyPrefix cfg) (rs_replay st) (ev_mid e) now"
  using assms
  by (auto simp: router_attempt_def incrementRate_def redis_remember_def redis_holds_def Let_def split: sum.splits prod.splits if_splits bool.splits)

lemma router_route_sent:
  assumes "router_route hash cfg net now raw n st = (a, Some (dest, e), st')"
  obtains res st1 where "raw = Some e" "sabclEnvelopeSchema e" "n \<le> rc_maxEnvelopeBytes cfg" "router_attempt cfg net now e st = (res, Some (dest, e), st1)"
proof -
  have size: "n \<le> rc_maxEnvelopeBytes cfg"
    using assms by (auto simp: router_route_def Let_def split: if_splits sum.splits option.splits)
  obtain e' where e': "raw = Some e'" "sabclEnvelopeSchema e'"
    using assms by (auto simp: router_route_def Let_def split: if_splits sum.splits option.splits)
  obtain res s st1 where r: "router_attempt cfg net now e' st = (res, s, st1)" by (metis prod.exhaust)
  have "s = Some (dest, e)" using assms size e' r by (auto simp: router_route_def Let_def split: sum.splits)
  moreover from this r have "e = e'" by (auto elim: router_attempt_sent)
  ultimately show ?thesis using that e' size r by blast
qed

section \<open>A call from end to end\<close>

lemma sealResponse_total:
  assumes cy: "crypto_correct cy" and size: "length serialised \<le> 65532" and key: "sabclKeyIdSchema (pv_keyId own)" and cid: "base64Url 32 cid"
    and nonce: "length nonce = 12"
  shows "\<exists>r. sealResponse cy nonce own secret cid serialised = Inr r \<and> sabclResponseEnvelopeSchema r"
proof -
  obtain padded bucket where p: "padPayload serialised = Inr (padded, bucket)" "bucket \<le> 65536" "0 < bucket" by (rule padPayload_total [OF size])
  have lp: "length padded = bucket" by (rule pad_length [OF p(1)])
  have n: "base64Url 24 (toBase64Url nonce)" "length (toBase64Url nonce) < 2 ^ 32"
  proof -
    have "nonce \<noteq> []" using nonce by auto
    then show "base64Url 24 (toBase64Url nonce)" by (rule base64Url_to) (use nonce in simp)
    then show "length (toBase64Url nonce) < 2 ^ 32" by (simp add: base64Url_def)
  qed
  obtain pb where pb: "canonicalUInt (int bucket) = Inr pb" "length pb = 8"
    using canonicalUInt_total [of "int bucket"] p(2) by (auto simp: safe_nonneg_def)
  have "list_all (\<lambda>f. length f < 2 ^ 32) [SABCL_PROTOCOL_VERSION, cid, pv_keyId own, toBase64Url nonce, pb]"
    using n(2) key cid pb(2) by (simp add: SABCL_PROTOCOL_VERSION_def sabclKeyIdSchema_def base64Url_def)
  from canonicalEncode_total [OF this] obtain aad where aad:
      "canonicalResponseHeader SABCL_PROTOCOL_VERSION cid (pv_keyId own) (toBase64Url nonce) (int bucket) = Inr aad"
      "length aad = sum_list (map (\<lambda>f. length f + 4) [SABCL_PROTOCOL_VERSION, cid, pv_keyId own, toBase64Url nonce, pb])"
    by (auto simp: canonicalResponseHeader_def pb(1))
  have la: "length aad < 1000"
    using aad(2) n(1) key cid pb(2) by (simp add: SABCL_PROTOCOL_VERSION_def sabclKeyIdSchema_def base64Url_def)
  have "list_all (\<lambda>f. length f < 2 ^ 32) [responseKey_domain, aad]" using la by (simp add: responseKey_domain_def)
  from canonicalEncode_total [OF this] obtain info where info: "canonicalEncode [responseKey_domain, aad] = Inr info" by blast
  obtain c g where c: "cy_seal cy (deriveKey cy secret nonce info) nonce padded aad = (c, g)" by fastforce
  have lc: "length c = bucket" "length g = 16" using cy c lp by (auto simp: crypto_correct_def SABCL_TAG_BYTES_def)
  have "list_all (\<lambda>f. length f < 2 ^ 32) [responseSignature_domain, aad, c, g]" using la lc p(2) by (simp add: responseSignature_domain_def)
  from canonicalEncode_total [OF this] obtain msg where msg: "signed_message responseSignature_domain aad c g = Inr msg"
    unfolding signed_message_def by blast
  have ls: "length (cy_sign cy (pv_signingPrivateKey own) msg) = 64" using cy by (simp add: crypto_correct_def)
  have ne: "c \<noteq> []" "g \<noteq> []" "cy_sign cy (pv_signingPrivateKey own) msg \<noteq> []" using lc ls p(3) by auto
  have "base64Url SABCL_MAX_ENVELOPE_BYTES (toBase64Url c)" "base64Url 32 (toBase64Url g)"
      "base64Url 128 (toBase64Url (cy_sign cy (pv_signingPrivateKey own) msg))"
    using ne lc ls p(2) by (auto intro!: base64Url_to simp: SABCL_MAX_ENVELOPE_BYTES_def)
  then have "sabclResponseEnvelopeSchema \<lparr>re_v = SABCL_PROTOCOL_VERSION, re_cid = cid, re_skid = pv_keyId own, re_n = toBase64Url nonce,
      re_pad = int bucket, re_ct = toBase64Url c, re_tag = toBase64Url g, re_sig = toBase64Url (cy_sign cy (pv_signingPrivateKey own) msg)\<rparr>"
    using n(1) key cid p(2,3) by (simp add: sabclResponseEnvelopeSchema_def safe_nonneg_def)
  then show ?thesis using p(1) aad(1) info c msg by (simp add: sealResponse_def)
qed

lemma deriveRouteToken_shape:
  assumes "crypto_correct cy" "deriveRouteToken cy secret routeId = Inr token"
  obtains b where "token = toBase64Url b" "length b = 32"
  using assms by (auto simp: deriveRouteToken_def crypto_correct_def SABCL_ROUTE_TOKEN_BYTES_def res_simps split: if_splits)

lemma route_token_base64:
  assumes "crypto_correct cy" "deriveRouteToken cy secret routeId = Inr token"
  shows "base64Url 64 token"
proof -
  obtain b where b: "token = toBase64Url b" "length b = 32" by (rule deriveRouteToken_shape [OF assms])
  then have "b \<noteq> []" by auto
  with b show ?thesis by (simp add: base64Url_to)
qed

lemma add_routes_table:
  assumes "add_routes cy protocol secret known routes = Inr table" "distinct (map fst known)"
    and "\<And>t r. (t, r) \<in> set known \<Longrightarrow> deriveRouteToken cy secret (sr_routeId r) = Inr t"
  shows "distinct (map fst table) \<and> set routes \<union> snd ` set known \<subseteq> snd ` set table \<and> (\<forall>(t, r) \<in> set table. deriveRouteToken cy secret (sr_routeId r) = Inr t)"
  using assms
proof (induction routes arbitrary: known)
  case (Cons r routes)
  from Cons.prems(1) obtain token where t: "deriveRouteToken cy secret (sr_routeId r) = Inr token" "find_by fst token known = None"
      "add_routes cy protocol secret (known @ [(token, r)]) routes = Inr table"
    by (auto simp: res_simps simp del: not_None_eq split: if_splits)
  have "distinct (map fst (known @ [(token, r)]))" using Cons.prems(2) t(2) by (auto simp: find_by_None)
  moreover have "\<And>t' r'. (t', r') \<in> set (known @ [(token, r)]) \<Longrightarrow> deriveRouteToken cy secret (sr_routeId r') = Inr t'"
    using Cons.prems(3) t(1) by auto
  ultimately show ?case using Cons.IH [OF t(3)] by auto
qed auto

text \<open>A sender that derives the token of a route from the shared secret and the router that built its table from the same
  secret agree on the destination.\<close>

lemma derived_token_resolves:
  assumes cy: "crypto_correct cy" and table: "newRouteTable cy protocol secret routes = Inr table"
    and r: "r \<in> set routes" "\<not> route_revoked r" and token: "deriveRouteToken cy secret (sr_routeId r) = Inr token"
  shows "\<exists>r'. route_resolve table token = Inr r' \<and> deriveRouteToken cy secret (sr_routeId r') = Inr token \<and> r' = r"
proof -
  have tab: "distinct (map fst table)" "set routes \<subseteq> snd ` set table" "\<And>t r. (t, r) \<in> set table \<Longrightarrow> deriveRouteToken cy secret (sr_routeId r) = Inr t"
    using table add_routes_table [of cy protocol secret "[]" routes table] by (auto simp: newRouteTable_def split: if_splits)
  from r(1) tab(2,3) token have mem: "(token, r) \<in> set table" by fastforce
  obtain b where b: "token = toBase64Url b" "length b = 32" by (rule deriveRouteToken_shape [OF cy token])
  then have from64: "fromBase64Url token = Inr b" by (auto simp: fromBase64Url_iff)
  let ?f = "filter (\<lambda>(candidate, r). b = b64_decode candidate \<and> \<not> route_revoked r) table"
  have "p = (token, r)" if "p \<in> set ?f" for p
  proof -
    obtain t q where p: "p = (t, q)" by (cases p)
    with that have tq: "(t, q) \<in> set table" "b = b64_decode t" by auto
    obtain b' where "t = toBase64Url b'" by (metis deriveRouteToken_shape [OF cy tab(3) [OF tq(1)]])
    with tq(2) b(1) have "t = token" by simp
    with tq(1) mem tab(1) have "q = r" by (metis eq_key_imp_eq_value)
    with p \<open>t = token\<close> show ?thesis by simp
  qed
  moreover have "(token, r) \<in> set ?f" using mem r(2) b(1) by simp
  ultimately have "?f \<noteq> [] \<and> last ?f = (token, r)" by (metis empty_iff last_in_set list.set(1))
  then have "route_resolve table token = Inr r" by (cases ?f) (auto simp: route_resolve_def from64)
  with token show ?thesis by blast
qed

lemma router_forwards:
  assumes e: "sabclEnvelopeSchema e" "n \<le> rc_maxEnvelopeBytes cfg" and admit: "router_admit cfg now e = Inr ()"
    and rate: "fst (incrementRate cfg now (ev_skid e) st) \<le> rc_rateLimitPerMinute cfg"
    and route: "route_resolve (rc_routes cfg) (ev_rt e) = Inr r"
    and fresh: "\<not> redis_holds (rc_redisKeyPrefix cfg) (rs_replay st) (ev_mid e) now"
  shows "fst (router_route hash cfg net now (Some e) n st) =
     (case forward_answer (net (sr_destination r) e) of
        Inr response \<Rightarrow> Answer 200 (WireEnvelope response)
      | Inl err \<Rightarrow> Answer (statusForCode (toSabclError SABCL_MALFORMED err)) (WireError (toSabclError SABCL_MALFORMED err)))"
    and "fst (snd (router_route hash cfg net now (Some e) n st)) = Some (sr_destination r, e)"
proof -
  obtain rate' st1 where i: "incrementRate cfg now (ev_skid e) st = (rate', st1)" by fastforce
  then have same: "rs_replay st1 = rs_replay st" by (auto simp: incrementRate_def split: prod.splits)
  obtain replay where rem: "redis_remember (rc_redisKeyPrefix cfg) now (ev_mid e) (max 1 (ev_exp e - now div 1000 + 1)) (rs_replay st1) = (True, replay)"
    using fresh by (simp add: redis_remember_def redis_holds_def Let_def same)
  have run: "router_attempt cfg net now e st = (forward_answer (net (sr_destination r) e), Some (sr_destination r, e), st1\<lparr>rs_replay := replay\<rparr>)"
    using rate i by (simp add: router_attempt_def admit route rem)
  show "fst (router_route hash cfg net now (Some e) n st) =
     (case forward_answer (net (sr_destination r) e) of
        Inr response \<Rightarrow> Answer 200 (WireEnvelope response)
      | Inl err \<Rightarrow> Answer (statusForCode (toSabclError SABCL_MALFORMED err)) (WireError (toSabclError SABCL_MALFORMED err)))"
    using e run by (simp add: router_route_def Let_def split: sum.splits)
  show "fst (snd (router_route hash cfg net now (Some e) n st)) = Some (sr_destination r, e)"
    using e run by (simp add: router_route_def Let_def split: sum.splits)
qed

lemma answer_status [simp]: "\<not> answer_ok (statusForCode c)" "answer_ok 200"
  by (cases c) (simp_all add: statusForCode_def answer_ok_def)

lemma client_reads_router:
  assumes "\<And>r. x = Inr r \<Longrightarrow> sabclResponseEnvelopeSchema r"
  shows "client_answer (case x of
        Inr response \<Rightarrow> Answer 200 (WireEnvelope response)
      | Inl err \<Rightarrow> Answer (statusForCode (toSabclError SABCL_MALFORMED err)) (WireError (toSabclError SABCL_MALFORMED err)))
    = (case x of Inr r \<Rightarrow> Inr r | Inl err \<Rightarrow> Inl (SabclError (toSabclError SABCL_MALFORMED err)))"
  using assms by (cases x) (auto simp: client_answer_def readErrorCode_def)

lemma router_reads_recipient:
  "forward_answer (recipient_answer (Rejected c)) = Inl (SabclError c)"
  "sabclResponseEnvelopeSchema r \<Longrightarrow> forward_answer (recipient_answer (Sealed r)) = Inr r"
  by (simp_all add: forward_answer_def recipient_answer_def readErrorCode_def)

text \<open>The configuration of the three parties of a call at one moment: the sender knows a live key of the service, the router
  and the recipient know the sender's key, the route exists and its destination is the recipient, nobody has seen the
  message identifier, and the rate limit is not reached.\<close>

record sabcl_call =
  ca_crypto :: sabcl_crypto
  ca_codec :: sabcl_codec
  ca_fresh :: sabcl_fresh
  ca_client :: client_options
  ca_peer :: public_identity
  ca_routes :: "sabcl_route list"
  ca_protocol :: "string \<Rightarrow> string option"
  ca_route :: sabcl_route
  ca_router :: router_config
  ca_routerState :: router_state
  ca_recipient :: recipient_options
  ca_store :: "string rstore"
  ca_nonce :: bytes
  ca_now :: time
  ca_request :: inner_request
  ca_size :: int
  ca_net :: "string \<Rightarrow> sabcl_envelope \<Rightarrow> wire_answer"

definition own_matches :: "sabcl_crypto \<Rightarrow> private_identity \<Rightarrow> public_identity \<Rightarrow> bool" where
  "own_matches cy own p =
     (pb_keyId p = pv_keyId own \<and> pb_encryptionPublicKey p = cy_dhPublic cy (pv_encryptionPrivateKey own)
      \<and> pb_signingPublicKey p = cy_signPublic cy (pv_signingPrivateKey own) \<and> sabclKeyIdSchema (pv_keyId own))"

definition call_ready :: "sabcl_call \<Rightarrow> bool" where
  "call_ready c =
     (let cy = ca_crypto c; own = kr_own (ci_keyring (ca_client c)); opts = ca_recipient c; sec = ca_now c div 1000; mid = toBase64Url (fr_mid (ca_fresh c)) in
      crypto_correct cy \<and> 0 \<le> sec \<and> sec \<le> 9007199254740000
      \<and> length (fr_mid (ca_fresh c)) = 16 \<and> length (fr_nonce (ca_fresh c)) = 12 \<and> length (ca_nonce c) = 12
      \<and> activePeerFor (ci_keyring (ca_client c)) (sr_service (ca_route c)) sec = Inr (ca_peer c)
      \<and> own_matches cy (kr_own (ro_keyring opts)) (ca_peer c) \<and> \<not> pb_revoked (ca_peer c) \<and> pv_notAfter own = None \<and> sabclKeyIdSchema (pv_keyId own)
      \<and> (\<exists>secret. cy_dh cy (fr_ephemeral (ca_fresh c)) (pb_encryptionPublicKey (ca_peer c)) = Some secret)
      \<and> ci_ttlSeconds (ca_client c) = None \<and> ci_hopLimit (ca_client c) = None
      \<and> newRouteTable cy (ca_protocol c) (ci_routeSecret (ca_client c)) (ca_routes c) = Inr (rc_routes (ca_router c))
      \<and> ca_route c \<in> set (ca_routes c) \<and> \<not> route_revoked (ca_route c) \<and> ca_size c \<le> rc_maxEnvelopeBytes (ca_router c)
      \<and> (\<exists>q. keyring_peer (rc_keyring (ca_router c)) (pv_keyId own) sec = Inr q)
      \<and> (\<exists>q. keyring_peer (ro_keyring opts) (pv_keyId own) sec = Inr q \<and> pb_signingPublicKey q = cy_signPublic cy (pv_signingPrivateKey own))
      \<and> fst (incrementRate (ca_router c) (ca_now c) (pv_keyId own) (ca_routerState c)) \<le> rc_rateLimitPerMinute (ca_router c)
      \<and> \<not> redis_holds (rc_redisKeyPrefix (ca_router c)) (rs_replay (ca_routerState c)) mid (ca_now c)
      \<and> \<not> redis_holds (ro_prefix opts) (ca_store c) mid (ca_now c)
      \<and> sabclInnerRequestSchema (ca_request c) \<and> assertCapability (ro_capabilities opts) (ca_request c) = Inr ()
      \<and> length (jc_printRequest (ca_codec c) (ca_request c)) \<le> 65532
      \<and> jc_parseRequest (ca_codec c) (jc_printRequest (ca_codec c) (ca_request c)) = Some (Shaped (ca_request c))
      \<and> (\<forall>r. ro_dispatch opts (ca_request c) = Inr r \<longrightarrow> sabclInnerResponseSchema r \<and> length (jc_printResponse (ca_codec c) r) \<le> 65532
           \<and> jc_parseResponse (ca_codec c) (jc_printResponse (ca_codec c) r) = Some (Some r)))"

definition call_wired :: "sabcl_call \<Rightarrow> bool" where
  "call_wired c = (\<forall>e. ca_net c (sr_destination (ca_route c)) e =
     recipient_answer (fst (recipient_handle (ca_crypto c) (ca_codec c) (ca_recipient c) (ca_nonce c) (ca_now c) (Some e) (ca_store c))))"

definition run_call :: "(bytes \<Rightarrow> string) \<Rightarrow> sabcl_call \<Rightarrow> (sabcl_error, inner_response) res" where
  "run_call hash c =
     client_send (ca_crypto c) (ca_codec c) (ca_fresh c) (ca_client c)
       (\<lambda>e. fst (router_route hash (ca_router c) (ca_net c) (ca_now c) (Some e) (ca_size c) (ca_routerState c)))
       (sr_routeId (ca_route c)) (sr_service (ca_route c)) (ca_request c) (ca_now c)"

lemma call_goes_through:
  assumes ready: "call_ready c" and wired: "call_wired c"
  shows "run_call hash c =
     (case ro_dispatch (ca_recipient c) (ca_request c) of
        Inr r \<Rightarrow> Inr r
      | Inl err \<Rightarrow> Inl (SabclError (toSabclError SABCL_DECRYPTION_FAILED err)))"
proof -
  let ?cy = "ca_crypto c" and ?own = "kr_own (ci_keyring (ca_client c))" and ?opts = "ca_recipient c" and ?sec = "ca_now c div 1000"
  note d = ready [unfolded call_ready_def Let_def own_matches_def]
  have cy: "crypto_correct ?cy" using d by blast
  obtain secret where dh: "cy_dh ?cy (fr_ephemeral (ca_fresh c)) (pb_encryptionPublicKey (ca_peer c)) = Some secret" using d by blast
  have table: "newRouteTable ?cy (ca_protocol c) (ci_routeSecret (ca_client c)) (ca_routes c) = Inr (rc_routes (ca_router c))" using d by blast
  obtain token where token: "deriveRouteToken ?cy (ci_routeSecret (ca_client c)) (sr_routeId (ca_route c)) = Inr token"
  proof -
    have r: "ca_route c \<in> set (ca_routes c)" using d by blast
    then have "add_routes ?cy (ca_protocol c) (ci_routeSecret (ca_client c)) [] (ca_routes c) = Inr (rc_routes (ca_router c))"
      using table by (cases "ca_routes c") (simp_all add: newRouteTable_def del: add_routes.simps)
    from add_routes_table [OF this] have "set (ca_routes c) \<subseteq> snd ` set (rc_routes (ca_router c))"
        "\<forall>(t, r) \<in> set (rc_routes (ca_router c)). deriveRouteToken ?cy (ci_routeSecret (ca_client c)) (sr_routeId r) = Inr t" by simp_all
    with r that show thesis by fastforce
  qed
  have resolve: "route_resolve (rc_routes (ca_router c)) token = Inr (ca_route c)"
    using derived_token_resolves [OF cy table _ _ token] d by blast
  from sealRequest_total [where cy = ?cy and ttl = SABCL_DEFAULT_TTL_SECONDS and hop = SABCL_DEFAULT_HOP_LIMIT and sender = ?own and issued = ?sec
      and serialised = "jc_printRequest (ca_codec c) (ca_request c)", OF cy _ _ _ _ _ _ _ _ _ route_token_base64 [OF cy token] _ _ _ _ dh]
  obtain e where e: "sealRequest ?cy (ca_fresh c) ?own (ca_peer c) token (jc_printRequest (ca_codec c) (ca_request c)) (Some SABCL_DEFAULT_TTL_SECONDS)
      (Some SABCL_DEFAULT_HOP_LIMIT) ?sec = Inr (e, secret)" "ev_exp e = ?sec + SABCL_DEFAULT_TTL_SECONDS"
    using d by (auto simp: SABCL_DEFAULT_TTL_SECONDS_def SABCL_MAX_TTL_SECONDS_def SABCL_DEFAULT_HOP_LIMIT_def SABCL_MAX_HOP_LIMIT_def)
  note f = sealRequest_fields [OF e(1)]
  obtain p where p: "keyring_peer (ro_keyring ?opts) (pv_keyId ?own) ?sec = Inr p" "pb_signingPublicKey p = cy_signPublic ?cy (pv_signingPrivateKey ?own)"
    using d by blast
  from recipient_serves_sealed [where opts = ?opts and now = "ca_now c" and jc = "ca_codec c" and inner = "ca_request c" and store = "ca_store c" and nonce = "ca_nonce c",
      OF cy e(1) _ _ p] d e(2) f(5)
  have served: "fst (recipient_handle ?cy (ca_codec c) ?opts (ca_nonce c) (ca_now c) (Some e) (ca_store c)) =
      (case andThen (ro_dispatch ?opts (ca_request c)) (\<lambda>result.
        sealResponse ?cy (ca_nonce c) (kr_own (ro_keyring ?opts)) secret (ev_mid e) (jc_printResponse (ca_codec c) result)) of
        Inl err \<Rightarrow> Rejected (toSabclError SABCL_DECRYPTION_FAILED err) | Inr response \<Rightarrow> Sealed response)"
    by (auto simp: SABCL_CLOCK_SKEW_SECONDS_def SABCL_DEFAULT_TTL_SECONDS_def)
  have admit: "router_admit (ca_router c) (ca_now c) e = Inr ()"
    using f d by (auto simp: router_admit_def Let_def SABCL_CLOCK_SKEW_SECONDS_def)
  have routed: "fst (router_route hash (ca_router c) (ca_net c) (ca_now c) (Some e) (ca_size c) (ca_routerState c)) =
     (case forward_answer (ca_net c (sr_destination (ca_route c)) e) of
        Inr response \<Rightarrow> Answer 200 (WireEnvelope response)
      | Inl err \<Rightarrow> Answer (statusForCode (toSabclError SABCL_MALFORMED err)) (WireError (toSabclError SABCL_MALFORMED err)))"
    by (rule router_forwards(1) [OF f(10) _ admit]) (use d f resolve in auto)
  have sent: "run_call hash c = andThen (client_answer (fst (router_route hash (ca_router c) (ca_net c) (ca_now c) (Some e) (ca_size c) (ca_routerState c)))) (\<lambda>response.
      andThen (openResponse ?cy (jc_parseResponse (ca_codec c)) (ca_peer c) secret (ev_mid e) response) (\<lambda>decoded.
        case decoded of Some r \<Rightarrow> if sabclInnerResponseSchema r then Inr r else Inl (SabclError SABCL_MALFORMED) | None \<Rightarrow> Inl (SabclError SABCL_MALFORMED)))"
    using d e(1) token by (simp add: run_call_def client_send_def)
  show ?thesis
  proof (cases "ro_dispatch ?opts (ca_request c)")
    case (Inl err)
    then have "forward_answer (ca_net c (sr_destination (ca_route c)) e) = Inl (SabclError (toSabclError SABCL_DECRYPTION_FAILED err))"
      using wired served by (simp add: call_wired_def router_reads_recipient)
    then show ?thesis using Inl by (simp add: sent routed client_reads_router) (simp add: client_answer_def readErrorCode_def toSabclError_def)
  next
    case (Inr r)
    have cid: "base64Url 32 (ev_mid e)" "sabclKeyIdSchema (pv_keyId (kr_own (ro_keyring ?opts)))" using f(10) d by (auto simp: sabclEnvelopeSchema_def)
    obtain resp where resp: "sealResponse ?cy (ca_nonce c) (kr_own (ro_keyring ?opts)) secret (ev_mid e) (jc_printResponse (ca_codec c) r) = Inr resp"
        "sabclResponseEnvelopeSchema resp"
      using sealResponse_total [OF cy _ cid(2,1), of "jc_printResponse (ca_codec c) r" "ca_nonce c" secret] Inr d by blast
    then have "forward_answer (ca_net c (sr_destination (ca_route c)) e) = Inr resp"
      using wired served Inr by (simp add: call_wired_def router_reads_recipient)
    moreover have "openResponse ?cy (jc_parseResponse (ca_codec c)) (ca_peer c) secret (ev_mid e) resp = Inr (Some r)"
      by (rule open_seal_response [OF cy resp(1)]) (use d Inr in auto)
    ultimately show ?thesis using Inr resp(2) d by (simp add: sent routed) (simp add: client_answer_def)
  qed
qed

section \<open>A sample call\<close>

definition demo_route :: sabcl_route where
  "demo_route = \<lparr>sr_routeId = ''l.p'', sr_service = ''ledger'', sr_destination = ''d'', sr_revoked = None\<rparr>"

definition demo_secret :: bytes where
  "demo_secret = replicate 32 CHR ''s''"

definition demo_token_of_route :: string where
  "demo_token_of_route = toBase64Url (take SABCL_ROUTE_TOKEN_BYTES (cy_hmac demo_crypto demo_secret (routeToken_domain @ ''|'' @ ''l.p'')))"

definition demo_net :: "string \<Rightarrow> sabcl_envelope \<Rightarrow> wire_answer" where
  "demo_net dest e = recipient_answer (fst (recipient_handle demo_crypto demo_codec demo_recipient (replicate 12 CHR ''r'') 101000 (Some e) []))"

definition demo_router :: router_config where
  "demo_router =
     \<lparr>rc_redisKeyPrefix = ''y:'', rc_rateLimitPerMinute = 600, rc_maxEnvelopeBytes = 262144, rc_keyring = demo_ring ''router'',
      rc_routeSecret = demo_secret, rc_routes = [(demo_token_of_route, demo_route)]\<rparr>"

definition demo_call :: sabcl_call where
  "demo_call =
     \<lparr>ca_crypto = demo_crypto, ca_codec = demo_codec, ca_fresh = demo_fresh,
      ca_client = \<lparr>ci_keyring = demo_ring ''gw'', ci_routeSecret = demo_secret, ci_ttlSeconds = None, ci_hopLimit = None\<rparr>,
      ca_peer = demo_public ''ledger'', ca_routes = [demo_route], ca_protocol = (\<lambda>_. Some ''http:''), ca_route = demo_route, ca_router = demo_router,
      ca_routerState = \<lparr>rs_replay = [], rs_rates = [], rs_audit = []\<rparr>, ca_recipient = demo_recipient, ca_store = [],
      ca_nonce = replicate 12 CHR ''r'', ca_now = 101000, ca_request = demo_inner, ca_size = 1000, ca_net = demo_net\<rparr>"

lemma demo_route_table:
  "newRouteTable demo_crypto (\<lambda>_. Some ''http:'') demo_secret [demo_route] = Inr [(demo_token_of_route, demo_route)]"
proof -
  have "ROUTE_ID_PATTERN ''l.p''" by code_simp
  moreover have "\<not> length demo_secret < 32" by (simp add: demo_secret_def)
  ultimately show ?thesis by (simp add: newRouteTable_def demo_route_def assertRouteId_def deriveRouteToken_def demo_token_of_route_def)
qed

lemma demo_parties:
  "kr_own (demo_ring x) = demo_own x" "pv_keyId (demo_own x) = x @ ''.v1''" "pv_notAfter (demo_own x) = None" "pb_keyId (demo_public x) = x @ ''.v1''"
  "pv_signingPrivateKey (demo_own x) = x" "pv_encryptionPrivateKey (demo_own x) = x" "pb_signingPublicKey (demo_public x) = x"
  "pb_encryptionPublicKey (demo_public x) = cy_dhPublic demo_crypto x" "\<not> pb_revoked (demo_public x)" "cy_signPublic demo_crypto x = x"
  "cy_dh demo_crypto y z = Some ''secret''" "keyring_peer (demo_ring x) ''gw.v1'' t = Inr (demo_public ''gw'')"
  "activePeerFor (demo_ring ''gw'') ''ledger'' 101 = Inr (demo_public ''ledger'')" "\<not> route_revoked demo_route" "sr_service demo_route = ''ledger''"
  by (simp_all add: demo_ring_def demo_own_def demo_public_def demo_crypto_def keyring_peer_def activePeerFor_def key_live_def demo_route_def route_revoked_def)

lemma demo_call_fields:
  "ca_crypto demo_call = demo_crypto" "ca_codec demo_call = demo_codec" "ca_fresh demo_call = demo_fresh" "ci_keyring (ca_client demo_call) = demo_ring ''gw''"
  "ci_routeSecret (ca_client demo_call) = demo_secret" "ci_ttlSeconds (ca_client demo_call) = None" "ci_hopLimit (ca_client demo_call) = None"
  "ca_peer demo_call = demo_public ''ledger''" "ca_routes demo_call = [demo_route]" "ca_protocol demo_call = (\<lambda>_. Some ''http:'')" "ca_route demo_call = demo_route"
  "ca_router demo_call = demo_router" "ca_routerState demo_call = \<lparr>rs_replay = [], rs_rates = [], rs_audit = []\<rparr>" "ca_recipient demo_call = demo_recipient"
  "ca_store demo_call = []" "ca_nonce demo_call = replicate 12 CHR ''r''" "ca_now demo_call = 101000" "ca_request demo_call = demo_inner" "ca_size demo_call = 1000"
  "ro_keyring demo_recipient = demo_ring ''ledger''" "ro_capabilities demo_recipient = capabilitiesForService ''ledger''"
  "ro_dispatch demo_recipient i = Inr \<lparr>is_status = 201, is_body = None\<rparr>" "rc_keyring demo_router = demo_ring ''router''"
  "rc_routes demo_router = [(demo_token_of_route, demo_route)]" "rc_maxEnvelopeBytes demo_router = 262144" "rc_rateLimitPerMinute demo_router = 600"
  "length (fr_mid demo_fresh) = 16" "length (fr_nonce demo_fresh) = 12"
  by (simp_all add: demo_call_def demo_recipient_def demo_router_def demo_fresh_def)

lemma demo_call_ready: "call_ready demo_call"
  unfolding call_ready_def Let_def demo_call_fields own_matches_def demo_parties
  using demo_crypto_correct demo_key_ids demo_inner_allowed demo_route_table
  by (auto simp: demo_parties incrementRate_def rincr_def redis_holds_def rlive_def sabclInnerResponseSchema_def demo_codec_def)

lemma demo_call_wired: "call_wired demo_call"
  by (simp add: call_wired_def demo_call_def demo_net_def)

section \<open>Properties\<close>

text \<open>C27: a call over SABCL is a call of the service.  When the sender, the router and the recipient are configured for each
  other and the message is new, what the sender gets back from sealing its request, sending it through the router and
  opening the response is exactly what the service answers to the request when it is dispatched there, or the protocol
  code of its failure.\<close>

theorem sabcl_call_is_direct_call:
  assumes "call_ready c" "call_wired c"
  shows "run_call hash c =
     (case ro_dispatch (ca_recipient c) (ca_request c) of
        Inr r \<Rightarrow> Inr r
      | Inl err \<Rightarrow> Inl (SabclError (toSabclError SABCL_DECRYPTION_FAILED err)))"
  by (rule call_goes_through [OF assms])

theorem sabcl_call_is_direct_call_witness:
  "call_ready demo_call \<and> call_wired demo_call \<and> run_call (\<lambda>b. b) demo_call = Inr \<lparr>is_status = 201, is_body = None\<rparr>"
  using sabcl_call_is_direct_call [OF demo_call_ready demo_call_wired, of "\<lambda>b. b"] demo_call_ready demo_call_wired
  by (simp add: demo_call_def demo_recipient_def)

text \<open>the router is no proxy.  It hands a message on only when it is well formed, not expired, from a live peer, with a hop
  left and an identifier it has not seen, and only to the destination of a live route of its table whose token the
  message carries; the message goes out exactly as it came in, with its hop limit unchanged, and every message, handed
  on or not, leaves one audit record.\<close>

theorem router_forwards_only_known_routes:
  assumes "router_route hash cfg net now raw n st = (a, Some (dest, e), st')"
  shows "raw = Some e \<and> sabclEnvelopeSchema e \<and> n \<le> rc_maxEnvelopeBytes cfg \<and> now div 1000 \<le> ev_exp e \<and> 0 < ev_hl e
    \<and> (\<exists>p. keyring_peer (rc_keyring cfg) (ev_skid e) (now div 1000) = Inr p)
    \<and> \<not> redis_holds (rc_redisKeyPrefix cfg) (rs_replay st) (ev_mid e) now
    \<and> (\<exists>t r. (t, r) \<in> set (rc_routes cfg) \<and> \<not> route_revoked r \<and> sr_destination r = dest \<and> b64_decode t = b64_decode (ev_rt e))
    \<and> (\<exists>x. rs_audit st' = rs_audit st @ [x])"
proof -
  obtain res st1 where r: "raw = Some e" "sabclEnvelopeSchema e" "n \<le> rc_maxEnvelopeBytes cfg" "router_attempt cfg net now e st = (res, Some (dest, e), st1)"
    by (rule router_route_sent [OF assms])
  from router_attempt_sent [OF r(4)] obtain q where q: "router_admit cfg now e = Inr ()" "route_resolve (rc_routes cfg) (ev_rt e) = Inr q"
      "dest = sr_destination q" "\<not> redis_holds (rc_redisKeyPrefix cfg) (rs_replay st) (ev_mid e) now" by blast
  have adm: "now div 1000 \<le> ev_exp e" "0 < ev_hl e" "\<exists>p. keyring_peer (rc_keyring cfg) (ev_skid e) (now div 1000) = Inr p"
    using q(1) by (auto simp: router_admit_def Let_def res_simps split: if_splits)
  have "rs_audit st1 = rs_audit st"
    using r(4) by (auto simp: router_attempt_def incrementRate_def split: sum.splits prod.splits if_splits bool.splits)
  then have "\<exists>x. rs_audit st' = rs_audit st @ [x]"
    using assms r by (auto simp: router_route_def Let_def split: sum.splits)
  with r adm q route_resolve_Inr [OF q(2)] show ?thesis by blast
qed

end
