(* ===== verification/SabclSetup.thy ===== *)
theory SabclSetup
  imports SabclRouter
begin

text \<open>
  How the SABCL parties are set up: the environment of a party (\<open>config/environment.ts\<close>) with the detection of test keys
  (\<open>testing/fixtures.ts\<close>), the recipients of the ledger, payments and identity services
  (\<open>server/recipient-runtime.ts\<close>, \<open>sabcl/sabcl.service.ts\<close> of each service) and the configuration of the router
  (\<open>common/config/router.config.ts\<close>).  SHA-256, the reading of the JSON lists of peers and routes, and the protocol and
  origin of a URL are parameters.
\<close>

unbundle bit_operations_syntax

section \<open>Test keys\<close>

definition fixtureScalar :: "(string \<Rightarrow> bytes) \<Rightarrow> string \<Rightarrow> bytes" where
  "fixtureScalar sha label = sha (''aegis-sabcl-fixture|'' @ label)"

definition clamp_scalar :: "bytes \<Rightarrow> bytes" where
  "clamp_scalar raw =
     raw[0 := char_of ((of_char (raw ! 0) :: nat) AND 248), 31 := char_of (((of_char (raw ! 31) :: nat) AND 127) OR 64)]"

datatype curve = X25519 | Ed25519

definition fixturePrivate :: "sabcl_crypto \<Rightarrow> (string \<Rightarrow> bytes) \<Rightarrow> string \<Rightarrow> curve \<Rightarrow> string \<times> string" where
  "fixturePrivate cy sha label c =
     (case c of
        X25519 \<Rightarrow> (let raw = clamp_scalar (fixtureScalar sha (label @ ''|x25519'')) in (toBase64Url raw, toBase64Url (cy_dhPublic cy raw)))
      | Ed25519 \<Rightarrow> (let raw = fixtureScalar sha (label @ ''|ed25519'') in (toBase64Url raw, toBase64Url (cy_signPublic cy raw))))"

record fixture_material =
  fx_keyId :: string
  fx_encryptionPrivateKey :: string
  fx_signingPrivateKey :: string
  fx_encryptionPublicKey :: string
  fx_signingPublicKey :: string

definition fixtureIdentityMaterial :: "sabcl_crypto \<Rightarrow> (string \<Rightarrow> bytes) \<Rightarrow> string \<Rightarrow> int \<Rightarrow> fixture_material" where
  "fixtureIdentityMaterial cy sha service version =
     (let label = service @ ''.v'' @ dec_of_int version;
          encryption = fixturePrivate cy sha label X25519; signing = fixturePrivate cy sha label Ed25519
      in \<lparr>fx_keyId = label, fx_encryptionPrivateKey = fst encryption, fx_signingPrivateKey = fst signing,
          fx_encryptionPublicKey = snd encryption, fx_signingPublicKey = snd signing\<rparr>)"

text \<open>\<open>keyId.lastIndexOf('.v')\<close>.\<close>

fun last_dot_v :: "string \<Rightarrow> nat option" where
  "last_dot_v [] = None"
| "last_dot_v (c # cs) =
     (case last_dot_v cs of
        Some i \<Rightarrow> Some (Suc i)
      | None \<Rightarrow> if starts_with ''.v'' (c # cs) then Some 0 else None)"

definition splitKeyId :: "string \<Rightarrow> (string \<times> int) option" where
  "splitKeyId keyId =
     (case last_dot_v keyId of
        None \<Rightarrow> None
      | Some separator \<Rightarrow>
          if separator = 0 then None
          else (case isSafeInteger (js_Number (drop (separator + 2) keyId)) of
            None \<Rightarrow> None
          | Some version \<Rightarrow> if version < 0 then None else Some (take separator keyId, version)))"

definition isFixtureMaterial :: "sabcl_crypto \<Rightarrow> (string \<Rightarrow> bytes) \<Rightarrow> string \<Rightarrow> string \<Rightarrow> string \<Rightarrow> string \<Rightarrow> bool" where
  "isFixtureMaterial cy sha keyId encryptionPrivateKey signingPrivateKey routeSecret =
     (routeSecret = toBase64Url (fixtureScalar sha ''route-secret'')
      \<or> keyId \<noteq> [] \<and> (case splitKeyId keyId of
           None \<Rightarrow> False
         | Some (service, version) \<Rightarrow>
             (let expected = fixtureIdentityMaterial cy sha service version
              in encryptionPrivateKey = fx_encryptionPrivateKey expected \<or> signingPrivateKey = fx_signingPrivateKey expected)))"

section \<open>The environment of a party\<close>

datatype sabcl_mode = Strict | Compatible | Off

definition resolveMode :: "string option \<Rightarrow> (sabcl_error, sabcl_mode) res" where
  "resolveMode raw =
     (let m = js_trim (case raw of None \<Rightarrow> ''off'' | Some s \<Rightarrow> s)
      in if m = ''strict'' then Inr Strict else if m = ''compatible'' then Inr Compatible else if m = ''off'' then Inr Off
         else Inl (SabclError SABCL_NOT_CONFIGURED))"

record sabcl_input =
  si_mode :: "string option"
  si_keyId :: "string option"
  si_encryptionPrivateKey :: "string option"
  si_signingPrivateKey :: "string option"
  si_peers :: "string option"
  si_routeSecret :: "string option"
  si_nodeEnvironment :: string

record sabcl_environment =
  se_mode :: sabcl_mode
  se_keyring :: keyring
  se_routeSecret :: bytes

definition SABCL_PLACEHOLDERS :: "string list" where
  "SABCL_PLACEHOLDERS = PLACEHOLDERS @ [''not-a-secret'', ''fixture'']"

definition peerSchema :: "public_material \<Rightarrow> bool" where
  "peerSchema m =
     (sabclKeyIdSchema (pm_keyId m) \<and> pm_encryptionPublicKey m \<noteq> [] \<and> pm_signingPublicKey m \<noteq> []
      \<and> (case pm_notAfter m of None \<Rightarrow> True | Some t \<Rightarrow> 0 < t \<and> t \<le> 9007199254740991))"

definition peersSchema :: "public_material list \<Rightarrow> bool" where
  "peersSchema ms = (ms \<noteq> [] \<and> list_all peerSchema ms)"

definition sabcl_required :: "string option \<Rightarrow> (sabcl_error, string) res" where
  "sabcl_required value =
     (case value of
        None \<Rightarrow> Inl (SabclError SABCL_NOT_CONFIGURED)
      | Some s \<Rightarrow> if js_trim s = [] then Inl (SabclError SABCL_NOT_CONFIGURED) else Inr (js_trim s))"

fun load_each :: "('a \<Rightarrow> ('e, 'b) res) \<Rightarrow> 'a list \<Rightarrow> ('e, 'b list) res" where
  "load_each f [] = Inr []"
| "load_each f (x # xs) = andThen (f x) (\<lambda>y. andThen (load_each f xs) (\<lambda>ys. Inr (y # ys)))"

text \<open>Everything but a protocol error becomes the same protocol error.\<close>

definition load_peers :: "sabcl_crypto \<Rightarrow> (string \<Rightarrow> public_material list option) \<Rightarrow> string option \<Rightarrow> (sabcl_error, public_identity list) res" where
  "load_peers cy parsePeers peers =
     (case andThen (sabcl_required peers) (\<lambda>text.
        andThen (ofOption SabclZodError (parsePeers text)) (\<lambda>ms.
        if peersSchema ms then load_each (loadPublicIdentity cy) ms else Inl SabclZodError)) of
        Inr ps \<Rightarrow> Inr ps
      | Inl (SabclError c) \<Rightarrow> Inl (SabclError c)
      | Inl _ \<Rightarrow> Inl (SabclError SABCL_NOT_CONFIGURED))"

definition loadSabclEnvironment ::
  "sabcl_crypto \<Rightarrow> (string \<Rightarrow> bytes) \<Rightarrow> (string \<Rightarrow> public_material list option) \<Rightarrow> sabcl_input \<Rightarrow> (sabcl_error, sabcl_environment option) res" where
  "loadSabclEnvironment cy sha parsePeers input =
     andThen (resolveMode (si_mode input)) (\<lambda>mode.
     if mode = Off then Inr None
     else if mode = Compatible \<and> si_nodeEnvironment input = ''production'' then Inl (SabclError SABCL_NOT_CONFIGURED)
     else andThen (sabcl_required (si_keyId input)) (\<lambda>keyId.
       andThen (sabcl_required (si_encryptionPrivateKey input)) (\<lambda>encryptionPrivateKey.
       andThen (sabcl_required (si_signingPrivateKey input)) (\<lambda>signingPrivateKey.
       andThen (sabcl_required (si_routeSecret input)) (\<lambda>routeSecretRaw.
       if mode = Strict \<and> list_ex (mentions SABCL_PLACEHOLDERS) [encryptionPrivateKey, signingPrivateKey, routeSecretRaw]
       then Inl (SabclError SABCL_NOT_CONFIGURED)
       else if mode = Strict \<and> isFixtureMaterial cy sha keyId encryptionPrivateKey signingPrivateKey routeSecretRaw
       then Inl (SabclError SABCL_NOT_CONFIGURED)
       else andThen (fromBase64Url routeSecretRaw) (\<lambda>routeSecret.
         if length routeSecret < 32 then Inl (SabclError SABCL_NOT_CONFIGURED)
         else andThen (load_peers cy parsePeers (si_peers input)) (\<lambda>peers.
           andThen (loadPrivateIdentity cy keyId encryptionPrivateKey signingPrivateKey None) (\<lambda>own.
           andThen (newKeyring own peers) (\<lambda>keyring.
           Inr (Some \<lparr>se_mode = mode, se_keyring = keyring, se_routeSecret = routeSecret\<rparr>))))))))))"

section \<open>Recipients\<close>

record runtime_options =
  rt_service :: string
  rt_environmentPrefix :: string
  rt_selfUrl :: string
  rt_internalToken :: string
  rt_nodeEnvironment :: string
  rt_redisUrl :: string
  rt_redisPrefix :: string
  rt_dispatchTimeoutMs :: int

record recipient_runtime =
  rn_environment :: sabcl_environment
  rn_recipient :: recipient_options

definition party_input :: "process_env \<Rightarrow> string \<Rightarrow> string \<Rightarrow> sabcl_input" where
  "party_input penv prefix nodeEnvironment =
     \<lparr>si_mode = penv ''SABCL_MODE'', si_keyId = penv (prefix @ ''_KEY_ID''), si_encryptionPrivateKey = penv (prefix @ ''_ENCRYPTION_PRIVATE_KEY''),
      si_signingPrivateKey = penv (prefix @ ''_SIGNING_PRIVATE_KEY''), si_peers = penv ''SABCL_PEERS'', si_routeSecret = penv ''SABCL_ROUTE_SECRET'',
      si_nodeEnvironment = nodeEnvironment\<rparr>"

text \<open>\<open>origin url path\<close> is the origin of a path resolved against a base URL; \<open>call\<close> is the service's own HTTP interface.\<close>

definition createSabclRecipientRuntime ::
  "sabcl_crypto \<Rightarrow> (string \<Rightarrow> bytes) \<Rightarrow> (string \<Rightarrow> public_material list option) \<Rightarrow> (string \<Rightarrow> string \<Rightarrow> string) \<Rightarrow> (loopback_call \<Rightarrow> inner_response option) \<Rightarrow>
     process_env \<Rightarrow> runtime_options \<Rightarrow> (sabcl_error, recipient_runtime option) res" where
  "createSabclRecipientRuntime cy sha parsePeers origin call penv opts =
     andThen (loadSabclEnvironment cy sha parsePeers (party_input penv (rt_environmentPrefix opts) (rt_nodeEnvironment opts))) (\<lambda>environment.
     case environment of
       None \<Rightarrow> Inr None
     | Some e \<Rightarrow>
         if pv_service (kr_own (se_keyring e)) \<noteq> rt_service opts then Inl (SabclError SABCL_NOT_CONFIGURED)
         else if capabilitiesForService (rt_service opts) = [] then Inl (SabclError SABCL_NOT_CONFIGURED)
         else Inr (Some \<lparr>rn_environment = e,
           rn_recipient = \<lparr>ro_keyring = se_keyring e, ro_prefix = rt_redisPrefix opts, ro_capabilities = capabilitiesForService (rt_service opts),
             ro_dispatch = loopback_dispatch (origin (rt_selfUrl opts)) (origin (rt_selfUrl opts) []) call ''x-aegis-internal-token'' (rt_internalToken opts)\<rparr>\<rparr>))"

definition LOCAL_REDIS :: string where
  "LOCAL_REDIS = ''redis://:aegis-local-redis-change-me@127.0.0.1:6379/0''"

definition self_url :: "string \<Rightarrow> int \<Rightarrow> string" where
  "self_url host port = ''http://'' @ host @ '':'' @ dec_of_int port"

definition ledger_sabcl :: "process_env \<Rightarrow> ledger_config \<Rightarrow> runtime_options" where
  "ledger_sabcl penv c =
     \<lparr>rt_service = ''ledger'', rt_environmentPrefix = ''SABCL_LEDGER'', rt_selfUrl = self_url (lc_host c) (lc_port c), rt_internalToken = lc_internalToken c,
      rt_nodeEnvironment = lc_nodeEnvironment c, rt_redisUrl = env_or penv ''REDIS_URL'' LOCAL_REDIS,
      rt_redisPrefix = env_or penv ''SABCL_REDIS_PREFIX'' ''aegis:sabcl:ledger:'', rt_dispatchTimeoutMs = 5000\<rparr>"

definition payments_sabcl :: "process_env \<Rightarrow> payments_config \<Rightarrow> runtime_options" where
  "payments_sabcl penv c =
     \<lparr>rt_service = ''payments'', rt_environmentPrefix = ''SABCL_PAYMENTS'', rt_selfUrl = self_url (pc_host c) (pc_port c), rt_internalToken = pc_internalToken c,
      rt_nodeEnvironment = pc_nodeEnvironment c, rt_redisUrl = env_or penv ''REDIS_URL'' LOCAL_REDIS,
      rt_redisPrefix = env_or penv ''SABCL_REDIS_PREFIX'' ''aegis:sabcl:payments:'', rt_dispatchTimeoutMs = pc_httpTimeoutMs c\<rparr>"

definition identity_sabcl :: "identity_config \<Rightarrow> runtime_options" where
  "identity_sabcl c =
     \<lparr>rt_service = ''identity'', rt_environmentPrefix = ''SABCL_IDENTITY'', rt_selfUrl = self_url (ic_host c) (ic_port c), rt_internalToken = ic_internalToken c,
      rt_nodeEnvironment = ic_nodeEnvironment c, rt_redisUrl = ic_redisUrl c, rt_redisPrefix = ic_redisKeyPrefix c @ ''sabcl:'', rt_dispatchTimeoutMs = 5000\<rparr>"

definition sabcl_inbound ::
  "sabcl_crypto \<Rightarrow> sabcl_codec \<Rightarrow> recipient_runtime option \<Rightarrow> bytes \<Rightarrow> time \<Rightarrow> sabcl_envelope option \<Rightarrow> string rstore \<Rightarrow>
     recipient_outcome \<times> inner_request option \<times> string rstore" where
  "sabcl_inbound cy jc runtime nonce now envelope store =
     (case runtime of
        None \<Rightarrow> (Rejected SABCL_NOT_CONFIGURED, None, store)
      | Some rt \<Rightarrow> recipient_handle cy jc (rn_recipient rt) nonce now envelope store)"

section \<open>The router\<close>

datatype start_error = StartSabcl sabcl_error | StartConfig config_error

definition onError :: "('e \<Rightarrow> 'f) \<Rightarrow> ('e, 'a) res \<Rightarrow> ('f, 'a) res" where
  "onError f r = (case r of Inl e \<Rightarrow> Inl (f e) | Inr a \<Rightarrow> Inr a)"

definition routeDefinitionSchema :: "(string \<Rightarrow> string option) \<Rightarrow> sabcl_route \<Rightarrow> bool" where
  "routeDefinitionSchema url_protocol r =
     (3 \<le> length (sr_routeId r) \<and> length (sr_routeId r) \<le> 64 \<and> 1 \<le> length (sr_service r) \<and> length (sr_service r) \<le> 64
      \<and> url_protocol (sr_destination r) \<noteq> None)"

definition defaultRoutes :: "process_env \<Rightarrow> sabcl_route list" where
  "defaultRoutes penv =
     (let identity = env_or penv ''IDENTITY_SERVICE_URL'' ''http://127.0.0.1:4101'';
          ledger = env_or penv ''LEDGER_SERVICE_URL'' ''http://127.0.0.1:4102'';
          payments = env_or penv ''PAYMENTS_SERVICE_URL'' ''http://127.0.0.1:4104''
      in [\<lparr>sr_routeId = ''identity.step-up'', sr_service = ''identity'', sr_destination = identity, sr_revoked = None\<rparr>,
          \<lparr>sr_routeId = ''ledger.accounts'', sr_service = ''ledger'', sr_destination = ledger, sr_revoked = None\<rparr>,
          \<lparr>sr_routeId = ''ledger.postings'', sr_service = ''ledger'', sr_destination = ledger, sr_revoked = None\<rparr>,
          \<lparr>sr_routeId = ''payments.transfer'', sr_service = ''payments'', sr_destination = payments, sr_revoked = None\<rparr>])"

definition loadRoutes :: "(string \<Rightarrow> sabcl_route list option) \<Rightarrow> (string \<Rightarrow> string option) \<Rightarrow> process_env \<Rightarrow> (config_error, sabcl_route list) res" where
  "loadRoutes parseRoutes url_protocol penv =
     (let raw = env_trimmed penv ''SABCL_ROUTES'' in
      if raw = [] then Inr (defaultRoutes penv)
      else case parseRoutes raw of
        None \<Rightarrow> Inl (ConfigError ''SABCL_ROUTES must be valid JSON.'')
      | Some rs \<Rightarrow>
          if rs \<noteq> [] \<and> list_all (routeDefinitionSchema url_protocol) rs then Inr rs
          else Inl (ConfigError ''SABCL_ROUTES must be an array of route definitions.''))"

record router_start = router_config +
  rc_nodeEnvironment :: string
  rc_host :: string
  rc_port :: int
  rc_redisUrl :: string
  rc_forwardTimeoutMs :: int
  rc_mode :: sabcl_mode

definition createRouterConfig ::
  "sabcl_crypto \<Rightarrow> (string \<Rightarrow> bytes) \<Rightarrow> (string \<Rightarrow> public_material list option) \<Rightarrow> (string \<Rightarrow> sabcl_route list option) \<Rightarrow> (string \<Rightarrow> string option) \<Rightarrow>
     process_env \<Rightarrow> (start_error, router_start) res" where
  "createRouterConfig cy sha parsePeers parseRoutes url_protocol penv =
     andThen (onError StartSabcl (loadSabclEnvironment cy sha parsePeers (party_input penv ''SABCL_ROUTER'' (env_or penv ''NODE_ENV'' ''development'')))) (\<lambda>sabcl.
     case sabcl of
       None \<Rightarrow> Inl (StartConfig (ConfigError ''The SABCL router cannot start with SABCL_MODE=off.''))
     | Some e \<Rightarrow>
         andThen (onError StartConfig (config_integer penv ''SABCL_ROUTER_PORT'' 4103 1)) (\<lambda>port.
         andThen (onError StartConfig (config_integer penv ''SABCL_FORWARD_TIMEOUT_MS'' 5000 100)) (\<lambda>timeout.
         andThen (onError StartConfig (config_integer penv ''SABCL_RATE_LIMIT_PER_MINUTE'' 600 1)) (\<lambda>rate.
         andThen (onError StartConfig (config_integer penv ''SABCL_MAX_ENVELOPE_BYTES'' 262144 1024)) (\<lambda>size.
         andThen (onError StartConfig (loadRoutes parseRoutes url_protocol penv)) (\<lambda>routes.
         andThen (onError StartSabcl (newRouteTable cy url_protocol (se_routeSecret e) routes)) (\<lambda>table.
         Inr \<lparr>rc_redisKeyPrefix = env_or penv ''SABCL_REDIS_PREFIX'' ''aegis:sabcl:'', rc_rateLimitPerMinute = rate, rc_maxEnvelopeBytes = size,
              rc_keyring = se_keyring e, rc_routeSecret = se_routeSecret e, rc_routes = table,
              rc_nodeEnvironment = env_or penv ''NODE_ENV'' ''development'', rc_host = env_or penv ''SABCL_ROUTER_HOST'' ''127.0.0.1'', rc_port = port,
              rc_redisUrl = env_or penv ''REDIS_URL'' LOCAL_REDIS, rc_forwardTimeoutMs = timeout, rc_mode = se_mode e\<rparr>)))))))"

text \<open>\<open>Number(header('content-length') ?? 0)\<close>, and the largest safe integer when that is no safe integer.\<close>

definition declared_length :: "string option \<Rightarrow> int" where
  "declared_length header =
     (case header of
        None \<Rightarrow> 0
      | Some s \<Rightarrow> (case isSafeInteger (js_Number s) of None \<Rightarrow> 9007199254740991 | Some n \<Rightarrow> n))"

definition router_accept ::
  "(bytes \<Rightarrow> string) \<Rightarrow> router_start \<Rightarrow> (string \<Rightarrow> sabcl_envelope \<Rightarrow> wire_answer) \<Rightarrow> time \<Rightarrow> sabcl_envelope option \<Rightarrow> string option \<Rightarrow> router_state \<Rightarrow>
     wire_answer \<times> (string \<times> sabcl_envelope) option \<times> router_state" where
  "router_accept hash cfg net now body contentLength st =
     router_route hash (router_config.truncate cfg) net now body (declared_length contentLength) st"

section \<open>What a start-up guarantees\<close>

lemma add_peers_distinct:
  "add_peers known ps = Inr qs \<Longrightarrow> distinct (map pb_keyId known) \<Longrightarrow> distinct (map pb_keyId qs)"
  by (induction known ps rule: add_peers.induct) (auto simp: find_by_None simp del: not_None_eq split: if_splits)

lemma add_peers_all: "add_peers known ps = Inr qs \<Longrightarrow> qs = known @ ps"
  by (induction known ps rule: add_peers.induct) (auto split: if_splits)

lemma load_each_length: "load_each f xs = Inr ys \<Longrightarrow> length ys = length xs"
  by (induction xs arbitrary: ys) (auto simp: res_simps)

lemma load_peers_some: "load_peers cy parsePeers raw = Inr ps \<Longrightarrow> ps \<noteq> []"
  by (auto simp: load_peers_def peersSchema_def res_simps split: sum.splits sabcl_error.splits if_splits dest: load_each_length)

lemma load_environment:
  assumes "loadSabclEnvironment cy sha parsePeers input = Inr (Some e)"
  obtains keyId ek sk rs peers own where "resolveMode (si_mode input) = Inr (se_mode e)" "se_mode e \<noteq> Off"
    "se_mode e = Compatible \<longrightarrow> si_nodeEnvironment input \<noteq> ''production''"
    "sabcl_required (si_keyId input) = Inr keyId" "sabcl_required (si_encryptionPrivateKey input) = Inr ek"
    "sabcl_required (si_signingPrivateKey input) = Inr sk" "sabcl_required (si_routeSecret input) = Inr rs"
    "se_mode e = Strict \<longrightarrow> \<not> list_ex (mentions SABCL_PLACEHOLDERS) [ek, sk, rs] \<and> \<not> isFixtureMaterial cy sha keyId ek sk rs"
    "fromBase64Url rs = Inr (se_routeSecret e)" "32 \<le> length (se_routeSecret e)" "load_peers cy parsePeers (si_peers input) = Inr peers"
    "loadPrivateIdentity cy keyId ek sk None = Inr own" "newKeyring own peers = Inr (se_keyring e)"
proof -
  from assms obtain mode where m: "resolveMode (si_mode input) = Inr mode" "mode \<noteq> Off" "mode = Compatible \<longrightarrow> si_nodeEnvironment input \<noteq> ''production''"
    by (auto simp: loadSabclEnvironment_def res_simps split: if_splits)
  from assms m obtain keyId ek sk rs where r: "sabcl_required (si_keyId input) = Inr keyId" "sabcl_required (si_encryptionPrivateKey input) = Inr ek"
      "sabcl_required (si_signingPrivateKey input) = Inr sk" "sabcl_required (si_routeSecret input) = Inr rs"
    by (auto simp: loadSabclEnvironment_def res_simps split: if_splits)
  from assms m r obtain secret peers own ring where s: "mode = Strict \<longrightarrow> \<not> list_ex (mentions SABCL_PLACEHOLDERS) [ek, sk, rs] \<and> \<not> isFixtureMaterial cy sha keyId ek sk rs"
      "fromBase64Url rs = Inr secret" "32 \<le> length secret" "load_peers cy parsePeers (si_peers input) = Inr peers"
      "loadPrivateIdentity cy keyId ek sk None = Inr own" "newKeyring own peers = Inr ring"
      "e = \<lparr>se_mode = mode, se_keyring = ring, se_routeSecret = secret\<rparr>"
    by (auto simp: loadSabclEnvironment_def res_simps split: if_splits)
  with m r that show ?thesis by simp
qed

text \<open>Every capability of the catalogue has a default route to the service that owns it.\<close>

lemma default_routes_cover_catalogue:
  "list_all (\<lambda>x. list_ex (\<lambda>r. sr_routeId r = ce_routeId x \<and> sr_service r = ce_service x \<and> \<not> route_revoked r) (defaultRoutes penv)) SABCL_CAPABILITIES"
  by (simp add: SABCL_CAPABILITIES_def defaultRoutes_def Let_def route_revoked_def)

lemma runtime_recipient:
  assumes "createSabclRecipientRuntime cy sha parsePeers origin call penv opts = Inr (Some rt)"
  shows "ro_prefix (rn_recipient rt) = rt_redisPrefix opts"
proof (cases "loadSabclEnvironment cy sha parsePeers (party_input penv (rt_environmentPrefix opts) (rt_nodeEnvironment opts))")
  case (Inr e)
  with assms show ?thesis
    by (cases e) (simp_all add: createSabclRecipientRuntime_def split: if_split_asm, metis recipient_options.select_convs(2) recipient_runtime.select_convs(2))
qed (use assms in \<open>simp add: createSabclRecipientRuntime_def\<close>)

lemma held_message_refused:
  assumes "redis_holds (ro_prefix opts) store (ev_mid e) now"
  shows "\<exists>code. recipient_handle cy jc opts nonce now (Some e) store = (Rejected code, None, store)"
proof -
  have "redis_remember (ro_prefix opts) now (ev_mid e) ttl store = (False, store)" for ttl
    using assms by (simp add: redis_remember_def redis_holds_def Let_def)
  then show ?thesis by (simp add: recipient_handle_def split: sum.splits)
qed

lemma forwarded_is_held:
  assumes "router_route hash cfg net now raw n st = (a, Some (dest, e), st')" and "t < now + 1000 * (ev_exp e - now div 1000 + 1)"
  shows "redis_holds (rc_redisKeyPrefix cfg) (rs_replay st') (ev_mid e) t"
proof -
  obtain res st1 where r: "raw = Some e" "sabclEnvelopeSchema e" "n \<le> rc_maxEnvelopeBytes cfg" "router_attempt cfg net now e st = (res, Some (dest, e), st1)"
    by (rule router_route_sent [OF assms(1)])
  have "rs_replay st' = rs_replay st1" using assms(1) r by (auto simp: router_route_def Let_def split: sum.splits)
  moreover obtain s0 where "redis_remember (rc_redisKeyPrefix cfg) now (ev_mid e) (max 1 (ev_exp e - now div 1000 + 1)) s0 = (True, rs_replay st1)"
    using r(4) by (auto simp: router_attempt_def split: sum.splits prod.splits if_splits bool.splits)
  from red.claim_holds [OF this] have "redis_holds (rc_redisKeyPrefix cfg) (rs_replay st1) (ev_mid e) t"
    using assms(2) by (simp add: max_def algebra_simps split: if_splits)
  ultimately show ?thesis by simp
qed

section \<open>A sample set-up\<close>

definition demo_sha :: "string \<Rightarrow> bytes" where
  "demo_sha s = replicate 32 CHR ''g''"

definition demo_key :: string where
  "demo_key = ''YWFhYWFhYWFhYWFhYWFhYWFhYWFhYWFhYWFhYWFhYWE''"

definition demo_peers :: "string \<Rightarrow> public_material list option" where
  "demo_peers text = Some [\<lparr>pm_keyId = ''gw.v1'', pm_encryptionPublicKey = demo_key, pm_signingPublicKey = demo_key, pm_revoked = None, pm_notAfter = None\<rparr>]"

definition demo_sabcl_env :: process_env where
  "demo_sabcl_env = map_of [(''SABCL_MODE'', ''strict''), (''SABCL_PEERS'', ''[]''), (''SABCL_ROUTE_SECRET'', demo_key), (''SABCL_REDIS_PREFIX'', ''aegis:sabcl:''), (''SABCL_ROUTES'', ''[]''),
     (''SABCL_LEDGER_KEY_ID'', ''ledger.v1''), (''SABCL_LEDGER_ENCRYPTION_PRIVATE_KEY'', demo_key), (''SABCL_LEDGER_SIGNING_PRIVATE_KEY'', demo_key),
     (''SABCL_ROUTER_KEY_ID'', ''router.v1''), (''SABCL_ROUTER_ENCRYPTION_PRIVATE_KEY'', demo_key), (''SABCL_ROUTER_SIGNING_PRIVATE_KEY'', demo_key)]"

definition demo_started :: "string \<Rightarrow> sabcl_environment" where
  "demo_started service =
     \<lparr>se_mode = Strict,
      se_keyring = \<lparr>kr_own = \<lparr>pv_keyId = service @ ''.v1'', pv_service = service, pv_encryptionPrivateKey = replicate 32 CHR ''a'',
                               pv_signingPrivateKey = replicate 32 CHR ''a'', pv_notAfter = None\<rparr>,
                    kr_peers = [\<lparr>pb_keyId = ''gw.v1'', pb_service = ''gw'', pb_encryptionPublicKey = replicate 32 CHR ''a'',
                                 pb_signingPublicKey = replicate 32 CHR ''a'', pb_revoked = False, pb_notAfter = None\<rparr>]\<rparr>,
      se_routeSecret = replicate 32 CHR ''a''\<rparr>"

lemma demo_key_value: "demo_key = toBase64Url (replicate 32 CHR ''a'')"
  by code_simp

lemma demo_key_reads: "js_trim demo_key = demo_key" "\<not> mentions SABCL_PLACEHOLDERS demo_key" "demo_key \<noteq> []"
  by code_simp+

lemma demo_key_imports: "fromBase64Url demo_key = Inr (replicate 32 CHR ''a'')" "importKey demo_crypto demo_key = Inr (replicate 32 CHR ''a'')"
  by (simp_all add: importKey_def demo_key_value demo_crypto_def)

lemma demo_names:
  "js_trim ''strict'' = ''strict''" "js_trim ''[]'' = ''[]''" "js_trim ''ledger.v1'' = ''ledger.v1''" "js_trim ''router.v1'' = ''router.v1''"
  "sabclKeyIdSchema ''router.v1''" "splitKeyId ''ledger.v1'' = Some (''ledger'', 1)" "splitKeyId ''router.v1'' = Some (''router'', 1)"
  by code_simp+

lemma demo_service_names:
  "serviceOfKeyId ''gw.v1'' = Inr ''gw''" "serviceOfKeyId ''ledger.v1'' = Inr ''ledger''" "serviceOfKeyId ''router.v1'' = Inr ''router''"
  by code_simp+

lemma demo_not_fixture: "splitKeyId k = Some sv \<Longrightarrow> \<not> isFixtureMaterial cy demo_sha k demo_key demo_key demo_key"
proof -
  have ne: "replicate 32 CHR ''a'' \<noteq> replicate 32 CHR ''g''" by (simp add: numeral_eq_Suc)
  have "clamp_scalar (replicate 32 CHR ''g'') ! 1 = CHR ''g''" by (simp add: clamp_scalar_def)
  moreover have "replicate 32 CHR ''a'' ! 1 = CHR ''a''" by simp
  ultimately have "replicate 32 CHR ''a'' \<noteq> clamp_scalar (replicate 32 CHR ''g'')" by fastforce
  with ne show "splitKeyId k = Some sv \<Longrightarrow> ?thesis"
    by (cases sv) (simp add: isFixtureMaterial_def demo_key_value fixtureScalar_def demo_sha_def fixtureIdentityMaterial_def fixturePrivate_def Let_def)
qed

lemma demo_load_peers: "load_peers demo_crypto demo_peers (Some ''[]'') = Inr (kr_peers (se_keyring (demo_started x)))"
  using demo_key_ids(1) by (simp add: load_peers_def sabcl_required_def demo_names demo_peers_def peersSchema_def peerSchema_def
      loadPublicIdentity_def demo_service_names demo_key_imports demo_key_reads demo_started_def)

lemma demo_env_values:
  "demo_sabcl_env ''SABCL_MODE'' = Some ''strict''" "demo_sabcl_env ''SABCL_PEERS'' = Some ''[]''" "demo_sabcl_env ''SABCL_ROUTE_SECRET'' = Some demo_key"
  "demo_sabcl_env ''SABCL_LEDGER_KEY_ID'' = Some ''ledger.v1''" "demo_sabcl_env ''SABCL_LEDGER_ENCRYPTION_PRIVATE_KEY'' = Some demo_key"
  "demo_sabcl_env ''SABCL_LEDGER_SIGNING_PRIVATE_KEY'' = Some demo_key" "demo_sabcl_env ''SABCL_ROUTER_KEY_ID'' = Some ''router.v1''"
  "demo_sabcl_env ''SABCL_ROUTER_ENCRYPTION_PRIVATE_KEY'' = Some demo_key" "demo_sabcl_env ''SABCL_ROUTER_SIGNING_PRIVATE_KEY'' = Some demo_key"
  by (simp_all add: demo_sabcl_env_def)

lemma demo_loads_ledger: "loadSabclEnvironment demo_crypto demo_sha demo_peers (party_input demo_sabcl_env ''SABCL_LEDGER'' ne) = Inr (Some (demo_started ''ledger''))"
  using demo_key_ids(2) demo_not_fixture [OF demo_names(6)]
  by (simp add: loadSabclEnvironment_def party_input_def demo_env_values resolveMode_def sabcl_required_def demo_names demo_key_reads demo_key_imports
      demo_load_peers [of "''ledger''"] loadPrivateIdentity_def demo_service_names)
    (simp add: newKeyring_def demo_started_def)

lemma demo_loads_router: "loadSabclEnvironment demo_crypto demo_sha demo_peers (party_input demo_sabcl_env ''SABCL_ROUTER'' ne) = Inr (Some (demo_started ''router''))"
  using demo_not_fixture [OF demo_names(7)]
  by (simp add: loadSabclEnvironment_def party_input_def demo_env_values resolveMode_def sabcl_required_def demo_names demo_key_reads demo_key_imports
      demo_load_peers [of "''router''"] loadPrivateIdentity_def demo_service_names)
    (simp add: newKeyring_def demo_started_def)

section \<open>Properties\<close>

text \<open>a party that comes up with SABCL is fit to talk it.  Its key identifier is well formed and names it, its peers are
  at least one and have different key identifiers, and its route secret has 32 bytes; in production it is in strict
  mode, and in strict mode neither its private keys nor its route secret contain a placeholder or are the published test
  keys of its own key identifier.\<close>

theorem sabcl_start_checked:
  assumes "loadSabclEnvironment cy sha parsePeers input = Inr (Some e)"
  shows "se_mode e \<noteq> Off \<and> (si_nodeEnvironment input = ''production'' \<longrightarrow> se_mode e = Strict)
    \<and> sabclKeyIdSchema (pv_keyId (kr_own (se_keyring e))) \<and> serviceOfKeyId (pv_keyId (kr_own (se_keyring e))) = Inr (pv_service (kr_own (se_keyring e)))
    \<and> kr_peers (se_keyring e) \<noteq> [] \<and> distinct (map pb_keyId (kr_peers (se_keyring e))) \<and> 32 \<le> length (se_routeSecret e)
    \<and> (se_mode e = Strict \<longrightarrow>
         (\<exists>ek sk rs. sabcl_required (si_encryptionPrivateKey input) = Inr ek \<and> sabcl_required (si_signingPrivateKey input) = Inr sk
            \<and> sabcl_required (si_routeSecret input) = Inr rs \<and> \<not> list_ex (mentions SABCL_PLACEHOLDERS) [ek, sk, rs]
            \<and> \<not> isFixtureMaterial cy sha (pv_keyId (kr_own (se_keyring e))) ek sk rs))"
proof (rule load_environment [OF assms])
  fix keyId ek sk rs peers own
  assume l: "resolveMode (si_mode input) = Inr (se_mode e)" "se_mode e \<noteq> Off" "se_mode e = Compatible \<longrightarrow> si_nodeEnvironment input \<noteq> ''production''"
    "sabcl_required (si_keyId input) = Inr keyId" "sabcl_required (si_encryptionPrivateKey input) = Inr ek"
    "sabcl_required (si_signingPrivateKey input) = Inr sk" "sabcl_required (si_routeSecret input) = Inr rs"
    "se_mode e = Strict \<longrightarrow> \<not> list_ex (mentions SABCL_PLACEHOLDERS) [ek, sk, rs] \<and> \<not> isFixtureMaterial cy sha keyId ek sk rs"
    "fromBase64Url rs = Inr (se_routeSecret e)" "32 \<le> length (se_routeSecret e)" "load_peers cy parsePeers (si_peers input) = Inr peers"
    "loadPrivateIdentity cy keyId ek sk None = Inr own" "newKeyring own peers = Inr (se_keyring e)"
  have own: "pv_keyId own = keyId" "sabclKeyIdSchema keyId" "serviceOfKeyId keyId = Inr (pv_service own)"
    using l(12) by (auto simp: loadPrivateIdentity_def res_simps split: if_splits)
  have ring: "kr_own (se_keyring e) = own" "kr_peers (se_keyring e) = peers" "distinct (map pb_keyId peers)"
  proof -
    obtain qs where q: "add_peers [] peers = Inr qs" "se_keyring e = \<lparr>kr_own = own, kr_peers = qs\<rparr>" using l(13) by (auto simp: newKeyring_def res_simps)
    with add_peers_all [OF q(1)] add_peers_distinct [OF q(1)]
    show "kr_own (se_keyring e) = own" "kr_peers (se_keyring e) = peers" "distinct (map pb_keyId peers)" by simp_all
  qed
  have "peers \<noteq> []" by (rule load_peers_some [OF l(11)])
  moreover have "si_nodeEnvironment input = ''production'' \<longrightarrow> se_mode e = Strict" using l(2,3) by (cases "se_mode e") auto
  ultimately show ?thesis using l own ring by simp
qed

text \<open>C32: one variable for two parties stops every call.  When SABCL_REDIS_PREFIX is set, the router and the recipients of the
  ledger and payments services keep their replay claims in the same Redis under the same keys, so the claim the router
  takes on a message before it hands it on makes the recipient refuse this very message, as long as it is not expired:
  nothing that comes through the router is ever dispatched.\<close>

theorem shared_redis_prefix_blocks_calls:
  assumes "env_trimmed penv ''SABCL_REDIS_PREFIX'' \<noteq> []"
    and "createRouterConfig cy sha parsePeers parseRoutes url_protocol penv = Inr cfg"
    and "opts = ledger_sabcl penv lc \<or> opts = payments_sabcl penv pc"
    and "createSabclRecipientRuntime cy sha parsePeers origin call penv opts = Inr (Some rt)"
    and "router_accept hash cfg net now body len st = (a, Some (dest, e), st')" and "t div 1000 \<le> ev_exp e"
  shows "rt_redisUrl opts = rc_redisUrl cfg
    \<and> (\<exists>code. sabcl_inbound cy jc (Some rt) nonce t (Some e) (rs_replay st') = (Rejected code, None, rs_replay st'))"
proof -
  have cfg: "rc_redisKeyPrefix cfg = env_trimmed penv ''SABCL_REDIS_PREFIX''" "rc_redisUrl cfg = env_or penv ''REDIS_URL'' LOCAL_REDIS"
    using assms(1,2) by (auto simp: createRouterConfig_def res_simps env_or_def Let_def split: option.splits)
  have opts: "rt_redisPrefix opts = env_trimmed penv ''SABCL_REDIS_PREFIX''" "rt_redisUrl opts = env_or penv ''REDIS_URL'' LOCAL_REDIS"
    using assms(1,3) by (auto simp: ledger_sabcl_def payments_sabcl_def env_or_def Let_def)
  have prefix: "ro_prefix (rn_recipient rt) = rt_redisPrefix opts" by (rule runtime_recipient [OF assms(4)])
  have "t < now + 1000 * (ev_exp e - now div 1000 + 1)"
  proof -
    have "t < 1000 * (t div 1000 + 1)" "1000 * (now div 1000) \<le> now" by presburger+
    moreover have "1000 * (t div 1000 + 1) \<le> 1000 * (ev_exp e + 1)" using assms(6) by simp
    ultimately show ?thesis by (simp add: algebra_simps)
  qed
  with forwarded_is_held [OF assms(5) [unfolded router_accept_def]]
  have "redis_holds (ro_prefix (rn_recipient rt)) (rs_replay st') (ev_mid e) t"
    by (simp add: prefix opts cfg router_config.truncate_def)
  with held_message_refused show ?thesis by (simp add: opts cfg sabcl_inbound_def)
qed

definition demo_start :: router_start where
  "demo_start =
     \<lparr>rc_redisKeyPrefix = ''aegis:sabcl:'', rc_rateLimitPerMinute = 600, rc_maxEnvelopeBytes = 262144, rc_keyring = se_keyring (demo_started ''router''),
      rc_routeSecret = replicate 32 CHR ''a'', rc_routes = [(demo_token_of_route, demo_route)], rc_nodeEnvironment = ''development'', rc_host = ''127.0.0.1'',
      rc_port = 4103, rc_redisUrl = LOCAL_REDIS, rc_forwardTimeoutMs = 5000, rc_mode = Strict\<rparr>"

lemma demo_start_table: "newRouteTable demo_crypto (\<lambda>_. Some ''http:'') (replicate 32 CHR ''a'') [demo_route] = Inr [(demo_token_of_route, demo_route)]"
proof -
  have "ROUTE_ID_PATTERN ''l.p''" by code_simp
  then show ?thesis by (simp add: newRouteTable_def demo_route_def assertRouteId_def deriveRouteToken_def demo_token_of_route_def demo_crypto_def)
qed

lemma demo_unset:
  "env_trimmed demo_sabcl_env ''SABCL_ROUTER_PORT'' = []" "env_trimmed demo_sabcl_env ''SABCL_FORWARD_TIMEOUT_MS'' = []"
  "env_trimmed demo_sabcl_env ''SABCL_RATE_LIMIT_PER_MINUTE'' = []" "env_trimmed demo_sabcl_env ''SABCL_MAX_ENVELOPE_BYTES'' = []"
  "env_trimmed demo_sabcl_env ''NODE_ENV'' = []" "env_trimmed demo_sabcl_env ''SABCL_ROUTER_HOST'' = []" "env_trimmed demo_sabcl_env ''REDIS_URL'' = []"
  by (simp_all add: env_trimmed_def demo_sabcl_env_def)

lemma demo_set:
  "env_trimmed demo_sabcl_env ''SABCL_REDIS_PREFIX'' = ''aegis:sabcl:''" "env_trimmed demo_sabcl_env ''SABCL_ROUTES'' = ''[]''"
proof -
  have "js_trim ''aegis:sabcl:'' = ''aegis:sabcl:''" by code_simp
  then show "env_trimmed demo_sabcl_env ''SABCL_REDIS_PREFIX'' = ''aegis:sabcl:''" by (simp add: env_trimmed_def demo_sabcl_env_def)
  show "env_trimmed demo_sabcl_env ''SABCL_ROUTES'' = ''[]''" by (simp add: env_trimmed_def demo_sabcl_env_def demo_names)
qed

lemma demo_router_starts: "createRouterConfig demo_crypto demo_sha demo_peers (\<lambda>_. Some [demo_route]) (\<lambda>_. Some ''http:'') demo_sabcl_env = Inr demo_start"
proof -
  have "loadRoutes (\<lambda>_. Some [demo_route]) (\<lambda>_. Some ''http:'') demo_sabcl_env = Inr [demo_route]"
    by (simp add: loadRoutes_def demo_set routeDefinitionSchema_def) (simp add: demo_route_def)
  moreover have "se_routeSecret (demo_started ''router'') = replicate 32 CHR ''a''" "se_mode (demo_started ''router'') = Strict" by (simp_all add: demo_started_def)
  ultimately show ?thesis
    by (simp add: createRouterConfig_def demo_loads_router onError_def config_integer_def demo_unset demo_set env_or_def demo_start_table demo_start_def)
qed

definition demo_ledger_config :: ledger_config where
  "demo_ledger_config =
     \<lparr>lc_nodeEnvironment = ''production'', lc_host = ''127.0.0.1'', lc_port = 4102, lc_databaseUrl = ''d'', lc_internalToken = ''t'', lc_defaultCurrency = ''LKR'',
      lc_idempotencyRetentionHours = 24, lc_maxPostingRetries = 3, lc_riskServiceUrl = ''r'', lc_riskLedgerSourceToken = ''s'', lc_riskTimeoutMs = 2000\<rparr>"

theorem shared_redis_prefix_blocks_calls_witness:
  "\<exists>rt e a st' code. router_accept (\<lambda>b. b) demo_start demo_net 101000 (Some e) None \<lparr>rs_replay = [], rs_rates = [], rs_audit = []\<rparr> = (a, Some (''d'', e), st')
     \<and> createSabclRecipientRuntime demo_crypto demo_sha demo_peers (\<lambda>u p. u) (\<lambda>c. None) demo_sabcl_env (ledger_sabcl demo_sabcl_env demo_ledger_config) = Inr (Some rt)
     \<and> sabcl_inbound demo_crypto demo_codec (Some rt) (replicate 12 CHR ''r'') 101500 (Some e) (rs_replay st') = (Rejected code, None, rs_replay st')"
proof -
  let ?st = "\<lparr>rs_replay = [], rs_rates = [], rs_audit = []\<rparr>" and ?cfg = "router_config.truncate demo_start" and ?opts = "ledger_sabcl demo_sabcl_env demo_ledger_config"
  have "capabilitiesForService ''ledger'' \<noteq> []" by (simp add: capabilitiesForService_def SABCL_CAPABILITIES_def)
  then obtain rt where rt: "createSabclRecipientRuntime demo_crypto demo_sha demo_peers (\<lambda>u p. u) (\<lambda>c. None) demo_sabcl_env ?opts = Inr (Some rt)"
    by (simp add: createSabclRecipientRuntime_def ledger_sabcl_def demo_loads_ledger) (simp add: demo_started_def)
  have token: "deriveRouteToken demo_crypto (replicate 32 CHR ''a'') (sr_routeId demo_route) = Inr demo_token_of_route"
    using add_routes_table [of demo_crypto "\<lambda>_. Some ''http:''" "replicate 32 CHR ''a''" "[]" "[demo_route]" "[(demo_token_of_route, demo_route)]"] demo_start_table
    by (auto simp: newRouteTable_def)
  have cfg: "rc_routes ?cfg = [(demo_token_of_route, demo_route)]" "rc_maxEnvelopeBytes ?cfg = 262144" "rc_rateLimitPerMinute ?cfg = 600"
      "keyring_peer (rc_keyring ?cfg) ''gw.v1'' 101 = Inr (hd (kr_peers (se_keyring (demo_started ''router''))))"
    by (simp_all add: router_config.truncate_def demo_start_def demo_started_def keyring_peer_def)
  have resolve: "route_resolve (rc_routes ?cfg) demo_token_of_route = Inr demo_route"
    using derived_token_resolves [OF demo_crypto_correct demo_start_table _ _ token] by (simp add: demo_parties cfg)
  obtain e where e: "sealRequest demo_crypto demo_fresh (demo_own ''gw'') (demo_public ''ledger'') demo_token_of_route ''{}'' (Some 30) (Some 2) 100 = Inr (e, ''secret'')"
      "ev_exp e = 130" "ev_rt e = demo_token_of_route"
    by (rule demo_sealed [OF route_token_base64 [OF demo_crypto_correct token]])
  note f = sealRequest_fields [OF e(1)]
  have admit: "router_admit ?cfg 101000 e = Inr ()"
    using f e(2) by (simp add: router_admit_def SABCL_CLOCK_SKEW_SECONDS_def SABCL_MAX_TTL_SECONDS_def demo_parties cfg)
  have "fst (snd (router_route (\<lambda>b. b) ?cfg demo_net 101000 (Some e) 0 ?st)) = Some (sr_destination demo_route, e)"
    by (rule router_forwards(2) [OF f(10) _ admit])
      (use resolve e(3) in \<open>simp_all add: cfg incrementRate_def rincr_def redis_holds_def rlive_def\<close>)
  then obtain a st' where run: "router_accept (\<lambda>b. b) demo_start demo_net 101000 (Some e) None ?st = (a, Some (''d'', e), st')"
    by (cases "router_route (\<lambda>b. b) ?cfg demo_net 101000 (Some e) 0 ?st") (auto simp: demo_route_def router_accept_def declared_length_def)
  have "env_trimmed demo_sabcl_env ''SABCL_REDIS_PREFIX'' \<noteq> []" "(101500 :: int) div 1000 \<le> ev_exp e" by (simp_all add: demo_set e(2))
  from shared_redis_prefix_blocks_calls [OF this(1) demo_router_starts disjI1 [OF refl] rt run this(2)] run rt show ?thesis by blast
qed

end
