(* ===== verification/GatewayHttp.thy ===== *)
theory GatewayHttp
  imports SabclSetup "HOL-Library.Sublist"
begin

text \<open>
  The HTTP layer of the API gateway (\<open>apps/api-gateway/src\<close>): errors and what the browser sees of them
  (\<open>common/http/gateway-exception.filter.ts\<close>), the rate limit of the authentication routes
  (\<open>rate-limit-buckets.ts\<close>, \<open>auth-rate-limit.middleware.ts\<close>), session cookies (\<open>auth/cookies.ts\<close>) and the double-submit
  token (\<open>csrf.ts\<close>).  Text is its UTF-8 bytes.
\<close>

section \<open>Errors\<close>

text \<open>The \<open>error\<close> member of a body: its code and message, where they are strings.\<close>

record error_body =
  eb_code :: "string option"
  eb_message :: "string option"

datatype gw_error = HttpException int "error_body option" | OtherError

definition coded :: "int \<Rightarrow> string \<Rightarrow> string \<Rightarrow> gw_error" where
  "coded status code message = HttpException status (Some \<lparr>eb_code = Some code, eb_message = Some message\<rparr>)"

definition bare :: "int \<Rightarrow> string \<Rightarrow> gw_error" where
  "bare status code = HttpException status (Some \<lparr>eb_code = Some code, eb_message = None\<rparr>)"

definition gateway_exception_filter :: "gw_error \<Rightarrow> int \<times> string \<times> string" where
  "gateway_exception_filter e =
     (let status = (case e of HttpException s _ \<Rightarrow> s | OtherError \<Rightarrow> 500);
          upstream = (case e of HttpException _ b \<Rightarrow> b | OtherError \<Rightarrow> None);
          message = (if 500 \<le> status
            then if status = 503 then ''Authentication is temporarily unavailable.'' else ''The request could not be completed.''
            else case Option.bind upstream eb_message of Some m \<Rightarrow> m | None \<Rightarrow> ''The request is invalid.'');
          code = (case Option.bind upstream eb_code of
             Some c \<Rightarrow> c
           | None \<Rightarrow> if status = 503 then ''IDENTITY_UNAVAILABLE'' else if status = 401 then ''UNAUTHENTICATED'' else ''INVALID_REQUEST'')
      in (status, code, message))"

section \<open>Rate limit\<close>

definition RATE_LIMIT_WINDOW_MS :: int where "RATE_LIMIT_WINDOW_MS = 60000"
definition DEFAULT_LIMIT :: nat where "DEFAULT_LIMIT = 120"
definition UNKNOWN_AUTH_LIMIT :: nat where "UNKNOWN_AUTH_LIMIT = 20"
definition UNKNOWN_SEGMENT_BUCKET :: string where "UNKNOWN_SEGMENT_BUCKET = ''unclassified''"
definition UNKNOWN_SEGMENT_LIMIT :: nat where "UNKNOWN_SEGMENT_LIMIT = 20"

definition AUTH_FAMILIES :: "(string \<times> nat) list" where
  "AUTH_FAMILIES = [(''session'', 120), (''onboarding'', 60), (''fallback'', 40), (''passkeys'', 60), (''logout'', 60)]"

definition KNOWN_SEGMENTS :: "string list" where
  "KNOWN_SEGMENTS = [''auth'', ''accounts'', ''transfers'', ''channels'', ''security-ops'', ''sabcl'']"

record rate_bucket =
  rb_name :: string
  rb_limit :: nat

definition classifyRateLimitBucket :: "string \<Rightarrow> rate_bucket" where
  "classifyRateLimitBucket path =
     (let segments = filter (\<lambda>s. s \<noteq> []) (split_on CHR ''/'' path) in
      if length segments < 3 \<or> segments ! 2 \<notin> set KNOWN_SEGMENTS then \<lparr>rb_name = UNKNOWN_SEGMENT_BUCKET, rb_limit = UNKNOWN_SEGMENT_LIMIT\<rparr>
      else if segments ! 2 \<noteq> ''auth'' then \<lparr>rb_name = segments ! 2, rb_limit = DEFAULT_LIMIT\<rparr>
      else case (if length segments < 4 then None else map_of AUTH_FAMILIES (segments ! 3)) of
             Some limit \<Rightarrow> \<lparr>rb_name = ''auth:'' @ segments ! 3, rb_limit = limit\<rparr>
           | None \<Rightarrow> \<lparr>rb_name = ''auth:unclassified'', rb_limit = UNKNOWN_AUTH_LIMIT\<rparr>)"

record rate_window =
  rw_count :: nat
  rw_expiresAt :: time

text \<open>A JavaScript map keeps the order of first insertion.\<close>

type_synonym rate_windows = "(string \<times> rate_window) list"

definition map_put :: "'k \<Rightarrow> 'v \<Rightarrow> ('k \<times> 'v) list \<Rightarrow> ('k \<times> 'v) list" where
  "map_put k v m = (if k \<in> fst ` set m then map (\<lambda>(k', v'). if k' = k then (k, v) else (k', v')) m else m @ [(k, v)])"

definition maximumEntries :: nat where
  "maximumEntries = 10000"

fun sweep :: "time \<Rightarrow> rate_windows \<Rightarrow> rate_windows \<Rightarrow> rate_windows" where
  "sweep now kept [] = kept"
| "sweep now kept (x # xs) =
     (if rw_expiresAt (snd x) \<le> now \<or> length kept + length (x # xs) > maximumEntries then sweep now kept xs
      else sweep now (kept @ [x]) xs)"

record rate_request =
  rq_now :: time
  rq_ip :: string
  rq_originalUrl :: string

definition rate_target :: "rate_request \<Rightarrow> string" where
  "rate_target r = takeWhile (\<lambda>c. c \<noteq> CHR ''?'') (rq_originalUrl r)"

definition rate_key :: "rate_request \<Rightarrow> string" where
  "rate_key r = (if rq_ip r = [] then ''unknown'' else rq_ip r) @ '':'' @ rb_name (classifyRateLimitBucket (rate_target r))"

definition opened_window :: "rate_request \<Rightarrow> rate_windows \<Rightarrow> rate_window" where
  "opened_window r windows =
     (case map_of windows (rate_key r) of
        Some current \<Rightarrow> if rw_expiresAt current > rq_now r then current else \<lparr>rw_count = 0, rw_expiresAt = rq_now r + RATE_LIMIT_WINDOW_MS\<rparr>
      | None \<Rightarrow> \<lparr>rw_count = 0, rw_expiresAt = rq_now r + RATE_LIMIT_WINDOW_MS\<rparr>)"

text \<open>Whether the request goes on, and what the \<open>ratelimit-remaining\<close> header says.\<close>

definition rate_limit_use :: "rate_request \<Rightarrow> rate_windows \<Rightarrow> bool \<times> nat \<times> rate_windows" where
  "rate_limit_use r windows =
     (let limit = rb_limit (classifyRateLimitBucket (rate_target r));
          window = (opened_window r windows)\<lparr>rw_count := rw_count (opened_window r windows) + 1\<rparr>;
          windows1 = map_put (rate_key r) window windows;
          windows2 = (if length windows1 > maximumEntries then sweep (rq_now r) [] windows1 else windows1)
      in (rw_count window \<le> limit, limit - rw_count window, windows2))"

fun rate_run :: "rate_request list \<Rightarrow> rate_windows \<Rightarrow> (rate_request \<times> bool) list" where
  "rate_run [] ws = []"
| "rate_run (r # rs) ws = (case rate_limit_use r ws of (ok, _, ws') \<Rightarrow> (r, ok) # rate_run rs ws')"

definition passed :: "string \<Rightarrow> (rate_request \<times> bool) list \<Rightarrow> nat" where
  "passed key log = length (filter (\<lambda>(r, ok). ok \<and> rate_key r = key) log)"

section \<open>Cookies\<close>

definition uri_unreserved :: "char \<Rightarrow> bool" where
  "uri_unreserved c = (is_alnum c \<or> c \<in> set ''-_.!~*'' \<or> c = CHR 0x27 \<or> c = CHR 0x28 \<or> c = CHR 0x29)"

definition hex_upper :: "nat \<Rightarrow> char" where
  "hex_upper n = (if n < 10 then digit_char n else char_of (55 + n))"

fun encodeURIComponent :: "string \<Rightarrow> string" where
  "encodeURIComponent [] = []"
| "encodeURIComponent (c # cs) =
     (if uri_unreserved c then [c] else [CHR ''%'', hex_upper (of_char c div 16), hex_upper (of_char c mod 16)]) @ encodeURIComponent cs"

definition decodeURIComponent :: "string \<Rightarrow> (gw_error, string) res" where
  "decodeURIComponent s = (case percent_decode s of Some t \<Rightarrow> if utf8_ok t then Inr t else Inl OtherError | None \<Rightarrow> Inl OtherError)"

definition serializeCookie :: "string \<Rightarrow> string \<Rightarrow> bool \<Rightarrow> bool \<Rightarrow> int \<Rightarrow> string" where
  "serializeCookie name value httpOnly secure maxAgeSeconds =
     join_with ''; ''
       ([encodeURIComponent name @ ''='' @ encodeURIComponent value, ''Path=/'', ''Max-Age='' @ dec_of_int (max 0 maxAgeSeconds), ''SameSite=Lax'']
        @ (if httpOnly then [''HttpOnly''] else []) @ (if secure then [''Secure''] else []))"

record internal_session =
  is_sessionId :: string
  is_csrfToken :: string
  is_maxAgeSeconds :: int
  is_session :: string

definition setSessionCookies :: "gateway_config \<Rightarrow> internal_session \<Rightarrow> string list" where
  "setSessionCookies cfg s =
     (let secure = (gc_nodeEnvironment cfg = ''production'') in
      [serializeCookie (gc_sessionCookieName cfg) (is_sessionId s) True secure (is_maxAgeSeconds s),
       serializeCookie (gc_csrfCookieName cfg) (is_csrfToken s) False secure (is_maxAgeSeconds s)])"

definition clearSessionCookies :: "gateway_config \<Rightarrow> string list" where
  "clearSessionCookies cfg =
     (let secure = (gc_nodeEnvironment cfg = ''production'') in
      [serializeCookie (gc_sessionCookieName cfg) [] True secure 0, serializeCookie (gc_csrfCookieName cfg) [] False secure 0])"

fun read_pairs :: "string \<Rightarrow> string list \<Rightarrow> (gw_error, string) res" where
  "read_pairs name [] = Inr []"
| "read_pairs name (pair # pairs) =
     (if CHR ''='' \<notin> set pair then read_pairs name pairs
      else andThen (decodeURIComponent (js_trim (takeWhile (\<lambda>c. c \<noteq> CHR ''='') pair))) (\<lambda>candidateName.
        if candidateName = name then decodeURIComponent (js_trim (drop 1 (dropWhile (\<lambda>c. c \<noteq> CHR ''='') pair)))
        else read_pairs name pairs))"

definition readCookie :: "string option \<Rightarrow> string \<Rightarrow> (gw_error, string) res" where
  "readCookie requestCookie name =
     (case requestCookie of
        None \<Rightarrow> Inr []
      | Some s \<Rightarrow> if s = [] then Inr [] else read_pairs name (split_on CHR '';'' s))"

definition requireCsrfToken :: "string option \<Rightarrow> string \<Rightarrow> string option \<Rightarrow> (gw_error, string) res" where
  "requireCsrfToken cookieHeader csrfCookieName suppliedHeader =
     andThen (readCookie cookieHeader csrfCookieName) (\<lambda>cookieValue.
       let supplied = (case suppliedHeader of None \<Rightarrow> [] | Some s \<Rightarrow> js_trim s) in
       if cookieValue = [] \<or> length cookieValue \<noteq> length supplied \<or> cookieValue \<noteq> supplied
       then Inl (coded 403 ''INVALID_CSRF'' ''The CSRF token is invalid.'')
       else Inr supplied)"

section \<open>What the rate limit bounds\<close>

lemma map_of_map_put: "map_of (map_put k v m) k' = (if k' = k then Some v else map_of m k')"
proof (cases "k \<in> fst ` set m")
  case True
  then obtain x where x: "map_of m k = Some x" by (metis map_of_eq_None_iff not_None_eq)
  have "k' \<noteq> k \<Longrightarrow> map_of (map (\<lambda>(a, b). if a = k then (k, v) else (a, b)) m) k' = map_of m k'" by (induction m) auto
  moreover have "map_of (map (\<lambda>(a, b). if a = k then (k, v) else (a, b)) m) k = Some v" using x by (induction m) (auto split: if_splits)
  ultimately have "map_of (map (\<lambda>(a, b). if a = k then (k, v) else (a, b)) m) k' = (if k' = k then Some v else map_of m k')" by simp
  then show ?thesis using True by (simp add: map_put_def)
next
  case False
  then have "map_of m k = None" by (simp add: map_of_eq_None_iff)
  then show ?thesis using False by (auto simp: map_put_def map_add_def split: option.splits)
qed

lemma length_map_put: "length (map_put k v m) \<le> Suc (length m)"
  by (simp add: map_put_def)

lemma map_fst_put: "map fst (map_put k v m) = (if k \<in> set (map fst m) then map fst m else map fst m @ [k])"
proof -
  have "map fst (map (\<lambda>(a, b). if a = k then (k, v) else (a, b)) m) = map fst m" by (induction m) auto
  then show ?thesis by (simp add: map_put_def)
qed

lemma keys_map_put: "fst ` set (map_put k v m) = insert k (fst ` set m)"
proof -
  have "set (map fst (map_put k v m)) = insert k (set (map fst m))" unfolding map_fst_put by auto
  then show ?thesis by simp
qed

lemma distinct_map_put: "distinct (map fst m) \<Longrightarrow> distinct (map fst (map_put k v m))"
  unfolding map_fst_put by simp

text \<open>How many more requests of a key can pass between \<open>a\<close> and \<open>horizon\<close>.\<close>

definition rate_budget :: "time \<Rightarrow> time \<Rightarrow> nat \<Rightarrow> rate_window option \<Rightarrow> nat" where
  "rate_budget a horizon limit w =
     (case w of None \<Rightarrow> limit
      | Some w \<Rightarrow> if rw_expiresAt w \<le> a then limit else (limit - rw_count w) + (if rw_expiresAt w < horizon then limit else 0))"

lemma rate_use_small:
  assumes "distinct (map fst ws)" and "card (insert (rate_key r) (fst ` set ws)) \<le> maximumEntries"
  shows "rate_limit_use r ws =
    (let w = (opened_window r ws)\<lparr>rw_count := rw_count (opened_window r ws) + 1\<rparr>; limit = rb_limit (classifyRateLimitBucket (rate_target r))
     in (rw_count w \<le> limit, limit - rw_count w, map_put (rate_key r) w ws))"
proof -
  have "\<not> maximumEntries < length (map_put (rate_key r) w ws)" for w
    using assms distinct_card [OF distinct_map_put [OF assms(1)], of "rate_key r" w] by (simp add: keys_map_put)
  then show ?thesis by (simp add: rate_limit_use_def Let_def)
qed

lemma rate_step:
  assumes small: "distinct (map fst ws)" "card (insert (rate_key r) (fst ` set ws)) \<le> maximumEntries"
    and t: "a \<le> rq_now r" "rq_now r < a + RATE_LIMIT_WINDOW_MS"
    and limit: "rate_key r = key \<Longrightarrow> rb_limit (classifyRateLimitBucket (rate_target r)) = limit"
    and use: "rate_limit_use r ws = (ok, remaining, ws')"
  shows "(if ok \<and> rate_key r = key then 1 else 0) + rate_budget a (a + RATE_LIMIT_WINDOW_MS) limit (map_of ws' key)
    \<le> rate_budget a (a + RATE_LIMIT_WINDOW_MS) limit (map_of ws key)"
proof (cases "rate_key r = key")
  case True
  with limit have l: "rb_limit (classifyRateLimitBucket (rate_target r)) = limit" by simp
  show ?thesis
    using use t True unfolding rate_use_small [OF small] Let_def l
    by (cases "map_of ws key") (auto simp: map_of_map_put rate_budget_def opened_window_def)
next
  case False
  then show ?thesis using use by (auto simp: rate_use_small [OF small] Let_def map_of_map_put)
qed

lemma rate_run_budget:
  assumes "distinct (map fst ws)" "card (fst ` set ws \<union> rate_key ` set rs) \<le> maximumEntries"
    and "\<And>r. r \<in> set rs \<Longrightarrow> a \<le> rq_now r \<and> rq_now r < a + RATE_LIMIT_WINDOW_MS"
    and "\<And>r. r \<in> set rs \<Longrightarrow> rate_key r = key \<Longrightarrow> rb_limit (classifyRateLimitBucket (rate_target r)) = limit"
  shows "passed key (rate_run rs ws) \<le> rate_budget a (a + RATE_LIMIT_WINDOW_MS) limit (map_of ws key)"
  using assms
proof (induction rs arbitrary: ws)
  case Nil
  then show ?case by (simp add: passed_def)
next
  case (Cons r rs)
  obtain ok rem ws' where u: "rate_limit_use r ws = (ok, rem, ws')" by (metis prod.exhaust)
  have "card (insert (rate_key r) (fst ` set ws)) \<le> card (fst ` set ws \<union> rate_key ` set (r # rs))" by (rule card_mono) auto
  with Cons.prems(2) have small: "card (insert (rate_key r) (fst ` set ws)) \<le> maximumEntries" by simp
  note use = rate_use_small [OF Cons.prems(1) small]
  obtain w where "ws' = map_put (rate_key r) w ws" using u by (auto simp: use Let_def)
  then have ws': "distinct (map fst ws')" "fst ` set ws' = insert (rate_key r) (fst ` set ws)"
    using Cons.prems(1) by (simp_all only: distinct_map_put keys_map_put)
  have "passed key (rate_run rs ws') \<le> rate_budget a (a + RATE_LIMIT_WINDOW_MS) limit (map_of ws' key)"
    using Cons.prems ws' by (intro Cons.IH) auto
  moreover have "(if ok \<and> rate_key r = key then 1 else 0) + rate_budget a (a + RATE_LIMIT_WINDOW_MS) limit (map_of ws' key)
      \<le> rate_budget a (a + RATE_LIMIT_WINDOW_MS) limit (map_of ws key)"
    by (rule rate_step [OF Cons.prems(1) small _ _ _ u]) (use Cons.prems in auto)
  ultimately show ?case by (auto simp: u passed_def split: if_splits)
qed

definition BUCKETS :: "(string \<times> nat) list" where
  "BUCKETS = (UNKNOWN_SEGMENT_BUCKET, UNKNOWN_SEGMENT_LIMIT) # (''auth:unclassified'', UNKNOWN_AUTH_LIMIT)
     # map (\<lambda>s. (s, DEFAULT_LIMIT)) (filter (\<lambda>s. s \<noteq> ''auth'') KNOWN_SEGMENTS) @ map (\<lambda>(f, l). (''auth:'' @ f, l)) AUTH_FAMILIES"

lemma bucket_listed: "(rb_name (classifyRateLimitBucket p), rb_limit (classifyRateLimitBucket p)) \<in> set BUCKETS"
  by (auto simp: classifyRateLimitBucket_def Let_def BUCKETS_def dest: map_of_SomeD split: option.splits if_splits)

text \<open>An address ends in a bucket name only where both buckets have the same limit.\<close>

lemma bucket_suffix: "list_all (\<lambda>(n, l). list_all (\<lambda>(n', l'). suffix n n' \<longrightarrow> l = l') BUCKETS) BUCKETS"
  by code_simp

lemma key_limit:
  assumes "rate_key r = rate_key r'"
  shows "rb_limit (classifyRateLimitBucket (rate_target r)) = rb_limit (classifyRateLimitBucket (rate_target r'))"
proof -
  let ?n = "\<lambda>r. rb_name (classifyRateLimitBucket (rate_target r))"
  have "suffix (?n q) (rate_key q)" for q by (rule suffixI [of _ "(if rq_ip q = [] then ''unknown'' else rq_ip q) @ '':''"]) (simp add: rate_key_def)
  from this [of r] this [of r'] have "suffix (?n r) (rate_key r)" "suffix (?n r') (rate_key r)" by (simp_all add: assms)
  then have "suffix (?n r) (?n r') \<or> suffix (?n r') (?n r)" by (rule suffix_same_cases)
  moreover have "suffix n n' \<Longrightarrow> l = l'" if "(n, l) \<in> set BUCKETS" "(n', l') \<in> set BUCKETS" for n l n' l'
    using bucket_suffix that by (fastforce simp: list_all_iff)
  ultimately show ?thesis using bucket_listed by metis
qed

section \<open>Cookies survive the browser\<close>

lemma hex_upper_digit: "n < 16 \<Longrightarrow> radix_digit 16 (hex_upper n) = Some n"
proof -
  have "list_all (\<lambda>n. radix_digit 16 (hex_upper n) = Some n) [0..<16]" by code_simp
  then show "n < 16 \<Longrightarrow> radix_digit 16 (hex_upper n) = Some n" by (simp add: list_all_iff)
qed

lemma nibbles: "(of_char c :: nat) div 16 < 16" "(of_char c :: nat) mod 16 < 16"
proof -
  have "(of_char c :: nat) < 16 * 16" by simp
  then show "(of_char c :: nat) div 16 < 16" by (rule less_mult_imp_div_less)
qed simp

lemma percent_decode_encode [simp]: "percent_decode (encodeURIComponent s) = Some s"
proof (induction s)
  case (Cons c s)
  note nibbles [of c]
  moreover have "\<not> uri_unreserved CHR ''%''" by code_simp
  ultimately show ?case using Cons by (auto simp: hex_upper_digit)
qed simp

lemma encoded_chars: "c \<in> set (encodeURIComponent s) \<Longrightarrow> uri_unreserved c \<or> c = CHR ''%''"
proof (induction s)
  case (Cons d s)
  have "list_all (\<lambda>n. uri_unreserved (hex_upper n)) [0..<16]" by code_simp
  then have "n < 16 \<Longrightarrow> uri_unreserved (hex_upper n)" for n by (simp add: list_all_iff)
  moreover note nibbles [of d]
  ultimately show ?case using Cons by (auto split: if_splits)
qed simp

lemma encoded_no_special:
  "CHR '';'' \<notin> set (encodeURIComponent s)" "CHR ''='' \<notin> set (encodeURIComponent s)" "c \<in> set (encodeURIComponent s) \<Longrightarrow> \<not> is_js_space c"
proof -
  have "\<not> uri_unreserved CHR '';''" "\<not> uri_unreserved CHR ''=''" "\<not> is_js_space CHR ''%''" by code_simp+
  moreover have "\<not> uri_unreserved c" if "is_js_space c"
    using that by (auto simp: is_js_space_def uri_unreserved_def is_alnum_def is_digit_def is_upper_def is_lower_def)
  ultimately show "CHR '';'' \<notin> set (encodeURIComponent s)" "CHR ''='' \<notin> set (encodeURIComponent s)"
    "c \<in> set (encodeURIComponent s) \<Longrightarrow> \<not> is_js_space c"
    using encoded_chars by (blast dest: encoded_chars)+
qed

lemma trim_encoded: "js_trim (encodeURIComponent s) = encodeURIComponent s" "js_trim (CHR '' '' # x) = js_trim x"
proof -
  have d: "dropWhile is_js_space xs = xs" if "\<And>c. c \<in> set xs \<Longrightarrow> \<not> is_js_space c" for xs using that by (cases xs) auto
  have "dropWhile is_js_space (encodeURIComponent s) = encodeURIComponent s" "dropWhile is_js_space (rev (encodeURIComponent s)) = rev (encodeURIComponent s)"
    by (rule d, use encoded_no_special(3) in auto)+
  then show "js_trim (encodeURIComponent s) = encodeURIComponent s" by (simp add: js_trim_def)
  show "js_trim (CHR '' '' # x) = js_trim x" by (simp add: js_trim_def is_js_space_def)
qed

text \<open>What a browser sends back of the cookies it was given: their pairs, without the attributes.\<close>

definition cookie_pair :: "string \<times> string \<Rightarrow> string" where
  "cookie_pair p = encodeURIComponent (fst p) @ ''='' @ encodeURIComponent (snd p)"

definition browser_cookies :: "string list \<Rightarrow> string" where
  "browser_cookies headers = join_with ''; '' (map (takeWhile (\<lambda>c. c \<noteq> CHR '';'')) headers)"

lemma serialized_pair: "takeWhile (\<lambda>c. c \<noteq> CHR '';'') (serializeCookie n v h s a) = cookie_pair (n, v)"
proof -
  obtain rest where r: "serializeCookie n v h s a = cookie_pair (n, v) @ CHR '';'' # rest"
    by (auto simp: serializeCookie_def cookie_pair_def)
  have "\<forall>c \<in> set (cookie_pair (n, v)). c \<noteq> CHR '';''" using encoded_no_special(1) by (auto simp: cookie_pair_def)
  then show ?thesis unfolding r by (simp add: takeWhile_append2)
qed

lemma read_pair:
  assumes "utf8_ok (fst p)" "utf8_ok (snd p)"
  shows "read_pairs name (cookie_pair p # rest) = (if fst p = name then Inr (snd p) else read_pairs name rest)"
    and "read_pairs name ((CHR '' '' # cookie_pair p) # rest) = (if fst p = name then Inr (snd p) else read_pairs name rest)"
proof -
  have "\<forall>c \<in> set (encodeURIComponent (fst p)). c \<noteq> CHR ''=''" using encoded_no_special(2) by auto
  then have t: "takeWhile (\<lambda>c. c \<noteq> CHR ''='') (cookie_pair p) = encodeURIComponent (fst p)"
      "dropWhile (\<lambda>c. c \<noteq> CHR ''='') (cookie_pair p) = CHR ''='' # encodeURIComponent (snd p)" "CHR ''='' \<in> set (cookie_pair p)"
    by (simp_all add: cookie_pair_def takeWhile_append2 dropWhile_append2)
  have "decodeURIComponent (encodeURIComponent s) = Inr s" if "utf8_ok s" for s using that by (simp add: decodeURIComponent_def)
  with assms t show "read_pairs name (cookie_pair p # rest) = (if fst p = name then Inr (snd p) else read_pairs name rest)"
      "read_pairs name ((CHR '' '' # cookie_pair p) # rest) = (if fst p = name then Inr (snd p) else read_pairs name rest)"
    by (simp_all add: trim_encoded)
qed

lemma split_space: "split_on CHR '';'' (CHR '' '' # s) = (CHR '' '' # hd (split_on CHR '';'' s)) # tl (split_on CHR '';'' s)"
  by (cases "split_on CHR '';'' s") simp_all

lemma read_all_pairs:
  assumes "list_all (\<lambda>p. utf8_ok (fst p) \<and> utf8_ok (snd p)) (p # ps)"
  shows "read_pairs name (split_on CHR '';'' (join_with ''; '' (map cookie_pair (p # ps)))) = Inr (case map_of (p # ps) name of None \<Rightarrow> [] | Some v \<Rightarrow> v)
    \<and> read_pairs name (split_on CHR '';'' (CHR '' '' # join_with ''; '' (map cookie_pair (p # ps)))) = Inr (case map_of (p # ps) name of None \<Rightarrow> [] | Some v \<Rightarrow> v)"
  using assms
proof (induction ps arbitrary: p)
  case Nil
  have "CHR '';'' \<notin> set (cookie_pair p)" using encoded_no_special(1) by (auto simp: cookie_pair_def)
  with Nil show ?case by (simp add: split_space split_on_no_sep read_pair del: read_pairs.simps(2))
next
  case (Cons q ps)
  have "CHR '';'' \<notin> set (cookie_pair p)" using encoded_no_special(1) by (auto simp: cookie_pair_def)
  then have "split_on CHR '';'' (join_with ''; '' (map cookie_pair (p # q # ps))) = cookie_pair p # split_on CHR '';'' (CHR '' '' # join_with ''; '' (map cookie_pair (q # ps)))"
    using split_on_append [of "CHR '';''" "cookie_pair p"] by simp
  with Cons.IH [of q] Cons.prems show ?case by (simp add: split_space read_pair del: read_pairs.simps(2))
qed

section \<open>Properties\<close>

text \<open>C33: an address cannot pass more requests to a group of routes than the group's limit in a window.  In any minute, however
  many requests of however many addresses and routes come in and however they are mixed, at most twice the limit of a
  bucket pass from one address, and at most the limit when it has no window that is still open at the start, as long as
  the windows kept at the start and those of the requests belong to no more than 10000 pairs of address and bucket; with
  more of them the oldest windows are dropped before their time.\<close>

theorem rate_limit_bounds_requests:
  assumes "distinct (map fst ws)" and "card (fst ` set ws \<union> rate_key ` set rs) \<le> 10000"
    and "\<And>r. r \<in> set rs \<Longrightarrow> a \<le> rq_now r \<and> rq_now r < a + 60000"
  shows "passed (rate_key r) (rate_run rs ws) \<le> 2 * rb_limit (classifyRateLimitBucket (rate_target r))
    \<and> ((case map_of ws (rate_key r) of None \<Rightarrow> True | Some w \<Rightarrow> rw_expiresAt w \<le> a) \<longrightarrow>
         passed (rate_key r) (rate_run rs ws) \<le> rb_limit (classifyRateLimitBucket (rate_target r)))
    \<and> rb_limit (classifyRateLimitBucket (rate_target r)) \<le> 120"
proof -
  let ?l = "rb_limit (classifyRateLimitBucket (rate_target r))"
  have "passed (rate_key r) (rate_run rs ws) \<le> rate_budget a (a + RATE_LIMIT_WINDOW_MS) ?l (map_of ws (rate_key r))"
  proof (rule rate_run_budget [OF assms(1)])
    show "card (fst ` set ws \<union> rate_key ` set rs) \<le> maximumEntries" using assms(2) by (simp add: maximumEntries_def)
    show "a \<le> rq_now q \<and> rq_now q < a + RATE_LIMIT_WINDOW_MS" if "q \<in> set rs" for q using assms(3) that by (simp add: RATE_LIMIT_WINDOW_MS_def)
    show "rb_limit (classifyRateLimitBucket (rate_target q)) = ?l" if "rate_key q = rate_key r" for q using that by (rule key_limit)
  qed
  moreover have "rate_budget a (a + RATE_LIMIT_WINDOW_MS) ?l w \<le> 2 * ?l" for w by (auto simp: rate_budget_def split: option.splits)
  moreover have "list_all (\<lambda>(n, l). l \<le> 120) BUCKETS" by code_simp
  then have "?l \<le> 120" using bucket_listed [of "rate_target r"] by (fastforce simp: list_all_iff)
  ultimately show ?thesis by (auto simp: rate_budget_def intro: order_trans split: option.splits if_splits)
qed

definition demo_login :: "time \<Rightarrow> rate_request" where
  "demo_login now = \<lparr>rq_now = now, rq_ip = ''10.0.0.7'', rq_originalUrl = ''/api/v1/auth/fallback/login?x=1''\<rparr>"

theorem rate_limit_bounds_requests_witness:
  "passed (rate_key (demo_login 0)) (rate_run (replicate 20000 (demo_login 7)) []) \<le> 40 \<and> rate_key (demo_login 0) = ''10.0.0.7:auth:fallback''"
proof -
  have "rb_limit (classifyRateLimitBucket (rate_target (demo_login 0))) = 40" "rate_key (demo_login 0) = ''10.0.0.7:auth:fallback''" by code_simp+
  moreover have "0 \<le> rq_now r \<and> rq_now r < 0 + 60000" if "r \<in> set (replicate 20000 (demo_login 7))" for r using that by (auto simp: demo_login_def)
  moreover have "card (rate_key ` set (replicate 20000 (demo_login 7))) \<le> card {rate_key (demo_login 7)}" by (rule card_mono) auto
  ultimately show ?thesis using rate_limit_bounds_requests [of "[]" "replicate 20000 (demo_login 7)" 0 "demo_login 0"] by simp
qed

text \<open>C34: the cookies of a login work.  When the browser sends back the cookies it was given, among them the two of a login, the
  gateway reads the session identifier that was set and accepts the token of the other cookie in the request header,
  whatever bytes the values contain; after a logout it reads no session.\<close>

theorem login_cookies_roundtrip:
  assumes "list_all (\<lambda>p. utf8_ok (fst p) \<and> utf8_ok (snd p)) others" "utf8_ok (is_sessionId s)" "utf8_ok (is_csrfToken s)"
    and "utf8_ok (gc_sessionCookieName cfg)" "utf8_ok (gc_csrfCookieName cfg)" "gc_sessionCookieName cfg \<noteq> gc_csrfCookieName cfg"
    and "gc_sessionCookieName cfg \<notin> fst ` set others" "gc_csrfCookieName cfg \<notin> fst ` set others"
    and "is_csrfToken s \<noteq> []" "js_trim (is_csrfToken s) = is_csrfToken s"
  shows "let jar = (\<lambda>cookies. Some (browser_cookies (map (\<lambda>p. serializeCookie (fst p) (snd p) False False 60) others @ cookies))) in
    readCookie (jar (setSessionCookies cfg s)) (gc_sessionCookieName cfg) = Inr (is_sessionId s)
    \<and> requireCsrfToken (jar (setSessionCookies cfg s)) (gc_csrfCookieName cfg) (Some (is_csrfToken s)) = Inr (is_csrfToken s)
    \<and> readCookie (jar (clearSessionCookies cfg)) (gc_sessionCookieName cfg) = Inr []"
proof -
  let ?jar = "\<lambda>v w. others @ [(gc_sessionCookieName cfg, v), (gc_csrfCookieName cfg, w)]"
  have read: "readCookie (Some (join_with ''; '' (map cookie_pair (?jar v w)))) n = Inr (case map_of (?jar v w) n of None \<Rightarrow> [] | Some x \<Rightarrow> x)"
    if "utf8_ok v" "utf8_ok w" for v w n
  proof -
    obtain p ps where ps: "?jar v w = p # ps" by (cases others) auto
    have ok: "list_all (\<lambda>p. utf8_ok (fst p) \<and> utf8_ok (snd p)) (p # ps)" using assms(1,4,5) that by (simp add: ps [symmetric])
    have "join_with ''; '' (map cookie_pair (p # ps)) \<noteq> []" by (cases ps) (simp_all add: cookie_pair_def)
    then show ?thesis unfolding ps using read_all_pairs [OF ok] by (simp add: readCookie_def)
  qed
  have none: "map_of others (gc_sessionCookieName cfg) = None" "map_of others (gc_csrfCookieName cfg) = None"
    using assms(7,8) by (simp_all add: map_of_eq_None_iff)
  have jar: "browser_cookies (map (\<lambda>p. serializeCookie (fst p) (snd p) False False 60) others @ [serializeCookie n v h q a, serializeCookie n' v' h' q' a'])
      = join_with ''; '' (map cookie_pair (others @ [(n, v), (n', v')]))" for n v h q a n' v' h' q' a'
    by (simp add: browser_cookies_def serialized_pair comp_def)
  have empty: "utf8_ok []" by simp
  show ?thesis unfolding setSessionCookies_def clearSessionCookies_def Let_def jar requireCsrfToken_def
    using assms(6,9,10) none by (simp add: read [OF assms(2,3)] read [OF empty empty] map_add_def del: utf8_ok.simps map_append)
qed

definition demo_gateway :: gateway_config where
  "demo_gateway =
     \<lparr>gc_nodeEnvironment = ''production'', gc_identityServiceUrl = ''http://i'', gc_identityInternalToken = ''it'', gc_ledgerServiceUrl = ''http://l'',
      gc_ledgerInternalToken = ''lt'', gc_paymentsServiceUrl = ''http://p'', gc_paymentsInternalToken = ''pt'', gc_riskServiceUrl = ''http://r'',
      gc_riskInternalToken = ''rt'', gc_riskGatewaySourceToken = ''gs'', gc_sessionCookieName = ''aegis_session'', gc_csrfCookieName = ''aegis_csrf'',
      gc_operatorSessionCookieName = ''aegis_operator_session'', gc_operatorCsrfCookieName = ''aegis_operator_csrf'', gc_identityTimeoutMs = 3000,
      gc_ledgerTimeoutMs = 5000, gc_paymentsTimeoutMs = 5000, gc_riskTimeoutMs = 2000, gc_sabclRouterUrl = ''http://s'', gc_sabclTimeoutMs = 8000,
      gc_resilienceServiceUrl = ''http://d'', gc_resilienceGatewaySourceToken = ''ds'', gc_resilienceTimeoutMs = 4000\<rparr>"

definition demo_internal_session :: internal_session where
  "demo_internal_session = \<lparr>is_sessionId = ''a;b=c%'', is_csrfToken = ''t o;k'', is_maxAgeSeconds = 900, is_session = ''{}''\<rparr>"

theorem login_cookies_roundtrip_witness:
  "readCookie (Some (browser_cookies (serializeCookie ''lang'' ''si'' False False 60 # setSessionCookies demo_gateway demo_internal_session))) ''aegis_session'' = Inr ''a;b=c%''"
proof -
  have "list_all (\<lambda>p. utf8_ok (fst p) \<and> utf8_ok (snd p)) [(''lang'', ''si'')]" "utf8_ok (is_sessionId demo_internal_session)"
      "utf8_ok (is_csrfToken demo_internal_session)" "utf8_ok (gc_sessionCookieName demo_gateway)" "utf8_ok (gc_csrfCookieName demo_gateway)"
      "gc_sessionCookieName demo_gateway \<noteq> gc_csrfCookieName demo_gateway" "gc_sessionCookieName demo_gateway \<notin> fst ` set [(''lang'', ''si'')]"
      "gc_csrfCookieName demo_gateway \<notin> fst ` set [(''lang'', ''si'')]" "is_csrfToken demo_internal_session \<noteq> []"
      "js_trim (is_csrfToken demo_internal_session) = is_csrfToken demo_internal_session"
    by code_simp+
  note r = login_cookies_roundtrip [OF this]
  have "gc_sessionCookieName demo_gateway = ''aegis_session''" "is_sessionId demo_internal_session = ''a;b=c%''"
    by (simp_all add: demo_gateway_def demo_internal_session_def)
  with r show ?thesis by (simp add: Let_def)
qed

end
