(* ===== verification/Contracts.thy ===== *)
theory Contracts
  imports GatewayHttp IdentityPasskeys Transactions PaymentsTransfers RiskOperators
begin

text \<open>
  The schemas of the shared contracts (\<open>packages/contracts/src\<close>) on JSON documents, as the gateway uses them on what browsers
  and services send: the channels (\<open>channels/v1.ts\<close>), transfers (\<open>payments/v1.ts\<close>), accounts (\<open>accounts/v1.ts\<close>),
  authentication (\<open>auth/v1.ts\<close>), risk (\<open>risk/v1.ts\<close>), recovery (\<open>resilience/v1.ts\<close>) and the status of the message layer
  (\<open>sabcl/v1.ts\<close>).  A schema gives the parsed document, with unknown members dropped or refused, text trimmed and defaults
  filled in, or nothing.  What counts as a UUID and as an ISO date is a parameter.
\<close>

section \<open>Schemas as parsers\<close>

record zod_env =
  zd_uuid :: "string \<Rightarrow> bool"
  zd_datetime :: "string \<Rightarrow> bool"

type_synonym zschema = "json \<Rightarrow> json option"
type_synonym zfield = "string \<times> (json option \<Rightarrow> json option option)"

definition zget :: "(string \<times> json option) list \<Rightarrow> string \<Rightarrow> json option" where
  "zget es k = Option.bind (map_of es k) id"

definition zstr :: "(string \<Rightarrow> string option) \<Rightarrow> zschema" where
  "zstr f v = (case v of JStr s \<Rightarrow> map_option JStr (f s) | _ \<Rightarrow> None)"

definition zif :: "('a \<Rightarrow> bool) \<Rightarrow> 'a \<Rightarrow> 'a option" where
  "zif P x = (if P x then Some x else None)"

definition zlen :: "nat \<Rightarrow> nat \<Rightarrow> zschema" where
  "zlen a b = zstr (zif (len_in a b))"

definition ztrimmed :: "nat \<Rightarrow> nat \<Rightarrow> zschema" where
  "ztrimmed a b = zstr (\<lambda>s. zif (len_in a b) (js_trim s))"

definition zenum :: "string list \<Rightarrow> zschema" where
  "zenum names = zstr (zif (\<lambda>s. s \<in> set names))"

definition zint :: "int \<Rightarrow> int \<Rightarrow> zschema" where
  "zint lo hi v = (case v of JInt i \<Rightarrow> if lo \<le> i \<and> i \<le> hi then Some v else None | _ \<Rightarrow> None)"

definition zcount :: zschema where
  "zcount = zint 0 9007199254740991"

definition zbool :: zschema where
  "zbool v = (case v of JBool b \<Rightarrow> Some v | _ \<Rightarrow> None)"

definition ztrue :: zschema where
  "ztrue = zif (\<lambda>v. v = JBool True)"

definition znull :: "zschema \<Rightarrow> zschema" where
  "znull p v = (if v = JNull then Some JNull else p v)"

fun zall :: "zschema \<Rightarrow> json list \<Rightarrow> json list option" where
  "zall p [] = Some []"
| "zall p (x # xs) = (case p x of None \<Rightarrow> None | Some y \<Rightarrow> map_option (\<lambda>ys. y # ys) (zall p xs))"

definition zarr :: "nat \<Rightarrow> nat \<Rightarrow> zschema \<Rightarrow> zschema" where
  "zarr lo hi p v = (case v of JArr xs \<Rightarrow> if lo \<le> length xs \<and> length xs \<le> hi then map_option JArr (zall p xs) else None | _ \<Rightarrow> None)"

definition zreq :: "string \<Rightarrow> zschema \<Rightarrow> zfield" where
  "zreq k p = (k, \<lambda>v. case v of None \<Rightarrow> None | Some x \<Rightarrow> map_option Some (p x))"

definition zopt :: "string \<Rightarrow> zschema \<Rightarrow> zfield" where
  "zopt k p = (k, \<lambda>v. case v of None \<Rightarrow> Some None | Some x \<Rightarrow> map_option Some (p x))"

definition zdef :: "string \<Rightarrow> json \<Rightarrow> zschema \<Rightarrow> zfield" where
  "zdef k d p = (k, \<lambda>v. case v of None \<Rightarrow> Some (Some d) | Some x \<Rightarrow> map_option Some (p x))"

fun zfields :: "zfield list \<Rightarrow> (string \<times> json option) list \<Rightarrow> (string \<times> json option) list option" where
  "zfields [] es = Some []"
| "zfields ((k, p) # fs) es =
     (case p (zget es k) of
        None \<Rightarrow> None
      | Some r \<Rightarrow> map_option (\<lambda>out. (case r of None \<Rightarrow> out | Some x \<Rightarrow> (k, Some x) # out)) (zfields fs es))"

datatype zmode = StrictKeys | StripKeys | PassKeys

definition zobj :: "zmode \<Rightarrow> zfield list \<Rightarrow> zschema" where
  "zobj mode members v =
     (case v of
        JObj es \<Rightarrow>
          if mode = StrictKeys \<and> \<not> list_all (\<lambda>e. fst e \<in> fst ` set members) es then None
          else map_option (\<lambda>out. JObj (out @ (if mode = PassKeys then filter (\<lambda>e. fst e \<notin> fst ` set members) es else []))) (zfields members es)
      | _ \<Rightarrow> None)"

abbreviation zstrict :: "zfield list \<Rightarrow> zschema" where "zstrict \<equiv> zobj StrictKeys"

text \<open>Members of a parsed document.\<close>

definition jmember :: "json option \<Rightarrow> string \<Rightarrow> json option" where
  "jmember v k = (case v of Some (JObj es) \<Rightarrow> zget es k | _ \<Rightarrow> None)"

definition jtext :: "json option \<Rightarrow> string option" where
  "jtext v = (case v of Some (JStr s) \<Rightarrow> Some s | _ \<Rightarrow> None)"

definition jstring :: "json option \<Rightarrow> string \<Rightarrow> string" where
  "jstring v k = (case jtext (jmember v k) of Some s \<Rightarrow> s | None \<Rightarrow> [])"

abbreviation zuuid :: "zod_env \<Rightarrow> zschema" where "zuuid z \<equiv> zstr (zif (zd_uuid z))"
abbreviation zdate :: "zod_env \<Rightarrow> zschema" where "zdate z \<equiv> zstr (zif (zd_datetime z))"
abbreviation zopaque :: zschema where "zopaque \<equiv> zstr (zif opaqueIdentifier)"
abbreviation ztoken :: zschema where "ztoken \<equiv> zstr (zif opaqueIntentTokenSchema)"
abbreviation zkey :: zschema where "zkey \<equiv> zstr (zif idempotencyKeySchema)"
abbreviation zpositive :: zschema where "zpositive \<equiv> zstr (zif positiveMinorUnitsSchema)"
abbreviation zcurrency :: zschema where "zcurrency \<equiv> zstr (\<lambda>s. zif currencyCodeSchema (js_trim s))"
abbreviation zpublic :: zschema where "zpublic \<equiv> zstr (zif publicAccountReferenceSchema)"
abbreviation zmasked :: zschema where "zmasked \<equiv> zstr (zif maskedAccountReferenceSchema)"
abbreviation zdigits :: zschema where "zdigits \<equiv> zstr (zif sixDigits)"

section \<open>Accounts\<close>

definition zmoney :: zschema where
  "zmoney = zstrict [zreq ''currency'' zcurrency, zreq ''minorUnits'' (zstr (zif signedMinorUnitsSchema))]"

definition summary_fields :: "zod_env \<Rightarrow> zfield list" where
  "summary_fields z =
     [zreq ''id'' (zuuid z), zreq ''maskedReference'' zmasked, zreq ''productType'' (zenum [''TIER0_WALLET'']),
      zreq ''status'' (zenum [''ACTIVE'', ''FROZEN'', ''CLOSED'']), zreq ''currency'' zcurrency, zreq ''createdAt'' (zdate z)]"

definition customerAccountSummarySchema :: "zod_env \<Rightarrow> zschema" where
  "customerAccountSummarySchema z = zstrict (summary_fields z)"

definition accountBalanceSchema :: "zod_env \<Rightarrow> zschema" where
  "accountBalanceSchema z = zstrict [zreq ''accountId'' (zuuid z), zreq ''balance'' zmoney, zreq ''updatedAt'' (zdate z)]"

definition customerAccountDetailSchema :: "zod_env \<Rightarrow> zschema" where
  "customerAccountDetailSchema z = zstrict (summary_fields z @ [zreq ''balance'' zmoney, zreq ''receivingReference'' zpublic])"

definition customerAccountListSchema :: "zod_env \<Rightarrow> zschema" where
  "customerAccountListSchema z = zstrict [zreq ''accounts'' (zarr 0 32 (customerAccountSummarySchema z))]"

definition provisionResultJson :: "zod_env \<Rightarrow> zschema" where
  "provisionResultJson z = zstrict [zreq ''account'' (customerAccountDetailSchema z), zreq ''created'' zbool]"

definition transaction_fields :: "zod_env \<Rightarrow> zfield list" where
  "transaction_fields z =
     [zreq ''id'' (zuuid z), zreq ''displayReference'' (zstr (zif displayTransactionReferenceSchema)), zreq ''accountId'' (zuuid z),
      zreq ''direction'' (zenum [''INCOMING'', ''OUTGOING'']), zreq ''category'' (zenum [''FUNDING'', ''ADJUSTMENT'', ''TRANSFER'', ''OTHER'']),
      zreq ''status'' (zenum [''POSTED'']), zreq ''amount'' zmoney, zreq ''balanceAfter'' zmoney, zreq ''effectiveAt'' (zdate z), zreq ''postedAt'' (zdate z)]"

definition customerTransactionDetailSchema :: "zod_env \<Rightarrow> zschema" where
  "customerTransactionDetailSchema z =
     zstrict (transaction_fields z @ [zreq ''maskedAccountReference'' zmasked, zreq ''productType'' (zenum [''TIER0_WALLET''])])"

definition transactionHistoryResponseSchema :: "zod_env \<Rightarrow> zschema" where
  "transactionHistoryResponseSchema z =
     zstrict [zreq ''transactions'' (zarr 0 50 (zstrict (transaction_fields z))), zreq ''nextCursor'' (znull (zlen 1 1024))]"

text \<open>Query values are strings; the page size is their number.\<close>

definition zpage :: "int \<Rightarrow> zschema" where
  "zpage hi v =
     (case v of JStr s \<Rightarrow> (case js_integer (js_Number s) of Some i \<Rightarrow> if 1 \<le> i \<and> i \<le> hi then Some (JInt i) else None | None \<Rightarrow> None) | _ \<Rightarrow> None)"

definition dates_in_order :: "json \<Rightarrow> bool" where
  "dates_in_order v =
     (case (jtext (jmember (Some v) ''dateFrom''), jtext (jmember (Some v) ''dateTo'')) of (Some a, Some b) \<Rightarrow> a = [] \<or> b = [] \<or> \<not> b < a | _ \<Rightarrow> True)"

definition transactionHistoryQuerySchema :: "zod_env \<Rightarrow> zschema" where
  "transactionHistoryQuerySchema z v =
     Option.bind (zstrict [zopt ''direction'' (zenum [''INCOMING'', ''OUTGOING'']), zopt ''category'' (zenum [''FUNDING'', ''ADJUSTMENT'', ''TRANSFER'', ''OTHER'']),
        zopt ''dateFrom'' (zdate z), zopt ''dateTo'' (zdate z), zdef ''pageSize'' (JInt 20) (zpage 50), zopt ''cursor'' (zlen 1 1024)] v) (zif dates_in_order)"

section \<open>Transfers\<close>

definition transferPolicyJson :: zschema where
  "transferPolicyJson = zstrict [zreq ''currency'' (zenum [''LKR'']), zreq ''minimum'' zmoney, zreq ''maximum'' zmoney, zreq ''dailyOutgoingMaximum'' zmoney]"

definition transferPreviewRequestSchema :: "zod_env \<Rightarrow> zschema" where
  "transferPreviewRequestSchema z =
     zstrict [zreq ''sourceAccountId'' (zuuid z), zreq ''recipientReference'' zpublic, zreq ''amount'' (zstr (zif humanLkrAmountSchema))]"

definition transferPreviewJson :: "zod_env \<Rightarrow> zschema" where
  "transferPreviewJson z =
     zstrict [zreq ''intentToken'' ztoken, zreq ''sourceMaskedReference'' zmasked, zreq ''recipientMaskedReference'' zmasked, zreq ''amount'' zmoney,
              zreq ''sourceBalance'' zmoney, zreq ''policy'' transferPolicyJson, zreq ''expiresAt'' (zdate z)]"

definition transferConfirmationRequestSchema :: zschema where
  "transferConfirmationRequestSchema = zstrict [zreq ''intentToken'' ztoken, zreq ''pin'' zdigits]"

definition internalTransferConfirmationSchema :: "zod_env \<Rightarrow> zschema" where
  "internalTransferConfirmationSchema z = zstrict [zreq ''senderCustomerId'' (zuuid z), zreq ''intentToken'' ztoken, zreq ''idempotencyKey'' zkey]"

definition transfer_fields :: "zod_env \<Rightarrow> zfield list" where
  "transfer_fields z =
     [zreq ''id'' (zuuid z), zreq ''displayReference'' (zstr (zif transferDisplayReferenceSchema)), zreq ''direction'' (zenum [''SENT'', ''RECEIVED'']),
      zreq ''status'' (zenum [''PROCESSING'', ''COMPLETED'', ''FAILED'', ''REQUIRES_REVIEW'']), zreq ''accountId'' (zuuid z),
      zreq ''counterpartyMaskedReference'' zmasked, zreq ''amount'' zmoney, zreq ''createdAt'' (zdate z), zreq ''completedAt'' (znull (zdate z))]"

definition transferDetailJson :: "zod_env \<Rightarrow> zschema" where
  "transferDetailJson z =
     zstrict (transfer_fields z @ [zreq ''transactionId'' (znull (zuuid z)), zreq ''balanceAfter'' (znull zmoney),
       zreq ''failureCode'' (znull (zenum [''INSUFFICIENT_FUNDS'', ''ACCOUNT_NOT_FOUND'', ''ACCOUNT_NOT_ACTIVE'', ''CURRENCY_MISMATCH'', ''SELF_TRANSFER'',
         ''LIMIT_EXCEEDED'', ''INTENT_EXPIRED'', ''AUTHORIZATION_FAILED'', ''IDEMPOTENCY_CONFLICT'', ''LEDGER_UNAVAILABLE'', ''PROCESSING_TIMEOUT'', ''INTERNAL_ERROR''])),
       zreq ''ownMaskedReference'' zmasked])"

definition transferListQuerySchema :: "zod_env \<Rightarrow> zschema" where
  "transferListQuerySchema z v =
     Option.bind (zstrict [zopt ''direction'' (zenum [''SENT'', ''RECEIVED'']), zopt ''status'' (zenum [''PROCESSING'', ''COMPLETED'', ''FAILED'', ''REQUIRES_REVIEW'']),
        zopt ''dateFrom'' (zdate z), zopt ''dateTo'' (zdate z), zdef ''pageSize'' (JInt 20) (zpage 50), zopt ''cursor'' (zlen 1 1024)] v) (zif dates_in_order)"

definition transferListResponseSchema :: "zod_env \<Rightarrow> zschema" where
  "transferListResponseSchema z = zstrict [zreq ''transfers'' (zarr 0 50 (zstrict (transfer_fields z))), zreq ''nextCursor'' (znull (zlen 1 1024))]"

section \<open>Authentication\<close>

abbreviation zphone :: zschema where "zphone \<equiv> zstr e164PhoneSchema"
abbreviation zdevice :: zfield where "zdevice \<equiv> zopt ''deviceId'' (ztrimmed 1 128)"

definition requestOtpSchema :: zschema where
  "requestOtpSchema = zobj StripKeys [zreq ''phone'' zphone, zreq ''preferredLanguage'' (zstr (zif preferredLanguageSchema)), zreq ''consentAccepted'' ztrue, zdevice]"

definition verifyOtpSchema :: "zod_env \<Rightarrow> zschema" where
  "verifyOtpSchema z = zobj StripKeys [zreq ''phone'' zphone, zreq ''challengeId'' (zuuid z), zreq ''otp'' zdigits]"

definition createPinSchema :: zschema where
  "createPinSchema v =
     Option.bind (zobj StripKeys [zreq ''enrollmentToken'' (zlen 32 512), zreq ''pin'' (zstr (zif securePrototypePinSchema)), zreq ''pinConfirmation'' zdigits, zdevice] v)
       (zif (\<lambda>x. jmember (Some x) ''pin'' = jmember (Some x) ''pinConfirmation''))"

definition pinFallbackRequestSchema :: zschema where
  "pinFallbackRequestSchema = zobj StripKeys [zreq ''phone'' zphone, zreq ''pin'' zdigits, zdevice]"

definition pinFallbackLoginSchema :: "zod_env \<Rightarrow> zschema" where
  "pinFallbackLoginSchema z = zobj StripKeys [zreq ''phone'' zphone, zreq ''pin'' zdigits, zreq ''challengeId'' (zuuid z), zreq ''otp'' zdigits, zdevice]"

definition logoutSchema :: zschema where
  "logoutSchema = zstrict []"

definition sessionResponseSchema :: "zod_env \<Rightarrow> zschema" where
  "sessionResponseSchema z =
     zobj StripKeys [zreq ''authenticated'' ztrue, zreq ''authenticationMethod'' (zenum [''PIN_OTP'', ''PASSKEY'']), zreq ''expiresAt'' (zdate z),
       zreq ''user'' (zobj StripKeys [zreq ''id'' (zuuid z), zreq ''phoneMasked'' (zlen 4 24), zreq ''preferredLanguage'' (zstr (zif preferredLanguageSchema)),
         zreq ''kycTier'' zcount, zreq ''status'' (zenum [''PENDING'', ''ACTIVE'', ''LOCKED'', ''DISABLED'']), zreq ''phoneVerified'' zbool])]"

definition credential_fields :: "zfield list \<Rightarrow> zfield list" where
  "credential_fields response =
     [zreq ''id'' (zlen 1 2048), zopt ''rawId'' (zlen 1 4096), zreq ''type'' (zenum [''public-key'']), zopt ''authenticatorAttachment'' (zlen 0 64),
      zopt ''clientExtensionResults'' (zobj PassKeys []), zreq ''response'' (zobj StripKeys response)]"

definition registrationCredentialJson :: zschema where
  "registrationCredentialJson =
     zobj StripKeys (credential_fields [zreq ''clientDataJSON'' (zlen 1 16384), zreq ''attestationObject'' (zlen 1 65536), zopt ''transports'' (zarr 0 16 (zlen 0 64)),
       zopt ''authenticatorData'' (zlen 0 16384), zopt ''publicKey'' (zlen 0 65536), zopt ''publicKeyAlgorithm'' (zint (- 9007199254740991) 9007199254740991)])"

definition authenticationCredentialJson :: zschema where
  "authenticationCredentialJson =
     zobj StripKeys (credential_fields [zreq ''clientDataJSON'' (zlen 1 16384), zreq ''authenticatorData'' (zlen 1 16384), zreq ''signature'' (zlen 1 16384),
       zopt ''userHandle'' (zlen 0 4096)])"

definition passkeyOptionsSchema :: zschema where
  "passkeyOptionsSchema = zobj PassKeys []"

definition passkeyRegistrationVerificationSchema :: zschema where
  "passkeyRegistrationVerificationSchema =
     zobj StripKeys [zreq ''challenge'' (zlen 16 4096), zreq ''credential'' registrationCredentialJson, zopt ''nickname'' (ztrimmed 1 64)]"

definition passkeyAuthenticationVerificationSchema :: zschema where
  "passkeyAuthenticationVerificationSchema = zobj StripKeys [zreq ''challenge'' (zlen 16 4096), zreq ''credential'' authenticationCredentialJson, zdevice]"

section \<open>Risk\<close>

definition riskDecisionNames :: "string list" where
  "riskDecisionNames = [''ALLOW'', ''ALLOW_WITH_MONITORING'', ''REQUIRE_STEP_UP'', ''HOLD_FOR_REVIEW'', ''BLOCK'', ''QUARANTINE'']"

definition controlTypeNames :: "string list" where
  "controlTypeNames = [''REQUIRE_STEP_UP'', ''TEMPORARY_BLOCK'', ''TRANSFER_HOLD'', ''RECIPIENT_BLOCK'', ''SESSION_REVOKE'', ''ACCOUNT_RESTRICT'', ''MANUAL_REVIEW'', ''QUARANTINE'']"

definition controlCheckResponseSchema :: "zod_env \<Rightarrow> zschema" where
  "controlCheckResponseSchema z =
     zstrict [zreq ''allowed'' zbool, zreq ''decision'' (zenum riskDecisionNames), zreq ''reasonCodes'' (zarr 0 16 (zlen 1 64)), zreq ''requiresStepUp'' zbool,
              zreq ''expiresAt'' (znull (zdate z))]"

definition riskAssessmentJson :: "zod_env \<Rightarrow> zschema" where
  "riskAssessmentJson z =
     zstrict [zreq ''assessmentId'' (zuuid z), zreq ''score'' (zint 0 100), zreq ''band'' (zenum [''LOW'', ''MEDIUM'', ''HIGH'', ''CRITICAL'']),
              zreq ''decision'' (zenum riskDecisionNames), zreq ''triggeredRules'' (zarr 0 32 (zlen 1 64)), zreq ''reasonCodes'' (zarr 0 32 (zlen 1 64)),
              zreq ''controlRecommendation'' (znull (zenum controlTypeNames)), zreq ''expiresAt'' (zdate z), zreq ''ruleSetVersion'' (zlen 1 32),
              zreq ''publicExplanation'' (zlen 1 256)]"

definition applyControlJson :: "zod_env \<Rightarrow> zschema" where
  "applyControlJson z =
     zstrict [zreq ''idempotencyKey'' zkey, zreq ''type'' (zenum controlTypeNames),
              zreq ''scopeType'' (zenum [''CUSTOMER'', ''SESSION'', ''DEVICE'', ''ACCOUNT'', ''RECIPIENT'', ''OPERATION'', ''SERVICE'']), zreq ''scopeId'' zopaque,
              zreq ''reasonCode'' (zstr (zif reasonCodeSchema)), zreq ''expiresAt'' (zdate z), zopt ''incidentId'' (zuuid z)]"

definition releaseControlRequestSchema :: zschema where
  "releaseControlRequestSchema = zstrict [zreq ''reason'' (ztrimmed 8 500)]"

section \<open>Channels\<close>

definition qrReceiveRequestSchema :: "zod_env \<Rightarrow> zschema" where
  "qrReceiveRequestSchema z = zstrict [zreq ''sourceAccountId'' (zuuid z)]"

definition qrDynamicRequestSchema :: "zod_env \<Rightarrow> zschema" where
  "qrDynamicRequestSchema z =
     zstrict [zreq ''sourceAccountId'' (zuuid z), zreq ''amount'' zpositive, zdef ''currency'' (JStr ''LKR'') zcurrency, zopt ''purpose'' (zlen 0 64)]"

definition internalQrIssueRequestSchema :: "zod_env \<Rightarrow> zschema" where
  "internalQrIssueRequestSchema z =
     zstrict [zreq ''customerId'' (zuuid z), zreq ''accountId'' (zuuid z), zreq ''type'' (zenum [''STATIC'', ''DYNAMIC'']), zopt ''amountMinor'' zpositive,
              zreq ''currency'' zcurrency, zopt ''purpose'' (zlen 0 64)]"

definition qrIssueResponseSchema :: "zod_env \<Rightarrow> zschema" where
  "qrIssueResponseSchema z =
     zstrict [zreq ''qrId'' (zuuid z), zreq ''payload'' (zlen 1 2048), zreq ''type'' (zenum [''STATIC'', ''DYNAMIC'']), zreq ''expiresAt'' (zdate z)]"

definition qrPreviewRequestSchema :: "zod_env \<Rightarrow> zschema" where
  "qrPreviewRequestSchema z = zstrict [zreq ''payload'' (zlen 1 2048), zreq ''sourceAccountId'' (zuuid z)]"

definition internalQrPreviewRequestSchema :: "zod_env \<Rightarrow> zschema" where
  "internalQrPreviewRequestSchema z = zstrict [zreq ''payload'' (zlen 1 2048), zreq ''senderCustomerId'' (zuuid z), zreq ''sourceAccountId'' (zuuid z)]"

definition qrPreviewResponseSchema :: "zod_env \<Rightarrow> zschema" where
  "qrPreviewResponseSchema z =
     zstrict [zreq ''qrId'' (zuuid z), zreq ''recipientMaskedReference'' zmasked, zreq ''amount'' (znull zmoney), zreq ''purpose'' (znull (zlen 0 64)),
              zreq ''type'' (zenum [''STATIC'', ''DYNAMIC'']), zreq ''expiresAt'' (zdate z), zreq ''intentToken'' ztoken]"

definition qrConfirmRequestSchema :: zschema where
  "qrConfirmRequestSchema = zstrict [zreq ''intentToken'' ztoken, zreq ''pin'' zdigits, zopt ''amount'' zpositive]"

definition internalQrConfirmRequestSchema :: "zod_env \<Rightarrow> zschema" where
  "internalQrConfirmRequestSchema z =
     zstrict [zreq ''senderCustomerId'' (zuuid z), zreq ''intentToken'' ztoken, zreq ''idempotencyKey'' zkey, zopt ''amountMinor'' zpositive]"

definition qr_payment_fields :: "zod_env \<Rightarrow> zfield list" where
  "qr_payment_fields z =
     [zreq ''id'' (zuuid z), zreq ''displayReference'' (zstr Some), zreq ''status'' (zenum [''PROCESSING'', ''COMPLETED'', ''FAILED'']),
      zreq ''senderMaskedReference'' zmasked, zreq ''recipientMaskedReference'' zmasked, zreq ''amount'' zmoney, zreq ''senderBalanceAfter'' (znull zmoney),
      zreq ''createdAt'' (zdate z), zreq ''completedAt'' (znull (zdate z))]"

definition qrPaymentResultSchema :: "zod_env \<Rightarrow> zschema" where
  "qrPaymentResultSchema z = zstrict (qr_payment_fields z)"

definition qrReceiptSchema :: "zod_env \<Rightarrow> zschema" where
  "qrReceiptSchema z = zstrict (qr_payment_fields z @ [zreq ''receiptReference'' (zstr Some), zreq ''purpose'' (znull (zlen 0 64))])"

text \<open>\<open>/^\+?[1-9]\d{6,14}$/u\<close>\<close>

definition msisdn :: "string \<Rightarrow> bool" where
  "msisdn s = (let d = (if starts_with ''+'' s then drop 1 s else s) in 7 \<le> length d \<and> length d \<le> 15 \<and> list_all is_digit d \<and> hd d \<noteq> CHR ''0'')"

definition ussdProviderRequestSchema :: "zod_env \<Rightarrow> zschema" where
  "ussdProviderRequestSchema z =
     zstrict [zreq ''sessionId'' (zlen 1 128), zreq ''msisdn'' (zstr (zif msisdn)), zreq ''input'' (zlen 0 160), zreq ''type'' (zenum [''initiation'', ''response'']),
              zreq ''timestamp'' (zdate z), zreq ''nonce'' (zlen 8 64)]"

definition ussdProviderResponseSchema :: zschema where
  "ussdProviderResponseSchema = zstrict [zreq ''sessionId'' (zlen 1 128), zreq ''message'' (zlen 0 182), zreq ''type'' (zenum [''response'', ''release''])]"

definition ussdSimulatorRequestSchema :: zschema where
  "ussdSimulatorRequestSchema =
     zstrict [zopt ''sessionId'' (zlen 1 128), zreq ''input'' (zlen 0 160), zdef ''language'' (JStr ''EN'') (zenum [''EN'', ''SI'', ''TA''])]"

definition ussdSimulatorResponseSchema :: zschema where
  "ussdSimulatorResponseSchema = zstrict [zreq ''sessionId'' (zlen 1 128), zreq ''message'' (zlen 0 182), zreq ''ended'' zbool, zreq ''simulated'' ztrue]"

text \<open>\<open>/^AEGIS-AGT-[A-Z0-9]{4}-[A-Z0-9]{4}$/u\<close>\<close>

definition agentPublicReferenceSchema :: "string \<Rightarrow> bool" where
  "agentPublicReferenceSchema s =
     (starts_with ''AEGIS-AGT-'' s \<and> (case split_on CHR ''-'' (drop 10 s) of [a, b] \<Rightarrow> list_all (\<lambda>g. length g = 4 \<and> list_all is_upper_alnum g) [a, b] | _ \<Rightarrow> False))"

abbreviation zagent :: zschema where "zagent \<equiv> zstr (zif agentPublicReferenceSchema)"

definition agentAuthRequestSchema :: zschema where
  "agentAuthRequestSchema = zstrict [zreq ''agentReference'' zagent, zreq ''pin'' zdigits]"

definition agentSessionResponseSchema :: "zod_env \<Rightarrow> zschema" where
  "agentSessionResponseSchema z =
     zstrict [zreq ''agentId'' (zuuid z), zreq ''agentReference'' zagent, zreq ''status'' (zenum [''ACTIVE'', ''SUSPENDED'', ''CLOSED'']),
              zreq ''sessionToken'' (zlen 32 256), zreq ''expiresAt'' (zdate z)]"

definition agentLimitsResponseSchema :: zschema where
  "agentLimitsResponseSchema =
     zstrict [zreq ''agentReference'' zagent, zreq ''currency'' zcurrency, zreq ''minTransactionMinor'' zpositive, zreq ''maxTransactionMinor'' zpositive,
              zreq ''dailyCashInLimitMinor'' zpositive, zreq ''dailyCashOutLimitMinor'' zpositive, zreq ''dailyCashInUsedMinor'' (zstr Some),
              zreq ''dailyCashOutUsedMinor'' (zstr Some), zreq ''floatBalanceMinor'' (zstr Some), zreq ''floatLimitMinor'' zpositive]"

definition agentCashPreviewRequestSchema :: zschema where
  "agentCashPreviewRequestSchema = zstrict [zreq ''customerReference'' zpublic, zreq ''amountMinor'' zpositive, zdef ''currency'' (JStr ''LKR'') zcurrency]"

definition agentCashPreviewResponseSchema :: "zod_env \<Rightarrow> zschema" where
  "agentCashPreviewResponseSchema z =
     zstrict [zreq ''operationId'' (zuuid z), zreq ''operationType'' (zenum [''AGENT_CASH_IN'', ''AGENT_CASH_OUT'']), zreq ''customerMaskedReference'' zmasked,
              zreq ''agentReference'' zagent, zreq ''amount'' zmoney, zreq ''intentToken'' ztoken, zreq ''expiresAt'' (zdate z)]"

definition agentCashConfirmRequestSchema :: zschema where
  "agentCashConfirmRequestSchema = zstrict [zreq ''intentToken'' ztoken, zopt ''customerPin'' zdigits]"

definition internalAgentCashConfirmRequestSchema :: "zod_env \<Rightarrow> zschema" where
  "internalAgentCashConfirmRequestSchema z = zstrict [zreq ''agentId'' (zuuid z), zreq ''intentToken'' ztoken, zreq ''idempotencyKey'' zkey]"

definition agent_cash_fields :: "zod_env \<Rightarrow> zfield list" where
  "agent_cash_fields z =
     [zreq ''id'' (zuuid z), zreq ''displayReference'' (zstr Some), zreq ''operationType'' (zenum [''AGENT_CASH_IN'', ''AGENT_CASH_OUT'']),
      zreq ''status'' (zenum [''PENDING_CONFIRMATION'', ''PROCESSING'', ''COMPLETED'', ''FAILED'', ''CANCELLED'']), zreq ''customerMaskedReference'' zmasked,
      zreq ''agentReference'' zagent, zreq ''amount'' zmoney, zreq ''createdAt'' (zdate z), zreq ''completedAt'' (znull (zdate z))]"

definition agentCashResultSchema :: "zod_env \<Rightarrow> zschema" where
  "agentCashResultSchema z = zstrict (agent_cash_fields z)"

definition agentCashReceiptSchema :: "zod_env \<Rightarrow> zschema" where
  "agentCashReceiptSchema z = zstrict (agent_cash_fields z @ [zreq ''receiptReference'' (zstr Some), zreq ''agentFloatAfter'' (znull zmoney)])"

definition internalQrPaymentCommandSchema :: "zod_env \<Rightarrow> zschema" where
  "internalQrPaymentCommandSchema z =
     zstrict [zreq ''paymentId'' (zuuid z), zreq ''paymentReference'' (zstr (zif (\<lambda>s. starts_with ''AEGIS-QRP-'' s \<and> publicAccountReferenceSchema (''AEGIS-'' @ drop 10 s)))),
              zreq ''senderCustomerId'' (zuuid z), zreq ''sourceAccountId'' (zuuid z), zreq ''recipientReference'' zpublic, zreq ''amountMinor'' zpositive,
              zreq ''currency'' zcurrency, zreq ''idempotencyKey'' zkey]"

definition internalAgentCashCommandSchema :: "zod_env \<Rightarrow> zschema" where
  "internalAgentCashCommandSchema z =
     zstrict [zreq ''operationId'' (zuuid z), zreq ''operationReference'' (zstr Some), zreq ''agentAccountId'' (zuuid z), zreq ''customerReference'' zpublic,
              zreq ''amountMinor'' zpositive, zreq ''currency'' zcurrency, zreq ''idempotencyKey'' zkey]"

definition internalChannelLedgerResultSchema :: "zod_env \<Rightarrow> zschema" where
  "internalChannelLedgerResultSchema z =
     zstrict [zreq ''journalId'' (zuuid z),
              zreq ''postings'' (\<lambda>v. zarr 0 (case v of JArr xs \<Rightarrow> length xs | _ \<Rightarrow> 0)
                (zobj StripKeys [zreq ''id'' (zuuid z), zreq ''ledgerAccountId'' (zuuid z), zreq ''direction'' (zenum [''DEBIT'', ''CREDIT'']), zreq ''amountMinor'' zpositive]) v),
              zreq ''senderBalanceAfter'' (znull zmoney), zreq ''recipientBalanceAfter'' (znull zmoney), zreq ''currency'' zcurrency, zreq ''amount'' zmoney,
              zreq ''postedAt'' (zdate z)]"

section \<open>Recovery\<close>

definition resilienceServiceNames :: "string list" where
  "resilienceServiceNames = [''identity'', ''ledger'', ''payments'', ''risk'', ''resilience'']"

definition resilienceHealthStates :: "string list" where
  "resilienceHealthStates = [''HEALTHY'', ''DEGRADED'', ''UNAVAILABLE'', ''RECOVERING'', ''RECONCILING'', ''FAILED'']"

definition recoveryDrillStates :: "string list" where
  "recoveryDrillStates = [''PLANNED'', ''RUNNING'', ''BACKUP_CREATED'', ''RESTORE_VERIFIED'', ''RECONCILIATION_PASSED'', ''PASSED'', ''FAILED'', ''CLEANED_UP'']"

definition recoveryDrillTypes :: "string list" where
  "recoveryDrillTypes = [''SCHEDULED'', ''MANUAL'', ''CI_AUTOMATED'']"

definition resilienceFailureCodes :: "string list" where
  "resilienceFailureCodes = [''BACKUP_FAILED'', ''MANIFEST_INVALID'', ''CHECKSUM_MISMATCH'', ''DECRYPTION_FAILED'', ''INCOMPLETE_BACKUP_SET'', ''RESTORE_FAILED'',
     ''RECONCILIATION_FAILED'', ''CLEANUP_FAILED'', ''DEPENDENCY_UNAVAILABLE'', ''CONFIGURATION_INVALID'']"

definition dependencyHealthSchema :: "zod_env \<Rightarrow> zschema" where
  "dependencyHealthSchema z =
     zstrict [zreq ''name'' (zlen 2 64), zreq ''kind'' (zenum [''POSTGRES'', ''REDIS'', ''HTTP_SERVICE'']), zreq ''state'' (zenum resilienceHealthStates),
              zreq ''checkedAt'' (zdate z)]"

definition serviceHealthSchema :: "zod_env \<Rightarrow> zschema" where
  "serviceHealthSchema z =
     zstrict [zreq ''service'' (zlen 2 64), zreq ''state'' (zenum resilienceHealthStates), zreq ''failureCode'' (znull (zenum resilienceFailureCodes)),
              zreq ''checkedAt'' (zdate z)]"

text \<open>\<open>/^[0-9a-f]{64}$/u\<close> and \<open>/^[A-Za-z0-9][A-Za-z0-9._-]{0,127}$/u\<close>\<close>

definition hex64 :: "string \<Rightarrow> bool" where
  "hex64 s = (length s = 64 \<and> list_all (\<lambda>c. is_digit c \<or> c \<in> set ''abcdef'') s)"

definition backup_file_name :: "string \<Rightarrow> bool" where
  "backup_file_name s = (s \<noteq> [] \<and> is_alnum (hd s) \<and> length s \<le> 128 \<and> list_all (\<lambda>c. is_alnum c \<or> c \<in> set ''._-'') s)"

definition backupSetSummarySchema :: "zod_env \<Rightarrow> zschema" where
  "backupSetSummarySchema z =
     zstrict [zreq ''backupSetId'' zopaque, zreq ''createdAt'' (zdate z), zreq ''services'' (zarr 1 16 (zenum resilienceServiceNames)),
              zreq ''manifestChecksum'' (zstr (zif hex64)), zreq ''encryptionAlgorithm'' (zenum [''AES-256-GCM'']), zreq ''sizeBytes'' zcount, zreq ''verified'' zbool]"

definition backupManifestEntrySchema :: zschema where
  "backupManifestEntrySchema =
     zstrict [zreq ''service'' (zenum resilienceServiceNames), zreq ''fileName'' (zstr (zif backup_file_name)), zreq ''checksum'' (zstr (zif hex64)),
              zreq ''sizeBytes'' zcount, zreq ''migrationVersion'' (znull (zlen 1 128))]"

definition entry_services :: "json \<Rightarrow> json option list" where
  "entry_services v = (case jmember (Some v) ''entries'' of Some (JArr es) \<Rightarrow> map (\<lambda>e. jmember (Some e) ''service'') es | _ \<Rightarrow> [])"

definition backupManifestSchema :: "zod_env \<Rightarrow> zschema" where
  "backupManifestSchema z v =
     Option.bind (zstrict [zreq ''manifestVersion'' (zenum [''1.0'']), zreq ''backupSetId'' zopaque, zreq ''createdAt'' (zdate z),
        zreq ''encryptionAlgorithm'' (zenum [''AES-256-GCM'']), zreq ''keyDerivation'' (zenum [''raw-256-bit'']), zreq ''entries'' (zarr 1 16 backupManifestEntrySchema)] v)
       (zif (\<lambda>m. distinct (entry_services m)))"

definition reconciliationSummarySchema :: "zod_env \<Rightarrow> zschema" where
  "reconciliationSummarySchema z =
     zstrict [zreq ''service'' (zenum resilienceServiceNames), zreq ''status'' (zenum [''PASS'', ''FAIL'']), zreq ''issueCount'' zcount, zreq ''checkedAt'' (zdate z)]"

definition recoveryDrillSchema :: "zod_env \<Rightarrow> zschema" where
  "recoveryDrillSchema z =
     zstrict [zreq ''drillId'' zopaque, zreq ''type'' (zenum recoveryDrillTypes), zreq ''state'' (zenum recoveryDrillStates), zreq ''startedAt'' (zdate z),
              zreq ''completedAt'' (znull (zdate z)), zreq ''requestedBy'' zopaque, zreq ''backupSetId'' (znull zopaque),
              zreq ''measuredRecoveryPointAgeSeconds'' (znull zcount), zreq ''measuredRecoveryDurationMs'' (znull zcount),
              zreq ''reconciliations'' (zarr 0 16 (reconciliationSummarySchema z)), zreq ''failureCode'' (znull (zenum resilienceFailureCodes)),
              zreq ''acknowledgedAt'' (znull (zdate z)), zreq ''acknowledgedBy'' (znull zopaque)]"

definition drillAuditEventSchema :: "zod_env \<Rightarrow> zschema" where
  "drillAuditEventSchema z =
     zstrict [zreq ''eventId'' zopaque, zreq ''drillId'' zopaque, zreq ''state'' (zenum recoveryDrillStates), zreq ''occurredAt'' (zdate z), zreq ''note'' (znull (zlen 0 500))]"

definition operatorAcknowledgementRequestSchema :: zschema where
  "operatorAcknowledgementRequestSchema = zstrict [zreq ''reason'' (ztrimmed 8 500)]"

definition recordPlannedDrillRequestSchema :: zschema where
  "recordPlannedDrillRequestSchema = zstrict [zreq ''type'' (zenum recoveryDrillTypes), zopt ''note'' (ztrimmed 0 500)]"

definition drillHistoryQuerySchema :: zschema where
  "drillHistoryQuerySchema = zstrict [zdef ''limit'' (JInt 20) (zpage 50), zopt ''cursor'' zopaque, zopt ''state'' (zenum recoveryDrillStates)]"

definition drillHistoryResponseSchema :: "zod_env \<Rightarrow> zschema" where
  "drillHistoryResponseSchema z = zstrict [zreq ''drills'' (zarr 0 50 (recoveryDrillSchema z)), zreq ''nextCursor'' (znull zopaque)]"

definition recoveryReadinessSchema :: "zod_env \<Rightarrow> zschema" where
  "recoveryReadinessSchema z =
     zstrict [zreq ''platformState'' (zenum resilienceHealthStates), zreq ''services'' (zarr 0 16 (serviceHealthSchema z)),
              zreq ''dependencies'' (zarr 0 16 (dependencyHealthSchema z)), zreq ''latestBackup'' (znull (backupSetSummarySchema z)),
              zreq ''latestDrill'' (znull (recoveryDrillSchema z)), zreq ''generatedAt'' (zdate z)]"

section \<open>Status of the message layer\<close>

text \<open>\<open>/^[a-z][a-z0-9-]*\.v[0-9]+(:[0-9a-f]{6})?$/u\<close>\<close>

definition key_fingerprint :: "string \<Rightarrow> bool" where
  "key_fingerprint s =
     (len_in 3 80 s \<and> (case split_on CHR '':'' s of
        [k] \<Rightarrow> KEY_ID_PATTERN k
      | [k, h] \<Rightarrow> KEY_ID_PATTERN k \<and> length h = 6 \<and> list_all (\<lambda>c. is_digit c \<or> c \<in> set ''abcdef'') h
      | _ \<Rightarrow> False))"

abbreviation zfingerprint :: zschema where "zfingerprint \<equiv> zstr (zif key_fingerprint)"

definition sabclRotationEntrySchema :: zschema where
  "sabclRotationEntrySchema =
     zstrict [zreq ''service'' (zlen 1 64), zreq ''active'' (znull zfingerprint), zreq ''accepted'' (zarr 0 16 zfingerprint), zreq ''revoked'' (zarr 0 16 zfingerprint)]"

definition sabclRouteHealthSchema :: zschema where
  "sabclRouteHealthSchema = zstrict [zreq ''routeId'' (zlen 3 64), zreq ''service'' (zlen 1 64), zreq ''reachable'' zbool]"

definition zrecord :: "zschema \<Rightarrow> zschema" where
  "zrecord p v =
     (case v of
        JObj es \<Rightarrow> if list_all (\<lambda>(k, x). length k \<le> 64 \<and> (case x of Some y \<Rightarrow> p y \<noteq> None | None \<Rightarrow> False)) es then Some v else None
      | _ \<Rightarrow> None)"

definition sabclRouterStatusSchema :: zschema where
  "sabclRouterStatusSchema =
     zstrict [zreq ''protocolVersion'' (zlen 1 32), zreq ''mode'' (zenum [''strict'', ''compatible'', ''off'']), zreq ''strict'' zbool, zreq ''routerKey'' zfingerprint,
              zreq ''rotation'' (zarr 0 32 sabclRotationEntrySchema), zreq ''routes'' (zarr 0 64 (zlen 3 64)), zreq ''reachability'' (zarr 0 64 sabclRouteHealthSchema),
              zreq ''padding'' (zstrict [zreq ''policy'' (zlen 0 32), zreq ''unit'' (zlen 0 16)]), zreq ''counters'' (zrecord zcount),
              zreq ''replayState'' (zenum [''ok'', ''unavailable''])]"

definition sabclStatusResponseSchema :: zschema where
  "sabclStatusResponseSchema =
     zstrict [zreq ''protocolVersion'' (zlen 1 32), zreq ''mode'' (zenum [''strict'', ''compatible'', ''off'']), zreq ''strict'' zbool,
              zreq ''gatewayKey'' (znull zfingerprint), zreq ''peerKeyIds'' (zarr 0 32 (zlen 3 64)), zreq ''routerReachable'' zbool,
              zreq ''router'' (znull sabclRouterStatusSchema)]"

section \<open>Members of a parsed document\<close>

text \<open>All member names of a document, at any depth.\<close>

fun member_names :: "json \<Rightarrow> string set" where
  "member_names (JArr xs) = (\<Union>x \<in> set xs. member_names x)"
| "member_names (JObj es) = (\<Union>(k, v) \<in> set es. insert k (case v of None \<Rightarrow> {} | Some x \<Rightarrow> member_names x))"
| "member_names _ = {}"

definition names_within :: "string set \<Rightarrow> zschema \<Rightarrow> bool" where
  "names_within S p = (\<forall>v w. p v = Some w \<longrightarrow> member_names w \<subseteq> S)"

named_theorems name_rules

lemma names_within_scalar [name_rules]:
  "names_within S (zstr f)" "names_within S (zlen a b)" "names_within S (ztrimmed a b)" "names_within S (zenum xs)" "names_within S (zint lo hi)"
  "names_within S zcount" "names_within S zbool" "names_within S ztrue"
  by (auto simp: names_within_def zstr_def zlen_def ztrimmed_def zenum_def zint_def zcount_def zbool_def ztrue_def zif_def split: json.splits if_splits)

lemma names_within_null [name_rules]: "names_within S p \<Longrightarrow> names_within S (znull p)"
  by (auto simp: names_within_def znull_def split: if_splits)

lemma zall_members: "zall p xs = Some ys \<Longrightarrow> y \<in> set ys \<Longrightarrow> \<exists>x \<in> set xs. p x = Some y"
  by (induction xs arbitrary: ys) (auto split: option.splits)

lemma names_within_arr [name_rules]: "names_within S p \<Longrightarrow> names_within S (zarr a b p)"
  by (fastforce simp: names_within_def zarr_def dest: zall_members split: json.splits if_splits)

lemma zfields_members:
  assumes "zfields fs es = Some out" "(k, x) \<in> set out"
  shows "\<exists>p v. (k, p) \<in> set fs \<and> p v = Some x \<and> x \<noteq> None"
  using assms
proof (induction fs es arbitrary: out rule: zfields.induct)
  case (2 k' p fs es)
  from "2.prems"(1) obtain r rest where r: "p (zget es k') = Some r" "zfields fs es = Some rest" "out = (case r of None \<Rightarrow> rest | Some x \<Rightarrow> (k', Some x) # rest)"
    by (auto split: option.splits)
  show ?case
  proof (cases "(k, x) \<in> set rest")
    case True
    with "2.IH" [OF r(1,2)] show ?thesis by auto
  next
    case False
    with "2.prems"(2) r(3) obtain y where "r = Some y" "k = k'" "x = Some y" by (auto split: option.splits)
    with r(1) show ?thesis by auto
  qed
qed simp

definition field_within :: "string set \<Rightarrow> zfield \<Rightarrow> bool" where
  "field_within S f = (fst f \<in> S \<and> (\<forall>v w. snd f v = Some (Some w) \<longrightarrow> member_names w \<subseteq> S))"

lemma field_within_rules [name_rules]:
  "k \<in> S \<Longrightarrow> names_within S p \<Longrightarrow> field_within S (zreq k p)"
  "k \<in> S \<Longrightarrow> names_within S p \<Longrightarrow> field_within S (zopt k p)"
  by (auto simp: field_within_def names_within_def zreq_def zopt_def split: option.splits)

lemma names_within_obj [name_rules]: "list_all (field_within S) fs \<Longrightarrow> names_within S (zstrict fs)"
proof -
  assume f: "list_all (field_within S) fs"
  have "member_names (JObj out) \<subseteq> S" if out: "zfields fs es = Some out" for es out
  proof -
    have "k \<in> S \<and> (\<forall>w. x = Some w \<longrightarrow> member_names w \<subseteq> S)" if m: "(k, x) \<in> set out" for k x
    proof -
      obtain p v where p: "(k, p) \<in> set fs" "p v = Some x" using zfields_members [OF out m] by blast
      then have "field_within S (k, p)" using f by (auto simp: list_all_iff)
      with p(2) show ?thesis by (auto simp: field_within_def)
    qed
    then show ?thesis by (fastforce split: option.splits)
  qed
  then show ?thesis by (auto simp: names_within_def zobj_def simp del: member_names.simps split: json.splits if_splits)
qed

definition recovery_members :: "string set" where
  "recovery_members = set [''platformState'', ''services'', ''dependencies'', ''latestBackup'', ''latestDrill'', ''generatedAt'', ''service'', ''state'', ''failureCode'',
     ''checkedAt'', ''name'', ''kind'', ''backupSetId'', ''createdAt'', ''manifestChecksum'', ''encryptionAlgorithm'', ''sizeBytes'', ''verified'', ''drillId'', ''type'',
     ''startedAt'', ''completedAt'', ''requestedBy'', ''measuredRecoveryPointAgeSeconds'', ''measuredRecoveryDurationMs'', ''reconciliations'', ''status'', ''issueCount'',
     ''acknowledgedAt'', ''acknowledgedBy'', ''drills'', ''nextCursor'', ''eventId'', ''occurredAt'', ''note'', ''events'']"

lemma recovery_declared:
  "''platformState'' \<in> recovery_members" "''services'' \<in> recovery_members" "''dependencies'' \<in> recovery_members" "''latestBackup'' \<in> recovery_members" "''latestDrill'' \<in> recovery_members" "''generatedAt'' \<in> recovery_members"
  "''service'' \<in> recovery_members" "''state'' \<in> recovery_members" "''failureCode'' \<in> recovery_members" "''checkedAt'' \<in> recovery_members" "''name'' \<in> recovery_members" "''kind'' \<in> recovery_members"
  "''backupSetId'' \<in> recovery_members" "''createdAt'' \<in> recovery_members" "''manifestChecksum'' \<in> recovery_members" "''encryptionAlgorithm'' \<in> recovery_members" "''sizeBytes'' \<in> recovery_members" "''verified'' \<in> recovery_members"
  "''drillId'' \<in> recovery_members" "''type'' \<in> recovery_members" "''startedAt'' \<in> recovery_members" "''completedAt'' \<in> recovery_members" "''requestedBy'' \<in> recovery_members" "''measuredRecoveryPointAgeSeconds'' \<in> recovery_members"
  "''measuredRecoveryDurationMs'' \<in> recovery_members" "''reconciliations'' \<in> recovery_members" "''status'' \<in> recovery_members" "''issueCount'' \<in> recovery_members" "''acknowledgedAt'' \<in> recovery_members" "''acknowledgedBy'' \<in> recovery_members"
  "''drills'' \<in> recovery_members" "''nextCursor'' \<in> recovery_members" "''eventId'' \<in> recovery_members" "''occurredAt'' \<in> recovery_members" "''note'' \<in> recovery_members" "''events'' \<in> recovery_members"
  by (simp_all add: recovery_members_def)

lemma recovery_names:
  "names_within recovery_members (recoveryDrillSchema z)" "names_within recovery_members (recoveryReadinessSchema z)"
  "names_within recovery_members (drillHistoryResponseSchema z)" "names_within recovery_members (drillAuditEventSchema z)"
  unfolding recoveryDrillSchema_def recoveryReadinessSchema_def drillHistoryResponseSchema_def drillAuditEventSchema_def serviceHealthSchema_def dependencyHealthSchema_def
    backupSetSummarySchema_def reconciliationSummarySchema_def
  by (intro name_rules; simp add: name_rules recovery_declared)+

end
