(* ===== verification/GatewayClients.thy ===== *)
theory GatewayClients
  imports Contracts
begin

text \<open>
  How the gateway talks to the services (\<open>apps/api-gateway/src\<close>): the clients of the identity service
  (\<open>auth/identity.client.ts\<close>), the ledger (\<open>accounts/ledger.client.ts\<close>), payments (\<open>transfers/payments.client.ts\<close>), risk
  (\<open>risk/risk.client.ts\<close>) and recovery (\<open>resilience/resilience.client.ts\<close>), the SABCL transport
  (\<open>sabcl/sabcl-transport.service.ts\<close>) and the customer of a session (\<open>accounts/session-customer.ts\<close>).  An operation
  appends the calls it makes to a log; what a service answers is a parameter and may depend on everything that was
  called before.
\<close>

section \<open>Calls and their log\<close>

datatype gw_service = IdentityService | LedgerService | PaymentsService | RiskService | ResilienceService | RouterService

record http_call =
  hc_service :: gw_service
  hc_method :: http_method
  hc_path :: string
  hc_headers :: "(string \<times> string) list"
  hc_body :: "json option"

datatype gw_call = Fetch http_call | ViaSabcl string inner_request

text \<open>The mode of the transport is \<open>Off\<close> when it is not configured; \<open>ge_ownKey\<close> is the abbreviated key of the gateway and
  \<open>ge_peerKeyIds\<close> lists the key identifiers of its keyring, both used only when it is.  \<open>ge_fetch\<close> gives the status and
  the JSON body of an answer, if one arrives in time; \<open>ge_sabcl\<close> is what the sending client returns.\<close>

record gw_env =
  ge_cfg :: gateway_config
  ge_mode :: sabcl_mode
  ge_ownKey :: string
  ge_peerKeyIds :: "string list"
  ge_fetch :: "gw_call list \<Rightarrow> http_call \<Rightarrow> (int \<times> json option) option"
  ge_sabcl :: "gw_call list \<Rightarrow> string \<Rightarrow> inner_request \<Rightarrow> (sabcl_error, inner_response) res"
  ge_stringify :: "json \<Rightarrow> string"
  ge_parse :: "string \<Rightarrow> json option"
  ge_zod :: zod_env
  ge_uuid :: "nat \<Rightarrow> string"
  ge_nowIso :: string
  ge_sha256 :: "string \<Rightarrow> string"

record gw_request =
  gr_cookie :: "string option"
  gr_correlationId :: string
  gr_ip :: string
  gr_userAgent :: "string option"
  gr_csrf :: "string option"
  gr_idempotencyKey :: "string option"

type_synonym 'a gw = "gw_call list \<Rightarrow> (gw_error, 'a) res \<times> gw_call list"

definition gwReturn :: "'a \<Rightarrow> 'a gw" where
  "gwReturn a log = (Inr a, log)"

definition gwFail :: "gw_error \<Rightarrow> 'a gw" where
  "gwFail e log = (Inl e, log)"

definition gwThen :: "'a gw \<Rightarrow> ('a \<Rightarrow> 'b gw) \<Rightarrow> 'b gw" where
  "gwThen m f log = (case m log of (Inl e, log') \<Rightarrow> (Inl e, log') | (Inr a, log') \<Rightarrow> f a log')"

definition gwLift :: "(gw_error, 'a) res \<Rightarrow> 'a gw" where
  "gwLift r log = (r, log)"

definition gwSend :: "gw_env \<Rightarrow> http_call \<Rightarrow> (int \<times> json option) option gw" where
  "gwSend env c log = (Inr (ge_fetch env log c), log @ [Fetch c])"

definition gwSabcl :: "gw_env \<Rightarrow> string \<Rightarrow> inner_request \<Rightarrow> (sabcl_error, inner_response) res gw" where
  "gwSabcl env capability r log = (Inr (ge_sabcl env log capability r), log @ [ViaSabcl capability r])"

definition status_ok :: "int \<Rightarrow> bool" where
  "status_ok s = (200 \<le> s \<and> s \<le> 299)"

definition error_member :: "json option \<Rightarrow> error_body option" where
  "error_member body =
     (case jmember body ''error'' of
        Some (JObj es) \<Rightarrow> Some \<lparr>eb_code = jtext (zget es ''code''), eb_message = jtext (zget es ''message'')\<rparr>
      | _ \<Rightarrow> None)"

text \<open>\<open>body ?? fallback\<close>\<close>

definition no_body :: "json option \<Rightarrow> bool" where
  "no_body b = (b = None \<or> b = Some JNull)"

definition post_body :: "http_method \<Rightarrow> json option \<Rightarrow> json option" where
  "post_body m body = (if m = POST then Some (case body of None \<Rightarrow> JObj [] | Some b \<Rightarrow> if b = JNull then JObj [] else b) else None)"

definition json_headers :: "string \<Rightarrow> string \<Rightarrow> string \<Rightarrow> (string \<times> string) list" where
  "json_headers tokenName token correlationId =
     [(''accept'', ''application/json''), (''content-type'', ''application/json''), (tokenName, token), (''x-correlation-id'', correlationId)]"

section \<open>Identity\<close>

definition identity_call ::
  "gw_env \<Rightarrow> gw_request \<Rightarrow> string \<Rightarrow> http_method \<Rightarrow> json option \<Rightarrow> string \<Rightarrow> string option \<Rightarrow> http_call" where
  "identity_call env req endpoint m body sessionId csrfToken =
     \<lparr>hc_service = IdentityService, hc_method = m, hc_path = endpoint,
      hc_headers = json_headers ''x-aegis-internal-token'' (gc_identityInternalToken (ge_cfg env)) (gr_correlationId req)
        @ [(''x-aegis-client-ip-hash'', ge_sha256 env (if gr_ip req = [] then ''unknown'' else gr_ip req))]
        @ (case gr_userAgent req of Some ua \<Rightarrow> if ua = [] then [] else [(''x-aegis-user-agent'', take 512 ua)] | None \<Rightarrow> [])
        @ (if sessionId = [] then [] else [(''x-aegis-session-id'', sessionId)])
        @ (case csrfToken of Some c \<Rightarrow> if c = [] then [] else [(''x-csrf-token'', c)] | None \<Rightarrow> []),
      hc_body = post_body m body\<rparr>"

definition identity_request ::
  "gw_env \<Rightarrow> gw_request \<Rightarrow> string \<Rightarrow> http_method \<Rightarrow> json option \<Rightarrow> string \<Rightarrow> string option \<Rightarrow> json option gw" where
  "identity_request env req endpoint m body sessionId csrfToken =
     gwThen (gwSend env (identity_call env req endpoint m body sessionId csrfToken)) (\<lambda>answer.
       case answer of
         None \<Rightarrow> gwFail (HttpException 503 None)
       | Some (status, b) \<Rightarrow> if status_ok status then gwReturn b else gwFail (HttpException status (error_member b)))"

section \<open>Ledger and payments, directly or over SABCL\<close>

definition service_call :: "gw_service \<Rightarrow> string \<Rightarrow> gw_request \<Rightarrow> string \<Rightarrow> http_method \<Rightarrow> json option \<Rightarrow> string option \<Rightarrow> http_call" where
  "service_call svc token req path m body customerId =
     \<lparr>hc_service = svc, hc_method = m, hc_path = path,
      hc_headers = json_headers ''x-aegis-internal-token'' token (gr_correlationId req)
        @ (case customerId of Some c \<Rightarrow> if c = [] then [] else [(''x-aegis-customer-id'', c)] | None \<Rightarrow> []),
      hc_body = post_body m body\<rparr>"

definition inner_call :: "gw_env \<Rightarrow> gw_request \<Rightarrow> string \<Rightarrow> string \<Rightarrow> http_method \<Rightarrow> json option \<Rightarrow> string option \<Rightarrow> inner_request" where
  "inner_call env req capability path m body customerId =
     \<lparr>ir_op = capability @ (if m = GET then ''.get'' else ''.post''), ir_method = m, ir_path = path, ir_body = map_option (ge_stringify env) body,
      ir_actor = (case customerId of Some c \<Rightarrow> if c = [] then None else Some (Some c) | None \<Rightarrow> None), ir_correlationId = gr_correlationId req\<rparr>"

definition parse_reply :: "gw_error \<Rightarrow> (json option \<Rightarrow> json option option) \<Rightarrow> json option \<Rightarrow> json option gw" where
  "parse_reply unavailable schema body = (case schema body of Some out \<Rightarrow> gwReturn out | None \<Rightarrow> gwFail unavailable)"

definition LEDGER_UNAVAILABLE :: gw_error where
  "LEDGER_UNAVAILABLE = bare 503 ''LEDGER_UNAVAILABLE''"

definition PAYMENTS_UNAVAILABLE :: gw_error where
  "PAYMENTS_UNAVAILABLE = bare 503 ''PAYMENTS_UNAVAILABLE''"

definition ledger_direct ::
  "gw_env \<Rightarrow> gw_request \<Rightarrow> (json option \<Rightarrow> json option option) \<Rightarrow> string \<Rightarrow> http_method \<Rightarrow> json option \<Rightarrow> string option \<Rightarrow> json option gw" where
  "ledger_direct env req schema endpoint m body customerId =
     gwThen (gwSend env (service_call LedgerService (gc_ledgerInternalToken (ge_cfg env)) req endpoint m body customerId)) (\<lambda>answer.
       case answer of
         None \<Rightarrow> gwFail LEDGER_UNAVAILABLE
       | Some (status, b) \<Rightarrow>
           if \<not> status_ok status then gwFail (HttpException status (error_member b)) else parse_reply LEDGER_UNAVAILABLE schema b)"

definition capabilityForEndpoint :: "string \<Rightarrow> string" where
  "capabilityForEndpoint endpoint = (if starts_with ''/internal/customer-transfers'' endpoint then ''ledger.postings'' else ''ledger.accounts'')"

text \<open>Only a protocol error falls back to the direct call, and only when the mode is not strict.\<close>

definition is_sabcl_error :: "sabcl_error \<Rightarrow> bool" where
  "is_sabcl_error e = (case e of SabclError _ \<Rightarrow> True | _ \<Rightarrow> False)"

definition ledger_sabcl_request ::
  "gw_env \<Rightarrow> gw_request \<Rightarrow> (json option \<Rightarrow> json option option) \<Rightarrow> string \<Rightarrow> http_method \<Rightarrow> json option \<Rightarrow> string option \<Rightarrow> json option gw" where
  "ledger_sabcl_request env req schema endpoint m body customerId =
     (let capability = capabilityForEndpoint endpoint in
      gwThen (gwSabcl env capability (inner_call env req capability endpoint m body customerId)) (\<lambda>answer.
        case answer of
          Inl e \<Rightarrow>
            if is_sabcl_error e \<and> ge_mode env \<noteq> Strict then ledger_direct env req schema endpoint m body customerId else gwFail LEDGER_UNAVAILABLE
        | Inr r \<Rightarrow>
            let b = Option.bind (is_body r) (ge_parse env) in
            if 400 \<le> is_status r then gwFail (HttpException (is_status r) (error_member b)) else parse_reply LEDGER_UNAVAILABLE schema b))"

definition ledger_request ::
  "gw_env \<Rightarrow> gw_request \<Rightarrow> (json option \<Rightarrow> json option option) \<Rightarrow> string \<Rightarrow> http_method \<Rightarrow> json option \<Rightarrow> string option \<Rightarrow> json option gw" where
  "ledger_request env req schema endpoint m body customerId =
     (if ge_mode env \<noteq> Off then ledger_sabcl_request env req schema endpoint m body customerId else ledger_direct env req schema endpoint m body customerId)"

definition gateway_payments_error :: "int \<Rightarrow> json option \<Rightarrow> gw_error" where
  "gateway_payments_error status b = (if no_body b then bare status ''PAYMENTS_UNAVAILABLE'' else HttpException status (error_member b))"

definition payments_direct ::
  "gw_env \<Rightarrow> gw_request \<Rightarrow> (json option \<Rightarrow> json option option) \<Rightarrow> string \<Rightarrow> http_method \<Rightarrow> json option \<Rightarrow> string option \<Rightarrow> json option gw" where
  "payments_direct env req schema path m body customerId =
     gwThen (gwSend env (service_call PaymentsService (gc_paymentsInternalToken (ge_cfg env)) req path m body customerId)) (\<lambda>answer.
       case answer of
         None \<Rightarrow> gwFail PAYMENTS_UNAVAILABLE
       | Some (status, b) \<Rightarrow> if \<not> status_ok status then gwFail (gateway_payments_error status b) else parse_reply PAYMENTS_UNAVAILABLE schema b)"

definition payments_sabcl_request ::
  "gw_env \<Rightarrow> gw_request \<Rightarrow> (json option \<Rightarrow> json option option) \<Rightarrow> string \<Rightarrow> http_method \<Rightarrow> json option \<Rightarrow> string option \<Rightarrow> json option gw" where
  "payments_sabcl_request env req schema path m body customerId =
     gwThen (gwSabcl env ''payments.transfer'' (inner_call env req ''payments.transfer'' path m body customerId)) (\<lambda>answer.
       case answer of
         Inl e \<Rightarrow> if is_sabcl_error e \<and> ge_mode env \<noteq> Strict then payments_direct env req schema path m body customerId else gwFail PAYMENTS_UNAVAILABLE
       | Inr r \<Rightarrow>
           let b = Option.bind (is_body r) (ge_parse env) in
           if 400 \<le> is_status r then gwFail (gateway_payments_error (is_status r) b) else parse_reply PAYMENTS_UNAVAILABLE schema b)"

definition payments_request ::
  "gw_env \<Rightarrow> gw_request \<Rightarrow> (json option \<Rightarrow> json option option) \<Rightarrow> string \<Rightarrow> http_method \<Rightarrow> json option \<Rightarrow> string option \<Rightarrow> json option gw" where
  "payments_request env req schema path m body customerId =
     (if ge_mode env \<noteq> Off then payments_sabcl_request env req schema path m body customerId else payments_direct env req schema path m body customerId)"

text \<open>A schema of a document, the one that accepts anything and \<open>z.undefined()\<close>.\<close>

definition document :: "zschema \<Rightarrow> json option \<Rightarrow> json option option" where
  "document p body = (case body of None \<Rightarrow> None | Some v \<Rightarrow> map_option Some (p v))"

definition anything :: "json option \<Rightarrow> json option option" where
  "anything body = Some body"

definition nothing :: "json option \<Rightarrow> json option option" where
  "nothing body = (if body = None then Some None else None)"

section \<open>Risk\<close>

definition gw_risk_request ::
  "gw_env \<Rightarrow> gw_request \<Rightarrow> string \<Rightarrow> http_method \<Rightarrow> json option \<Rightarrow> (string \<times> string option) option \<Rightarrow> json option gw" where
  "gw_risk_request env req path m body operator =
     gwThen (gwSend env
       \<lparr>hc_service = RiskService, hc_method = m, hc_path = path,
        hc_headers = json_headers ''x-aegis-internal-token'' (gc_riskInternalToken (ge_cfg env)) (gr_correlationId req)
          @ (case operator of None \<Rightarrow> []
             | Some (session, csrf) \<Rightarrow> (''x-aegis-operator-session'', session) # (case csrf of Some c \<Rightarrow> if c = [] then [] else [(''x-csrf-token'', c)] | None \<Rightarrow> [])),
        hc_body = post_body m body\<rparr>) (\<lambda>answer.
       case answer of
         None \<Rightarrow> gwFail (coded 503 ''RISK_UNAVAILABLE'' ''The operation cannot be completed securely.'')
       | Some (status, b) \<Rightarrow>
           if status_ok status then gwReturn b
           else if status = 401 \<or> status = 403 then gwFail (coded status ''OPERATOR_UNAUTHORIZED'' ''Security operator authentication is required.'')
           else gwFail (coded status ''SECURITY_CONTROL_ACTIVE'' ''The operation cannot be completed.''))"

definition risk_check :: "gw_env \<Rightarrow> gw_request \<Rightarrow> string \<Rightarrow> (string \<times> string) list \<Rightarrow> json option gw" where
  "risk_check env req operation scopes =
     gwThen (gw_risk_request env req ''/internal/v1/controls/check'' POST
       (Some (JObj [(''operation'', Some (JStr operation)),
                    (''scopes'', Some (JArr (map (\<lambda>(t, i). JObj [(''type'', Some (JStr t)), (''id'', Some (JStr i))]) scopes))),
                    (''correlationId'', Some (JStr (gr_correlationId req)))])) None)
       (parse_reply OtherError (document (controlCheckResponseSchema (ge_zod env))))"

definition risk_evaluate :: "gw_env \<Rightarrow> gw_request \<Rightarrow> string \<Rightarrow> string \<Rightarrow> string \<Rightarrow> json option gw" where
  "risk_evaluate env req operation subjectId sessionId =
     gwThen (gw_risk_request env req ''/internal/v1/assessments/evaluate'' POST
       (Some (JObj [(''operation'', Some (JStr operation)), (''subjectId'', Some (JStr subjectId)), (''sessionId'', Some (JStr sessionId)),
                    (''stepUpVerified'', Some (JBool True)), (''evaluationId'', Some (JStr (ge_uuid env 0))), (''occurredAt'', Some (JStr (ge_nowIso env))),
                    (''correlationId'', Some (JStr (gr_correlationId req)))])) None)
       (parse_reply OtherError (document (riskAssessmentJson (ge_zod env))))"

record gw_event =
  gv_eventType :: string
  gv_severity :: string
  gv_subjectId :: string
  gv_accountId :: "string option"
  gv_sessionId :: "string option"
  gv_attributes :: "(string \<times> string) list"

definition event_json :: "gw_env \<Rightarrow> gw_request \<Rightarrow> gw_event \<Rightarrow> json" where
  "event_json env req e =
     JObj [(''eventType'', Some (JStr (gv_eventType e))), (''severity'', Some (JStr (gv_severity e))), (''subjectId'', Some (JStr (gv_subjectId e))),
           (''accountId'', map_option JStr (gv_accountId e)), (''sessionId'', map_option JStr (gv_sessionId e)),
           (''attributes'', Some (JObj (map (\<lambda>(k, v). (k, Some (JStr v))) (gv_attributes e)))), (''schemaVersion'', Some (JStr ''1.0'')),
           (''eventId'', Some (JStr (ge_uuid env 1))), (''source'', Some (JStr ''GATEWAY'')), (''sourceEventId'', Some (JStr (''gateway:'' @ ge_uuid env 2))),
           (''occurredAt'', Some (JStr (ge_nowIso env))), (''correlationId'', Some (JStr (gr_correlationId req)))]"

definition eventJsonSchema :: "zod_env \<Rightarrow> zschema" where
  "eventJsonSchema z =
     zstrict [zreq ''schemaVersion'' (zenum [''1.0'']), zreq ''eventId'' (zuuid z),
              zreq ''source'' (zenum [''GATEWAY'', ''IDENTITY'', ''PAYMENTS'', ''LEDGER'', ''INFRASTRUCTURE'', ''CHANNEL_ADAPTER'']), zreq ''sourceEventId'' (zlen 8 128),
              zreq ''eventType'' (zenum securityEventTypes), zreq ''severity'' (zenum [''INFO'', ''LOW'', ''MEDIUM'', ''HIGH'', ''CRITICAL'']),
              zreq ''occurredAt'' (zdate z), zopt ''subjectId'' zopaque, zopt ''accountId'' zopaque, zopt ''sessionId'' zopaque, zopt ''deviceId'' zopaque,
              zopt ''recipientId'' zopaque, zreq ''correlationId'' (zuuid z),
              zdef ''attributes'' (JObj []) (zstrict (map (\<lambda>k. zopt k (zlen 0 256)) allowedAttributes))]"

text \<open>The event is checked before it is sent; what becomes of the request is ignored.\<close>

definition risk_emit :: "gw_env \<Rightarrow> gw_request \<Rightarrow> gw_event \<Rightarrow> unit gw" where
  "risk_emit env req e =
     (case eventJsonSchema (ge_zod env) (event_json env req e) of
        None \<Rightarrow> gwFail OtherError
      | Some body \<Rightarrow>
          gwThen (gwSend env \<lparr>hc_service = RiskService, hc_method = POST, hc_path = ''/internal/v1/events'',
            hc_headers = [(''content-type'', ''application/json''), (''x-aegis-source-token'', gc_riskGatewaySourceToken (ge_cfg env))], hc_body = Some body\<rparr>)
            (\<lambda>_. gwReturn ()))"

definition risk_operator :: "gw_env \<Rightarrow> gw_request \<Rightarrow> string \<Rightarrow> http_method \<Rightarrow> string \<times> string option \<Rightarrow> json option \<Rightarrow> json option gw" where
  "risk_operator env req path m operator body = gw_risk_request env req (''/internal/v1/operators'' @ path) m body (Some operator)"

section \<open>Recovery\<close>

definition RESILIENCE_UNAVAILABLE :: gw_error where
  "RESILIENCE_UNAVAILABLE = coded 503 ''RESILIENCE_UNAVAILABLE'' ''Recovery information is not available.''"

definition resilience_request :: "gw_env \<Rightarrow> gw_request \<Rightarrow> zschema \<Rightarrow> string \<Rightarrow> http_method \<Rightarrow> json option \<Rightarrow> json option gw" where
  "resilience_request env req schema path m body =
     gwThen (gwSend env
       \<lparr>hc_service = ResilienceService, hc_method = m, hc_path = path,
        hc_headers = json_headers ''x-aegis-source-token'' (gc_resilienceGatewaySourceToken (ge_cfg env)) (gr_correlationId req), hc_body = post_body m body\<rparr>) (\<lambda>answer.
       case answer of
         None \<Rightarrow> gwFail RESILIENCE_UNAVAILABLE
       | Some (status, b) \<Rightarrow>
           if status_ok status then parse_reply RESILIENCE_UNAVAILABLE (document schema) b
           else if status = 409 then gwFail (coded 409 ''RESILIENCE_STATE_CONFLICT'' ''The recovery record has already moved on.'')
           else if status = 404 then gwFail (coded 404 ''RESILIENCE_RECORD_NOT_FOUND'' ''The recovery record was not found.'')
           else gwFail RESILIENCE_UNAVAILABLE)"

section \<open>Readiness of a service\<close>

text \<open>A readiness probe is a direct request in every mode.  It carries the token of the service and nothing of a customer.\<close>

definition ready_call :: "gw_service \<Rightarrow> (string \<times> string) list \<Rightarrow> http_call" where
  "ready_call svc headers = \<lparr>hc_service = svc, hc_method = GET, hc_path = ''/health/ready'', hc_headers = headers, hc_body = None\<rparr>"

definition probe :: "gw_env \<Rightarrow> gw_service \<Rightarrow> (string \<times> string) list \<Rightarrow> bool gw" where
  "probe env svc headers =
     gwThen (gwSend env (ready_call svc headers)) (\<lambda>answer.
       gwReturn (case answer of None \<Rightarrow> False | Some (status, b) \<Rightarrow> status_ok status))"

definition identity_ready :: "gw_env \<Rightarrow> bool gw" where
  "identity_ready env = probe env IdentityService [(''x-aegis-internal-token'', gc_identityInternalToken (ge_cfg env))]"

definition ledger_ready :: "gw_env \<Rightarrow> bool gw" where
  "ledger_ready env = probe env LedgerService [(''x-aegis-internal-token'', gc_ledgerInternalToken (ge_cfg env))]"

definition payments_ready :: "gw_env \<Rightarrow> bool gw" where
  "payments_ready env = probe env PaymentsService [(''x-aegis-internal-token'', gc_paymentsInternalToken (ge_cfg env))]"

text \<open>The router of the message layer is probed by the transport, which has no client when it is not configured.\<close>

definition transport_routerReady :: "gw_env \<Rightarrow> bool gw" where
  "transport_routerReady env = (if ge_mode env = Off then gwReturn False else probe env RouterService [])"

definition fetchRouterStatus :: "gw_env \<Rightarrow> json option gw" where
  "fetchRouterStatus env =
     gwThen (gwSend env \<lparr>hc_service = RouterService, hc_method = GET, hc_path = ''/sabcl/v1/status'', hc_headers = [], hc_body = None\<rparr>) (\<lambda>answer.
       gwReturn (case answer of
           None \<Rightarrow> None
         | Some (status, b) \<Rightarrow> if status_ok status then Option.bind b sabclRouterStatusSchema else None))"

section \<open>The customer of a session\<close>

definition gw_unauthenticatedError :: gw_error where
  "gw_unauthenticatedError = coded 401 ''UNAUTHENTICATED'' ''Authentication is required.''"

definition session_endpoint :: string where
  "session_endpoint = ''/api/v1/auth/session''"

definition session_of_cookie :: "gw_env \<Rightarrow> gw_request \<Rightarrow> (gw_error, string) res" where
  "session_of_cookie env req = readCookie (gr_cookie req) (gc_sessionCookieName (ge_cfg env))"

definition session_resolve :: "gw_env \<Rightarrow> gw_request \<Rightarrow> string gw" where
  "session_resolve env req =
     gwThen (gwLift (session_of_cookie env req)) (\<lambda>sessionId.
       if sessionId = [] then gwFail gw_unauthenticatedError
       else gwThen (identity_request env req session_endpoint GET None sessionId None) (\<lambda>session.
         case document (sessionResponseSchema (ge_zod env)) session of
           None \<Rightarrow> gwFail gw_unauthenticatedError
         | Some shown \<Rightarrow> gwReturn (jstring (jmember shown ''user'') ''id'')))"

section \<open>Members of accepted documents\<close>

lemma zfields_keys: "zfields fs es = Some out \<Longrightarrow> fst ` set out \<subseteq> fst ` set fs"
proof (induction fs es arbitrary: out rule: zfields.induct)
  case (2 k q fs es)
  from "2.prems" obtain r rest where r: "q (zget es k) = Some r" "zfields fs es = Some rest" "out = (case r of None \<Rightarrow> rest | Some x \<Rightarrow> (k, Some x) # rest)"
    by (auto split: option.splits)
  then have "fst ` set out \<subseteq> insert k (fst ` set rest)" by (cases r) auto
  also have "\<dots> \<subseteq> fst ` set ((k, q) # fs)" using "2.IH" [OF r(1,2)] by (simp add: subset_insertI2)
  finally show ?case .
qed simp

lemma zfields_get:
  assumes "zfields fs es = Some out" "map_of fs k = Some p" "distinct (map fst fs)"
  shows "p (zget es k) = Some (zget out k)"
  using assms
proof (induction fs es arbitrary: out rule: zfields.induct)
  case (2 k' q fs es)
  from "2.prems"(1) obtain r rest where r: "q (zget es k') = Some r" "zfields fs es = Some rest" "out = (case r of None \<Rightarrow> rest | Some x \<Rightarrow> (k', Some x) # rest)"
    by (auto split: option.splits)
  show ?case
  proof (cases "k = k'")
    case True
    have "map_of rest k' = None" using zfields_keys [OF r(2)] "2.prems"(3) by (auto simp: map_of_eq_None_iff)
    with True r "2.prems"(2) show ?thesis by (auto simp: zget_def split: option.splits)
  next
    case False
    then have "zget out k = zget rest k" using r(3) by (auto simp: zget_def split: option.splits)
    with "2.IH" [OF r(1,2)] False "2.prems"(2,3) show ?thesis by simp
  qed
qed simp

lemma zobj_member:
  assumes "zobj mode fs v = Some w" "map_of fs k = Some p" "distinct (map fst fs)"
  shows "\<exists>x. p x = Some (jmember (Some w) k)"
proof -
  have "k \<in> fst ` set fs" using assms(2) by (metis image_eqI fst_conv map_of_SomeD)
  then obtain es out ext where w: "w = JObj (out @ ext)" "zfields fs es = Some out" "\<forall>x. (k, x) \<notin> set ext"
    using assms(1) by (force simp: zobj_def split: json.splits if_splits)
  have "map_of ext k = None" using w(3) by (metis map_of_SomeD not_Some_eq)
  then have "jmember (Some w) k = zget out k" unfolding w(1) jmember_def by (simp add: zget_def map_add_def split: option.splits)
  with zfields_get [OF w(2) assms(2,3)] show ?thesis by auto
qed

lemma field_name [simp]: "fst (zreq k p) = k" "fst (zopt k p) = k" "fst (zdef k d p) = k"
  by (simp_all add: zreq_def zopt_def zdef_def)

lemma required_member:
  assumes "zobj mode fs v = Some w" "distinct (map fst fs)" "zreq k p \<in> set fs"
  shows "\<exists>x y. p x = Some y \<and> jmember (Some w) k = Some y"
proof -
  have "map_of fs k = Some (snd (zreq k p))" using assms(2,3) by (metis field_name(1) map_of_is_SomeI prod.collapse)
  from zobj_member [OF assms(1) this assms(2)] show ?thesis by (fastforce simp: zreq_def split: option.splits)
qed

lemma session_customer_uuid:
  assumes "document (sessionResponseSchema z) b = Some d"
  shows "zd_uuid z (jstring (jmember d ''user'') ''id'')"
proof -
  let ?user = "[zreq ''id'' (zuuid z), zreq ''phoneMasked'' (zlen 4 24), zreq ''preferredLanguage'' (zstr (zif preferredLanguageSchema)),
         zreq ''kycTier'' zcount, zreq ''status'' (zenum [''PENDING'', ''ACTIVE'', ''LOCKED'', ''DISABLED'']), zreq ''phoneVerified'' zbool]"
  obtain v w where w: "sessionResponseSchema z v = Some w" "d = Some w" using assms by (auto simp: document_def split: option.splits)
  obtain u u' where u: "zobj StripKeys ?user u = Some u'" "jmember d ''user'' = Some u'"
    using required_member [OF w(1) [unfolded sessionResponseSchema_def], of "''user''" "zobj StripKeys ?user"] w(2) by auto
  obtain x y where "zuuid z x = Some y" "jmember (Some u') ''id'' = Some y" using required_member [OF u(1), of "''id''" "zuuid z"] by auto
  then show ?thesis using u(2) by (auto simp: zstr_def zif_def jstring_def jtext_def split: json.splits if_splits)
qed

section \<open>What an operation calls\<close>

text \<open>Every call an operation adds to the log satisfies a predicate.\<close>

definition calls_within :: "(gw_call \<Rightarrow> bool) \<Rightarrow> 'a gw \<Rightarrow> bool" where
  "calls_within P m = (\<forall>log. \<exists>cs. snd (m log) = log @ cs \<and> list_all P cs)"

named_theorems call_rules

lemma calls_within_pure [call_rules]: "calls_within P (gwReturn a)" "calls_within P (gwFail e)" "calls_within P (gwLift r)"
  by (auto simp: calls_within_def gwReturn_def gwFail_def gwLift_def)

lemma calls_within_then [call_rules]:
  assumes "calls_within P m" "\<And>a. calls_within P (f a)"
  shows "calls_within P (gwThen m f)"
  unfolding calls_within_def
proof
  fix log
  obtain cs where cs: "snd (m log) = log @ cs" "list_all P cs" using assms(1) by (auto simp: calls_within_def)
  show "\<exists>cs. snd (gwThen m f log) = log @ cs \<and> list_all P cs"
  proof (cases "m log")
    case (Pair r log')
    show ?thesis
    proof (cases r)
      case (Inr a)
      obtain ds where "snd (f a log') = log' @ ds" "list_all P ds" using assms(2) by (auto simp: calls_within_def)
      with Pair Inr cs show ?thesis by (auto simp: gwThen_def)
    qed (use Pair cs in \<open>auto simp: gwThen_def\<close>)
  qed
qed

lemma calls_within_thenI:
  assumes "calls_within P m" "\<And>a log log1. m log = (Inr a, log1) \<Longrightarrow> calls_within P (f a)"
  shows "calls_within P (gwThen m f)"
proof -
  have "\<exists>cs. snd (gwThen m f log) = log @ cs \<and> list_all P cs" for log
  proof (cases "\<exists>a log1. m log = (Inr a, log1)")
    case True
    then obtain a log1 where a: "m log = (Inr a, log1)" by blast
    obtain cs where "log1 = log @ cs" "list_all P cs" using assms(1) a by (metis calls_within_def snd_conv)
    moreover obtain ds where "snd (f a log1) = log1 @ ds" "list_all P ds" using assms(2) [OF a] by (auto simp: calls_within_def)
    ultimately show ?thesis using a by (simp add: gwThen_def)
  next
    case False
    then obtain e log1 where "m log = (Inl e, log1)" by (metis surj_pair sum.exhaust)
    then show ?thesis using assms(1) by (auto simp: gwThen_def calls_within_def dest: spec [of _ log])
  qed
  then show ?thesis by (simp add: calls_within_def)
qed

lemma calls_within_send [call_rules]: "P (Fetch c) \<Longrightarrow> calls_within P (gwSend env c)"
  by (auto simp: calls_within_def gwSend_def)

lemma calls_within_sabcl [call_rules]: "P (ViaSabcl cap r) \<Longrightarrow> calls_within P (gwSabcl env cap r)"
  by (auto simp: calls_within_def gwSabcl_def)

lemma calls_within_if [call_rules]: "calls_within P m \<Longrightarrow> calls_within P m' \<Longrightarrow> calls_within P (if b then m else m')"
  by simp

lemma calls_within_option [call_rules]: "calls_within P m \<Longrightarrow> (\<And>x. calls_within P (f x)) \<Longrightarrow> calls_within P (case v of None \<Rightarrow> m | Some x \<Rightarrow> f x)"
  by (cases v) simp_all

lemma calls_within_reply [call_rules]: "calls_within P (parse_reply e schema b)"
  unfolding parse_reply_def by (intro call_rules)

lemma calls_within_mono: "calls_within P m \<Longrightarrow> (\<And>c. P c \<Longrightarrow> Q c) \<Longrightarrow> calls_within Q m"
  unfolding calls_within_def by (metis list.pred_mono_strong)

lemma calls_within_identity [call_rules]:
  "P (Fetch (identity_call env req endpoint m body sessionId csrf)) \<Longrightarrow> calls_within P (identity_request env req endpoint m body sessionId csrf)"
  unfolding identity_request_def by (intro call_rules) (auto split: option.splits prod.splits intro: call_rules)

lemma calls_within_risk [call_rules]:
  assumes "\<And>h. hc_service h = RiskService \<Longrightarrow> P (Fetch h)"
  shows "calls_within P (gw_risk_request env req path m body operator)" "calls_within P (risk_check env req operation scopes)"
    "calls_within P (risk_evaluate env req operation subject session)" "calls_within P (risk_emit env req e)"
    "calls_within P (risk_operator env req path m oper body)"
proof -
  have r: "calls_within P (gw_risk_request env req path m body operator)" for path m body operator
    unfolding gw_risk_request_def by (intro call_rules) (auto split: option.splits prod.splits intro: call_rules assms)
  show "calls_within P (gw_risk_request env req path m body operator)" "calls_within P (risk_check env req operation scopes)"
      "calls_within P (risk_evaluate env req operation subject session)" "calls_within P (risk_operator env req path m oper body)"
    unfolding risk_check_def risk_evaluate_def risk_operator_def by (intro call_rules r)+
  show "calls_within P (risk_emit env req e)" unfolding risk_emit_def by (intro call_rules) (simp add: assms)
qed

lemma calls_within_resilience [call_rules]:
  assumes "\<And>h. hc_service h = ResilienceService \<Longrightarrow> hc_path h = path \<Longrightarrow> P (Fetch h)"
  shows "calls_within P (resilience_request env req schema path m body)"
  unfolding resilience_request_def by (intro call_rules) (auto split: option.splits prod.splits intro: call_rules assms)

lemma calls_within_probe [call_rules]: "P (Fetch (ready_call svc headers)) \<Longrightarrow> calls_within P (probe env svc headers)"
  unfolding probe_def by (intro call_rules)

lemma calls_within_session [call_rules]:
  assumes "\<And>s. P (Fetch (identity_call env req session_endpoint GET None s None))"
  shows "calls_within P (session_resolve env req)"
  unfolding session_resolve_def by (intro call_rules assms)

text \<open>A client of a service behind the message layer calls it directly only when the mode is not strict, and over the layer only
  when it is configured.\<close>

definition client_call :: "gw_service \<Rightarrow> gw_env \<Rightarrow> gw_request \<Rightarrow> string \<Rightarrow> string \<Rightarrow> http_method \<Rightarrow> json option \<Rightarrow> string option \<Rightarrow> gw_call \<Rightarrow> bool" where
  "client_call svc env req capability path m body customerId c =
     (case c of
        Fetch h \<Rightarrow> ge_mode env \<noteq> Strict \<and> (\<exists>token. h = service_call svc token req path m body customerId)
      | ViaSabcl cap r \<Rightarrow> ge_mode env \<noteq> Off \<and> cap = capability \<and> r = inner_call env req capability path m body customerId)"

locale service_client =
  fixes service :: gw_service
    and capability :: "string \<Rightarrow> string"
    and request :: "gw_env \<Rightarrow> gw_request \<Rightarrow> (json option \<Rightarrow> json option option) \<Rightarrow> string \<Rightarrow> http_method \<Rightarrow> json option \<Rightarrow> string option \<Rightarrow> json option gw"
  assumes calls: "calls_within (client_call service env req (capability path) path m body customerId) (request env req schema path m body customerId)"
begin

lemma within:
  assumes "\<And>token. ge_mode env \<noteq> Strict \<Longrightarrow> P (Fetch (service_call service token req path m body customerId))"
    and "ge_mode env \<noteq> Off \<Longrightarrow> P (ViaSabcl (capability path) (inner_call env req (capability path) path m body customerId))"
  shows "calls_within P (request env req schema path m body customerId)"
  by (rule calls_within_mono [OF calls]) (use assms in \<open>auto simp: client_call_def split: gw_call.splits\<close>)

end

interpretation ledger_client: service_client LedgerService capabilityForEndpoint ledger_request
proof unfold_locales
  fix env req path m body customerId schema
  let ?P = "client_call LedgerService env req (capabilityForEndpoint path) path m body customerId"
  have d: "ge_mode env \<noteq> Strict \<Longrightarrow> calls_within ?P (ledger_direct env req schema path m body customerId)"
    unfolding ledger_direct_def by (intro call_rules) (auto simp: client_call_def split: option.splits prod.splits intro: call_rules)
  show "calls_within ?P (ledger_request env req schema path m body customerId)"
  proof (cases "ge_mode env = Off")
    case True
    with d show ?thesis by (simp add: ledger_request_def)
  next
    case False
    have "calls_within ?P (ledger_sabcl_request env req schema path m body customerId)"
      unfolding ledger_sabcl_request_def Let_def using False d
      by (intro call_rules) (auto simp: client_call_def split: sum.splits intro: call_rules)
    with False show ?thesis by (simp add: ledger_request_def)
  qed
qed

interpretation payments_client: service_client PaymentsService "\<lambda>_. ''payments.transfer''" payments_request
proof unfold_locales
  fix env req path m body customerId schema
  let ?P = "client_call PaymentsService env req ''payments.transfer'' path m body customerId"
  have d: "ge_mode env \<noteq> Strict \<Longrightarrow> calls_within ?P (payments_direct env req schema path m body customerId)"
    unfolding payments_direct_def by (intro call_rules) (auto simp: client_call_def split: option.splits prod.splits intro: call_rules)
  show "calls_within ?P (payments_request env req schema path m body customerId)"
  proof (cases "ge_mode env = Off")
    case True
    with d show ?thesis by (simp add: payments_request_def)
  next
    case False
    have "calls_within ?P (payments_sabcl_request env req schema path m body customerId)"
      unfolding payments_sabcl_request_def Let_def using False d
      by (intro call_rules) (auto simp: client_call_def split: sum.splits intro: call_rules)
    with False show ?thesis by (simp add: payments_request_def)
  qed
qed

text \<open>An operation reaches a call that an earlier step does not make only when that step succeeds.\<close>

lemma gwThen_reaches:
  assumes "calls_within (\<lambda>c. \<not> Q c) m" "c \<in> set (snd (gwThen m f log))" "Q c" "c \<notin> set log"
  obtains a log1 where "m log = (Inr a, log1)" "gwThen m f log = f a log1" "c \<notin> set log1"
proof -
  obtain cs where cs: "snd (m log) = log @ cs" "list_all (\<lambda>c. \<not> Q c) cs" using assms(1) by (auto simp: calls_within_def)
  with assms(3,4) have n: "c \<notin> set (snd (m log))" by (auto simp: list_all_iff)
  show thesis
  proof (cases "m log")
    case (Pair r log1)
    with assms(2) n that show ?thesis by (cases r) (auto simp: gwThen_def)
  qed
qed

lemma gwThen_before:
  assumes "\<And>a. calls_within (\<lambda>c. \<not> Q c) (f a)" "c \<in> set (snd (gwThen m f log))" "Q c"
  shows "c \<in> set (snd (m log))"
proof (cases "m log")
  case (Pair r log1)
  show ?thesis
  proof (cases r)
    case (Inr a)
    obtain cs where "snd (f a log1) = log1 @ cs" "list_all (\<lambda>c. \<not> Q c) cs" using assms(1) by (auto simp: calls_within_def)
    with assms(2,3) Pair Inr show ?thesis by (auto simp: gwThen_def list_all_iff)
  qed (use Pair assms(2) in \<open>auto simp: gwThen_def\<close>)
qed

lemma gwThen_Inr: "gwThen m f log = (Inr b, log') \<longleftrightarrow> (\<exists>a log1. m log = (Inr a, log1) \<and> f a log1 = (Inr b, log'))"
  by (auto simp: gwThen_def split: prod.splits sum.splits)

end
