(* ===== verification/GatewayCustomer.thy ===== *)
theory GatewayCustomer
  imports GatewayClients
begin

text \<open>
  The routes of the API gateway for customers (\<open>apps/api-gateway/src\<close>): accounts (\<open>accounts/accounts.controller.ts\<close>),
  transfers (\<open>transfers/transfers.controller.ts\<close>) and channels (\<open>channels/channels.controller.ts\<close>).  A route is its whole
  handler, in the order of the code: who is calling, is the call forgeable, is it well formed, then the calls to the
  services.  The properties are about the calls a route makes: what was asked before the money moves, for whom, and over
  which path.
\<close>

section \<open>Endpoints\<close>

definition customerAccounts_path :: "string \<Rightarrow> string" where
  "customerAccounts_path customerId = ''/internal/customers/'' @ encodeURIComponent customerId @ ''/accounts''"

definition customerAccount_path :: "string \<Rightarrow> string" where
  "customerAccount_path accountId = ''/internal/customer-accounts/'' @ encodeURIComponent accountId"

definition customerAccountBalance_path :: "string \<Rightarrow> string" where
  "customerAccountBalance_path accountId = customerAccount_path accountId @ ''/balance''"

definition customerTransactions_path :: "string \<Rightarrow> string \<Rightarrow> string" where
  "customerTransactions_path accountId query = customerAccount_path accountId @ ''/transactions'' @ query"

definition customerTransaction_path :: "string \<Rightarrow> string \<Rightarrow> string" where
  "customerTransaction_path accountId transactionId = customerAccount_path accountId @ ''/transactions/'' @ encodeURIComponent transactionId"

definition authorize_path :: "string \<Rightarrow> string" where
  "authorize_path token = ''/internal/transfer-intents/'' @ encodeURIComponent token @ ''/authorize''"

definition transfers_path :: "string \<Rightarrow> string \<Rightarrow> string" where
  "transfers_path customerId query = ''/internal/customers/'' @ encodeURIComponent customerId @ ''/transfers'' @ query"

definition transfer_path :: "string \<Rightarrow> string \<Rightarrow> string" where
  "transfer_path customerId transferId = ''/internal/customers/'' @ encodeURIComponent customerId @ ''/transfers/'' @ encodeURIComponent transferId"

text \<open>\<open>URLSearchParams\<close> writes a space as plus and escapes all but letters, digits and four marks.\<close>

fun form_encode :: "string \<Rightarrow> string" where
  "form_encode [] = []"
| "form_encode (c # cs) =
     (if is_alnum c \<or> c \<in> set ''*-._'' then [c] else if c = CHR '' '' then ''+'' else [CHR ''%'', hex_upper (of_char c div 16), hex_upper (of_char c mod 16)])
     @ form_encode cs"

definition param_text :: "json \<Rightarrow> string" where
  "param_text v = (case v of JStr s \<Rightarrow> s | JInt i \<Rightarrow> dec_of_int i | _ \<Rightarrow> [])"

definition search_suffix :: "json option \<Rightarrow> string" where
  "search_suffix query =
     (let ps = (case query of Some (JObj es) \<Rightarrow> concat (map (\<lambda>(k, v). case v of None \<Rightarrow> [] | Some x \<Rightarrow> [form_encode k @ ''='' @ form_encode (param_text x)]) es) | _ \<Rightarrow> [])
      in if ps = [] then [] else CHR ''?'' # join_with ''&'' ps)"

section \<open>Checks of a request\<close>

definition INVALID_REQUEST :: gw_error where
  "INVALID_REQUEST = coded 400 ''INVALID_REQUEST'' ''The request is invalid.''"

definition gw_parse :: "zschema \<Rightarrow> json option \<Rightarrow> json option gw" where
  "gw_parse schema body = parse_reply INVALID_REQUEST (document schema) body"

definition csrf_check :: "gw_env \<Rightarrow> gw_request \<Rightarrow> string gw" where
  "csrf_check env req = gwLift (requireCsrfToken (gr_cookie req) (gc_csrfCookieName (ge_cfg env)) (gr_csrf req))"

definition idempotency_key :: "gw_error \<Rightarrow> string option \<Rightarrow> string gw" where
  "idempotency_key e header = (case header of Some k \<Rightarrow> if idempotencyKeySchema k then gwReturn k else gwFail e | None \<Rightarrow> gwFail e)"

definition session_required :: "gw_env \<Rightarrow> gw_request \<Rightarrow> string gw" where
  "session_required env req =
     gwThen (gwLift (session_of_cookie env req)) (\<lambda>s. if s = [] then gwFail (bare 401 ''UNAUTHENTICATED'') else gwReturn s)"

section \<open>Accounts\<close>

definition ACCOUNT_NOT_FOUND :: gw_error where
  "ACCOUNT_NOT_FOUND = coded 404 ''ACCOUNT_NOT_FOUND'' ''The account could not be found.''"

definition accountId_param :: "gw_env \<Rightarrow> string \<Rightarrow> string gw" where
  "accountId_param env v = (if zd_uuid (ge_zod env) v then gwReturn v else gwFail ACCOUNT_NOT_FOUND)"

definition accounts_list :: "gw_env \<Rightarrow> gw_request \<Rightarrow> json option gw" where
  "accounts_list env req =
     gwThen (session_resolve env req) (\<lambda>customerId.
       ledger_request env req (document (customerAccountListSchema (ge_zod env))) (customerAccounts_path customerId) GET None None)"

definition accounts_provisionDefault :: "gw_env \<Rightarrow> gw_request \<Rightarrow> json option \<Rightarrow> json option gw" where
  "accounts_provisionDefault env req body =
     gwThen (session_resolve env req) (\<lambda>customerId.
     gwThen (csrf_check env req) (\<lambda>_.
     gwThen (idempotency_key (coded 400 ''IDEMPOTENCY_KEY_REQUIRED'' ''A valid Idempotency-Key header is required.'') (map_option js_trim (gr_idempotencyKey req))) (\<lambda>key.
     gwThen (gw_parse (zstrict []) (if no_body body then Some (JObj []) else body)) (\<lambda>_.
     gwThen (ledger_request env req (document (provisionResultJson (ge_zod env))) ''/internal/customer-accounts/default'' POST
       (Some (JObj [(''customerId'', Some (JStr customerId)), (''productType'', Some (JStr ''TIER0_WALLET'')), (''currency'', Some (JStr ''LKR'')),
                    (''idempotencyKey'', Some (JStr key))])) None) (\<lambda>result.
       gwReturn (jmember result ''account''))))))"

definition accounts_detail :: "gw_env \<Rightarrow> gw_request \<Rightarrow> string \<Rightarrow> json option gw" where
  "accounts_detail env req accountId =
     gwThen (session_resolve env req) (\<lambda>customerId.
     gwThen (accountId_param env accountId) (\<lambda>a.
       ledger_request env req (document (customerAccountDetailSchema (ge_zod env))) (customerAccount_path a) GET None (Some customerId)))"

definition accounts_balance :: "gw_env \<Rightarrow> gw_request \<Rightarrow> string \<Rightarrow> json option gw" where
  "accounts_balance env req accountId =
     gwThen (session_resolve env req) (\<lambda>customerId.
     gwThen (accountId_param env accountId) (\<lambda>a.
       ledger_request env req (document (accountBalanceSchema (ge_zod env))) (customerAccountBalance_path a) GET None (Some customerId)))"

definition accounts_transactions :: "gw_env \<Rightarrow> gw_request \<Rightarrow> string \<Rightarrow> json \<Rightarrow> json option gw" where
  "accounts_transactions env req accountId query =
     gwThen (session_resolve env req) (\<lambda>customerId.
     gwThen (gw_parse (transactionHistoryQuerySchema (ge_zod env)) (Some query)) (\<lambda>q.
     gwThen (accountId_param env accountId) (\<lambda>a.
       ledger_request env req (document (transactionHistoryResponseSchema (ge_zod env))) (customerTransactions_path a (search_suffix q)) GET None (Some customerId))))"

definition accounts_transaction :: "gw_env \<Rightarrow> gw_request \<Rightarrow> string \<Rightarrow> string \<Rightarrow> json option gw" where
  "accounts_transaction env req accountId transactionId =
     gwThen (session_resolve env req) (\<lambda>customerId.
     gwThen (accountId_param env transactionId) (\<lambda>t.
     gwThen (accountId_param env accountId) (\<lambda>a.
       ledger_request env req (document (customerTransactionDetailSchema (ge_zod env))) (customerTransaction_path a t) GET None (Some customerId))))"

section \<open>Transfers\<close>

definition customer_event :: "string \<Rightarrow> string \<Rightarrow> string \<Rightarrow> string option \<Rightarrow> string option \<Rightarrow> (string \<times> string) list \<Rightarrow> gw_event" where
  "customer_event kind level who acct sess attrs =
     \<lparr>gv_eventType = kind, gv_severity = level, gv_subjectId = who, gv_accountId = acct, gv_sessionId = sess, gv_attributes = attrs\<rparr>"

text \<open>A missing or wrong token is reported before the request fails.\<close>

definition transfers_csrf :: "gw_env \<Rightarrow> gw_request \<Rightarrow> string \<Rightarrow> string gw" where
  "transfers_csrf env req customerId log =
     (case csrf_check env req log of
        (Inl e, log') \<Rightarrow>
          gwThen (risk_emit env req (customer_event ''CSRF_FAILURE'' ''MEDIUM'' customerId None None [(''operation'', ''TRANSFER''), (''outcome'', ''REJECTED'')]))
            (\<lambda>_. gwFail e) log'
      | ok \<Rightarrow> ok)"

definition transfers_policy :: "gw_env \<Rightarrow> gw_request \<Rightarrow> json option gw" where
  "transfers_policy env req =
     gwThen (session_resolve env req) (\<lambda>_. payments_request env req (document transferPolicyJson) ''/internal/transfer-policy'' GET None None)"

definition with_member :: "json option \<Rightarrow> string \<Rightarrow> json \<Rightarrow> json option" where
  "with_member v k x = (case v of Some (JObj es) \<Rightarrow> Some (JObj (es @ [(k, Some x)])) | _ \<Rightarrow> v)"

definition transfers_preview :: "gw_env \<Rightarrow> gw_request \<Rightarrow> json option \<Rightarrow> json option gw" where
  "transfers_preview env req body =
     gwThen (session_resolve env req) (\<lambda>customerId.
     gwThen (transfers_csrf env req customerId) (\<lambda>_.
     gwThen (gw_parse (transferPreviewRequestSchema (ge_zod env)) body) (\<lambda>data.
     gwThen (payments_request env req (document (transferPreviewJson (ge_zod env))) ''/internal/transfer-intents'' POST
       (with_member data ''senderCustomerId'' (JStr customerId)) None) (\<lambda>result.
     gwThen (risk_emit env req (customer_event ''TRANSFER_PREVIEW'' ''INFO'' customerId (Some (jstring data ''sourceAccountId'')) None
       [(''operation'', ''TRANSFER_PREVIEW''), (''amountMinor'', jstring (jmember result ''amount'') ''minorUnits''),
        (''currency'', jstring (jmember result ''amount'') ''currency'')])) (\<lambda>_.
       gwReturn result)))))"

definition blocked :: gw_error where
  "blocked = coded 403 ''SECURITY_CONTROL_ACTIVE'' ''The transfer cannot be completed.''"

definition confirm_scopes :: "string \<Rightarrow> string \<Rightarrow> (string \<times> string) list" where
  "confirm_scopes customerId sessionId =
     [(''CUSTOMER'', customerId), (''SESSION'', sessionId), (''OPERATION'', ''operation:transfer-confirmation'')]"

definition transfers_control :: "gw_env \<Rightarrow> gw_request \<Rightarrow> string \<Rightarrow> string \<Rightarrow> unit gw" where
  "transfers_control env req customerId sessionId =
     gwThen (risk_check env req ''TRANSFER_CONFIRMATION'' (confirm_scopes customerId sessionId)) (\<lambda>active.
       if jmember active ''allowed'' = Some (JBool True) then gwReturn ()
       else gwThen (risk_emit env req (customer_event ''FORBIDDEN_ROUTE'' ''HIGH'' customerId None (Some sessionId)
              [(''operation'', ''TRANSFER_CONFIRMATION''), (''outcome'', ''CONTROL_BLOCKED'')])) (\<lambda>_. gwFail blocked))"

definition step_up :: "gw_env \<Rightarrow> gw_request \<Rightarrow> string \<Rightarrow> json option \<Rightarrow> json option gw" where
  "step_up env req sessionId data =
     identity_request env req ''/api/v1/auth/transfer-step-up'' POST (Some (JObj [(''pin'', jmember data ''pin'')])) sessionId None"

definition transfers_assess :: "gw_env \<Rightarrow> gw_request \<Rightarrow> string \<Rightarrow> string \<Rightarrow> json option gw" where
  "transfers_assess env req customerId sessionId =
     gwThen (risk_evaluate env req ''TRANSFER_CONFIRMATION'' customerId sessionId) (\<lambda>assessment.
       if jstring assessment ''decision'' \<in> set [''ALLOW'', ''ALLOW_WITH_MONITORING''] then gwReturn assessment
       else gwThen (risk_emit env req (customer_event ''FORBIDDEN_ROUTE'' (jstring assessment ''band'') customerId None (Some sessionId)
              [(''operation'', ''TRANSFER_CONFIRMATION''), (''outcome'', jstring assessment ''decision'')])) (\<lambda>_. gwFail blocked))"

definition confirm_body :: "string \<Rightarrow> json option \<Rightarrow> string \<Rightarrow> json option" where
  "confirm_body customerId data key =
     Some (JObj [(''senderCustomerId'', Some (JStr customerId)), (''intentToken'', jmember data ''intentToken''), (''idempotencyKey'', Some (JStr key))])"

definition settled_status :: "json option \<Rightarrow> int" where
  "settled_status result = (if jstring result ''status'' = ''PROCESSING'' then 202 else 200)"

text \<open>The confirmation: first everything that has to hold, then the authorization of the intent and the command.\<close>

definition confirm_checked :: "gw_env \<Rightarrow> gw_request \<Rightarrow> json option \<Rightarrow> (string \<times> string \<times> json option \<times> string \<times> json option) gw" where
  "confirm_checked env req body =
     gwThen (session_resolve env req) (\<lambda>customerId.
     gwThen (transfers_csrf env req customerId) (\<lambda>_.
     gwThen (gw_parse transferConfirmationRequestSchema body) (\<lambda>data.
     gwThen (idempotency_key (bare 400 ''IDEMPOTENCY_KEY_REQUIRED'') (gr_idempotencyKey req)) (\<lambda>key.
     gwThen (session_required env req) (\<lambda>sessionId.
     gwThen (transfers_control env req customerId sessionId) (\<lambda>_.
     gwThen (step_up env req sessionId data) (\<lambda>_.
     gwThen (transfers_assess env req customerId sessionId) (\<lambda>assessment.
       gwReturn (customerId, sessionId, data, key, assessment)))))))))"

definition confirm_settled :: "gw_env \<Rightarrow> gw_request \<Rightarrow> string \<Rightarrow> string \<Rightarrow> json option \<Rightarrow> string \<Rightarrow> json option \<Rightarrow> (int \<times> json option) gw" where
  "confirm_settled env req customerId sessionId data key assessment =
     gwThen (payments_request env req nothing (authorize_path (jstring data ''intentToken'')) POST (Some (JObj [])) (Some customerId)) (\<lambda>_.
     gwThen (gw_parse (internalTransferConfirmationSchema (ge_zod env)) (confirm_body customerId data key)) (\<lambda>command.
     gwThen (payments_request env req (document (transferDetailJson (ge_zod env))) ''/internal/transfers'' POST command None) (\<lambda>result.
     gwThen (risk_emit env req (customer_event ''TRANSFER_CONFIRMATION'' (if jstring assessment ''band'' = ''LOW'' then ''INFO'' else jstring assessment ''band'')
       customerId None (Some sessionId) [(''operation'', ''TRANSFER_CONFIRMATION''), (''outcome'', jstring result ''status'')])) (\<lambda>_.
       gwReturn (settled_status result, result)))))"

definition transfers_confirm :: "gw_env \<Rightarrow> gw_request \<Rightarrow> json option \<Rightarrow> (int \<times> json option) gw" where
  "transfers_confirm env req body =
     gwThen (confirm_checked env req body) (\<lambda>(customerId, sessionId, data, key, assessment).
       confirm_settled env req customerId sessionId data key assessment)"

definition transfers_list :: "gw_env \<Rightarrow> gw_request \<Rightarrow> json \<Rightarrow> json option gw" where
  "transfers_list env req query =
     gwThen (session_resolve env req) (\<lambda>customerId.
     gwThen (gw_parse (transferListQuerySchema (ge_zod env)) (Some query)) (\<lambda>q.
       payments_request env req (document (transferListResponseSchema (ge_zod env))) (transfers_path customerId (search_suffix q)) GET None None))"

definition transfers_detail :: "gw_env \<Rightarrow> gw_request \<Rightarrow> string \<Rightarrow> json option gw" where
  "transfers_detail env req transferId =
     gwThen (session_resolve env req) (\<lambda>customerId.
     gwThen (gw_parse (zuuid (ge_zod env)) (Some (JStr transferId))) (\<lambda>_.
       payments_request env req (document (transferDetailJson (ge_zod env))) (transfer_path customerId transferId) GET None None))"

section \<open>Channels\<close>

text \<open>Every route of a signed-in customer starts with the session and the token.\<close>

definition channel_caller :: "gw_env \<Rightarrow> gw_request \<Rightarrow> string gw" where
  "channel_caller env req = gwThen (session_resolve env req) (\<lambda>customerId. gwThen (csrf_check env req) (\<lambda>_. gwReturn customerId))"

definition qr_issue :: "gw_env \<Rightarrow> gw_request \<Rightarrow> (string \<times> json option) list \<Rightarrow> json option gw" where
  "qr_issue env req members =
     gwThen (gw_parse (internalQrIssueRequestSchema (ge_zod env)) (Some (JObj members))) (\<lambda>command.
       payments_request env req (document (qrIssueResponseSchema (ge_zod env))) ''/internal/qr/issue'' POST command None)"

definition qrReceive :: "gw_env \<Rightarrow> gw_request \<Rightarrow> json option \<Rightarrow> json option gw" where
  "qrReceive env req body =
     gwThen (channel_caller env req) (\<lambda>customerId.
     gwThen (gw_parse (qrReceiveRequestSchema (ge_zod env)) body) (\<lambda>data.
       qr_issue env req [(''customerId'', Some (JStr customerId)), (''accountId'', jmember data ''sourceAccountId''), (''type'', Some (JStr ''STATIC'')),
         (''currency'', Some (JStr ''LKR''))]))"

definition qrDynamic :: "gw_env \<Rightarrow> gw_request \<Rightarrow> json option \<Rightarrow> json option gw" where
  "qrDynamic env req body =
     gwThen (channel_caller env req) (\<lambda>customerId.
     gwThen (gw_parse (qrDynamicRequestSchema (ge_zod env)) body) (\<lambda>data.
       qr_issue env req [(''customerId'', Some (JStr customerId)), (''accountId'', jmember data ''sourceAccountId''), (''type'', Some (JStr ''DYNAMIC'')),
         (''amountMinor'', jmember data ''amount''), (''currency'', jmember data ''currency''), (''purpose'', jmember data ''purpose'')]))"

definition qrPreview :: "gw_env \<Rightarrow> gw_request \<Rightarrow> json option \<Rightarrow> json option gw" where
  "qrPreview env req body =
     gwThen (channel_caller env req) (\<lambda>customerId.
     gwThen (gw_parse (qrPreviewRequestSchema (ge_zod env)) body) (\<lambda>data.
       payments_request env req (document (transferPreviewJson (ge_zod env))) ''/internal/qr/preview'' POST
         (Some (JObj [(''payload'', jmember data ''payload''), (''senderCustomerId'', Some (JStr customerId)), (''sourceAccountId'', jmember data ''sourceAccountId'')]))
         None))"

text \<open>The two confirmations share their checks and their step-up.\<close>

definition channel_confirm ::
  "gw_env \<Rightarrow> gw_request \<Rightarrow> json option \<Rightarrow> string \<Rightarrow> string \<Rightarrow> zschema \<Rightarrow> (int \<times> json option) gw" where
  "channel_confirm env req body caller path schema =
     gwThen (channel_caller env req) (\<lambda>customerId.
     gwThen (gw_parse transferConfirmationRequestSchema body) (\<lambda>data.
     gwThen (idempotency_key (bare 400 ''IDEMPOTENCY_KEY_REQUIRED'') (gr_idempotencyKey req)) (\<lambda>key.
     gwThen (session_required env req) (\<lambda>sessionId.
     gwThen (step_up env req sessionId data) (\<lambda>_.
     gwThen (payments_request env req (document schema) path POST
       (Some (JObj [(caller, Some (JStr customerId)), (''intentToken'', jmember data ''intentToken''), (''idempotencyKey'', Some (JStr key))])) None) (\<lambda>result.
       gwReturn (settled_status result, result)))))))"

definition qrConfirm :: "gw_env \<Rightarrow> gw_request \<Rightarrow> json option \<Rightarrow> (int \<times> json option) gw" where
  "qrConfirm env req body = channel_confirm env req body ''senderCustomerId'' ''/internal/qr/redeem'' (transferDetailJson (ge_zod env))"

definition gw_agent_preview :: "gw_env \<Rightarrow> gw_request \<Rightarrow> json option \<Rightarrow> string \<Rightarrow> json option gw" where
  "gw_agent_preview env req body path =
     gwThen (channel_caller env req) (\<lambda>agentId.
     gwThen (gw_parse agentCashPreviewRequestSchema body) (\<lambda>data.
       payments_request env req (document (agentCashPreviewResponseSchema (ge_zod env))) path POST
         (Some (JObj [(''agentId'', Some (JStr agentId)), (''agentReference'', Some (JStr ''AEGIS-AGT-0000'')), (''customerReference'', jmember data ''customerReference''),
                      (''amountMinor'', jmember data ''amountMinor''), (''currency'', jmember data ''currency'')])) None))"

definition agentCashInPreview :: "gw_env \<Rightarrow> gw_request \<Rightarrow> json option \<Rightarrow> json option gw" where
  "agentCashInPreview env req body = gw_agent_preview env req body ''/internal/agent/cash-in/preview''"

definition agentCashOutPreview :: "gw_env \<Rightarrow> gw_request \<Rightarrow> json option \<Rightarrow> json option gw" where
  "agentCashOutPreview env req body = gw_agent_preview env req body ''/internal/agent/cash-out/preview''"

definition agentCashConfirm :: "gw_env \<Rightarrow> gw_request \<Rightarrow> json option \<Rightarrow> (int \<times> json option) gw" where
  "agentCashConfirm env req body = channel_confirm env req body ''agentId'' ''/internal/agent/cash/confirm'' (agentCashResultSchema (ge_zod env))"

definition ussdSimulate :: "gw_env \<Rightarrow> gw_request \<Rightarrow> json option \<Rightarrow> json option gw" where
  "ussdSimulate env req body =
     gwThen (channel_caller env req) (\<lambda>customerId. payments_request env req anything ''/internal/ussd/simulate'' POST body (Some customerId))"

definition ussdWebhook :: "gw_env \<Rightarrow> gw_request \<Rightarrow> json option \<Rightarrow> json option gw" where
  "ussdWebhook env req body = payments_request env req anything ''/internal/ussd/webhook'' POST body None"

section \<open>Calls of the routes\<close>

lemma calls_within_checks [call_rules]:
  "calls_within P (gw_parse schema body)" "calls_within P (csrf_check env req)" "calls_within P (idempotency_key e key)"
  "calls_within P (session_required env req)" "calls_within P (accountId_param env v)"
  unfolding gw_parse_def csrf_check_def idempotency_key_def session_required_def accountId_param_def by (intro call_rules)+

lemma calls_within_customer [call_rules]:
  assumes "\<And>h. hc_service h \<in> {IdentityService, RiskService} \<Longrightarrow> P (Fetch h)"
  shows "calls_within P (session_resolve env req)" "calls_within P (channel_caller env req)" "calls_within P (transfers_csrf env req customerId)"
    "calls_within P (transfers_control env req customerId sessionId)" "calls_within P (step_up env req sessionId data)"
    "calls_within P (transfers_assess env req customerId sessionId)"
proof -
  have r: "P (Fetch h)" if "hc_service h = RiskService" for h using that assms by simp
  have i: "P (Fetch (identity_call env req endpoint m body s c))" for endpoint m body s c by (rule assms) (simp add: identity_call_def)
  show "calls_within P (session_resolve env req)" "calls_within P (channel_caller env req)"
      "calls_within P (transfers_control env req customerId sessionId)" "calls_within P (step_up env req sessionId data)"
      "calls_within P (transfers_assess env req customerId sessionId)"
    unfolding channel_caller_def transfers_control_def step_up_def transfers_assess_def by (intro call_rules i r; assumption?)+
  have e: "calls_within P (gwThen (risk_emit env req ev) (\<lambda>_. gwFail x :: string gw))" for ev x by (intro call_rules r)
  show "calls_within P (transfers_csrf env req customerId)"
  proof -
    have "transfers_csrf env req customerId =
        (case requireCsrfToken (gr_cookie req) (gc_csrfCookieName (ge_cfg env)) (gr_csrf req) of
           Inl x \<Rightarrow> gwThen (risk_emit env req (customer_event ''CSRF_FAILURE'' ''MEDIUM'' customerId None None [(''operation'', ''TRANSFER''), (''outcome'', ''REJECTED'')])) (\<lambda>_. gwFail x)
         | Inr t \<Rightarrow> gwReturn t)"
      by (rule ext) (simp add: transfers_csrf_def csrf_check_def gwLift_def gwReturn_def split: sum.splits)
    then show ?thesis by (simp add: e call_rules split: sum.splits)
  qed
qed

text \<open>A request to a service that was answered with success, and what holds of it and the answer.\<close>

definition asked :: "gw_env \<Rightarrow> gw_call list \<Rightarrow> gw_service \<Rightarrow> string \<Rightarrow> (http_call \<Rightarrow> json option \<Rightarrow> bool) \<Rightarrow> bool" where
  "asked env calls svc path Q =
     (\<exists>before h after status b. calls = before @ Fetch h # after \<and> hc_service h = svc \<and> hc_path h = path
        \<and> ge_fetch env before h = Some (status, b) \<and> status_ok status \<and> Q h b)"

lemma asked_last:
  "ge_fetch env log h = Some (status, b) \<Longrightarrow> status_ok status \<Longrightarrow> Q h b \<Longrightarrow> asked env (log @ [Fetch h]) (hc_service h) (hc_path h) Q"
  unfolding asked_def by blast

lemma asked_append: "asked env calls svc path Q \<Longrightarrow> asked env (calls @ rest) svc path Q"
  unfolding asked_def by (metis append.assoc append_Cons)

definition session_says :: "gw_env \<Rightarrow> string \<Rightarrow> string \<Rightarrow> http_call \<Rightarrow> json option \<Rightarrow> bool" where
  "session_says env sessionId customerId h b =
     (map_of (hc_headers h) ''x-aegis-session-id'' = Some sessionId
      \<and> (\<exists>d. document (sessionResponseSchema (ge_zod env)) b = Some d \<and> jstring (jmember d ''user'') ''id'' = customerId))"

definition control_allows :: "gw_env \<Rightarrow> string \<Rightarrow> string \<Rightarrow> http_call \<Rightarrow> json option \<Rightarrow> bool" where
  "control_allows env sessionId customerId h b =
     (jmember (hc_body h) ''scopes'' = Some (JArr (map (\<lambda>(t, i). JObj [(''type'', Some (JStr t)), (''id'', Some (JStr i))]) (confirm_scopes customerId sessionId)))
      \<and> (\<exists>d. document (controlCheckResponseSchema (ge_zod env)) b = Some d \<and> jmember d ''allowed'' = Some (JBool True)))"

definition pin_sent :: "string \<Rightarrow> json option \<Rightarrow> http_call \<Rightarrow> json option \<Rightarrow> bool" where
  "pin_sent sessionId data h b = (map_of (hc_headers h) ''x-aegis-session-id'' = Some sessionId \<and> jmember (hc_body h) ''pin'' = jmember data ''pin'')"

definition risk_accepts :: "gw_env \<Rightarrow> string \<Rightarrow> string \<Rightarrow> http_call \<Rightarrow> json option \<Rightarrow> bool" where
  "risk_accepts env sessionId customerId h b =
     (jstring (hc_body h) ''subjectId'' = customerId \<and> jstring (hc_body h) ''sessionId'' = sessionId
      \<and> (\<exists>d. document (riskAssessmentJson (ge_zod env)) b = Some d \<and> jstring d ''decision'' \<in> {''ALLOW'', ''ALLOW_WITH_MONITORING''}))"

lemmas gw_defs = gwThen_def gwLift_def gwReturn_def gwFail_def gwSend_def parse_reply_def

lemma identity_request_Inr:
  assumes "identity_request env req endpoint m body s c log = (Inr b, log1)"
  shows "\<exists>status. log1 = log @ [Fetch (identity_call env req endpoint m body s c)] \<and> ge_fetch env log (identity_call env req endpoint m body s c) = Some (status, b) \<and> status_ok status"
  using assms by (auto simp: identity_request_def gw_defs split: option.splits if_splits)

lemma identity_call_simps [simp]:
  "hc_service (identity_call env req endpoint m body s c) = IdentityService" "hc_path (identity_call env req endpoint m body s c) = endpoint"
  "hc_body (identity_call env req endpoint m body s c) = post_body m body"
  "s \<noteq> [] \<Longrightarrow> map_of (hc_headers (identity_call env req endpoint m body s c)) ''x-aegis-session-id'' = Some s"
  by (auto simp: identity_call_def json_headers_def split: option.splits)

lemma session_resolve_Inr:
  assumes "session_resolve env req log = (Inr customerId, log1)"
  obtains s h where "session_of_cookie env req = Inr s" "s \<noteq> []" "log1 = log @ [h]" "asked env log1 IdentityService session_endpoint (session_says env s customerId)"
proof -
  from assms obtain s where s: "session_of_cookie env req = Inr s" "s \<noteq> []" by (auto simp: session_resolve_def gw_defs split: sum.splits if_splits)
  with assms obtain b d where b: "identity_request env req session_endpoint GET None s None log = (Inr b, log1)"
      "document (sessionResponseSchema (ge_zod env)) b = Some d" "customerId = jstring (jmember d ''user'') ''id''"
    by (auto simp: session_resolve_def gw_defs split: sum.splits prod.splits option.splits)
  obtain status where st: "log1 = log @ [Fetch (identity_call env req session_endpoint GET None s None)]"
      "ge_fetch env log (identity_call env req session_endpoint GET None s None) = Some (status, b)" "status_ok status"
    using identity_request_Inr [OF b(1)] by blast
  have "asked env log1 IdentityService session_endpoint (session_says env s customerId)"
    unfolding st(1) using asked_last [where Q = "session_says env s customerId", OF st(2,3)] b(2,3) s(2) by (simp add: session_says_def)
  with s st(1) show thesis by (rule that)
qed

lemma risk_request_Inr:
  assumes "gw_risk_request env req path m body operator log = (Inr b, log1)"
  shows "\<exists>h status. log1 = log @ [Fetch h] \<and> hc_service h = RiskService \<and> hc_path h = path \<and> hc_body h = post_body m body
    \<and> ge_fetch env log h = Some (status, b) \<and> status_ok status"
  using assms unfolding gw_risk_request_def gw_defs by (auto split: option.splits if_splits)

lemma transfers_control_Inr:
  assumes "transfers_control env req customerId sessionId log = (Inr u, log1)"
  shows "\<exists>h. log1 = log @ [h] \<and> asked env log1 RiskService ''/internal/v1/controls/check'' (control_allows env sessionId customerId)"
proof -
  let ?body = "Some (JObj [(''operation'', Some (JStr ''TRANSFER_CONFIRMATION'')),
      (''scopes'', Some (JArr (map (\<lambda>(t, i). JObj [(''type'', Some (JStr t)), (''id'', Some (JStr i))]) (confirm_scopes customerId sessionId)))),
      (''correlationId'', Some (JStr (gr_correlationId req)))])"
  from assms obtain b d where b: "gw_risk_request env req ''/internal/v1/controls/check'' POST ?body None log = (Inr b, log1)"
      "document (controlCheckResponseSchema (ge_zod env)) b = Some d" "jmember d ''allowed'' = Some (JBool True)"
    by (auto simp: transfers_control_def risk_check_def gw_defs split: sum.splits prod.splits option.splits if_splits)
  obtain h status where h: "log1 = log @ [Fetch h]" "hc_service h = RiskService" "hc_path h = ''/internal/v1/controls/check''" "hc_body h = post_body POST ?body"
      "ge_fetch env log h = Some (status, b)" "status_ok status"
    using risk_request_Inr [OF b(1)] by blast
  have "control_allows env sessionId customerId h b" using b(2,3) h(4) by (simp add: control_allows_def post_body_def jmember_def zget_def)
  from asked_last [where Q = "control_allows env sessionId customerId", OF h(5,6) this] h(1-3) show ?thesis by simp
qed

lemma step_up_Inr:
  assumes "step_up env req sessionId data log = (Inr b, log1)" "sessionId \<noteq> []"
  shows "\<exists>h. log1 = log @ [h] \<and> asked env log1 IdentityService ''/api/v1/auth/transfer-step-up'' (pin_sent sessionId data)"
proof -
  let ?h = "identity_call env req ''/api/v1/auth/transfer-step-up'' POST (Some (JObj [(''pin'', jmember data ''pin'')])) sessionId None"
  obtain status where st: "log1 = log @ [Fetch ?h]" "ge_fetch env log ?h = Some (status, b)" "status_ok status"
    using identity_request_Inr assms(1) unfolding step_up_def by blast
  have "pin_sent sessionId data ?h b" using assms(2) by (simp add: pin_sent_def post_body_def jmember_def zget_def)
  from asked_last [where Q = "pin_sent sessionId data", OF st(2,3) this] st(1) show ?thesis by simp
qed

lemma transfers_assess_Inr:
  assumes "transfers_assess env req customerId sessionId log = (Inr a, log1)"
  shows "\<exists>h. log1 = log @ [h] \<and> asked env log1 RiskService ''/internal/v1/assessments/evaluate'' (risk_accepts env sessionId customerId)"
proof -
  let ?body = "Some (JObj [(''operation'', Some (JStr ''TRANSFER_CONFIRMATION'')), (''subjectId'', Some (JStr customerId)), (''sessionId'', Some (JStr sessionId)),
      (''stepUpVerified'', Some (JBool True)), (''evaluationId'', Some (JStr (ge_uuid env 0))), (''occurredAt'', Some (JStr (ge_nowIso env))),
      (''correlationId'', Some (JStr (gr_correlationId req)))])"
  from assms obtain b d where b: "gw_risk_request env req ''/internal/v1/assessments/evaluate'' POST ?body None log = (Inr b, log1)"
      "document (riskAssessmentJson (ge_zod env)) b = Some d" "jstring d ''decision'' \<in> {''ALLOW'', ''ALLOW_WITH_MONITORING''}"
    by (auto simp: transfers_assess_def risk_evaluate_def gw_defs split: sum.splits prod.splits option.splits if_splits)
  obtain h status where h: "log1 = log @ [Fetch h]" "hc_service h = RiskService" "hc_path h = ''/internal/v1/assessments/evaluate''" "hc_body h = post_body POST ?body"
      "ge_fetch env log h = Some (status, b)" "status_ok status"
    using risk_request_Inr [OF b(1)] by blast
  have "risk_accepts env sessionId customerId h b" using b(2,3) h(4) by (simp add: risk_accepts_def post_body_def jstring_def jtext_def jmember_def zget_def)
  from asked_last [where Q = "risk_accepts env sessionId customerId", OF h(5,6) this] h(1-3) show ?thesis by simp
qed

section \<open>Confirming a transfer\<close>

definition moves_money :: "gw_call \<Rightarrow> bool" where
  "moves_money c =
     (case c of
        Fetch h \<Rightarrow> hc_service h = PaymentsService \<and> hc_path h = ''/internal/transfers'' \<and> hc_method h = POST
      | ViaSabcl cap r \<Rightarrow> ir_path r = ''/internal/transfers'' \<and> ir_method r = POST)"

definition carries :: "gw_env \<Rightarrow> json option \<Rightarrow> gw_call \<Rightarrow> bool" where
  "carries env body c = (case c of Fetch h \<Rightarrow> hc_body h = body | ViaSabcl cap r \<Rightarrow> ir_body r = map_option (ge_stringify env) body)"

lemma not_money [simp]:
  "hc_service h \<in> {IdentityService, RiskService} \<Longrightarrow> \<not> moves_money (Fetch h)"
  "\<not> moves_money (Fetch (service_call svc token req (authorize_path t) m body c))" "\<not> moves_money (ViaSabcl cap (inner_call env req cap (authorize_path t) m body c))"
  by (auto simp: moves_money_def service_call_def inner_call_def authorize_path_def)

lemma confirm_body_parsed:
  assumes "document (internalTransferConfirmationSchema z) (confirm_body customerId data key) = Some command"
  shows "command = confirm_body customerId data key"
proof -
  have e: "confirm_body customerId data key =
      Some (JObj [(''senderCustomerId'', Some (JStr customerId)), (''intentToken'', jmember data ''intentToken''), (''idempotencyKey'', Some (JStr key))])"
    by (simp add: confirm_body_def)
  show ?thesis using assms unfolding e
    by (auto simp: document_def internalTransferConfirmationSchema_def zobj_def zreq_def zget_def zstr_def zif_def split: option.splits json.splits if_splits)
qed

lemma payments_carries:
  assumes "c \<in> set (snd (payments_request env req schema path POST (Some body) customerId log))" "c \<notin> set log" "body \<noteq> JNull"
  shows "carries env (Some body) c"
proof -
  have "calls_within (carries env (Some body)) (payments_request env req schema path POST (Some body) customerId)"
    by (rule payments_client.within) (simp_all add: carries_def service_call_def inner_call_def post_body_def assms(3))
  then obtain cs where "snd (payments_request env req schema path POST (Some body) customerId log) = log @ cs" "list_all (carries env (Some body)) cs"
    unfolding calls_within_def by blast
  with assms(1,2) show ?thesis by (auto simp: list_all_iff)
qed

lemma calls_extend: "calls_within P m \<Longrightarrow> \<exists>cs. snd (m log) = log @ cs" unfolding calls_within_def by blast

lemma confirm_checked_Inr:
  assumes "confirm_checked env req body [] = (Inr (customerId, sessionId, data, key, assessment), log)"
  shows "session_of_cookie env req = Inr sessionId" "requireCsrfToken (gr_cookie req) (gc_csrfCookieName (ge_cfg env)) (gr_csrf req) \<in> range Inr"
    "document transferConfirmationRequestSchema body = Some data" "gr_idempotencyKey req = Some key" "idempotencyKeySchema key"
    "asked env log IdentityService ''/api/v1/auth/session'' (session_says env sessionId customerId)"
    "asked env log RiskService ''/internal/v1/controls/check'' (control_allows env sessionId customerId)"
    "asked env log IdentityService ''/api/v1/auth/transfer-step-up'' (pin_sent sessionId data)"
    "asked env log RiskService ''/internal/v1/assessments/evaluate'' (risk_accepts env sessionId customerId)"
proof -
  from assms obtain log1 log2 log3 log4 log5 log6 log7 t b where r:
      "session_resolve env req [] = (Inr customerId, log1)" "transfers_csrf env req customerId log1 = (Inr t, log2)"
      "gw_parse transferConfirmationRequestSchema body log2 = (Inr data, log3)"
      "idempotency_key (bare 400 ''IDEMPOTENCY_KEY_REQUIRED'') (gr_idempotencyKey req) log3 = (Inr key, log4)"
      "session_required env req log4 = (Inr sessionId, log5)" "transfers_control env req customerId sessionId log5 = (Inr (), log6)"
      "step_up env req sessionId data log6 = (Inr b, log7)" "transfers_assess env req customerId sessionId log7 = (Inr assessment, log)"
    by (auto simp: confirm_checked_def gwThen_Inr gwReturn_def)
  have csrf: "requireCsrfToken (gr_cookie req) (gc_csrfCookieName (ge_cfg env)) (gr_csrf req) = Inr t \<and> log2 = log1" using r(2)
    by (auto simp: transfers_csrf_def csrf_check_def gw_defs split: sum.splits prod.splits)
  then show "requireCsrfToken (gr_cookie req) (gc_csrfCookieName (ge_cfg env)) (gr_csrf req) \<in> range Inr" by simp
  have data: "document transferConfirmationRequestSchema body = Some data \<and> log3 = log2" using r(3) by (auto simp: gw_parse_def gw_defs split: option.splits)
  then show "document transferConfirmationRequestSchema body = Some data" by simp
  have key: "gr_idempotencyKey req = Some key \<and> idempotencyKeySchema key \<and> log4 = log3" using r(4)
    by (auto simp: idempotency_key_def gw_defs split: option.splits if_splits)
  then show "gr_idempotencyKey req = Some key" "idempotencyKeySchema key" by simp_all
  have s: "session_of_cookie env req = Inr sessionId \<and> sessionId \<noteq> [] \<and> log5 = log4" using r(5)
    by (auto simp: session_required_def gw_defs split: sum.splits if_splits)
  then show "session_of_cookie env req = Inr sessionId" by simp
  obtain s' where s': "session_of_cookie env req = Inr s'" "asked env log1 IdentityService session_endpoint (session_says env s' customerId)"
    using session_resolve_Inr [OF r(1)] by blast
  obtain h where h: "log6 = log5 @ [h]" "asked env log6 RiskService ''/internal/v1/controls/check'' (control_allows env sessionId customerId)"
    using transfers_control_Inr [OF r(6)] by blast
  obtain i where i: "log7 = log6 @ [i]" "asked env log7 IdentityService ''/api/v1/auth/transfer-step-up'' (pin_sent sessionId data)"
    using step_up_Inr [OF r(7)] s by blast
  obtain j where j: "log = log7 @ [j]" "asked env log RiskService ''/internal/v1/assessments/evaluate'' (risk_accepts env sessionId customerId)"
    using transfers_assess_Inr [OF r(8)] by blast
  have l: "log5 = log1" "sessionId = s'" using csrf data key s s'(1) by simp_all
  note e = h(1) [unfolded l(1)] i(1) [unfolded h(1) l(1)] j(1) [unfolded i(1) h(1) l(1)]
  show "asked env log IdentityService ''/api/v1/auth/session'' (session_says env sessionId customerId)"
    using asked_append [OF s'(2), of "[h, i, j]"] e(3) l(2) by (simp add: session_endpoint_def)
  show "asked env log RiskService ''/internal/v1/controls/check'' (control_allows env sessionId customerId)"
    using asked_append [OF h(2), of "[i, j]"] i(1) j(1) by simp
  show "asked env log IdentityService ''/api/v1/auth/transfer-step-up'' (pin_sent sessionId data)"
    using asked_append [OF i(2), of "[j]"] j(1) by simp
  show "asked env log RiskService ''/internal/v1/assessments/evaluate'' (risk_accepts env sessionId customerId)" by (rule j(2))
qed

lemma checks_move_nothing: "calls_within (\<lambda>c. \<not> moves_money c) (confirm_checked env req body)"
  unfolding confirm_checked_def by (intro call_rules) simp_all

lemma settled_carries:
  assumes "c \<in> set (snd (confirm_settled env req customerId sessionId data key assessment log))" "moves_money c" "c \<notin> set log"
  shows "carries env (confirm_body customerId data key) c"
proof -
  have a: "calls_within (\<lambda>c. \<not> moves_money c) (payments_request env req nothing (authorize_path t) POST b (Some customerId))" for t b
    by (rule payments_client.within) simp_all
  let ?done = "\<lambda>result. gwThen (risk_emit env req (customer_event ''TRANSFER_CONFIRMATION'' (if jstring assessment ''band'' = ''LOW'' then ''INFO'' else jstring assessment ''band'')
       customerId None (Some sessionId) [(''operation'', ''TRANSFER_CONFIRMATION''), (''outcome'', jstring result ''status'')])) (\<lambda>_. gwReturn (settled_status result, result))"
  let ?send = "\<lambda>command. gwThen (payments_request env req (document (transferDetailJson (ge_zod env))) ''/internal/transfers'' POST command None) ?done"
  let ?parse = "gw_parse (internalTransferConfirmationSchema (ge_zod env)) (confirm_body customerId data key)"
  obtain log1 where 1: "c \<notin> set log1" "c \<in> set (snd (gwThen ?parse ?send log1))"
  proof (rule gwThen_reaches [OF a assms(1) [unfolded confirm_settled_def] assms(2,3)])
    fix u log1
    assume "gwThen (payments_request env req nothing (authorize_path (jstring data ''intentToken'')) POST (Some (JObj [])) (Some customerId)) (\<lambda>_. gwThen ?parse ?send) log
      = gwThen ?parse ?send log1" "c \<notin> set log1"
    with assms(1) that show thesis by (simp add: confirm_settled_def)
  qed
  obtain command log2 where 2: "?parse log1 = (Inr command, log2)" "c \<notin> set log2" "c \<in> set (snd (?send command log2))"
  proof (rule gwThen_reaches [where Q = moves_money, OF calls_within_checks(1) 1(2) assms(2) 1(1)])
    fix command log2
    assume "?parse log1 = (Inr command, log2)" "gwThen ?parse ?send log1 = ?send command log2" "c \<notin> set log2"
    with 1(2) that show thesis by simp
  qed
  have e: "calls_within (\<lambda>c. \<not> moves_money c) (gwThen (risk_emit env req ev) (\<lambda>_. gwReturn x))" for ev x by (intro call_rules) simp
  have "c \<in> set (snd (payments_request env req (document (transferDetailJson (ge_zod env))) ''/internal/transfers'' POST command None log2))"
    by (rule gwThen_before [where Q = moves_money, OF e 2(3) assms(2)])
  moreover have "command = confirm_body customerId data key"
    using 2(1) confirm_body_parsed by (auto simp: gw_parse_def gw_defs split: option.splits)
  ultimately show ?thesis using payments_carries 2(2) by (metis confirm_body_def json.distinct)
qed

text \<open>C35: a transfer is confirmed only after every check, for the customer of the session.  When the confirmation route sends the
  command that moves the money, directly or over the message layer, then before that the identity service named the
  customer of the session cookie, the double-submit token matched, the risk service answered that no control blocks
  the customer, the session or the operation, the identity service accepted the PIN of the request for that session and
  the risk service's assessment of that customer and session allowed the transfer; the command carries that customer, the
  token of the request and its idempotency key.\<close>

theorem confirm_only_after_checks:
  assumes "c \<in> set (snd (transfers_confirm env req body []))" "moves_money c"
  shows "\<exists>customerId sessionId data key before.
    session_of_cookie env req = Inr sessionId \<and> requireCsrfToken (gr_cookie req) (gc_csrfCookieName (ge_cfg env)) (gr_csrf req) \<in> range Inr
    \<and> document transferConfirmationRequestSchema body = Some data \<and> gr_idempotencyKey req = Some key \<and> idempotencyKeySchema key
    \<and> prefix before (snd (transfers_confirm env req body [])) \<and> c \<notin> set before
    \<and> asked env before IdentityService ''/api/v1/auth/session'' (session_says env sessionId customerId)
    \<and> asked env before RiskService ''/internal/v1/controls/check'' (control_allows env sessionId customerId)
    \<and> asked env before IdentityService ''/api/v1/auth/transfer-step-up'' (pin_sent sessionId data)
    \<and> asked env before RiskService ''/internal/v1/assessments/evaluate'' (risk_accepts env sessionId customerId)
    \<and> carries env (confirm_body customerId data key) c"
proof -
  let ?settle = "\<lambda>(customerId, sessionId, data, key, assessment). confirm_settled env req customerId sessionId data key assessment"
  obtain customerId sessionId data key assessment log where r: "confirm_checked env req body [] = (Inr (customerId, sessionId, data, key, assessment), log)"
      "transfers_confirm env req body [] = confirm_settled env req customerId sessionId data key assessment log" "c \<notin> set log"
  proof (rule gwThen_reaches [OF checks_move_nothing assms(1) [unfolded transfers_confirm_def] assms(2)])
    fix a log
    assume "confirm_checked env req body [] = (Inr a, log)" "gwThen (confirm_checked env req body) ?settle [] = ?settle a log" "c \<notin> set log"
    then show thesis using that by (cases a) (auto simp: transfers_confirm_def)
  qed simp
  have "calls_within (\<lambda>_. True) (confirm_settled env req customerId sessionId data key assessment)"
    unfolding confirm_settled_def by (intro call_rules payments_client.within) simp_all
  then obtain cs where "snd (confirm_settled env req customerId sessionId data key assessment log) = log @ cs" unfolding calls_within_def by blast
  then have "prefix log (snd (transfers_confirm env req body []))" by (simp add: r(2))
  with confirm_checked_Inr [OF r(1)] settled_carries [OF _ assms(2) r(3)] assms(1) r(2,3) show ?thesis by (metis (no_types, lifting))
qed

section \<open>Paths and the catalogue of the message layer\<close>

text \<open>A path as its segments.\<close>

definition path_text :: "string list \<Rightarrow> string" where
  "path_text segs = concat (map (\<lambda>s. CHR ''/'' # s) segs)"

lemma split_path: "list_all (\<lambda>s. CHR ''/'' \<notin> set s) segs \<Longrightarrow> split_on CHR ''/'' (s @ path_text segs) = s # segs" if "CHR ''/'' \<notin> set s"
  using that
proof (induction segs arbitrary: s)
  case (Cons t segs)
  then show ?case using split_on_append [of "CHR ''/''" s] by (simp add: path_text_def)
qed (simp add: path_text_def split_on_no_sep)

lemma path_chars: "list_all (list_all is_id_char) segs \<Longrightarrow> c \<in> set (path_text segs) \<Longrightarrow> c = CHR ''/'' \<or> is_id_char c"
  by (induction segs) (auto simp: path_text_def list_all_iff)

lemma id_char_not: "is_id_char c \<Longrightarrow> c \<noteq> CHR ''?'' \<and> c \<noteq> CHR ''/'' \<and> c \<noteq> CHR ''%'' \<and> c \<noteq> CHR ''.'' \<and> c \<noteq> CHR 0x5C"
  by (auto simp: is_id_char_def is_alnum_def is_upper_def is_lower_def is_digit_def)

lemma path_pattern_test:
  assumes "list_all (list_all is_id_char) segs"
  shows "pattern_test p (path_text segs) = list_all2 segment_matches (pp_segments p) segs"
proof -
  have q: "\<forall>c \<in> set (path_text segs). c \<noteq> CHR ''?''" using path_chars [OF assms] id_char_not by force
  have "list_all (\<lambda>s. CHR ''/'' \<notin> set s) segs" using assms id_char_not by (auto simp: list_all_iff)
  moreover have t: "takeWhile (\<lambda>c. c \<noteq> CHR ''?'') (path_text segs) = path_text segs" using q by (simp add: takeWhile_eq_all_conv)
  ultimately show ?thesis unfolding pattern_test_def Let_def t using split_path [of "[]" segs] q by (simp add: segment_matches_def)
qed

lemma no_dots: "CHR ''.'' \<notin> set s \<Longrightarrow> \<not> has_substring ''..'' s" "CHR 0x5C \<notin> set s \<Longrightarrow> \<not> has_substring [CHR 0x5C] s"
  by (induction s) (auto simp: starts_with_def)

lemma plain_decode: "CHR ''%'' \<notin> set s \<Longrightarrow> percent_decode s = Some s"
  by (induction s) auto

lemma path_allowed:
  assumes "List.find (\<lambda>c. starts_with (cp_operationPrefix c @ ''.'') (ir_op r)) caps = Some c" "ir_method r \<in> set (cp_methods c)"
    and "ir_path r = path_text segs" "list_all (list_all is_id_char) segs"
    and "list_ex (\<lambda>p. list_all2 segment_matches (pp_segments p) segs) (cp_pathPatterns c)"
  shows "assertCapability caps r = Inr ()"
proof -
  have n: "CHR ''%'' \<notin> set (path_text segs)" "CHR ''.'' \<notin> set (path_text segs)" "CHR 0x5C \<notin> set (path_text segs)"
    using path_chars [OF assms(4)] id_char_not by force+
  have "safeDecode (path_text segs) = path_text segs" using plain_decode [OF n(1)] by (simp add: safeDecode_def)
  with assms n show ?thesis by (simp add: assertCapability_def no_dots path_pattern_test)
qed

text \<open>A call over the layer that the recipient of its route admits.\<close>

definition admitted :: "gw_call \<Rightarrow> bool" where
  "admitted c =
     (case c of Fetch h \<Rightarrow> True
      | ViaSabcl cap r \<Rightarrow> list_ex (\<lambda>e. ce_routeId e = cap \<and> assertCapability (capabilitiesForService (ce_service e)) r = Inr ()) SABCL_CAPABILITIES)"

definition is_id :: "string \<Rightarrow> bool" where
  "is_id s = (1 \<le> length s \<and> length s \<le> 128 \<and> list_all is_id_char s)"

lemma encode_id [simp]: "is_id s \<Longrightarrow> encodeURIComponent s = s"
proof -
  have "list_all is_id_char s \<Longrightarrow> encodeURIComponent s = s"
    by (induction s) (auto simp: is_id_char_def uri_unreserved_def)
  then show "is_id s \<Longrightarrow> encodeURIComponent s = s" by (simp add: is_id_def)
qed

lemma ledger_admitted:
  assumes "list_all (list_all is_id_char) segs"
    and "list_ex (\<lambda>p. list_all2 segment_matches (pp_segments p) segs) (cp_pathPatterns (ce_capability (SABCL_CAPABILITIES ! 1)))"
    and "\<not> starts_with ''/internal/customer-transfers'' (path_text segs)"
  shows "calls_within admitted (ledger_request env req schema (path_text segs) m body customerId)"
proof (rule ledger_client.within)
  let ?r = "inner_call env req ''ledger.accounts'' (path_text segs) m body customerId"
  have "List.find (\<lambda>c. starts_with (cp_operationPrefix c @ ''.'') (ir_op ?r)) (capabilitiesForService ''ledger'') = Some (ce_capability (SABCL_CAPABILITIES ! 1))"
    by (simp add: inner_call_def capabilitiesForService_def SABCL_CAPABILITIES_def starts_with_def)
  moreover have "ir_method ?r \<in> set (cp_methods (ce_capability (SABCL_CAPABILITIES ! 1)))" by (cases m) (simp_all add: inner_call_def SABCL_CAPABILITIES_def)
  ultimately have "assertCapability (capabilitiesForService ''ledger'') ?r = Inr ()"
    using assms(1,2) by (intro path_allowed) (simp_all add: inner_call_def)
  then show "admitted (ViaSabcl (capabilityForEndpoint (path_text segs)) (inner_call env req (capabilityForEndpoint (path_text segs)) (path_text segs) m body customerId))"
    using assms(3) by (simp add: capabilityForEndpoint_def admitted_def SABCL_CAPABILITIES_def)
qed (simp add: admitted_def)

lemma payments_admitted:
  assumes "list_all (list_all is_id_char) segs"
    and "list_ex (\<lambda>p. list_all2 segment_matches (pp_segments p) segs) (cp_pathPatterns (ce_capability (SABCL_CAPABILITIES ! 3)))"
  shows "calls_within admitted (payments_request env req schema (path_text segs) m body customerId)"
proof (rule payments_client.within)
  let ?r = "inner_call env req ''payments.transfer'' (path_text segs) m body customerId"
  have "List.find (\<lambda>c. starts_with (cp_operationPrefix c @ ''.'') (ir_op ?r)) (capabilitiesForService ''payments'') = Some (ce_capability (SABCL_CAPABILITIES ! 3))"
    by (simp add: inner_call_def capabilitiesForService_def SABCL_CAPABILITIES_def starts_with_def)
  moreover have "ir_method ?r \<in> set (cp_methods (ce_capability (SABCL_CAPABILITIES ! 3)))" by (cases m) (simp_all add: inner_call_def SABCL_CAPABILITIES_def)
  ultimately have "assertCapability (capabilitiesForService ''payments'') ?r = Inr ()"
    using assms(1,2) by (intro path_allowed) (simp_all add: inner_call_def)
  then show "admitted (ViaSabcl ''payments.transfer'' ?r)" by (simp add: admitted_def SABCL_CAPABILITIES_def)
qed (simp add: admitted_def)

lemma fixed_parts:
  "list_all is_id_char ''internal''" "list_all is_id_char ''customers''" "list_all is_id_char ''accounts''" "list_all is_id_char ''customer-accounts''"
  "list_all is_id_char ''default''" "list_all is_id_char ''balance''" "list_all is_id_char ''transactions''" "list_all is_id_char ''transfer-policy''"
  "list_all is_id_char ''transfer-intents''" "list_all is_id_char ''authorize''" "list_all is_id_char ''transfers''"
  by code_simp+

lemma id_segment: "is_id s \<Longrightarrow> segment_matches ID s" "is_id s \<Longrightarrow> list_all is_id_char s"
  by (simp_all add: is_id_def segment_matches_def)

lemma ledger_paths:
  assumes "is_id a" "is_id b"
  shows "calls_within admitted (ledger_request env req schema (customerAccounts_path a) m body c)"
    "calls_within admitted (ledger_request env req schema ''/internal/customer-accounts/default'' m body c)"
    "calls_within admitted (ledger_request env req schema (customerAccount_path a) m body c)"
    "calls_within admitted (ledger_request env req schema (customerAccountBalance_path a) m body c)"
    "calls_within admitted (ledger_request env req schema (customerTransaction_path a b) m body c)"
proof -
  note ok = ledger_admitted [of "[''internal'', ''customers'', a, ''accounts'']"] ledger_admitted [of "[''internal'', ''customer-accounts'', ''default'']"]
    ledger_admitted [of "[''internal'', ''customer-accounts'', a]"] ledger_admitted [of "[''internal'', ''customer-accounts'', a, ''balance'']"]
    ledger_admitted [of "[''internal'', ''customer-accounts'', a, ''transactions'', b]"]
  show "calls_within admitted (ledger_request env req schema (customerAccounts_path a) m body c)"
    "calls_within admitted (ledger_request env req schema ''/internal/customer-accounts/default'' m body c)"
    "calls_within admitted (ledger_request env req schema (customerAccount_path a) m body c)"
    "calls_within admitted (ledger_request env req schema (customerAccountBalance_path a) m body c)"
    "calls_within admitted (ledger_request env req schema (customerTransaction_path a b) m body c)"
    using ok assms fixed_parts id_segment [OF assms(1)] id_segment [OF assms(2)]
    by (simp_all add: SABCL_CAPABILITIES_def fixed_path_def segment_matches_def path_text_def starts_with_def customerAccounts_path_def customerAccount_path_def
          customerAccountBalance_path_def customerTransaction_path_def)
qed

lemma payments_paths:
  assumes "is_id a" "is_id b"
  shows "calls_within admitted (payments_request env req schema ''/internal/transfer-policy'' m body c)"
    "calls_within admitted (payments_request env req schema ''/internal/transfer-intents'' m body c)"
    "calls_within admitted (payments_request env req schema (authorize_path a) m body c)"
    "calls_within admitted (payments_request env req schema ''/internal/transfers'' m body c)"
    "calls_within admitted (payments_request env req schema (transfer_path a b) m body c)"
proof -
  note ok = payments_admitted [of "[''internal'', ''transfer-policy'']"] payments_admitted [of "[''internal'', ''transfer-intents'']"]
    payments_admitted [of "[''internal'', ''transfer-intents'', a, ''authorize'']"] payments_admitted [of "[''internal'', ''transfers'']"]
    payments_admitted [of "[''internal'', ''customers'', a, ''transfers'', b]"]
  show "calls_within admitted (payments_request env req schema ''/internal/transfer-policy'' m body c)"
    "calls_within admitted (payments_request env req schema ''/internal/transfer-intents'' m body c)"
    "calls_within admitted (payments_request env req schema (authorize_path a) m body c)"
    "calls_within admitted (payments_request env req schema ''/internal/transfers'' m body c)"
    "calls_within admitted (payments_request env req schema (transfer_path a b) m body c)"
    using ok assms fixed_parts id_segment [OF assms(1)] id_segment [OF assms(2)]
    by (simp_all add: SABCL_CAPABILITIES_def fixed_path_def segment_matches_def path_text_def authorize_path_def transfer_path_def)
qed

subsection \<open>Searches\<close>

text \<open>Texts of a search: letters, digits and a few marks, no two dots in a row.  Encoded and decoded they stay what they are.\<close>

definition tame_char :: "char \<Rightarrow> bool" where
  "tame_char c = (is_id_char c \<or> c = CHR '':'' \<or> c = CHR ''.'')"

definition tame :: "string \<Rightarrow> bool" where
  "tame s = (list_all tame_char s \<and> \<not> has_substring ''..'' s)"

lemma tame_char_cases: "is_alnum c \<or> c = CHR ''_'' \<or> c = CHR ''-'' \<or> c = CHR '':'' \<or> c = CHR ''.''" if "tame_char c"
  using that by (auto simp: tame_char_def is_id_char_def)

lemma alnum_marks: "is_alnum c \<Longrightarrow> c \<noteq> CHR ''%'' \<and> c \<noteq> CHR '':'' \<and> c \<noteq> CHR ''.'' \<and> c \<noteq> CHR 0x5C \<and> of_char c \<le> (127::nat)"
  by (auto simp: is_alnum_def is_upper_def is_lower_def is_digit_def less_eq_char_def)

lemma form_encode_tame_char:
  assumes "tame_char c"
  shows "form_encode (c # s) = (if c = CHR '':'' then ''%3A'' else [c]) @ form_encode s"
proof -
  have "hex_upper 3 = CHR ''3''" "hex_upper 10 = CHR ''A''" by code_simp+
  then show ?thesis using tame_char_cases [OF assms] alnum_marks [of c] by (auto simp: is_alnum_def is_upper_def is_lower_def is_digit_def)
qed

lemma decode_colon: "percent_decode (CHR ''%'' # CHR ''3'' # CHR ''A'' # rest) = map_option (\<lambda>r. CHR '':'' # r) (percent_decode rest)"
proof -
  have "radix_digit 16 (CHR ''3'') = Some 3" "radix_digit 16 (CHR ''A'') = Some 10" "char_of (58::nat) = CHR '':''" by code_simp+
  then show ?thesis by simp
qed

lemma decode_plain: "c \<noteq> CHR ''%'' \<Longrightarrow> percent_decode (c # rest) = map_option (\<lambda>r. c # r) (percent_decode rest)"
  by simp

lemma decode_form:
  "list_all tame_char s \<Longrightarrow> percent_decode (form_encode s @ rest) = map_option (\<lambda>r. s @ r) (percent_decode rest)"
proof (induction s)
  case Nil
  then show ?case by (simp add: option.map_ident)
next
  case (Cons c s)
  have "c \<noteq> CHR ''%''" using Cons.prems tame_char_cases [of c] alnum_marks [of c] by auto
  with Cons show ?case
    by (cases "c = CHR '':''") (simp_all del: form_encode.simps percent_decode.simps add: form_encode_tame_char decode_colon decode_plain option.map_comp comp_def)
qed

lemma form_chars: "list_all tame_char s \<Longrightarrow> list_all is_query_char (form_encode s)"
proof (induction s)
  case (Cons c s)
  then show ?case using tame_char_cases [of c]
    by (auto simp del: form_encode.simps(2) simp: form_encode_tame_char is_query_char_def is_alnum_def is_upper_def is_digit_def)
qed simp

definition pair_text :: "string \<times> string \<Rightarrow> string" where
  "pair_text p = fst p @ ''='' @ snd p"

definition form_pair :: "string \<times> string \<Rightarrow> string" where
  "form_pair p = form_encode (fst p) @ ''='' @ form_encode (snd p)"

lemma decode_pairs:
  "list_all (\<lambda>p. tame (fst p) \<and> tame (snd p)) ps \<Longrightarrow> percent_decode (join_with ''&'' (map form_pair ps)) = Some (join_with ''&'' (map pair_text ps))"
proof (induction ps rule: induct_list012)
  case (2 p)
  then show ?case using decode_form [of "snd p" "[]"] by (simp add: form_pair_def pair_text_def decode_form tame_def)
next
  case (3 p q ps)
  then show ?case by (simp add: form_pair_def [of p] pair_text_def [of p] decode_form tame_def)
qed simp

lemma pairs_chars: "list_all (\<lambda>p. tame (fst p) \<and> tame (snd p)) ps \<Longrightarrow> list_all is_query_char (join_with ''&'' (map form_pair ps))"
proof (induction ps rule: induct_list012)
  case (2 p)
  then show ?case by (simp add: form_pair_def tame_def form_chars) (simp add: is_query_char_def)
next
  case (3 p q ps)
  then show ?case by (simp add: form_pair_def [of p] tame_def form_chars) (simp add: is_query_char_def)
qed simp

lemma dots_between: "c \<noteq> CHR ''.'' \<Longrightarrow> has_substring ''..'' (a @ c # b) \<longleftrightarrow> has_substring ''..'' a \<or> has_substring ''..'' b"
proof (induction a)
  case (Cons x a)
  then show ?case by (cases a) (auto simp: starts_with_def)
qed (auto simp: starts_with_def)

lemma pairs_dots: "list_all (\<lambda>p. tame (fst p) \<and> tame (snd p)) ps \<Longrightarrow> \<not> has_substring ''..'' (join_with ''&'' (map pair_text ps))"
proof (induction ps rule: induct_list012)
  case (2 p)
  then show ?case by (simp add: pair_text_def tame_def dots_between)
next
  case (3 p q ps)
  then show ?case by (simp add: pair_text_def [of p] tame_def dots_between)
qed simp

lemma pairs_set:
  "c \<in> set (join_with ''&'' (map pair_text ps)) \<Longrightarrow> c = CHR ''&'' \<or> c = CHR ''='' \<or> (\<exists>p \<in> set ps. c \<in> set (fst p) \<or> c \<in> set (snd p))"
  by (induction ps rule: induct_list012) (auto simp: pair_text_def)

definition search_pairs :: "(string \<times> json option) list \<Rightarrow> (string \<times> string) list" where
  "search_pairs es = concat (map (\<lambda>(k, v). case v of None \<Rightarrow> [] | Some x \<Rightarrow> [(k, param_text x)]) es)"

lemma search_suffix_pairs:
  "search_suffix (Some (JObj es)) = (if search_pairs es = [] then [] else CHR ''?'' # join_with ''&'' (map form_pair (search_pairs es)))"
proof -
  have "concat (map (\<lambda>(k, v). case v of None \<Rightarrow> [] | Some x \<Rightarrow> [form_encode k @ ''='' @ form_encode (param_text x)]) es) = map form_pair (search_pairs es)"
    by (induction es) (auto simp: search_pairs_def form_pair_def split: option.splits)
  then show ?thesis unfolding search_suffix_def Let_def option.case json.case by (simp only: map_is_Nil_conv)
qed

text \<open>The search of a path after the question mark.\<close>

definition search_of :: "string \<Rightarrow> string" where
  "search_of path = tl (dropWhile (\<lambda>c. c \<noteq> CHR ''?'') path)"

lemma ascii_utf8: "list_all (\<lambda>c. of_char c \<le> (127::nat)) s \<Longrightarrow> utf8_ok s"
  by (induction s rule: utf8_ok.induct) (auto simp: byte_in_def)

lemma search_decode:
  assumes "list_all (list_all is_id_char) segs" "list_all (\<lambda>p. tame (fst p) \<and> tame (snd p)) ps"
  defines "path \<equiv> path_text segs @ CHR ''?'' # join_with ''&'' (map form_pair ps)"
  shows "\<not> has_substring ''..'' (safeDecode path) \<and> \<not> has_substring [CHR 0x5C] (safeDecode path)"
proof -
  let ?out = "path_text segs @ CHR ''?'' # join_with ''&'' (map pair_text ps)"
  have chars: "c = CHR ''/'' \<or> is_id_char c" if "c \<in> set (path_text segs)" for c using path_chars [OF assms(1) that] .
  have "percent_decode (s @ rest) = map_option (\<lambda>r. s @ r) (percent_decode rest)" if "CHR ''%'' \<notin> set s" for s rest
    using that by (induction s; cases "percent_decode rest") auto
  moreover have "CHR ''%'' \<notin> set (path_text segs)" using chars id_char_not by fastforce
  ultimately have d: "percent_decode path = Some ?out" unfolding path_def using decode_pairs [OF assms(2)] by simp
  have pair: "tame_char c \<or> c = CHR ''&'' \<or> c = CHR ''=''" if "c \<in> set (join_with ''&'' (map pair_text ps))" for c
    using pairs_set [OF that] assms(2) by (auto simp: list_all_iff tame_def)
  have all: "tame_char c \<or> c \<in> set ''&=?/''" if "c \<in> set ?out" for c
    using that chars pair by (auto simp: tame_char_def)
  have "of_char c \<le> (127::nat) \<and> c \<noteq> CHR 0x5C" if "c \<in> set ?out" for c
    using all [OF that] tame_char_cases [of c] alnum_marks [of c] by auto
  then have "list_all (\<lambda>c. of_char c \<le> (127::nat)) ?out" and b: "CHR 0x5C \<notin> set ?out" unfolding list_all_iff by blast+
  then have decoded: "safeDecode path = ?out" using ascii_utf8 d by (simp add: safeDecode_def)
  have "CHR ''.'' \<notin> set (path_text segs)" using chars id_char_not by fastforce
  then have "\<not> has_substring ''..'' ?out" using no_dots(1) pairs_dots [OF assms(2)] by (simp add: dots_between)
  with no_dots(2) [OF b] show ?thesis unfolding decoded by blast
qed

lemma search_allowed:
  assumes "List.find (\<lambda>c. starts_with (cp_operationPrefix c @ ''.'') (ir_op r)) caps = Some c" "ir_method r \<in> set (cp_methods c)"
    and "ir_path r = path_text segs @ search_suffix (Some (JObj es))" "list_all (list_all is_id_char) segs"
    and "list_all (\<lambda>p. tame (fst p) \<and> tame (snd p)) (search_pairs es)"
    and "list_ex (\<lambda>p. pp_query p \<and> list_all2 segment_matches (pp_segments p) segs) (cp_pathPatterns c)"
  shows "assertCapability caps r = Inr () \<longleftrightarrow> length (search_of (ir_path r)) \<le> 512"
proof (cases "search_pairs es = []")
  case True
  have "list_ex (\<lambda>p. list_all2 segment_matches (pp_segments p) segs) (cp_pathPatterns c)" using assms(6) by (auto simp: list_ex_iff)
  moreover have path: "ir_path r = path_text segs" using assms(3) True by (simp add: search_suffix_pairs)
  ultimately have "assertCapability caps r = Inr ()" using path_allowed assms(1,2,4) by blast
  moreover have "dropWhile (\<lambda>c. c \<noteq> CHR ''?'') (path_text segs) = []" using path_chars [OF assms(4)] id_char_not by fastforce
  then have "search_of (path_text segs) = []" unfolding search_of_def by (simp only: list.sel)
  ultimately show ?thesis by (simp add: path)
next
  case False
  let ?q = "join_with ''&'' (map form_pair (search_pairs es))"
  have path: "ir_path r = path_text segs @ CHR ''?'' # ?q" using assms(3) False by (simp add: search_suffix_pairs)
  have n: "\<And>c. c \<in> set (path_text segs) \<Longrightarrow> c \<noteq> CHR ''?''" using path_chars [OF assms(4)] id_char_not by fastforce
  then have tw: "takeWhile (\<lambda>c. c \<noteq> CHR ''?'') (ir_path r) = path_text segs" "dropWhile (\<lambda>c. c \<noteq> CHR ''?'') (ir_path r) = CHR ''?'' # ?q"
    unfolding path by (simp_all add: takeWhile_append2 dropWhile_append2)
  have "list_all (\<lambda>s. CHR ''/'' \<notin> set s) segs" using assms(4) id_char_not by (auto simp: list_all_iff)
  then have "pattern_test p (ir_path r) \<longleftrightarrow> list_all2 segment_matches (pp_segments p) segs \<and> pp_query p \<and> length ?q \<le> 512" for p
    unfolding pattern_test_def Let_def tw using split_path [of "[]" segs] pairs_chars [OF assms(5)] by (simp add: segment_matches_def)
  then have "list_ex (\<lambda>p. pattern_test p (ir_path r)) (cp_pathPatterns c) \<longleftrightarrow> length ?q \<le> 512" using assms(6) by (auto simp: list_ex_iff)
  moreover have "search_of (ir_path r) = ?q" by (simp add: search_of_def tw)
  ultimately show ?thesis using assms(1,2) search_decode [OF assms(4,5)] by (simp add: assertCapability_def Let_def path)
qed

text \<open>What a query route sends over the layer is admitted exactly when its search has at most 512 characters.\<close>

definition admitted_by_length :: "gw_call \<Rightarrow> bool" where
  "admitted_by_length c = (case c of Fetch h \<Rightarrow> True | ViaSabcl cap r \<Rightarrow> admitted c \<longleftrightarrow> length (search_of (ir_path r)) \<le> 512)"

lemma ledger_search:
  assumes "is_id a" "list_all (\<lambda>p. tame (fst p) \<and> tame (snd p)) (search_pairs es)"
  shows "calls_within admitted_by_length (ledger_request env req schema (customerTransactions_path a (search_suffix (Some (JObj es)))) GET body customerId)"
proof (rule ledger_client.within)
  let ?segs = "[''internal'', ''customer-accounts'', a, ''transactions'']" and ?path = "customerTransactions_path a (search_suffix (Some (JObj es)))"
  let ?r = "inner_call env req ''ledger.accounts'' ?path GET body customerId"
  have cap: "capabilityForEndpoint ?path = ''ledger.accounts''"
    by (simp add: capabilityForEndpoint_def customerTransactions_path_def customerAccount_path_def starts_with_def)
  have "List.find (\<lambda>c. starts_with (cp_operationPrefix c @ ''.'') (ir_op ?r)) (capabilitiesForService ''ledger'') = Some (ce_capability (SABCL_CAPABILITIES ! 1))"
    by (simp add: inner_call_def capabilitiesForService_def SABCL_CAPABILITIES_def starts_with_def)
  moreover have "ir_method ?r \<in> set (cp_methods (ce_capability (SABCL_CAPABILITIES ! 1)))" by (simp add: inner_call_def SABCL_CAPABILITIES_def)
  moreover have "ir_path ?r = path_text ?segs @ search_suffix (Some (JObj es))"
    using assms(1) by (simp add: inner_call_def customerTransactions_path_def customerAccount_path_def path_text_def)
  moreover have "list_all (list_all is_id_char) ?segs" using assms(1) fixed_parts id_segment by simp
  moreover have "list_ex (\<lambda>p. pp_query p \<and> list_all2 segment_matches (pp_segments p) ?segs) (cp_pathPatterns (ce_capability (SABCL_CAPABILITIES ! 1)))"
    using id_segment [OF assms(1)] by (simp add: SABCL_CAPABILITIES_def fixed_path_def segment_matches_def)
  ultimately have "assertCapability (capabilitiesForService ''ledger'') ?r = Inr () \<longleftrightarrow> length (search_of (ir_path ?r)) \<le> 512"
    using assms(2) by (intro search_allowed)
  then show "admitted_by_length (ViaSabcl (capabilityForEndpoint ?path) (inner_call env req (capabilityForEndpoint ?path) ?path GET body customerId))"
    unfolding cap by (simp add: admitted_by_length_def admitted_def SABCL_CAPABILITIES_def)
qed (simp add: admitted_by_length_def)

lemma payments_search:
  assumes "is_id a" "list_all (\<lambda>p. tame (fst p) \<and> tame (snd p)) (search_pairs es)"
  shows "calls_within admitted_by_length (payments_request env req schema (transfers_path a (search_suffix (Some (JObj es)))) GET body customerId)"
proof (rule payments_client.within)
  let ?segs = "[''internal'', ''customers'', a, ''transfers'']" and ?path = "transfers_path a (search_suffix (Some (JObj es)))"
  let ?r = "inner_call env req ''payments.transfer'' ?path GET body customerId"
  have "List.find (\<lambda>c. starts_with (cp_operationPrefix c @ ''.'') (ir_op ?r)) (capabilitiesForService ''payments'') = Some (ce_capability (SABCL_CAPABILITIES ! 3))"
    by (simp add: inner_call_def capabilitiesForService_def SABCL_CAPABILITIES_def starts_with_def)
  moreover have "ir_method ?r \<in> set (cp_methods (ce_capability (SABCL_CAPABILITIES ! 3)))" by (simp add: inner_call_def SABCL_CAPABILITIES_def)
  moreover have "ir_path ?r = path_text ?segs @ search_suffix (Some (JObj es))"
    using assms(1) by (simp add: inner_call_def transfers_path_def path_text_def)
  moreover have "list_all (list_all is_id_char) ?segs" using assms(1) fixed_parts id_segment by simp
  moreover have "list_ex (\<lambda>p. pp_query p \<and> list_all2 segment_matches (pp_segments p) ?segs) (cp_pathPatterns (ce_capability (SABCL_CAPABILITIES ! 3)))"
    using id_segment [OF assms(1)] by (simp add: SABCL_CAPABILITIES_def fixed_path_def segment_matches_def)
  ultimately have "assertCapability (capabilitiesForService ''payments'') ?r = Inr () \<longleftrightarrow> length (search_of (ir_path ?r)) \<le> 512"
    using assms(2) by (intro search_allowed)
  then show "admitted_by_length (ViaSabcl ''payments.transfer'' ?r)"
    by (simp add: admitted_by_length_def admitted_def SABCL_CAPABILITIES_def)
qed (simp add: admitted_by_length_def)

text \<open>A cursor as the services issue it: URL-safe base64.\<close>

definition issued_cursor :: "json \<Rightarrow> bool" where
  "issued_cursor query = (case jmember (Some query) ''cursor'' of Some (JStr c) \<Rightarrow> list_all is_id_char c | _ \<Rightarrow> True)"

lemma zfields_elem: "zfields fs es = Some out \<Longrightarrow> (k, w) \<in> set out \<Longrightarrow> \<exists>p. (k, p) \<in> set fs \<and> p (zget es k) = Some w"
proof (induction fs es arbitrary: out rule: zfields.induct)
  case (2 k' q fs es)
  from "2.prems"(1) obtain r rest where r: "q (zget es k') = Some r" "zfields fs es = Some rest" "out = (case r of None \<Rightarrow> rest | Some x \<Rightarrow> (k', Some x) # rest)"
    by (auto split: option.splits)
  with "2.prems"(2) "2.IH" [OF r(1,2)] show ?case by (cases r) auto
qed simp

lemma id_chars_tame: "list_all is_id_char s \<Longrightarrow> tame s"
  using no_dots(1) [of s] id_char_not by (auto simp: tame_def tame_char_def list_all_iff)

text \<open>What a field of a query schema lets through from a document is a text of a search.\<close>

definition tame_field :: "(string \<times> json option) list \<Rightarrow> zfield \<Rightarrow> bool" where
  "tame_field es f = (tame (fst f) \<and> (\<forall>x. snd f (zget es (fst f)) = Some (Some x) \<longrightarrow> tame (param_text x)))"

lemma tame_enum: "tame k \<Longrightarrow> list_all tame vals \<Longrightarrow> tame_field es (zopt k (zenum vals))"
  by (auto simp: tame_field_def zopt_def zenum_def zstr_def zif_def param_text_def list_all_iff split: option.splits json.splits if_splits)

lemma tame_date: "tame k \<Longrightarrow> (\<And>s. zd_datetime z s \<Longrightarrow> tame s) \<Longrightarrow> tame_field es (zopt k (zdate z))"
  by (auto simp: tame_field_def zopt_def zstr_def zif_def param_text_def split: option.splits json.splits if_splits)

lemma tame_page: "tame k \<Longrightarrow> tame_field es (zdef k (JInt 20) (zpage 50))"
proof -
  have "tame (dec_of_int i)" for i
    using dec_of_nat_digits by (intro id_chars_tame) (auto simp: dec_of_int_def list_all_iff is_id_char_def is_alnum_def)
  then show "tame k \<Longrightarrow> tame_field es (zdef k (JInt 20) (zpage 50))"
    by (auto simp: tame_field_def zdef_def zpage_def param_text_def split: option.splits json.splits if_splits)
qed

lemma tame_cursor: "issued_cursor (JObj es) \<Longrightarrow> tame ''cursor'' \<Longrightarrow> tame_field es (zopt ''cursor'' (zlen 1 1024))"
  by (auto simp: tame_field_def zopt_def zlen_def zstr_def zif_def param_text_def issued_cursor_def jmember_def intro!: id_chars_tame split: option.splits json.splits if_splits)

lemma tame_search:
  assumes "zstrict fs v = Some w" "\<And>es. v = JObj es \<Longrightarrow> list_all (tame_field es) fs"
  shows "\<exists>es. w = JObj es \<and> list_all (\<lambda>p. tame (fst p) \<and> tame (snd p)) (search_pairs es)"
proof -
  obtain es out where v: "v = JObj es" "zfields fs es = Some out" "w = JObj out"
    using assms(1) by (auto simp: zobj_def split: json.splits if_splits)
  have "tame k \<and> tame (param_text x)" if m: "(k, Some x) \<in> set out" for k x
  proof -
    obtain p where "(k, p) \<in> set fs" "p (zget es k) = Some (Some x)" using zfields_elem [OF v(2) m] by blast
    with assms(2) [OF v(1)] show ?thesis by (auto simp: list_all_iff tame_field_def)
  qed
  then show ?thesis using v(3) by (auto simp: search_pairs_def list_all_iff split: option.splits)
qed

lemma query_tame:
  assumes "\<And>s. zd_datetime z s \<Longrightarrow> tame s" "issued_cursor v"
    and "transactionHistoryQuerySchema z v = Some w \<or> transferListQuerySchema z v = Some w"
  shows "\<exists>es. w = JObj es \<and> list_all (\<lambda>p. tame (fst p) \<and> tame (snd p)) (search_pairs es)"
proof -
  have names: "tame ''direction''" "tame ''category''" "tame ''dateFrom''" "tame ''dateTo''" "tame ''pageSize''" "tame ''cursor''" "tame ''status''"
    "list_all tame [''INCOMING'', ''OUTGOING'']" "list_all tame [''FUNDING'', ''ADJUSTMENT'', ''TRANSFER'', ''OTHER'']"
    "list_all tame [''SENT'', ''RECEIVED'']" "list_all tame [''PROCESSING'', ''COMPLETED'', ''FAILED'', ''REQUIRES_REVIEW'']" by code_simp+
  have parsed_by: "Option.bind (zstrict fs v) (zif dates_in_order) = Some w \<Longrightarrow> zstrict fs v = Some w" for fs
    by (auto simp: bind_eq_Some_conv zif_def split: if_splits)
  have members: "list_all (tame_field es) [zopt k1 (zenum vals1), zopt k2 (zenum vals2), zopt ''dateFrom'' (zdate z), zopt ''dateTo'' (zdate z),
      zdef ''pageSize'' (JInt 20) (zpage 50), zopt ''cursor'' (zlen 1 1024)]"
    if "v = JObj es" "tame k1" "tame k2" "list_all tame vals1" "list_all tame vals2" for es k1 k2 vals1 vals2
    unfolding list.pred_inject using that assms(2) names by (intro conjI TrueI tame_enum tame_date [OF _ assms(1)] tame_page tame_cursor) simp_all
  show ?thesis using assms(3) unfolding transactionHistoryQuerySchema_def transferListQuerySchema_def
    by (elim disjE) (rule tame_search [OF parsed_by], assumption, rule members, assumption, (rule names)+)+
qed

lemma session_resolve_uuid:
  assumes "session_resolve env req log = (Inr customerId, log1)"
  shows "zd_uuid (ge_zod env) customerId"
proof (rule session_resolve_Inr [OF assms])
  fix s h
  assume "asked env log1 IdentityService session_endpoint (session_says env s customerId)"
  then show ?thesis using session_customer_uuid by (auto simp: asked_def session_says_def)
qed

lemma confirmed_token:
  assumes "gw_parse transferConfirmationRequestSchema body log = (Inr data, log1)"
  shows "is_id (jstring data ''intentToken'')"
proof -
  obtain v w where w: "zstrict [zreq ''intentToken'' ztoken, zreq ''pin'' zdigits] v = Some w" "data = Some w"
    using assms by (auto simp: gw_parse_def gw_defs document_def transferConfirmationRequestSchema_def split: option.splits)
  obtain x y where "ztoken x = Some y" "jmember (Some w) ''intentToken'' = Some y" using required_member [OF w(1), of "''intentToken''" ztoken] by auto
  then show ?thesis using w(2)
    by (auto simp: zstr_def zif_def jstring_def jtext_def is_id_def opaqueIntentTokenSchema_def is_id_char_def list_all_iff split: json.splits if_splits)
qed

lemma confirm_token:
  assumes "confirm_checked env req body log = (Inr (customerId, sessionId, data, key, assessment), log1)"
  shows "is_id (jstring data ''intentToken'')"
  using assms confirmed_token by (fastforce simp: confirm_checked_def gwThen_Inr gwReturn_def)

lemma admitted_fetch [simp]: "admitted (Fetch h)"
  by (simp add: admitted_def)

lemma resolve_then:
  assumes "\<And>customerId. zd_uuid (ge_zod env) customerId \<Longrightarrow> calls_within admitted (f customerId)"
  shows "calls_within admitted (gwThen (session_resolve env req) f)"
  by (rule calls_within_thenI) (auto intro: call_rules assms session_resolve_uuid)

lemma account_then:
  assumes "\<And>v. zd_uuid (ge_zod env) v \<Longrightarrow> calls_within admitted (f v)"
  shows "calls_within admitted (gwThen (accountId_param env a) f)"
  by (rule calls_within_thenI) (auto intro: call_rules assms simp: accountId_param_def gw_defs split: if_splits)

lemma length_fetch [simp]: "admitted_by_length (Fetch h)"
  by (simp add: admitted_by_length_def)

lemma history_search:
  assumes "\<And>s. zd_uuid (ge_zod env) s \<Longrightarrow> is_id s" "\<And>s. zd_datetime (ge_zod env) s \<Longrightarrow> tame s" "issued_cursor query"
  shows "calls_within admitted_by_length (gwThen (session_resolve env req) (\<lambda>customerId.
     gwThen (gw_parse (transactionHistoryQuerySchema (ge_zod env)) (Some query)) (\<lambda>q.
     gwThen (accountId_param env accountId) (\<lambda>a. ledger_request env req schema (customerTransactions_path a (search_suffix q)) GET None (Some customerId)))))"
proof (intro calls_within_thenI)
  fix log0 customerId log q log1 log2 a log3 log4
  assume "session_resolve env req log0 = (Inr customerId, log4)" "gw_parse (transactionHistoryQuerySchema (ge_zod env)) (Some query) log = (Inr q, log1)" "accountId_param env accountId log2 = (Inr a, log3)"
  then have "document (transactionHistoryQuerySchema (ge_zod env)) (Some query) = Some q" and a: "is_id a"
    using assms(1) by (auto simp: gw_parse_def gw_defs accountId_param_def split: option.splits if_splits)
  then obtain w where q: "q = Some w" "transactionHistoryQuerySchema (ge_zod env) query = Some w" by (auto simp: document_def)
  obtain es where "w = JObj es" "list_all (\<lambda>p. tame (fst p) \<and> tame (snd p)) (search_pairs es)"
    using query_tame [OF assms(2) assms(3)] q(2) by blast
  then show "calls_within admitted_by_length (ledger_request env req schema (customerTransactions_path a (search_suffix q)) GET None (Some customerId))"
    using ledger_search [OF a] q(1) by simp
qed (intro call_rules; simp)+

lemma list_search:
  assumes "\<And>s. zd_uuid (ge_zod env) s \<Longrightarrow> is_id s" "\<And>s. zd_datetime (ge_zod env) s \<Longrightarrow> tame s" "issued_cursor query"
  shows "calls_within admitted_by_length (gwThen (session_resolve env req) (\<lambda>customerId.
     gwThen (gw_parse (transferListQuerySchema (ge_zod env)) (Some query)) (\<lambda>q.
       payments_request env req schema (transfers_path customerId (search_suffix q)) GET None None)))"
proof (intro calls_within_thenI)
  fix log customerId log1 log2 q log3
  assume r: "session_resolve env req log = (Inr customerId, log1)" "gw_parse (transferListQuerySchema (ge_zod env)) (Some query) log2 = (Inr q, log3)"
  then have "document (transferListQuerySchema (ge_zod env)) (Some query) = Some q"
    by (auto simp: gw_parse_def gw_defs split: option.splits if_splits)
  then obtain w where q: "q = Some w" "transferListQuerySchema (ge_zod env) query = Some w" by (auto simp: document_def)
  obtain es where "w = JObj es" "list_all (\<lambda>p. tame (fst p) \<and> tame (snd p)) (search_pairs es)"
    using query_tame [OF assms(2) assms(3)] q(2) by blast
  then show "calls_within admitted_by_length (payments_request env req schema (transfers_path customerId (search_suffix q)) GET None None)"
    using payments_search [OF assms(1) [OF session_resolve_uuid [OF r(1)]]] q(1) by simp
qed (intro call_rules; simp)+

text \<open>C37: the gateway and the recipients of the message layer agree on the routes of accounts and transfers.  Whatever the routes
  that list, open or show accounts and show a transaction, or preview, confirm or show a transfer, send over the layer,
  the catalogue of the service it is addressed to admits: operation, method and path fit the capability it was sent
  under.  What the two routes with a search send, the list of transactions and the list of transfers, it admits exactly
  when the search has at most 512 characters, for every cursor written in URL-safe base64; the gateway itself takes
  cursors of up to 1024.  Assumed is that identifiers and dates are written in the characters of UUIDs and ISO dates.\<close>

theorem gateway_paths_admitted:
  assumes "\<And>s. zd_uuid (ge_zod env) s \<Longrightarrow> is_id s" "\<And>s. zd_datetime (ge_zod env) s \<Longrightarrow> tame s" "issued_cursor query"
  shows "calls_within admitted (accounts_list env req) \<and> calls_within admitted (accounts_provisionDefault env req body)
    \<and> calls_within admitted (accounts_detail env req accountId) \<and> calls_within admitted (accounts_balance env req accountId)
    \<and> calls_within admitted (accounts_transaction env req accountId transactionId) \<and> calls_within admitted (transfers_policy env req)
    \<and> calls_within admitted (transfers_preview env req body) \<and> calls_within admitted (transfers_confirm env req body)
    \<and> calls_within admitted (transfers_detail env req transferId)
    \<and> calls_within admitted_by_length (accounts_transactions env req accountId query)
    \<and> calls_within admitted_by_length (transfers_list env req query)"
proof (intro conjI)
  note l = ledger_paths [OF assms(1) assms(1)] and p = payments_paths [OF assms(1) assms(1)]
  have i: "is_id ''x''" by code_simp
  show "calls_within admitted (accounts_list env req)" "calls_within admitted (accounts_detail env req accountId)"
      "calls_within admitted (accounts_balance env req accountId)" "calls_within admitted (accounts_transaction env req accountId transactionId)"
    unfolding accounts_list_def accounts_detail_def accounts_balance_def accounts_transaction_def
    by (intro resolve_then account_then l; assumption)+
  show "calls_within admitted (accounts_provisionDefault env req body)" unfolding accounts_provisionDefault_def
    by (intro call_rules ledger_paths(2) [OF i i]) simp_all
  show "calls_within admitted (transfers_policy env req)" "calls_within admitted (transfers_preview env req body)"
    unfolding transfers_policy_def transfers_preview_def by (intro call_rules payments_paths(1,2) [OF i i]; simp)+
  show "calls_within admitted (transfers_detail env req transferId)" unfolding transfers_detail_def
  proof (intro resolve_then calls_within_thenI)
    fix customerId log d log1
    assume "zd_uuid (ge_zod env) customerId" "gw_parse (zuuid (ge_zod env)) (Some (JStr transferId)) log = (Inr d, log1)"
    then show "calls_within admitted (payments_request env req (document (transferDetailJson (ge_zod env))) (transfer_path customerId transferId) GET None None)"
      by (intro p) (auto simp: gw_parse_def gw_defs document_def zstr_def zif_def split: if_splits)
  qed (intro call_rules)
  show "calls_within admitted (transfers_confirm env req body)" unfolding transfers_confirm_def
  proof (rule calls_within_thenI)
    show "calls_within admitted (confirm_checked env req body)" unfolding confirm_checked_def by (intro call_rules) simp_all
    fix a log log1
    assume r: "confirm_checked env req body log = (Inr a, log1)"
    obtain customerId sessionId data key assessment where a: "a = (customerId, sessionId, data, key, assessment)" by (metis prod_cases5)
    have "is_id (jstring data ''intentToken'')" using confirm_token r a by blast
    then show "calls_within admitted (case a of (customerId, sessionId, data, key, assessment) \<Rightarrow> confirm_settled env req customerId sessionId data key assessment)"
      unfolding a prod.case confirm_settled_def by (intro call_rules payments_paths(3,4) i) simp_all
  qed
  show "calls_within admitted_by_length (accounts_transactions env req accountId query)"
    unfolding accounts_transactions_def by (rule history_search [OF assms])
  show "calls_within admitted_by_length (transfers_list env req query)"
    unfolding transfers_list_def by (rule list_search [OF assms])
qed

section \<open>Channels over the message layer\<close>

definition layer_refuses :: "gw_call \<Rightarrow> bool" where
  "layer_refuses c =
     (case c of
        Fetch h \<Rightarrow> hc_service h = IdentityService \<or> hc_service h = RiskService
      | ViaSabcl cap r \<Rightarrow> cap = ''payments.transfer'' \<and> assertCapability (capabilitiesForService ''payments'') r = Inl (SabclError SABCL_ROUTE_INVALID))"

lemma channel_refused:
  assumes "\<not> list_ex (\<lambda>p. pattern_test p path) (cp_pathPatterns (ce_capability (SABCL_CAPABILITIES ! 3)))" "ge_mode env = Strict"
  shows "calls_within layer_refuses (payments_request env req schema path m body customerId)"
proof (rule payments_client.within)
  let ?r = "inner_call env req ''payments.transfer'' path m body customerId"
  have "List.find (\<lambda>c. starts_with (cp_operationPrefix c @ ''.'') (ir_op ?r)) (capabilitiesForService ''payments'') = Some (ce_capability (SABCL_CAPABILITIES ! 3))"
    by (simp add: inner_call_def capabilitiesForService_def SABCL_CAPABILITIES_def starts_with_def)
  then have "assertCapability (capabilitiesForService ''payments'') ?r = Inl (SabclError SABCL_ROUTE_INVALID)"
    using assms(1) by (simp add: assertCapability_def Let_def inner_call_def)
  then show "layer_refuses (ViaSabcl ''payments.transfer'' ?r)" by (simp add: layer_refuses_def)
qed (simp add: assms(2))

definition channel_paths :: "string list" where
  "channel_paths = [''/internal/qr/issue'', ''/internal/qr/preview'', ''/internal/qr/redeem'', ''/internal/agent/cash-in/preview'', ''/internal/agent/cash-out/preview'',
     ''/internal/agent/cash/confirm'', ''/internal/ussd/simulate'', ''/internal/ussd/webhook'']"

lemma channel_paths_refused:
  "list_all (\<lambda>path. \<not> list_ex (\<lambda>p. pattern_test p path) (cp_pathPatterns (ce_capability (SABCL_CAPABILITIES ! 3)))) channel_paths"
  by code_simp

text \<open>C38: no channel works in strict mode.  Every request of a QR, agent or USSD route to payments goes over the message layer as
  \<open>payments.transfer\<close>, and the payments recipient refuses all of them, since the catalogue of that capability has none
  of the channels' paths; no other call of these routes reaches payments.\<close>

theorem channels_refused_in_strict_mode:
  assumes "ge_mode env = Strict"
  shows "calls_within layer_refuses (qrReceive env req body) \<and> calls_within layer_refuses (qrDynamic env req body)
    \<and> calls_within layer_refuses (qrPreview env req body) \<and> calls_within layer_refuses (qrConfirm env req body)
    \<and> calls_within layer_refuses (agentCashInPreview env req body) \<and> calls_within layer_refuses (agentCashOutPreview env req body)
    \<and> calls_within layer_refuses (agentCashConfirm env req body) \<and> calls_within layer_refuses (ussdSimulate env req body)
    \<and> calls_within layer_refuses (ussdWebhook env req body)"
proof -
  have p: "calls_within layer_refuses (payments_request env req schema path m body c)" if "path \<in> set channel_paths" for path schema m body c
    using channel_refused [OF _ assms] channel_paths_refused that by (auto simp: list_all_iff)
  have f: "hc_service h \<in> {IdentityService, RiskService} \<Longrightarrow> layer_refuses (Fetch h)" for h by (auto simp: layer_refuses_def)
  show ?thesis
    unfolding qrReceive_def qrDynamic_def qrPreview_def qrConfirm_def agentCashInPreview_def agentCashOutPreview_def agentCashConfirm_def ussdSimulate_def ussdWebhook_def
      qr_issue_def gw_agent_preview_def channel_confirm_def
    by (intro conjI call_rules p f; simp add: channel_paths_def)
qed

section \<open>A small run\<close>

definition demo_zod :: zod_env where
  "demo_zod = \<lparr>zd_uuid = (\<lambda>s. length s = 36 \<and> list_all is_id_char s), zd_datetime = (\<lambda>s. s \<noteq> [] \<and> tame s)\<rparr>"

definition demo_gw_customer :: string where
  "demo_gw_customer = ''aaaaaaaa-0000-4000-8000-000000000001''"

definition demo_service_answer :: "http_call \<Rightarrow> (int \<times> json option) option" where
  "demo_service_answer h =
     (if hc_path h = ''/api/v1/auth/session'' then
        Some (200, Some (JObj [(''authenticated'', Some (JBool True)), (''authenticationMethod'', Some (JStr ''PIN_OTP'')), (''expiresAt'', Some (JStr ''t'')),
          (''user'', Some (JObj [(''id'', Some (JStr demo_gw_customer)), (''phoneMasked'', Some (JStr ''*123'')), (''preferredLanguage'', Some (JStr ''EN'')),
            (''kycTier'', Some (JInt 0)), (''status'', Some (JStr ''ACTIVE'')), (''phoneVerified'', Some (JBool True))]))]))
      else if hc_path h = ''/internal/v1/controls/check'' then
        Some (201, Some (JObj [(''allowed'', Some (JBool True)), (''decision'', Some (JStr ''ALLOW'')), (''reasonCodes'', Some (JArr [])),
          (''requiresStepUp'', Some (JBool False)), (''expiresAt'', Some JNull)]))
      else if hc_path h = ''/internal/v1/assessments/evaluate'' then
        Some (201, Some (JObj [(''assessmentId'', Some (JStr demo_gw_customer)), (''score'', Some (JInt 3)), (''band'', Some (JStr ''LOW'')), (''decision'', Some (JStr ''ALLOW'')),
          (''triggeredRules'', Some (JArr [])), (''reasonCodes'', Some (JArr [])), (''controlRecommendation'', Some JNull), (''expiresAt'', Some (JStr ''t'')),
          (''ruleSetVersion'', Some (JStr ''1'')), (''publicExplanation'', Some (JStr ''ok''))]))
      else Some (204, None))"

definition demo_gw :: "sabcl_mode \<Rightarrow> gw_env" where
  "demo_gw mode =
     \<lparr>ge_cfg = demo_gateway\<lparr>gc_sessionCookieName := ''s'', gc_csrfCookieName := ''c'', gc_operatorSessionCookieName := ''o''\<rparr>, ge_mode = mode, ge_ownKey = ''gateway.v1:00ff00'', ge_peerKeyIds = [''ledger.v1''], ge_fetch = (\<lambda>_. demo_service_answer), ge_sabcl = (\<lambda>_ _ _. Inl (SabclError SABCL_RECIPIENT_UNAVAILABLE)),
      ge_stringify = (\<lambda>_. ''{}''), ge_parse = (\<lambda>_. None), ge_zod = demo_zod, ge_uuid = (\<lambda>_. demo_gw_customer), ge_nowIso = ''t'', ge_sha256 = id\<rparr>"

definition demo_gw_request :: gw_request where
  "demo_gw_request =
     \<lparr>gr_cookie = Some ''s=ses_1234; c=tok'', gr_correlationId = demo_gw_customer, gr_ip = ''10.0.0.7'', gr_userAgent = None, gr_csrf = Some ''tok'',
      gr_idempotencyKey = Some ''key-0000-0000-0001''\<rparr>"

definition demo_confirm_body :: "json option" where
  "demo_confirm_body = Some (JObj [(''intentToken'', Some (JStr (replicate 43 CHR ''t''))), (''pin'', Some (JStr ''193746''))])"

lemma demo_session: "session_of_cookie (demo_gw Off) demo_gw_request = Inr ''ses_1234''"
  by (simp add: session_of_cookie_def readCookie_def demo_gw_def demo_gw_request_def decodeURIComponent_def js_trim_def byte_in_def is_js_space_def)

lemma demo_confirm: "list_ex moves_money (snd (transfers_confirm (demo_gw Off) demo_gw_request demo_confirm_body []))"
  by code_simp

theorem confirm_only_after_checks_witness:
  "\<exists>before customerId. prefix before (snd (transfers_confirm (demo_gw Off) demo_gw_request demo_confirm_body []))
    \<and> asked (demo_gw Off) before RiskService ''/internal/v1/assessments/evaluate'' (risk_accepts (demo_gw Off) ''ses_1234'' customerId)"
proof -
  obtain c where c: "c \<in> set (snd (transfers_confirm (demo_gw Off) demo_gw_request demo_confirm_body []))" "moves_money c"
    using demo_confirm by (auto simp: list_ex_iff)
  from confirm_only_after_checks [OF c] obtain customerId sessionId before where
      "session_of_cookie (demo_gw Off) demo_gw_request = Inr sessionId"
      "prefix before (snd (transfers_confirm (demo_gw Off) demo_gw_request demo_confirm_body []))"
      "asked (demo_gw Off) before RiskService ''/internal/v1/assessments/evaluate'' (risk_accepts (demo_gw Off) sessionId customerId)" by blast
  with demo_session show ?thesis by auto
qed

theorem gateway_paths_admitted_witness:
  "calls_within admitted (transfers_confirm (demo_gw Strict) demo_gw_request demo_confirm_body)
    \<and> calls_within admitted_by_length (transfers_list (demo_gw Strict) demo_gw_request (JObj [(''cursor'', Some (JStr ''eyJ2IjoxfQ''))]))"
proof -
  have "is_id s" if "zd_uuid (ge_zod (demo_gw Strict)) s" for s using that by (simp add: demo_gw_def demo_zod_def is_id_def)
  moreover have "tame s" if "zd_datetime (ge_zod (demo_gw Strict)) s" for s using that by (simp add: demo_gw_def demo_zod_def)
  moreover have "issued_cursor (JObj [(''cursor'', Some (JStr ''eyJ2IjoxfQ''))])" by code_simp
  ultimately show ?thesis using gateway_paths_admitted by blast
qed

theorem channels_refused_in_strict_mode_witness:
  "calls_within layer_refuses (qrReceive (demo_gw Strict) demo_gw_request (Some (JObj [(''sourceAccountId'', Some (JStr demo_gw_customer))])))"
  using channels_refused_in_strict_mode [of "demo_gw Strict"] by (simp add: demo_gw_def)

end
