(* ===== verification/Gateway.thy ===== *)
theory Gateway
  imports GatewayCustomer
begin

text \<open>
  The remaining routes of the API gateway (\<open>apps/api-gateway/src\<close>): sign-up and sign-in (\<open>auth/auth.controller.ts\<close>),
  security operators (\<open>operators/operators.controller.ts\<close>), recovery (\<open>resilience/resilience.controller.ts\<close>), the status of
  the message layer (\<open>sabcl/sabcl-status.controller.ts\<close>) and readiness (\<open>health/health.controller.ts\<close>), and the table of all
  routes with the status a browser sees.  The properties hold of every route.
\<close>

section \<open>Sign-up and sign-in\<close>

text \<open>The answer of the identity service to a login is used in the form it is declared with.\<close>

definition internal_session_of :: "(json \<Rightarrow> string) \<Rightarrow> json option \<Rightarrow> internal_session" where
  "internal_session_of stringify created =
     \<lparr>is_sessionId = jstring created ''sessionId'', is_csrfToken = jstring created ''csrfToken'',
      is_maxAgeSeconds = (case jmember created ''maxAgeSeconds'' of Some (JInt i) \<Rightarrow> i | _ \<Rightarrow> 0),
      is_session = (case jmember created ''session'' of Some s \<Rightarrow> stringify s | None \<Rightarrow> [])\<rparr>"

type_synonym gw_page = "json option \<times> string list"

definition auth_authenticate :: "gw_env \<Rightarrow> gw_request \<Rightarrow> string \<Rightarrow> json option \<Rightarrow> gw_page gw" where
  "auth_authenticate env req endpoint body =
     gwThen (identity_request env req endpoint POST body [] None) (\<lambda>created.
       gwReturn (jmember created ''session'', setSessionCookies (ge_cfg env) (internal_session_of (ge_stringify env) created)))"

definition auth_forward :: "gw_env \<Rightarrow> gw_request \<Rightarrow> string \<Rightarrow> zschema \<Rightarrow> json option \<Rightarrow> json option gw" where
  "auth_forward env req endpoint schema body =
     gwThen (gw_parse schema body) (\<lambda>data. identity_request env req endpoint POST data [] None)"

definition requestOnboardingOtp :: "gw_env \<Rightarrow> gw_request \<Rightarrow> json option \<Rightarrow> json option gw" where
  "requestOnboardingOtp env req = auth_forward env req ''/api/v1/auth/onboarding/request-otp'' requestOtpSchema"

definition verifyOnboardingOtp :: "gw_env \<Rightarrow> gw_request \<Rightarrow> json option \<Rightarrow> json option gw" where
  "verifyOnboardingOtp env req = auth_forward env req ''/api/v1/auth/onboarding/verify-otp'' (verifyOtpSchema (ge_zod env))"

definition createPin_route :: "gw_env \<Rightarrow> gw_request \<Rightarrow> json option \<Rightarrow> gw_page gw" where
  "createPin_route env req body =
     gwThen (gw_parse createPinSchema body) (auth_authenticate env req ''/api/v1/auth/onboarding/create-pin'')"

definition requestFallbackOtp :: "gw_env \<Rightarrow> gw_request \<Rightarrow> json option \<Rightarrow> json option gw" where
  "requestFallbackOtp env req = auth_forward env req ''/api/v1/auth/fallback/request-otp'' pinFallbackRequestSchema"

definition fallbackLogin :: "gw_env \<Rightarrow> gw_request \<Rightarrow> json option \<Rightarrow> gw_page gw" where
  "fallbackLogin env req body =
     gwThen (gw_parse (pinFallbackLoginSchema (ge_zod env)) body) (auth_authenticate env req ''/api/v1/auth/fallback/login'')"

definition auth_session :: "gw_env \<Rightarrow> gw_request \<Rightarrow> json option gw" where
  "auth_session env req =
     gwThen (gwLift (session_of_cookie env req)) (\<lambda>sessionId. identity_request env req session_endpoint GET None sessionId None)"

definition revoked_body :: "json option" where
  "revoked_body = Some (JObj [(''revoked'', Some (JBool True))])"

text \<open>Once a session cookie was read, the cookies are cleared whatever happens; an answer 401 counts as revoked.\<close>

definition auth_logout :: "gw_env \<Rightarrow> gw_request \<Rightarrow> json option \<Rightarrow> gw_call list \<Rightarrow> ((gw_error, json option) res \<times> string list) \<times> gw_call list" where
  "auth_logout env req body log =
     (case gwThen (gw_parse logoutSchema body) (\<lambda>_. gwLift (session_of_cookie env req)) log of
        (Inl e, log1) \<Rightarrow> ((Inl e, []), log1)
      | (Inr sessionId, log1) \<Rightarrow>
          let cleared = clearSessionCookies (ge_cfg env) in
          if sessionId = [] then ((Inr revoked_body, cleared), log1)
          else (case gwThen (csrf_check env req) (\<lambda>csrfToken.
                  identity_request env req ''/api/v1/auth/logout'' POST (Some (JObj [])) sessionId (Some csrfToken)) log1 of
                  (Inl e, log2) \<Rightarrow>
                    (case e of HttpException s _ \<Rightarrow> if s = 401 then ((Inr revoked_body, cleared), log2) else ((Inl e, cleared), log2)
                     | OtherError \<Rightarrow> ((Inl e, cleared), log2))
                | (Inr _, log2) \<Rightarrow> ((Inr revoked_body, cleared), log2)))"

definition auth_registration :: "gw_env \<Rightarrow> gw_request \<Rightarrow> string \<Rightarrow> zschema \<Rightarrow> json option \<Rightarrow> json option gw" where
  "auth_registration env req endpoint schema body =
     gwThen (gw_parse schema body) (\<lambda>data.
     gwThen (gwLift (session_of_cookie env req)) (\<lambda>sessionId.
     gwThen (csrf_check env req) (\<lambda>csrfToken.
       identity_request env req endpoint POST data sessionId (Some csrfToken))))"

definition registrationOptions_route :: "gw_env \<Rightarrow> gw_request \<Rightarrow> json option \<Rightarrow> json option gw" where
  "registrationOptions_route env req = auth_registration env req ''/api/v1/auth/passkeys/registration/options'' passkeyOptionsSchema"

definition verifyRegistration_route :: "gw_env \<Rightarrow> gw_request \<Rightarrow> json option \<Rightarrow> json option gw" where
  "verifyRegistration_route env req =
     auth_registration env req ''/api/v1/auth/passkeys/registration/verify'' passkeyRegistrationVerificationSchema"

definition authenticationOptions_route :: "gw_env \<Rightarrow> gw_request \<Rightarrow> json option \<Rightarrow> json option gw" where
  "authenticationOptions_route env req = auth_forward env req ''/api/v1/auth/passkeys/authentication/options'' passkeyOptionsSchema"

definition verifyAuthentication_route :: "gw_env \<Rightarrow> gw_request \<Rightarrow> json option \<Rightarrow> gw_page gw" where
  "verifyAuthentication_route env req body =
     gwThen (gw_parse passkeyAuthenticationVerificationSchema body) (auth_authenticate env req ''/api/v1/auth/passkeys/authentication/verify'')"

section \<open>Security operators\<close>

text \<open>\<open>schema.parse\<close> raises an error that is no HTTP exception.\<close>

definition gw_must :: "zschema \<Rightarrow> json option \<Rightarrow> json option gw" where
  "gw_must schema body = parse_reply OtherError (document schema) body"

definition bootstrapResponse :: "zod_env \<Rightarrow> zschema" where
  "bootstrapResponse z =
     zobj PassKeys [zreq ''sessionToken'' (zstr Some), zreq ''csrfToken'' (zstr Some), zreq ''operatorId'' (zstr Some),
                    zreq ''role'' (zenum [''SECURITY_OPERATOR'']), zreq ''expiresAt'' (zdate z)]"

definition bootstrapRequest :: zschema where
  "bootstrapRequest = zstrict [zreq ''accessToken'' (zlen 16 256)]"

definition incidentUpdate :: zschema where
  "incidentUpdate =
     zstrict [zopt ''status'' (zenum [''OPEN'', ''INVESTIGATING'', ''CONTAINED'', ''RESOLVED'', ''FALSE_POSITIVE'']), zopt ''assignedTo'' (zlen 8 128),
              zopt ''note'' (ztrimmed 3 1000), zopt ''resolutionReason'' (ztrimmed 8 500)]"

definition operator_auth :: "gw_env \<Rightarrow> gw_request \<Rightarrow> bool \<Rightarrow> (string \<times> string option) gw" where
  "operator_auth env req mutation =
     gwThen (gwLift (readCookie (gr_cookie req) (gc_operatorSessionCookieName (ge_cfg env)))) (\<lambda>session.
       if mutation then gwThen (gwLift (requireCsrfToken (gr_cookie req) (gc_operatorCsrfCookieName (ge_cfg env)) (gr_csrf req))) (\<lambda>c. gwReturn (session, Some c))
       else gwReturn (session, None))"

definition operator_cookies :: "gateway_config \<Rightarrow> string \<Rightarrow> string \<Rightarrow> int \<Rightarrow> string list" where
  "operator_cookies cfg session csrf maxAge =
     (let secure = gc_nodeEnvironment cfg = ''production'' in
      [serializeCookie (gc_operatorSessionCookieName cfg) session True secure maxAge, serializeCookie (gc_operatorCsrfCookieName cfg) csrf False secure maxAge])"

text \<open>\<open>remaining\<close> gives the milliseconds from now to a date.\<close>

definition operators_signIn :: "gw_env \<Rightarrow> (string \<Rightarrow> int) \<Rightarrow> gw_request \<Rightarrow> json option \<Rightarrow> gw_page gw" where
  "operators_signIn env remaining req body =
     gwThen (gw_must bootstrapRequest body) (\<lambda>data.
     gwThen (risk_operator env req ''/bootstrap'' POST ([], None) data) (\<lambda>answer.
     gwThen (gw_must (bootstrapResponse (ge_zod env)) answer) (\<lambda>result.
       gwReturn (Some (JObj [(''operatorId'', jmember result ''operatorId''), (''role'', jmember result ''role''), (''expiresAt'', jmember result ''expiresAt'')]),
         operator_cookies (ge_cfg env) (jstring result ''sessionToken'') (jstring result ''csrfToken'') (max 0 (remaining (jstring result ''expiresAt'') div 1000))))))"

definition operators_session :: "gw_env \<Rightarrow> gw_request \<Rightarrow> json option gw" where
  "operators_session env req = gwThen (operator_auth env req False) (\<lambda>a. risk_operator env req ''/validate'' POST a None)"

definition operators_logout :: "gw_env \<Rightarrow> gw_request \<Rightarrow> gw_page gw" where
  "operators_logout env req =
     gwThen (operator_auth env req True) (\<lambda>a.
     gwThen (risk_operator env req ''/logout'' POST a None) (\<lambda>result.
       gwReturn (result, operator_cookies (ge_cfg env) [] [] 0)))"

definition operators_overview :: "gw_env \<Rightarrow> gw_request \<Rightarrow> json option gw" where
  "operators_overview env req = gwThen (operator_auth env req False) (\<lambda>a. risk_operator env req ''/overview'' GET a None)"

definition cursor_suffix :: "string option \<Rightarrow> string" where
  "cursor_suffix cursor = (case cursor of Some c \<Rightarrow> if c = [] then [] else ''?cursor='' @ encodeURIComponent c | None \<Rightarrow> [])"

text \<open>Events, assessments, controls and incidents are listed alike.\<close>

datatype operator_list = EventsList | AssessmentsList | ControlsList | IncidentsList

definition list_path :: "operator_list \<Rightarrow> string" where
  "list_path l = (case l of EventsList \<Rightarrow> ''/events'' | AssessmentsList \<Rightarrow> ''/assessments'' | ControlsList \<Rightarrow> ''/controls'' | IncidentsList \<Rightarrow> ''/incidents'')"

definition operators_list :: "gw_env \<Rightarrow> gw_request \<Rightarrow> operator_list \<Rightarrow> string option \<Rightarrow> json option gw" where
  "operators_list env req l cursor =
     gwThen (operator_auth env req False) (\<lambda>a. risk_operator env req (list_path l @ cursor_suffix cursor) GET a None)"

definition operators_incident :: "gw_env \<Rightarrow> gw_request \<Rightarrow> string \<Rightarrow> json option gw" where
  "operators_incident env req incidentId =
     gwThen (gw_must (zuuid (ge_zod env)) (Some (JStr incidentId))) (\<lambda>_.
     gwThen (operator_auth env req False) (\<lambda>a. risk_operator env req (''/incidents/'' @ incidentId) GET a None))"

definition operators_apply :: "gw_env \<Rightarrow> gw_request \<Rightarrow> json option \<Rightarrow> json option gw" where
  "operators_apply env req body =
     gwThen (operator_auth env req True) (\<lambda>a.
     gwThen (gw_must (applyControlJson (ge_zod env)) body) (\<lambda>data. risk_operator env req ''/controls'' POST a data))"

definition operators_release :: "gw_env \<Rightarrow> gw_request \<Rightarrow> string \<Rightarrow> json option \<Rightarrow> json option gw" where
  "operators_release env req controlId body =
     gwThen (gw_must (zuuid (ge_zod env)) (Some (JStr controlId))) (\<lambda>_.
     gwThen (operator_auth env req True) (\<lambda>a.
     gwThen (gw_must releaseControlRequestSchema body) (\<lambda>data. risk_operator env req (''/controls/'' @ controlId @ ''/release'') POST a data)))"

definition operators_updateIncident :: "gw_env \<Rightarrow> gw_request \<Rightarrow> string \<Rightarrow> json option \<Rightarrow> json option gw" where
  "operators_updateIncident env req incidentId body =
     gwThen (gw_must (zuuid (ge_zod env)) (Some (JStr incidentId))) (\<lambda>_.
     gwThen (operator_auth env req True) (\<lambda>a.
     gwThen (gw_must incidentUpdate body) (\<lambda>data. risk_operator env req (''/incidents/'' @ incidentId) POST a data)))"

section \<open>Recovery\<close>

definition historyQuerySchema :: zschema where
  "historyQuerySchema = zstrict [zopt ''cursor'' zopaque, zopt ''limit'' (zpage 50), zopt ''state'' (zenum recoveryDrillStates)]"

definition operatorIdentity :: zschema where
  "operatorIdentity = zobj PassKeys [zreq ''operatorId'' zopaque, zreq ''role'' (zenum [''SECURITY_OPERATOR''])]"

definition recovery_operator :: "gw_env \<Rightarrow> gw_request \<Rightarrow> bool \<Rightarrow> string gw" where
  "recovery_operator env req mutation =
     gwThen (operator_auth env req mutation) (\<lambda>a.
     gwThen (risk_operator env req ''/validate'' POST a None) (\<lambda>answer.
     gwThen (parse_reply (coded 403 ''OPERATOR_UNAUTHORIZED'' ''Security operator authentication is required.'') (document operatorIdentity) answer) (\<lambda>identity.
       gwReturn (jstring identity ''operatorId''))))"

definition recovery_readiness :: "gw_env \<Rightarrow> gw_request \<Rightarrow> json option gw" where
  "recovery_readiness env req =
     gwThen (recovery_operator env req False) (\<lambda>_. resilience_request env req (recoveryReadinessSchema (ge_zod env)) ''/internal/v1/readiness'' GET None)"

definition recovery_drills :: "gw_env \<Rightarrow> gw_request \<Rightarrow> json \<Rightarrow> json option gw" where
  "recovery_drills env req query =
     gwThen (recovery_operator env req False) (\<lambda>_.
     gwThen (gw_must historyQuerySchema (Some query)) (\<lambda>q.
       resilience_request env req (drillHistoryResponseSchema (ge_zod env)) (''/internal/v1/drills'' @ search_suffix q) GET None))"

definition recovery_drill :: "gw_env \<Rightarrow> gw_request \<Rightarrow> string \<Rightarrow> json option gw" where
  "recovery_drill env req drillId =
     gwThen (recovery_operator env req False) (\<lambda>_.
     gwThen (gw_must zopaque (Some (JStr drillId))) (\<lambda>_.
       resilience_request env req (recoveryDrillSchema (ge_zod env)) (''/internal/v1/drills/'' @ encodeURIComponent drillId) GET None))"

definition drillEventsSchema :: "zod_env \<Rightarrow> zschema" where
  "drillEventsSchema z = zstrict [zreq ''events'' (zarr 0 200 (drillAuditEventSchema z))]"

definition recovery_events :: "gw_env \<Rightarrow> gw_request \<Rightarrow> string \<Rightarrow> json option gw" where
  "recovery_events env req drillId =
     gwThen (recovery_operator env req False) (\<lambda>_.
     gwThen (gw_must zopaque (Some (JStr drillId))) (\<lambda>_.
       resilience_request env req (drillEventsSchema (ge_zod env)) (''/internal/v1/drills/'' @ encodeURIComponent drillId @ ''/events'') GET None))"

definition recovery_plan :: "gw_env \<Rightarrow> gw_request \<Rightarrow> json option \<Rightarrow> json option gw" where
  "recovery_plan env req body =
     gwThen (recovery_operator env req True) (\<lambda>operatorId.
     gwThen (gw_must recordPlannedDrillRequestSchema body) (\<lambda>data.
       resilience_request env req (recoveryDrillSchema (ge_zod env)) (''/internal/v1/drills?requestedBy='' @ encodeURIComponent operatorId) POST data))"

definition recovery_acknowledge :: "gw_env \<Rightarrow> gw_request \<Rightarrow> string \<Rightarrow> json option \<Rightarrow> json option gw" where
  "recovery_acknowledge env req drillId body =
     gwThen (recovery_operator env req True) (\<lambda>operatorId.
     gwThen (gw_must zopaque (Some (JStr drillId))) (\<lambda>_.
     gwThen (gw_must operatorAcknowledgementRequestSchema body) (\<lambda>data.
       resilience_request env req (recoveryDrillSchema (ge_zod env))
         (''/internal/v1/drills/'' @ encodeURIComponent drillId @ ''/acknowledge?operatorId='' @ encodeURIComponent operatorId) POST
         (Some (JObj [(''reason'', jmember data ''reason'')])))))"

section \<open>Health and status\<close>

definition getHealth :: "gw_env \<Rightarrow> json" where
  "getHealth env =
     JObj [(''status'', Some (JStr ''ok'')), (''service'', Some (JStr ''api-gateway'')), (''version'', Some (JStr ''0.1.0'')),
           (''timestamp'', Some (JStr (ge_nowIso env))), (''environment'', Some (JStr (gc_nodeEnvironment (ge_cfg env))))]"

text \<open>The three services are probed together, and the first that is not ready decides the answer.\<close>

definition health_ready :: "gw_env \<Rightarrow> json option gw" where
  "health_ready env =
     gwThen (identity_ready env) (\<lambda>identityReady.
     gwThen (ledger_ready env) (\<lambda>ledgerReady.
     gwThen (payments_ready env) (\<lambda>paymentsReady.
       if \<not> identityReady then gwFail (bare 503 ''IDENTITY_UNAVAILABLE'')
       else if \<not> ledgerReady then gwFail LEDGER_UNAVAILABLE
       else if \<not> paymentsReady then gwFail PAYMENTS_UNAVAILABLE
       else gwReturn (Some (JObj [(''status'', Some (JStr ''ready'')),
         (''dependencies'', Some (JObj [(''identity'', Some (JStr ''up'')), (''ledger'', Some (JStr ''up'')), (''payments'', Some (JStr ''up''))]))])))))"

definition mode_text :: "sabcl_mode \<Rightarrow> string" where
  "mode_text mode = (case mode of Strict \<Rightarrow> ''strict'' | Compatible \<Rightarrow> ''compatible'' | Off \<Rightarrow> ''off'')"

definition transport_status :: "gw_env \<Rightarrow> (string \<times> json option) list" where
  "transport_status env =
     [(''mode'', Some (JStr (mode_text (ge_mode env)))), (''strict'', Some (JBool (ge_mode env = Strict))),
      (''gatewayKey'', Some (if ge_mode env = Off then JNull else JStr (ge_ownKey env))),
      (''peerKeyIds'', Some (JArr (if ge_mode env = Off then [] else map JStr (ge_peerKeyIds env))))]"

definition sabcl_status :: "gw_env \<Rightarrow> json option gw" where
  "sabcl_status env =
     gwThen (transport_routerReady env) (\<lambda>routerReachable.
     gwThen (if routerReachable then fetchRouterStatus env else gwReturn None) (\<lambda>router.
       gw_must sabclStatusResponseSchema (Some (JObj ((''protocolVersion'', Some (JStr ''SABCL/1'')) # transport_status env
         @ [(''routerReachable'', Some (JBool routerReachable)), (''router'', Some (case router of None \<Rightarrow> JNull | Some r \<Rightarrow> r))])))))"

section \<open>The routes\<close>

text \<open>A request as the framework routes it: its handler with the parameters, the query and the body.\<close>

datatype gw_route =
    AccountsList | AccountsProvision "json option" | AccountsDetail string | AccountsBalance string | AccountsTransactions string json | AccountsTransaction string string
  | TransfersPolicy | TransfersPreview "json option" | TransfersConfirm "json option" | TransfersList json | TransfersDetail string
  | QrReceive "json option" | QrDynamic "json option" | QrPreview "json option" | QrConfirm "json option"
  | AgentCashIn "json option" | AgentCashOut "json option" | AgentConfirm "json option" | UssdSimulate "json option" | UssdWebhook "json option"
  | AuthRequestOtp "json option" | AuthVerifyOtp "json option" | AuthCreatePin "json option" | AuthFallbackOtp "json option" | AuthFallbackLogin "json option"
  | AuthSession | AuthLogout "json option" | AuthRegistrationOptions "json option" | AuthVerifyRegistration "json option" | AuthAuthenticationOptions "json option"
  | AuthVerifyAuthentication "json option"
  | OperatorSignIn "json option" | OperatorSession | OperatorLogout | OperatorOverview | OperatorList operator_list "string option" | OperatorIncident string
  | OperatorApply "json option" | OperatorRelease string "json option" | OperatorUpdateIncident string "json option"
  | RecoveryReadiness | RecoveryDrills json | RecoveryDrill string | RecoveryEvents string | RecoveryPlan "json option" | RecoveryAcknowledge string "json option"
  | Health | HealthReady | SabclStatus

definition page :: "int \<Rightarrow> json option gw \<Rightarrow> (int \<times> gw_page) gw" where
  "page status m = gwThen m (\<lambda>b. gwReturn (status, b, []))"

definition settled_page :: "(int \<times> json option) gw \<Rightarrow> (int \<times> gw_page) gw" where
  "settled_page m = gwThen m (\<lambda>(s, b). gwReturn (s, b, []))"

definition cookie_page :: "int \<Rightarrow> gw_page gw \<Rightarrow> (int \<times> gw_page) gw" where
  "cookie_page status m = gwThen m (\<lambda>p. gwReturn (status, p))"

definition gw_routes :: "gw_env \<Rightarrow> (string \<Rightarrow> int) \<Rightarrow> gw_request \<Rightarrow> gw_route \<Rightarrow> (int \<times> gw_page) gw" where
  "gw_routes env remaining req route =
     (case route of
        AccountsList \<Rightarrow> page 200 (accounts_list env req)
      | AccountsProvision b \<Rightarrow> page 201 (accounts_provisionDefault env req b)
      | AccountsDetail a \<Rightarrow> page 200 (accounts_detail env req a)
      | AccountsBalance a \<Rightarrow> page 200 (accounts_balance env req a)
      | AccountsTransactions a q \<Rightarrow> page 200 (accounts_transactions env req a q)
      | AccountsTransaction a t \<Rightarrow> page 200 (accounts_transaction env req a t)
      | TransfersPolicy \<Rightarrow> page 200 (transfers_policy env req)
      | TransfersPreview b \<Rightarrow> page 201 (transfers_preview env req b)
      | TransfersConfirm b \<Rightarrow> settled_page (transfers_confirm env req b)
      | TransfersList q \<Rightarrow> page 200 (transfers_list env req q)
      | TransfersDetail t \<Rightarrow> page 200 (transfers_detail env req t)
      | QrReceive b \<Rightarrow> page 201 (qrReceive env req b)
      | QrDynamic b \<Rightarrow> page 201 (qrDynamic env req b)
      | QrPreview b \<Rightarrow> page 201 (qrPreview env req b)
      | QrConfirm b \<Rightarrow> settled_page (qrConfirm env req b)
      | AgentCashIn b \<Rightarrow> page 201 (agentCashInPreview env req b)
      | AgentCashOut b \<Rightarrow> page 201 (agentCashOutPreview env req b)
      | AgentConfirm b \<Rightarrow> settled_page (agentCashConfirm env req b)
      | UssdSimulate b \<Rightarrow> page 200 (ussdSimulate env req b)
      | UssdWebhook b \<Rightarrow> page 200 (ussdWebhook env req b)
      | AuthRequestOtp b \<Rightarrow> page 202 (requestOnboardingOtp env req b)
      | AuthVerifyOtp b \<Rightarrow> page 201 (verifyOnboardingOtp env req b)
      | AuthCreatePin b \<Rightarrow> cookie_page 201 (createPin_route env req b)
      | AuthFallbackOtp b \<Rightarrow> page 202 (requestFallbackOtp env req b)
      | AuthFallbackLogin b \<Rightarrow> cookie_page 201 (fallbackLogin env req b)
      | AuthSession \<Rightarrow> page 200 (auth_session env req)
      | AuthLogout b \<Rightarrow> (\<lambda>log. case auth_logout env req b log of ((Inl e, _), log') \<Rightarrow> (Inl e, log') | ((Inr r, cs), log') \<Rightarrow> (Inr (200, r, cs), log'))
      | AuthRegistrationOptions b \<Rightarrow> page 201 (registrationOptions_route env req b)
      | AuthVerifyRegistration b \<Rightarrow> page 201 (verifyRegistration_route env req b)
      | AuthAuthenticationOptions b \<Rightarrow> page 201 (authenticationOptions_route env req b)
      | AuthVerifyAuthentication b \<Rightarrow> cookie_page 201 (verifyAuthentication_route env req b)
      | OperatorSignIn b \<Rightarrow> cookie_page 201 (operators_signIn env remaining req b)
      | OperatorSession \<Rightarrow> page 200 (operators_session env req)
      | OperatorLogout \<Rightarrow> cookie_page 201 (operators_logout env req)
      | OperatorOverview \<Rightarrow> page 200 (operators_overview env req)
      | OperatorList l c \<Rightarrow> page 200 (operators_list env req l c)
      | OperatorIncident i \<Rightarrow> page 200 (operators_incident env req i)
      | OperatorApply b \<Rightarrow> page 201 (operators_apply env req b)
      | OperatorRelease i b \<Rightarrow> page 201 (operators_release env req i b)
      | OperatorUpdateIncident i b \<Rightarrow> page 201 (operators_updateIncident env req i b)
      | RecoveryReadiness \<Rightarrow> page 200 (recovery_readiness env req)
      | RecoveryDrills q \<Rightarrow> page 200 (recovery_drills env req q)
      | RecoveryDrill d \<Rightarrow> page 200 (recovery_drill env req d)
      | RecoveryEvents d \<Rightarrow> page 200 (recovery_events env req d)
      | RecoveryPlan b \<Rightarrow> page 201 (recovery_plan env req b)
      | RecoveryAcknowledge d b \<Rightarrow> page 201 (recovery_acknowledge env req d b)
      | Health \<Rightarrow> page 200 (gwReturn (Some (getHealth env)))
      | HealthReady \<Rightarrow> page 200 (health_ready env)
      | SabclStatus \<Rightarrow> page 200 (sabcl_status env))"

text \<open>The cookies a failed route leaves on the response: only a logout sets them before it fails.\<close>

record gw_answer =
  ga_status :: int
  ga_body :: "(string \<times> string) + json option"
  ga_cookies :: "string list"

definition left_cookies :: "gw_env \<Rightarrow> gw_request \<Rightarrow> gw_route \<Rightarrow> gw_call list \<Rightarrow> string list" where
  "left_cookies env req route log = (case route of AuthLogout b \<Rightarrow> snd (fst (auth_logout env req b log)) | _ \<Rightarrow> [])"

definition gateway_handle :: "gw_env \<Rightarrow> (string \<Rightarrow> int) \<Rightarrow> gw_request \<Rightarrow> gw_route \<Rightarrow> gw_call list \<Rightarrow> gw_answer \<times> gw_call list" where
  "gateway_handle env remaining req route log =
     (case gw_routes env remaining req route log of
        (Inl e, log') \<Rightarrow>
          (case gateway_exception_filter e of (status, code, message) \<Rightarrow>
             (\<lparr>ga_status = status, ga_body = Inl (code, message), ga_cookies = left_cookies env req route log\<rparr>, log'))
      | (Inr (status, b, cookies), log') \<Rightarrow> (\<lparr>ga_status = status, ga_body = Inr b, ga_cookies = cookies\<rparr>, log'))"

section \<open>Every route\<close>

lemma calls_within_pages [call_rules]:
  "calls_within P m \<Longrightarrow> calls_within P (page status m)" "calls_within P n \<Longrightarrow> calls_within P (cookie_page status n)"
  "calls_within P s \<Longrightarrow> calls_within P (settled_page s)" "calls_within P (gw_must schema body)"
  unfolding page_def cookie_page_def settled_page_def gw_must_def by (intro call_rules; (simp add: split_beta)?; intro call_rules)+

lemma calls_within_operator [call_rules]:
  assumes "\<And>h. hc_service h = RiskService \<Longrightarrow> P (Fetch h)"
  shows "calls_within P (operator_auth env req mutation)" "calls_within P (recovery_operator env req mutation)"
  unfolding recovery_operator_def operator_auth_def by (intro call_rules assms; assumption)+

lemma calls_within_auth [call_rules]:
  assumes "\<And>h. hc_service h = IdentityService \<Longrightarrow> P (Fetch h)"
  shows "calls_within P (auth_forward env req endpoint schema body)" "calls_within P (auth_authenticate env req endpoint body)"
    "calls_within P (auth_registration env req endpoint schema body)" "calls_within P (auth_session env req)"
  unfolding auth_forward_def auth_authenticate_def auth_registration_def auth_session_def by (intro call_rules; simp add: assms)+

lemma logout_calls:
  assumes "\<And>h. hc_service h = IdentityService \<Longrightarrow> P (Fetch h)"
  shows "\<exists>cs. snd (auth_logout env req body log) = log @ cs \<and> list_all P cs"
proof -
  let ?read = "gwThen (gw_parse logoutSchema body) (\<lambda>_. gwLift (session_of_cookie env req))"
  let ?revoke = "\<lambda>sessionId. gwThen (csrf_check env req) (\<lambda>csrfToken.
                  identity_request env req ''/api/v1/auth/logout'' POST (Some (JObj [])) sessionId (Some csrfToken))"
  have "calls_within P ?read" by (intro call_rules)
  then obtain cs where cs: "snd (?read log) = log @ cs" "list_all P cs" unfolding calls_within_def by blast
  have "calls_within P (?revoke s)" for s by (intro call_rules) (simp add: assms)
  then have "\<exists>ds. snd (?revoke s log1) = log1 @ ds \<and> list_all P ds" for s log1 unfolding calls_within_def by blast
  then obtain ds where ds: "snd (?revoke s log1) = log1 @ ds s log1" "list_all P (ds s log1)" for s log1 by metis
  show ?thesis
  proof (cases "?read log")
    case (Pair r log1)
    show ?thesis
    proof (cases r)
      case (Inl e)
      then show ?thesis using cs Pair by (simp add: auth_logout_def)
    next
      case (Inr sessionId)
      have l: "log1 = log @ cs" using cs(1) Pair by simp
      show ?thesis
      proof (cases "sessionId = []")
        case False
        have "snd (auth_logout env req body log) = snd (?revoke sessionId log1)"
          using Pair Inr False by (auto simp: auth_logout_def Let_def split: prod.splits sum.splits gw_error.splits)
        with ds [of sessionId log1] l cs(2) show ?thesis by simp
      qed (use Pair Inr cs in \<open>simp add: auth_logout_def Let_def\<close>)
    qed
  qed
qed

text \<open>Calls to identity, risk and recovery are always direct; calls to the ledger and payments are direct unless the mode is
  strict, and over the layer when it is configured; the router is asked for its status only then.\<close>

definition layered :: "gw_env \<Rightarrow> (gw_call \<Rightarrow> bool) \<Rightarrow> bool" where
  "layered env P = ((\<forall>h. hc_service h \<in> {IdentityService, RiskService, ResilienceService} \<longrightarrow> P (Fetch h))
     \<and> (ge_mode env \<noteq> Strict \<longrightarrow> (\<forall>h. hc_service h \<noteq> RouterService \<longrightarrow> P (Fetch h)))
     \<and> (ge_mode env \<noteq> Off \<longrightarrow> (\<forall>h. hc_service h = RouterService \<longrightarrow> P (Fetch h)) \<and> (\<forall>cap r. P (ViaSabcl cap r))))"

lemma layered_rules:
  assumes "layered env P"
  shows "hc_service h = IdentityService \<or> hc_service h = RiskService \<or> hc_service h = ResilienceService \<Longrightarrow> P (Fetch h)"
    "hc_service h \<in> {IdentityService, RiskService} \<Longrightarrow> P (Fetch h)"
    "calls_within P (ledger_request env req schema path m body c)" "calls_within P (payments_request env req schema path m body c)"
proof -
  show "hc_service h = IdentityService \<or> hc_service h = RiskService \<or> hc_service h = ResilienceService \<Longrightarrow> P (Fetch h)"
    "hc_service h \<in> {IdentityService, RiskService} \<Longrightarrow> P (Fetch h)" using assms by (auto simp: layered_def)
  show "calls_within P (ledger_request env req schema path m body c)" "calls_within P (payments_request env req schema path m body c)"
    using assms by (auto simp: layered_def service_call_def intro: ledger_client.within payments_client.within)
qed

lemma account_routes_within:
  assumes "layered env P"
  shows "calls_within P (accounts_list env req)" "calls_within P (accounts_provisionDefault env req body)" "calls_within P (accounts_detail env req a)"
    "calls_within P (accounts_balance env req a)" "calls_within P (accounts_transactions env req a q)" "calls_within P (accounts_transaction env req a t)"
  unfolding accounts_list_def accounts_provisionDefault_def accounts_detail_def accounts_balance_def accounts_transactions_def accounts_transaction_def
  by (intro call_rules layered_rules(2-4) [OF assms]; assumption)+

lemma transfer_routes_within:
  assumes "layered env P"
  shows "calls_within P (transfers_policy env req)" "calls_within P (transfers_preview env req body)" "calls_within P (transfers_confirm env req body)"
    "calls_within P (transfers_list env req q)" "calls_within P (transfers_detail env req t)"
  unfolding transfers_policy_def transfers_preview_def transfers_confirm_def confirm_checked_def confirm_settled_def transfers_list_def transfers_detail_def split_beta
  by (intro call_rules layered_rules(2-4) [OF assms]; simp)+

lemma channel_routes_within:
  assumes "layered env P"
  shows "calls_within P (qrReceive env req body)" "calls_within P (qrDynamic env req body)" "calls_within P (qrPreview env req body)" "calls_within P (qrConfirm env req body)"
    "calls_within P (agentCashInPreview env req body)" "calls_within P (agentCashOutPreview env req body)" "calls_within P (agentCashConfirm env req body)"
    "calls_within P (ussdSimulate env req body)" "calls_within P (ussdWebhook env req body)"
  unfolding qrReceive_def qrDynamic_def qrPreview_def qrConfirm_def agentCashInPreview_def agentCashOutPreview_def agentCashConfirm_def ussdSimulate_def ussdWebhook_def
      qr_issue_def gw_agent_preview_def channel_confirm_def
  by (intro call_rules layered_rules(2-4) [OF assms]; assumption)+

lemma auth_routes_within:
  assumes "layered env P"
  shows "calls_within P (requestOnboardingOtp env req body)" "calls_within P (verifyOnboardingOtp env req body)" "calls_within P (createPin_route env req body)"
    "calls_within P (requestFallbackOtp env req body)" "calls_within P (fallbackLogin env req body)" "calls_within P (auth_session env req)"
    "calls_within P (registrationOptions_route env req body)" "calls_within P (verifyRegistration_route env req body)"
    "calls_within P (authenticationOptions_route env req body)" "calls_within P (verifyAuthentication_route env req body)"
  unfolding requestOnboardingOtp_def verifyOnboardingOtp_def createPin_route_def requestFallbackOtp_def fallbackLogin_def registrationOptions_route_def
    verifyRegistration_route_def authenticationOptions_route_def verifyAuthentication_route_def
  by (intro call_rules layered_rules(1) [OF assms]; simp)+

lemma operator_routes_within:
  assumes "layered env P"
  shows "calls_within P (operators_signIn env remaining req body)" "calls_within P (operators_session env req)" "calls_within P (operators_logout env req)"
    "calls_within P (operators_overview env req)" "calls_within P (operators_list env req l cursor)" "calls_within P (operators_incident env req i)"
    "calls_within P (operators_apply env req body)" "calls_within P (operators_release env req i body)" "calls_within P (operators_updateIncident env req i body)"
  unfolding operators_signIn_def operators_session_def operators_logout_def operators_overview_def operators_list_def operators_incident_def operators_apply_def
    operators_release_def operators_updateIncident_def
  by (intro call_rules layered_rules(1) [OF assms]; simp)+

lemma recovery_routes_within:
  assumes "layered env P"
  shows "calls_within P (recovery_readiness env req)" "calls_within P (recovery_drills env req q)" "calls_within P (recovery_drill env req d)"
    "calls_within P (recovery_events env req d)" "calls_within P (recovery_plan env req body)" "calls_within P (recovery_acknowledge env req d body)"
  unfolding recovery_readiness_def recovery_drills_def recovery_drill_def recovery_events_def recovery_plan_def recovery_acknowledge_def
  by (intro call_rules layered_rules(1) [OF assms]; simp)+

lemma status_routes_within:
  assumes "layered env P"
  shows "calls_within P (gwReturn x)" "calls_within P (sabcl_status env)"
proof -
  have router: "P (Fetch h)" if "hc_service h = RouterService" "ge_mode env \<noteq> Off" for h using assms that by (auto simp: layered_def)
  show "calls_within P (sabcl_status env)"
  proof (cases "ge_mode env = Off")
    case True
    have "gwThen (gwReturn False) f = f False" for f :: "bool \<Rightarrow> json option gw" by (rule ext) (simp add: gwThen_def gwReturn_def)
    then show ?thesis unfolding sabcl_status_def transport_routerReady_def using True by (simp; intro call_rules)
  next
    case False
    then show ?thesis unfolding sabcl_status_def transport_routerReady_def fetchRouterStatus_def
      by (simp; intro call_rules; simp add: router ready_call_def)
  qed
qed (intro call_rules)

text \<open>Every route but the readiness check stays within what the mode allows.\<close>

lemma routes_within:
  assumes "layered env P" "route \<noteq> HealthReady"
  shows "calls_within P (gw_routes env remaining req route)"
proof (cases route)
  case (AuthLogout b)
  have s: "snd (gw_routes env remaining req route log) = snd (auth_logout env req b log)" for log
    by (simp add: gw_routes_def AuthLogout split: prod.splits sum.splits)
  show ?thesis unfolding calls_within_def s using logout_calls [of P env req b] layered_rules(1) [OF assms(1)] by blast
next
  case HealthReady
  with assms(2) show ?thesis by simp
qed (simp_all only: gw_routes_def gw_route.case,
     (intro calls_within_pages account_routes_within [OF assms(1)] transfer_routes_within [OF assms(1)] channel_routes_within [OF assms(1)]
        auth_routes_within [OF assms(1)] operator_routes_within [OF assms(1)] recovery_routes_within [OF assms(1)] status_routes_within [OF assms(1)])+)

definition calls_directly :: "gw_service list \<Rightarrow> gw_call \<Rightarrow> bool" where
  "calls_directly services c = (case c of Fetch h \<Rightarrow> hc_service h \<in> set services | ViaSabcl cap r \<Rightarrow> False)"

definition gateway_calls :: "gw_env \<Rightarrow> (string \<Rightarrow> int) \<Rightarrow> gw_request \<Rightarrow> gw_route \<Rightarrow> gw_call list" where
  "gateway_calls env remaining req route = snd (gateway_handle env remaining req route [])"

lemma gateway_calls_routes: "gateway_calls env remaining req route = snd (gw_routes env remaining req route [])"
  by (simp add: gateway_calls_def gateway_handle_def split: prod.splits sum.splits)

lemma page_calls: "snd (page s m log) = snd (m log)"
  by (simp add: page_def gwThen_def gwReturn_def split: prod.splits sum.splits)

lemma gateway_calls_within:
  assumes "layered env P" "route \<noteq> HealthReady"
  shows "list_all P (gateway_calls env remaining req route)"
proof -
  obtain cs where "snd (gw_routes env remaining req route []) = [] @ cs" "list_all P cs"
    using routes_within [OF assms] unfolding calls_within_def by blast
  then show ?thesis by (simp add: gateway_calls_routes)
qed

definition readiness_probes :: "gw_env \<Rightarrow> http_call list" where
  "readiness_probes env =
     [\<lparr>hc_service = IdentityService, hc_method = GET, hc_path = ''/health/ready'', hc_headers = [(''x-aegis-internal-token'', gc_identityInternalToken (ge_cfg env))], hc_body = None\<rparr>,
      \<lparr>hc_service = LedgerService, hc_method = GET, hc_path = ''/health/ready'', hc_headers = [(''x-aegis-internal-token'', gc_ledgerInternalToken (ge_cfg env))], hc_body = None\<rparr>,
      \<lparr>hc_service = PaymentsService, hc_method = GET, hc_path = ''/health/ready'', hc_headers = [(''x-aegis-internal-token'', gc_paymentsInternalToken (ge_cfg env))], hc_body = None\<rparr>]"

lemma readiness_calls: "gateway_calls env remaining req HealthReady = map Fetch (readiness_probes env)"
  by (simp add: gateway_calls_routes gw_routes_def page_calls health_ready_def identity_ready_def ledger_ready_def payments_ready_def probe_def ready_call_def
        readiness_probes_def gwThen_def gwSend_def gwReturn_def gwFail_def)

text \<open>C36: in strict mode only the readiness check calls the ledger and payments directly.  Whatever a browser sends to any other
  route and whatever the services and the message layer answer, failures of the layer included, every call to these two
  services goes over the layer.  The readiness check, in every mode, makes exactly three direct requests, which carry
  the token of the service and nothing of a customer.  When the layer is not configured nothing is sent over it and its
  router is not asked.\<close>

theorem strict_mode_calls_over_layer:
  "(ge_mode env = Strict \<longrightarrow> route \<noteq> HealthReady \<longrightarrow>
      list_all (\<lambda>c. \<not> calls_directly [LedgerService, PaymentsService] c) (gateway_calls env remaining req route))
    \<and> gateway_calls env remaining req HealthReady = map Fetch (readiness_probes env)
    \<and> (ge_mode env = Off \<longrightarrow> list_all (calls_directly [IdentityService, LedgerService, PaymentsService, RiskService, ResilienceService]) (gateway_calls env remaining req route))"
proof (intro conjI impI)
  assume "ge_mode env = Strict" "route \<noteq> HealthReady"
  then have "layered env (\<lambda>c. \<not> calls_directly [LedgerService, PaymentsService] c)" by (auto simp: layered_def calls_directly_def)
  then show "list_all (\<lambda>c. \<not> calls_directly [LedgerService, PaymentsService] c) (gateway_calls env remaining req route)"
    using \<open>route \<noteq> HealthReady\<close> by (rule gateway_calls_within)
next
  assume "ge_mode env = Off"
  then have l: "layered env (calls_directly [IdentityService, LedgerService, PaymentsService, RiskService, ResilienceService])"
    using gw_service.exhaust by (auto simp: layered_def calls_directly_def)
  show "list_all (calls_directly [IdentityService, LedgerService, PaymentsService, RiskService, ResilienceService]) (gateway_calls env remaining req route)"
    by (cases "route = HealthReady") (simp_all add: gateway_calls_within [OF l] readiness_calls readiness_probes_def calls_directly_def)
qed (rule readiness_calls)

theorem strict_mode_calls_over_layer_witness:
  "list_all (\<lambda>c. \<not> calls_directly [LedgerService, PaymentsService] c) (gateway_calls (demo_gw Strict) (\<lambda>_. 0) demo_gw_request (TransfersConfirm demo_confirm_body))"
  using strict_mode_calls_over_layer [of "demo_gw Strict" "TransfersConfirm demo_confirm_body" "\<lambda>_. 0" demo_gw_request] by (simp add: demo_gw_def)

section \<open>Recovery and logout\<close>

text \<open>The risk service confirmed the operator session of the cookie.\<close>

definition operator_confirmed :: "gw_env \<Rightarrow> gw_request \<Rightarrow> http_call \<Rightarrow> json option \<Rightarrow> bool" where
  "operator_confirmed env req h b =
     ((\<exists>session. readCookie (gr_cookie req) (gc_operatorSessionCookieName (ge_cfg env)) = Inr session
        \<and> map_of (hc_headers h) ''x-aegis-operator-session'' = Some session)
      \<and> (\<exists>d. document operatorIdentity b = Some d \<and> jstring d ''role'' = ''SECURITY_OPERATOR''))"

lemma operator_role:
  assumes "document operatorIdentity b = Some d"
  shows "jstring d ''role'' = ''SECURITY_OPERATOR''"
proof -
  obtain v w where w: "zobj PassKeys [zreq ''operatorId'' zopaque, zreq ''role'' (zenum [''SECURITY_OPERATOR''])] v = Some w" "d = Some w"
    using assms by (auto simp: document_def operatorIdentity_def split: option.splits)
  obtain x y where "zenum [''SECURITY_OPERATOR''] x = Some y" "jmember (Some w) ''role'' = Some y"
    using required_member [OF w(1), of "''role''" "zenum [''SECURITY_OPERATOR'']"] by auto
  then show ?thesis using w(2) by (auto simp: zenum_def zstr_def zif_def jstring_def jtext_def split: json.splits if_splits)
qed

lemma recovery_operator_Inr:
  assumes "recovery_operator env req mutation [] = (Inr operatorId, log)"
  shows "asked env log RiskService ''/internal/v1/operators/validate'' (operator_confirmed env req)"
proof -
  from assms obtain session csrf b d log1 log2 where r: "operator_auth env req mutation [] = (Inr (session, csrf), log1)"
      "risk_operator env req ''/validate'' POST (session, csrf) None log1 = (Inr b, log2)" "log2 = log" "document operatorIdentity b = Some d"
    by (auto simp: recovery_operator_def gwThen_Inr parse_reply_def gwReturn_def gwFail_def split: option.splits)
  have s: "readCookie (gr_cookie req) (gc_operatorSessionCookieName (ge_cfg env)) = Inr session"
    using r(1) by (auto simp: operator_auth_def gwThen_Inr gwLift_def gwReturn_def split: if_splits)
  obtain h status where h: "log = log1 @ [Fetch h]" "hc_service h = RiskService" "hc_path h = ''/internal/v1/operators/validate''"
      "map_of (hc_headers h) ''x-aegis-operator-session'' = Some session" "ge_fetch env log1 h = Some (status, b)" "status_ok status"
    using r(2,3) unfolding risk_operator_def gw_risk_request_def gw_defs by (auto simp: json_headers_def split: option.splits if_splits)
  have "operator_confirmed env req h b" using s h(4) r(4) operator_role by (auto simp: operator_confirmed_def)
  from asked_last [where Q = "operator_confirmed env req", OF h(5,6) this] h(1-3) show ?thesis by simp
qed

lemma resilience_shows:
  assumes "resilience_request env req schema path m body log = (Inr b, log1)" "names_within S schema"
  shows "\<exists>d. b = Some d \<and> member_names d \<subseteq> S"
  using assms by (auto simp: resilience_request_def gw_defs document_def names_within_def split: option.splits if_splits)

lemma drill_events_names: "names_within recovery_members (drillEventsSchema z)"
proof -
  have "''events'' \<in> recovery_members" by (simp add: recovery_members_def)
  then have "field_within recovery_members (zreq ''events'' (zarr 0 200 (drillAuditEventSchema z)))" by (intro name_rules recovery_names)
  then show ?thesis unfolding drillEventsSchema_def by (intro name_rules) simp
qed

definition recovery_route :: "gw_route \<Rightarrow> bool" where
  "recovery_route r =
     (case r of RecoveryReadiness \<Rightarrow> True | RecoveryDrills q \<Rightarrow> True | RecoveryDrill d \<Rightarrow> True | RecoveryEvents d \<Rightarrow> True | RecoveryPlan b \<Rightarrow> True
      | RecoveryAcknowledge d b \<Rightarrow> True | _ \<Rightarrow> False)"

lemma recovery_route_gated:
  assumes "recovery_route route"
  shows "\<exists>status mutation f. gw_routes env remaining req route = page status (gwThen (recovery_operator env req mutation) f) \<and> (\<forall>a. calls_within (\<lambda>_. True) (f a))"
proof -
  have form: "\<exists>status mutation f. page s (gwThen (recovery_operator env req m) g) = page status (gwThen (recovery_operator env req mutation) f)
      \<and> (\<forall>a. calls_within (\<lambda>_. True) (f a))" if "\<And>a. calls_within (\<lambda>_. True) (g a)" for s m g
    using that by blast
  have any: "calls_within (\<lambda>_. True) (resilience_request env req schema path m body)" "calls_within (\<lambda>_. True) (gw_must schema body)" for schema path m body
    by (intro call_rules; simp)+
  show ?thesis
  proof (cases route)
    case RecoveryReadiness
    then show ?thesis unfolding gw_routes_def RecoveryReadiness gw_route.case recovery_readiness_def by (intro form any)
  next
    case (RecoveryDrills q)
    then show ?thesis unfolding gw_routes_def RecoveryDrills gw_route.case recovery_drills_def by (intro form any calls_within_then)
  next
    case (RecoveryDrill d)
    then show ?thesis unfolding gw_routes_def RecoveryDrill gw_route.case recovery_drill_def by (intro form any calls_within_then)
  next
    case (RecoveryEvents d)
    then show ?thesis unfolding gw_routes_def RecoveryEvents gw_route.case recovery_events_def by (intro form any calls_within_then)
  next
    case (RecoveryPlan b)
    then show ?thesis unfolding gw_routes_def RecoveryPlan gw_route.case recovery_plan_def by (intro form any calls_within_then)
  next
    case (RecoveryAcknowledge d b)
    then show ?thesis unfolding gw_routes_def RecoveryAcknowledge gw_route.case recovery_acknowledge_def by (intro form any calls_within_then)
  qed (use assms in \<open>simp_all add: recovery_route_def\<close>)
qed

lemma recovery_route_shows:
  assumes "recovery_route route" "gw_routes env remaining req route log = (Inr (status, body, cookies), log1)"
  shows "\<exists>d. body = Some d \<and> member_names d \<subseteq> recovery_members"
  using assms
  by (cases route)
    (auto simp: recovery_route_def gw_routes_def page_def gwThen_Inr gwReturn_def recovery_readiness_def recovery_drills_def recovery_drill_def recovery_events_def
       recovery_plan_def recovery_acknowledge_def dest: resilience_shows [OF _ recovery_names(1)] resilience_shows [OF _ recovery_names(2)]
       resilience_shows [OF _ recovery_names(3)] resilience_shows [OF _ drill_events_names])

text \<open>C39: recovery is shown and changed only by confirmed security operators, and only declared members are shown.  A recovery
  route sends nothing to the resilience service before the risk service, asked with the session of the operator's
  cookie, confirmed a security operator; and whatever document the resilience service answers, the browser gets no
  member at any depth outside the published contract.\<close>

theorem recovery_only_for_operators:
  assumes "recovery_route route"
  shows "(list_ex (calls_directly [ResilienceService]) (gateway_calls env remaining req route)
      \<longrightarrow> (\<exists>before. prefix before (gateway_calls env remaining req route) \<and> list_all (\<lambda>c. \<not> calls_directly [ResilienceService] c) before
            \<and> asked env before RiskService ''/internal/v1/operators/validate'' (operator_confirmed env req)))
    \<and> (case ga_body (fst (gateway_handle env remaining req route [])) of
        Inl err \<Rightarrow> True | Inr b \<Rightarrow> (\<exists>d. b = Some d \<and> member_names d \<subseteq> recovery_members))"
proof (intro conjI impI)
  let ?Q = "calls_directly [ResilienceService]"
  assume "list_ex ?Q (gateway_calls env remaining req route)"
  then obtain c where c: "c \<in> set (snd (gw_routes env remaining req route []))" "?Q c" unfolding gateway_calls_routes by (auto simp: list_ex_iff)
  obtain s mutation f where route: "gw_routes env remaining req route = page s (gwThen (recovery_operator env req mutation) f)" "\<forall>a. calls_within (\<lambda>_. True) (f a)"
    using recovery_route_gated [OF assms] by blast
  have op: "calls_within (\<lambda>c. \<not> ?Q c) (recovery_operator env req mutation)" by (intro call_rules) (simp add: calls_directly_def)
  obtain operatorId log where r: "recovery_operator env req mutation [] = (Inr operatorId, log)"
      "gwThen (recovery_operator env req mutation) f [] = f operatorId log"
    using gwThen_reaches [OF op _ c(2), of f "[]"] c(1) unfolding route(1) page_calls by (metis empty_iff empty_set)
  obtain cs where cs: "log = [] @ cs" "list_all (\<lambda>c. \<not> ?Q c) cs" using op r(1) unfolding calls_within_def by (metis snd_conv)
  obtain ds where "snd (f operatorId log) = log @ ds" using route(2) unfolding calls_within_def by blast
  then have "prefix log (gateway_calls env remaining req route)" unfolding gateway_calls_routes route(1) page_calls r(2) by simp
  with cs recovery_operator_Inr [OF r(1)] show "\<exists>before. prefix before (gateway_calls env remaining req route) \<and> list_all (\<lambda>c. \<not> ?Q c) before
      \<and> asked env before RiskService ''/internal/v1/operators/validate'' (operator_confirmed env req)" by auto
next
  show "case ga_body (fst (gateway_handle env remaining req route [])) of Inl err \<Rightarrow> True | Inr b \<Rightarrow> (\<exists>d. b = Some d \<and> member_names d \<subseteq> recovery_members)"
    using recovery_route_shows [OF assms, of env remaining req "[]"]
    by (auto simp: gateway_handle_def split: prod.splits sum.splits)
qed

definition logout_call :: "gw_env \<Rightarrow> gw_request \<Rightarrow> string \<Rightarrow> string \<Rightarrow> http_call" where
  "logout_call env req sessionId token = identity_call env req ''/api/v1/auth/logout'' POST (Some (JObj [])) sessionId (Some token)"

lemma logout_revokes:
  assumes "gwThen (gw_parse logoutSchema body) (\<lambda>_. gwLift (session_of_cookie env req)) log = (Inr sessionId, log)" "sessionId \<noteq> []"
    and "requireCsrfToken (gr_cookie req) (gc_csrfCookieName (ge_cfg env)) (gr_csrf req) = Inr token"
  shows "auth_logout env req body log =
    (case ge_fetch env log (logout_call env req sessionId token) of
       None \<Rightarrow> ((Inl (HttpException 503 None), clearSessionCookies (ge_cfg env)), log @ [Fetch (logout_call env req sessionId token)])
     | Some (status, b) \<Rightarrow>
         ((if status_ok status \<or> status = 401 then Inr revoked_body else Inl (HttpException status (error_member b)), clearSessionCookies (ge_cfg env)),
          log @ [Fetch (logout_call env req sessionId token)]))"
proof -
  have "gwThen (csrf_check env req) (\<lambda>csrfToken. identity_request env req ''/api/v1/auth/logout'' POST (Some (JObj [])) sessionId (Some csrfToken)) log
      = identity_request env req ''/api/v1/auth/logout'' POST (Some (JObj [])) sessionId (Some token) log"
    by (simp add: gwThen_def csrf_check_def gwLift_def assms(3))
  then show ?thesis using assms(1,2)
    by (auto simp: auth_logout_def Let_def identity_request_def gw_defs logout_call_def split: option.splits prod.splits if_splits)
qed

text \<open>C40: a logout always removes the session from the browser.  When the request is well formed and its cookies can be read, the
  answer clears both cookies, whether the identity service revoked the session, refused the token, failed or did not
  answer; and a session that identity no longer knows counts as revoked.\<close>

theorem logout_always_clears:
  assumes "document logoutSchema body = Some d" "session_of_cookie env req = Inr sessionId"
  shows "ga_cookies (fst (gateway_handle env remaining req (AuthLogout body) log)) = clearSessionCookies (ge_cfg env)
    \<and> (sessionId = [] \<longrightarrow> snd (gateway_handle env remaining req (AuthLogout body) log) = log)
    \<and> (sessionId \<noteq> [] \<longrightarrow> requireCsrfToken (gr_cookie req) (gc_csrfCookieName (ge_cfg env)) (gr_csrf req) = Inr token \<longrightarrow>
        (let h = identity_call env req ''/api/v1/auth/logout'' POST (Some (JObj [])) sessionId (Some token) in
          snd (gateway_handle env remaining req (AuthLogout body) log) = log @ [Fetch h]
          \<and> (ga_status (fst (gateway_handle env remaining req (AuthLogout body) log)) = 200 \<longleftrightarrow>
              (\<exists>status b. ge_fetch env log h = Some (status, b) \<and> (status_ok status \<or> status = 401)))))"
proof -
  have read: "gwThen (gw_parse logoutSchema body) (\<lambda>_. gwLift (session_of_cookie env req)) log = (Inr sessionId, log)"
    using assms by (simp add: gw_parse_def gw_defs)
  have cookies: "ga_cookies (fst (gateway_handle env remaining req (AuthLogout body) log)) = clearSessionCookies (ge_cfg env)"
    by (simp add: gateway_handle_def gw_routes_def left_cookies_def auth_logout_def read Let_def split: prod.splits sum.splits gw_error.splits)
  have none: "sessionId = [] \<longrightarrow> snd (gateway_handle env remaining req (AuthLogout body) log) = log"
    by (simp add: gateway_handle_def gw_routes_def auth_logout_def read)
  have "sessionId \<noteq> [] \<Longrightarrow> requireCsrfToken (gr_cookie req) (gc_csrfCookieName (ge_cfg env)) (gr_csrf req) = Inr token \<Longrightarrow>
      snd (gateway_handle env remaining req (AuthLogout body) log) = log @ [Fetch (logout_call env req sessionId token)]
      \<and> (ga_status (fst (gateway_handle env remaining req (AuthLogout body) log)) = 200 \<longleftrightarrow>
          (\<exists>status b. ge_fetch env log (logout_call env req sessionId token) = Some (status, b) \<and> (status_ok status \<or> status = 401)))"
    using logout_revokes [OF read] unfolding gateway_handle_def gw_routes_def gw_route.case
    by (cases "ge_fetch env log (logout_call env req sessionId token)") (auto simp: gateway_exception_filter_def Let_def status_ok_def split: if_splits)
  with cookies none show ?thesis by (simp add: logout_call_def Let_def)
qed

definition demo_operator_env :: gw_env where
  "demo_operator_env = (demo_gw Strict)\<lparr>ge_fetch := (\<lambda>_ h.
     if hc_service h = RiskService then Some (201, Some (JObj [(''operatorId'', Some (JStr ''operator-1'')), (''role'', Some (JStr ''SECURITY_OPERATOR''))]))
     else Some (200, Some (JObj [(''events'', Some (JArr []))])))\<rparr>"

definition demo_gw_operator_request :: gw_request where
  "demo_gw_operator_request = demo_gw_request\<lparr>gr_cookie := Some ''o=ops''\<rparr>"

lemma demo_operator_cookie: "readCookie (gr_cookie demo_gw_operator_request) (gc_operatorSessionCookieName (ge_cfg demo_operator_env)) = Inr ''ops''"
  by (simp add: readCookie_def demo_gw_def demo_operator_env_def demo_gw_operator_request_def demo_gw_request_def decodeURIComponent_def js_trim_def byte_in_def is_js_space_def)

lemma demo_operator_fetch:
  "ge_fetch demo_operator_env log h =
     (if hc_service h = RiskService then Some (201, Some (JObj [(''operatorId'', Some (JStr ''operator-1'')), (''role'', Some (JStr ''SECURITY_OPERATOR''))]))
      else Some (200, Some (JObj [(''events'', Some (JArr []))])))"
  by (simp add: demo_operator_env_def)

lemma resilience_calls:
  "snd (resilience_request env req schema path m body log) = log @ [Fetch
     \<lparr>hc_service = ResilienceService, hc_method = m, hc_path = path,
      hc_headers = json_headers ''x-aegis-source-token'' (gc_resilienceGatewaySourceToken (ge_cfg env)) (gr_correlationId req), hc_body = post_body m body\<rparr>]"
  by (simp add: resilience_request_def gw_defs split: option.splits)

lemma demo_recovery_asked: "list_ex (calls_directly [ResilienceService]) (gateway_calls demo_operator_env (\<lambda>_. 0) demo_gw_operator_request RecoveryReadiness)"
proof -
  have "document operatorIdentity (Some (JObj [(''operatorId'', Some (JStr ''operator-1'')), (''role'', Some (JStr ''SECURITY_OPERATOR''))])) \<noteq> None" by code_simp
  then obtain d where d: "document operatorIdentity (Some (JObj [(''operatorId'', Some (JStr ''operator-1'')), (''role'', Some (JStr ''SECURITY_OPERATOR''))])) = Some d" by blast
  have "\<exists>log. recovery_operator demo_operator_env demo_gw_operator_request False [] = (Inr (jstring d ''operatorId''), log)"
    by (simp add: recovery_operator_def operator_auth_def gw_defs demo_operator_cookie risk_operator_def gw_risk_request_def demo_operator_fetch status_ok_def d)
  then obtain log where o: "recovery_operator demo_operator_env demo_gw_operator_request False [] = (Inr (jstring d ''operatorId''), log)" by blast
  show ?thesis
    by (simp add: gateway_calls_routes gw_routes_def page_calls recovery_readiness_def gwThen_def o resilience_calls calls_directly_def)
qed

theorem recovery_only_for_operators_witness:
  "\<exists>before. prefix before (gateway_calls demo_operator_env (\<lambda>_. 0) demo_gw_operator_request RecoveryReadiness)
     \<and> asked demo_operator_env before RiskService ''/internal/v1/operators/validate'' (operator_confirmed demo_operator_env demo_gw_operator_request)"
  using recovery_only_for_operators [of RecoveryReadiness demo_operator_env "\<lambda>_. 0" demo_gw_operator_request] demo_recovery_asked
  by (auto simp: recovery_route_def)

theorem logout_always_clears_witness:
  "ga_cookies (fst (gateway_handle (demo_gw Off) (\<lambda>_. 0) demo_gw_request (AuthLogout (Some (JObj []))) [])) = clearSessionCookies (ge_cfg (demo_gw Off))"
proof -
  have "document logoutSchema (Some (JObj [])) = Some (Some (JObj []))" by (simp add: document_def logoutSchema_def zobj_def)
  from logout_always_clears [OF this demo_session, of "\<lambda>_. 0" "[]" "''tok''"] show ?thesis by simp
qed

end
