(* ===== verification/Spec2Isabelle.thy ===== *)
theory Spec2Isabelle
  imports LedgerReconciliation Transactions PaymentsReconciliation Ussd RiskOperators IdentityPasskeys Gateway
begin

text \<open>
  AEGIS Shield, a digital wallet built from small services: this library models the code
  that moves and guards money and proves it correct.

  \<^bold>\<open>The program.\<close> A browser talks to the API gateway (\<open>src/apps/api-gateway\<close>), which forwards to NestJS services.
  The \<^emph>\<open>ledger\<close> (\<open>src/services/ledger\<close>) keeps accounts, double-entry journals and balance projections
  in PostgreSQL. The \<^emph>\<open>payments\<close> service (\<open>src/services/payments\<close>) runs transfers, QR, agent and USSD payments and
  settles them by calling the ledger over HTTP. The \<^emph>\<open>risk\<close> service (\<open>src/services/risk\<close>) takes in security events,
  answers control checks and assessments and serves security operators; \<^emph>\<open>identity\<close> (\<open>src/services/identity\<close>)
  authenticates customers; \<^emph>\<open>resilience\<close> (\<open>src/services/resilience\<close>) records recovery drills. Between gateway and services lies
  SABCL, a layer of sealed messages through a blind router (\<open>src/packages/sabcl\<close>, \<open>src/services/sabcl-router\<close>). The shared
  contracts (\<open>src/packages/contracts\<close>) are zod schemas that both ends of a call apply.

  \<^bold>\<open>How code becomes definitions.\<close> An operation is a function from the state it reads to a result: a
  record such as \<open>ledger_db\<close>, \<open>payments_db\<close>, the risk tables or the identity store goes in and the changed one comes out. Tables are
  lists of rows in insertion order; the unique indexes and checks of the schema are part of the insert
  functions. Every throw is a value of an error datatype on the left of \<open>('e, 'a) res\<close>. A Prisma transaction is
  all or nothing, so an error returns no new tables; where the code writes in several transactions the
  definition returns the tables beside the outcome. BigInt is \<open>int\<close>, with the 24-digit contract
  and the 64-bit columns written out; a JavaScript number that can leave the integers is the double it denotes (\<open>JsNumber\<close>).
  Redis is a list of entries with their expiry and is always reachable. The gateway is a log of the
  calls it makes; what a service answers may depend on the whole log.

  \<^bold>\<open>Concurrency.\<close> The executor of idempotent operations takes the database its first lookup saw and the one its transaction
  runs on as two arguments. The query that locks accounts (\<open>select_for_update\<close>) returns its rows in the order it locks
  them. The payments service is a step relation (\<open>pay_step\<close>) whose steps are single
  transactions and network events; it has a set of assumptions as an argument, and with the empty set every interleaving is a run,
  settlements of one transfer that overlap included. \<open>LeasesHold\<close> excludes those, \<open>ClocksAgree\<close> says that database and
  process agree on the day; the code enforces neither, each property names what it needs, and
  \<open>overlapping_settlements_conflict\<close> is a run without \<open>LeasesHold\<close> that ends badly. The risk service is a step relation
  (\<open>risk_step\<close>) of single statements: a check, an expiry or a release is a read and later writes that use what was read. The
  verification of a one-time code is split into its read and its write (\<open>otp_read\<close>, \<open>otp_settle\<close>); its property covers
  guesses one after the other and guesses that overlap. The other requests of identity run one after the other, and so
  do the operations of the QR, agent and USSD services.

  \<^bold>\<open>Parameters.\<close> Code outside the repository is an argument: SHA-256, HMAC, Argon2, the primitives of \<open>node:crypto\<close>, the
  WebAuthn library, UUIDs, random bytes, clocks, the process environment, the scheme and origin of a URL, the
  base64url and JSON text codecs, what zod takes for a UUID or an ISO date, the order of rows of a query without one,
  and the answers of the network (records \<open>ledger_env\<close>, \<open>payments_env\<close>, \<open>tx_env\<close>, \<open>qr_env\<close>, \<open>sabcl_crypto\<close>, \<open>gw_env\<close>,
  \<open>zod_env\<close> and those of the risk and identity theories). What a property needs of them is a named hypothesis, and its
  witness instantiates it by a concrete function. One handling of a sealed message sees one instant, and a
  ledger transfer reads the balances it reports from the state its transaction leaves.

  \<^bold>\<open>Theories.\<close>
  \<^item> \<open>Prelude\<close>: results, tables, decimal numerals, shared lemmas.
  \<^item> \<open>Money\<close>: amount schemas, parsing, printing and display (\<open>contracts/src/accounts/v1.ts\<close>,
    \<open>contracts/src/payments/v1.ts\<close>, \<open>ledger/src/money/money.ts\<close>); round trips and exactness.
  \<^item> \<open>LedgerDb\<close>, \<open>CanonicalJson\<close>: tables and errors of the ledger, canonical JSON, hashing, lock keys.
  \<^item> \<open>Idempotency\<close>: \<open>idempotency.service.ts\<close>, one executor for all idempotent operations.
  \<^item> \<open>Journal\<close>, \<open>Books\<close>: \<open>journal.service.ts\<close> and the book invariant: posting preserves it, moves exactly
    what was asked, happens once per key; the commit trigger never fires; the lock order of the query cannot deadlock.
  \<^item> \<open>Accounts\<close>: \<open>account-reference.ts\<close>, \<open>account.service.ts\<close>: provisioning, ownership, balances.
  \<^item> \<open>LedgerTransfers\<close>: \<open>customer-transfer.service.ts\<close>, \<open>channel-operations.service.ts\<close>, their
    controllers and the exception filter.
  \<^item> \<open>LedgerReconciliation\<close>: \<open>reconciliation.service.ts\<close>, the ledger's reachable states.
  \<^item> \<open>Transactions\<close>: \<open>transaction.service.ts\<close>, history, cursors and pages.
  \<^item> \<open>JsNumber\<close>, \<open>RoundingError\<close>: doubles, parsing and printing of numbers, the error of the product with 100 that USSD relies on.
  \<^item> \<open>Configuration\<close>: the configuration of ledger, identity, risk, payments and gateway from the process environment, with
    defaults, ranges, URL and placeholder checks.
  \<^item> \<open>PaymentsDb\<close>, \<open>PaymentsTransfers\<close>: tables, clients and \<open>transfers.service.ts\<close>.
  \<^item> \<open>PaymentsSteps\<close>: the step relation of the payments service over any ledger, its assumptions and its invariant: rows, intents
    and keys stay consistent in every interleaving, the daily limit and the finality of results hold under the assumptions.
  \<^item> \<open>Settlement\<close>: the locale of what payments needs of a ledger, interpreted by the modelled ledger
    behind a network that loses requests and answers; end-to-end properties.
  \<^item> \<open>QrPayments\<close>, \<open>AgentCash\<close>, \<open>Ussd\<close>, \<open>PaymentsReconciliation\<close>: the other payments services (\<open>qr-crypto.ts\<close>,
    \<open>qr.service.ts\<close>, \<open>agent.service.ts\<close>, \<open>ussd.service.ts\<close>, \<open>payments-reconciliation.service.ts\<close>), each with its reachable states;
    what each of them can and cannot do to the ledger.
  \<^item> \<open>RiskEngine\<close>, \<open>RiskEvents\<close>, \<open>RiskControls\<close>, \<open>RiskOperators\<close>: rules and decisions, intake and velocity counters, controls,
    incidents and reconciliation, operator sessions with their audit trail; decisions are enforced, reachable states
    reconcile, operators' changes are audited.
  \<^item> \<open>IdentityStore\<close>, \<open>IdentityAuth\<close>, \<open>IdentityPasskeys\<close>: Redis and rows, sessions, one-time codes, onboarding, PIN login with
    lockout, step-up, passkeys and the HTTP interface; guesses in sequence are bounded, a login needs both factors, a passkey login
    proves possession, the history of the whole service is consistent.
  \<^item> \<open>SabclCodec\<close>, \<open>SabclSeal\<close>: canonical encoding, padding, base64url, key identifiers, keyring; sealing and opening. The
    locale of the cryptographic laws is interpreted by a concrete (insecure) instance for the witnesses.
  \<^item> \<open>SabclRecipient\<close>, \<open>SabclRouter\<close>, \<open>SabclSetup\<close>: the catalogue of capabilities, replay stores, recipient and dispatch; route
    tokens, router and sending client; environment, test-key detection and ingress. A sealed call has the effect of the
    direct one, is dispatched at most once, only for a known peer and an admitted path.
  \<^item> \<open>GatewayHttp\<close>: errors, rate limit, cookies and the double-submit token of the gateway.
  \<^item> \<open>Contracts\<close>: the zod schemas as parsers of JSON documents, with unknown members refused or dropped.
  \<^item> \<open>GatewayClients\<close>: the gateway's calls to the services, directly or over SABCL; the locale \<open>service_client\<close> says which of the
    two a client may use in which mode and is interpreted by the ledger and the payments client.
  \<^item> \<open>GatewayCustomer\<close>, \<open>Gateway\<close>: every route of the gateway. A transfer is confirmed only after all checks; in strict mode
    only the readiness check calls ledger or payments directly; the paths of accounts and transfers are admitted by the recipients, with
    searches of up to 512 characters, and those of the channels are not; recovery is for confirmed operators only.

  \<^bold>\<open>Bounds and fuel.\<close> The retry loop of account creation is bounded by the code itself
  (\<open>MAX_REFERENCE_ATTEMPTS\<close>). Following cursors takes fuel; the theorem on pagination shows that one page more than
  there are transactions is always enough. All other loops are structural recursion or have a termination proof.

  \<^bold>\<open>Not modelled.\<close> Framework wiring, HTTP decoding, response headers other than cookies, logging, connection handling and
  the health pages of the services; the resilience service behind the gateway (its answers are checked against the contract); the user interface; infrastructure scripts;
  generated Prisma code.
\<close>

end
